(* ===== verification/Prelude.thy ===== *)
theory Prelude
  imports Main "HOL-Library.List_Lexorder" "HOL-Library.Char_ord"
begin

text \<open>
  Shared notions of the development: the type names of the model, the collections of simplification
  rules that the component theories extend, and the facts about lists and association lists that
  several components use. Go byte strings are \<^typ>\<open>string\<close> (a list of 8-bit characters), Go
  errors are the left summand of a result.
\<close>

named_theorems go_defs \<open>unfoldings of small Go helpers\<close>
named_theorems world_simps \<open>frame and effect rules of the file-store operations\<close>

type_synonym bytes = string

section \<open>Results\<close>

text \<open>A Go pair \<open>(T, error)\<close>: \<open>Inl\<close> for a non-nil error, \<open>Inr\<close> for the value.\<close>

fun bindR :: "'e + 'a \<Rightarrow> ('a \<Rightarrow> 'e + 'b) \<Rightarrow> 'e + 'b" where
  "bindR (Inl e) k = Inl e"
| "bindR (Inr x) k = k x"

lemma bindR_Inr_iff: "bindR m k = Inr y \<longleftrightarrow> (\<exists>x. m = Inr x \<and> k x = Inr y)"
  by (cases m) auto

lemma bindR_Inl_iff: "bindR m k = Inl e \<longleftrightarrow> m = Inl e \<or> (\<exists>x. m = Inr x \<and> k x = Inl e)"
  by (cases m) auto

section \<open>Association lists kept in insertion order\<close>

text \<open>The first entry for a key, as Go's linear scans over \<open>[]KV\<close> return it.\<close>

fun kv_find :: "('k \<times> 'v) list \<Rightarrow> 'k \<Rightarrow> 'v option" where
  "kv_find [] k = None"
| "kv_find ((k', v) # kvs) k = (if k' = k then Some v else kv_find kvs k)"

text \<open>Replace the first entry for a key in place, or append a new entry.\<close>

fun kv_set :: "('k \<times> 'v) list \<Rightarrow> 'k \<Rightarrow> 'v \<Rightarrow> ('k \<times> 'v) list" where
  "kv_set [] k v = [(k, v)]"
| "kv_set ((k', v') # kvs) k v = (if k' = k then (k', v) # kvs else (k', v') # kv_set kvs k v)"

lemma kv_find_map_of: "kv_find kvs = map_of kvs"
proof
  fix k show "kv_find kvs k = map_of kvs k"
    by (induction kvs k rule: kv_find.induct) auto
qed

lemma kv_find_set_same [simp]: "kv_find (kv_set kvs k v) k = Some v"
  by (induction kvs k v rule: kv_set.induct) auto

lemma kv_find_set_other [simp]: "k' \<noteq> k \<Longrightarrow> kv_find (kv_set kvs k v) k' = kv_find kvs k'"
  by (induction kvs k v rule: kv_set.induct) auto

lemma kv_find_None_iff: "kv_find kvs k = None \<longleftrightarrow> k \<notin> fst ` set kvs"
  by (induction kvs k rule: kv_find.induct) auto

lemma fst_set_kv_set: "fst ` set (kv_set kvs k v) = insert k (fst ` set kvs)"
  by (induction kvs k v rule: kv_set.induct) auto

lemma map_fst_kv_set:
  "map fst (kv_set kvs k v) = (if k \<in> fst ` set kvs then map fst kvs else map fst kvs @ [k])"
  by (induction kvs k v rule: kv_set.induct) auto

lemma distinct_kv_set: "distinct (map fst kvs) \<Longrightarrow> distinct (map fst (kv_set kvs k v))"
  by (auto simp: map_fst_kv_set)

lemma snd_set_kv_set: "snd ` set (kv_set kvs k v) \<subseteq> insert v (snd ` set kvs)"
  by (induction kvs k v rule: kv_set.induct) auto

lemma kv_find_SomeD: "kv_find kvs k = Some v \<Longrightarrow> (k, v) \<in> set kvs"
  by (induction kvs k rule: kv_find.induct) (auto split: if_splits)

lemma kv_find_distinct:
  "distinct (map fst kvs) \<Longrightarrow> (k, v) \<in> set kvs \<Longrightarrow> kv_find kvs k = Some v"
  by (simp add: kv_find_map_of)

lemma kv_find_map_snd: "kv_find (map (\<lambda>kv. (fst kv, f (snd kv))) kvs) k = map_option f (kv_find kvs k)"
  by (induction kvs k rule: kv_find.induct) auto

lemma kv_find_mset:
  assumes "distinct (map fst xs)" and "distinct (map fst ys)" and "set xs = set ys"
  shows "kv_find xs = kv_find ys"
  using assms map_of_inject_set [of xs ys] by (simp add: kv_find_map_of)

section \<open>Sorting by key\<close>

lemma sort_key_map_snd:
  "sort_key fst (map (\<lambda>kv. (fst kv, f (snd kv))) kvs)
     = map (\<lambda>kv. (fst kv, f (snd kv))) (sort_key fst kvs)"
proof (induction kvs)
  case Nil
  then show ?case by simp
next
  case (Cons a kvs)
  have ins: "insort_key fst (fst x, f (snd x)) (map (\<lambda>kv. (fst kv, f (snd kv))) ys)
      = map (\<lambda>kv. (fst kv, f (snd kv))) (insort_key fst x ys)" for x ys
    by (induction ys) auto
  from Cons show ?case by (simp add: ins)
qed

lemma map_fst_sort_key: "map fst (sort_key fst kvs) = sort (map fst kvs)"
proof (induction kvs)
  case Nil
  then show ?case by simp
next
  case (Cons a kvs)
  have ins: "map fst (insort_key fst x ys) = insort (fst x) (map fst ys)" for x ys
    by (induction ys) auto
  from Cons show ?case by (simp add: ins)
qed

lemma distinct_fst_sort_key [simp]:
  "distinct (map fst (sort_key fst kvs)) = distinct (map fst kvs)"
  by (simp add: map_fst_sort_key)

section \<open>Splitting at a delimiter\<close>

text \<open>Go's \<open>strings.Split(s, sep)\<close> for a one-byte separator: never empty.\<close>

fun split_on :: "'a \<Rightarrow> 'a list \<Rightarrow> 'a list list" where
  "split_on d [] = [[]]"
| "split_on d (x # xs) =
     (if x = d then [] # split_on d xs
      else (case split_on d xs of [] \<Rightarrow> [[x]] | l # ls \<Rightarrow> (x # l) # ls))"

lemma split_on_not_Nil [simp]: "split_on d xs \<noteq> []"
  by (cases xs) (auto split: list.splits)

lemma split_on_no_delim: "d \<notin> set xs \<Longrightarrow> split_on d xs = [xs]"
  by (induction xs) auto

lemma split_on_append_delim:
  "split_on d (xs @ d # ys) = split_on d xs @ split_on d ys"
proof (induction xs)
  case Nil
  then show ?case by simp
next
  case (Cons x xs)
  then show ?case by (cases "split_on d xs") auto
qed

lemma split_on_parts_no_delim: "l \<in> set (split_on d xs) \<Longrightarrow> d \<notin> set l"
proof (induction xs arbitrary: l)
  case Nil
  then show ?case by simp
next
  case (Cons x xs)
  then show ?case by (cases "split_on d xs") (auto split: if_splits)
qed

end
