(* ===== verification/GoStd.thy ===== *)
theory GoStd
  imports Prelude "HOL-Library.Word"
begin

text \<open>
  The parts of the Go standard library the modelled packages call, on byte strings: UTF-8 decoding
  and encoding of runes (\<open>unicode/utf8\<close>), decimal rendering of integers (\<open>strconv\<close>),
  \<open>strings.TrimSpace\<close>, lower-case hexadecimal and SHA-256. Everything is executable; a rune is a
  natural number, an undecodable byte decodes to U+FFFD with width one as Go's decoder does.
\<close>

unbundle bit_operations_syntax

section \<open>Runes and UTF-8\<close>

definition RuneError :: nat where "RuneError = 0xFFFD"

definition cont_byte :: "nat \<Rightarrow> bool" where
  "cont_byte b \<longleftrightarrow> 0x80 \<le> b \<and> b \<le> 0xBF"

text \<open>The multi-byte cases of the decoder, by the class of the lead byte.\<close>

definition rune2 :: "nat \<Rightarrow> string \<Rightarrow> nat \<times> nat" where
  "rune2 b0 cs =
     (case cs of c1 # _ \<Rightarrow>
        (let b1 = of_char c1 in
         if cont_byte b1 then ((b0 - 0xC0) * 64 + (b1 - 0x80), 2) else (RuneError, 1))
      | _ \<Rightarrow> (RuneError, 1))"

definition rune3 :: "nat \<Rightarrow> string \<Rightarrow> nat \<times> nat" where
  "rune3 b0 cs =
     (case cs of c1 # c2 # _ \<Rightarrow>
        (let b1 = of_char c1; b2 = of_char c2;
             lo = (if b0 = 0xE0 then 0xA0 else 0x80); hi = (if b0 = 0xED then 0x9F else 0xBF) in
         if lo \<le> b1 \<and> b1 \<le> hi \<and> cont_byte b2
         then ((b0 - 0xE0) * 4096 + (b1 - 0x80) * 64 + (b2 - 0x80), 3) else (RuneError, 1))
      | _ \<Rightarrow> (RuneError, 1))"

definition rune4 :: "nat \<Rightarrow> string \<Rightarrow> nat \<times> nat" where
  "rune4 b0 cs =
     (case cs of c1 # c2 # c3 # _ \<Rightarrow>
        (let b1 = of_char c1; b2 = of_char c2; b3 = of_char c3;
             lo = (if b0 = 0xF0 then 0x90 else 0x80); hi = (if b0 = 0xF4 then 0x8F else 0xBF) in
         if lo \<le> b1 \<and> b1 \<le> hi \<and> cont_byte b2 \<and> cont_byte b3
         then ((b0 - 0xF0) * 262144 + (b1 - 0x80) * 4096 + (b2 - 0x80) * 64 + (b3 - 0x80), 4)
         else (RuneError, 1))
      | _ \<Rightarrow> (RuneError, 1))"

text \<open>\<open>utf8.DecodeRuneInString\<close>: the first rune and its width in bytes.\<close>

definition decode_rune :: "string \<Rightarrow> nat \<times> nat" where
  "decode_rune s =
     (case s of [] \<Rightarrow> (RuneError, 0)
      | c0 # cs \<Rightarrow>
        (let b0 = of_char c0 in
         if b0 < 0x80 then (b0, 1)
         else if 0xC2 \<le> b0 \<and> b0 \<le> 0xDF then rune2 b0 cs
         else if 0xE0 \<le> b0 \<and> b0 \<le> 0xEF then rune3 b0 cs
         else if 0xF0 \<le> b0 \<and> b0 \<le> 0xF4 then rune4 b0 cs
         else (RuneError, 1)))"

definition valid_rune :: "nat \<Rightarrow> bool" where
  "valid_rune r \<longleftrightarrow> r < 0xD800 \<or> (0xE000 \<le> r \<and> r \<le> 0x10FFFF)"

text \<open>\<open>utf8.AppendRune\<close> and \<open>strings.Builder.WriteRune\<close>; surrogates and out-of-range values
  are written as U+FFFD.\<close>

definition encode_rune :: "nat \<Rightarrow> string" where
  "encode_rune r0 =
     (let r = (if valid_rune r0 then r0 else RuneError) in
      if r < 0x80 then [char_of r]
      else if r < 0x800 then [char_of (0xC0 + r div 64), char_of (0x80 + r mod 64)]
      else if r < 0x10000 then
        [char_of (0xE0 + r div 4096), char_of (0x80 + r div 64 mod 64), char_of (0x80 + r mod 64)]
      else [char_of (0xF0 + r div 262144), char_of (0x80 + r div 4096 mod 64),
            char_of (0x80 + r div 64 mod 64), char_of (0x80 + r mod 64)])"

lemma of_char_less_256 [simp]: "(of_char c :: nat) < 256"
  by (cases c) (simp add: of_char_def horner_sum_simps of_bool_def split: if_splits)

lemma of_char_char_of [simp]: "n < 256 \<Longrightarrow> (of_char (char_of n :: char) :: nat) = n"
  by simp

lemma rune_widths:
  "1 \<le> snd (rune2 b cs) \<and> snd (rune2 b cs) \<le> Suc (length cs)"
  "1 \<le> snd (rune3 b cs) \<and> snd (rune3 b cs) \<le> Suc (length cs)"
  "1 \<le> snd (rune4 b cs) \<and> snd (rune4 b cs) \<le> Suc (length cs)"
  by (auto simp: rune2_def rune3_def rune4_def Let_def split: list.splits)

lemma decode_rune_width: "s \<noteq> [] \<Longrightarrow> 1 \<le> snd (decode_rune s) \<and> snd (decode_rune s) \<le> length s"
  using rune_widths by (auto simp: decode_rune_def Let_def neq_Nil_conv)

lemma decode_rune_width_pos [simp]: "s \<noteq> [] \<Longrightarrow> 0 < snd (decode_rune s)"
  using decode_rune_width [of s] by simp

lemma decode_rune_ascii [simp]:
  "(of_char c :: nat) < 128 \<Longrightarrow> decode_rune (c # cs) = (of_char c, 1)"
  by (simp add: decode_rune_def)

lemma valid_RuneError [simp]: "valid_rune RuneError"
  by (simp add: RuneError_def valid_rune_def)

lemma valid_bits_2: "d0 < 32 \<Longrightarrow> d1 < 64 \<Longrightarrow> valid_rune (d0 * 64 + d1)"
  unfolding valid_rune_def by linarith

lemma valid_bits_3:
  assumes "d0 < 16" "d1 < 64" "d2 < 64" "d0 = 13 \<longrightarrow> d1 < 32"
  shows "valid_rune (d0 * 4096 + d1 * 64 + d2)"
proof -
  consider "d0 < 13" | "d0 = 13" "d1 < 32" | "14 \<le> d0"
    by atomize_elim (use assms(4) in presburger)
  then show ?thesis unfolding valid_rune_def using assms(1-3) by cases linarith+
qed

lemma valid_bits_4:
  assumes "d0 \<le> 4" "d1 < 64" "d2 < 64" "d3 < 64" "d0 = 0 \<longrightarrow> 16 \<le> d1" "d0 = 4 \<longrightarrow> d1 < 16"
  shows "valid_rune (d0 * 262144 + d1 * 4096 + d2 * 64 + d3)"
proof -
  consider "d0 = 0" "16 \<le> d1" | "1 \<le> d0" "d0 \<le> 3" | "d0 = 4" "d1 < 16"
    by atomize_elim (use assms(1,5,6) in presburger)
  then show ?thesis unfolding valid_rune_def using assms(2-4) by cases linarith+
qed

lemma rune2_valid:
  assumes b0: "0xC2 \<le> b0" "b0 \<le> 0xDF" shows "valid_rune (fst (rune2 b0 cs))"
proof (cases "fst (rune2 b0 cs) = RuneError")
  case False
  then obtain c1 where c: "cont_byte (of_char c1)"
    and eq: "fst (rune2 b0 cs) = (b0 - 0xC0) * 64 + (of_char c1 - 0x80)"
    by (auto simp: rune2_def Let_def split: list.splits if_splits)
  show ?thesis unfolding eq using b0 c by (intro valid_bits_2) (auto simp: cont_byte_def)
qed simp

lemma rune3_valid:
  assumes b0: "0xE0 \<le> b0" "b0 \<le> 0xEF" shows "valid_rune (fst (rune3 b0 cs))"
proof (cases "fst (rune3 b0 cs) = RuneError")
  case False
  then obtain c1 c2 where c: "(if b0 = 0xE0 then 0xA0 else 0x80) \<le> (of_char c1 :: nat)"
      "(of_char c1 :: nat) \<le> (if b0 = 0xED then 0x9F else 0xBF)" "cont_byte (of_char c2)"
    and eq: "fst (rune3 b0 cs) = (b0 - 0xE0) * 4096 + (of_char c1 - 0x80) * 64 + (of_char c2 - 0x80)"
    unfolding rune3_def Let_def by (fastforce split: list.splits if_split_asm)
  have "b0 - 0xE0 < 16" "of_char c1 - 0x80 < (64::nat)" "of_char c2 - 0x80 < (64::nat)"
    "b0 - 0xE0 = 13 \<longrightarrow> of_char c1 - 0x80 < (32::nat)"
    using b0 c by (auto simp: cont_byte_def split: if_splits)
  then show ?thesis unfolding eq by (rule valid_bits_3)
qed simp

lemma rune4_valid:
  assumes b0: "0xF0 \<le> b0" "b0 \<le> 0xF4" shows "valid_rune (fst (rune4 b0 cs))"
proof (cases "fst (rune4 b0 cs) = RuneError")
  case False
  then obtain c1 c2 c3 where c: "0x80 \<le> (of_char c1 :: nat)" "(of_char c1 :: nat) \<le> 0xBF"
      "b0 = 0xF0 \<longrightarrow> 0x90 \<le> (of_char c1 :: nat)" "b0 = 0xF4 \<longrightarrow> (of_char c1 :: nat) \<le> 0x8F"
      "cont_byte (of_char c2)" "cont_byte (of_char c3)"
    and eq: "fst (rune4 b0 cs) = (b0 - 0xF0) * 262144 + (of_char c1 - 0x80) * 4096
      + (of_char c2 - 0x80) * 64 + (of_char c3 - 0x80)"
    by (auto simp: rune4_def Let_def split: list.splits if_splits)
  show ?thesis unfolding eq using b0 c by (intro valid_bits_4) (auto simp: cont_byte_def)
qed simp

lemma decode_rune_valid: "valid_rune (fst (decode_rune s))"
proof (cases s)
  case Nil
  then show ?thesis by (simp add: decode_rune_def)
next
  case (Cons c cs)
  then show ?thesis
    by (auto simp: decode_rune_def Let_def rune2_valid rune3_valid rune4_valid)
      (simp add: valid_rune_def)
qed

lemma encode_rune_not_Nil [simp]: "encode_rune r \<noteq> []"
  by (simp add: encode_rune_def Let_def)

lemma div_mod_64:
  fixes r :: nat
  shows "r div 64 * 64 + r mod 64 = r"
    and "r div 4096 * 64 + r div 64 mod 64 = r div 64"
    and "r div 262144 * 64 + r div 4096 mod 64 = r div 4096"
  using div_mult_mod_eq [of r 64] div_mult_mod_eq [of "r div 64" 64]
    div_mult_mod_eq [of "r div 4096" 64]
  by (simp_all add: div_mult2_eq [symmetric])

lemma decode_bytes_2:
  "2 \<le> a \<Longrightarrow> a \<le> 31 \<Longrightarrow> c \<le> 63 \<Longrightarrow>
     decode_rune (char_of (0xC0 + a) # char_of (0x80 + c) # rest) = (a * 64 + c, 2)"
  by (simp add: decode_rune_def rune2_def cont_byte_def)

lemma decode_bytes_3:
  "a \<le> 15 \<Longrightarrow> b \<le> 63 \<Longrightarrow> c \<le> 63 \<Longrightarrow> (a = 0 \<longrightarrow> 32 \<le> b) \<Longrightarrow> (a = 13 \<longrightarrow> b \<le> 31) \<Longrightarrow>
     decode_rune (char_of (0xE0 + a) # char_of (0x80 + b) # char_of (0x80 + c) # rest)
       = (a * 4096 + b * 64 + c, 3)"
  by (auto simp: decode_rune_def rune3_def cont_byte_def)

lemma decode_bytes_4:
  "a \<le> 4 \<Longrightarrow> b \<le> 63 \<Longrightarrow> c \<le> 63 \<Longrightarrow> d \<le> 63 \<Longrightarrow> (a = 0 \<longrightarrow> 16 \<le> b) \<Longrightarrow> (a = 4 \<longrightarrow> b \<le> 15) \<Longrightarrow>
     decode_rune (char_of (0xF0 + a) # char_of (0x80 + b) # char_of (0x80 + c) # char_of (0x80 + d) # rest)
       = (a * 262144 + b * 4096 + c * 64 + d, 4)"
  by (auto simp: decode_rune_def rune4_def cont_byte_def)

lemma decode_encode_rune:
  assumes v: "valid_rune r"
  shows "decode_rune (encode_rune r @ rest) = (r, length (encode_rune r))"
proof -
  note dm = div_mod_64 [of r]
  have m: "r mod 64 \<le> 63" "r div 64 mod 64 \<le> 63" "r div 4096 mod 64 \<le> 63" by auto
  consider "r < 0x80" | "0x80 \<le> r" "r < 0x800" | "0x800 \<le> r" "r < 0x10000"
    | "0x10000 \<le> r" "r \<le> 0x10FFFF"
    using v by (fastforce simp: valid_rune_def)
  then show ?thesis
  proof cases
    case 1
    then show ?thesis using v by (simp add: encode_rune_def decode_rune_def)
  next
    case 2
    have "r div 64 \<le> 31" "2 \<le> r div 64" using 2 by auto
    from decode_bytes_2 [OF this(2,1) m(1)] dm(1) show ?thesis using 2 v
      by (simp add: encode_rune_def)
  next
    case 3
    let ?a = "r div 4096" and ?b = "r div 64 mod 64" and ?c = "r mod 64"
    have r: "?a * 4096 + ?b * 64 + ?c = r" using dm(1,2) by linarith
    have a: "?a \<le> 15" using 3 by auto
    have e0: "?a = 0 \<longrightarrow> 32 \<le> ?b" using 3 r m by linarith
    have ed: "?a = 13 \<longrightarrow> ?b \<le> 31"
      using 3 v r m unfolding valid_rune_def by linarith
    from decode_bytes_3 [OF a m(2,1) e0 ed] r show ?thesis using 3 v
      by (simp add: encode_rune_def)
  next
    case 4
    let ?a = "r div 262144" and ?b = "r div 4096 mod 64" and ?c = "r div 64 mod 64" and ?d = "r mod 64"
    have r: "?a * 262144 + ?b * 4096 + ?c * 64 + ?d = r" using dm by linarith
    have a: "?a \<le> 4" using 4 by auto
    have f0: "?a = 0 \<longrightarrow> 16 \<le> ?b" using 4 r m by linarith
    have f4: "?a = 4 \<longrightarrow> ?b \<le> 15" using 4 r m by linarith
    from decode_bytes_4 [OF a m(3,2,1) f0 f4] r show ?thesis using 4 v
      by (simp add: encode_rune_def)
  qed
qed

text \<open>The runes of a \<open>for range\<close> loop over a string.\<close>

function runes :: "string \<Rightarrow> nat list" where
  "runes s = (if s = [] then []
              else fst (decode_rune s) # runes (drop (snd (decode_rune s)) s))"
  by pat_completeness auto
termination
  by (relation "measure length") auto

declare runes.simps [simp del]

lemma runes_Nil [simp]: "runes [] = []"
  by (simp add: runes.simps)

lemma runes_ascii [simp]: "(of_char c :: nat) < 128 \<Longrightarrow> runes (c # cs) = of_char c # runes cs"
  by (subst runes.simps) simp

definition utf8_encode :: "nat list \<Rightarrow> string" where
  "utf8_encode rs = concat (map encode_rune rs)"

lemma utf8_encode_simps [simp]:
  "utf8_encode [] = []" "utf8_encode (r # rs) = encode_rune r @ utf8_encode rs"
  "utf8_encode (rs @ rs') = utf8_encode rs @ utf8_encode rs'"
  by (simp_all add: utf8_encode_def)

lemma runes_encode_rune_append:
  "valid_rune r \<Longrightarrow> runes (encode_rune r @ rest) = r # runes rest"
  by (subst runes.simps) (simp add: decode_encode_rune)

lemma runes_utf8_encode: "\<forall>r\<in>set rs. valid_rune r \<Longrightarrow> runes (utf8_encode rs) = rs"
  by (induction rs) (auto simp: runes_encode_rune_append)

lemma runes_valid: "r \<in> set (runes s) \<Longrightarrow> valid_rune r"
proof (induction s rule: runes.induct)
  case (1 s)
  show ?case
  proof (cases "s = []")
    case False
    with 1 show ?thesis
      by (subst (asm) (2) runes.simps) (auto simp: decode_rune_valid)
  qed (use 1 in simp)
qed

lemma length_runes_le: "length (runes s) \<le> length s"
proof (induction s rule: runes.induct)
  case (1 s)
  show ?case
  proof (cases "s = []")
    case False
    with 1 have "length (runes (drop (snd (decode_rune s)) s)) \<le> length s - snd (decode_rune s)"
      by simp
    with decode_rune_width [OF False]
    have "Suc (length (runes (drop (snd (decode_rune s)) s))) \<le> length s" by linarith
    with False show ?thesis by (subst runes.simps) simp
  qed simp
qed

text \<open>A string is valid UTF-8 when re-encoding its runes gives it back.\<close>

definition valid_utf8 :: "string \<Rightarrow> bool" where
  "valid_utf8 s \<longleftrightarrow> utf8_encode (runes s) = s"

lemma valid_utf8_encode [simp]: "\<forall>r\<in>set rs. valid_rune r \<Longrightarrow> valid_utf8 (utf8_encode rs)"
  by (simp add: valid_utf8_def runes_utf8_encode)

lemma valid_utf8_Nil [simp]: "valid_utf8 []"
  by (simp add: valid_utf8_def)

lemma encode_rune_ascii: "r < 128 \<Longrightarrow> encode_rune r = [char_of r]"
  by (simp add: encode_rune_def valid_rune_def)

lemma valid_utf8_ascii: "\<forall>c\<in>set s. (of_char c :: nat) < 128 \<Longrightarrow> valid_utf8 s"
  by (induction s) (auto simp: valid_utf8_def encode_rune_ascii)

text \<open>\<open>utf8.RuneCountInString\<close>\<close>

definition RuneCount :: "string \<Rightarrow> nat" where
  "RuneCount s = length (runes s)"

section \<open>Trimming white space\<close>

text \<open>\<open>unicode.IsSpace\<close>\<close>

definition isSpace :: "nat \<Rightarrow> bool" where
  "isSpace r \<longleftrightarrow> r \<in> {9, 10, 11, 12, 13, 32, 0x85, 0xA0, 0x1680, 0x2028, 0x2029, 0x202F, 0x205F, 0x3000}
     \<or> (0x2000 \<le> r \<and> r \<le> 0x200A)"

text \<open>The runes of a string, each with the bytes it was decoded from.\<close>

function rune_segments :: "string \<Rightarrow> (nat \<times> string) list" where
  "rune_segments s = (if s = [] then []
     else (fst (decode_rune s), take (snd (decode_rune s)) s)
            # rune_segments (drop (snd (decode_rune s)) s))"
  by pat_completeness auto
termination
  by (relation "measure length") auto

declare rune_segments.simps [simp del]

text \<open>\<open>strings.TrimSpace\<close>\<close>

definition TrimSpace :: "string \<Rightarrow> string" where
  "TrimSpace s = concat (map snd (rev (dropWhile (isSpace \<circ> fst)
      (rev (dropWhile (isSpace \<circ> fst) (rune_segments s))))))"

lemma concat_rune_segments: "concat (map snd (rune_segments s)) = s"
proof (induction s rule: rune_segments.induct)
  case (1 s)
  then show ?case
    by (cases "s = []") (simp_all add: rune_segments.simps [of s] rune_segments.simps [of "[]"])
qed

section \<open>Decimal integers\<close>

definition digit_char :: "nat \<Rightarrow> char" where
  "digit_char d = char_of (48 + d)"

definition is_digit :: "char \<Rightarrow> bool" where
  "is_digit c \<longleftrightarrow> 48 \<le> (of_char c :: nat) \<and> (of_char c :: nat) \<le> 57"

definition digit_val :: "char \<Rightarrow> nat" where
  "digit_val c = of_char c - 48"

text \<open>\<open>strconv.Itoa\<close> and \<open>strconv.FormatInt(_, 10)\<close>\<close>

fun nat_digits :: "nat \<Rightarrow> string" where
  "nat_digits n = (if n < 10 then [digit_char n] else nat_digits (n div 10) @ [digit_char (n mod 10)])"

declare nat_digits.simps [simp del]

definition FormatInt :: "int \<Rightarrow> string" where
  "FormatInt i = (if i < 0 then CHR ''-'' # nat_digits (nat (- i)) else nat_digits (nat i))"

definition digits_val :: "string \<Rightarrow> nat" where
  "digits_val s = foldl (\<lambda>n c. n * 10 + digit_val c) 0 s"

lemma digit_char_props [simp]:
  "d < 10 \<Longrightarrow> is_digit (digit_char d)" "d < 10 \<Longrightarrow> digit_val (digit_char d) = d"
  by (simp_all add: is_digit_def digit_char_def digit_val_def)

lemma digits_val_snoc [simp]: "digits_val (s @ [c]) = digits_val s * 10 + digit_val c"
  by (simp add: digits_val_def)

lemma digits_val_nat_digits [simp]: "digits_val (nat_digits n) = n"
proof (induction n rule: nat_digits.induct)
  case (1 n)
  then show ?case
    by (cases "n < 10") (simp_all add: nat_digits.simps [of n] digits_val_def)
qed

lemma nat_digits_digits: "c \<in> set (nat_digits n) \<Longrightarrow> is_digit c"
proof (induction n rule: nat_digits.induct)
  case (1 n)
  then show ?case
    by (cases "n < 10") (auto simp: nat_digits.simps [of n])
qed

lemma nat_digits_not_Nil [simp]: "nat_digits n \<noteq> []"
  by (simp add: nat_digits.simps)

lemma digit_char_0: "digit_char 0 = CHR ''0''"
  unfolding digit_char_def by code_simp

lemma hd_nat_digits: "0 < n \<Longrightarrow> hd (nat_digits n) \<noteq> CHR ''0''"
proof (induction n rule: nat_digits.induct)
  case (1 n)
  show ?case
  proof (cases "n < 10")
    case True
    have "digit_char n \<noteq> digit_char 0"
    proof
      assume "digit_char n = digit_char 0"
      then have "digit_val (digit_char n) = digit_val (digit_char 0)" by simp
      with True 1(2) show False by simp
    qed
    moreover have "digit_char 0 = CHR ''0''" by (rule digit_char_0)
    ultimately show ?thesis using True by (simp add: nat_digits.simps [of n])
  next
    case False
    with 1 show ?thesis by (simp add: nat_digits.simps [of n])
  qed
qed

lemma nat_digits_zero: "nat_digits 0 = ''0''"
  by (simp add: nat_digits.simps digit_char_0)

text \<open>Wrap-around of a Go \<open>int64\<close>.\<close>

definition int64_range :: "int \<Rightarrow> bool" where
  "int64_range i \<longleftrightarrow> - (2 ^ 63) \<le> i \<and> i < 2 ^ 63"

definition wrap64 :: "int \<Rightarrow> int" where
  "wrap64 i = (i + 2 ^ 63) mod 2 ^ 64 - 2 ^ 63"

lemma wrap64_range [simp]: "int64_range (wrap64 i)"
proof -
  have "0 \<le> (i + 2 ^ 63) mod 2 ^ 64" "(i + 2 ^ 63) mod (2 ^ 64) < (2 ^ 64 :: int)"
    by (rule pos_mod_sign pos_mod_bound, simp)+
  then show ?thesis by (simp add: int64_range_def wrap64_def)
qed

lemma wrap64_id: "int64_range i \<Longrightarrow> wrap64 i = i"
  by (simp add: int64_range_def wrap64_def)

end
