(* ===== verification/Float64.thy ===== *)
theory Float64
  imports GoStd
begin

text \<open>
  IEEE 754 binary64 numbers as the JSON layer uses them: correctly rounded parsing of a decimal
  literal (\<open>strconv.ParseFloat\<close>), the shortest decimal that parses back
  (\<open>strconv.FormatFloat(f, 'g', -1, 64)\<close>), and the CPython-compatible rendering
  \<open>PythonFloat\<close> of \<^verbatim>\<open>internal/jval/value.go\<close>. A finite number is a sign, a mantissa and
  a binary exponent; all arithmetic is exact on natural numbers.
\<close>

datatype f64 = FNaN | FInf bool | FFin bool nat int

section \<open>Rounding a positive rational to binary64\<close>

fun bit_length :: "nat \<Rightarrow> nat" where
  "bit_length n = (if n = 0 then 0 else Suc (bit_length (n div 2)))"

declare bit_length.simps [simp del]

definition scale2 :: "nat \<Rightarrow> nat \<Rightarrow> int \<Rightarrow> nat \<times> nat" where
  \<comment> \<open>numerator and denominator of \<open>(num / den) / 2 ^ e\<close>\<close>
  "scale2 num den e = (if 0 \<le> e then (num, den * 2 ^ nat e) else (num * 2 ^ nat (- e), den))"

definition scale10 :: "nat \<Rightarrow> nat \<Rightarrow> int \<Rightarrow> nat \<times> nat" where
  \<comment> \<open>numerator and denominator of \<open>(num / den) * 10 ^ e\<close>\<close>
  "scale10 num den e = (if 0 \<le> e then (num * 10 ^ nat e, den) else (num, den * 10 ^ nat (- e)))"

definition round_half_even :: "nat \<Rightarrow> nat \<Rightarrow> nat" where
  "round_half_even num den =
     (let d = num div den; r = num mod den
      in if 2 * r < den \<or> (2 * r = den \<and> even d) then d else Suc d)"

definition floor_log2 :: "nat \<Rightarrow> nat \<Rightarrow> int" where
  "floor_log2 num den =
     (let k = int (bit_length num) - int (bit_length den); (n', d') = scale2 num den k
      in if d' \<le> n' then k else k - 1)"

text \<open>\<open>None\<close> is the range error of \<open>strconv.ParseFloat\<close> (overflow to infinity).\<close>

definition round64 :: "nat \<Rightarrow> nat \<Rightarrow> (nat \<times> int) option" where
  "round64 num den =
     (if num = 0 then Some (0, -1074)
      else let e = max (-1074) (floor_log2 num den - 52);
               (n', d') = scale2 num den e;
               m = round_half_even n' d';
               (m', e') = (if m = 2 ^ 53 then (2 ^ 52, e + 1) else (m, e))
           in if e' > 971 then None else Some (m', e'))"

definition f64_finite_ok :: "nat \<Rightarrow> int \<Rightarrow> bool" where
  "f64_finite_ok m e \<longleftrightarrow> m < 2 ^ 53 \<and> - 1074 \<le> e \<and> e \<le> 971 \<and> (2 ^ 52 \<le> m \<or> e = - 1074)"

section \<open>Parsing decimal literals\<close>

text \<open>A JSON number literal split into sign, integer digits, fraction digits and exponent.\<close>

definition split_at_char :: "char \<Rightarrow> string \<Rightarrow> string \<times> string option" where
  "split_at_char c s = (let p = takeWhile (\<lambda>x. x \<noteq> c) s; q = drop (length p) s
                        in (p, if q = [] then None else Some (tl q)))"

definition Atoi :: "string \<Rightarrow> int" where
  "Atoi s = (case s of c # cs \<Rightarrow> if c = CHR ''-'' then - int (digits_val cs)
                                 else if c = CHR ''+'' then int (digits_val cs) else int (digits_val s)
             | [] \<Rightarrow> 0)"

definition decimal_parts :: "string \<Rightarrow> bool \<times> string \<times> string \<times> int" where
  "decimal_parts s0 =
     (let neg = (s0 \<noteq> [] \<and> hd s0 = CHR ''-''); s = (if neg then tl s0 else s0);
          mant = takeWhile (\<lambda>c. c \<noteq> CHR ''e'' \<and> c \<noteq> CHR ''E'') s;
          ex = drop (Suc (length mant)) s;
          (ip, fp) = split_at_char CHR ''.'' mant
      in (neg, ip, case fp of None \<Rightarrow> [] | Some f \<Rightarrow> f, Atoi ex))"

definition ParseFloat :: "string \<Rightarrow> f64 option" where
  "ParseFloat s =
     (let (neg, ip, fp, ex) = decimal_parts s;
          (num, den) = scale10 (digits_val (ip @ fp)) 1 (ex - int (length fp))
      in map_option (\<lambda>(m, e). FFin neg m e) (round64 num den))"

section \<open>Shortest decimal digits\<close>

definition dec_exponent :: "nat \<Rightarrow> nat \<Rightarrow> int" where
  \<comment> \<open>the exponent of the leading decimal digit of \<open>num / den\<close>\<close>
  "dec_exponent num den =
     (let a = int (length (nat_digits num)) - int (length (nat_digits den));
          (n', d') = scale10 num den (- a)
      in if d' \<le> n' then a else a - 1)"

definition decimal_rounds_to :: "nat \<Rightarrow> int \<Rightarrow> nat \<times> int \<Rightarrow> bool" where
  "decimal_rounds_to c k me \<longleftrightarrow> (let (n, d) = scale10 c 1 k in round64 n d = Some me)"

text \<open>The closest \<open>n\<close>-digit decimal that rounds to \<open>me\<close>, if there is one.\<close>

definition short_candidate :: "nat \<Rightarrow> nat \<Rightarrow> int \<Rightarrow> nat \<times> int \<Rightarrow> nat \<Rightarrow> nat option" where
  "short_candidate num den e10 me n =
     (let k = e10 - int n + 1; (n', d') = scale10 num den (- k);
          lo = n' div d'; r = n' mod d';
          okl = decimal_rounds_to lo k me; okh = (r \<noteq> 0 \<and> decimal_rounds_to (Suc lo) k me)
      in if okl \<and> (\<not> okh \<or> 2 * r < d' \<or> (2 * r = d' \<and> even lo)) then Some lo
         else if okh then Some (Suc lo) else None)"

fun shortest_from :: "nat \<Rightarrow> nat \<Rightarrow> nat \<Rightarrow> nat \<Rightarrow> int \<Rightarrow> nat \<times> int \<Rightarrow> (nat \<times> int) option" where
  "shortest_from 0 n num den e10 me = None"
| "shortest_from (Suc fuel) n num den e10 me =
     (case short_candidate num den e10 me n of
        Some c \<Rightarrow> Some (c, e10 - int n + 1)
      | None \<Rightarrow> shortest_from fuel (Suc n) num den e10 me)"

definition strip_zeros :: "string \<Rightarrow> string" where
  "strip_zeros s = rev (dropWhile (\<lambda>c. c = CHR ''0'') (rev s))"

text \<open>The significant digits and the exponent of the leading digit of a finite non-zero number.\<close>

definition shortest_digits :: "nat \<Rightarrow> int \<Rightarrow> string \<times> int" where
  "shortest_digits m e =
     (let (num, den) = (if 0 \<le> e then (m * 2 ^ nat e, 1) else (m, 2 ^ nat (- e)));
          e10 = dec_exponent num den
      in case shortest_from 1400 1 num den e10 (m, e) of
           None \<Rightarrow> ([], 0)
         | Some (c, k) \<Rightarrow> (let ds = nat_digits c in (strip_zeros ds, k + int (length ds) - 1)))"

section \<open>\<open>strconv.FormatFloat(f, 'g', -1, 64)\<close> on a positive number\<close>

definition exp_text :: "int \<Rightarrow> string" where
  "exp_text e = (let es = nat_digits (nat \<bar>e\<bar>)
                 in (if e < 0 then CHR ''-'' else CHR ''+'') # (if length es < 2 then CHR ''0'' # es else es))"

definition fmtE :: "string \<Rightarrow> int \<Rightarrow> string" where
  "fmtE digits e = take 1 digits @ (if length digits > 1 then CHR ''.'' # drop 1 digits else [])
                   @ CHR ''e'' # exp_text e"

definition fmtF :: "string \<Rightarrow> int \<Rightarrow> string" where
  "fmtF digits e =
     (let dp = e + 1; nd = int (length digits) in
      if dp \<le> 0 then ''0.'' @ replicate (nat (- dp)) CHR ''0'' @ digits
      else if dp < nd then take (nat dp) digits @ CHR ''.'' # drop (nat dp) digits
      else digits @ replicate (nat (dp - nd)) CHR ''0'')"

definition FormatFloat_g :: "string \<Rightarrow> int \<Rightarrow> string" where
  "FormatFloat_g digits e = (if e < -4 \<or> 6 \<le> e then fmtE digits e else fmtF digits e)"

section \<open>\<open>PythonFloat\<close>\<close>

definition TrimLeft0 :: "string \<Rightarrow> string" where
  "TrimLeft0 s = dropWhile (\<lambda>c. c = CHR ''0'') s"

definition parseFloatShortest :: "string \<Rightarrow> string \<times> int" where
  "parseFloatShortest s0 =
     (let s1 = (if s0 \<noteq> [] \<and> hd s0 = CHR ''-'' then tl s0 else s0);
          (s2, exs) = split_at_char CHR ''e'' s1;
          ex = (case exs of None \<Rightarrow> 0 | Some t \<Rightarrow> Atoi t);
          (intm, fr) = split_at_char CHR ''.'' s2;
          fracm = (case fr of None \<Rightarrow> [] | Some t \<Rightarrow> t)
      in if intm \<noteq> ''0'' then (intm @ fracm, int (length intm) - 1 + ex)
         else let digits = TrimLeft0 fracm
              in (digits, - (int (length fracm) - int (length digits)) - 1 + ex))"

definition sciRepr :: "string \<Rightarrow> int \<Rightarrow> string" where
  "sciRepr digits e =
     (let mant = (if length digits > 1 then take 1 digits @ ''.'' @ drop 1 digits else take 1 digits);
          sign = (if e < 0 then ''-'' else ''+'');
          es = nat_digits (nat \<bar>e\<bar>)
      in mant @ ''e'' @ sign @ (if length es < 2 then ''0'' @ es else es))"

definition fixedRepr :: "string \<Rightarrow> int \<Rightarrow> string" where
  "fixedRepr digits e =
     (let pos = e + 1 in
      if pos \<le> 0 then ''0.'' @ replicate (nat (- pos)) CHR ''0'' @ digits
      else if pos < int (length digits) then take (nat pos) digits @ ''.'' @ drop (nat pos) digits
      else digits @ replicate (nat (pos - int (length digits))) CHR ''0'' @ ''.0'')"

fun PythonFloat :: "f64 \<Rightarrow> string" where
  "PythonFloat FNaN = ''NaN''"
| "PythonFloat (FInf neg) = (if neg then ''-Infinity'' else ''Infinity'')"
| "PythonFloat (FFin neg m e) =
     (if m = 0 then (if neg then ''-0.0'' else ''0.0'')
      else let (ds, ex) = shortest_digits m e;
               (digits, e10) = parseFloatShortest (FormatFloat_g ds ex);
               out = (if e10 < -4 \<or> 16 \<le> e10 then sciRepr digits e10 else fixedRepr digits e10)
           in if neg then ''-'' @ out else out)"

end
