(* ===== verification/FloatRounding.thy ===== *)
theory FloatRounding
  imports Complex_Main Float64
begin

text \<open>
  The number theory behind the float rendering: scaling is exact division, \<open>round64\<close> depends only on
  the rational it is given and returns a representable number unchanged, and the shortest-digits
  search of \<open>shortest_digits\<close> always succeeds with a decimal that rounds back. The bound 1400 on the
  number of digits is never reached: a finite binary64 number has an exact decimal with at most
  1383 digits.
\<close>

section \<open>Scaling as exact division\<close>

abbreviation ratio :: "nat \<Rightarrow> nat \<Rightarrow> real" where "ratio n d \<equiv> real n / real d"

lemma scale2_ratio:
  assumes "0 < den" and "scale2 num den e = (n', d')"
  shows "0 < d'" and "ratio n' d' = ratio num den / 2 powi e"
proof -
  show "0 < d'" using assms by (auto simp: scale2_def split: if_splits)
  show "ratio n' d' = ratio num den / 2 powi e"
    using assms by (auto simp: scale2_def power_int_def field_simps split: if_splits)
qed

lemma scale10_ratio:
  assumes "0 < den" and "scale10 num den e = (n', d')"
  shows "0 < d'" and "ratio n' d' = ratio num den * 10 powi e"
proof -
  show "0 < d'" using assms by (auto simp: scale10_def split: if_splits)
  show "ratio n' d' = ratio num den * 10 powi e"
    using assms by (auto simp: scale10_def power_int_def field_simps split: if_splits)
qed

lemma ratio_le_1_iff: "0 < d \<Longrightarrow> 1 \<le> ratio n d \<longleftrightarrow> d \<le> n"
  by (simp add: field_simps)

lemma one_le_divideD: "0 < c \<Longrightarrow> 1 \<le> x / c \<Longrightarrow> c \<le> x" for c x :: real
  by (simp add: le_divide_eq_1_pos)

lemma divide_less_oneD: "0 < c \<Longrightarrow> x / c < 1 \<Longrightarrow> x < c" for c x :: real
  by (simp add: divide_less_eq_1_pos)

section \<open>The binary and the decimal exponent\<close>

lemma bit_length_bounds: "0 < n \<Longrightarrow> 2 ^ (bit_length n - 1) \<le> n \<and> n < 2 ^ bit_length n \<and> 0 < bit_length n"
proof (induction n rule: bit_length.induct)
  case (1 n)
  show ?case
  proof (cases "n div 2 = 0")
    case True
    with 1(2) have "n = 1" by simp
    then show ?thesis by (simp add: bit_length.simps [of "Suc 0"] bit_length.simps [of 0])
  next
    case False
    with 1 have ih: "2 ^ (bit_length (n div 2) - 1) \<le> n div 2" "n div 2 < 2 ^ bit_length (n div 2)"
        "0 < bit_length (n div 2)" by auto
    have e: "bit_length n = Suc (bit_length (n div 2))" using 1(2) by (simp add: bit_length.simps [of n])
    have "(2::nat) ^ bit_length (n div 2) = 2 * 2 ^ (bit_length (n div 2) - 1)"
      using ih(3) by (cases "bit_length (n div 2)") auto
    with ih have "2 ^ bit_length (n div 2) \<le> n" by linarith
    moreover have "n < 2 * 2 ^ bit_length (n div 2)" using ih(2) by linarith
    ultimately show ?thesis by (simp add: e)
  qed
qed

lemma exponent_unique:
  fixes x b :: real
  assumes "1 < b" "b powi i \<le> x" "x < b powi (i + 1)" "b powi j \<le> x" "x < b powi (j + 1)"
  shows "i = j"
proof -
  have "b powi i < b powi (j + 1)" "b powi j < b powi (i + 1)" using assms by linarith+
  then have "i < j + 1" "j < i + 1"
    using assms(1) by (metis linorder_not_less order_less_imp_le power_int_increasing)+
  then show ?thesis by simp
qed

lemma floor_log2_spec:
  assumes "0 < num" "0 < den"
  shows "2 powi floor_log2 num den \<le> ratio num den \<and> ratio num den < 2 powi (floor_log2 num den + 1)"
proof -
  define a b where "a = bit_length num" and "b = bit_length den"
  define k where "k = int a - int b"
  obtain n' d' where sc: "scale2 num den k = (n', d')" by fastforce
  note r = scale2_ratio [OF assms(2) sc]
  have A: "2 ^ (a - 1) \<le> num" "num < 2 ^ a" "0 < a" and B: "2 ^ (b - 1) \<le> den" "den < 2 ^ b" "0 < b"
    using bit_length_bounds assms by (auto simp: a_def b_def)
  have A': "(2::real) ^ (a - 1) \<le> real num" "real num < 2 ^ a"
    using A by (metis of_nat_le_iff of_nat_less_iff of_nat_numeral of_nat_power)+
  have B': "(2::real) ^ (b - 1) \<le> real den" "real den < 2 ^ b"
    using B by (metis of_nat_le_iff of_nat_less_iff of_nat_numeral of_nat_power)+
  have lo: "2 powi (k - 1) < ratio num den"
  proof -
    have "(2::real) powi (k - 1) = 2 ^ (a - 1) / 2 ^ b"
    proof -
      have "k - 1 = int (a - 1) - int b" using A(3) by (simp add: k_def)
      then show ?thesis by (simp add: power_int_diff)
    qed
    also have "\<dots> < ratio num den"
      using A' B' assms by (intro frac_less2) auto
    finally show ?thesis .
  qed
  have hi: "ratio num den < 2 powi (k + 1)"
  proof -
    have "ratio num den < 2 ^ a / 2 ^ (b - 1)"
      using A' B' assms by (intro frac_less) auto
    also have "\<dots> = 2 powi (k + 1)"
    proof -
      have "k + 1 = int a - int (b - 1)" using B(3) by (simp add: k_def)
      then show ?thesis by (simp add: power_int_diff)
    qed
    finally show ?thesis .
  qed
  have fl: "floor_log2 num den = (if d' \<le> n' then k else k - 1)"
    using sc by (simp add: floor_log2_def a_def b_def k_def)
  note rk = r(2)
  have iff: "1 \<le> ratio num den / 2 powi k \<longleftrightarrow> d' \<le> n'"
    unfolding rk [symmetric] by (rule ratio_le_1_iff [OF r(1)])
  have pos: "(0::real) < 2 powi k" by simp
  show ?thesis
  proof (cases "d' \<le> n'")
    case True
    from iff True have "1 \<le> ratio num den / 2 powi k" by blast
    from one_le_divideD [OF pos this] hi show ?thesis unfolding fl using True by simp
  next
    case False
    from iff False have "ratio num den / 2 powi k < 1" by linarith
    from divide_less_oneD [OF pos this] lo show ?thesis unfolding fl using False by simp
  qed
qed

lemma floor_log2_eqI:
  assumes "0 < num" "0 < den" "2 powi j \<le> ratio num den" "ratio num den < 2 powi (j + 1)"
  shows "floor_log2 num den = j"
  using exponent_unique [of 2 "floor_log2 num den" "ratio num den" j] floor_log2_spec [OF assms(1,2)] assms
  by simp

lemma nat_digits_bounds: "0 < n \<Longrightarrow> 10 ^ (length (nat_digits n) - 1) \<le> n \<and> n < 10 ^ length (nat_digits n)"
proof (induction n rule: nat_digits.induct)
  case (1 n)
  show ?case
  proof (cases "n < 10")
    case True
    then show ?thesis using 1(2) by (simp add: nat_digits.simps [of n])
  next
    case False
    let ?l = "length (nat_digits (n div 10))"
    from False 1(1) have ih: "10 ^ (?l - 1) \<le> n div 10" "n div 10 < 10 ^ ?l" by auto
    have l: "0 < ?l" by simp
    have e: "length (nat_digits n) = Suc ?l" using False by (simp add: nat_digits.simps [of n])
    have "(10::nat) ^ ?l = 10 * 10 ^ (?l - 1)" using l by (cases ?l) auto
    with ih have "10 ^ ?l \<le> n" by linarith
    moreover have "n < 10 * 10 ^ ?l" using ih(2) by linarith
    ultimately show ?thesis by (simp add: e)
  qed
qed

lemma dec_exponent_spec:
  assumes "0 < num" "0 < den"
  shows "10 powi dec_exponent num den \<le> ratio num den \<and> ratio num den < 10 powi (dec_exponent num den + 1)"
proof -
  define a b where "a = length (nat_digits num)" and "b = length (nat_digits den)"
  define k where "k = int a - int b"
  obtain n' d' where sc: "scale10 num den (- k) = (n', d')" by fastforce
  note r = scale10_ratio [OF assms(2) sc]
  have A: "10 ^ (a - 1) \<le> num" "num < 10 ^ a" and B: "10 ^ (b - 1) \<le> den" "den < 10 ^ b"
    and ab: "0 < a" "0 < b"
    using nat_digits_bounds assms by (auto simp: a_def b_def)
  have A': "(10::real) ^ (a - 1) \<le> real num" "real num < 10 ^ a"
    using A by (metis of_nat_le_iff of_nat_less_iff of_nat_numeral of_nat_power)+
  have B': "(10::real) ^ (b - 1) \<le> real den" "real den < 10 ^ b"
    using B by (metis of_nat_le_iff of_nat_less_iff of_nat_numeral of_nat_power)+
  have lo: "10 powi (k - 1) < ratio num den"
  proof -
    have "k - 1 = int (a - 1) - int b" using ab by (simp add: k_def)
    then have "(10::real) powi (k - 1) = 10 ^ (a - 1) / 10 ^ b" by (simp add: power_int_diff)
    also have "\<dots> < ratio num den"
      using A' B' assms by (intro frac_less2) auto
    finally show ?thesis .
  qed
  have hi: "ratio num den < 10 powi (k + 1)"
  proof -
    have "ratio num den < 10 ^ a / 10 ^ (b - 1)"
      using A' B' assms by (intro frac_less) auto
    moreover have "k + 1 = int a - int (b - 1)" using ab by (simp add: k_def)
    ultimately show ?thesis by (simp add: power_int_diff)
  qed
  have fl: "dec_exponent num den = (if d' \<le> n' then k else k - 1)"
    using sc by (simp add: dec_exponent_def a_def b_def k_def)
  have rk: "ratio n' d' = ratio num den / 10 powi k"
    unfolding r(2) power_int_minus by (simp only: divide_inverse)
  have iff: "1 \<le> ratio num den / 10 powi k \<longleftrightarrow> d' \<le> n'"
    unfolding rk [symmetric] by (rule ratio_le_1_iff [OF r(1)])
  have pos: "(0::real) < 10 powi k" by simp
  show ?thesis
  proof (cases "d' \<le> n'")
    case True
    from iff True have "1 \<le> ratio num den / 10 powi k" by blast
    from one_le_divideD [OF pos this] hi show ?thesis unfolding fl using True by simp
  next
    case False
    from iff False have "ratio num den / 10 powi k < 1" by linarith
    from divide_less_oneD [OF pos this] lo show ?thesis unfolding fl using False by simp
  qed
qed

section \<open>Rounding depends on the rational only\<close>

definition rhe_real :: "real \<Rightarrow> nat" where
  "rhe_real x = (let d = nat \<lfloor>x\<rfloor>; f = x - real d
                 in if 2 * f < 1 \<or> (2 * f = 1 \<and> even d) then d else Suc d)"

lemma round_half_even_real:
  assumes "0 < den" shows "round_half_even n den = rhe_real (ratio n den)"
proof -
  have fl: "nat \<lfloor>ratio n den\<rfloor> = n div den" by (simp add: floor_divide_of_nat_eq)
  have fr: "ratio n den - real (n div den) = ratio (n mod den) den"
  proof -
    have "real n = real (n div den) * real den + real (n mod den)"
      by (metis div_mult_mod_eq of_nat_add of_nat_mult)
    with assms show ?thesis by (simp add: field_simps)
  qed
  have two: "2 * ratio r den = ratio (2 * r) den" for r by simp
  have lt: "ratio a den < 1 \<longleftrightarrow> a < den" and eq1: "ratio a den = 1 \<longleftrightarrow> a = den" for a
    using assms by (auto simp: divide_less_eq_1_pos divide_eq_1_iff)
  have "2 * ratio (n mod den) den < 1 \<longleftrightarrow> 2 * (n mod den) < den" unfolding two by (rule lt)
  moreover have "2 * ratio (n mod den) den = 1 \<longleftrightarrow> 2 * (n mod den) = den" unfolding two by (rule eq1)
  ultimately show ?thesis unfolding round_half_even_def rhe_real_def Let_def fl fr by simp
qed

lemma rhe_real_nat [simp]: "rhe_real (real m) = m"
  by (simp add: rhe_real_def)

lemma rhe_real_bounds:
  assumes "0 \<le> x" shows "nat \<lfloor>x\<rfloor> \<le> rhe_real x \<and> rhe_real x \<le> Suc (nat \<lfloor>x\<rfloor>)"
  by (simp add: rhe_real_def Let_def)

definition round64_exp :: "nat \<Rightarrow> nat \<Rightarrow> int" where
  "round64_exp num den = max (-1074) (floor_log2 num den - 52)"

definition round64_mant :: "nat \<Rightarrow> nat \<Rightarrow> nat" where
  "round64_mant num den = rhe_real (ratio num den / 2 powi round64_exp num den)"

lemma round64_alt:
  assumes "0 < num" "0 < den"
  shows "round64 num den =
     (let e = round64_exp num den; m = round64_mant num den;
          (m', e') = (if m = 2 ^ 53 then (2 ^ 52, e + 1) else (m, e))
      in if e' > 971 then None else Some (m', e'))"
proof -
  obtain n' d' where sc: "scale2 num den (round64_exp num den) = (n', d')" by fastforce
  have "round_half_even n' d' = round64_mant num den"
    using scale2_ratio [OF assms(2) sc] by (simp add: round_half_even_real round64_mant_def)
  then show ?thesis
    using assms sc by (simp add: round64_def round64_exp_def Let_def)
qed

lemma floor_log2_cong:
  assumes "0 < num" "0 < den" "0 < num'" "0 < den'" "ratio num den = ratio num' den'"
  shows "floor_log2 num den = floor_log2 num' den'"
  using floor_log2_spec [OF assms(3,4)] assms by (intro floor_log2_eqI) simp_all

lemma round64_cong:
  assumes "0 < num" "0 < den" "0 < num'" "0 < den'" "ratio num den = ratio num' den'"
  shows "round64 num den = round64 num' den'"
  using floor_log2_cong [OF assms] assms
  by (simp add: round64_alt round64_mant_def round64_exp_def)

lemma mantissa_log2:
  fixes m :: nat assumes "0 < m"
  obtains l where "2 ^ l \<le> m" "m < 2 ^ Suc l"
  using bit_length_bounds [OF assms] by (intro that [of "bit_length m - 1"]) auto

lemma round64_exact:
  assumes ok: "f64_finite_ok m e" and "0 < m" "0 < num" "0 < den"
    and eq: "ratio num den = real m * 2 powi e"
  shows "round64 num den = Some (m, e)"
proof -
  obtain l where l: "2 ^ l \<le> m" "m < 2 ^ Suc l" using mantissa_log2 [OF assms(2)] .
  have l': "(2::real) ^ l \<le> real m" "real m < 2 ^ Suc l"
    using l by (metis of_nat_le_iff of_nat_less_iff of_nat_numeral of_nat_power)+
  have p: "(2::real) powi (int l + e) = 2 ^ l * 2 powi e" "(2::real) powi (int l + e + 1) = 2 ^ Suc l * 2 powi e"
    by (simp_all add: power_int_add)
  have "floor_log2 num den = int l + e"
  proof (rule floor_log2_eqI [OF assms(3,4)])
    show "2 powi (int l + e) \<le> ratio num den" unfolding eq p by (intro mult_right_mono l') simp
    show "ratio num den < 2 powi (int l + e + 1)" unfolding eq p by (intro mult_strict_right_mono l') simp
  qed
  moreover have "l < 53"
  proof -
    have "(2::nat) ^ l < 2 ^ 53" using l ok unfolding f64_finite_ok_def by linarith
    then show ?thesis by (rule power_less_imp_less_exp [rotated]) simp
  qed
  moreover have "l = 52" if "2 ^ 52 \<le> m"
  proof -
    have "(2::nat) ^ 52 < 2 ^ Suc l" using that l by linarith
    then have "52 < Suc l" by (rule power_less_imp_less_exp [rotated]) simp
    with \<open>l < 53\<close> show ?thesis by simp
  qed
  ultimately have ex: "round64_exp num den = e"
    using ok by (auto simp: round64_exp_def f64_finite_ok_def)
  have "round64_mant num den = m" by (simp add: round64_mant_def ex eq)
  then show ?thesis using ok assms(3,4) by (simp add: round64_alt ex f64_finite_ok_def)
qed

lemma round64_zero_iff_ok:
  assumes "0 < den" "round64 num den = Some (m, e)"
  shows "f64_finite_ok m e"
proof (cases "num = 0")
  case True
  then show ?thesis using assms by (simp add: round64_def f64_finite_ok_def)
next
  case False
  then have n: "0 < num" by simp
  define j where "j = floor_log2 num den"
  define x where "x = ratio num den / 2 powi round64_exp num den"
  note sp = floor_log2_spec [OF n assms(1), folded j_def]
  have ej: "round64_exp num den = max (-1074) (j - 52)" by (simp add: round64_exp_def j_def)
  have x0: "0 \<le> x" by (simp add: x_def)
  have p2: "(0::real) < 2 powi round64_exp num den" by simp
  have "x < 2 ^ 53"
  proof -
    have "ratio num den < 2 powi (j + 1)" using sp by blast
    also have "\<dots> \<le> 2 powi (53 + round64_exp num den)" by (rule power_int_increasing) (simp_all add: ej)
    also have "\<dots> = 2 ^ 53 * 2 powi round64_exp num den" by (simp add: power_int_add)
    finally show ?thesis unfolding x_def by (simp only: pos_divide_less_eq [OF p2])
  qed
  then have fl: "nat \<lfloor>x\<rfloor> < 2 ^ 53" using x0 by (simp add: nat_less_iff floor_less_iff)
  have lo: "round64_exp num den = - 1074 \<or> 2 ^ 52 \<le> nat \<lfloor>x\<rfloor>"
  proof (cases "round64_exp num den = - 1074")
    case that: False
    have "round64_exp num den = j - 52" using that by (simp add: ej)
    then have "2 powi (52 + round64_exp num den) \<le> ratio num den" using sp by simp
    moreover have "(2::real) powi (52 + round64_exp num den) = 2 ^ 52 * 2 powi round64_exp num den"
      by (simp add: power_int_add)
    ultimately have "2 ^ 52 * 2 powi round64_exp num den \<le> ratio num den" by simp
    then have "2 ^ 52 \<le> x" unfolding x_def by (simp only: pos_le_divide_eq [OF p2])
    then show ?thesis by (simp add: le_nat_iff le_floor_iff)
  qed simp
  have e: "- 1074 \<le> round64_exp num den" by (simp add: ej)
  have "round64_mant num den = rhe_real x" by (simp add: round64_mant_def x_def)
  with rhe_real_bounds [OF x0] have "nat \<lfloor>x\<rfloor> \<le> round64_mant num den"
      "round64_mant num den \<le> Suc (nat \<lfloor>x\<rfloor>)" by simp_all
  with fl lo e assms n show ?thesis
    by (auto simp: round64_alt f64_finite_ok_def Let_def split: if_splits)
qed

section \<open>The shortest digits exist and parse back\<close>

definition bin_ratio :: "nat \<Rightarrow> int \<Rightarrow> nat \<times> nat" where
  "bin_ratio m e = (if 0 \<le> e then (m * 2 ^ nat e, 1) else (m, 2 ^ nat (- e)))"

lemma bin_ratio:
  assumes "bin_ratio m e = (num, den)"
  shows "0 < den" and "ratio num den = real m * 2 powi e" and "0 < m \<Longrightarrow> 0 < num"
  using assms by (auto simp: bin_ratio_def power_int_def field_simps split: if_splits)

lemma short_candidate_sound: "short_candidate num den e10 me n = Some c \<Longrightarrow> decimal_rounds_to c (e10 - int n + 1) me"
  by (auto simp: short_candidate_def Let_def split: prod.splits if_splits)

lemma shortest_from_sound:
  "shortest_from f n num den e10 me = Some (c, k) \<Longrightarrow> decimal_rounds_to c k me"
  by (induction f n num den e10 me rule: shortest_from.induct)
     (auto split: option.splits dest: short_candidate_sound)

lemma shortest_from_exists:
  assumes "n \<le> N" "N < n + f" "short_candidate num den e10 me N \<noteq> None"
  shows "shortest_from f n num den e10 me \<noteq> None"
  using assms
proof (induction f n num den e10 me rule: shortest_from.induct)
  case (2 fuel n num den e10 me)
  then show ?case by (cases "n = N") (auto split: option.splits)
qed simp

lemma decimal_rounds_to_ratio:
  assumes "decimal_rounds_to c k (m, e)" "0 < c" "0 < den" "ratio num den = real c * 10 powi k"
  shows "round64 num den = Some (m, e)"
proof -
  obtain n d where sc: "scale10 c 1 k = (n, d)" by fastforce
  have d: "0 < d" and r: "ratio n d = real c * 10 powi k" using scale10_ratio [OF _ sc] by simp_all
  have "0 < ratio n d" unfolding r using assms(2) by simp
  then have n: "0 < n" using d by (simp add: zero_less_divide_iff)
  have "0 < ratio num den" unfolding assms(4) using assms(2) by simp
  then have n2: "0 < num" using assms(3) by (simp add: zero_less_divide_iff)
  have "round64 num den = round64 n d" by (rule round64_cong) (use n n2 d assms(3,4) r in simp_all)
  with assms(1) sc show ?thesis by (simp add: decimal_rounds_to_def)
qed

lemma short_candidate_exact:
  assumes ok: "f64_finite_ok m e" and m: "0 < m" and r: "0 < num" "0 < den" "ratio num den = real m * 2 powi e"
    and k: "k = e10 - int n + 1" "k \<le> 0" "k \<le> e"
  shows "short_candidate num den e10 (m, e) n \<noteq> None"
proof -
  obtain n' d' where sc: "scale10 num den (- k) = (n', d')" by fastforce
  note s = scale10_ratio [OF r(2) sc]
  define q where "q = m * 2 ^ nat (e - k) * 5 ^ nat (- k)"
  have "real q = real m * 2 powi e * 10 powi (- k)"
  proof -
    have "(10::real) powi (- k) = 2 powi (- k) * 5 powi (- k)"
      by (simp flip: power_int_mult_distrib)
    moreover have "(2::real) powi (e - k) = 2 powi e * 2 powi (- k)" by (simp flip: power_int_add)
    moreover have "(2::real) powi (e - k) = 2 ^ nat (e - k)" using k(3) by (simp add: power_int_def)
    moreover have "(5::real) powi (- k) = 5 ^ nat (- k)" using k(2) by (simp add: power_int_def)
    ultimately show ?thesis by (simp add: q_def)
  qed
  then have "ratio n' d' = real q" unfolding s(2) r(3) by simp
  then have nq: "n' = q * d'" using s(1) by (simp add: field_simps flip: of_nat_mult)
  then have lo: "n' div d' = q" "n' mod d' = 0" using s(1) by simp_all
  have q10: "real q * 10 powi k = ratio num den"
    using \<open>real q = real m * 2 powi e * 10 powi (- k)\<close> unfolding r(3) by (simp add: power_int_minus)
  obtain a b where ab: "scale10 q 1 k = (a, b)" by fastforce
  have b: "0 < b" and ra: "ratio a b = real m * 2 powi e"
    using scale10_ratio [OF _ ab] q10 r(3) by simp_all
  have "0 < ratio a b" unfolding ra using m by simp
  then have "0 < a" using b by (simp add: zero_less_divide_iff)
  then have "round64 a b = Some (m, e)" by (intro round64_exact ok m b ra)
  then have "decimal_rounds_to q k (m, e)" unfolding decimal_rounds_to_def ab by simp
  then show ?thesis by (simp add: short_candidate_def k(1) [symmetric] sc lo Let_def)
qed

lemma e10_bounds:
  assumes ok: "f64_finite_ok m e" and m: "0 < m" and r: "0 < num" "0 < den" "ratio num den = real m * 2 powi e"
  shows "dec_exponent num den \<le> 308" and "- 330 \<le> dec_exponent num den"
proof -
  let ?k = "dec_exponent num den"
  have sp: "10 powi ?k \<le> ratio num den" "ratio num den < 10 powi (?k + 1)" using dec_exponent_spec [OF r(1,2)] by auto
  have up: "ratio num den < 2 powi 1024"
  proof -
    have "real m < 2 ^ 53" using ok unfolding f64_finite_ok_def by (metis of_nat_less_iff of_nat_numeral of_nat_power)
    moreover have "(2::real) powi e \<le> 2 powi 971" using ok by (intro power_int_increasing) (simp_all add: f64_finite_ok_def)
    ultimately have "real m * 2 powi e < 2 ^ 53 * 2 powi 971" by (intro mult_less_le_imp_less) simp_all
    moreover have "(2::real) ^ 53 * 2 powi 971 = 2 powi 1024" by (simp only: power_int_numeral power_add [symmetric] arith_simps)
    ultimately show ?thesis unfolding r(3) by simp
  qed
  have "(2::real) powi 1024 \<le> 10 powi 309"
  proof -
    have "(2::real) ^ 1024 \<le> 10 ^ 309" by simp
    then show ?thesis by (simp only: power_int_numeral)
  qed
  with up sp(1) have "(10::real) powi ?k < 10 powi 309" by linarith
  then have "?k < 309" by (metis linorder_not_less one_le_numeral power_int_increasing)
  then show "?k \<le> 308" by simp
  have lo: "2 powi (- 1074) \<le> ratio num den"
  proof -
    have "(2::real) powi (- 1074) \<le> 2 powi e" using ok by (intro power_int_increasing) (simp_all add: f64_finite_ok_def)
    also have "\<dots> \<le> real m * 2 powi e" using m by simp
    finally show ?thesis unfolding r(3) .
  qed
  have "(10::real) powi (- 330) \<le> 2 powi (- 1074)"
  proof -
    have "(2::real) ^ 1074 \<le> 10 ^ 330" by simp
    then have "inverse ((10::real) ^ 330) \<le> inverse (2 ^ 1074)" by (intro le_imp_inverse_le) simp_all
    then show ?thesis by (simp only: power_int_minus power_int_numeral)
  qed
  with lo sp(2) have "(10::real) powi (- 330) < 10 powi (?k + 1)" by linarith
  then have "- 330 < ?k + 1" by (metis linorder_not_less one_le_numeral power_int_increasing)
  then show "- 330 \<le> ?k" by simp
qed

lemma shortest_from_Some:
  assumes ok: "f64_finite_ok m e" and m: "0 < m" and r: "bin_ratio m e = (num, den)"
  obtains c k where "shortest_from 1400 1 num den (dec_exponent num den) (m, e) = Some (c, k)"
    "0 < c" "decimal_rounds_to c k (m, e)"
proof -
  let ?k = "dec_exponent num den"
  note b = bin_ratio [OF r]
  note eb = e10_bounds [OF ok m b(3) [OF m] b(1,2)]
  define n where "n = nat (?k + 1075)"
  have n: "int n = ?k + 1075" using eb by (simp add: n_def)
  have "short_candidate num den ?k (m, e) n \<noteq> None"
    by (rule short_candidate_exact [OF ok m b(3) [OF m] b(1,2), where k = "- 1074"])
       (use n ok in \<open>simp_all add: f64_finite_ok_def\<close>)
  then have "shortest_from 1400 1 num den ?k (m, e) \<noteq> None"
    by (rule shortest_from_exists [rotated 2]) (use n eb in linarith)+
  then obtain c k where s: "shortest_from 1400 1 num den ?k (m, e) = Some (c, k)" by auto
  have d: "decimal_rounds_to c k (m, e)" by (rule shortest_from_sound [OF s])
  have "0 < c"
  proof (rule ccontr)
    assume "\<not> 0 < c"
    with d m show False
      by (auto simp: decimal_rounds_to_def scale10_def round64_def split: if_splits)
  qed
  with s d that show ?thesis by blast
qed


section \<open>Stripping trailing zeros\<close>

definition zeros :: "nat \<Rightarrow> string" where "zeros n = replicate n CHR ''0''"

lemma digit_val_0 [simp]: "digit_val CHR ''0'' = 0"
  by code_simp

lemma is_digit_0 [simp]: "is_digit CHR ''0''"
  by code_simp

lemma length_zeros [simp]: "length (zeros n) = n"
  by (simp add: zeros_def)

lemma digits_val_append_zeros: "digits_val (s @ zeros n) = digits_val s * 10 ^ n"
proof (induction n)
  case (Suc n)
  have "s @ zeros (Suc n) = (s @ zeros n) @ [CHR ''0'']"
    by (simp add: zeros_def replicate_append_same)
  then show ?case using Suc by (simp only: digits_val_snoc digit_val_0) simp
qed (simp add: zeros_def)

lemma digits_val_zeros_append: "digits_val (zeros n @ s) = digits_val s"
  by (induction n) (simp_all add: zeros_def digits_val_def)

lemma strip_zeros_decomp: "\<exists>z. s = strip_zeros s @ zeros z"
proof -
  let ?P = "\<lambda>c. c = CHR ''0''"
  have "\<exists>z. takeWhile ?P (rev s) = zeros z"
  proof
    show "takeWhile ?P (rev s) = zeros (length (takeWhile ?P (rev s)))"
      unfolding zeros_def by (rule replicate_length_same [symmetric]) (auto dest: set_takeWhileD)
  qed
  then obtain z where z: "takeWhile ?P (rev s) = zeros z" by blast
  have "rev s = takeWhile ?P (rev s) @ dropWhile ?P (rev s)" by simp
  then have "s = rev (dropWhile ?P (rev s)) @ rev (takeWhile ?P (rev s))"
    by (metis rev_append rev_rev_ident)
  then have "s = strip_zeros s @ zeros z" unfolding z strip_zeros_def by (simp add: zeros_def)
  then show ?thesis by blast
qed

text \<open>Digit strings with a non-zero leading digit.\<close>

definition lead_ok :: "string \<Rightarrow> bool" where
  "lead_ok ds \<longleftrightarrow> ds \<noteq> [] \<and> (\<forall>c\<in>set ds. is_digit c) \<and> hd ds \<noteq> CHR ''0''"

lemma lead_ok_append_zeros: "lead_ok ds \<Longrightarrow> lead_ok (ds @ zeros n)"
  by (auto simp: lead_ok_def zeros_def)

lemma lead_ok_strip:
  assumes "lead_ok ds" shows "lead_ok (strip_zeros ds)"
proof -
  obtain z where z: "ds = strip_zeros ds @ zeros z" using strip_zeros_decomp by blast
  have ne: "strip_zeros ds \<noteq> []"
  proof
    assume "strip_zeros ds = []"
    with z have "ds = zeros z" by simp
    with assms show False by (cases z) (auto simp: lead_ok_def zeros_def)
  qed
  then have "hd ds = hd (strip_zeros ds)" "set (strip_zeros ds) \<subseteq> set ds"
    by (metis z hd_append2) (metis z set_append Un_upper1)
  with assms ne show ?thesis by (auto simp: lead_ok_def)
qed

lemma lead_ok_nat_digits: "0 < n \<Longrightarrow> lead_ok (nat_digits n)"
  using hd_nat_digits nat_digits_digits by (auto simp: lead_ok_def)

text \<open>\<open>denotes ds e c k\<close>: digits \<open>ds\<close> with leading exponent \<open>e\<close> are the decimal \<open>c * 10 ^ k\<close>.\<close>

definition denotes :: "string \<Rightarrow> int \<Rightarrow> nat \<Rightarrow> int \<Rightarrow> bool" where
  "denotes ds e c k \<longleftrightarrow> real (digits_val ds) * 10 powi (e - int (length ds) + 1) = real c * 10 powi k"

lemma denotes_zeros: "denotes (ds @ zeros z) e c k \<longleftrightarrow> denotes ds e c k"
proof -
  have "(10::real) ^ z * 10 powi (e - int (length ds + z) + 1) = 10 powi (e - int (length ds) + 1)"
  proof -
    have "e - int (length ds) + 1 = int z + (e - int (length ds + z) + 1)" by simp
    then have "(10::real) powi (e - int (length ds) + 1) = 10 powi (int z + (e - int (length ds + z) + 1))"
      by (rule arg_cong)
    also have "\<dots> = 10 powi int z * 10 powi (e - int (length ds + z) + 1)"
      by (rule power_int_add) simp
    finally show ?thesis by (simp only: power_int_of_nat)
  qed
  then show ?thesis by (simp add: denotes_def digits_val_append_zeros mult.assoc)
qed

lemma shortest_digits_denotes:
  assumes ok: "f64_finite_ok m e" and m: "0 < m" and sd: "shortest_digits m e = (ds, ex)"
  obtains c k where "lead_ok ds" "denotes ds ex c k" "0 < c" "decimal_rounds_to c k (m, e)"
proof -
  obtain num den where r: "bin_ratio m e = (num, den)" by fastforce
  obtain c k where s: "shortest_from 1400 1 num den (dec_exponent num den) (m, e) = Some (c, k)"
    "0 < c" "decimal_rounds_to c k (m, e)"
    using shortest_from_Some [OF ok m r] .
  let ?n = "nat_digits c"
  have ds: "ds = strip_zeros ?n" "ex = k + int (length ?n) - 1"
    using sd r s(1) by (simp_all add: shortest_digits_def bin_ratio_def Let_def)
  obtain z where z: "?n = ds @ zeros z" using strip_zeros_decomp [of ?n] ds(1) by blast
  have "denotes ?n ex c k" by (simp add: denotes_def ds(2))
  then have "denotes ds ex c k" using denotes_zeros [of ds z ex c k] z by simp
  moreover have "lead_ok ds" unfolding ds(1) by (rule lead_ok_strip [OF lead_ok_nat_digits [OF s(2)]])
  ultimately show ?thesis using s that by blast
qed

end
