(* ===== verification/Jval.thy ===== *)
theory Jval
  imports Float64
begin

text \<open>
  The ordered JSON value of \<^verbatim>\<open>internal/jval\<close>: the value type and its field reads
  (\<^verbatim>\<open>value.go\<close>), the accessors (\<^verbatim>\<open>accessors.go\<close>), the in-place key surgery
  (\<^verbatim>\<open>kvutil.go\<close>) and the four serializers (canonical, ordered, indented, escaped strings). A Go
  \<open>Value\<close> whose tag does not match a field reads that field as its zero value; the field
  functions below say so. Integers carry the \<open>int64\<close> or, beyond it, their decimal text.
\<close>

section \<open>Values\<close>

datatype "value" =
    VNull
  | VBool bool
  | VInt int
  | VBigInt string
  | VFloat f64
  | VStr string
  | VArr "value list"
  | VObj "(string \<times> value) list"

type_synonym kv = "string \<times> value"

datatype kind = KNull | KBool | KInt | KFlt | KStr | KArr | KObj

fun vkind :: "value \<Rightarrow> kind" where
  "vkind VNull = KNull"
| "vkind (VBool _) = KBool"
| "vkind (VInt _) = KInt"
| "vkind (VBigInt _) = KInt"
| "vkind (VFloat _) = KFlt"
| "vkind (VStr _) = KStr"
| "vkind (VArr _) = KArr"
| "vkind (VObj _) = KObj"

text \<open>The struct fields \<open>B\<close>, \<open>I\<close>, \<open>S\<close>, \<open>A\<close> and \<open>O\<close>.\<close>

fun vB :: "value \<Rightarrow> bool" where "vB (VBool b) = b" | "vB _ = False"
fun vI :: "value \<Rightarrow> int" where "vI (VInt i) = i" | "vI _ = 0"
fun vS :: "value \<Rightarrow> string" where "vS (VStr s) = s" | "vS _ = []"
fun vA :: "value \<Rightarrow> value list" where "vA (VArr a) = a" | "vA _ = []"
fun vO :: "value \<Rightarrow> kv list" where "vO (VObj o') = o'" | "vO _ = []"

text \<open>
  Assigning the field \<open>A\<close> or \<open>O\<close> of a value does not change its tag, and every serializer looks at
  the tag first: on a value of another kind the assignment is not observable.
\<close>

fun setA :: "value \<Rightarrow> value list \<Rightarrow> value" where "setA (VArr _) a = VArr a" | "setA v _ = v"
fun setO :: "value \<Rightarrow> kv list \<Rightarrow> value" where "setO (VObj _) o' = VObj o'" | "setO v _ = v"

section \<open>Accessors\<close>

definition ObjAt :: "value \<Rightarrow> string \<Rightarrow> value" where
  "ObjAt v key = (if vkind v \<noteq> KObj then VNull
                  else case kv_find (vO v) key of Some x \<Rightarrow> x | None \<Rightarrow> VNull)"

definition ObjStr :: "value \<Rightarrow> string \<Rightarrow> string" where
  "ObjStr v key = (let f = ObjAt v key in if vkind f = KStr then vS f else [])"

definition HasObjKey :: "value \<Rightarrow> string \<Rightarrow> bool" where
  "HasObjKey v key \<longleftrightarrow> list_ex (\<lambda>e. fst e = key) (vO v)"

definition AsObj :: "value \<Rightarrow> value" where
  "AsObj v = (if vkind v \<noteq> KObj then VObj [] else v)"

definition StrArr :: "string list \<Rightarrow> value" where
  "StrArr items = VArr (map VStr items)"

section \<open>Key surgery\<close>

definition SetOrAppend :: "kv list \<Rightarrow> string \<Rightarrow> value \<Rightarrow> kv list" where
  "SetOrAppend o' key v = kv_set o' key v"

definition SetDefault :: "kv list \<Rightarrow> string \<Rightarrow> value \<Rightarrow> kv list" where
  "SetDefault o' key v = (if list_ex (\<lambda>e. fst e = key) o' then o' else o' @ [(key, v)])"

text \<open>The idiom \<open>v.O = SetOrAppend(v.O, key, x)\<close>.\<close>

definition set_field :: "value \<Rightarrow> string \<Rightarrow> value \<Rightarrow> value" where
  "set_field v key x = setO v (SetOrAppend (vO v) key x)"

section \<open>Escaping\<close>

definition hexd :: string where "hexd = ''0123456789abcdef''"

definition WriteU4 :: "nat \<Rightarrow> string" where
  "WriteU4 r = CHR 0x5C # CHR ''u'' # map (\<lambda>d. hexd ! (r div 16 ^ d mod 16)) [3, 2, 1, 0]"

text \<open>The named escapes shared by both escapers; 92 is the backslash.\<close>

definition named_escape :: "nat \<Rightarrow> string option" where
  "named_escape r =
     (if r = 34 then Some [CHR 0x5C, CHR 0x22]
      else if r = 92 then Some [CHR 0x5C, CHR 0x5C]
      else if r = 8 then Some [CHR 0x5C, CHR ''b'']
      else if r = 12 then Some [CHR 0x5C, CHR ''f'']
      else if r = 10 then Some [CHR 0x5C, CHR ''n'']
      else if r = 13 then Some [CHR 0x5C, CHR ''r'']
      else if r = 9 then Some [CHR 0x5C, CHR ''t'']
      else None)"

definition esc_ascii :: "nat \<Rightarrow> string" where
  "esc_ascii r =
     (case named_escape r of Some e \<Rightarrow> e
      | None \<Rightarrow>
        if r < 0x20 \<or> r = 0x7F then WriteU4 r
        else if r \<le> 0x7E then encode_rune r
        else if r > 0xFFFF then
          (let r2 = r - 0x10000
           in WriteU4 (0xD800 + r2 div 1024 mod 1024) @ WriteU4 (0xDC00 + r2 mod 1024))
        else WriteU4 r)"

definition esc_raw :: "nat \<Rightarrow> string" where
  "esc_raw r =
     (case named_escape r of Some e \<Rightarrow> e
      | None \<Rightarrow> if r < 0x20 then WriteU4 r else encode_rune r)"

definition writeEscaped :: "string \<Rightarrow> string" where
  "writeEscaped s = concat (map esc_ascii (runes s))"

definition writeEscapedRaw :: "string \<Rightarrow> string" where
  "writeEscapedRaw s = concat (map esc_raw (runes s))"

definition quoted :: "bool \<Rightarrow> string \<Rightarrow> string" where
  "quoted ascii s = CHR 0x22 # (if ascii then writeEscaped s else writeEscapedRaw s) @ [CHR 0x22]"

section \<open>Serializers\<close>

fun join :: "string \<Rightarrow> string list \<Rightarrow> string" where
  "join sep [] = []"
| "join sep [x] = x"
| "join sep (x # y # ys) = x @ sep @ join sep (y # ys)"

text \<open>\<open>IntText\<close>: the decimal text an integer value carries.\<close>

fun IntText :: "value \<Rightarrow> string" where
  "IntText (VBigInt t) = t"
| "IntText v = FormatInt (vI v)"

text \<open>
  \<open>Canon\<close>: keys sorted, ASCII only. The Go code sorts the key/value pairs and then writes them;
  writing each pair first and sorting the written pairs by key is the same computation
  (\<open>sort_key_map_snd\<close>), and is the form on which the recursion is structural.
\<close>

fun writeCanon :: "bool \<Rightarrow> value \<Rightarrow> string" where
  "writeCanon compact VNull = ''null''"
| "writeCanon compact (VBool b) = (if b then ''true'' else ''false'')"
| "writeCanon compact (VInt i) = IntText (VInt i)"
| "writeCanon compact (VBigInt t) = IntText (VBigInt t)"
| "writeCanon compact (VFloat f) = PythonFloat f"
| "writeCanon compact (VStr s) = quoted True s"
| "writeCanon compact (VArr a) =
     ''['' @ join (if compact then '','' else '', '') (map (writeCanon compact) a) @ '']''"
| "writeCanon compact (VObj kvs) =
     ''{'' @ join (if compact then '','' else '', '')
        (map (\<lambda>kt. quoted True (fst kt) @ (if compact then '':'' else '': '') @ snd kt)
           (sort_key fst (map (\<lambda>e. (fst e, writeCanon compact (snd e))) kvs))) @ ''}''"

definition Canon :: "value \<Rightarrow> bool \<Rightarrow> string" where
  "Canon v compact = writeCanon compact v"

definition CanonSpaced :: "value \<Rightarrow> string" where "CanonSpaced v = Canon v False"

definition CanonCompact :: "value \<Rightarrow> string" where "CanonCompact v = Canon v True"

text \<open>\<open>DumpsOrdered\<close>: insertion order, spaced separators.\<close>

fun writeOrdered :: "bool \<Rightarrow> value \<Rightarrow> string" where
  "writeOrdered ascii VNull = ''null''"
| "writeOrdered ascii (VBool b) = (if b then ''true'' else ''false'')"
| "writeOrdered ascii (VInt i) = IntText (VInt i)"
| "writeOrdered ascii (VBigInt t) = IntText (VBigInt t)"
| "writeOrdered ascii (VFloat f) = PythonFloat f"
| "writeOrdered ascii (VStr s) = quoted ascii s"
| "writeOrdered ascii (VArr a) = ''['' @ join '', '' (map (writeOrdered ascii) a) @ '']''"
| "writeOrdered ascii (VObj kvs) =
     ''{'' @ join '', '' (map (\<lambda>e. quoted ascii (fst e) @ '': '' @ writeOrdered ascii (snd e)) kvs) @ ''}''"

definition DumpsOrdered :: "value \<Rightarrow> bool \<Rightarrow> string" where
  "DumpsOrdered v ascii = writeOrdered ascii v"

text \<open>\<open>DumpIndented\<close>: insertion order, two-space indentation; 10 is the newline.\<close>

definition NL :: string where "NL = [CHR 0x0A]"

definition pad :: "nat \<Rightarrow> string" where "pad depth = replicate (2 * depth) CHR '' ''"

fun writeIndented :: "bool \<Rightarrow> nat \<Rightarrow> value \<Rightarrow> string" where
  "writeIndented ascii depth VNull = ''null''"
| "writeIndented ascii depth (VBool b) = (if b then ''true'' else ''false'')"
| "writeIndented ascii depth (VInt i) = IntText (VInt i)"
| "writeIndented ascii depth (VBigInt t) = IntText (VBigInt t)"
| "writeIndented ascii depth (VFloat f) = PythonFloat f"
| "writeIndented ascii depth (VStr s) = quoted ascii s"
| "writeIndented ascii depth (VArr a) =
     (if a = [] then ''[]''
      else ''['' @ NL @ join ('','' @ NL)
             (map (\<lambda>e. pad (Suc depth) @ writeIndented ascii (Suc depth) e) a) @ NL @ pad depth @ '']'')"
| "writeIndented ascii depth (VObj kvs) =
     (if kvs = [] then ''{}''
      else ''{'' @ NL @ join ('','' @ NL)
             (map (\<lambda>e. pad (Suc depth) @ quoted ascii (fst e) @ '': ''
                         @ writeIndented ascii (Suc depth) (snd e)) kvs) @ NL @ pad depth @ ''}'')"

definition DumpIndented :: "value \<Rightarrow> string" where
  "DumpIndented v = writeIndented False 0 v"

definition DumpIndentedASCII :: "value \<Rightarrow> string" where
  "DumpIndentedASCII v = writeIndented True 0 v"

section \<open>Field laws\<close>

lemma vO_setO [simp]: "vO (setO (VObj o') x) = x"
  by simp

lemma ObjAt_VObj: "ObjAt (VObj kvs) k = (case kv_find kvs k of Some x \<Rightarrow> x | None \<Rightarrow> VNull)"
  by (simp add: ObjAt_def)

lemma ObjAt_Cons [simp]: "ObjAt (VObj ((k', v) # kvs)) k = (if k' = k then v else ObjAt (VObj kvs) k)"
  by (simp add: ObjAt_VObj)

lemma ObjAt_Nil [simp]: "ObjAt (VObj []) k = VNull"
  by (simp add: ObjAt_VObj)

lemma ObjAt_set_same [simp]: "vkind v = KObj \<Longrightarrow> ObjAt (set_field v k x) k = x"
  by (cases v) (auto simp: set_field_def SetOrAppend_def ObjAt_VObj)

lemma ObjAt_set_other [simp]: "k' \<noteq> k \<Longrightarrow> ObjAt (set_field v k x) k' = ObjAt v k'"
  by (cases v) (auto simp: set_field_def SetOrAppend_def ObjAt_VObj)

lemma vkind_set_field [simp]: "vkind (set_field v k x) = vkind v"
  by (cases v) (auto simp: set_field_def)

lemma vO_set_field: "vkind v = KObj \<Longrightarrow> vO (set_field v k x) = kv_set (vO v) k x"
  by (cases v) (auto simp: set_field_def SetOrAppend_def)

lemma HasObjKey_iff: "HasObjKey v k \<longleftrightarrow> k \<in> fst ` set (vO v)"
  by (auto simp: HasObjKey_def list_ex_iff)

lemma ObjAt_absent: "\<not> HasObjKey v k \<Longrightarrow> ObjAt v k = VNull"
proof (cases v)
  case (VObj kvs)
  assume "\<not> HasObjKey v k"
  then have "kv_find kvs k = None" by (simp add: VObj HasObjKey_iff kv_find_None_iff)
  then show ?thesis by (simp add: VObj ObjAt_VObj)
qed (auto simp: ObjAt_def)

lemma ObjStr_VStr: "ObjAt v k = VStr s \<Longrightarrow> ObjStr v k = s"
  by (simp add: ObjStr_def Let_def)

end
