(* ===== verification/JsonParse.thy ===== *)
theory JsonParse
  imports Jval
begin

text \<open>
  \<open>ParseOrdered\<close> of \<^verbatim>\<open>internal/jval/parse.go\<close> with the token stream of \<open>encoding/json\<close>
  (\<open>Decoder.Token\<close> under \<open>UseNumber\<close>) it consumes: white space, string literals with their escapes
  and UTF-8 repair, number literals, the bracket structure, the duplicate-key refusal, and the
  integer/float distinction. A parse error is \<open>None\<close>. The recursion spends fuel; \<open>ParseOrdered\<close>
  supplies twice the input length plus two, and \<open>parse_value_fuel\<close> shows that any larger amount
  gives the same result, so running out never decides an answer.
\<close>

section \<open>Lexing\<close>

definition is_ws :: "char \<Rightarrow> bool" where
  "is_ws c \<longleftrightarrow> c = CHR '' '' \<or> c = CHR 0x09 \<or> c = CHR 0x0D \<or> c = CHR 0x0A"

definition skip_ws :: "string \<Rightarrow> string" where
  "skip_ws s = dropWhile is_ws s"

definition hex_val :: "char \<Rightarrow> nat option" where
  "hex_val c =
     (let n = of_char c in
      if 48 \<le> n \<and> n \<le> 57 then Some (n - 48)
      else if 97 \<le> n \<and> n \<le> 102 then Some (n - 87)
      else if 65 \<le> n \<and> n \<le> 70 then Some (n - 55) else None)"

text \<open>Four hexadecimal digits after \<open>\u\<close>.\<close>

definition hex4 :: "string \<Rightarrow> (nat \<times> string) option" where
  "hex4 s =
     (case s of a # b # c # d # rest \<Rightarrow>
        (case (hex_val a, hex_val b, hex_val c, hex_val d) of
           (Some w, Some x, Some y, Some z) \<Rightarrow> Some (((w * 16 + x) * 16 + y) * 16 + z, rest)
         | _ \<Rightarrow> None)
      | _ \<Rightarrow> None)"

definition is_surrogate :: "nat \<Rightarrow> bool" where
  "is_surrogate r \<longleftrightarrow> 0xD800 \<le> r \<and> r < 0xE000"

text \<open>A low surrogate escape that completes the pair opened by \<open>r\<close> (\<open>utf16.DecodeRune\<close>).\<close>

definition low_pair :: "nat \<Rightarrow> string \<Rightarrow> (nat \<times> string) option" where
  "low_pair r s =
     (case s of b # u # s' \<Rightarrow>
        if b = CHR 0x5C \<and> u = CHR ''u'' then
          (case hex4 s' of
             Some (r2, rest) \<Rightarrow>
               if 0xD800 \<le> r \<and> r < 0xDC00 \<and> 0xDC00 \<le> r2 \<and> r2 < 0xE000
               then Some ((r - 0xD800) * 1024 + (r2 - 0xDC00) + 0x10000, rest) else None
           | None \<Rightarrow> None)
        else None
      | _ \<Rightarrow> None)"

definition simple_escape :: "char \<Rightarrow> char option" where
  "simple_escape c =
     (if c = CHR 0x22 \<or> c = CHR 0x5C \<or> c = CHR ''/'' then Some c
      else if c = CHR ''b'' then Some (CHR 0x08)
      else if c = CHR ''f'' then Some (CHR 0x0C)
      else if c = CHR ''n'' then Some (CHR 0x0A)
      else if c = CHR ''r'' then Some (CHR 0x0D)
      else if c = CHR ''t'' then Some (CHR 0x09)
      else None)"

lemma hex4_length: "hex4 s = Some (r, rest) \<Longrightarrow> length rest < length s"
  by (auto simp: hex4_def split: list.splits option.splits)

lemma low_pair_length: "low_pair r s = Some (r2, rest) \<Longrightarrow> length rest < length s"
  by (auto simp: low_pair_def dest!: hex4_length split: list.splits option.splits if_splits)

fun prepend :: "string \<Rightarrow> (string \<times> string) option \<Rightarrow> (string \<times> string) option" where
  "prepend p None = None"
| "prepend p (Some (s, rest)) = Some (p @ s, rest)"

text \<open>The body of a string literal, after the opening quote.\<close>

function unesc :: "string \<Rightarrow> (string \<times> string) option" where
  "unesc s =
     (case s of [] \<Rightarrow> None
      | c # cs \<Rightarrow>
        if c = CHR 0x22 then Some ([], cs)
        else if c = CHR 0x5C then
          (case cs of [] \<Rightarrow> None
           | e # es \<Rightarrow>
             if e = CHR ''u'' then
               (case hex4 es of None \<Rightarrow> None
                | Some (r, rest) \<Rightarrow>
                  if is_surrogate r then
                    (case low_pair r rest of
                       Some (r2, rest2) \<Rightarrow> prepend (encode_rune r2) (unesc rest2)
                     | None \<Rightarrow> prepend (encode_rune RuneError) (unesc rest))
                  else prepend (encode_rune r) (unesc rest))
             else
               (case simple_escape e of None \<Rightarrow> None
                | Some ch \<Rightarrow> prepend [ch] (unesc es)))
        else if (of_char c :: nat) < 0x20 then None
        else prepend (encode_rune (fst (decode_rune (c # cs))))
               (unesc (drop (snd (decode_rune (c # cs))) (c # cs))))"
  by pat_completeness auto
termination
  by (relation "measure length") (auto dest!: hex4_length low_pair_length simp: Let_def)

declare unesc.simps [simp del]

definition lex_string :: "string \<Rightarrow> (string \<times> string) option" where
  "lex_string s = (case s of c # cs \<Rightarrow> if c = CHR 0x22 then unesc cs else None | [] \<Rightarrow> None)"

text \<open>Number literals: an optional minus, an integer part without leading zeros, fraction, exponent.\<close>

definition lex_digits :: "string \<Rightarrow> (string \<times> string) option" where
  "lex_digits s = (let ds = takeWhile is_digit s
                   in if ds = [] then None else Some (ds, drop (length ds) s))"

definition lex_int :: "string \<Rightarrow> (string \<times> string) option" where
  "lex_int s = (case s of c # cs \<Rightarrow> if c = CHR ''0'' then Some ([c], cs) else lex_digits s | [] \<Rightarrow> None)"

definition lex_frac :: "string \<Rightarrow> (string \<times> string) option" where
  "lex_frac s = (case s of c # cs \<Rightarrow>
       if c = CHR ''.'' then map_option (\<lambda>(d, r). (c # d, r)) (lex_digits cs) else Some ([], s)
     | [] \<Rightarrow> Some ([], s))"

definition lex_exp :: "string \<Rightarrow> (string \<times> string) option" where
  "lex_exp s = (case s of c # cs \<Rightarrow>
       if c = CHR ''e'' \<or> c = CHR ''E'' then
         (case cs of d # ds \<Rightarrow>
            if d = CHR ''+'' \<or> d = CHR ''-'' then map_option (\<lambda>(x, r). (c # d # x, r)) (lex_digits ds)
            else map_option (\<lambda>(x, r). (c # x, r)) (lex_digits cs)
          | [] \<Rightarrow> None)
       else Some ([], s)
     | [] \<Rightarrow> Some ([], s))"

definition lex_unsigned :: "string \<Rightarrow> (string \<times> string) option" where
  "lex_unsigned s =
     (case lex_int s of None \<Rightarrow> None
      | Some (i, r1) \<Rightarrow>
        (case lex_frac r1 of None \<Rightarrow> None
         | Some (f, r2) \<Rightarrow>
           (case lex_exp r2 of None \<Rightarrow> None | Some (x, r3) \<Rightarrow> Some (i @ f @ x, r3))))"

definition lex_number :: "string \<Rightarrow> (string \<times> string) option" where
  "lex_number s = (case s of c # cs \<Rightarrow>
       if c = CHR ''-'' then map_option (\<lambda>(t, r). (c # t, r)) (lex_unsigned cs) else lex_unsigned s
     | [] \<Rightarrow> None)"

section \<open>Numbers\<close>

definition isJSONInt :: "string \<Rightarrow> bool" where
  "isJSONInt s \<longleftrightarrow> list_all (\<lambda>c. c \<notin> {CHR ''.'', CHR ''e'', CHR ''E''}) s"

text \<open>\<open>strconv.ParseInt(s, 10, 64)\<close> on an integer literal: \<open>None\<close> when it does not fit.\<close>

definition int_literal :: "string \<Rightarrow> int" where
  "int_literal s = (case s of c # cs \<Rightarrow> if c = CHR ''-'' then - int (digits_val cs) else int (digits_val s)
                    | [] \<Rightarrow> 0)"

definition ParseInt64 :: "string \<Rightarrow> int option" where
  "ParseInt64 s = (if int64_range (int_literal s) then Some (int_literal s) else None)"

definition number_value :: "string \<Rightarrow> value option" where
  "number_value s =
     (if isJSONInt s then
        (case ParseInt64 s of Some i \<Rightarrow> Some (VInt i) | None \<Rightarrow> Some (VBigInt s))
      else (case ParseFloat s of None \<Rightarrow> None | Some f \<Rightarrow> Some (VFloat f)))"

section \<open>Values\<close>

definition strip_prefix :: "string \<Rightarrow> string \<Rightarrow> string option" where
  "strip_prefix p s = (if take (length p) s = p then Some (drop (length p) s) else None)"

definition parse_scalar :: "string \<Rightarrow> (value \<times> string) option" where
  "parse_scalar s =
     (case s of [] \<Rightarrow> None
      | c # cs \<Rightarrow>
        if c = CHR 0x22 then map_option (\<lambda>(t, r). (VStr t, r)) (lex_string s)
        else if c = CHR ''n'' then map_option (\<lambda>r. (VNull, r)) (strip_prefix ''null'' s)
        else if c = CHR ''t'' then map_option (\<lambda>r. (VBool True, r)) (strip_prefix ''true'' s)
        else if c = CHR ''f'' then map_option (\<lambda>r. (VBool False, r)) (strip_prefix ''false'' s)
        else (case lex_number s of None \<Rightarrow> None
              | Some (t, r) \<Rightarrow> map_option (\<lambda>v. (v, r)) (number_value t)))"

text \<open>
  \<open>parseValue\<close>: the input is positioned where the next token is read. \<open>parse_elems\<close> is the array
  loop after \<open>[\<close> or a comma, \<open>parse_members\<close> the object loop; \<open>acc\<close> is what \<open>v.A\<close> or \<open>v.O\<close> holds.
\<close>

fun parse_value :: "nat \<Rightarrow> string \<Rightarrow> (value \<times> string) option"
  and parse_elems :: "nat \<Rightarrow> value list \<Rightarrow> string \<Rightarrow> (value \<times> string) option"
  and parse_members :: "nat \<Rightarrow> kv list \<Rightarrow> string \<Rightarrow> (value \<times> string) option"
where
  "parse_value 0 s = None"
| "parse_value (Suc n) s =
     (case skip_ws s of [] \<Rightarrow> None
      | c # cs \<Rightarrow>
        if c = CHR ''{'' then
          (case skip_ws cs of [] \<Rightarrow> None
           | d # ds \<Rightarrow> if d = CHR ''}'' then Some (VObj [], ds) else parse_members n [] (d # ds))
        else if c = CHR ''['' then
          (case skip_ws cs of [] \<Rightarrow> None
           | d # ds \<Rightarrow> if d = CHR '']'' then Some (VArr [], ds) else parse_elems n [] (d # ds))
        else parse_scalar (c # cs))"
| "parse_elems 0 acc s = None"
| "parse_elems (Suc n) acc s =
     (case parse_value n s of None \<Rightarrow> None
      | Some (v, r) \<Rightarrow>
        (case skip_ws r of [] \<Rightarrow> None
         | d # ds \<Rightarrow>
           if d = CHR '','' then parse_elems n (acc @ [v]) ds
           else if d = CHR '']'' then Some (VArr (acc @ [v]), ds) else None))"
| "parse_members 0 acc s = None"
| "parse_members (Suc n) acc s =
     (case lex_string (skip_ws s) of None \<Rightarrow> None
      | Some (k, r) \<Rightarrow>
        if k \<in> fst ` set acc then None
        else (case skip_ws r of [] \<Rightarrow> None
              | c # cs \<Rightarrow>
                if c = CHR '':'' then
                  (case parse_value n cs of None \<Rightarrow> None
                   | Some (v, r2) \<Rightarrow>
                     (case skip_ws r2 of [] \<Rightarrow> None
                      | d # ds \<Rightarrow>
                        if d = CHR '','' then parse_members n (acc @ [(k, v)]) ds
                        else if d = CHR ''}'' then Some (VObj (acc @ [(k, v)]), ds) else None))
                else None))"

declare parse_value.simps [simp del] parse_elems.simps [simp del] parse_members.simps [simp del]

lemmas parse_simps = parse_value.simps parse_elems.simps parse_members.simps

definition ParseOrdered :: "string \<Rightarrow> value option" where
  "ParseOrdered s =
     (case parse_value (2 * length s + 2) s of None \<Rightarrow> None
      | Some (v, r) \<Rightarrow> if skip_ws r = [] then Some v else None)"

end
