(* ===== verification/JsonGrammar.thy ===== *)
theory JsonGrammar
  imports JsonParse
begin

text \<open>
  The grammar of the texts \<open>ParseOrdered\<close> accepts, as an inductive relation between values and
  texts, and the completeness of the parser for it. The serializers of the next theory only have to
  be shown to produce texts of this grammar.
\<close>

section \<open>String literals\<close>

lemma hexd_length [simp]: "length hexd = 16"
  by (simp add: hexd_def)

lemma hex_val_hexd: "d < 16 \<Longrightarrow> hex_val (hexd ! d) = Some d"
proof -
  have "\<forall>d\<in>set [0..<16]. hex_val (hexd ! d) = Some d" by code_simp
  then show "d < 16 \<Longrightarrow> ?thesis" by simp
qed

lemma hex4_digits:
  assumes "r \<le> 0xFFFF"
  shows "hex4 (map (\<lambda>d. hexd ! (r div 16 ^ d mod 16)) [3, 2, 1, 0] @ t) = Some (r, t)"
proof -
  have "((r div 4096 mod 16 * 16 + r div 256 mod 16) * 16 + r div 16 mod 16) * 16 + r mod 16 = r"
  proof -
    have "r div 4096 < 16" using assms by auto
    moreover have "r div 4096 * 16 + r div 256 mod 16 = r div 256"
      "r div 256 * 16 + r div 16 mod 16 = r div 16" "r div 16 * 16 + r mod 16 = r"
      using div_mult_mod_eq [of "r div 256" 16] div_mult_mod_eq [of "r div 16" 16]
      by (simp_all add: div_mult2_eq [symmetric])
    ultimately show ?thesis by simp
  qed
  moreover have "r div 4096 mod 16 = r div 4096" using assms by simp
  moreover have "hex_val (hexd ! (r div 4096)) = Some (r div 4096)"
    by (rule hex_val_hexd) (use assms in simp)
  ultimately show ?thesis by (simp add: hex4_def hex_val_hexd)
qed

lemma unesc_u4:
  assumes "r \<le> 0xFFFF" and "\<not> is_surrogate r"
  shows "unesc (WriteU4 r @ t) = prepend (encode_rune r) (unesc t)"
  unfolding WriteU4_def
  by (subst unesc.simps) (simp add: hex4_digits [OF assms(1), simplified] assms(2))

lemma unesc_u4_pair:
  assumes "r \<le> 0x10FFFF" and "0xFFFF < r"
  shows "unesc (WriteU4 (0xD800 + (r - 0x10000) div 1024 mod 1024)
                @ WriteU4 (0xDC00 + (r - 0x10000) mod 1024) @ t)
       = prepend (encode_rune r) (unesc t)"
proof -
  define a b where "a = (r - 0x10000) div 1024 mod 1024" and "b = (r - 0x10000) mod 1024"
  have a: "a < 1024" "b < 1024" by (simp_all add: a_def b_def)
  have ab: "a * 1024 + b + 0x10000 = r"
  proof -
    have "(r - 0x10000) div 1024 < 1024" using assms by auto
    then have "a = (r - 0x10000) div 1024" by (simp add: a_def)
    then have "a * 1024 + b = r - 0x10000" by (simp add: b_def)
    with assms show ?thesis by simp
  qed
  have sur: "is_surrogate (0xD800 + a)" using a by (simp add: is_surrogate_def)
  have h1: "0xD800 + a \<le> 0xFFFF" and h2: "0xDC00 + b \<le> 0xFFFF" using a by simp_all
  have lp: "low_pair (0xD800 + a) (WriteU4 (0xDC00 + b) @ t) = Some (r, t)"
    unfolding low_pair_def WriteU4_def
    using hex4_digits [OF h2, of t] a ab by simp
  show ?thesis
    unfolding a_def [symmetric] b_def [symmetric]
    unfolding WriteU4_def [of "0xD800 + a"]
    by (subst unesc.simps) (simp add: hex4_digits [OF h1, simplified] sur lp)
qed

lemma valid_rune_not_surrogate: "valid_rune r \<Longrightarrow> \<not> is_surrogate r"
  by (auto simp: valid_rune_def is_surrogate_def)

lemma encode_rune_small: "r < 128 \<Longrightarrow> encode_rune r = [char_of r]"
  by (rule encode_rune_ascii)

lemma named_escape_Some:
  assumes "named_escape r = Some e"
  shows "r < 128 \<and> (\<exists>c. e = [CHR 0x5C, c] \<and> c \<noteq> CHR ''u'' \<and> simple_escape c = Some (char_of r))"
proof -
  have "\<forall>r\<in>{34, 92, 8, 12, 10, 13, 9 :: nat}. \<exists>c. named_escape r = Some [CHR 0x5C, c] \<and> c \<noteq> CHR ''u''
          \<and> simple_escape c = Some (char_of r)"
    by code_simp
  moreover have "r \<in> {34, 92, 8, 12, 10, 13, 9}"
    using assms by (auto simp: named_escape_def split: if_splits)
  ultimately show ?thesis using assms by fastforce
qed

lemma unesc_named:
  assumes "named_escape r = Some e"
  shows "unesc (e @ t) = prepend (encode_rune r) (unesc t)"
proof -
  obtain c where "r < 128" "e = [CHR 0x5C, c]" "c \<noteq> CHR ''u''" "simple_escape c = Some (char_of r)"
    using named_escape_Some [OF assms] by blast
  then show ?thesis
    by (subst unesc.simps) (simp add: encode_rune_ascii)
qed

lemma hd_encode_rune_ge:
  assumes "valid_rune r" "0x20 \<le> r" "r \<noteq> 34" "r \<noteq> 92"
  shows "\<exists>c cs. encode_rune r = c # cs \<and> c \<noteq> CHR 0x22 \<and> c \<noteq> CHR 0x5C \<and> \<not> (of_char c :: nat) < 0x20"
proof (cases "r < 128")
  case True
  have "char_of r \<noteq> CHR 0x22"
  proof
    assume "char_of r = CHR 0x22"
    then have "(of_char (char_of r :: char) :: nat) = of_char (CHR 0x22)" by (rule arg_cong)
    with True assms show False by simp
  qed
  moreover have "char_of r \<noteq> CHR 0x5C"
  proof
    assume "char_of r = CHR 0x5C"
    then have "(of_char (char_of r :: char) :: nat) = of_char (CHR 0x5C)" by (rule arg_cong)
    with True assms show False by simp
  qed
  ultimately show ?thesis using True assms by (simp add: encode_rune_ascii)
next
  case False
  have big: "c \<noteq> CHR 0x22 \<and> c \<noteq> CHR 0x5C \<and> \<not> (of_char c :: nat) < 0x20"
    if "128 \<le> (of_char c :: nat)" for c
    using that by auto
  have q: "r div 4096 < 16" if "r < 0x10000" using that by auto
  have q4: "r div 262144 < 5" using assms(1) by (auto simp: valid_rune_def)
  have q2: "r div 64 < 32" if "r < 0x800" using that by auto
  from False assms(1) big q q4 q2 show ?thesis
    by (auto simp: encode_rune_def Let_def)
qed

lemma unesc_raw:
  assumes "valid_rune r" "0x20 \<le> r" "r \<noteq> 34" "r \<noteq> 92"
  shows "unesc (encode_rune r @ t) = prepend (encode_rune r) (unesc t)"
proof -
  obtain c cs where e: "encode_rune r = c # cs" and c: "c \<noteq> CHR 0x22" "c \<noteq> CHR 0x5C"
      "\<not> (of_char c :: nat) < 0x20"
    using hd_encode_rune_ge [OF assms] by blast
  have d: "decode_rune (c # cs @ t) = (r, length (c # cs))"
    using decode_encode_rune [OF assms(1), of t] by (simp add: e)
  show ?thesis
    unfolding e append_Cons
    by (subst unesc.simps) (simp add: c d e)
qed

lemma unesc_esc_ascii:
  assumes "valid_rune r" shows "unesc (esc_ascii r @ t) = prepend (encode_rune r) (unesc t)"
proof (cases "named_escape r")
  case (Some e)
  then show ?thesis by (simp add: esc_ascii_def unesc_named)
next
  case None
  then have n: "r \<noteq> 34" "r \<noteq> 92" by (auto simp: named_escape_def)
  have le: "r \<le> 0x10FFFF" using assms by (auto simp: valid_rune_def)
  note ns = valid_rune_not_surrogate [OF assms]
  consider "r < 0x20 \<or> r = 0x7F" | "0x20 \<le> r" "r \<le> 0x7E" | "0x7F < r" "r \<le> 0xFFFF" | "0xFFFF < r"
    by linarith
  then show ?thesis
  proof cases
    case 4
    then have "esc_ascii r = WriteU4 (0xD800 + (r - 0x10000) div 1024 mod 1024)
        @ WriteU4 (0xDC00 + (r - 0x10000) mod 1024)"
      using None by (simp add: esc_ascii_def Let_def)
    with unesc_u4_pair [OF le 4, of t] show ?thesis by simp
  qed (use None n le assms ns in \<open>auto simp: esc_ascii_def Let_def unesc_raw unesc_u4\<close>)
qed

lemma unesc_esc_raw:
  assumes "valid_rune r" shows "unesc (esc_raw r @ t) = prepend (encode_rune r) (unesc t)"
proof (cases "named_escape r")
  case (Some e)
  then show ?thesis by (simp add: esc_raw_def unesc_named)
next
  case None
  then have n: "r \<noteq> 34" "r \<noteq> 92" by (auto simp: named_escape_def)
  show ?thesis
    by (cases "r < 0x20")
      (use None n assms valid_rune_not_surrogate [OF assms] in \<open>auto simp: esc_raw_def unesc_raw unesc_u4\<close>)
qed

lemma unesc_quote [simp]: "unesc (CHR 0x22 # rest) = Some ([], rest)"
  by (subst unesc.simps) simp

lemma unesc_map:
  assumes "\<And>r t. valid_rune r \<Longrightarrow> unesc (f r @ t) = prepend (encode_rune r) (unesc t)"
    and "\<forall>r\<in>set rs. valid_rune r"
  shows "unesc (concat (map f rs) @ CHR 0x22 # rest) = Some (utf8_encode rs, rest)"
  using assms(2) by (induction rs) (simp_all add: assms(1))

lemma lex_string_quoted:
  "lex_string (quoted a s @ rest) = Some (utf8_encode (runes s), rest)"
  using unesc_map [OF unesc_esc_ascii, of "runes s"] unesc_map [OF unesc_esc_raw, of "runes s"] runes_valid
  by (auto simp: lex_string_def quoted_def writeEscaped_def writeEscapedRaw_def)

lemma lex_string_quoted_valid:
  "valid_utf8 s \<Longrightarrow> lex_string (quoted a s @ rest) = Some (s, rest)"
  by (simp add: lex_string_quoted valid_utf8_def)


section \<open>Numbers\<close>

text \<open>What may follow a number literal without extending it.\<close>

definition num_stop :: "string \<Rightarrow> bool" where
  "num_stop s = (case s of [] \<Rightarrow> True
     | c # _ \<Rightarrow> \<not> is_digit c \<and> c \<notin> {CHR ''.'', CHR ''e'', CHR ''E''})"

lemma num_stop_Nil [simp]: "num_stop []"
  by (simp add: num_stop_def)

definition num_text :: "string \<Rightarrow> bool" where
  "num_text t \<longleftrightarrow> lex_number t = Some (t, [])"

lemma takeWhile_append_stop:
  "\<forall>c\<in>set ds. P c \<Longrightarrow> (case r of [] \<Rightarrow> True | c # _ \<Rightarrow> \<not> P c) \<Longrightarrow> takeWhile P (ds @ r) = ds"
  by (induction ds) (auto split: list.splits)

lemma lex_digits_append:
  assumes "lex_digits s = Some (d, r)" and "num_stop rest"
  shows "lex_digits (s @ rest) = Some (d, r @ rest)"
proof -
  from assms(1) have d: "d = takeWhile is_digit s" "d \<noteq> []" "r = drop (length d) s"
    by (auto simp: lex_digits_def Let_def split: if_splits)
  have sd: "s = d @ dropWhile is_digit s" by (simp add: d(1))
  then have r: "r = dropWhile is_digit s" using d(3) by (metis append_eq_conv_conj)
  have alld: "\<forall>c\<in>set d. is_digit c" unfolding d(1) by (auto dest: set_takeWhileD)
  have "case r of [] \<Rightarrow> True | c # _ \<Rightarrow> \<not> is_digit c"
    unfolding r by (auto split: list.split simp: dropWhile_eq_Cons_conv)
  then have "takeWhile is_digit (d @ (r @ rest)) = d"
    by (intro takeWhile_append_stop [OF alld])
      (use assms(2) in \<open>cases r; auto simp: num_stop_def split: list.splits\<close>)
  moreover have "s @ rest = d @ r @ rest" using sd r by simp
  ultimately show ?thesis using d(2) by (simp add: lex_digits_def Let_def)
qed

lemma lex_digits_full:
  assumes "\<forall>c\<in>set ds. is_digit c" and "ds \<noteq> []" and "num_stop rest"
  shows "lex_digits (ds @ rest) = Some (ds, rest)"
proof -
  have "takeWhile is_digit (ds @ rest) = ds"
    by (rule takeWhile_append_stop [OF assms(1)]) (use assms(3) in \<open>auto simp: num_stop_def split: list.splits\<close>)
  with assms(2) show ?thesis by (simp add: lex_digits_def)
qed

lemma lex_int_append:
  assumes "lex_int s = Some (d, r)" and "num_stop rest"
  shows "lex_int (s @ rest) = Some (d, r @ rest)"
  using assms(1) lex_digits_append [OF _ assms(2), of s d r]
  by (auto simp: lex_int_def split: list.splits if_splits)

lemma lex_frac_append:
  assumes "lex_frac s = Some (d, r)" and "num_stop rest"
  shows "lex_frac (s @ rest) = Some (d, r @ rest)"
proof (cases s)
  case Nil
  with assms show ?thesis by (auto simp: lex_frac_def num_stop_def split: list.splits)
next
  case (Cons c cs)
  with assms(1) show ?thesis
    by (auto simp: lex_frac_def dest: lex_digits_append [OF _ assms(2)] split: if_splits)
qed

lemma lex_exp_append:
  assumes "lex_exp s = Some (d, r)" and "num_stop rest"
  shows "lex_exp (s @ rest) = Some (d, r @ rest)"
proof (cases s)
  case Nil
  with assms show ?thesis by (auto simp: lex_exp_def num_stop_def split: list.splits)
next
  case (Cons c cs)
  show ?thesis
  proof (cases "c = CHR ''e'' \<or> c = CHR ''E''")
    case False
    with assms(1) show ?thesis by (auto simp: lex_exp_def Cons)
  next
    case True
    with assms(1) obtain e es where cs: "cs = e # es" by (cases cs) (auto simp: lex_exp_def Cons)
    show ?thesis
    proof (cases "e = CHR ''+'' \<or> e = CHR ''-''")
      case t: True
      with True assms(1) obtain x where "lex_digits es = Some (x, r)" "d = c # e # x"
        by (auto simp: lex_exp_def Cons cs)
      with t True lex_digits_append [OF _ assms(2), of es x r] show ?thesis
        by (simp add: lex_exp_def Cons cs)
    next
      case f: False
      with True assms(1) obtain x where "lex_digits cs = Some (x, r)" "d = c # x"
        by (auto simp: lex_exp_def Cons cs)
      with f True lex_digits_append [OF _ assms(2), of cs x r] show ?thesis
        by (simp add: lex_exp_def Cons cs)
    qed
  qed
qed

lemma lex_unsigned_append:
  assumes "lex_unsigned s = Some (d, r)" and "num_stop rest"
  shows "lex_unsigned (s @ rest) = Some (d, r @ rest)"
proof -
  from assms(1) obtain i r1 f r2 x where p: "lex_int s = Some (i, r1)" "lex_frac r1 = Some (f, r2)"
      "lex_exp r2 = Some (x, r)" "d = i @ f @ x"
    by (auto simp: lex_unsigned_def split: option.splits)
  show ?thesis
    using lex_int_append [OF p(1) assms(2)] lex_frac_append [OF p(2) assms(2)]
      lex_exp_append [OF p(3) assms(2)] p(4)
    by (simp add: lex_unsigned_def)
qed

lemma lex_number_append:
  assumes "lex_number s = Some (d, r)" and "num_stop rest"
  shows "lex_number (s @ rest) = Some (d, r @ rest)"
proof (cases s)
  case Nil
  with assms show ?thesis by (simp add: lex_number_def)
next
  case (Cons c cs)
  with assms(1) lex_unsigned_append [OF _ assms(2), of cs] lex_unsigned_append [OF _ assms(2), of s]
  show ?thesis by (auto simp: lex_number_def split: if_splits)
qed

lemma num_text_append: "num_text t \<Longrightarrow> num_stop rest \<Longrightarrow> lex_number (t @ rest) = Some (t, rest)"
  using lex_number_append [of t t "[]" rest] by (simp add: num_text_def)

lemma is_digit_minus: "\<not> is_digit (CHR ''-'')"
  by code_simp

lemma lex_unsigned_nat_digits: "lex_unsigned (nat_digits n) = Some (nat_digits n, [])"
proof (cases "n = 0")
  case True
  then show ?thesis by (simp add: nat_digits_zero) code_simp
next
  case False
  obtain c cs where c: "nat_digits n = c # cs" using nat_digits_not_Nil by (metis list.exhaust)
  with hd_nat_digits [of n] False have "c \<noteq> CHR ''0''" by simp
  moreover have "lex_digits (nat_digits n @ []) = Some (nat_digits n, [])"
    by (rule lex_digits_full) (auto dest: nat_digits_digits)
  ultimately have "lex_int (nat_digits n) = Some (nat_digits n, [])" by (simp add: lex_int_def c)
  then show ?thesis by (simp add: lex_unsigned_def lex_frac_def lex_exp_def)
qed

lemma hd_nat_digits_digit: "nat_digits n = c # cs \<Longrightarrow> is_digit c"
  using nat_digits_digits [of c n] by simp

lemma num_text_FormatInt [simp]: "num_text (FormatInt i)"
proof -
  obtain c cs where c: "nat_digits (nat i) = c # cs" using nat_digits_not_Nil by (metis list.exhaust)
  then have "c \<noteq> CHR ''-''" using hd_nat_digits_digit [OF c] is_digit_minus by auto
  with c lex_unsigned_nat_digits [of "nat i"] lex_unsigned_nat_digits [of "nat (- i)"] show ?thesis
    by (auto simp: num_text_def FormatInt_def lex_number_def)
qed

lemma is_digit_not_float_char: "is_digit c \<Longrightarrow> c \<notin> {CHR ''.'', CHR ''e'', CHR ''E''}"
proof
  assume "is_digit c" "c \<in> {CHR ''.'', CHR ''e'', CHR ''E''}"
  moreover have "\<not> is_digit (CHR ''.'')" "\<not> is_digit (CHR ''e'')" "\<not> is_digit (CHR ''E'')" by code_simp+
  ultimately show False by auto
qed

lemma isJSONInt_FormatInt [simp]: "isJSONInt (FormatInt i)"
  using is_digit_not_float_char nat_digits_digits
  by (auto simp: isJSONInt_def FormatInt_def list_all_iff)

lemma int_literal_FormatInt [simp]: "int_literal (FormatInt i) = i"
proof -
  obtain c cs where c: "nat_digits (nat i) = c # cs" using nat_digits_not_Nil by (metis list.exhaust)
  then have "c \<noteq> CHR ''-''" using hd_nat_digits_digit [OF c] is_digit_minus by auto
  moreover have "digits_val (c # cs) = nat i" using digits_val_nat_digits [of "nat i"] by (simp add: c)
  ultimately show ?thesis by (auto simp: int_literal_def FormatInt_def c)
qed

lemma number_value_FormatInt: "int64_range i \<Longrightarrow> number_value (FormatInt i) = Some (VInt i)"
  by (simp add: number_value_def ParseInt64_def)


section \<open>The grammar\<close>

definition ws :: "string \<Rightarrow> bool" where
  "ws w \<longleftrightarrow> list_all is_ws w"

lemma ws_simps [simp]: "ws []" "ws (c # w) = (is_ws c \<and> ws w)" "ws (v @ w) = (ws v \<and> ws w)"
  by (simp_all add: ws_def)

lemma skip_ws_append [simp]: "ws w \<Longrightarrow> skip_ws (w @ s) = skip_ws s"
  by (induction w) (simp_all add: skip_ws_def)

lemma skip_ws_Cons: "\<not> is_ws c \<Longrightarrow> skip_ws (c # s) = c # s"
  by (simp add: skip_ws_def)

lemma skip_ws_idem [simp]: "skip_ws (skip_ws s) = skip_ws s"
  unfolding skip_ws_def by (induction s) simp_all

lemma length_skip_ws: "length (skip_ws s) \<le> length s"
  by (simp add: skip_ws_def length_dropWhile_le)

text \<open>
  \<open>json_text v t\<close>: the text \<open>t\<close>, without leading white space, denotes \<open>v\<close>. White space may
  surround every token inside an array or object. \<open>json_elems\<close> and \<open>json_members\<close> are the bodies
  without their closing bracket.
\<close>

inductive json_text :: "value \<Rightarrow> string \<Rightarrow> bool"
  and json_elems :: "value list \<Rightarrow> string \<Rightarrow> bool"
  and json_members :: "kv list \<Rightarrow> string \<Rightarrow> bool"
where
  T_null: "json_text VNull ''null''"
| T_true: "json_text (VBool True) ''true''"
| T_false: "json_text (VBool False) ''false''"
| T_num: "num_text t \<Longrightarrow> number_value t = Some v \<Longrightarrow> json_text v t"
| T_str: "valid_utf8 s \<Longrightarrow> json_text (VStr s) (quoted a s)"
| T_arr0: "json_text (VArr []) ''[]''"
| T_arr: "json_elems vs t \<Longrightarrow> json_text (VArr vs) (CHR ''['' # t @ '']'')"
| T_obj0: "json_text (VObj []) ''{}''"
| T_obj: "json_members kvs t \<Longrightarrow> distinct (map fst kvs) \<Longrightarrow> json_text (VObj kvs) (CHR ''{'' # t @ ''}'')"
| E_one: "json_text v t \<Longrightarrow> ws w1 \<Longrightarrow> ws w2 \<Longrightarrow> json_elems [v] (w1 @ t @ w2)"
| E_cons: "json_text v t \<Longrightarrow> ws w1 \<Longrightarrow> ws w2 \<Longrightarrow> json_elems vs u \<Longrightarrow>
     json_elems (v # vs) (w1 @ t @ w2 @ CHR '','' # u)"
| M_one: "valid_utf8 k \<Longrightarrow> json_text v t \<Longrightarrow> ws w1 \<Longrightarrow> ws w2 \<Longrightarrow> ws w3 \<Longrightarrow>
     json_members [(k, v)] (w1 @ quoted a k @ CHR '':'' # w2 @ t @ w3)"
| M_cons: "valid_utf8 k \<Longrightarrow> json_text v t \<Longrightarrow> ws w1 \<Longrightarrow> ws w2 \<Longrightarrow> ws w3 \<Longrightarrow> json_members kvs u \<Longrightarrow>
     json_members ((k, v) # kvs) (w1 @ quoted a k @ CHR '':'' # w2 @ t @ w3 @ CHR '','' # u)"

lemma number_value_kind: "number_value t = Some v \<Longrightarrow> vkind v = KInt \<or> vkind v = KFlt"
  by (auto simp: number_value_def split: if_splits option.splits)

lemma lex_unsigned_hd:
  assumes "lex_unsigned s = Some (d, r)" shows "\<exists>c cs. s = c # cs \<and> is_digit c"
proof -
  have "is_digit (CHR ''0'')" by code_simp
  moreover from assms obtain i r1 where "lex_int s = Some (i, r1)"
    by (auto simp: lex_unsigned_def split: option.splits)
  ultimately show ?thesis
    by (cases s) (auto simp: lex_int_def lex_digits_def Let_def split: if_splits)
qed

lemma num_text_hd:
  assumes "num_text t" shows "\<exists>c cs. t = c # cs \<and> (is_digit c \<or> c = CHR ''-'')"
proof (cases t)
  case Nil
  with assms show ?thesis by (simp add: num_text_def lex_number_def)
next
  case (Cons c cs)
  with assms lex_unsigned_hd [of t] show ?thesis
    by (auto simp: num_text_def lex_number_def split: if_splits)
qed

definition structural :: "char \<Rightarrow> bool" where
  "structural c \<longleftrightarrow> is_ws c \<or> c \<in> {CHR ''{'', CHR '']'', CHR ''['', CHR ''}'', CHR '','', CHR '':'',
     CHR 0x22, CHR ''n'', CHR ''t'', CHR ''f''}"

lemma digit_not_structural: "is_digit c \<or> c = CHR ''-'' \<Longrightarrow> \<not> structural c"
proof -
  have "\<forall>c\<in>set [CHR ''{'', CHR '']'', CHR ''['', CHR ''}'', CHR '','', CHR '':'', CHR 0x22, CHR ''n'', CHR ''t'',
        CHR ''f'', CHR '' '', CHR 0x09, CHR 0x0D, CHR 0x0A]. \<not> is_digit c \<and> c \<noteq> CHR ''-''"
    by code_simp
  then show "is_digit c \<or> c = CHR ''-'' \<Longrightarrow> ?thesis"
    by (auto simp: structural_def is_ws_def)
qed

lemma json_text_hd:
  assumes "json_text v t"
  shows "\<exists>c cs. t = c # cs \<and> \<not> is_ws c \<and> c \<noteq> CHR '']'' \<and> c \<noteq> CHR ''}''"
  using assms
proof cases
  case T_num
  with num_text_hd [of t] digit_not_structural show ?thesis by (fastforce simp: structural_def)
qed (auto simp: is_ws_def quoted_def)

lemma num_stop_closers [simp]:
  "num_stop (CHR '','' # s)" "num_stop (CHR '']'' # s)" "num_stop (CHR ''}'' # s)"
proof -
  have "\<not> is_digit (CHR '','')" "\<not> is_digit (CHR '']'')" "\<not> is_digit (CHR ''}'')" by code_simp+
  then show "num_stop (CHR '','' # s)" "num_stop (CHR '']'' # s)" "num_stop (CHR ''}'' # s)"
    by (simp_all add: num_stop_def)
qed

lemma num_stop_ws: "ws w \<Longrightarrow> num_stop s \<Longrightarrow> num_stop (w @ s)"
proof (cases w)
  case (Cons c cs)
  have "\<forall>c\<in>set [CHR '' '', CHR 0x09, CHR 0x0D, CHR 0x0A]. \<not> is_digit c" by code_simp
  then have "is_ws c \<Longrightarrow> \<not> is_digit c" by (auto simp: is_ws_def)
  then show "ws w \<Longrightarrow> num_stop s \<Longrightarrow> ?thesis" by (auto simp: Cons num_stop_def is_ws_def)
qed simp

lemma parse_value_skip: "parse_value n (skip_ws s) = parse_value n s"
  by (cases n) (simp_all add: parse_value.simps)

lemma parse_elems_skip: "parse_elems n acc (skip_ws s) = parse_elems n acc s"
  by (cases n) (simp_all add: parse_elems.simps parse_value_skip)

lemma parse_members_skip: "parse_members n acc (skip_ws s) = parse_members n acc s"
  by (cases n) (simp_all add: parse_members.simps)

lemma parse_value_ws: "ws w \<Longrightarrow> parse_value n (w @ s) = parse_value n s"
  by (metis parse_value_skip skip_ws_append)

lemma strip_prefix_append [simp]: "strip_prefix p (p @ s) = Some s"
  by (simp add: strip_prefix_def)

lemma parse_value_num:
  assumes "num_text t" and "number_value t = Some v" and "num_stop rest"
  shows "parse_value (Suc n) (t @ rest) = Some (v, rest)"
proof -
  obtain c cs where t: "t = c # cs" "is_digit c \<or> c = CHR ''-''" using num_text_hd [OF assms(1)] by blast
  with digit_not_structural have c: "\<not> structural c" by blast
  have "lex_number (c # cs @ rest) = Some (t, rest)" using num_text_append [OF assms(1,3)] t by simp
  with c assms(2) show ?thesis
    by (simp add: t(1) parse_value.simps skip_ws_Cons structural_def parse_scalar_def)
qed

lemma parse_value_quoted:
  assumes "valid_utf8 s" shows "parse_value (Suc n) (quoted a s @ rest) = Some (VStr s, rest)"
proof -
  have "lex_string (quoted a s @ rest) = Some (s, rest)" by (rule lex_string_quoted_valid [OF assms])
  then show ?thesis
    by (simp add: parse_value.simps skip_ws_def is_ws_def quoted_def parse_scalar_def)
qed


text \<open>Completeness of the parser for the grammar, with the fuel it needs.\<close>

lemma parse_complete:
  "json_text v t \<Longrightarrow> (\<And>n rest. 2 * length t + 1 \<le> n \<Longrightarrow> num_stop rest \<Longrightarrow>
      parse_value n (t @ rest) = Some (v, rest))"
  "json_elems vs t \<Longrightarrow> (\<And>n acc rest. 2 * length t + 2 \<le> n \<Longrightarrow>
      parse_elems n acc (t @ CHR '']'' # rest) = Some (VArr (acc @ vs), rest))"
  "json_members kvs t \<Longrightarrow> (\<And>n acc rest. 2 * length t + 2 \<le> n \<Longrightarrow> distinct (map fst (acc @ kvs)) \<Longrightarrow>
      parse_members n acc (t @ CHR ''}'' # rest) = Some (VObj (acc @ kvs), rest))"
proof (induction rule: json_text_json_elems_json_members.inducts)
  case T_null
  then show ?case by (cases n) (simp_all add: parse_value.simps skip_ws_def is_ws_def parse_scalar_def strip_prefix_def)
next
  case T_true
  then show ?case by (cases n) (simp_all add: parse_value.simps skip_ws_def is_ws_def parse_scalar_def strip_prefix_def)
next
  case T_false
  then show ?case by (cases n) (simp_all add: parse_value.simps skip_ws_def is_ws_def parse_scalar_def strip_prefix_def)
next
  case (T_num t v)
  then show ?case by (cases n) (simp_all add: parse_value_num)
next
  case (T_str s a)
  then show ?case by (cases n) (simp_all add: parse_value_quoted)
next
  case T_arr0
  then show ?case by (cases n) (simp_all add: parse_value.simps skip_ws_def is_ws_def)
next
  case (T_arr vs t)
  from T_arr.prems obtain m where n: "n = Suc m" "2 * length t + 2 \<le> m" by (cases n) auto
  from T_arr.hyps obtain c cs where c: "skip_ws (t @ CHR '']'' # rest) = c # cs" "c \<noteq> CHR '']''"
  proof cases
    case (E_one v t' w1 w2)
    with json_text_hd [of v t'] that show ?thesis by (auto simp: skip_ws_Cons)
  next
    case (E_cons v t' w1 w2 vs u)
    with json_text_hd [of v t'] that show ?thesis by (auto simp: skip_ws_Cons)
  qed
  have "parse_elems m [] (c # cs) = Some (VArr vs, rest)"
    using T_arr.IH [OF n(2), of "[]" rest] parse_elems_skip [of m "[]"] c(1) by (metis append_Nil)
  then show ?case by (simp add: n(1) parse_value.simps skip_ws_Cons is_ws_def c)
next
  case T_obj0
  then show ?case by (cases n) (simp_all add: parse_value.simps skip_ws_def is_ws_def)
next
  case (T_obj kvs t)
  from T_obj.prems obtain m where n: "n = Suc m" "2 * length t + 2 \<le> m" by (cases n) auto
  from T_obj.hyps(1) obtain c cs where c: "skip_ws (t @ CHR ''}'' # rest) = c # cs" "c \<noteq> CHR ''}''"
    by cases (auto simp: skip_ws_Cons is_ws_def quoted_def)
  have "parse_members m [] (c # cs) = Some (VObj kvs, rest)"
    using T_obj.IH [OF n(2), of "[]" rest] T_obj.hyps(2) parse_members_skip [of m "[]"] c(1)
    by (metis append_Nil)
  then show ?case by (simp add: n(1) parse_value.simps skip_ws_Cons is_ws_def c)
next
  case (E_one v t w1 w2)
  from E_one.prems obtain m where n: "n = Suc m" "2 * length t + 1 \<le> m" by (cases n) auto
  from E_one.IH [OF n(2), of "w2 @ CHR '']'' # rest"] E_one.hyps n(1) show ?case
    by (simp add: parse_elems.simps parse_value_ws num_stop_ws skip_ws_Cons is_ws_def)
next
  case (E_cons v t w1 w2 vs u)
  from E_cons.prems obtain m where n: "n = Suc m" "2 * length t + 1 \<le> m" "2 * length u + 2 \<le> m"
    by (cases n) auto
  from E_cons.IH(1) [OF n(2), of "w2 @ CHR '','' # u @ CHR '']'' # rest"]
    E_cons.IH(2) [OF n(3), of "acc @ [v]" rest] E_cons.hyps n(1) show ?case
    by (simp add: parse_elems.simps parse_value_ws num_stop_ws skip_ws_Cons is_ws_def)
next
  case (M_one k v t w1 w2 w3 a)
  from M_one.prems obtain m where n: "n = Suc m" "2 * length t + 1 \<le> m" by (cases n) auto
  have q: "skip_ws (quoted a k @ r) = quoted a k @ r" for r by (simp add: quoted_def skip_ws_Cons is_ws_def)
  from M_one.IH [OF n(2), of "w3 @ CHR ''}'' # rest"] M_one.hyps n(1) M_one.prems(2) show ?case
    by (simp add: parse_members.simps parse_value_ws num_stop_ws skip_ws_Cons is_ws_def q lex_string_quoted_valid)
next
  case (M_cons k v t w1 w2 w3 kvs u a)
  from M_cons.prems obtain m where n: "n = Suc m" "2 * length t + 1 \<le> m" "2 * length u + 2 \<le> m"
    by (cases n) auto
  have q: "skip_ws (quoted a k @ r) = quoted a k @ r" for r by (simp add: quoted_def skip_ws_Cons is_ws_def)
  from M_cons.prems(2) have d: "distinct (map fst ((acc @ [(k, v)]) @ kvs))" by simp
  from M_cons.IH(1) [OF n(2), of "w3 @ CHR '','' # u @ CHR ''}'' # rest"]
    M_cons.IH(2) [OF n(3) d, of rest] M_cons.hyps n(1) M_cons.prems(2) show ?case
    by (simp add: parse_members.simps parse_value_ws num_stop_ws skip_ws_Cons is_ws_def q lex_string_quoted_valid)
qed

theorem ParseOrdered_complete:
  assumes "json_text v t" and "ws w1" and "ws w2"
  shows "ParseOrdered (w1 @ t @ w2) = Some v"
proof -
  have "num_stop (w2 @ [])" by (rule num_stop_ws [OF assms(3)]) simp
  then have "parse_value (2 * length (w1 @ t @ w2) + 2) (t @ w2) = Some (v, w2)"
    by (intro parse_complete(1) [OF assms(1)]) simp_all
  moreover have "skip_ws w2 = []" using skip_ws_append [OF assms(3), of "[]"] by (simp add: skip_ws_def)
  ultimately show ?thesis by (simp add: ParseOrdered_def parse_value_ws [OF assms(2)])
qed

end
