(* ===== verification/JsonRoundtrip.thy ===== *)
theory JsonRoundtrip
  imports JsonGrammar
begin

text \<open>
  The serializers of \<^verbatim>\<open>internal/jval\<close> against its parser: what each serializer writes for a
  well-formed value is parsed back to that value (the canonical form to the value with sorted keys),
  so equal canonical forms are equal values up to key order. The last section shows that the fuel
  of \<open>ParseOrdered\<close> never decides a result.
\<close>

section \<open>Well-formed values\<close>

text \<open>
  A value the serializers render faithfully: object keys are distinct, strings are UTF-8, an
  integer fits its representation, a float survives its decimal rendering.
\<close>

definition bigint_text :: "string \<Rightarrow> bool" where
  "bigint_text t \<longleftrightarrow> num_text t \<and> isJSONInt t \<and> ParseInt64 t = None"

definition float_ok :: "f64 \<Rightarrow> bool" where
  "float_ok f \<longleftrightarrow> num_text (PythonFloat f) \<and> \<not> isJSONInt (PythonFloat f)
     \<and> ParseFloat (PythonFloat f) = Some f"

fun wf_value :: "value \<Rightarrow> bool" where
  "wf_value VNull = True"
| "wf_value (VBool b) = True"
| "wf_value (VInt i) = int64_range i"
| "wf_value (VBigInt t) = bigint_text t"
| "wf_value (VFloat f) = float_ok f"
| "wf_value (VStr s) = valid_utf8 s"
| "wf_value (VArr a) = list_all wf_value a"
| "wf_value (VObj kvs) = (distinct (map fst kvs) \<and> list_all (\<lambda>e. valid_utf8 (fst e) \<and> wf_value (snd e)) kvs)"

lemma json_text_number: "num_text t \<Longrightarrow> number_value t = Some v \<Longrightarrow> json_text v t"
  by (rule T_num)

lemma json_text_int: "int64_range i \<Longrightarrow> json_text (VInt i) (IntText (VInt i))"
  by (rule T_num) (simp_all add: number_value_FormatInt)

lemma json_text_bigint: "bigint_text t \<Longrightarrow> json_text (VBigInt t) (IntText (VBigInt t))"
  by (rule T_num) (simp_all add: bigint_text_def number_value_def)

lemma json_text_float: "float_ok f \<Longrightarrow> json_text (VFloat f) (PythonFloat f)"
  by (rule T_num) (simp_all add: float_ok_def number_value_def)

lemmas json_text_scalars = T_null T_true T_false T_str json_text_int [simplified]
  json_text_bigint [simplified] json_text_float

text \<open>Array and object bodies built by \<open>join\<close>.\<close>

lemma json_elems_join:
  assumes "vs \<noteq> []" and "\<And>v. v \<in> set vs \<Longrightarrow> json_text v (f v)" and "ws p" and "ws q" and "ws w0"
  shows "json_elems vs (w0 @ join (CHR '','' # q) (map (\<lambda>v. p @ f v) vs))"
  using assms(1,2,5)
proof (induction vs arbitrary: w0)
  case (Cons v vs)
  show ?case
  proof (cases vs)
    case Nil
    with E_one [of v "f v" "w0 @ p" "[]"] Cons.prems assms(3,4) show ?thesis by simp
  next
    case (Cons v' vs')
    with Cons.IH [of q] Cons.prems assms(4)
    have "json_elems vs (q @ join (CHR '','' # q) (map (\<lambda>v. p @ f v) vs))" by simp
    from E_cons [OF _ _ _ this, of v "f v" "w0 @ p" "[]"] Cons Cons.prems assms(3,4) show ?thesis by simp
  qed
qed simp

lemma json_members_join:
  assumes "kvs \<noteq> []" and "\<And>e. e \<in> set kvs \<Longrightarrow> valid_utf8 (fst e) \<and> json_text (snd e) (f e)"
    and "ws p" and "ws q" and "ws s" and "ws w0"
  shows "json_members kvs (w0 @ join (CHR '','' # q) (map (\<lambda>e. p @ quoted a (fst e) @ CHR '':'' # s @ f e) kvs))"
  using assms(1,2,6)
proof (induction kvs arbitrary: w0)
  case (Cons e kvs)
  show ?case
  proof (cases kvs)
    case Nil
    with M_one [of "fst e" "snd e" "f e" "w0 @ p" s "[]" a] Cons.prems assms(3-5) show ?thesis by simp
  next
    case (Cons e' kvs')
    with Cons.IH [of q] Cons.prems assms(4)
    have "json_members kvs (q @ join (CHR '','' # q) (map (\<lambda>e. p @ quoted a (fst e) @ CHR '':'' # s @ f e) kvs))"
      by simp
    from M_cons [OF _ _ _ _ _ this, of "fst e" "snd e" "f e" "w0 @ p" s "[]" a] Cons Cons.prems assms(3-5)
    show ?thesis by simp
  qed
qed simp

lemma json_elems_trail: "json_elems vs t \<Longrightarrow> ws w \<Longrightarrow> json_elems vs (t @ w)"
proof (induction vs arbitrary: t)
  case Nil
  then show ?case by (auto elim: json_elems.cases)
next
  case (Cons v vs)
  from Cons.prems(1) show ?case
  proof cases
    case (E_one t' w1 w2)
    with json_text_json_elems_json_members.E_one [of v t' w1 "w2 @ w"] Cons.prems show ?thesis by simp
  next
    case (E_cons t' w1 w2 u)
    with json_text_json_elems_json_members.E_cons [of v t' w1 w2 vs "u @ w"] Cons.IH [of u] Cons.prems
    show ?thesis by simp
  qed
qed

lemma json_members_trail: "json_members kvs t \<Longrightarrow> ws w \<Longrightarrow> json_members kvs (t @ w)"
proof (induction kvs arbitrary: t)
  case Nil
  then show ?case by (auto elim: json_members.cases)
next
  case (Cons e kvs)
  from Cons.prems(1) show ?case
  proof cases
    case (M_one k v t' w1 w2 w3 a)
    with json_text_json_elems_json_members.M_one [of k v t' w1 w2 "w3 @ w" a] Cons.prems show ?thesis by simp
  next
    case (M_cons k v t' w1 w2 w3 u a)
    with json_text_json_elems_json_members.M_cons [of k v t' w1 w2 w3 kvs "u @ w" a] Cons.IH [of u] Cons.prems
    show ?thesis by simp
  qed
qed

lemma is_ws_space [simp]: "is_ws CHR '' ''"
  by (simp add: is_ws_def)

lemma ws_NL [simp]: "ws NL" and ws_pad [simp]: "ws (pad n)" and ws_space [simp]: "ws '' ''"
proof -
  have "is_ws (CHR 0x0A)" "is_ws CHR '' ''" by (simp_all add: is_ws_def)
  then show "ws NL" "ws (pad n)" "ws '' ''" by (simp_all add: NL_def pad_def ws_def list_all_iff)
qed

lemma wf_writeOrdered: "wf_value v \<Longrightarrow> json_text v (writeOrdered a v)"
proof (induction v rule: wf_value.induct)
  case (2 b)
  then show ?case by (cases b) (simp_all add: json_text_scalars)
next
  case (7 vs)
  show ?case
  proof (cases "vs = []")
    case False
    with 7 have "json_elems vs ([] @ join (CHR '','' # '' '') (map (\<lambda>v. [] @ writeOrdered a v) vs))"
      by (intro json_elems_join) (auto simp: list_all_iff)
    then show ?thesis using T_arr by simp
  qed (simp add: T_arr0)
next
  case (8 kvs)
  show ?case
  proof (cases "kvs = []")
    case False
    with 8 have "json_members kvs ([] @ join (CHR '','' # '' '')
        (map (\<lambda>e. [] @ quoted a (fst e) @ CHR '':'' # '' '' @ writeOrdered a (snd e)) kvs))"
      by (intro json_members_join) (auto simp: list_all_iff)
    then show ?thesis using T_obj 8 by simp
  qed (simp add: T_obj0)
qed (simp_all add: json_text_scalars)

lemma wf_writeIndented: "wf_value v \<Longrightarrow> json_text v (writeIndented a d v)"
proof (induction v arbitrary: d rule: wf_value.induct)
  case (2 b)
  then show ?case by (cases b) (simp_all add: json_text_scalars)
next
  case (7 vs)
  show ?case
  proof (cases "vs = []")
    case False
    with 7 have "json_elems vs (NL @ join (CHR '','' # NL)
        (map (\<lambda>v. pad (Suc d) @ writeIndented a (Suc d) v) vs))"
      by (intro json_elems_join) (auto simp: list_all_iff)
    from T_arr [OF json_elems_trail [OF this, of "NL @ pad d"]] False show ?thesis by simp
  qed (simp add: T_arr0)
next
  case (8 kvs)
  show ?case
  proof (cases "kvs = []")
    case False
    with 8 have "json_members kvs (NL @ join (CHR '','' # NL)
        (map (\<lambda>e. pad (Suc d) @ quoted a (fst e) @ CHR '':'' # '' '' @ writeIndented a (Suc d) (snd e)) kvs))"
      by (intro json_members_join) (auto simp: list_all_iff)
    from T_obj [OF json_members_trail [OF this, of "NL @ pad d"]] False 8 show ?thesis by simp
  qed (simp add: T_obj0)
qed (simp_all add: json_text_scalars)

section \<open>Canonical form\<close>

text \<open>\<open>keysorted v\<close>: every object of \<open>v\<close> with its keys sorted, the value the canonical form denotes.\<close>

fun keysorted :: "value \<Rightarrow> value" where
  "keysorted (VArr a) = VArr (map keysorted a)"
| "keysorted (VObj kvs) = VObj (sort_key fst (map (\<lambda>e. (fst e, keysorted (snd e))) kvs))"
| "keysorted v = v"

lemma wf_norm: "wf_value v \<Longrightarrow> wf_value (keysorted v)"
proof (induction v rule: wf_value.induct)
  case (8 kvs)
  then show ?case by (auto simp: list_all_iff map_fst_sort_key comp_def)
qed (auto simp: list_all_iff)

lemma Canon_member:
  "writeCanon c (VObj kvs) = ''{'' @ join (if c then '','' else '', '')
     (map (\<lambda>e. quoted True (fst e) @ (if c then '':'' else '': '') @ writeCanon c (snd e)) (sort_key fst kvs)) @ ''}''"
  by (simp add: sort_key_map_snd comp_def)

lemma sort_key_sort_key [simp]: "sort_key f (sort_key f xs) = sort_key f xs"
  by (rule sort_key_id_if_sorted) simp

lemma sort_key_stable_map:
  "sort_key fst (map (\<lambda>e. (fst e, f (snd e))) (sort_key fst kvs)) = sort_key fst (map (\<lambda>e. (fst e, f (snd e))) kvs)"
  by (simp add: sort_key_map_snd)

lemma writeCanon_norm: "writeCanon c v = writeCanon c (keysorted v)"
proof (induction v rule: wf_value.induct)
  case (7 a)
  then show ?case by (simp add: comp_def cong: map_cong)
next
  case (8 kvs)
  have m: "map (\<lambda>e. F e (writeCanon c (snd e))) (sort_key fst kvs)
      = map (\<lambda>e. F e (writeCanon c (keysorted (snd e)))) (sort_key fst kvs)" for F :: "kv \<Rightarrow> string \<Rightarrow> string"
    using 8 by simp
  show ?case
    unfolding keysorted.simps Canon_member sort_key_map_snd sort_key_sort_key map_map comp_def fst_conv snd_conv
    by (simp only: m [of "\<lambda>e t. quoted True (fst e) @ (if c then '':'' else '': '') @ t"])
qed simp_all

lemma writeCanon_spaced: "writeCanon False v = writeOrdered True (keysorted v)"
proof (induction v rule: wf_value.induct)
  case (7 a)
  then show ?case by (simp add: comp_def cong: map_cong)
next
  case (8 kvs)
  have m: "map (\<lambda>e. F e (writeCanon False (snd e))) (sort_key fst kvs)
      = map (\<lambda>e. F e (writeOrdered True (keysorted (snd e)))) (sort_key fst kvs)" for F :: "kv \<Rightarrow> string \<Rightarrow> string"
    using 8 by simp
  show ?case
    unfolding keysorted.simps Canon_member writeOrdered.simps sort_key_map_snd map_map comp_def fst_conv snd_conv if_False
    by (simp only: m [of "\<lambda>e t. quoted True (fst e) @ '': '' @ t"])
qed simp_all

text \<open>The compact canonical form denotes the same normal value.\<close>

lemma wf_writeCanon: "wf_value v \<Longrightarrow> json_text (keysorted v) (writeCanon c v)"
proof (induction v rule: wf_value.induct)
  case (2 b)
  then show ?case by (cases b) (simp_all add: json_text_scalars)
next
  case (7 vs)
  show ?case
  proof (cases "vs = []")
    case False
    have mem: "json_text w (writeCanon c w)" if "w \<in> set (map keysorted vs)" for w
    proof -
      from that obtain v where e: "v \<in> set vs" "w = keysorted v" by auto
      with 7 have "json_text (keysorted v) (writeCanon c v)" by (auto simp: list_all_iff)
      then show ?thesis by (simp only: e(2) writeCanon_norm [of c v, symmetric])
    qed
    have "json_elems (map keysorted vs) ([] @ join (CHR '','' # (if c then [] else '' ''))
      (map (\<lambda>v. [] @ (writeCanon c v)) (map keysorted vs)))"
      by (rule json_elems_join [OF _ mem]) (simp_all add: False)
    from T_arr [OF this]
    have "json_text (VArr (map keysorted vs)) (''['' @ join (if c then '','' else '', '')
        (map (writeCanon c) (map keysorted vs)) @ '']'')"
      by (cases c) (simp_all only: if_True if_False append_Nil append_Cons)
    then have "json_text (VArr (map keysorted vs)) (writeCanon c (VArr (map keysorted vs)))"
      by (simp only: writeCanon.simps)
    then show ?thesis by (simp only: writeCanon_norm [of c "VArr vs"] keysorted.simps)
  qed (simp add: T_arr0)
next
  case (8 kvs)
  let ?n = "sort_key fst (map (\<lambda>e. (fst e, keysorted (snd e))) kvs)"
  show ?case
  proof (cases "kvs = []")
    case False
    have "wf_value (keysorted (VObj kvs))" by (rule wf_norm) fact
    then have d: "distinct (map fst ?n)" by simp
    have "length ?n \<noteq> 0" using False by simp
    then have ne: "?n \<noteq> []" by (simp only: length_0_conv not_False_eq_True)
    have mem: "valid_utf8 (fst e) \<and> json_text (snd e) (writeCanon c (snd e))" if "e \<in> set ?n" for e
    proof -
      from that obtain e0 where e: "e0 \<in> set kvs" "e = (fst e0, keysorted (snd e0))" by auto
      with 8 have "valid_utf8 (fst e0)" "json_text (keysorted (snd e0)) (writeCanon c (snd e0))"
        by (auto simp: list_all_iff)
      then show ?thesis by (simp only: e(2) fst_conv snd_conv writeCanon_norm [of c "snd e0", symmetric])
    qed
    have "json_members ?n ([] @ join (CHR '','' # (if c then [] else '' ''))
        (map (\<lambda>e. [] @ quoted True (fst e) @ CHR '':'' # (if c then [] else '' '') @ writeCanon c (snd e)) ?n))"
      by (rule json_members_join [OF ne mem]) simp_all
    from T_obj [OF this d]
    have "json_text (VObj ?n) (''{'' @ join (if c then '','' else '', '')
        (map (\<lambda>e. quoted True (fst e) @ (if c then '':'' else '': '') @ writeCanon c (snd e)) ?n) @ ''}'')"
      by (cases c) (simp_all only: if_True if_False append_Nil append_Cons)
    then have "json_text (VObj ?n) (writeCanon c (VObj ?n))"
      by (simp only: Canon_member sort_key_sort_key)
    then show ?thesis by (simp only: writeCanon_norm [of c "VObj kvs"] keysorted.simps)
  qed (simp add: T_obj0)
qed (simp_all add: json_text_scalars)

section \<open>Round trips\<close>

lemma ParseOrdered_text: "json_text v t \<Longrightarrow> ParseOrdered t = Some v"
  using ParseOrdered_complete [of v t "[]" "[]"] by simp

lemma parse_Ordered: "wf_value v \<Longrightarrow> ParseOrdered (DumpsOrdered v a) = Some v"
  unfolding DumpsOrdered_def by (rule ParseOrdered_text [OF wf_writeOrdered])

lemma parse_Indented: "wf_value v \<Longrightarrow> ParseOrdered (DumpIndented v) = Some v"
  unfolding DumpIndented_def by (rule ParseOrdered_text [OF wf_writeIndented])

lemma parse_IndentedASCII: "wf_value v \<Longrightarrow> ParseOrdered (DumpIndentedASCII v) = Some v"
  unfolding DumpIndentedASCII_def by (rule ParseOrdered_text [OF wf_writeIndented])

lemma parse_Canon: "wf_value v \<Longrightarrow> ParseOrdered (Canon v c) = Some (keysorted v)"
  unfolding Canon_def by (rule ParseOrdered_text [OF wf_writeCanon])

lemma Canon_eq_iff:
  assumes "wf_value v" and "wf_value w" shows "Canon v c = Canon w c \<longleftrightarrow> keysorted v = keysorted w"
proof
  assume "Canon v c = Canon w c"
  with parse_Canon [OF assms(1), of c] parse_Canon [OF assms(2), of c] show "keysorted v = keysorted w" by simp
next
  assume "keysorted v = keysorted w"
  then show "Canon v c = Canon w c" unfolding Canon_def by (metis writeCanon_norm)
qed

section \<open>The fuel is always enough\<close>

lemma unesc_lone_backslash: "unesc [CHR 0x5C] = None"
  by (subst unesc.simps) simp

lemma unesc_shorter: "unesc s = Some (t, r) \<Longrightarrow> length r < length s"
proof (induction s arbitrary: t r rule: unesc.induct)
  case (1 s)
  have prep: "\<exists>t'. m = Some (t', r)" if "prepend p m = Some (t, r)" for p m
    using that by (cases m) auto
  show ?case
  proof (cases s)
    case Nil
    with 1(6) show ?thesis by (simp add: unesc.simps)
  next
    case (Cons c cs)
    have w: "0 < snd (decode_rune (c # cs))" by simp
    show ?thesis
    proof (cases "c = CHR 0x22")
      case True
      with 1(6) Cons show ?thesis by (simp add: unesc.simps [of "c # cs"])
    next
      case nq: False
      show ?thesis
      proof (cases "c = CHR 0x5C")
        case False
        with nq 1(6) Cons have "\<not> (of_char c :: nat) < 0x20"
          "prepend (encode_rune (fst (decode_rune (c # cs)))) (unesc (drop (snd (decode_rune (c # cs))) (c # cs))) = Some (t, r)"
          by (simp_all add: unesc.simps [of "c # cs"] split: if_splits)
        with prep obtain t' where "unesc (drop (snd (decode_rune (c # cs))) (c # cs)) = Some (t', r)" by blast
        with 1(5) [OF Cons nq False \<open>\<not> (of_char c :: nat) < 0x20\<close>]
        have "length r < length (drop (snd (decode_rune (c # cs))) (c # cs))" by simp
        then show ?thesis by (simp add: Cons)
      next
        case True
        with nq 1(6) Cons obtain e es where cs: "cs = e # es"
          by (cases cs) (simp_all add: unesc_lone_backslash)
        show ?thesis
        proof (cases "e = CHR ''u''")
          case False
          with True nq 1(6) Cons cs obtain ch where ch: "simple_escape e = Some ch"
              "prepend [ch] (unesc es) = Some (t, r)"
            by (auto simp: unesc.simps [of "CHR 0x5C # e # es"] split: option.splits)
          with prep obtain t' where "unesc es = Some (t', r)" by blast
          with 1(4) [OF Cons nq True cs False ch(1)] show ?thesis by (simp add: Cons cs)
        next
          case u: True
          with True nq 1(6) Cons cs obtain rn rest where h: "hex4 es = Some (rn, rest)"
            by (auto simp: unesc.simps [of "CHR 0x5C # CHR ''u'' # es"] split: option.splits)
          note hl = hex4_length [OF h]
          show ?thesis
          proof (cases "is_surrogate rn")
            case False
            with True nq 1(6) Cons cs h u have "prepend (encode_rune rn) (unesc rest) = Some (t, r)"
              by (simp add: unesc.simps [of "CHR 0x5C # CHR ''u'' # es"])
            with prep obtain t' where "unesc rest = Some (t', r)" by blast
            with 1(3) [OF Cons nq True cs u h refl False] hl show ?thesis by (simp add: Cons cs)
          next
            case s: True
            show ?thesis
            proof (cases "low_pair rn rest")
              case None
              with s True nq 1(6) Cons cs h u have "prepend (encode_rune RuneError) (unesc rest) = Some (t, r)"
                by (simp add: unesc.simps [of "CHR 0x5C # CHR ''u'' # es"])
              with prep obtain t' where "unesc rest = Some (t', r)" by blast
              with 1(1) [OF Cons nq True cs u h refl s None] hl show ?thesis by (simp add: Cons cs)
            next
              case (Some p)
              obtain r2 rest2 where p: "p = (r2, rest2)" by force
              with Some s True nq 1(6) Cons cs h u have "prepend (encode_rune r2) (unesc rest2) = Some (t, r)"
                by (simp add: unesc.simps [of "CHR 0x5C # CHR ''u'' # es"])
              with prep obtain t' where "unesc rest2 = Some (t', r)" by blast
              from 1(2) [OF Cons nq True cs u h refl s Some [unfolded p] refl this]
                Some p hl low_pair_length [of rn rest r2 rest2]
              show ?thesis by (simp add: Cons cs)
            qed
          qed
        qed
      qed
    qed
  qed
qed

lemma lex_string_shorter: "lex_string s = Some (t, r) \<Longrightarrow> length r < length s"
  by (auto simp: lex_string_def dest!: unesc_shorter split: list.splits if_splits)

lemma lex_digits_shorter: "lex_digits s = Some (t, r) \<Longrightarrow> length r < length s"
  by (cases s) (auto simp: lex_digits_def Let_def split: if_splits)

lemma lex_int_shorter: "lex_int s = Some (t, r) \<Longrightarrow> length r < length s"
  by (auto simp: lex_int_def dest: lex_digits_shorter split: list.splits if_splits)

lemma lex_frac_shorter: "lex_frac s = Some (t, r) \<Longrightarrow> length r \<le> length s"
  by (auto simp: lex_frac_def dest!: lex_digits_shorter split: list.splits if_splits)

lemma lex_exp_shorter: "lex_exp s = Some (t, r) \<Longrightarrow> length r \<le> length s"
  by (auto simp: lex_exp_def dest!: lex_digits_shorter split: list.splits if_splits)

lemma lex_unsigned_shorter: "lex_unsigned s = Some (t, r) \<Longrightarrow> length r < length s"
  by (auto simp: lex_unsigned_def dest!: lex_int_shorter lex_frac_shorter lex_exp_shorter split: option.splits)

lemma lex_number_shorter: "lex_number s = Some (t, r) \<Longrightarrow> length r < length s"
  by (cases s) (auto simp: lex_number_def dest!: lex_unsigned_shorter split: if_splits)

lemma strip_prefix_shorter: "strip_prefix p s = Some r \<Longrightarrow> p \<noteq> [] \<Longrightarrow> length r < length s"
  by (cases p; cases s) (auto simp: strip_prefix_def split: if_splits)

lemma parse_scalar_shorter: "parse_scalar s = Some (v, r) \<Longrightarrow> length r < length s"
proof (cases s)
  case (Cons c cs)
  assume p: "parse_scalar s = Some (v, r)"
  show ?thesis
    using p unfolding parse_scalar_def Cons list.case
    by (auto split: if_splits option.splits dest!: lex_string_shorter strip_prefix_shorter lex_number_shorter)
qed (simp add: parse_scalar_def)

lemma skip_ws_shorter: "skip_ws s = c # cs \<Longrightarrow> length cs < length s"
  using length_skip_ws [of s] by simp

lemma parse_shorter:
  "parse_value n s = Some (v, r) \<Longrightarrow> length r < length s"
  "parse_elems n acc s = Some (v, r) \<Longrightarrow> length r < length s"
  "parse_members n acc' s = Some (v, r) \<Longrightarrow> length r < length s"
proof (induction n s and n acc s and n acc' s arbitrary: v r and v r and v r
    rule: parse_value_parse_elems_parse_members.induct)
  case (2 n s)
  show ?case
  proof (cases "skip_ws s")
    case Nil
    with 2(3) show ?thesis by (simp add: parse_simps)
  next
    case (Cons c cs)
    note ls = skip_ws_shorter [OF Cons]
    consider "c = CHR ''{''" | "c = CHR ''[''" | "c \<noteq> CHR ''{''" "c \<noteq> CHR ''[''" by blast
    then show ?thesis
    proof cases
      case 1
      show ?thesis
      proof (cases "skip_ws cs")
        case Nil
        with 2(3) Cons 1 show ?thesis by (simp add: parse_simps)
      next
        case d: (Cons d ds)
        with 2(3) Cons 1 2(1) [OF Cons 1 d] ls skip_ws_shorter [OF d] length_skip_ws [of cs] show ?thesis
          by (auto simp: parse_simps split: if_splits)
      qed
    next
      case 2
      show ?thesis
      proof (cases "skip_ws cs")
        case Nil
        with "2.prems" Cons 2 show ?thesis by (simp add: parse_simps)
      next
        case d: (Cons d ds)
        with "2.prems" Cons 2 "2.IH"(2) [OF Cons _ 2 d] ls skip_ws_shorter [OF d] length_skip_ws [of cs]
        show ?thesis by (auto simp: parse_simps split: if_splits)
      qed
    next
      case 3
      with "2.prems" Cons have "parse_scalar (c # cs) = Some (v, r)" by (simp add: parse_simps)
      from parse_scalar_shorter [OF this] ls show ?thesis by simp
    qed
  qed
next
  case (4 n acc s)
  from "4.prems" obtain w q where w: "parse_value n s = Some (w, q)"
    by (auto simp: parse_simps split: option.splits)
  from "4.IH"(1) [OF w] have lq: "length q < length s" .
  from "4.prems" w obtain d ds where d: "skip_ws q = d # ds"
    by (auto simp: parse_simps split: list.splits)
  from "4.prems" w d lq skip_ws_shorter [OF d] "4.IH"(2) [OF w refl d] show ?case
    by (auto simp: parse_simps split: if_splits)
next
  case (6 n acc s)
  from "6.prems" obtain k q where k: "lex_string (skip_ws s) = Some (k, q)" "k \<notin> fst ` set acc"
    by (auto simp: parse_simps split: option.splits if_splits)
  from lex_string_shorter [OF k(1)] length_skip_ws [of s] have lq: "length q < length s" by simp
  from "6.prems" k obtain c cs where c: "skip_ws q = c # cs" "c = CHR '':''"
    by (auto simp: parse_simps split: list.splits if_splits)
  from "6.prems" k c obtain w q2 where w: "parse_value n cs = Some (w, q2)"
    by (auto simp: parse_simps split: option.splits)
  from "6.IH"(1) [OF k(1) refl k(2) c] w have lq2: "length q2 < length cs" by blast
  from "6.prems" k c w obtain d ds where d: "skip_ws q2 = d # ds"
    by (auto simp: parse_simps split: list.splits)
  from "6.prems" k c w d lq lq2 skip_ws_shorter [OF d] skip_ws_shorter [OF c(1)]
    "6.IH"(2) [OF k(1) refl k(2) c w refl d] show ?case
    by (auto simp: parse_simps split: if_splits)
qed (simp_all add: parse_simps)


lemma parse_fuel:
  "(2 * length s + 1 \<le> n \<longrightarrow> parse_value (n + k) s = parse_value n s)
   \<and> (2 * length s + 2 \<le> n \<longrightarrow> parse_elems (n + k) acc s = parse_elems n acc s)
   \<and> (2 * length s + 2 \<le> n \<longrightarrow> parse_members (n + k) acc' s = parse_members n acc' s)"
proof (induction n arbitrary: s acc acc')
  case 0
  then show ?case by simp
next
  case (Suc n)
  have V: "parse_value (n + k) s = parse_value n s" if "2 * length s + 1 \<le> n" for s
    using Suc that by blast
  have E: "parse_elems (n + k) acc s = parse_elems n acc s" if "2 * length s + 2 \<le> n" for acc s
    using Suc that by blast
  have M: "parse_members (n + k) acc s = parse_members n acc s" if "2 * length s + 2 \<le> n" for acc s
    using Suc that by blast
  have "parse_value (Suc n + k) s = parse_value (Suc n) s" if "2 * length s + 1 \<le> Suc n"
  proof (cases "skip_ws s")
    case (Cons c cs)
    note l = skip_ws_shorter [OF Cons]
    show ?thesis
    proof (cases "skip_ws cs")
      case d: (Cons d ds)
      have "2 * length (d # ds) + 2 \<le> n" using l length_skip_ws [of cs] that d by simp
      from E [OF this] M [OF this] show ?thesis by (auto simp: parse_simps Cons d)
    qed (simp add: parse_simps Cons)
  qed (simp add: parse_simps)
  moreover have "parse_elems (Suc n + k) acc s = parse_elems (Suc n) acc s" if f: "2 * length s + 2 \<le> Suc n"
  proof -
    have v: "parse_value (n + k) s = parse_value n s" using V f by simp
    show ?thesis
    proof (cases "parse_value n s")
      case (Some p)
      obtain w q where p: "p = (w, q)" by force
      show ?thesis
      proof (cases "skip_ws q")
        case (Cons d ds)
        have "2 * length ds + 2 \<le> n"
          using skip_ws_shorter [OF Cons] parse_shorter(1) [OF Some [unfolded p]] f by simp
        from E [OF this] show ?thesis by (simp add: parse_simps v Some p Cons)
      qed (simp add: parse_simps v Some p)
    qed (simp add: parse_simps v)
  qed
  moreover have "parse_members (Suc n + k) acc' s = parse_members (Suc n) acc' s" if f: "2 * length s + 2 \<le> Suc n"
  proof (cases "lex_string (skip_ws s)")
    case (Some p)
    obtain key q where p: "p = (key, q)" by force
    have lq: "length q < length s"
      using lex_string_shorter [OF Some [unfolded p]] length_skip_ws [of s] by simp
    show ?thesis
    proof (cases "skip_ws q")
      case (Cons c cs)
      have lc: "length cs < length q" by (rule skip_ws_shorter [OF Cons])
      have v: "parse_value (n + k) cs = parse_value n cs" using V [of cs] lq lc f by simp
      show ?thesis
      proof (cases "parse_value n cs")
        case pv: (Some p2)
        obtain w q2 where p2: "p2 = (w, q2)" by force
        show ?thesis
        proof (cases "skip_ws q2")
          case d: (Cons d ds)
          have "2 * length ds + 2 \<le> n"
            using skip_ws_shorter [OF d] parse_shorter(1) [OF pv [unfolded p2]] lq lc f by simp
          from M [OF this] show ?thesis by (simp add: parse_simps Some p Cons v pv p2 d)
        qed (simp add: parse_simps Some p Cons v pv p2)
      qed (simp add: parse_simps Some p Cons v)
    qed (simp add: parse_simps Some p)
  qed (simp add: parse_simps)
  ultimately show ?case by blast
qed

lemma parse_value_fuel:
  assumes "2 * length s + 2 \<le> n"
  shows "parse_value n s = parse_value (2 * length s + 2) s"
proof -
  from assms obtain k where "n = 2 * length s + 2 + k" using le_Suc_ex by blast
  with parse_fuel [of s "2 * length s + 2" k "[]" "[]"] show ?thesis by simp
qed

end
