(* ===== verification/FloatRoundtrip.thy ===== *)
theory FloatRoundtrip
  imports FloatRounding JsonRoundtrip
begin

text \<open>
  Every finite float survives \<open>PythonFloat\<close> and \<open>ParseFloat\<close>, whatever of the scientific and fixed
  forms is chosen; and every value \<open>ParseOrdered\<close> returns is well-formed, so what was read from disk
  can be written and read again without loss.
\<close>

section \<open>The shape of a rendered float\<close>

text \<open>Integer digits, fraction digits, and a signed exponent.\<close>

fun exp_part :: "(char \<times> string) option \<Rightarrow> string" where
  "exp_part None = []"
| "exp_part (Some (sg, es)) = CHR ''e'' # sg # es"

definition num_form :: "string \<Rightarrow> string \<Rightarrow> (char \<times> string) option \<Rightarrow> string" where
  "num_form ip fp ex = ip @ (if fp = [] then [] else CHR ''.'' # fp) @ exp_part ex"

definition digits :: "string \<Rightarrow> bool" where
  "digits s \<longleftrightarrow> (\<forall>c\<in>set s. is_digit c)"

definition form_ok :: "string \<Rightarrow> string \<Rightarrow> (char \<times> string) option \<Rightarrow> bool" where
  "form_ok ip fp ex \<longleftrightarrow> (ip = ''0'' \<or> lead_ok ip) \<and> digits fp \<and>
     (case ex of None \<Rightarrow> True | Some (sg, es) \<Rightarrow> (sg = CHR ''+'' \<or> sg = CHR ''-'') \<and> digits es \<and> es \<noteq> [])"

lemma digit_not [simp]:
  "\<not> is_digit CHR ''.''" "\<not> is_digit CHR ''e''" "\<not> is_digit CHR ''E''" "\<not> is_digit CHR ''-''" "\<not> is_digit CHR ''+''"
  by code_simp+

lemma form_ok_ip: "form_ok ip fp ex \<Longrightarrow> digits ip \<and> ip \<noteq> []"
  by (auto simp: form_ok_def digits_def lead_ok_def)

lemma lex_digits_stop:
  assumes "digits ds" "ds \<noteq> []" "case rest of [] \<Rightarrow> True | c # _ \<Rightarrow> \<not> is_digit c"
  shows "lex_digits (ds @ rest) = Some (ds, rest)"
proof -
  have "takeWhile is_digit (ds @ rest) = ds"
    by (rule takeWhile_append_stop) (use assms in \<open>simp_all add: digits_def\<close>)
  with assms(2) show ?thesis by (simp add: lex_digits_def)
qed

lemma lex_num_form:
  assumes ok: "form_ok ip fp ex"
  shows "lex_unsigned (num_form ip fp ex) = Some (num_form ip fp ex, [])"
proof -
  let ?x = "exp_part ex" and ?f = "if fp = [] then [] else CHR ''.'' # fp"
  have lx: "lex_exp ?x = Some (?x, [])"
  proof (cases ex)
    case (Some p)
    obtain sg es where p: "p = (sg, es)" by force
    with ok Some have s: "sg = CHR ''+'' \<or> sg = CHR ''-''" "digits es" "es \<noteq> []" by (auto simp: form_ok_def)
    have "lex_digits es = Some (es, [])" using lex_digits_stop [OF s(2,3), of "[]"] by simp
    with s(1) show ?thesis by (simp add: Some p lex_exp_def)
  qed (simp add: lex_exp_def)
  have sx: "case ?x of [] \<Rightarrow> True | c # _ \<Rightarrow> \<not> is_digit c" by (cases ex) auto
  have hx: "case ?x of [] \<Rightarrow> True | c # _ \<Rightarrow> c \<noteq> CHR ''.''" by (cases ex) auto
  have lf: "lex_frac (?f @ ?x) = Some (?f, ?x)"
  proof (cases "fp = []")
    case True
    then show ?thesis using hx by (cases ?x) (auto simp: lex_frac_def)
  next
    case False
    then show ?thesis
      using lex_digits_stop [OF _ False sx] ok by (simp add: lex_frac_def form_ok_def)
  qed
  have sf: "case ?f @ ?x of [] \<Rightarrow> True | c # _ \<Rightarrow> \<not> is_digit c" using sx by (cases "fp = []") auto
  have li: "lex_int (ip @ ?f @ ?x) = Some (ip, ?f @ ?x)"
  proof (cases "ip = ''0''")
    case True
    then show ?thesis by (simp add: lex_int_def)
  next
    case False
    with ok have l: "lead_ok ip" by (simp add: form_ok_def)
    then obtain c cs where ip: "ip = c # cs" "c \<noteq> CHR ''0''" by (cases ip) (auto simp: lead_ok_def)
    have "lex_digits (ip @ ?f @ ?x) = Some (ip, ?f @ ?x)"
      by (rule lex_digits_stop [OF _ _ sf]) (use l in \<open>auto simp: digits_def lead_ok_def\<close>)
    with ip show ?thesis by (simp add: lex_int_def)
  qed
  show ?thesis unfolding num_form_def by (simp only: lex_unsigned_def li lf lx option.case prod.case)
qed

lemma hd_num_form:
  assumes "form_ok ip fp ex" obtains c cs where "num_form ip fp ex = c # cs" "is_digit c"
  using form_ok_ip [OF assms] by (cases ip) (auto simp: num_form_def digits_def intro: that)

definition signed :: "bool \<Rightarrow> string \<Rightarrow> string" where
  "signed neg s = (if neg then CHR ''-'' # s else s)"

lemma num_text_form: "form_ok ip fp ex \<Longrightarrow> num_text (signed neg (num_form ip fp ex))"
proof -
  assume ok: "form_ok ip fp ex"
  obtain c cs where c: "num_form ip fp ex = c # cs" "is_digit c" using hd_num_form [OF ok] .
  then have "c \<noteq> CHR ''-''" by auto
  with lex_num_form [OF ok] c(1) show ?thesis by (simp add: num_text_def signed_def lex_number_def)
qed

lemma isJSONInt_form: "isJSONInt (signed neg (num_form ip fp ex)) \<Longrightarrow> fp = [] \<and> ex = None"
proof (rule ccontr)
  assume j: "isJSONInt (signed neg (num_form ip fp ex))" and n: "\<not> (fp = [] \<and> ex = None)"
  have "CHR ''.'' \<in> set (num_form ip fp ex) \<or> CHR ''e'' \<in> set (num_form ip fp ex)"
  proof (cases "fp = []")
    case True
    with n obtain p where "ex = Some p" by (cases ex) auto
    then show ?thesis by (cases p) (simp add: num_form_def)
  qed (simp add: num_form_def)
  moreover have "set (num_form ip fp ex) \<subseteq> set (signed neg (num_form ip fp ex))" by (auto simp: signed_def)
  ultimately have "CHR ''.'' \<in> set (signed neg (num_form ip fp ex)) \<or> CHR ''e'' \<in> set (signed neg (num_form ip fp ex))"
    by blast
  with j show False unfolding isJSONInt_def list_all_iff by blast
qed

lemma split_at_char_app:
  "c \<notin> set p \<Longrightarrow> split_at_char c (p @ c # q) = (p, Some q)"
  "c \<notin> set p \<Longrightarrow> split_at_char c p = (p, None)"
proof -
  assume c: "c \<notin> set p"
  have "takeWhile (\<lambda>x. x \<noteq> c) (p @ c # q) = p" by (rule takeWhile_append_stop) (use c in auto)
  then show "split_at_char c (p @ c # q) = (p, Some q)" by (simp add: split_at_char_def)
  have "takeWhile (\<lambda>x. x \<noteq> c) (p @ []) = p" by (rule takeWhile_append_stop) (use c in auto)
  then have tw: "takeWhile (\<lambda>x. x \<noteq> c) p = p" by (simp only: append_Nil2)
  show "split_at_char c p = (p, None)" unfolding split_at_char_def Let_def tw by simp
qed

fun exp_val :: "(char \<times> string) option \<Rightarrow> int" where
  "exp_val None = 0"
| "exp_val (Some (sg, es)) = (if sg = CHR ''-'' then - int (digits_val es) else int (digits_val es))"

lemma decimal_parts_form:
  assumes ok: "form_ok ip fp ex"
  shows "decimal_parts (signed neg (num_form ip fp ex)) = (neg, ip, fp, exp_val ex)"
proof -
  let ?s = "num_form ip fp ex"
  let ?m = "ip @ (if fp = [] then [] else CHR ''.'' # fp)"
  obtain c cs where c: "?s = c # cs" "is_digit c" using hd_num_form [OF ok] .
  then have cm: "c \<noteq> CHR ''-''" by auto
  have dig: "digits ip" "digits fp" using form_ok_ip [OF ok] ok by (auto simp: form_ok_def)
  have ne: "x \<noteq> CHR ''e'' \<and> x \<noteq> CHR ''E''" if "x \<in> set ?m" for x
    using that dig by (auto simp: digits_def split: if_splits)
  have mant: "takeWhile (\<lambda>c. c \<noteq> CHR ''e'' \<and> c \<noteq> CHR ''E'') ?s = ?m"
  proof -
    have "takeWhile (\<lambda>c. c \<noteq> CHR ''e'' \<and> c \<noteq> CHR ''E'') (?m @ exp_part ex) = ?m"
      by (rule takeWhile_append_stop) (use ne in \<open>auto split: list.splits\<close>, cases ex, auto)
    then show ?thesis by (simp add: num_form_def)
  qed
  have dot: "CHR ''.'' \<notin> set ip" using dig by (auto simp: digits_def)
  have sp: "split_at_char CHR ''.'' ?m = (ip, if fp = [] then None else Some fp)"
    using split_at_char_app [OF dot] by simp
  have at: "Atoi (drop (Suc (length ?m)) ?s) = exp_val ex"
  proof (cases ex)
    case None
    then show ?thesis by (simp add: num_form_def Atoi_def)
  next
    case (Some p)
    obtain sg es where p: "p = (sg, es)" by force
    with ok Some have "sg = CHR ''+'' \<or> sg = CHR ''-''" by (auto simp: form_ok_def)
    moreover have "drop (Suc (length ?m)) ?s = sg # es" by (simp add: num_form_def Some p)
    ultimately show ?thesis by (auto simp: Atoi_def Some p)
  qed
  have "decimal_parts (signed neg ?s) = (neg, ip, case (if fp = [] then None else Some fp) of None \<Rightarrow> [] | Some f \<Rightarrow> f,
      exp_val ex)"
    by (cases neg) (simp_all only: decimal_parts_def signed_def Let_def mant sp at c(1) cm simp_thms list.sel if_True if_False
        list.distinct prod.case mant [unfolded c(1)] at [unfolded c(1)])
  then show ?thesis by simp
qed

lemma ParseFloat_form:
  assumes ok: "form_ok ip fp ex" and d: "decimal_rounds_to c k (m, e)" "0 < c"
    and v: "real (digits_val (ip @ fp)) * 10 powi (exp_val ex - int (length fp)) = real c * 10 powi k"
  shows "ParseFloat (signed neg (num_form ip fp ex)) = Some (FFin neg m e)"
proof -
  obtain num den where sc: "scale10 (digits_val (ip @ fp)) 1 (exp_val ex - int (length fp)) = (num, den)" by fastforce
  have "round64 num den = Some (m, e)"
    by (rule decimal_rounds_to_ratio [OF d]) (use scale10_ratio [OF _ sc] v in simp_all)
  then show ?thesis unfolding ParseFloat_def decimal_parts_form [OF ok] Let_def prod.case sc by simp
qed


section \<open>The renderings have the shape\<close>

definition exp_digits :: "int \<Rightarrow> string" where
  "exp_digits e = (let es = nat_digits (nat \<bar>e\<bar>) in if length es < 2 then CHR ''0'' # es else es)"

definition exp_sign :: "int \<Rightarrow> char" where
  "exp_sign e = (if e < 0 then CHR ''-'' else CHR ''+'')"

lemma digits_val_Cons0: "digits_val (CHR ''0'' # s) = digits_val s"
  using digits_val_zeros_append [of 1 s] by (simp add: zeros_def)

lemma exp_digits_ok: "digits (exp_digits e)" "exp_digits e \<noteq> []" "digits_val (exp_digits e) = nat \<bar>e\<bar>"
  using nat_digits_digits [of _ "nat \<bar>e\<bar>"]
  by (auto simp: exp_digits_def Let_def digits_def digits_val_Cons0)

lemma exp_val_exp [simp]: "exp_val (Some (exp_sign e, exp_digits e)) = e"
  by (simp add: exp_digits_ok(3) exp_sign_def)

lemma exp_text_eq: "exp_text e = exp_sign e # exp_digits e"
  by (simp add: exp_text_def exp_sign_def exp_digits_def Let_def)

lemma lead_ok_take:
  assumes "lead_ok ds" "0 < n" shows "lead_ok (take n ds)" and "digits (drop n ds)"
  using assms by (auto simp: lead_ok_def digits_def dest: in_set_takeD in_set_dropD)

lemma fmtE_form:
  assumes "lead_ok ds"
  shows "fmtE ds e = num_form (take 1 ds) (drop 1 ds) (Some (exp_sign e, exp_digits e))"
    and "sciRepr ds e = num_form (take 1 ds) (drop 1 ds) (Some (exp_sign e, exp_digits e))"
    and "form_ok (take 1 ds) (drop 1 ds) (Some (exp_sign e, exp_digits e))"
proof -
  show "fmtE ds e = num_form (take 1 ds) (drop 1 ds) (Some (exp_sign e, exp_digits e))"
    by (simp add: fmtE_def num_form_def exp_text_eq)
  show "sciRepr ds e = num_form (take 1 ds) (drop 1 ds) (Some (exp_sign e, exp_digits e))"
    by (simp add: sciRepr_def num_form_def exp_sign_def exp_digits_def Let_def)
  show "form_ok (take 1 ds) (drop 1 ds) (Some (exp_sign e, exp_digits e))"
    using lead_ok_take [OF assms, of 1] by (simp add: form_ok_def exp_digits_ok exp_sign_def)
qed

lemma lead_ok_length: "lead_ok ds \<Longrightarrow> 0 < length ds"
  by (simp add: lead_ok_def)

lemma TrimLeft0_zeros: "lead_ok ds \<Longrightarrow> TrimLeft0 (zeros n @ ds) = ds"
proof (induction n)
  case 0
  then show ?case by (cases ds) (simp_all add: TrimLeft0_def zeros_def lead_ok_def)
next
  case (Suc n)
  then show ?case by (simp add: TrimLeft0_def zeros_def)
qed

lemma parse_form_split:
  assumes ok: "form_ok ip fp ex"
  shows "parseFloatShortest (num_form ip fp ex) =
     (if ip \<noteq> ''0'' then (ip @ fp, int (length ip) - 1 + exp_val ex)
      else (TrimLeft0 fp, - (int (length fp) - int (length (TrimLeft0 fp))) - 1 + exp_val ex))"
proof -
  let ?m = "ip @ (if fp = [] then [] else CHR ''.'' # fp)"
  obtain c cs where c: "num_form ip fp ex = c # cs" "is_digit c" using hd_num_form [OF ok] .
  then have cm: "c \<noteq> CHR ''-''" by auto
  have dig: "digits ip" "digits fp" using form_ok_ip [OF ok] ok by (auto simp: form_ok_def)
  have e: "CHR ''e'' \<notin> set ?m" and d: "CHR ''.'' \<notin> set ip" using dig by (auto simp: digits_def)
  have s1: "split_at_char CHR ''e'' (num_form ip fp ex) = (?m, map_option (\<lambda>p. fst p # snd p) ex)"
    using split_at_char_app [OF e] by (cases ex) (auto simp: num_form_def)
  have s2: "split_at_char CHR ''.'' ?m = (ip, if fp = [] then None else Some fp)"
    using split_at_char_app [OF d] by simp
  have at: "(case map_option (\<lambda>p. fst p # snd p) ex of None \<Rightarrow> 0 | Some t \<Rightarrow> Atoi t) = exp_val ex"
    using ok by (auto simp: form_ok_def Atoi_def split: option.splits)
  have fr: "(case (if fp = [] then None else Some fp) of None \<Rightarrow> [] | Some t \<Rightarrow> t) = fp" by simp
  have n: "(if num_form ip fp ex \<noteq> [] \<and> hd (num_form ip fp ex) = CHR ''-'' then tl (num_form ip fp ex)
     else num_form ip fp ex) = num_form ip fp ex" using c cm by simp
  show ?thesis unfolding parseFloatShortest_def Let_def n s1 prod.case s2 at fr by simp
qed

lemma lead_ok_not_0: "lead_ok ds \<Longrightarrow> ds \<noteq> ''0''"
  by (auto simp: lead_ok_def)

lemma fmtF_cases:
  assumes "lead_ok ds"
  obtains "e + 1 \<le> 0" "fmtF ds e = num_form ''0'' (zeros (nat (- (e + 1))) @ ds) None"
      "fixedRepr ds e = num_form ''0'' (zeros (nat (- (e + 1))) @ ds) None"
  | "0 < e + 1" "e + 1 < int (length ds)" "fmtF ds e = num_form (take (nat (e + 1)) ds) (drop (nat (e + 1)) ds) None"
      "fixedRepr ds e = num_form (take (nat (e + 1)) ds) (drop (nat (e + 1)) ds) None"
  | z where "e + 1 = int (length ds) + int z" "fmtF ds e = num_form (ds @ zeros z) [] None"
      "fixedRepr ds e = num_form (ds @ zeros z) ''0'' None"
proof (cases "e + 1 \<le> 0")
  case True
  with assms that(1) show ?thesis
    by (simp add: fmtF_def fixedRepr_def Let_def num_form_def zeros_def lead_ok_def)
next
  case np: False
  show ?thesis
  proof (cases "e + 1 < int (length ds)")
    case True
    then have "drop (nat (e + 1)) ds \<noteq> []" using np by simp
    with True np that(2) show ?thesis
      by (simp add: fmtF_def fixedRepr_def Let_def num_form_def)
  next
    case False
    then obtain z where z: "e + 1 = int (length ds) + int z" using zle_iff_zadd [of "int (length ds)" "e + 1"] by auto
    then show ?thesis using np False that(3) [of z]
      by (simp add: fmtF_def fixedRepr_def Let_def num_form_def zeros_def)
  qed
qed

lemma form_ok_fixed:
  assumes "lead_ok ds"
  shows "form_ok ''0'' (zeros n @ ds) None" "0 < n \<Longrightarrow> form_ok (take n ds) (drop n ds) None"
    "form_ok (ds @ zeros n) [] None" "form_ok (ds @ zeros n) ''0'' None"
  using assms lead_ok_append_zeros [OF assms, of n] lead_ok_take [OF assms, of n]
  by (auto simp: form_ok_def digits_def zeros_def lead_ok_def)

lemma parse_FormatFloat:
  assumes "lead_ok ds"
  obtains z where "parseFloatShortest (FormatFloat_g ds e) = (ds @ zeros z, e)"
proof (cases "e < -4 \<or> 6 \<le> e")
  case True
  have "length (take 1 ds) = 1" using lead_ok_length [OF assms] by (cases ds) auto
  moreover have "take 1 ds \<noteq> ''0''" using lead_ok_not_0 [OF lead_ok_take(1) [OF assms, of 1]] by simp
  ultimately have "parseFloatShortest (fmtE ds e) = (ds @ zeros 0, e)"
    unfolding fmtE_form(1) [OF assms] parse_form_split [OF fmtE_form(3) [OF assms]] exp_val_exp
    by (simp add: zeros_def)
  with True that [of 0] show ?thesis by (simp add: FormatFloat_g_def)
next
  case False
  from assms show ?thesis
  proof (cases rule: fmtF_cases [of ds e])
    case 1
    have "parseFloatShortest (fmtF ds e) = (ds @ zeros 0, e)"
      unfolding 1(2) parse_form_split [OF form_ok_fixed(1) [OF assms]] using 1(1) TrimLeft0_zeros [OF assms]
      by (simp add: zeros_def)
    with False that [of 0] show ?thesis by (simp add: FormatFloat_g_def)
  next
    case 2
    have n: "0 < nat (e + 1)" using 2 by simp
    have "parseFloatShortest (fmtF ds e) = (ds @ zeros 0, e)"
      unfolding 2(3) parse_form_split [OF form_ok_fixed(2) [OF assms n]]
      using 2 lead_ok_not_0 [OF lead_ok_take(1) [OF assms n]] by (simp add: zeros_def)
    with False that [of 0] show ?thesis by (simp add: FormatFloat_g_def)
  next
    case (3 z)
    have "parseFloatShortest (fmtF ds e) = (ds @ zeros z, e)"
      unfolding 3(2) parse_form_split [OF form_ok_fixed(3) [OF assms]]
      using 3(1) lead_ok_not_0 [OF lead_ok_append_zeros [OF assms]] by simp
    with False that [of z] show ?thesis by (simp add: FormatFloat_g_def)
  qed
qed

lemma repr_form:
  assumes "lead_ok ds"
  obtains ip fp ex where "(if e < -4 \<or> 16 \<le> e then sciRepr ds e else fixedRepr ds e) = num_form ip fp ex"
    "form_ok ip fp ex" "fp \<noteq> [] \<or> ex \<noteq> None"
    "real (digits_val (ip @ fp)) * 10 powi (exp_val ex - int (length fp))
      = real (digits_val ds) * 10 powi (e - int (length ds) + 1)"
proof (cases "e < -4 \<or> 16 \<le> e")
  case True
  have "e - int (length ds - 1) = e - int (length ds) + 1" using lead_ok_length [OF assms] by linarith
  then have "real (digits_val (take 1 ds @ drop 1 ds)) * 10 powi (exp_val (Some (exp_sign e, exp_digits e)) - int (length (drop 1 ds)))
      = real (digits_val ds) * 10 powi (e - int (length ds) + 1)"
    by (simp only: append_take_drop_id exp_val_exp length_drop)
  from that [OF _ fmtE_form(3) [OF assms] _ this] fmtE_form(2) [OF assms] True show ?thesis by simp
next
  case False
  from assms show ?thesis
  proof (cases rule: fmtF_cases [of ds e])
    case 1
    have v: "digits_val (''0'' @ zeros (nat (- (e + 1))) @ ds) = digits_val ds"
      using digits_val_Cons0 digits_val_zeros_append by simp
    have l: "exp_val None - int (length (zeros (nat (- (e + 1))) @ ds)) = e - int (length ds) + 1" using 1(1) by simp
    show ?thesis
      by (rule that [OF _ form_ok_fixed(1) [OF assms, of "nat (- (e + 1))"]])
         (use False 1 assms v l in \<open>auto simp only: if_False lead_ok_def append_is_Nil_conv\<close>)
  next
    case 2
    have n: "0 < nat (e + 1)" using 2 by simp
    have l: "exp_val None - int (length (drop (nat (e + 1)) ds)) = e - int (length ds) + 1" using 2 by simp
    have ne: "drop (nat (e + 1)) ds \<noteq> []" using 2 by simp
    show ?thesis
      by (rule that [OF _ form_ok_fixed(2) [OF assms n]])
         (use False 2 ne l in \<open>simp_all only: if_False append_take_drop_id simp_thms\<close>)
  next
    case (3 z)
    have v: "digits_val ((ds @ zeros z) @ ''0'') = digits_val ds * 10 ^ Suc z"
    proof -
      have "(ds @ zeros z) @ ''0'' = ds @ zeros (Suc z)" by (simp add: zeros_def replicate_append_same)
      then show ?thesis by (simp only: digits_val_append_zeros)
    qed
    have "(10::real) ^ Suc z * 10 powi (- 1) = 10 ^ z" by (simp add: power_int_minus)
    moreover have "(10::real) powi (e - int (length ds) + 1) = 10 ^ z"
    proof -
      have "e - int (length ds) + 1 = int z" using 3(1) by linarith
      then show ?thesis by (simp only: power_int_of_nat)
    qed
    ultimately have "real (digits_val ((ds @ zeros z) @ ''0'')) * 10 powi (exp_val None - int (length ''0''))
      = real (digits_val ds) * 10 powi (e - int (length ds) + 1)"
      unfolding v by simp
    from that [OF _ form_ok_fixed(4) [OF assms, of z] _ this] 3(3) False show ?thesis by simp
  qed
qed

lemma float_ok_finite:
  assumes ok: "f64_finite_ok m e" shows "float_ok (FFin neg m e)"
proof (cases "m = 0")
  case True
  with ok have e: "e = - 1074" by (simp add: f64_finite_ok_def)
  have tx: "PythonFloat (FFin neg m e) = signed neg (num_form ''0'' ''0'' None)"
    by (simp add: True signed_def num_form_def)
  have fo: "form_ok ''0'' ''0'' None" by (simp add: form_ok_def digits_def)
  have z: "digits_val (''0'' @ ''0'') = 0" by (simp add: digits_val_def)
  have "ParseFloat (signed neg (num_form ''0'' ''0'' None)) = Some (FFin neg m e)"
    unfolding ParseFloat_def decimal_parts_form [OF fo] Let_def prod.case z
    by (simp add: scale10_def round64_def True e)
  then show ?thesis
    unfolding float_ok_def tx using num_text_form [OF fo] isJSONInt_form [of neg "''0''" "''0''" None] by blast
next
  case False
  then have m: "0 < m" by simp
  obtain ds ex where sd: "shortest_digits m e = (ds, ex)" by fastforce
  obtain c k where ds: "lead_ok ds" "denotes ds ex c k" "0 < c" "decimal_rounds_to c k (m, e)"
    using shortest_digits_denotes [OF ok m sd] .
  obtain z where p: "parseFloatShortest (FormatFloat_g ds ex) = (ds @ zeros z, ex)" using parse_FormatFloat [OF ds(1)] .
  obtain ip fp x where r: "(if ex < -4 \<or> 16 \<le> ex then sciRepr (ds @ zeros z) ex else fixedRepr (ds @ zeros z) ex) = num_form ip fp x"
    "form_ok ip fp x" "fp \<noteq> [] \<or> x \<noteq> None"
    "real (digits_val (ip @ fp)) * 10 powi (exp_val x - int (length fp))
      = real (digits_val (ds @ zeros z)) * 10 powi (ex - int (length (ds @ zeros z)) + 1)"
    using repr_form [OF lead_ok_append_zeros [OF ds(1)]] .
  have tx: "PythonFloat (FFin neg m e) = signed neg (num_form ip fp x)"
    using m by (simp only: PythonFloat.simps sd p prod.case Let_def r(1) signed_def) simp
  have v: "real (digits_val (ip @ fp)) * 10 powi (exp_val x - int (length fp)) = real c * 10 powi k"
    using ds(2) denotes_zeros [of ds z ex c k] unfolding r(4) denotes_def by simp
  show ?thesis
    unfolding float_ok_def tx
    using num_text_form [OF r(2)] isJSONInt_form r(3) ParseFloat_form [OF r(2) ds(4,3) v] by blast
qed


section \<open>Parsed values are well-formed\<close>

lemma ParseFloat_ok: "ParseFloat s = Some f \<Longrightarrow> float_ok f"
proof -
  assume p: "ParseFloat s = Some f"
  obtain neg ip fp ex where d: "decimal_parts s = (neg, ip, fp, ex)" by (metis prod_cases4)
  obtain num den where sc: "scale10 (digits_val (ip @ fp)) 1 (ex - int (length fp)) = (num, den)" by fastforce
  from p obtain m e where r: "round64 num den = Some (m, e)" "f = FFin neg m e"
    by (auto simp: ParseFloat_def d sc simp del: One_nat_def)
  have "0 < den" using scale10_ratio(1) [OF _ sc] by simp
  from float_ok_finite [OF round64_zero_iff_ok [OF this r(1)]] r(2) show ?thesis by simp
qed

lemma valid_utf8_rune: "valid_utf8 s \<Longrightarrow> valid_utf8 (encode_rune r @ s)"
proof -
  assume v: "valid_utf8 s"
  have RE: "valid_rune RuneError" by (simp add: valid_rune_def RuneError_def)
  define q where "q = (if valid_rune r then r else RuneError)"
  have "encode_rune r = encode_rune q" using RE by (simp add: encode_rune_def q_def)
  moreover have "valid_rune q" using RE by (simp add: q_def)
  ultimately show ?thesis using v by (simp add: valid_utf8_def runes_encode_rune_append)
qed

lemma simple_escape_ascii: "simple_escape c = Some d \<Longrightarrow> encode_rune (of_char d) = [d]"
proof -
  assume "simple_escape c = Some d"
  then have "(of_char d :: nat) < 128" by (auto simp: simple_escape_def split: if_splits)
  then show ?thesis by (simp add: encode_rune_ascii)
qed

lemma unesc_utf8: "unesc s = Some (t, r) \<Longrightarrow> valid_utf8 t"
proof (induction s arbitrary: t r rule: unesc.induct)
  case (1 s)
  have prep: "valid_utf8 t" if "prepend (encode_rune q) m = Some (t, r)" "\<And>t' r'. m = Some (t', r') \<Longrightarrow> valid_utf8 t'"
    for q m
    using that by (cases m) (auto intro: valid_utf8_rune)
  have prep1: "valid_utf8 t" if "simple_escape e = Some ch" "prepend [ch] m = Some (t, r)"
    "\<And>t' r'. m = Some (t', r') \<Longrightarrow> valid_utf8 t'" for e ch m
    using prep [of "of_char ch" m] that(2,3) unfolding simple_escape_ascii [OF that(1)] by blast
  note u = unesc.simps [of s]
  from "1.prems" show ?case
    unfolding u
    by (auto split: list.splits if_splits option.splits
        intro: prep [OF _ "1.IH"(1)] prep [OF _ "1.IH"(2)] prep [OF _ "1.IH"(3)] prep1 [OF _ _ "1.IH"(4)] prep [OF _ "1.IH"(5)])
qed

lemma lex_string_utf8: "lex_string s = Some (t, r) \<Longrightarrow> valid_utf8 t"
  by (auto simp: lex_string_def dest: unesc_utf8 split: list.splits if_splits)

lemma lex_digits_self: "lex_digits s = Some (d, r) \<Longrightarrow> digits d \<and> d \<noteq> []"
  by (auto simp: lex_digits_def Let_def digits_def dest: set_takeWhileD split: if_splits)

lemma lex_int_self: "lex_int s = Some (i, r) \<Longrightarrow> lex_int i = Some (i, []) \<and> i \<noteq> []"
proof -
  assume l: "lex_int s = Some (i, r)"
  then obtain c cs where s: "s = c # cs" by (cases s) (auto simp: lex_int_def)
  show ?thesis
  proof (cases "c = CHR ''0''")
    case True
    with l s show ?thesis by (auto simp: lex_int_def)
  next
    case False
    with l s have ld: "lex_digits s = Some (i, r)" by (simp add: lex_int_def)
    note i = lex_digits_self [OF this]
    then have "lex_digits (i @ []) = Some (i, [])" by (intro lex_digits_stop) auto
    moreover obtain c' cs' where "i = c' # cs'" using i by (cases i) auto
    moreover have "c' = c" if "i = c' # cs'" for c' cs'
      using ld s that by (auto simp: lex_digits_def Let_def split: if_splits)
    ultimately show ?thesis using False by (simp add: lex_int_def)
  qed
qed

lemma lex_frac_dot: "lex_frac s = Some (f, r) \<Longrightarrow> f = [] \<or> CHR ''.'' \<in> set f"
  by (auto simp: lex_frac_def split: list.splits if_splits)

lemma lex_exp_e: "lex_exp s = Some (x, r) \<Longrightarrow> x = [] \<or> CHR ''e'' \<in> set x \<or> CHR ''E'' \<in> set x"
  by (auto simp: lex_exp_def split: list.splits if_splits)

lemma lex_unsigned_int:
  assumes "lex_unsigned s = Some (t, r)" "isJSONInt t" shows "lex_unsigned t = Some (t, []) \<and> t \<noteq> []"
proof -
  from assms(1) obtain i r1 f r2 x where p: "lex_int s = Some (i, r1)" "lex_frac r1 = Some (f, r2)"
      "lex_exp r2 = Some (x, r)" "t = i @ f @ x"
    by (auto simp: lex_unsigned_def split: option.splits)
  have "f = []" "x = []"
    using lex_frac_dot [OF p(2)] lex_exp_e [OF p(3)] assms(2) by (auto simp: isJSONInt_def list_all_iff p(4))
  with lex_int_self [OF p(1)] p(4) show ?thesis by (simp add: lex_unsigned_def lex_frac_def lex_exp_def)
qed

lemma lex_number_int:
  assumes "lex_number s = Some (t, r)" "isJSONInt t" shows "num_text t"
proof -
  from assms(1) obtain c cs where s: "s = c # cs" by (cases s) (auto simp: lex_number_def)
  show ?thesis
  proof (cases "c = CHR ''-''")
    case True
    with assms s obtain t' where t: "t = CHR ''-'' # t'" "lex_unsigned cs = Some (t', r)"
      by (auto simp: lex_number_def)
    with assms(2) have "isJSONInt t'" by (simp add: isJSONInt_def)
    with lex_unsigned_int [OF t(2)] t(1) show ?thesis by (simp add: num_text_def lex_number_def)
  next
    case False
    with assms(1) s have l: "lex_unsigned s = Some (t, r)" by (simp add: lex_number_def)
    note u = lex_unsigned_int [OF this assms(2)]
    then obtain c' cs' where t: "t = c' # cs'" by (cases t) auto
    obtain d ds where "t = d # ds" "is_digit d" using lex_unsigned_hd u by blast
    with t have "c' \<noteq> CHR ''-''" by auto
    with u t show ?thesis by (simp add: num_text_def lex_number_def)
  qed
qed

lemma number_value_wf: "lex_number s = Some (t, r) \<Longrightarrow> number_value t = Some v \<Longrightarrow> wf_value v"
  by (auto simp: number_value_def bigint_text_def ParseInt64_def dest: lex_number_int ParseFloat_ok
      split: if_splits option.splits)

lemma parse_scalar_wf: "parse_scalar s = Some (v, r) \<Longrightarrow> wf_value v"
  by (auto simp: parse_scalar_def dest: lex_string_utf8 number_value_wf split: list.splits if_splits option.splits)

lemma parse_wf:
  "parse_value n s = Some (v, r) \<Longrightarrow> wf_value v"
  "list_all wf_value acc \<Longrightarrow> parse_elems n acc s = Some (v, r) \<Longrightarrow> wf_value v"
  "wf_value (VObj acc') \<Longrightarrow> parse_members n acc' s = Some (v, r) \<Longrightarrow> wf_value v"
proof (induction n s and n acc s and n acc' s arbitrary: v r and v r and v r
    rule: parse_value_parse_elems_parse_members.induct)
  case (2 n s)
  then show ?case
    by (auto simp: parse_simps dest: parse_scalar_wf split: list.splits if_splits)
next
  case (4 n acc s)
  from "4.prems" obtain w q where w: "parse_value n s = Some (w, q)"
    by (auto simp: parse_simps split: option.splits)
  have ww: "wf_value w" by (rule "4.IH"(1) [OF w])
  have acc: "list_all wf_value (acc @ [w])" using "4.prems"(1) ww by simp
  from "4.prems" w obtain d ds where d: "skip_ws q = d # ds"
    by (auto simp: parse_simps split: list.splits)
  from "4.prems" w d acc "4.IH"(2) [OF w refl d _ acc] show ?case
    by (auto simp: parse_simps split: if_splits)
next
  case (6 n acc s)
  from "6.prems" obtain k q where k: "lex_string (skip_ws s) = Some (k, q)" "k \<notin> fst ` set acc"
    by (auto simp: parse_simps split: option.splits if_splits)
  note vk = lex_string_utf8 [OF k(1)]
  from "6.prems" k obtain c cs where c: "skip_ws q = c # cs" "c = CHR '':''"
    by (auto simp: parse_simps split: list.splits if_splits)
  from "6.prems" k c obtain w q2 where w: "parse_value n cs = Some (w, q2)"
    by (auto simp: parse_simps split: option.splits)
  from "6.IH"(1) [OF k(1) refl k(2) c] w have ww: "wf_value w" by blast
  have acc: "wf_value (VObj (acc @ [(k, w)]))" using "6.prems"(1) vk ww k(2) by auto
  from "6.prems" k c w obtain d ds where d: "skip_ws q2 = d # ds"
    by (auto simp: parse_simps split: list.splits)
  from "6.prems" k c w d acc "6.IH"(2) [OF k(1) refl k(2) c w refl d _ acc] show ?case
    by (auto simp: parse_simps split: if_splits)
qed (simp_all add: parse_simps)

lemma ParseOrdered_wf: "ParseOrdered s = Some v \<Longrightarrow> wf_value v"
  by (auto simp: ParseOrdered_def dest: parse_wf(1) split: option.splits if_splits prod.splits)

end
