(* ===== verification/ProcLock.thy ===== *)
theory ProcLock
  imports Prelude
begin

text \<open>
  The campaign lock of \<^verbatim>\<open>internal/state/processlock.go\<close>: a depth-counted handle on one advisory
  OS lock. What the operating system answers to the attempts of one acquisition is a list of
  answers, one per polling round, that ends where the five-second budget runs out. The second half
  puts several processes around one OS lock as a step relation: a process is inside its window
  exactly while its depth is positive, and no two processes are.
\<close>

section \<open>One process\<close>

record processLock =
  lk_open :: bool
  lk_depth :: nat

datatype flock_answer = Acquired | WouldBlock | FlockErr

datatype lock_error = LockOpenFailed | LockTimeout | LockSyscall

text \<open>The polling loop: one \<open>flock(LOCK_EX|LOCK_NB)\<close> per round.\<close>

fun flock_loop :: "flock_answer list \<Rightarrow> lock_error + unit" where
  "flock_loop [] = Inl LockTimeout"
| "flock_loop (Acquired # _) = Inr ()"
| "flock_loop (FlockErr # _) = Inl LockSyscall"
| "flock_loop (WouldBlock # as) = flock_loop as"

text \<open>
  \<open>lock\<close>: re-entry only counts; otherwise the file is opened once (\<open>can_open\<close> is whether
  \<open>MkdirAll\<close> and \<open>Open\<close> succeed) and the loop runs.
\<close>

definition pl_lock :: "bool \<Rightarrow> flock_answer list \<Rightarrow> processLock \<Rightarrow> (lock_error + unit) \<times> processLock" where
  "pl_lock can_open as l =
     (if lk_depth l > 0 then (Inr (), l\<lparr>lk_depth := lk_depth l + 1\<rparr>)
      else if \<not> lk_open l \<and> \<not> can_open then (Inl LockOpenFailed, l)
      else (case flock_loop as of
              Inl e \<Rightarrow> (Inl e, l\<lparr>lk_open := True\<rparr>)
            | Inr _ \<Rightarrow> (Inr (), l\<lparr>lk_open := True, lk_depth := 1\<rparr>)))"

definition pl_unlock :: "processLock \<Rightarrow> processLock" where
  "pl_unlock l = (if lk_depth l = 0 then l else l\<lparr>lk_depth := lk_depth l - 1\<rparr>)"

lemma pl_lock_ok_depth:
  "pl_lock b as l = (Inr (), l') \<Longrightarrow> lk_depth l' = Suc (lk_depth l)"
  by (auto simp: pl_lock_def split: if_splits sum.splits)

lemma pl_lock_fail_depth:
  "pl_lock b as l = (Inl e, l') \<Longrightarrow> lk_depth l' = lk_depth l \<and> lk_depth l = 0"
  by (auto simp: pl_lock_def split: if_splits sum.splits)

lemma pl_lock_reenter:
  "lk_depth l > 0 \<Longrightarrow> pl_lock b as l = (Inr (), l\<lparr>lk_depth := lk_depth l + 1\<rparr>)"
  by (simp add: pl_lock_def)

lemma pl_unlock_depth [simp]: "lk_depth (pl_unlock l) = lk_depth l - 1"
  by (simp add: pl_unlock_def)

section \<open>Several processes on one OS lock\<close>

text \<open>
  The kernel keeps at most one holder. A process either acquires (through \<open>pl_lock\<close>, answered from
  the kernel's state), re-enters, releases, fails to acquire, or dies (the kernel drops its lock).
\<close>

record 'p lock_sys =
  handles :: "'p \<Rightarrow> processLock"
  holder :: "'p option"

definition kernel_answer :: "'p lock_sys \<Rightarrow> 'p \<Rightarrow> flock_answer" where
  "kernel_answer s p = (case holder s of None \<Rightarrow> Acquired
                        | Some q \<Rightarrow> if q = p then Acquired else WouldBlock)"

definition sys_lock :: "'p \<Rightarrow> 'p lock_sys \<Rightarrow> (lock_error + unit) \<times> 'p lock_sys" where
  "sys_lock p s =
     (case pl_lock True [kernel_answer s p] (handles s p) of
        (Inl e, l) \<Rightarrow> (Inl e, s\<lparr>handles := (handles s)(p := l)\<rparr>)
      | (Inr _, l) \<Rightarrow> (Inr (), s\<lparr>handles := (handles s)(p := l), holder := Some p\<rparr>))"

definition sys_unlock :: "'p \<Rightarrow> 'p lock_sys \<Rightarrow> 'p lock_sys" where
  "sys_unlock p s =
     (let l = pl_unlock (handles s p)
      in s\<lparr>handles := (handles s)(p := l),
           holder := (if lk_depth (handles s p) > 0 \<and> lk_depth l = 0 then None else holder s)\<rparr>)"

definition sys_exit :: "'p \<Rightarrow> 'p lock_sys \<Rightarrow> 'p lock_sys" where
  "sys_exit p s = s\<lparr>handles := (handles s)(p := \<lparr>lk_open = False, lk_depth = 0\<rparr>),
                    holder := (if holder s = Some p then None else holder s)\<rparr>"

definition sys_init :: "'p lock_sys" where
  "sys_init = \<lparr>handles = (\<lambda>_. \<lparr>lk_open = False, lk_depth = 0\<rparr>), holder = None\<rparr>"

inductive lock_step :: "'p lock_sys \<Rightarrow> 'p lock_sys \<Rightarrow> bool" where
  step_lock: "lock_step s (snd (sys_lock p s))"
| step_unlock: "lock_step s (sys_unlock p s)"
| step_exit: "lock_step s (sys_exit p s)"

inductive_cases lock_stepE: "lock_step s s'"

inductive lock_reachable :: "'p lock_sys \<Rightarrow> bool" where
  reach_init: "lock_reachable sys_init"
| reach_step: "lock_reachable s \<Longrightarrow> lock_step s s' \<Longrightarrow> lock_reachable s'"

text \<open>The invariant: the holder is exactly the process whose depth is positive.\<close>

definition lock_inv :: "'p lock_sys \<Rightarrow> bool" where
  "lock_inv s \<longleftrightarrow> (\<forall>p. lk_depth (handles s p) > 0 \<longleftrightarrow> holder s = Some p)"

lemma lock_inv_init: "lock_inv sys_init"
  by (simp add: lock_inv_def sys_init_def)

lemma lock_inv_lock: "lock_inv s \<Longrightarrow> lock_inv (snd (sys_lock p s))"
  by (cases "holder s")
     (auto simp: lock_inv_def sys_lock_def pl_lock_def kernel_answer_def split: sum.splits prod.splits if_splits)

lemma lock_inv_unlock: "lock_inv s \<Longrightarrow> lock_inv (sys_unlock p s)"
  by (auto simp: lock_inv_def sys_unlock_def Let_def pl_unlock_def)

lemma lock_inv_exit: "lock_inv s \<Longrightarrow> lock_inv (sys_exit p s)"
  by (auto simp: lock_inv_def sys_exit_def)

lemma lock_inv_step: "lock_step s s' \<Longrightarrow> lock_inv s \<Longrightarrow> lock_inv s'"
  by (elim lock_stepE) (auto intro: lock_inv_lock lock_inv_unlock lock_inv_exit)

lemma lock_reachable_inv: "lock_reachable s \<Longrightarrow> lock_inv s"
  by (induction rule: lock_reachable.induct) (auto intro: lock_inv_init lock_inv_step)

end
