(* ===== verification/Store.thy ===== *)
theory Store
  imports FloatRoundtrip ProcLock
begin

text \<open>
  The file store a campaign lives in, and the primitives of \<^verbatim>\<open>internal/validation/atomicio.go\<close>
  on it. The world holds the campaign directory's files, the clock position, the lock handle, and
  two oracles for what the operating system does next: \<open>faults\<close> (whether the next writing system
  call fails, and how many bytes it put down first) and \<open>flocks\<close> (what the next lock acquisition
  is answered). An operation is a function from a world to a result and a world; an error does not
  undo what was written before it.
\<close>

section \<open>The world\<close>

datatype fnode = File (readable: bool) (content: string)

datatype fault = IOok | IOfail nat

record world =
  files :: "(string \<times> fnode) list"
  ticks :: nat
  faults :: "fault list"
  plock :: processLock
  flocks :: "(bool \<times> flock_answer list) list"

text \<open>
  What a campaign handle is given from outside: its id, the clock (\<open>nowIso\<close> at each tick), the
  JSON-schema validator (a third-party package) and the framework's build id.
\<close>

record env =
  CampaignID :: string
  now :: "nat \<Rightarrow> string"
  validates :: "string \<Rightarrow> value \<Rightarrow> bool"
  build :: string

datatype error =
    ENotExist string
  | EAccess string
  | EIO string
  | EParse string
  | ESchema string
  | ELock lock_error
  | ENonAscii string
  | ETornTail string
  | EHeadUnparsable nat
  | EMirrorLonger nat nat
  | ELagLine nat nat nat
  | EHole nat nat nat int int
  | ELine nat
  | ERebuild nat string
  | EUnknownPhase string
  | ENoActor
  | EShortReason
  | ENotPositive
  | EUnwindFailed error error
  | ENotKept string error
  | EExists string
  | EBadId string
  | ERefused string "string list"
  | EOther string

type_synonym 'a op = "world \<Rightarrow> (error + 'a) \<times> world"

section \<open>Sequencing\<close>

definition ret :: "'a \<Rightarrow> 'a op" where
  "ret x w = (Inr x, w)"

definition fail :: "error \<Rightarrow> 'a op" where
  "fail e w = (Inl e, w)"

definition bindE :: "'a op \<Rightarrow> ('a \<Rightarrow> 'b op) \<Rightarrow> 'b op" where
  "bindE m k w = (case m w of (Inl e, w') \<Rightarrow> (Inl e, w') | (Inr x, w') \<Rightarrow> k x w')"

definition guard :: "bool \<Rightarrow> error \<Rightarrow> unit op" where
  "guard b e w = (if b then (Inr (), w) else (Inl e, w))"

text \<open>Run an operation and hand its outcome, error or value, to the continuation.\<close>

definition catchE :: "'a op \<Rightarrow> (error + 'a \<Rightarrow> 'b op) \<Rightarrow> 'b op" where
  "catchE m k w = (case m w of (r, w') \<Rightarrow> k r w')"

lemma ret_apply [simp]: "ret x w = (Inr x, w)" and fail_apply [simp]: "fail e w = (Inl e, w)"
  by (simp_all add: ret_def fail_def)

lemma guard_apply [simp]: "guard b e w = (if b then (Inr (), w) else (Inl e, w))"
  by (simp add: guard_def)

lemma bindE_Inr: "bindE m k w = (Inr y, w2) \<longleftrightarrow> (\<exists>x w1. m w = (Inr x, w1) \<and> k x w1 = (Inr y, w2))"
  by (auto simp: bindE_def split: prod.splits sum.splits)

lemma bindE_Inl:
  "bindE m k w = (Inl e, w2) \<longleftrightarrow> m w = (Inl e, w2) \<or> (\<exists>x w1. m w = (Inr x, w1) \<and> k x w1 = (Inl e, w2))"
  by (auto simp: bindE_def split: prod.splits sum.splits)

lemma bindE_step: "m w = (Inr x, w1) \<Longrightarrow> bindE m k w = k x w1"
  by (simp add: bindE_def)

lemma bindE_stop: "m w = (Inl e, w1) \<Longrightarrow> bindE m k w = (Inl e, w1)"
  by (simp add: bindE_def)

section \<open>Files\<close>

text \<open>\<open>os.ReadFile\<close>: absence and an unreadable file are different errors.\<close>

definition ReadFile :: "string \<Rightarrow> string op" where
  "ReadFile p w = (case kv_find (files w) p of
       None \<Rightarrow> (Inl (ENotExist p), w)
     | Some f \<Rightarrow> if readable f then (Inr (content f), w) else (Inl (EAccess p), w))"

fun is_not_exist :: "error \<Rightarrow> bool" where
  "is_not_exist (ENotExist _) = True"
| "is_not_exist _ = False"

definition next_fault :: "world \<Rightarrow> fault" where
  "next_fault w = (case faults w of [] \<Rightarrow> IOok | f # _ \<Rightarrow> f)"

definition put_file :: "string \<Rightarrow> string \<Rightarrow> world \<Rightarrow> world" where
  "put_file p c w = w\<lparr>files := kv_set (files w) p
     (case kv_find (files w) p of None \<Rightarrow> File True c | Some f \<Rightarrow> File (readable f) c)\<rparr>"

definition del_file :: "string \<Rightarrow> world \<Rightarrow> world" where
  "del_file p w = w\<lparr>files := filter (\<lambda>e. fst e \<noteq> p) (files w)\<rparr>"

definition spend :: "world \<Rightarrow> world" where
  "spend w = w\<lparr>faults := drop 1 (faults w)\<rparr>"

text \<open>Temporary file, sync, rename: the target has its old bytes or the new ones, never a mixture.\<close>

definition replace_file :: "string \<Rightarrow> string \<Rightarrow> unit op" where
  "replace_file p c w = (case next_fault w of
       IOok \<Rightarrow> (Inr (), spend (put_file p c w))
     | IOfail n \<Rightarrow> (Inl (EIO p), spend w))"

text \<open>\<open>O_APPEND\<close> write and sync: a failing write may have put a prefix down.\<close>

definition content_of :: "string \<Rightarrow> world \<Rightarrow> string" where
  "content_of p w = (case kv_find (files w) p of None \<Rightarrow> [] | Some f \<Rightarrow> content f)"

definition append_file :: "string \<Rightarrow> string \<Rightarrow> unit op" where
  "append_file p c w = (case next_fault w of
       IOok \<Rightarrow> (Inr (), spend (put_file p (content_of p w @ c) w))
     | IOfail n \<Rightarrow> (Inl (EIO p), spend (put_file p (content_of p w @ take n c) w)))"

text \<open>\<open>os.WriteFile\<close> truncates first; \<open>os.Remove\<close>.\<close>

definition write_file :: "string \<Rightarrow> string \<Rightarrow> unit op" where
  "write_file p c w = (case next_fault w of
       IOok \<Rightarrow> (Inr (), spend (put_file p c w))
     | IOfail n \<Rightarrow> (Inl (EIO p), spend (put_file p (take n c) w)))"

definition remove_file :: "string \<Rightarrow> unit op" where
  "remove_file p w = (if kv_find (files w) p = None then (Inl (ENotExist p), w)
     else (case next_fault w of IOok \<Rightarrow> (Inr (), spend (del_file p w)) | IOfail n \<Rightarrow> (Inl (EIO p), spend w)))"

definition nowIso :: "env \<Rightarrow> string op" where
  "nowIso ev w = (Inr (now ev (ticks w)), w\<lparr>ticks := Suc (ticks w)\<rparr>)"

section \<open>JSON files and JSONL logs\<close>

definition Validate :: "env \<Rightarrow> value \<Rightarrow> string \<Rightarrow> unit op" where
  "Validate ev v schema = guard (validates ev schema v) (ESchema schema)"

definition parseE :: "string \<Rightarrow> error \<Rightarrow> value op" where
  "parseE s e w = (case ParseOrdered s of None \<Rightarrow> (Inl e, w) | Some v \<Rightarrow> (Inr v, w))"

definition ReadJson :: "string \<Rightarrow> value op" where
  "ReadJson p = bindE (ReadFile p) (\<lambda>raw. parseE raw (EParse p))"

definition WriteJson :: "env \<Rightarrow> string \<Rightarrow> value \<Rightarrow> string \<Rightarrow> unit op" where
  "WriteJson ev p data schema =
     bindE (if schema \<noteq> [] then Validate ev data schema else ret ())
       (\<lambda>_. replace_file p (DumpIndented data @ NL))"

definition isASCII :: "string \<Rightarrow> bool" where
  "isASCII s \<longleftrightarrow> list_all (\<lambda>c. (of_char c :: nat) \<le> 0x7E) s"

definition checkJsonlTail :: "string \<Rightarrow> unit op" where
  "checkJsonlTail p w = (case kv_find (files w) p of
       None \<Rightarrow> (Inr (), w)
     | Some f \<Rightarrow> if \<not> readable f then (Inl (EAccess p), w)
               else if content f = [] then (Inr (), w)
               else if last (content f) \<noteq> CHR 0x0A then (Inl (ETornTail p), w) else (Inr (), w))"

definition appendJsonlChecked :: "string \<Rightarrow> string \<Rightarrow> bool \<Rightarrow> unit op" where
  "appendJsonlChecked p line allowNonASCII =
     bindE (guard (allowNonASCII \<or> isASCII line) (ENonAscii p)) (\<lambda>_.
     bindE (checkJsonlTail p) (\<lambda>_.
       append_file p (line @ NL)))"

definition AppendJsonl :: "string \<Rightarrow> string \<Rightarrow> unit op" where
  "AppendJsonl p line = appendJsonlChecked p line True"

definition AppendJsonlAscii :: "string \<Rightarrow> string \<Rightarrow> unit op" where
  "AppendJsonlAscii p line = appendJsonlChecked p line False"

section \<open>The campaign lock\<close>

definition LockProcess :: "unit op" where
  "LockProcess w =
     (let (can, as) = (case flocks w of [] \<Rightarrow> (True, [Acquired]) | a # _ \<Rightarrow> a) in
      case pl_lock can as (plock w) of
        (Inl e, l) \<Rightarrow> (Inl (ELock e), w\<lparr>plock := l, flocks := drop 1 (flocks w)\<rparr>)
      | (Inr _, l) \<Rightarrow> (Inr (), w\<lparr>plock := l, flocks := (if lk_depth (plock w) > 0 then flocks w
                                                      else drop 1 (flocks w))\<rparr>))"

definition UnlockProcess :: "world \<Rightarrow> world" where
  "UnlockProcess w = w\<lparr>plock := pl_unlock (plock w)\<rparr>"

text \<open>The bracket \<open>LockProcess(); defer UnlockProcess()\<close>: the release runs on every return.\<close>

definition with_lock :: "'a op \<Rightarrow> 'a op" where
  "with_lock body =
     bindE LockProcess (\<lambda>_ w. case body w of (r, w') \<Rightarrow> (r, UnlockProcess w'))"

end
