(* ===== verification/Campaign.thy ===== *)
theory Campaign
  imports Store
begin

text \<open>
  The campaign projection of \<^verbatim>\<open>internal/state/campaign.go\<close> and its unwind discipline
  (\<^verbatim>\<open>campaign_snapshot.go\<close>, \<^verbatim>\<open>processlock.go\<close>): reading and schema-checking the state
  file, the one canonical writer, and the snapshot and restore of its bytes.
\<close>

section \<open>State file\<close>

definition StatePath :: string where "StatePath = ''campaign_state.json''"

definition EventsPath :: string where "EventsPath = ''events.jsonl''"

definition WaiversPath :: string where "WaiversPath = ''waivers.jsonl''"

definition StateSchema :: string where "StateSchema = ''campaign_state''"

lemma path_distinct [simp]:
  "StatePath \<noteq> EventsPath" "EventsPath \<noteq> StatePath" "WaiversPath \<noteq> EventsPath" "WaiversPath \<noteq> StatePath"
  "EventsPath \<noteq> WaiversPath" "StatePath \<noteq> WaiversPath"
  by (simp_all add: StatePath_def EventsPath_def WaiversPath_def)

lemma StateSchema_not_Nil [simp]: "StateSchema \<noteq> []"
  by (simp add: StateSchema_def)

definition State :: "env \<Rightarrow> value op" where
  "State ev = bindE (ReadJson StatePath) (\<lambda>st.
              bindE (Validate ev st StateSchema) (\<lambda>_. ret st))"

definition stamp_updated :: "env \<Rightarrow> value \<Rightarrow> value op" where
  "stamp_updated ev st =
     (if HasObjKey st ''updated_at''
      then bindE (nowIso ev) (\<lambda>t. ret (set_field st ''updated_at'' (VStr t)))
      else ret st)"

definition SaveState :: "env \<Rightarrow> value \<Rightarrow> unit op" where
  "SaveState ev st = with_lock (bindE (stamp_updated ev st) (\<lambda>st'. WriteJson ev StatePath st' StateSchema))"

section \<open>The unwind law\<close>

text \<open>\<open>rawState\<close> folds every read failure into \<open>had = false\<close>.\<close>

definition rawState :: "string option op" where
  "rawState = catchE (ReadFile StatePath) (\<lambda>r. ret (case r of Inl _ \<Rightarrow> None | Inr raw \<Rightarrow> Some raw))"

definition unwindState :: "env \<Rightarrow> string option \<Rightarrow> unit op" where
  "unwindState ev prev = with_lock
     (case prev of
        None \<Rightarrow> remove_file StatePath
      | Some raw \<Rightarrow> bindE (parseE raw (EParse StatePath)) (\<lambda>st. WriteJson ev StatePath st StateSchema))"

text \<open>
  The recurring closing move of a decision: a refused event unwinds the state write, and the
  refusal is what the caller sees whether or not the unwind itself succeeded.
\<close>

definition or_unwind :: "env \<Rightarrow> string option \<Rightarrow> 'a op \<Rightarrow> 'a op" where
  "or_unwind ev prev m = catchE m (\<lambda>r. case r of
       Inl e \<Rightarrow> catchE (unwindState ev prev) (\<lambda>_. fail e)
     | Inr x \<Rightarrow> ret x)"

end
