(* ===== verification/Sha256.thy ===== *)
theory Sha256
  imports GoStd
begin

text \<open>
  \<open>crypto/sha256\<close> and \<open>encoding/hex\<close> as the repository uses them: \<open>Sha256Hex\<close> of
  \<^verbatim>\<open>internal/validation/atomicio.go\<close> is the 64-character lower-case hexadecimal digest of a byte
  string. The compression function works on 32-bit words with wrap-around addition.
\<close>

type_synonym w32 = "32 word"

definition sha_k :: "w32 list" where
  "sha_k =
    [1116352408, 1899447441, 3049323471, 3921009573, 961987163, 1508970993,
     2453635748, 2870763221, 3624381080, 310598401, 607225278, 1426881987,
     1925078388, 2162078206, 2614888103, 3248222580, 3835390401, 4022224774,
     264347078, 604807628, 770255983, 1249150122, 1555081692, 1996064986,
     2554220882, 2821834349, 2952996808, 3210313671, 3336571891, 3584528711,
     113926993, 338241895, 666307205, 773529912, 1294757372, 1396182291,
     1695183700, 1986661051, 2177026350, 2456956037, 2730485921, 2820302411,
     3259730800, 3345764771, 3516065817, 3600352804, 4094571909, 275423344,
     430227734, 506948616, 659060556, 883997877, 958139571, 1322822218,
     1537002063, 1747873779, 1955562222, 2024104815, 2227730452, 2361852424,
     2428436474, 2756734187, 3204031479, 3329325298]"

definition sha_iv :: "w32 list" where
  "sha_iv = [1779033703, 3144134277, 1013904242, 2773480762, 1359893119, 2600822924,
     528734635, 1541459225]"

definition sha_Ch :: "w32 \<Rightarrow> w32 \<Rightarrow> w32 \<Rightarrow> w32" where
  "sha_Ch x y z = ((x AND y) XOR ((NOT x) AND z))"

definition sha_Maj :: "w32 \<Rightarrow> w32 \<Rightarrow> w32 \<Rightarrow> w32" where
  "sha_Maj x y z = ((x AND y) XOR (x AND z) XOR (y AND z))"

definition sha_S0 :: "w32 \<Rightarrow> w32" where
  "sha_S0 x = (word_rotr 2 x XOR word_rotr 13 x XOR word_rotr 22 x)"

definition sha_S1 :: "w32 \<Rightarrow> w32" where
  "sha_S1 x = (word_rotr 6 x XOR word_rotr 11 x XOR word_rotr 25 x)"

definition sha_s0 :: "w32 \<Rightarrow> w32" where
  "sha_s0 x = (word_rotr 7 x XOR word_rotr 18 x XOR drop_bit 3 x)"

definition sha_s1 :: "w32 \<Rightarrow> w32" where
  "sha_s1 x = (word_rotr 17 x XOR word_rotr 19 x XOR drop_bit 10 x)"

text \<open>The message schedule, extended by one word per step; the schedule is kept most recent first.\<close>

fun sha_extend :: "nat \<Rightarrow> w32 list \<Rightarrow> w32 list" where
  "sha_extend 0 ws = ws"
| "sha_extend (Suc n) ws =
     sha_extend n ((sha_s1 (ws ! 1) + ws ! 6 + sha_s0 (ws ! 14) + ws ! 15) # ws)"

fun sha_rounds :: "(w32 \<times> w32) list \<Rightarrow> w32 list \<Rightarrow> w32 list" where
  "sha_rounds ((k, w) # kws) [a, b, c, d, e, f, g, h] =
     (let t1 = h + sha_S1 e + sha_Ch e f g + k + w; t2 = sha_S0 a + sha_Maj a b c
      in sha_rounds kws [t1 + t2, a, b, c, d + t1, e, f, g])"
| "sha_rounds _ st = st"

definition sha_block :: "w32 list \<Rightarrow> w32 list \<Rightarrow> w32 list" where
  "sha_block st ws = map2 (+) st (sha_rounds (zip sha_k (rev (sha_extend 48 (rev ws)))) st)"

fun be_words :: "int list \<Rightarrow> w32 list" where
  "be_words (a # b # c # d # bs) =
     word_of_int (a * 16777216 + b * 65536 + c * 256 + d) # be_words bs"
| "be_words _ = []"

text \<open>Padding to a multiple of 64 bytes: \<open>0x80\<close>, zeros, and the bit length as 64 bits.\<close>

definition sha_pad :: "int list \<Rightarrow> int list" where
  "sha_pad bs =
     (let l = length bs; z = (119 - l mod 64) mod 64; bits = 8 * int l
      in bs @ 0x80 # replicate z 0 @ map (\<lambda>i. bits div 256 ^ i mod 256) (rev [0..<8]))"

fun sha_blocks :: "nat \<Rightarrow> w32 list \<Rightarrow> w32 list \<Rightarrow> w32 list" where
  "sha_blocks 0 st ws = st"
| "sha_blocks (Suc n) st ws = sha_blocks n (sha_block st (take 16 ws)) (drop 16 ws)"

definition sha256_words :: "string \<Rightarrow> w32 list" where
  "sha256_words s =
     (let p = sha_pad (map of_char s) in sha_blocks (length p div 64) sha_iv (be_words p))"

definition hex_digit :: "int \<Rightarrow> char" where
  "hex_digit d = (if d < 10 then char_of (48 + d) else char_of (87 + d))"

definition hex_word :: "w32 \<Rightarrow> string" where
  "hex_word w = map (\<lambda>i. hex_digit (uint w div 16 ^ i mod 16)) (rev [0..<8])"

definition Sha256Hex :: "string \<Rightarrow> string" where
  "Sha256Hex s = concat (map hex_word (sha256_words s))"

text \<open>\<open>Sha12Hex\<close>: the first twelve characters.\<close>

definition Sha12Hex :: "string \<Rightarrow> string" where
  "Sha12Hex s = take 12 (Sha256Hex s)"

lemma length_sha_rounds: "length st = 8 \<Longrightarrow> length (sha_rounds kws st) = 8"
  by (induction kws st rule: sha_rounds.induct) (auto simp: Let_def)

lemma length_sha_block [simp]: "length st = 8 \<Longrightarrow> length (sha_block st ws) = 8"
  by (simp add: sha_block_def length_sha_rounds)

lemma length_sha_blocks [simp]: "length st = 8 \<Longrightarrow> length (sha_blocks n st ws) = 8"
  by (induction n st ws rule: sha_blocks.induct) auto

lemma length_hex_words: "length (concat (map hex_word ws)) = 8 * length ws"
  by (induction ws) (simp_all add: hex_word_def)

lemma length_Sha256Hex [simp]: "length (Sha256Hex s) = 64"
  by (simp add: Sha256Hex_def length_hex_words sha256_words_def Let_def sha_iv_def)

lemma Sha256Hex_not_Nil [simp]: "Sha256Hex s \<noteq> []"
  by (metis length_Sha256Hex list.size(3) zero_neq_numeral)

lemma hex_digit_ascii:
  assumes "0 \<le> d" "d < 16" shows "(of_char (hex_digit d) :: nat) < 128"
proof -
  have "(of_char (hex_digit d) :: int) < 128"
    using assms by (simp add: hex_digit_def)
  then have "int (of_char (hex_digit d)) < 128" by (simp add: of_nat_of_char)
  then show ?thesis by simp
qed

lemma Sha256Hex_ascii: "c \<in> set (Sha256Hex s) \<Longrightarrow> (of_char c :: nat) < 128"
  by (auto simp: Sha256Hex_def hex_word_def hex_digit_ascii)

lemma Sha256Hex_utf8 [simp]: "valid_utf8 (Sha256Hex s)"
  by (intro valid_utf8_ascii ballI) (rule Sha256Hex_ascii)

end
