(* ===== verification/EventLog.thy ===== *)
theory EventLog
  imports Campaign Sha256
begin

text \<open>
  The append-only, hash-chained event log of \<^verbatim>\<open>internal/state\<close>: the event hash
  (\<^verbatim>\<open>chain.go\<close>), the one writer \<open>Log\<close> with its builder steps (\<^verbatim>\<open>eventlog.go\<close>), the mirror
  rule and the lag classifier (\<^verbatim>\<open>eventlog_mirror.go\<close>) and the readers (\<^verbatim>\<open>eventlog_read.go\<close>).
\<close>

section \<open>Event hashes\<close>

definition GenesisHash :: string where
  "GenesisHash = replicate 64 CHR ''0''"

definition hashed_fields :: "string list" where
  "hashed_fields = [''seq'', ''at'', ''type'', ''ref'', ''data'', ''prev_hash'']"

definition pickEventBody :: "value \<Rightarrow> value" where
  "pickEventBody ev = VObj (map (\<lambda>k. (k, case kv_find (vO ev) k of Some v \<Rightarrow> v | None \<Rightarrow> VNull)) hashed_fields)"

definition eventHash :: "value \<Rightarrow> string" where
  "eventHash event = Sha256Hex (CanonSpaced (pickEventBody event))"

definition legacyAnchor :: "value \<Rightarrow> string" where
  "legacyAnchor lst = ''legacy-seq-'' @
     (case kv_find (vO lst) ''seq'' of Some v \<Rightarrow> CanonCompact v | None \<Rightarrow> ''None'')"

section \<open>Framing\<close>

definition BlankLine :: "string \<Rightarrow> bool" where
  "BlankLine line \<longleftrightarrow> list_all (\<lambda>c. c \<in> {CHR '' '', CHR 0x09, CHR 0x0D, CHR 0x0A, CHR 0x0B, CHR 0x0C}) line"

definition blankLine :: "string \<Rightarrow> bool" where
  "blankLine line = BlankLine line"

definition records_of :: "string \<Rightarrow> string list" where
  "records_of raw = filter (\<lambda>line. \<not> blankLine line) (split_on (CHR 0x0A) raw)"

definition logLines :: "string list op" where
  "logLines = catchE (ReadFile EventsPath) (\<lambda>r. case r of
       Inl e \<Rightarrow> if is_not_exist e then ret [] else fail e
     | Inr raw \<Rightarrow> ret (records_of raw))"

section \<open>The mirror rule\<close>

definition mirrorCap :: nat where "mirrorCap = 1000"

definition tailEvents :: "value list \<Rightarrow> value \<Rightarrow> value list" where
  "tailEvents have' add =
     (if length have' \<ge> mirrorCap then drop (length have' - (mirrorCap - 1)) have' @ [add]
      else have' @ [add])"

section \<open>The lag classifier\<close>

record lagClassifier =
  lc_lines :: "string list"
  lc_mirror :: "value list"
  lc_events :: "value list"

definition lagEq :: "value \<Rightarrow> value \<Rightarrow> bool" where
  "lagEq a b \<longleftrightarrow> CanonSpaced a = CanonSpaced b"

definition lagAligned :: "lagClassifier \<Rightarrow> nat \<Rightarrow> bool" where
  "lagAligned lc off \<longleftrightarrow>
     (\<forall>i\<in>set [0..<length (lc_mirror lc)]. lagEq (lc_mirror lc ! i) (lc_events lc ! (off + i)))"

text \<open>Parse every line; the error names the first line that does not parse.\<close>

fun parse_all :: "(nat \<Rightarrow> error) \<Rightarrow> nat \<Rightarrow> string list \<Rightarrow> error + value list" where
  "parse_all err i [] = Inr []"
| "parse_all err i (line # lns) =
     (case ParseOrdered line of None \<Rightarrow> Inl (err (Suc i))
      | Some v \<Rightarrow> bindR (parse_all err (Suc i) lns) (\<lambda>vs. Inr (v # vs)))"

definition lagParseLedger :: "lagClassifier \<Rightarrow> error + lagClassifier" where
  "lagParseLedger lc =
     bindR (parse_all (\<lambda>k. ELagLine k (length (lc_mirror lc)) (length (lc_lines lc))) 0 (lc_lines lc))
       (\<lambda>evs. Inr (lc\<lparr>lc_events := evs\<rparr>))"

text \<open>The loop over the offsets a pre-crash capped mirror could have started at.\<close>

fun scan_offsets :: "lagClassifier \<Rightarrow> nat list \<Rightarrow> nat option" where
  "scan_offsets lc [] = None"
| "scan_offsets lc (off # offs) = (if lagAligned lc off then Some off else scan_offsets lc offs)"

definition lagScanAlignedShapes :: "lagClassifier \<Rightarrow> nat option" where
  "lagScanAlignedShapes lc =
     (let n = length (lc_lines lc); m = length (lc_mirror lc) in
      if m = mirrorCap \<and> lagAligned lc (n - m) then Some 0
      else if m = 0 \<or> lagAligned lc 0 then Some (n - m)
      else if m = mirrorCap
        then map_option (\<lambda>off. n - off - m) (scan_offsets lc [1..<n - m])
      else None)"

definition seq_or_minus1 :: "value \<Rightarrow> int" where
  "seq_or_minus1 e = (let s = ObjAt e ''seq'' in if vkind s = KInt then vI s else - 1)"

fun first_div :: "value list \<Rightarrow> value list \<Rightarrow> nat \<Rightarrow> nat option" where
  "first_div (a # as) (b # bs) i = (if \<not> lagEq a b then Some i else first_div as bs (Suc i))"
| "first_div _ _ i = None"

definition lagRefusal :: "lagClassifier \<Rightarrow> error" where
  "lagRefusal lc =
     (let n = length (lc_lines lc); m = length (lc_mirror lc);
          d = (case first_div (lc_mirror lc) (lc_events lc) 0 of Some i \<Rightarrow> i | None \<Rightarrow> m);
          divSeq = (if d < m then seq_or_minus1 (lc_mirror lc ! d) else - 1);
          wantSeq = (if d < n then seq_or_minus1 (lc_events lc ! d) else - 1)
      in EHole n m d divSeq wantSeq)"

definition classifyLaggingMirror :: "string list \<Rightarrow> value list \<Rightarrow> error + (value list \<times> nat)" where
  "classifyLaggingMirror lines mirror =
     bindR (lagParseLedger \<lparr>lc_lines = lines, lc_mirror = mirror, lc_events = []\<rparr>) (\<lambda>lc.
       case lagScanAlignedShapes lc of
         Some adopted \<Rightarrow> Inr (lc_events lc, adopted)
       | None \<Rightarrow> Inl (lagRefusal lc))"

section \<open>The writer\<close>

record logBuilder =
  lb_lines :: "string list"
  lb_rewoundDropped :: nat
  lb_rewoundCapped :: bool
  lb_last :: "value option"
  lb_lagEvents :: "value list"
  lb_lagAdopted :: nat
  lb_data :: "value"

definition lb_start :: "string list \<Rightarrow> logBuilder" where
  "lb_start lines = \<lparr>lb_lines = lines, lb_rewoundDropped = 0, lb_rewoundCapped = False, lb_last = None,
                     lb_lagEvents = [], lb_lagAdopted = 0, lb_data = VNull\<rparr>"

definition logProbeGenesis :: "env \<Rightarrow> logBuilder \<Rightarrow> logBuilder op" where
  "logProbeGenesis ev lb =
     (if lb_lines lb = []
      then bindE (State ev) (\<lambda>st.
             let dropped = length (vA (ObjAt st ''events'')) in
             ret (lb\<lparr>lb_rewoundDropped := dropped, lb_rewoundCapped := dropped \<ge> mirrorCap\<rparr>))
      else ret lb)"

definition logParseChainHead :: "logBuilder \<Rightarrow> logBuilder op" where
  "logParseChainHead lb =
     (if lb_lines lb \<noteq> []
      then bindE (parseE (last (lb_lines lb)) (EHeadUnparsable (length (lb_lines lb))))
             (\<lambda>v. ret (lb\<lparr>lb_last := Some v\<rparr>))
      else ret lb)"

definition logClassifyMirrorLag :: "env \<Rightarrow> logBuilder \<Rightarrow> logBuilder op" where
  "logClassifyMirrorLag ev lb =
     (if lb_last lb = None then ret lb
      else bindE (State ev) (\<lambda>st.
        let mirror = ObjAt st ''events'' in
        if vkind mirror = KArr then
          (let mlen = length (vA mirror); n = length (lb_lines lb) in
           if mlen > n then fail (EMirrorLonger n mlen)
           else if mlen < n then
             (case classifyLaggingMirror (lb_lines lb) (vA mirror) of
                Inl e \<Rightarrow> fail e
              | Inr (evs, adopted) \<Rightarrow> ret (lb\<lparr>lb_lagEvents := evs, lb_lagAdopted := adopted\<rparr>))
           else ret lb)
        else ret lb))"

definition logPrevHash :: "logBuilder \<Rightarrow> string" where
  "logPrevHash lb = (case lb_last lb of
       Some l \<Rightarrow> (let eh = ObjAt l ''event_hash'' in if vkind eh = KStr then vS eh else legacyAnchor l)
     | None \<Rightarrow> GenesisHash)"

definition cap_disclosure :: string where
  "cap_disclosure = ''events dropped from the state mirror's capped tail; '' @
     ''the mirror was at its '' @ nat_digits mirrorCap @ ''-event cap, so the total '' @
     ''number of events the campaign ever held is UNKNOWN '' @
     ''(dropped_tail is a lower bound, not the loss)''"

definition logDiscloseRewind :: "env \<Rightarrow> logBuilder \<Rightarrow> logBuilder op" where
  "logDiscloseRewind ev lb =
     (if lb_rewoundDropped lb > 0 then
        (let d0 = (if vkind (lb_data lb) \<noteq> KObj then VObj [] else lb_data lb);
             lr = [(''dropped_tail'', VInt (int (lb_rewoundDropped lb)))] @
                  (if lb_rewoundCapped lb
                   then [(''mirror_capped'', VBool True), (''dropped_tail_meaning'', VStr cap_disclosure)]
                   else [])
         in bindE (nowIso ev) (\<lambda>t.
              ret (lb\<lparr>lb_data := set_field d0 ''ledger_rewound'' (VObj (lr @ [(''at'', VStr t)]))\<rparr>)))
      else ret lb)"

definition logDiscloseLagHeal :: "env \<Rightarrow> logBuilder \<Rightarrow> logBuilder op" where
  "logDiscloseLagHeal ev lb =
     (if lb_lagAdopted lb > 0 then
        (let d0 = (if vkind (lb_data lb) \<noteq> KObj then VObj [] else lb_data lb)
         in bindE (nowIso ev) (\<lambda>t.
              ret (lb\<lparr>lb_data := set_field d0 ''mirror_lag_healed''
                     (VObj [(''adopted_from_log'', VInt (int (lb_lagAdopted lb))), (''at'', VStr t)])\<rparr>)))
      else ret lb)"

definition event_body :: "logBuilder \<Rightarrow> string \<Rightarrow> string \<Rightarrow> value \<Rightarrow> string \<Rightarrow> kv list" where
  "event_body lb at_now eventType refV prevHash =
     [(''seq'', VInt (int (length (lb_lines lb)))), (''at'', VStr at_now), (''type'', VStr eventType),
      (''ref'', refV), (''data'', lb_data lb), (''prev_hash'', VStr prevHash)]"

definition logBuildEvent :: "env \<Rightarrow> logBuilder \<Rightarrow> string \<Rightarrow> value \<Rightarrow> string \<Rightarrow> value op" where
  "logBuildEvent ev lb eventType refV prevHash =
     bindE (nowIso ev) (\<lambda>at_now.
       let body = event_body lb at_now eventType refV prevHash
       in ret (VObj (body @ [(''event_hash'', VStr (eventHash (VObj body)))])))"

definition logCommit :: "env \<Rightarrow> logBuilder \<Rightarrow> value \<Rightarrow> value op" where
  "logCommit ev lb event =
     bindE (AppendJsonlAscii EventsPath (CanonSpaced event)) (\<lambda>_.
     bindE (State ev) (\<lambda>st.
       let existing = ObjAt st ''events'';
           have0 = (if vkind existing = KArr then vA existing else []);
           have1 = (if lb_rewoundDropped lb > 0 then [] else have0);
           have2 = (if lb_lagAdopted lb > 0 then lb_lagEvents lb else have1)
       in bindE (SaveState ev (set_field st ''events'' (VArr (tailEvents have2 event))))
            (\<lambda>_. ret event)))"

definition Log :: "env \<Rightarrow> string \<Rightarrow> string option \<Rightarrow> value option \<Rightarrow> value op" where
  "Log ev eventType ref data = with_lock
     (bindE logLines (\<lambda>lines.
      bindE (logProbeGenesis ev (lb_start lines)) (\<lambda>lb1.
      bindE (logParseChainHead lb1) (\<lambda>lb2.
      bindE (logClassifyMirrorLag ev lb2) (\<lambda>lb3.
        let prevHash = logPrevHash lb3;
            refV = (case ref of None \<Rightarrow> VNull | Some r \<Rightarrow> VStr r);
            lb4 = lb3\<lparr>lb_data := (case data of None \<Rightarrow> VObj [] | Some d \<Rightarrow> d)\<rparr>
        in bindE (logDiscloseRewind ev lb4) (\<lambda>lb5.
           bindE (logDiscloseLagHeal ev lb5) (\<lambda>lb6.
           bindE (logBuildEvent ev lb6 eventType refV prevHash) (\<lambda>event.
             logCommit ev lb6 event))))))))"

section \<open>The readers\<close>

definition NextSeq :: "nat op" where
  "NextSeq = bindE logLines (\<lambda>lines. ret (length lines))"

definition lastEvent :: "value option op" where
  "lastEvent = bindE logLines (\<lambda>lines.
     if lines = [] then ret None
     else bindE (parseE (last lines) (EParse EventsPath)) (\<lambda>v. ret (Some v)))"

definition Events :: "value list op" where
  "Events = bindE logLines (\<lambda>lines. \<lambda>w. (parse_all ELine 0 lines, w))"

text \<open>The checks of the rebuild, line by line; \<open>all\<close> is what was accepted so far.\<close>

definition rebuild_check :: "nat \<Rightarrow> value list \<Rightarrow> value \<Rightarrow> error + unit" where
  "rebuild_check i all v =
     (let seq = ObjAt v ''seq'' in
      if vkind v \<noteq> KObj then Inl (ERebuild (Suc i) ''object'')
      else if vkind seq \<noteq> KInt \<or> int (length all) \<noteq> vI seq then Inl (ERebuild (Suc i) ''seq'')
      else if ObjStr v ''prev_hash'' = [] \<or> ObjStr v ''event_hash'' = [] then Inl (ERebuild (Suc i) ''keys'')
      else if all \<noteq> [] \<and> ObjStr v ''prev_hash'' \<noteq> ObjStr (last all) ''event_hash''
        then Inl (ERebuild (Suc i) ''prev'')
      else if eventHash v \<noteq> ObjStr v ''event_hash'' then Inl (ERebuild (Suc i) ''hash'')
      else Inr ())"

fun rebuild_loop :: "nat \<Rightarrow> value list \<Rightarrow> string list \<Rightarrow> error + value list" where
  "rebuild_loop i all [] = Inr all"
| "rebuild_loop i all (line # lns) =
     (if blankLine line then rebuild_loop (Suc i) all lns
      else case ParseOrdered line of
        None \<Rightarrow> Inl (ERebuild (Suc i) ''parse'')
      | Some v \<Rightarrow> bindR (rebuild_check i all v) (\<lambda>_. rebuild_loop (Suc i) (all @ [v]) lns))"

definition EventsMirrorFromLog :: "value list op" where
  "EventsMirrorFromLog = bindE logLines (\<lambda>lines. \<lambda>w.
     (bindR (rebuild_loop 0 [] lines) (\<lambda>all. Inr (foldl tailEvents [] all)), w))"

end
