(* ===== verification/StoreFacts.thy ===== *)
theory StoreFacts
  imports Campaign
begin

text \<open>
  What the store operations do to the files, as rewrite rules in the collection \<open>world_simps\<close>:
  reads leave the world alone, a successful write replaces exactly one file, the lock touches no
  file, and reading the state back after a successful save gives the saved value.
\<close>

section \<open>Reading\<close>

definition bytes_at :: "world \<Rightarrow> string \<Rightarrow> string" where
  "bytes_at w p = content_of p w"

definition accessible :: "world \<Rightarrow> string \<Rightarrow> bool" where
  "accessible w p \<longleftrightarrow> (case kv_find (files w) p of None \<Rightarrow> True | Some f \<Rightarrow> readable f)"

lemma snd_ReadFile [world_simps]: "snd (ReadFile p w) = w"
  by (simp add: ReadFile_def split: option.splits)

lemma ReadFile_Inr [world_simps]:
  "ReadFile p w = (Inr raw, w') \<longleftrightarrow> w' = w \<and> kv_find (files w) p = Some (File True raw)"
  by (auto simp: ReadFile_def split: option.splits) (metis fnode.collapse)+

lemma ReadFile_NotExist [world_simps]:
  "ReadFile p w = (Inl (ENotExist q), w') \<longleftrightarrow> w' = w \<and> q = p \<and> kv_find (files w) p = None"
  by (auto simp: ReadFile_def split: option.splits)

lemma ReadFile_cases:
  obtains (absent) "ReadFile p w = (Inl (ENotExist p), w)" "kv_find (files w) p = None"
  | (denied) c where "ReadFile p w = (Inl (EAccess p), w)" "kv_find (files w) p = Some (File False c)"
  | (read) c where "ReadFile p w = (Inr c, w)" "kv_find (files w) p = Some (File True c)"
proof (cases "kv_find (files w) p")
  case None
  then show ?thesis using absent by (simp add: ReadFile_def)
next
  case (Some f)
  then show ?thesis using denied read by (cases f; cases "readable f") (simp_all add: ReadFile_def)
qed

lemma parseE_Inr [world_simps]: "parseE s e w = (Inr v, w') \<longleftrightarrow> w' = w \<and> ParseOrdered s = Some v"
  by (auto simp: parseE_def split: option.splits)

lemma snd_parseE [world_simps]: "snd (parseE s e w) = w"
  by (simp add: parseE_def split: option.splits)

lemma snd_bindE: "snd (m w) = w \<Longrightarrow> (\<And>x. snd (k x w) = w) \<Longrightarrow> snd (bindE m k w) = w"
  by (auto simp: bindE_def split: prod.splits sum.splits)

lemma snd_State [world_simps]: "snd (State ev w) = w"
  unfolding State_def ReadJson_def Validate_def
  by (intro snd_bindE) (simp_all add: world_simps)

lemma State_Inr:
  "State ev w = (Inr st, w') \<longleftrightarrow> w' = w \<and> validates ev StateSchema st \<and>
     (\<exists>raw. kv_find (files w) StatePath = Some (File True raw) \<and> ParseOrdered raw = Some st)"
  by (auto simp: State_def ReadJson_def Validate_def bindE_Inr world_simps split: if_splits)

lemma State_files_cong:
  assumes "kv_find (files w) StatePath = kv_find (files w') StatePath"
  shows "fst (State ev w) = fst (State ev w')"
  using assms
  by (auto simp: State_def ReadJson_def Validate_def bindE_def ReadFile_def parseE_def guard_def
      split: option.splits prod.splits sum.splits)

lemma State_pair: "State ev w = (fst (State ev w), w)"
  by (metis prod.collapse snd_State)

lemma State_transfer:
  assumes "State ev w = (r, w0)" "kv_find (files w) StatePath = kv_find (files w') StatePath"
  shows "State ev w' = (r, w')"
  using State_files_cong [OF assms(2), of ev] assms(1) State_pair [of ev w'] by simp

lemma State_wf: "State ev w = (Inr st, w') \<Longrightarrow> wf_value st"
  by (auto simp: State_Inr dest: ParseOrdered_wf)

section \<open>Writing\<close>

lemma put_file_same [world_simps]:
  "kv_find (files (put_file p c w)) p = Some (File (accessible w p) c)"
  by (simp add: put_file_def accessible_def split: option.splits)

lemma put_file_other [world_simps]: "q \<noteq> p \<Longrightarrow> kv_find (files (put_file p c w)) q = kv_find (files w) q"
  by (simp add: put_file_def)

lemma put_file_fields [world_simps]:
  "ticks (put_file p c w) = ticks w" "faults (put_file p c w) = faults w"
  "plock (put_file p c w) = plock w" "flocks (put_file p c w) = flocks w"
  by (simp_all add: put_file_def)

lemma spend_fields [world_simps]:
  "files (spend w) = files w" "ticks (spend w) = ticks w" "plock (spend w) = plock w"
  "flocks (spend w) = flocks w" "faults (spend w) = drop 1 (faults w)"
  by (simp_all add: spend_def)

lemma replace_file_Inr:
  "replace_file p c w = (Inr u, w') \<longleftrightarrow> next_fault w = IOok \<and> w' = spend (put_file p c w)"
  by (auto simp: replace_file_def split: fault.splits)

lemma append_file_Inr:
  "append_file p c w = (Inr u, w') \<longleftrightarrow> next_fault w = IOok \<and> w' = spend (put_file p (content_of p w @ c) w)"
  by (auto simp: append_file_def split: fault.splits)

lemma WriteJson_Inr:
  "WriteJson ev p v schema w = (Inr u, w') \<longleftrightarrow>
     (schema \<noteq> [] \<longrightarrow> validates ev schema v) \<and> next_fault w = IOok \<and> w' = spend (put_file p (DumpIndented v @ NL) w)"
  by (auto simp: WriteJson_def Validate_def bindE_Inr replace_file_Inr split: if_splits)

lemma WriteJson_Inl_files: "WriteJson ev p v schema w = (Inl e, w') \<Longrightarrow> files w' = files w"
  by (auto simp: WriteJson_def Validate_def bindE_Inl bindE_Inr replace_file_def world_simps
      split: if_splits fault.splits)

lemma checkJsonlTail_Inr:
  "checkJsonlTail p w = (Inr u, w') \<longleftrightarrow> w' = w \<and> accessible w p \<and>
     (content_of p w = [] \<or> last (content_of p w) = CHR 0x0A)"
  by (auto simp: checkJsonlTail_def accessible_def content_of_def split: option.splits if_splits)

lemma snd_checkJsonlTail [world_simps]: "snd (checkJsonlTail p w) = w"
  by (simp add: checkJsonlTail_def split: option.splits)

lemma appendJsonlChecked_Inr:
  "appendJsonlChecked p line na w = (Inr u, w') \<longleftrightarrow>
     (na \<or> isASCII line) \<and> accessible w p \<and> (content_of p w = [] \<or> last (content_of p w) = CHR 0x0A) \<and>
     next_fault w = IOok \<and> w' = spend (put_file p (content_of p w @ line @ NL) w)"
  by (auto simp: appendJsonlChecked_def bindE_Inr checkJsonlTail_Inr append_file_Inr split: if_splits)

section \<open>The clock and the lock\<close>

lemma nowIso_Inr [world_simps]: "nowIso ev w = (Inr t, w') \<longleftrightarrow> t = now ev (ticks w) \<and> w' = w\<lparr>ticks := Suc (ticks w)\<rparr>"
  by (auto simp: nowIso_def)

lemma nowIso_Inl [world_simps]: "nowIso ev w \<noteq> (Inl e, w')"
  by (simp add: nowIso_def)

lemma LockProcess_frame:
  "LockProcess w = (r, w') \<Longrightarrow> files w' = files w \<and> ticks w' = ticks w \<and> faults w' = faults w"
  by (auto simp: LockProcess_def Let_def split: prod.splits sum.splits)

lemma LockProcess_Inr_depth:
  "LockProcess w = (Inr u, w') \<Longrightarrow> lk_depth (plock w') = Suc (lk_depth (plock w))"
  by (auto simp: LockProcess_def Let_def split: prod.splits sum.splits dest: pl_lock_ok_depth)

lemma LockProcess_Inl_depth:
  "LockProcess w = (Inl e, w') \<Longrightarrow> lk_depth (plock w') = lk_depth (plock w) \<and> lk_depth (plock w) = 0"
  by (auto simp: LockProcess_def Let_def split: prod.splits sum.splits dest: pl_lock_fail_depth)

text \<open>Inside the window a second acquisition always succeeds.\<close>

lemma LockProcess_reenter:
  "lk_depth (plock w) > 0 \<Longrightarrow> \<exists>w'. LockProcess w = (Inr (), w') \<and> files w' = files w \<and> ticks w' = ticks w \<and> faults w' = faults w"
  by (auto simp: LockProcess_def Let_def pl_lock_reenter split: prod.splits)

lemma UnlockProcess_frame [world_simps]:
  "files (UnlockProcess w) = files w" "ticks (UnlockProcess w) = ticks w" "faults (UnlockProcess w) = faults w"
  "plock (UnlockProcess w) = pl_unlock (plock w)"
  by (simp_all add: UnlockProcess_def)

lemma with_lock_Inr:
  assumes "with_lock body w = (Inr x, w')"
  obtains w1 w2 where "LockProcess w = (Inr (), w1)" "files w1 = files w" "ticks w1 = ticks w" "faults w1 = faults w"
    "lk_depth (plock w1) > 0" "body w1 = (Inr x, w2)" "w' = UnlockProcess w2" "files w' = files w2"
proof -
  from assms obtain w1 where l: "LockProcess w = (Inr (), w1)"
      and b: "(case body w1 of (r, w') \<Rightarrow> (r, UnlockProcess w')) = (Inr x, w')"
    by (auto simp: with_lock_def bindE_Inr)
  from b obtain w2 where "body w1 = (Inr x, w2)" "w' = UnlockProcess w2" by (auto split: prod.splits)
  with that [OF l] LockProcess_frame [OF l] LockProcess_Inr_depth [OF l] show ?thesis by (simp add: world_simps)
qed

lemma with_lock_Inl:
  assumes "with_lock body w = (Inl e, w')"
  obtains (refused) "LockProcess w = (Inl e, w')" "files w' = files w"
  | (inside) w1 w2 where "LockProcess w = (Inr (), w1)" "files w1 = files w" "ticks w1 = ticks w"
      "faults w1 = faults w" "lk_depth (plock w1) > 0" "body w1 = (Inl e, w2)" "w' = UnlockProcess w2" "files w' = files w2"
proof (cases "LockProcess w")
  case (Pair r w1)
  note fr = LockProcess_frame [OF Pair]
  show ?thesis
  proof (cases r)
    case (Inl e')
    with assms Pair fr refused show ?thesis by (simp add: with_lock_def bindE_def)
  next
    case (Inr u)
    with assms Pair have "(case body w1 of (r, w') \<Rightarrow> (r, UnlockProcess w')) = (Inl e, w')"
      by (simp add: with_lock_def bindE_def)
    then obtain w2 where "body w1 = (Inl e, w2)" "w' = UnlockProcess w2" by (auto split: prod.splits)
    with inside [of w1 w2] Pair Inr fr LockProcess_Inr_depth [of w u w1] show ?thesis by (simp add: world_simps)
  qed
qed

section \<open>Saving the state\<close>

lemma stamp_updated_Inr:
  "stamp_updated ev st w = (Inr st', w') \<Longrightarrow>
     files w' = files w \<and> faults w' = faults w \<and> plock w' = plock w \<and> flocks w' = flocks w \<and>
     st' = (if HasObjKey st ''updated_at'' then set_field st ''updated_at'' (VStr (now ev (ticks w))) else st)"
  by (auto simp: stamp_updated_def bindE_Inr world_simps split: if_splits)

lemma stamp_updated_not_Inl: "stamp_updated ev st w \<noteq> (Inl e, w')"
  by (auto simp: stamp_updated_def bindE_Inl world_simps)

definition stamped :: "env \<Rightarrow> nat \<Rightarrow> value \<Rightarrow> value" where
  "stamped ev t st = (if HasObjKey st ''updated_at'' then set_field st ''updated_at'' (VStr (now ev t)) else st)"

lemma SaveState_Inr:
  assumes "SaveState ev st w = (Inr u, w')"
  shows "kv_find (files w') StatePath = Some (File (accessible w StatePath) (DumpIndented (stamped ev (ticks w) st) @ NL))"
    and "p \<noteq> StatePath \<Longrightarrow> kv_find (files w') p = kv_find (files w) p"
    and "validates ev StateSchema (stamped ev (ticks w) st)"
proof -
  from assms obtain w1 w2 where w1: "files w1 = files w" "ticks w1 = ticks w" "faults w1 = faults w"
    and b: "bindE (stamp_updated ev st) (\<lambda>st'. WriteJson ev StatePath st' StateSchema) w1 = (Inr u, w2)"
    and w': "w' = UnlockProcess w2"
    unfolding SaveState_def by (elim with_lock_Inr) blast
  from b obtain st1 w3 where s: "stamp_updated ev st w1 = (Inr st1, w3)"
      and wr: "WriteJson ev StatePath st1 StateSchema w3 = (Inr u, w2)"
    by (auto simp: bindE_Inr)
  note sf = stamp_updated_Inr [OF s]
  then have st1: "st1 = stamped ev (ticks w) st" using w1 by (simp add: stamped_def)
  have acc: "accessible w3 StatePath = accessible w StatePath" using sf w1 by (simp add: accessible_def)
  from wr have v: "validates ev StateSchema st1" and w2: "w2 = spend (put_file StatePath (DumpIndented st1 @ NL) w3)"
    by (simp_all add: WriteJson_Inr)
  show "kv_find (files w') StatePath = Some (File (accessible w StatePath) (DumpIndented (stamped ev (ticks w) st) @ NL))"
    by (simp add: w' w2 world_simps acc st1)
  show "p \<noteq> StatePath \<Longrightarrow> kv_find (files w') p = kv_find (files w) p"
    using sf w1 by (simp add: w' w2 world_simps)
  show "validates ev StateSchema (stamped ev (ticks w) st)" using v st1 by simp
qed

lemma SaveState_Inl_files: "SaveState ev st w = (Inl e, w') \<Longrightarrow> files w' = files w"
  unfolding SaveState_def
  by (erule with_lock_Inl)
     (auto simp: bindE_Inl stamp_updated_not_Inl dest!: stamp_updated_Inr WriteJson_Inl_files)

text \<open>What was saved is what is read back.\<close>

lemma parse_Indented_NL: "wf_value v \<Longrightarrow> ParseOrdered (DumpIndented v @ NL) = Some v"
  using ParseOrdered_complete [OF wf_writeIndented, of v "[]" NL False 0] by (simp add: DumpIndented_def)

lemma wf_set_field:
  assumes "wf_value v" "wf_value x" "valid_utf8 k" shows "wf_value (set_field v k x)"
proof (cases v)
  case (VObj kvs)
  have "e \<in> set (kv_set kvs k x) \<Longrightarrow> e \<in> set kvs \<or> snd e = x \<and> (fst e = k \<or> fst e \<in> fst ` set kvs)" for e
    by (induction kvs k x rule: kv_set.induct) (auto split: if_splits)
  with assms VObj show ?thesis
    by (force simp: set_field_def SetOrAppend_def list_all_iff distinct_kv_set)
qed (use assms in \<open>simp_all add: set_field_def\<close>)

lemma valid_utf8_updated: "valid_utf8 ''updated_at''"
  by (rule valid_utf8_ascii) simp

lemma wf_stamped:
  assumes "wf_value st" "valid_utf8 (now ev t)" shows "wf_value (stamped ev t st)"
  using assms by (simp add: stamped_def wf_set_field valid_utf8_updated)

lemma State_after_save:
  assumes "SaveState ev st w = (Inr u, w')" "accessible w StatePath" "wf_value st" "valid_utf8 (now ev (ticks w))"
  shows "State ev w' = (Inr (stamped ev (ticks w) st), w')"
  using SaveState_Inr(1,3) [OF assms(1)] assms(2) parse_Indented_NL [OF wf_stamped [OF assms(3,4)]]
  by (simp add: State_Inr)

lemma ObjAt_stamped [simp]: "k \<noteq> ''updated_at'' \<Longrightarrow> ObjAt (stamped ev t st) k = ObjAt st k"
  by (simp add: stamped_def)

lemma vkind_stamped [simp]: "vkind (stamped ev t st) = vkind st"
  by (simp add: stamped_def)

text \<open>The state file holds exactly what the one writer writes for \<open>st\<close>.\<close>

definition saved :: "world \<Rightarrow> value \<Rightarrow> bool" where
  "saved w st \<longleftrightarrow> kv_find (files w) StatePath = Some (File True (DumpIndented st @ NL))"

text \<open>Two states that agree on every field but the event mirror and the time stamp.\<close>

definition same_fields :: "value \<Rightarrow> value \<Rightarrow> bool" where
  "same_fields st st' \<longleftrightarrow> vkind st' = vkind st \<and>
     (\<forall>k. k \<noteq> ''events'' \<longrightarrow> k \<noteq> ''updated_at'' \<longrightarrow> ObjAt st' k = ObjAt st k)"

lemma same_fields_trans: "same_fields a b \<Longrightarrow> same_fields b c \<Longrightarrow> same_fields a c"
  by (simp add: same_fields_def)

lemma same_fields_stamped: "same_fields st (stamped ev t st)"
  by (simp add: same_fields_def)

lemma same_fields_events: "same_fields st (set_field st ''events'' x)"
  by (simp add: same_fields_def)

lemma same_fieldsD: "same_fields st st' \<Longrightarrow> k \<noteq> ''events'' \<Longrightarrow> k \<noteq> ''updated_at'' \<Longrightarrow> ObjAt st' k = ObjAt st k"
  by (simp add: same_fields_def)

lemma State_saved: "saved w st \<Longrightarrow> wf_value st \<Longrightarrow> validates ev StateSchema st \<Longrightarrow> State ev w = (Inr st, w)"
  by (simp add: saved_def State_Inr parse_Indented_NL)

lemma State_of_saved: "saved w st \<Longrightarrow> wf_value st \<Longrightarrow> State ev w = (Inr st', w') \<Longrightarrow> st' = st"
  by (auto simp: saved_def State_Inr parse_Indented_NL)

lemma SaveState_saved:
  assumes "SaveState ev st w = (Inr u, w')" "accessible w StatePath"
  shows "saved w' (stamped ev (ticks w) st)"
  using SaveState_Inr(1) [OF assms(1)] assms(2) by (simp add: saved_def)

end
