(* ===== verification/LedgerText.thy ===== *)
theory LedgerText
  imports EventLog StoreFacts
begin

text \<open>
  The text of a ledger: a canonical line is printable ASCII without a newline, appending it to a
  terminated ledger adds exactly one record, and what is parsed back from it has the fields, the
  hash and the anchor of the value that was written.
\<close>

section \<open>Canonical lines are printable\<close>

definition printable :: "char \<Rightarrow> bool" where
  "printable c \<longleftrightarrow> 0x20 \<le> (of_char c :: nat) \<and> (of_char c :: nat) \<le> 0x7E"

definition printables :: "string \<Rightarrow> bool" where
  "printables s \<longleftrightarrow> (\<forall>c\<in>set s. printable c)"

lemma printables_simps [simp]:
  "printables []" "printables (c # s) = (printable c \<and> printables s)" "printables (s @ t) = (printables s \<and> printables t)"
  by (auto simp: printables_def)

lemma printable_digit: "is_digit c \<Longrightarrow> printable c"
  by (simp add: is_digit_def printable_def)

lemma printables_digits: "digits s \<Longrightarrow> printables s"
  by (auto simp: digits_def printables_def printable_digit)

lemma printable_consts [simp]:
  "printable CHR ''.''" "printable CHR ''e''" "printable CHR ''E''" "printable CHR ''-''" "printable CHR ''+''"
  "printable CHR ''0''" "printable CHR 0x5C" "printable CHR 0x22" "printable CHR '' ''" "printable CHR '',''"
  "printable CHR '':''" "printable CHR ''{''" "printable CHR ''}''" "printable CHR ''[''" "printable CHR '']''"
  "printable CHR ''b''" "printable CHR ''f''" "printable CHR ''n''" "printable CHR ''r''" "printable CHR ''t''"
  "printable CHR ''u''" "printable CHR ''l''" "printable CHR ''s''" "printable CHR ''a''"
  by (simp_all add: printable_def)

lemma lex_digits_printable: "lex_digits s = Some (d, r) \<Longrightarrow> printables d"
  using lex_digits_self printables_digits by blast

lemma lex_int_printable: "lex_int s = Some (d, r) \<Longrightarrow> printables d"
  by (auto simp: lex_int_def dest: lex_digits_printable split: list.splits if_splits)

lemma lex_frac_printable: "lex_frac s = Some (d, r) \<Longrightarrow> printables d"
  by (auto simp: lex_frac_def dest: lex_digits_printable split: list.splits if_splits)

lemma lex_exp_printable: "lex_exp s = Some (d, r) \<Longrightarrow> printables d"
  by (auto simp: lex_exp_def dest: lex_digits_printable split: list.splits if_splits)

lemma lex_unsigned_printable:
  assumes "lex_unsigned s = Some (d, r)" shows "printables d"
proof -
  from assms obtain i r1 f r2 x where p: "lex_int s = Some (i, r1)" "lex_frac r1 = Some (f, r2)"
      "lex_exp r2 = Some (x, r)" "d = i @ f @ x"
    by (auto simp: lex_unsigned_def split: option.splits)
  from lex_int_printable [OF p(1)] lex_frac_printable [OF p(2)] lex_exp_printable [OF p(3)] show ?thesis
    by (simp add: p(4))
qed

lemma num_text_printable: "num_text t \<Longrightarrow> printables t"
  by (cases t) (auto simp: num_text_def lex_number_def dest: lex_unsigned_printable split: if_splits)

lemma printables_WriteU4: "printables (WriteU4 r)"
proof -
  have "\<forall>d\<in>set [0..<16]. printable (hexd ! d)" by code_simp
  then show ?thesis by (simp add: WriteU4_def)
qed

lemma printables_esc_ascii: "printables (esc_ascii r)"
proof (cases "named_escape r")
  case (Some e)
  then show ?thesis by (auto simp: esc_ascii_def named_escape_def split: if_splits)
next
  case None
  have "printables (encode_rune r)" if "\<not> r < 32" "r \<le> 126"
    using that by (simp add: encode_rune_ascii printable_def)
  with None show ?thesis by (auto simp: esc_ascii_def Let_def printables_WriteU4)
qed

lemma printables_concat: "(\<And>x. x \<in> set xs \<Longrightarrow> printables (f x)) \<Longrightarrow> printables (concat (map f xs))"
  by (induction xs) auto

lemma printables_quoted: "printables (quoted True s)"
  by (simp add: quoted_def writeEscaped_def printables_concat printables_esc_ascii)

lemma printables_join: "printables sep \<Longrightarrow> (\<And>x. x \<in> set xs \<Longrightarrow> printables x) \<Longrightarrow> printables (join sep xs)"
  by (induction sep xs rule: join.induct) auto

lemma Canon_printables: "wf_value v \<Longrightarrow> printables (writeCanon c v)"
proof (induction v rule: wf_value.induct)
  case (3 i)
  then show ?case using num_text_printable [OF num_text_FormatInt] by simp
next
  case (4 t)
  then show ?case by (simp add: bigint_text_def num_text_printable)
next
  case (5 f)
  then show ?case by (simp add: float_ok_def num_text_printable)
next
  case (7 a)
  then show ?case by (auto simp: list_all_iff intro!: printables_join)
next
  case (8 kvs)
  have sep: "printables (if c then '','' else '', '')" "printables (if c then '':'' else '': '')" by simp_all
  show ?case
    unfolding Canon_member
    using 8 sep by (auto simp: list_all_iff printables_quoted intro!: printables_join)
qed (auto simp: printables_quoted)

lemma CanonSpaced_printables: "wf_value v \<Longrightarrow> printables (CanonSpaced v)"
  by (simp add: CanonSpaced_def Canon_def Canon_printables)

lemma CanonSpaced_ascii: "wf_value v \<Longrightarrow> isASCII (CanonSpaced v)"
  using CanonSpaced_printables [of v] by (auto simp: isASCII_def list_all_iff printables_def printable_def)

lemma printables_no_newline: "printables s \<Longrightarrow> CHR 0x0A \<notin> set s"
  by (auto simp: printables_def printable_def)

section \<open>Records\<close>

lemma records_of_Nil [simp]: "records_of [] = []"
  by (simp add: records_of_def blankLine_def BlankLine_def)

lemma records_of_line: "CHR 0x0A \<notin> set line \<Longrightarrow> records_of (line @ CHR 0x0A # rest) = (if blankLine line then [] else [line]) @ records_of rest"
  by (simp add: records_of_def split_on_append_delim split_on_no_delim)

lemma records_of_single: "CHR 0x0A \<notin> set line \<Longrightarrow> records_of line = (if blankLine line then [] else [line])"
  by (simp add: records_of_def split_on_no_delim)

lemma records_of_terminated:
  "records_of (raw @ CHR 0x0A # rest) = records_of raw @ records_of rest"
  by (simp add: records_of_def split_on_append_delim)

definition terminated :: "string \<Rightarrow> bool" where
  "terminated raw \<longleftrightarrow> raw = [] \<or> last raw = CHR 0x0A"

lemma records_of_append:
  assumes "terminated raw" "CHR 0x0A \<notin> set line" "\<not> blankLine line"
  shows "records_of (raw @ line @ NL) = records_of raw @ [line]"
proof (cases "raw = []")
  case True
  with assms show ?thesis using records_of_line [of line "[]"] by (simp add: NL_def)
next
  case False
  with assms(1) obtain r where r: "raw = r @ [CHR 0x0A]" unfolding terminated_def by (metis append_butlast_last_id)
  have "records_of ((r @ [CHR 0x0A]) @ line @ NL) = records_of r @ records_of (line @ CHR 0x0A # [])"
    using records_of_terminated [of r "line @ [CHR 0x0A]"] by (simp add: NL_def)
  moreover have "records_of (r @ [CHR 0x0A]) = records_of r" using records_of_terminated [of r "[]"] by simp
  ultimately show ?thesis using records_of_line [OF assms(2), of "[]"] assms(3) r by simp
qed

lemma terminated_append_NL [simp]: "terminated (raw @ line @ NL)"
  by (simp add: terminated_def NL_def)

lemma length_split_on: "length (split_on d xs) \<le> Suc (length xs)"
  by (induction xs) (auto split: list.splits)

lemma length_records_of: "length (records_of raw) \<le> length raw"
proof (induction raw rule: length_induct)
  case (1 raw)
  show ?case
  proof (cases "CHR 0x0A \<in> set raw")
    case False
    then show ?thesis by (cases raw) (auto simp: records_of_single)
  next
    case True
    then obtain line rest where s: "raw = line @ CHR 0x0A # rest" "CHR 0x0A \<notin> set line" by (metis split_list_first)
    have "length (records_of rest) \<le> length rest" using 1 s(1) by simp
    moreover have "records_of raw = (if blankLine line then [] else [line]) @ records_of rest"
      unfolding s(1) by (rule records_of_line [OF s(2)])
    ultimately show ?thesis by (simp add: s(1))
  qed
qed

section \<open>What a written event parses back to\<close>

lemma vkind_norm [simp]: "vkind (keysorted v) = vkind v"
  by (cases v) simp_all

lemma norm_VStr: "vkind v = KStr \<Longrightarrow> keysorted v = v"
  by (cases v) simp_all

lemma vS_norm [simp]: "vS (keysorted v) = vS v" and vI_norm [simp]: "vI (keysorted v) = vI v"
  by (cases v; simp)+

lemma kv_find_sort_key: "distinct (map fst kvs) \<Longrightarrow> kv_find (sort_key fst kvs) = kv_find kvs"
  by (rule kv_find_mset) simp_all

lemma kv_find_norm:
  assumes "wf_value v" shows "kv_find (vO (keysorted v)) k = map_option keysorted (kv_find (vO v) k)"
proof (cases v)
  case (VObj kvs)
  have d: "distinct (map fst (map (\<lambda>e. (fst e, keysorted (snd e))) kvs))" using assms by (simp add: VObj comp_def)
  show ?thesis using kv_find_sort_key [OF d] by (simp add: VObj kv_find_map_snd)
qed simp_all

lemma ObjAt_norm: "wf_value v \<Longrightarrow> ObjAt (keysorted v) k = keysorted (ObjAt v k)"
  by (cases "vkind v = KObj") (auto simp: ObjAt_def kv_find_norm split: option.splits)

lemma ObjStr_norm: "wf_value v \<Longrightarrow> ObjStr (keysorted v) k = ObjStr v k"
  by (simp add: ObjStr_def ObjAt_norm)

lemma CanonSpaced_norm [simp]: "CanonSpaced (keysorted v) = CanonSpaced v"
  unfolding CanonSpaced_def Canon_def by (rule writeCanon_norm [symmetric])

lemma CanonCompact_norm [simp]: "CanonCompact (keysorted v) = CanonCompact v"
  unfolding CanonCompact_def Canon_def by (rule writeCanon_norm [symmetric])

lemma Canon_VObj_cong:
  assumes "\<And>k. k \<in> set ks \<Longrightarrow> writeCanon c (f k) = writeCanon c (g k)"
  shows "writeCanon c (VObj (map (\<lambda>k. (k, f k)) ks)) = writeCanon c (VObj (map (\<lambda>k. (k, g k)) ks))"
proof -
  have "map (\<lambda>e. (fst e, writeCanon c (snd e))) (map (\<lambda>k. (k, f k)) ks)
      = map (\<lambda>e. (fst e, writeCanon c (snd e))) (map (\<lambda>k. (k, g k)) ks)"
    using assms by simp
  then show ?thesis unfolding writeCanon.simps by (simp only:)
qed

lemma eventHash_norm: "wf_value e \<Longrightarrow> eventHash (keysorted e) = eventHash e"
proof -
  assume wf: "wf_value e"
  have "CanonSpaced (pickEventBody (keysorted e)) = CanonSpaced (pickEventBody e)"
    unfolding CanonSpaced_def Canon_def pickEventBody_def
    by (rule Canon_VObj_cong) (auto simp: kv_find_norm [OF wf] writeCanon_norm [symmetric] split: option.splits)
  then show ?thesis by (simp add: eventHash_def)
qed

lemma legacyAnchor_norm: "wf_value e \<Longrightarrow> legacyAnchor (keysorted e) = legacyAnchor e"
  by (auto simp: legacyAnchor_def kv_find_norm split: option.splits)

lemma eventHash_snoc_hash:
  assumes "\<forall>k\<in>set hashed_fields. k \<noteq> h"
  shows "eventHash (VObj (kvs @ [(h, x)])) = eventHash (VObj kvs)"
proof -
  have "kv_find (kvs @ [(h, x)]) k = kv_find kvs k" if "k \<noteq> h" for k
    using that by (induction kvs k rule: kv_find.induct) auto
  then show ?thesis using assms by (simp add: eventHash_def pickEventBody_def cong: map_cong)
qed

lemma parse_CanonSpaced: "wf_value v \<Longrightarrow> ParseOrdered (CanonSpaced v) = Some (keysorted v)"
  unfolding CanonSpaced_def by (rule parse_Canon)

lemma CanonSpaced_VObj_nonblank: "\<not> blankLine (CanonSpaced (VObj kvs))"
  by (simp add: CanonSpaced_def Canon_def blankLine_def BlankLine_def)

end
