(* ===== verification/JsonProperties.thy ===== *)
theory JsonProperties
  imports LedgerText
begin

text \<open>
  Properties of the JSON layer: what the serializers write the parser reads back, the parser only
  yields well-formed values, the canonical form identifies exactly the values that differ in key
  order, and a canonical line keeps the JSONL framing.
\<close>

text \<open>C8: what any of the serializers writes for a well-formed value, the parser reads back: the
  ordered and indented forms as the value itself, the canonical form as the value with sorted keys.\<close>

theorem json_roundtrip:
  assumes "wf_value v"
  shows "ParseOrdered (DumpsOrdered v a) = Some v \<and> ParseOrdered (DumpIndented v) = Some v \<and>
    ParseOrdered (DumpIndentedASCII v) = Some v \<and> ParseOrdered (Canon v c) = Some (keysorted v)"
  using assms parse_Ordered parse_Indented parse_IndentedASCII parse_Canon by blast

definition v_example :: "value" where
  "v_example = VObj [(''b'', VArr [VInt 1, VStr ''x'', VBool True]), (''a'', VNull)]"

lemma v_example_wf: "wf_value v_example"
  by (auto simp: v_example_def int64_range_def intro!: valid_utf8_ascii)

theorem json_roundtrip_witness:
  "ParseOrdered (DumpIndented v_example) = Some v_example \<and> ParseOrdered (Canon v_example True) = Some (keysorted v_example)"
  using json_roundtrip [OF v_example_wf] by blast

text \<open>C9: every value the parser yields is well formed, so writing it out and parsing again is the identity.\<close>

theorem parsed_values_wf:
  assumes "ParseOrdered s = Some v"
  shows "wf_value v \<and> ParseOrdered (DumpIndented v) = Some v"
  using ParseOrdered_wf [OF assms] parse_Indented by blast

theorem parsed_values_wf_witness: "wf_value v_example \<and> ParseOrdered (DumpIndented v_example) = Some v_example"
  by (rule parsed_values_wf [OF parse_Ordered [OF v_example_wf, of True]])

text \<open>C10: two well-formed values have the same canonical text exactly when they differ only in the
  order of object keys.\<close>

theorem canon_identifies:
  assumes "wf_value v" "wf_value u"
  shows "Canon v c = Canon u c \<longleftrightarrow> keysorted v = keysorted u"
  by (rule Canon_eq_iff [OF assms])

theorem canon_identifies_witness:
  "Canon v_example True = Canon (VObj [(''a'', VNull), (''b'', VArr [VInt 1, VStr ''x'', VBool True])]) True"
proof -
  let ?u = "VObj [(''a'', VNull), (''b'', VArr [VInt 1, VStr ''x'', VBool True])]"
  have "wf_value ?u" by (auto simp: int64_range_def intro!: valid_utf8_ascii)
  moreover have "keysorted v_example = keysorted ?u"
    by (simp add: v_example_def less_eq_char_def less_char_def)
  ultimately show ?thesis by (simp add: canon_identifies [OF v_example_wf])
qed



text \<open>C11: every finite binary64 number is written so that parsing it as a JSON number gives the same
  number back, and never as an integer literal.\<close>

theorem float_roundtrip:
  assumes "f64_finite_ok m e"
  shows "number_value (PythonFloat (FFin neg m e)) = Some (VFloat (FFin neg m e))"
  using float_ok_finite [OF assms] by (simp add: float_ok_def number_value_def)

theorem float_roundtrip_witness:
  "number_value (PythonFloat (FFin False 4503599627370497 (- 3))) = Some (VFloat (FFin False 4503599627370497 (- 3)))"
  by (rule float_roundtrip) (simp add: f64_finite_ok_def)

text \<open>A canonical object appended as a line to a newline-terminated file is ASCII, becomes exactly
  one more record of the file, and that record parses back to the object with sorted keys.\<close>

theorem jsonl_framing:
  assumes "wf_value v" "vkind v = KObj" "terminated raw"
  shows "isASCII (CanonSpaced v) \<and> records_of (raw @ CanonSpaced v @ NL) = records_of raw @ [CanonSpaced v] \<and>
    ParseOrdered (CanonSpaced v) = Some (keysorted v) \<and> terminated (raw @ CanonSpaced v @ NL)"
proof -
  obtain kvs where "v = VObj kvs" using assms(2) by (cases v) auto
  then have "\<not> blankLine (CanonSpaced v)" using CanonSpaced_VObj_nonblank by simp
  then show ?thesis
    using CanonSpaced_ascii parse_CanonSpaced assms
      records_of_append [OF assms(3) printables_no_newline [OF CanonSpaced_printables [OF assms(1)]]]
    by (simp add: terminated_def NL_def)
qed

theorem jsonl_framing_witness: "records_of (CanonSpaced v_example @ NL) = [CanonSpaced v_example]"
  using jsonl_framing [OF v_example_wf, of "[]"] by (simp add: v_example_def terminated_def)

end
