(* ===== verification/VerifyLog.thy ===== *)
theory VerifyLog
  imports EventLog
begin

text \<open>
  The ledger verifier of \<^verbatim>\<open>internal/state/verifylog.go\<close>: the tail framing, the record walk, the
  sequence numbers, the hash chain, the state mirror and the waiver file. A problem sentence of the
  Go code is a constructor of \<open>problem\<close> that carries the numbers the sentence prints. Go iterates
  its two waiver counters in map order, which is unspecified; the model lists keys by first
  occurrence, so only the order of waiver problems is fixed by the model.
\<close>

section \<open>Tail framing\<close>

record LedgerTail =
  lt_Present :: bool
  lt_Size :: nat
  lt_Torn :: bool
  lt_TailBytes :: nat

text \<open>The bytes after the last newline, the whole text when it has none.\<close>

definition after_last_newline :: "string \<Rightarrow> string" where
  "after_last_newline raw = rev (takeWhile (\<lambda>c. c \<noteq> CHR 0x0A) (rev raw))"

definition ledgerTail :: "string \<Rightarrow> LedgerTail" where
  "ledgerTail raw =
     (if raw = [] \<or> last raw = CHR 0x0A
      then \<lparr>lt_Present = True, lt_Size = length raw, lt_Torn = False, lt_TailBytes = 0\<rparr>
      else \<lparr>lt_Present = True, lt_Size = length raw, lt_Torn = True,
            lt_TailBytes = length (after_last_newline raw)\<rparr>)"

definition no_ledger_tail :: LedgerTail where
  "no_ledger_tail = \<lparr>lt_Present = False, lt_Size = 0, lt_Torn = False, lt_TailBytes = 0\<rparr>"

definition LedgerTailFraming :: "LedgerTail op" where
  "LedgerTailFraming = catchE (ReadFile EventsPath) (\<lambda>r. case r of
       Inl e \<Rightarrow> if is_not_exist e then ret no_ledger_tail else fail e
     | Inr raw \<Rightarrow> ret (ledgerTail raw))"

section \<open>Problems and the builder\<close>

datatype problem =
    PUnreadable error
  | PTornTail nat
  | PNotJson nat
  | PNotObject nat
  | PSeq nat "value"
  | PPrevHash nat
  | PEventHash nat
  | PMirrorEmpty nat nat
  | PMirrorMismatch
  | PMirrorLonger nat nat
  | PMirrorWindow nat nat nat
  | PWaiverUnreadable nat error
  | PWaiverNoEvent string string nat nat
  | PWaiverMissing nat string string nat

record verifyBuilder =
  vb_events :: "value list"
  vb_problems :: "problem list"
  vb_malformed :: nat
  vb_tail :: LedgerTail
  vb_finalSegmentMalformed :: bool
  vb_ledgerReadable :: bool
  vb_chained :: nat

definition vb_start :: verifyBuilder where
  "vb_start = \<lparr>vb_events = [], vb_problems = [], vb_malformed = 0, vb_tail = no_ledger_tail,
               vb_finalSegmentMalformed = False, vb_ledgerReadable = True, vb_chained = 0\<rparr>"

definition add_problem :: "problem \<Rightarrow> verifyBuilder \<Rightarrow> verifyBuilder" where
  "add_problem p vb = vb\<lparr>vb_problems := vb_problems vb @ [p]\<rparr>"

definition malformed_line :: "problem \<Rightarrow> bool \<Rightarrow> verifyBuilder \<Rightarrow> verifyBuilder" where
  "malformed_line p unterminated vb = add_problem p (vb\<lparr>vb_malformed := vb_malformed vb + 1,
     vb_finalSegmentMalformed := (unterminated \<or> vb_finalSegmentMalformed vb)\<rparr>)"

section \<open>The record walk\<close>

definition verify_line :: "nat \<Rightarrow> bool \<Rightarrow> string \<Rightarrow> verifyBuilder \<Rightarrow> verifyBuilder" where
  "verify_line lineNo unterminated line vb =
     (if blankLine line then vb
      else case ParseOrdered line of
        None \<Rightarrow> malformed_line (PNotJson lineNo) unterminated vb
      | Some e \<Rightarrow> if vkind e \<noteq> KObj then malformed_line (PNotObject lineNo) unterminated vb
                  else vb\<lparr>vb_events := vb_events vb @ [e]\<rparr>)"

lemma drop_line_shorter: "rest \<noteq> [] \<Longrightarrow> length (drop 1 (dropWhile P rest)) < length rest"
  using length_dropWhile_le [of P rest] by (cases rest) auto

function verifyParseRecords :: "nat \<Rightarrow> string \<Rightarrow> verifyBuilder \<Rightarrow> verifyBuilder" where
  "verifyParseRecords lineNo rest vb =
     (if rest = [] then vb
      else let line = takeWhile (\<lambda>c. c \<noteq> CHR 0x0A) rest;
               tail = dropWhile (\<lambda>c. c \<noteq> CHR 0x0A) rest
           in verifyParseRecords (Suc lineNo) (drop 1 tail) (verify_line (Suc lineNo) (tail = []) line vb))"
  by pat_completeness auto
termination
  by (relation "measure (\<lambda>(_, rest, _). length rest)") (auto dest: drop_line_shorter)

declare verifyParseRecords.simps [simp del]

definition verifyReadLedger :: "verifyBuilder \<Rightarrow> verifyBuilder op" where
  "verifyReadLedger vb = catchE (ReadFile EventsPath) (\<lambda>r. case r of
       Inr raw \<Rightarrow> ret (verifyParseRecords 0 raw (vb\<lparr>vb_tail := ledgerTail raw\<rparr>))
     | Inl e \<Rightarrow> if is_not_exist e then ret vb
                else ret (add_problem (PUnreadable e) (vb\<lparr>vb_ledgerReadable := False\<rparr>)))"

definition verifyPrependTornTail :: "verifyBuilder \<Rightarrow> verifyBuilder" where
  "verifyPrependTornTail vb =
     (if lt_Torn (vb_tail vb) \<and> \<not> vb_finalSegmentMalformed vb
      then vb\<lparr>vb_problems := PTornTail (lt_TailBytes (vb_tail vb)) # vb_problems vb\<rparr> else vb)"

section \<open>Sequence numbers and the hash chain\<close>

text \<open>The first event whose seq is not its position; the loop breaks there.\<close>

fun seq_break :: "nat \<Rightarrow> value list \<Rightarrow> problem option" where
  "seq_break i [] = None"
| "seq_break i (e # es) =
     (let seq = ObjAt e ''seq'' in
      if vkind seq \<noteq> KInt \<or> vI seq \<noteq> int i then Some (PSeq i seq) else seq_break (Suc i) es)"

definition verifySeqContiguity :: "verifyBuilder \<Rightarrow> verifyBuilder" where
  "verifySeqContiguity vb = (case seq_break 0 (vb_events vb) of None \<Rightarrow> vb | Some p \<Rightarrow> add_problem p vb)"

text \<open>The chain walk: problems and the number of chained events.\<close>

fun chain_walk :: "nat \<Rightarrow> string \<Rightarrow> value list \<Rightarrow> problem list \<times> nat" where
  "chain_walk i expectedPrev [] = ([], 0)"
| "chain_walk i expectedPrev (e # es) =
     (let eh = ObjAt e ''event_hash'' in
      if vkind eh \<noteq> KStr then chain_walk (Suc i) (legacyAnchor e) es
      else (let p1 = (if vS (ObjAt e ''prev_hash'') \<noteq> expectedPrev then [PPrevHash i] else []);
                p2 = (if eventHash e \<noteq> vS eh then [PEventHash i] else []);
                (ps, n) = chain_walk (Suc i) (vS eh) es
            in (p1 @ p2 @ ps, Suc n)))"

definition verifyHashChain :: "verifyBuilder \<Rightarrow> verifyBuilder" where
  "verifyHashChain vb = (case chain_walk 0 GenesisHash (vb_events vb) of
     (ps, n) \<Rightarrow> vb\<lparr>vb_problems := vb_problems vb @ ps, vb_chained := n\<rparr>)"

section \<open>The mirror\<close>

definition valueEq :: "value \<Rightarrow> value \<Rightarrow> bool" where
  "valueEq a b \<longleftrightarrow> CanonSpaced a = CanonSpaced b"

definition arraysEq :: "value list \<Rightarrow> value list \<Rightarrow> bool" where
  "arraysEq a b \<longleftrightarrow> length a = length b \<and> list_all2 valueEq a b"

definition mirror_problem :: "value list \<Rightarrow> value list \<Rightarrow> nat \<Rightarrow> problem option" where
  "mirror_problem events have' wantLen =
     (if have' = [] \<and> events \<noteq> [] then Some (PMirrorEmpty (length events) wantLen)
      else if have' \<noteq> [] then
        (let want = (if length have' \<le> length events
                     then drop (length events - length have') events else []) in
         if \<not> arraysEq have' want
         then Some (if length have' > length events then PMirrorLonger (length have') (length events)
                    else PMirrorMismatch)
         else if length have' \<noteq> wantLen then Some (PMirrorWindow (length have') wantLen (length events))
         else None)
      else None)"

definition verifyMirrorWindow :: "value list \<Rightarrow> nat \<Rightarrow> verifyBuilder \<Rightarrow> verifyBuilder" where
  "verifyMirrorWindow have' wantLen vb =
     (case mirror_problem (vb_events vb) have' wantLen of None \<Rightarrow> vb | Some p \<Rightarrow> add_problem p vb)"

definition verifyStateMirror :: "env \<Rightarrow> verifyBuilder \<Rightarrow> verifyBuilder op" where
  "verifyStateMirror ev vb = bindE (State ev) (\<lambda>st.
     let stTail = ObjAt st ''events'';
         n = length (vb_events vb);
         wantLen = (if n > mirrorCap then mirrorCap else n)
     in ret (if vkind stTail = KArr then verifyMirrorWindow (vA stTail) wantLen vb else vb))"

section \<open>Waivers\<close>

fun waiver_lines :: "nat \<Rightarrow> string list \<Rightarrow> nat + value list" where
  "waiver_lines i [] = Inr []"
| "waiver_lines i (line # lns) =
     (if BlankLine line then waiver_lines (Suc i) lns
      else case ParseOrdered line of None \<Rightarrow> Inl (Suc i)
           | Some v \<Rightarrow> bindR (waiver_lines (Suc i) lns) (\<lambda>vs. Inr (v # vs)))"

text \<open>Rows, or the error with the line it names (0 when the file could not be read).\<close>

definition readWaiverRowsR12 :: "world \<Rightarrow> (nat \<times> error) + value list" where
  "readWaiverRowsR12 w = (case fst (ReadFile WaiversPath w) of
       Inl e \<Rightarrow> if is_not_exist e then Inr [] else Inl (0, e)
     | Inr raw \<Rightarrow> (case waiver_lines 0 (split_on (CHR 0x0A) raw) of
                     Inl i \<Rightarrow> Inl (i, EParse WaiversPath) | Inr vs \<Rightarrow> Inr vs))"

definition waived_event_keys :: "value list \<Rightarrow> (string \<times> string) list" where
  "waived_event_keys events =
     map (\<lambda>e. (ObjStr e ''ref'', ObjStr (ObjAt e ''data'') ''subject''))
       (filter (\<lambda>e. vkind (ObjAt e ''type'') = KStr \<and> vS (ObjAt e ''type'') = ''completion.waived'') events)"

definition waived_row_keys :: "value list \<Rightarrow> (string \<times> string) list" where
  "waived_row_keys rows = map (\<lambda>w. (ObjStr w ''stage'', ObjStr w ''subject'')) rows"

definition waiver_problems :: "(string \<times> string) list \<Rightarrow> (string \<times> string) list \<Rightarrow> problem list" where
  "waiver_problems evs rows =
     map (\<lambda>k. PWaiverNoEvent (fst k) (snd k) (count_list rows k) (count_list evs k))
       (filter (\<lambda>k. count_list evs k < count_list rows k) (remdups rows)) @
     map (\<lambda>k. PWaiverMissing (count_list evs k) (fst k) (snd k) (count_list rows k))
       (filter (\<lambda>k. count_list rows k < count_list evs k) (remdups evs))"

definition verifyWaivers :: "verifyBuilder \<Rightarrow> verifyBuilder op" where
  "verifyWaivers vb w = (Inr (case readWaiverRowsR12 w of
       Inl (line, e) \<Rightarrow> add_problem (PWaiverUnreadable line e) vb
     | Inr rows \<Rightarrow> vb\<lparr>vb_problems := vb_problems vb @
           waiver_problems (waived_event_keys (vb_events vb)) (waived_row_keys rows)\<rparr>), w)"

section \<open>The verdict\<close>

record LogVerdict =
  lv_Events :: nat
  lv_OK :: bool
  lv_Problems :: "problem list"
  lv_Chained :: nat
  lv_LegacyUnchained :: nat
  lv_MalformedLines :: nat

definition verify_finish :: "env \<Rightarrow> verifyBuilder \<Rightarrow> LogVerdict op" where
  "verify_finish ev vb0 =
     (let vb1 = verifyHashChain (verifySeqContiguity vb0) in
      bindE (verifyStateMirror ev vb1) (\<lambda>vb2.
      bindE (verifyWaivers vb2) (\<lambda>vb.
        ret \<lparr>lv_Events = length (vb_events vb), lv_OK = (vb_problems vb = []),
             lv_Problems = take 10 (vb_problems vb), lv_Chained = vb_chained vb,
             lv_LegacyUnchained = length (vb_events vb) - vb_chained vb, lv_MalformedLines = 0\<rparr>)))"

definition VerifyLog :: "env \<Rightarrow> LogVerdict op" where
  "VerifyLog ev = bindE (verifyReadLedger vb_start) (\<lambda>vb'.
     let vb = verifyPrependTornTail vb' in
     if vb_malformed vb > 0
     then ret \<lparr>lv_Events = length (vb_events vb) + vb_malformed vb, lv_OK = False,
               lv_Problems = take 10 (vb_problems vb), lv_Chained = 0, lv_LegacyUnchained = 0,
               lv_MalformedLines = vb_malformed vb\<rparr>
     else if \<not> vb_ledgerReadable vb
     then ret \<lparr>lv_Events = 0, lv_OK = False, lv_Problems = take 10 (vb_problems vb), lv_Chained = 0,
               lv_LegacyUnchained = 0, lv_MalformedLines = 0\<rparr>
     else verify_finish ev vb)"

end
