(* ===== verification/VerifyFacts.thy ===== *)
theory VerifyFacts
  imports VerifyLog LedgerText
begin

text \<open>
  What a green verdict of \<open>VerifyLog\<close> says. \<open>clean_ledger raw es\<close> is the pure content of the
  record walk, the sequence check and the chain check; \<open>verdict_ok_iff\<close> shows that a verdict is green
  exactly when the ledger's bytes are clean, the mirror is the rule's window and the waiver counts
  agree.
\<close>

section \<open>The record walk\<close>

definition good_record :: "string \<Rightarrow> bool" where
  "good_record line \<longleftrightarrow> (case ParseOrdered line of None \<Rightarrow> False | Some e \<Rightarrow> vkind e = KObj)"

definition event_of :: "string \<Rightarrow> value" where
  "event_of line = (case ParseOrdered line of None \<Rightarrow> VNull | Some e \<Rightarrow> e)"

lemma good_recordD: "good_record line \<Longrightarrow> ParseOrdered line = Some (event_of line) \<and> vkind (event_of line) = KObj"
  by (auto simp: good_record_def event_of_def split: option.splits)

lemma walk_unfold:
  "verifyParseRecords n rest vb =
     (if rest = [] then vb
      else verifyParseRecords (Suc n) (drop 1 (dropWhile (\<lambda>c. c \<noteq> CHR 0x0A) rest))
             (verify_line (Suc n) (dropWhile (\<lambda>c. c \<noteq> CHR 0x0A) rest = [])
                (takeWhile (\<lambda>c. c \<noteq> CHR 0x0A) rest) vb))"
  by (subst verifyParseRecords.simps) (simp add: Let_def)

lemma walk_Nil [simp]: "verifyParseRecords n [] vb = vb"
  by (subst walk_unfold) simp

lemma records_of_step:
  "records_of rest = (let line = takeWhile (\<lambda>c. c \<noteq> CHR 0x0A) rest in if blankLine line then [] else [line])
      @ records_of (drop 1 (dropWhile (\<lambda>c. c \<noteq> CHR 0x0A) rest))"
proof -
  let ?P = "\<lambda>c. c \<noteq> CHR 0x0A"
  have nl: "CHR 0x0A \<notin> set (takeWhile ?P rest)" by (auto dest: set_takeWhileD)
  show ?thesis
  proof (cases "dropWhile ?P rest")
    case Nil
    then have "rest = takeWhile ?P rest" by (metis append_Nil2 takeWhile_dropWhile_id)
    then have "records_of rest = records_of (takeWhile ?P rest)" by (rule arg_cong)
    from trans [OF this records_of_single [OF nl]]
    show ?thesis by (simp only: Nil Let_def drop_Nil records_of_Nil append_Nil2)
  next
    case (Cons c cs)
    then have c: "c = CHR 0x0A" using hd_dropWhile [of ?P rest] by (auto simp: dropWhile_eq_Cons_conv)
    have "takeWhile ?P rest @ dropWhile ?P rest = rest" by (rule takeWhile_dropWhile_id)
    then have "rest = takeWhile ?P rest @ CHR 0x0A # cs" unfolding Cons c by (rule sym)
    then have "records_of rest = records_of (takeWhile ?P rest @ CHR 0x0A # cs)" by (rule arg_cong)
    from trans [OF this records_of_line [OF nl, of cs]] show ?thesis
      by (simp only: Cons Let_def drop_Suc_Cons drop_0 One_nat_def)
  qed
qed

lemma verify_line_simps:
  "blankLine line \<Longrightarrow> verify_line n u line vb = vb"
  "\<not> blankLine line \<Longrightarrow> good_record line \<Longrightarrow> verify_line n u line vb = vb\<lparr>vb_events := vb_events vb @ [event_of line]\<rparr>"
  "\<not> blankLine line \<Longrightarrow> \<not> good_record line \<Longrightarrow> vb_malformed (verify_line n u line vb) = Suc (vb_malformed vb)"
  by (auto simp: verify_line_def good_record_def event_of_def malformed_line_def add_problem_def split: option.splits)

lemma walk_good:
  assumes "list_all good_record (records_of rest)"
  shows "verifyParseRecords n rest vb = vb\<lparr>vb_events := vb_events vb @ map event_of (records_of rest)\<rparr>"
  using assms
proof (induction n rest vb rule: verifyParseRecords.induct)
  case (1 n rest vb)
  let ?line = "takeWhile (\<lambda>c. c \<noteq> CHR 0x0A) rest" and ?rest = "drop 1 (dropWhile (\<lambda>c. c \<noteq> CHR 0x0A) rest)"
  show ?case
  proof (cases "rest = []")
    case True
    then show ?thesis by simp
  next
    case False
    from "1.prems" have g: "list_all good_record (records_of ?rest)" "\<not> blankLine ?line \<Longrightarrow> good_record ?line"
      by (subst (asm) records_of_step, simp add: Let_def)+
    from "1.IH" [OF False refl refl g(1)] show ?thesis
      unfolding walk_unfold [of n rest vb] using False g(2)
      by (subst records_of_step) (auto simp: Let_def verify_line_simps)
  qed
qed

lemma walk_malformed_mono: "vb_malformed vb \<le> vb_malformed (verifyParseRecords n rest vb)"
proof (induction n rest vb rule: verifyParseRecords.induct)
  case (1 n rest vb)
  have "vb_malformed vb \<le> vb_malformed (verify_line m u line vb)" for m u line
    by (cases "blankLine line"; cases "good_record line") (simp_all add: verify_line_simps)
  from order_trans [OF this "1.IH" [OF _ refl refl]] show ?case
    by (cases "rest = []") (simp_all add: walk_unfold [of n rest vb])
qed

lemma walk_bad:
  assumes "\<not> list_all good_record (records_of rest)"
  shows "vb_malformed vb < vb_malformed (verifyParseRecords n rest vb)"
  using assms
proof (induction n rest vb rule: verifyParseRecords.induct)
  case (1 n rest vb)
  let ?line = "takeWhile (\<lambda>c. c \<noteq> CHR 0x0A) rest" and ?rest = "drop 1 (dropWhile (\<lambda>c. c \<noteq> CHR 0x0A) rest)"
  let ?vb = "verify_line (Suc n) (dropWhile (\<lambda>c. c \<noteq> CHR 0x0A) rest = []) ?line vb"
  have ne: "rest \<noteq> []" using "1.prems" by auto
  have le: "vb_malformed vb \<le> vb_malformed ?vb"
    by (cases "blankLine ?line"; cases "good_record ?line") (simp_all add: verify_line_simps)
  consider "\<not> blankLine ?line" "\<not> good_record ?line" | "\<not> list_all good_record (records_of ?rest)"
    using "1.prems" by (subst (asm) records_of_step) (auto simp: Let_def split: if_splits)
  then show ?case
  proof cases
    case 1
    then have "vb_malformed vb < vb_malformed ?vb" by (simp add: verify_line_simps)
    with walk_malformed_mono [of ?vb "Suc n" ?rest] ne show ?thesis by (simp add: walk_unfold [of n rest vb])
  next
    case 2
    have "vb_malformed ?vb < vb_malformed (verifyParseRecords (Suc n) ?rest ?vb)"
      using "1.IH" [OF ne refl refl] 2 by simp
    with le ne show ?thesis by (simp add: walk_unfold [of n rest vb])
  qed
qed

section \<open>The chain\<close>

text \<open>The hash the next event has to name as its predecessor.\<close>

definition tip_of :: "value \<Rightarrow> string" where
  "tip_of e = (let eh = ObjAt e ''event_hash'' in if vkind eh = KStr then vS eh else legacyAnchor e)"

definition chain_tip :: "string \<Rightarrow> value list \<Rightarrow> string" where
  "chain_tip p es = (if es = [] then p else tip_of (last es))"

lemma chain_tip_Cons: "chain_tip p (e # es) = chain_tip (tip_of e) es"
  by (simp add: chain_tip_def)

lemma chain_walk_step:
  "chain_walk i p (e # es) =
     (if vkind (ObjAt e ''event_hash'') \<noteq> KStr then chain_walk (Suc i) (tip_of e) es
      else ((if vS (ObjAt e ''prev_hash'') \<noteq> p then [PPrevHash i] else []) @
            (if eventHash e \<noteq> vS (ObjAt e ''event_hash'') then [PEventHash i] else []) @
            fst (chain_walk (Suc i) (tip_of e) es), Suc (snd (chain_walk (Suc i) (tip_of e) es))))"
  by (simp add: Let_def tip_of_def split: prod.splits)

declare chain_walk.simps(2) [simp del]

lemma chain_walk_append:
  "fst (chain_walk i p (es @ fs)) = fst (chain_walk i p es) @ fst (chain_walk (i + length es) (chain_tip p es) fs)"
  by (induction es arbitrary: i p) (simp_all add: chain_walk_step chain_tip_Cons, simp add: chain_tip_def)

text \<open>The chain holds: every chained event names its predecessor's hash and its own content.\<close>

definition chain_ok :: "value list \<Rightarrow> bool" where
  "chain_ok es \<longleftrightarrow> fst (chain_walk 0 GenesisHash es) = []"

definition linked :: "string \<Rightarrow> value \<Rightarrow> bool" where
  "linked p e \<longleftrightarrow> vkind (ObjAt e ''event_hash'') = KStr \<longrightarrow>
     vS (ObjAt e ''prev_hash'') = p \<and> eventHash e = vS (ObjAt e ''event_hash'')"

lemma chain_ok_snoc: "chain_ok (es @ [e]) \<longleftrightarrow> chain_ok es \<and> linked (chain_tip GenesisHash es) e"
  by (auto simp: chain_ok_def chain_walk_append chain_walk_step linked_def)

lemma chain_ok_Nil [simp]: "chain_ok []"
  by (simp add: chain_ok_def)

lemma chain_ok_linked:
  "chain_ok (es @ e # fs) \<Longrightarrow> linked (chain_tip GenesisHash es) e"
  by (auto simp: chain_ok_def chain_walk_append [of _ _ es "e # fs"] chain_walk_step linked_def split: if_splits)

section \<open>Sequence numbers\<close>

definition seq_is :: "nat \<Rightarrow> value \<Rightarrow> bool" where
  "seq_is i e \<longleftrightarrow> vkind (ObjAt e ''seq'') = KInt \<and> vI (ObjAt e ''seq'') = int i"

lemma seq_break_append:
  "seq_break i (es @ fs) = None \<longleftrightarrow> seq_break i es = None \<and> seq_break (i + length es) fs = None"
  by (induction es arbitrary: i) (auto simp: Let_def)

lemma seq_break_None_iff: "seq_break i es = None \<longleftrightarrow> (\<forall>k<length es. seq_is (i + k) (es ! k))"
proof (induction es arbitrary: i)
  case (Cons e es)
  show ?case
    by (auto simp: Let_def Cons seq_is_def less_Suc_eq_0_disj nth_Cons split: nat.splits)
qed simp

section \<open>The mirror window\<close>

definition window_ok :: "value list \<Rightarrow> value list \<Rightarrow> bool" where
  "window_ok events mirror \<longleftrightarrow>
     length mirror = min (length events) mirrorCap \<and>
     list_all2 valueEq mirror (drop (length events - length mirror) events)"

lemma mirrorCap_pos [simp]: "0 < mirrorCap"
  by (simp add: mirrorCap_def)

lemma mirror_problem_None_iff:
  "mirror_problem events mirror (if length events > mirrorCap then mirrorCap else length events) = None
     \<longleftrightarrow> window_ok events mirror"
proof -
  have m: "(if length events > mirrorCap then mirrorCap else length events) = min (length events) mirrorCap"
    by (simp add: min_def)
  have cap: "mirrorCap \<noteq> 0" by (simp add: mirrorCap_def)
  show ?thesis
  proof (cases "mirror = []")
    case True
    then show ?thesis using cap by (auto simp: mirror_problem_def window_ok_def min_def)
  next
    case False
    then show ?thesis unfolding m
      by (auto simp: mirror_problem_def window_ok_def arraysEq_def Let_def dest: list_all2_lengthD)
  qed
qed

section \<open>A green verdict\<close>

definition clean_ledger :: "string \<Rightarrow> value list \<Rightarrow> bool" where
  "clean_ledger raw es \<longleftrightarrow>
     terminated raw \<and> list_all good_record (records_of raw) \<and> es = map event_of (records_of raw) \<and>
     seq_break 0 es = None \<and> chain_ok es"

definition waivers_ok :: "world \<Rightarrow> value list \<Rightarrow> bool" where
  "waivers_ok w es \<longleftrightarrow> (\<exists>rows. readWaiverRowsR12 w = Inr rows \<and>
     waiver_problems (waived_event_keys es) (waived_row_keys rows) = [])"

definition verify_green :: "env \<Rightarrow> world \<Rightarrow> bool" where
  "verify_green ev w \<longleftrightarrow> (\<exists>v. VerifyLog ev w = (Inr v, w) \<and> lv_OK v)"

text \<open>The state and the events a green verdict is about.\<close>

definition consistent :: "env \<Rightarrow> world \<Rightarrow> value \<Rightarrow> value list \<Rightarrow> bool" where
  "consistent ev w st es \<longleftrightarrow>
     accessible w EventsPath \<and> clean_ledger (content_of EventsPath w) es \<and>
     State ev w = (Inr st, w) \<and>
     (vkind (ObjAt st ''events'') = KArr \<longrightarrow> window_ok es (vA (ObjAt st ''events''))) \<and>
     waivers_ok w es"

lemma ledgerTail_torn: "lt_Torn (ledgerTail raw) \<longleftrightarrow> \<not> terminated raw"
  by (auto simp: ledgerTail_def terminated_def)

lemma finish_fields:
  "vb_events (verifyHashChain (verifySeqContiguity vb)) = vb_events vb"
  "vb_problems (verifyHashChain (verifySeqContiguity vb)) = [] \<longleftrightarrow>
     vb_problems vb = [] \<and> seq_break 0 (vb_events vb) = None \<and> chain_ok (vb_events vb)"
  by (auto simp: verifyHashChain_def verifySeqContiguity_def add_problem_def chain_ok_def
      split: option.splits prod.splits)

lemma verifyStateMirror_OK:
  assumes "State ev w = (Inr st, w)"
  shows "\<exists>vb2. verifyStateMirror ev vb w = (Inr vb2, w) \<and> vb_events vb2 = vb_events vb \<and>
    (vb_problems vb2 = [] \<longleftrightarrow> vb_problems vb = [] \<and>
       (vkind (ObjAt st ''events'') = KArr \<longrightarrow> window_ok (vb_events vb) (vA (ObjAt st ''events''))))"
  using mirror_problem_None_iff [of "vb_events vb" "vA (ObjAt st ''events'')"]
  by (cases "vkind (ObjAt st ''events'') = KArr")
     (auto simp: verifyStateMirror_def bindE_def assms Let_def verifyMirrorWindow_def add_problem_def
      split: option.splits split del: if_split)

lemma verifyWaivers_OK:
  "\<exists>vb2. verifyWaivers vb w = (Inr vb2, w) \<and> vb_events vb2 = vb_events vb \<and>
    (vb_problems vb2 = [] \<longleftrightarrow> vb_problems vb = [] \<and> waivers_ok w (vb_events vb))"
  by (auto simp: verifyWaivers_def waivers_ok_def add_problem_def split: sum.splits)

lemma verify_finish_OK:
  "(\<exists>v. verify_finish ev vb w = (Inr v, w) \<and> lv_OK v) \<longleftrightarrow>
     vb_problems vb = [] \<and> seq_break 0 (vb_events vb) = None \<and> chain_ok (vb_events vb) \<and>
     (\<exists>st. State ev w = (Inr st, w) \<and>
       (vkind (ObjAt st ''events'') = KArr \<longrightarrow> window_ok (vb_events vb) (vA (ObjAt st ''events'')))) \<and>
     waivers_ok w (vb_events vb)"
proof (cases "State ev w")
  case (Pair r w')
  have w': "w' = w" using snd_State [of ev w] Pair by simp
  let ?vb1 = "verifyHashChain (verifySeqContiguity vb)"
  show ?thesis
  proof (cases r)
    case (Inl e)
    then have "verify_finish ev vb w = (Inl e, w)"
      using Pair w' by (simp add: verify_finish_def Let_def bindE_def verifyStateMirror_def)
    with Inl Pair show ?thesis by simp
  next
    case (Inr st)
    with Pair w' have st: "State ev w = (Inr st, w)" by simp
    obtain vb2 where vb2: "verifyStateMirror ev ?vb1 w = (Inr vb2, w)" "vb_events vb2 = vb_events ?vb1"
      "vb_problems vb2 = [] \<longleftrightarrow> vb_problems ?vb1 = [] \<and>
       (vkind (ObjAt st ''events'') = KArr \<longrightarrow> window_ok (vb_events ?vb1) (vA (ObjAt st ''events'')))"
      using verifyStateMirror_OK [OF st, of ?vb1] by blast
    obtain vb3 where vb3: "verifyWaivers vb2 w = (Inr vb3, w)" "vb_events vb3 = vb_events vb2"
      "vb_problems vb3 = [] \<longleftrightarrow> vb_problems vb2 = [] \<and> waivers_ok w (vb_events vb2)"
      using verifyWaivers_OK [of vb2 w] by blast
    have "(\<exists>v. verify_finish ev vb w = (Inr v, w) \<and> lv_OK v) \<longleftrightarrow> vb_problems vb3 = []"
      by (simp add: verify_finish_def Let_def bindE_def vb2(1) vb3(1))
    then show ?thesis using vb2 vb3 st by (simp add: finish_fields)
  qed
qed

lemma verdict_ok_iff: "verify_green ev w \<longleftrightarrow> (\<exists>st es. consistent ev w st es)"
proof (cases rule: ReadFile_cases [of EventsPath w])
  case denied
  then have "\<not> accessible w EventsPath" by (simp add: accessible_def)
  moreover have "\<not> verify_green ev w"
    using denied by (auto simp: verify_green_def VerifyLog_def bindE_def verifyReadLedger_def catchE_def
        vb_start_def verifyPrependTornTail_def add_problem_def no_ledger_tail_def Let_def)
  ultimately show ?thesis by (auto simp: consistent_def)
next
  case absent
  then have a: "accessible w EventsPath" "content_of EventsPath w = []"
    by (simp_all add: accessible_def content_of_def)
  have "VerifyLog ev w = verify_finish ev vb_start w"
    using absent by (simp add: VerifyLog_def bindE_def verifyReadLedger_def catchE_def
        vb_start_def verifyPrependTornTail_def no_ledger_tail_def Let_def)
  then show ?thesis
    using a verify_finish_OK [of ev vb_start w]
    by (auto simp: verify_green_def consistent_def clean_ledger_def terminated_def vb_start_def)
next
  case (read raw)
  then have a: "accessible w EventsPath" "content_of EventsPath w = raw"
    by (simp_all add: accessible_def content_of_def)
  let ?vb = "verifyParseRecords 0 raw (vb_start\<lparr>vb_tail := ledgerTail raw\<rparr>)"
  have V: "VerifyLog ev w = (let vb = verifyPrependTornTail ?vb in
     if vb_malformed vb > 0
     then ret \<lparr>lv_Events = length (vb_events vb) + vb_malformed vb, lv_OK = False,
               lv_Problems = take 10 (vb_problems vb), lv_Chained = 0, lv_LegacyUnchained = 0,
               lv_MalformedLines = vb_malformed vb\<rparr>
     else if \<not> vb_ledgerReadable vb
     then ret \<lparr>lv_Events = 0, lv_OK = False, lv_Problems = take 10 (vb_problems vb), lv_Chained = 0,
               lv_LegacyUnchained = 0, lv_MalformedLines = 0\<rparr>
     else verify_finish ev vb) w"
    using read by (simp add: VerifyLog_def bindE_def verifyReadLedger_def catchE_def)
  have pt: "vb_malformed (verifyPrependTornTail x) = vb_malformed x"
    "vb_events (verifyPrependTornTail x) = vb_events x"
    "vb_ledgerReadable (verifyPrependTornTail x) = vb_ledgerReadable x" for x
    by (simp_all add: verifyPrependTornTail_def)
  show ?thesis
  proof (cases "list_all good_record (records_of raw)")
    case False
    from walk_bad [OF this, of "vb_start\<lparr>vb_tail := ledgerTail raw\<rparr>" 0] have "0 < vb_malformed ?vb" by simp
    then have "\<not> verify_green ev w" by (auto simp: verify_green_def V pt Let_def)
    with False a show ?thesis by (auto simp: consistent_def clean_ledger_def)
  next
    case True
    have vb: "?vb = (vb_start\<lparr>vb_tail := ledgerTail raw\<rparr>)\<lparr>vb_events := map event_of (records_of raw)\<rparr>"
      using walk_good [OF True, of 0 "vb_start\<lparr>vb_tail := ledgerTail raw\<rparr>"] by (simp add: vb_start_def)
    have pr: "vb_problems (verifyPrependTornTail ?vb) = [] \<longleftrightarrow> terminated raw"
      unfolding vb by (simp add: verifyPrependTornTail_def vb_start_def ledgerTail_torn)
    have "VerifyLog ev w = verify_finish ev (verifyPrependTornTail ?vb) w"
      unfolding V Let_def pt vb by (simp add: vb_start_def)
    then show ?thesis
      using verify_finish_OK [of ev "verifyPrependTornTail ?vb" w] a True pr
      by (auto simp: verify_green_def consistent_def clean_ledger_def pt vb)
  qed
qed

end
