(* ===== verification/LogFacts.thy ===== *)
theory LogFacts
  imports VerifyFacts
begin

text \<open>
  What a call of \<open>Log\<close> did: the decisions it took on the ledger and the mirror it found, the event it
  sealed, and the two files it wrote. Every theorem about the writer rests on these inversions.
\<close>

section \<open>Builder steps\<close>

lemma logLines_Inr:
  "logLines w = (Inr lines, w') \<longleftrightarrow> w' = w \<and> accessible w EventsPath \<and> lines = records_of (content_of EventsPath w)"
  by (cases rule: ReadFile_cases [of EventsPath w])
     (auto simp: logLines_def catchE_def accessible_def content_of_def)

lemma snd_logLines [world_simps]: "snd (logLines w) = w"
  by (cases rule: ReadFile_cases [of EventsPath w]) (auto simp: logLines_def catchE_def)

lemma logProbeGenesis_Inr:
  "logProbeGenesis ev lb w = (Inr lb', w') \<longleftrightarrow> w' = w \<and>
     (if lb_lines lb = []
      then (\<exists>st. State ev w = (Inr st, w) \<and>
              lb' = lb\<lparr>lb_rewoundDropped := length (vA (ObjAt st ''events'')),
                       lb_rewoundCapped := length (vA (ObjAt st ''events'')) \<ge> mirrorCap\<rparr>)
      else lb' = lb)"
  using snd_State [of ev w]
  by (auto simp: logProbeGenesis_def bindE_Inr Let_def)

lemma snd_logProbeGenesis [world_simps]: "snd (logProbeGenesis ev lb w) = w"
  unfolding logProbeGenesis_def by (auto intro!: snd_bindE simp: world_simps Let_def)

lemma logParseChainHead_Inr:
  "logParseChainHead lb w = (Inr lb', w') \<longleftrightarrow> w' = w \<and>
     (if lb_lines lb \<noteq> []
      then (\<exists>v. ParseOrdered (last (lb_lines lb)) = Some v \<and> lb' = lb\<lparr>lb_last := Some v\<rparr>)
      else lb' = lb)"
  by (auto simp: logParseChainHead_def bindE_Inr world_simps)

lemma snd_logParseChainHead [world_simps]: "snd (logParseChainHead lb w) = w"
  unfolding logParseChainHead_def by (auto intro!: snd_bindE simp: world_simps)

text \<open>The lag decision, as a relation between the ledger, the mirror and what the heal adopts.\<close>

definition lag_decision :: "string list \<Rightarrow> value \<Rightarrow> value list \<Rightarrow> nat \<Rightarrow> bool" where
  "lag_decision lines mirror adoptEvents adopted \<longleftrightarrow>
     (if vkind mirror = KArr \<and> length (vA mirror) < length lines
      then classifyLaggingMirror lines (vA mirror) = Inr (adoptEvents, adopted)
      else adopted = 0 \<and> (vkind mirror = KArr \<longrightarrow> length (vA mirror) \<le> length lines))"

lemma logClassifyMirrorLag_Inr:
  assumes "logClassifyMirrorLag ev lb w = (Inr lb', w')" "lb_lagAdopted lb = 0" "lb_last lb \<noteq> None"
  shows "w' = w \<and> (\<exists>st evs n. State ev w = (Inr st, w) \<and> lag_decision (lb_lines lb) (ObjAt st ''events'') evs n \<and>
           lb_lagAdopted lb' = n \<and> (n > 0 \<longrightarrow> lb_lagEvents lb' = evs) \<and>
           lb' = lb\<lparr>lb_lagEvents := lb_lagEvents lb', lb_lagAdopted := n\<rparr>)"
proof -
  from assms obtain st w1 where st: "State ev w = (Inr st, w1)" by (auto simp: logClassifyMirrorLag_def bindE_Inr)
  with snd_State [of ev w] have w1: "w1 = w" by simp
  let ?m = "ObjAt st ''events''"
  show ?thesis
  proof (cases "vkind ?m = KArr \<and> length (vA ?m) < length (lb_lines lb)")
    case True
    with assms st w1 obtain evs n where c: "classifyLaggingMirror (lb_lines lb) (vA ?m) = Inr (evs, n)"
        "lb' = lb\<lparr>lb_lagEvents := evs, lb_lagAdopted := n\<rparr>" "w' = w"
      by (auto simp: logClassifyMirrorLag_def bindE_def Let_def split: sum.splits prod.splits)
    have "lag_decision (lb_lines lb) ?m evs n" using True c by (simp add: lag_decision_def)
    with st w1 c show ?thesis by auto
  next
    case False
    with assms st w1 have "lb' = lb" "w' = w" "vkind ?m = KArr \<longrightarrow> length (vA ?m) \<le> length (lb_lines lb)"
      by (auto simp: logClassifyMirrorLag_def bindE_def Let_def split: if_splits)
    moreover from this False have "lag_decision (lb_lines lb) ?m [] 0" by (auto simp: lag_decision_def)
    ultimately show ?thesis using st w1 assms(2) by force
  qed
qed

lemma snd_logClassifyMirrorLag [world_simps]: "snd (logClassifyMirrorLag ev lb w) = w"
  unfolding logClassifyMirrorLag_def
  by (auto intro!: snd_bindE simp: world_simps Let_def split: sum.splits prod.splits)

text \<open>The disclosures and the sealing only move the clock and extend the data.\<close>

definition only_clock :: "world \<Rightarrow> world \<Rightarrow> bool" where
  "only_clock w w' \<longleftrightarrow> files w' = files w \<and> faults w' = faults w \<and> plock w' = plock w \<and> flocks w' = flocks w"

lemma only_clock_refl [simp]: "only_clock w w"
  and only_clock_trans: "only_clock w w1 \<Longrightarrow> only_clock w1 w2 \<Longrightarrow> only_clock w w2"
  and only_clock_tick [simp]: "only_clock w (w\<lparr>ticks := t\<rparr>)"
  by (simp_all add: only_clock_def)

definition data_of :: "logBuilder \<Rightarrow> value" where
  "data_of lb = (if vkind (lb_data lb) \<noteq> KObj then VObj [] else lb_data lb)"

lemma logDiscloseRewind_Inr:
  assumes "logDiscloseRewind ev lb w = (Inr lb', w')"
  shows "only_clock w w' \<and> lb' = lb\<lparr>lb_data := lb_data lb'\<rparr> \<and>
    (if lb_rewoundDropped lb > 0
     then \<exists>extra t. lb_data lb' = set_field (data_of lb) ''ledger_rewound''
            (VObj ((''dropped_tail'', VInt (int (lb_rewoundDropped lb))) # extra @ [(''at'', VStr (now ev t))]))
          \<and> (lb_rewoundCapped lb \<longrightarrow> extra = [(''mirror_capped'', VBool True), (''dropped_tail_meaning'', VStr cap_disclosure)])
          \<and> (\<not> lb_rewoundCapped lb \<longrightarrow> extra = [])
     else lb_data lb' = lb_data lb)"
  using assms
  by (auto simp: logDiscloseRewind_def bindE_Inr world_simps Let_def data_of_def split: if_splits)

lemma logDiscloseLagHeal_Inr:
  assumes "logDiscloseLagHeal ev lb w = (Inr lb', w')"
  shows "only_clock w w' \<and> lb' = lb\<lparr>lb_data := lb_data lb'\<rparr> \<and>
    (if lb_lagAdopted lb > 0
     then \<exists>t. lb_data lb' = set_field (data_of lb) ''mirror_lag_healed''
            (VObj [(''adopted_from_log'', VInt (int (lb_lagAdopted lb))), (''at'', VStr (now ev t))])
     else lb_data lb' = lb_data lb)"
  using assms
  by (auto simp: logDiscloseLagHeal_def bindE_Inr world_simps Let_def data_of_def split: if_splits)

lemma logDiscloseRewind_total: "\<exists>lb' w'. logDiscloseRewind ev lb w = (Inr lb', w')"
  by (simp add: logDiscloseRewind_def bindE_def nowIso_def Let_def)

lemma logDiscloseLagHeal_total: "\<exists>lb' w'. logDiscloseLagHeal ev lb w = (Inr lb', w')"
  by (simp add: logDiscloseLagHeal_def bindE_def nowIso_def Let_def)

definition seal :: "kv list \<Rightarrow> value" where
  "seal body = VObj (body @ [(''event_hash'', VStr (eventHash (VObj body)))])"

lemma logBuildEvent_Inr:
  "logBuildEvent ev lb ty refV prev w = (Inr e, w') \<longleftrightarrow>
     e = seal (event_body lb (now ev (ticks w)) ty refV prev) \<and> w' = w\<lparr>ticks := Suc (ticks w)\<rparr>"
  by (auto simp: logBuildEvent_def bindE_Inr world_simps Let_def seal_def)

section \<open>The commit\<close>

definition mirror_base :: "logBuilder \<Rightarrow> value \<Rightarrow> value list" where
  "mirror_base lb st =
     (if lb_lagAdopted lb > 0 then lb_lagEvents lb
      else if lb_rewoundDropped lb > 0 then []
      else if vkind (ObjAt st ''events'') = KArr then vA (ObjAt st ''events'') else [])"

definition mirrored :: "logBuilder \<Rightarrow> value \<Rightarrow> value \<Rightarrow> value" where
  "mirrored lb st e = set_field st ''events'' (VArr (tailEvents (mirror_base lb st) e))"

lemma logCommit_Inr:
  assumes "logCommit ev lb e w = (Inr e', w')"
  obtains st t where "e' = e" "State ev w = (Inr st, w)" "isASCII (CanonSpaced e)" "accessible w EventsPath"
    "terminated (content_of EventsPath w)"
    "kv_find (files w') EventsPath = Some (File True (content_of EventsPath w @ CanonSpaced e @ NL))"
    "kv_find (files w') StatePath = Some (File True (DumpIndented (stamped ev t (mirrored lb st e)) @ NL))"
    "\<forall>p. p \<noteq> EventsPath \<longrightarrow> p \<noteq> StatePath \<longrightarrow> kv_find (files w') p = kv_find (files w) p"
    "validates ev StateSchema (stamped ev t (mirrored lb st e))"
proof -
  from assms obtain w1 st w2 u where a: "AppendJsonlAscii EventsPath (CanonSpaced e) w = (Inr u, w1)"
      and s: "State ev w1 = (Inr st, w2)"
      and sv: "SaveState ev (mirrored lb st e) w2 = (Inr (), w')" and e: "e' = e"
    by (auto simp: logCommit_def bindE_Inr Let_def mirrored_def mirror_base_def split: if_splits)
  from s snd_State [of ev w1] have w2: "w2 = w1" by simp
  from a have A: "isASCII (CanonSpaced e)" "accessible w EventsPath" "terminated (content_of EventsPath w)"
      and w1: "w1 = spend (put_file EventsPath (content_of EventsPath w @ CanonSpaced e @ NL) w)"
    by (auto simp: AppendJsonlAscii_def appendJsonlChecked_Inr terminated_def)
  have stp: "kv_find (files w1) StatePath = kv_find (files w) StatePath" by (simp add: w1 world_simps)
  have st: "State ev w = (Inr st, w)" using State_transfer [OF s, of w] stp by simp
  then have acc: "accessible w1 StatePath" using stp by (auto simp: State_Inr accessible_def)
  note S = SaveState_Inr [OF sv [unfolded w2]]
  show ?thesis
  proof (rule that [OF e st A])
    show "kv_find (files w') EventsPath = Some (File True (content_of EventsPath w @ CanonSpaced e @ NL))"
      using S(2) [of EventsPath] A(2) by (simp add: w1 world_simps)
    show "kv_find (files w') StatePath = Some (File True (DumpIndented (stamped ev (ticks w1) (mirrored lb st e)) @ NL))"
      using S(1) acc by simp
    show "\<forall>p. p \<noteq> EventsPath \<longrightarrow> p \<noteq> StatePath \<longrightarrow> kv_find (files w') p = kv_find (files w) p"
      using S(2) by (simp add: w1 world_simps)
    show "validates ev StateSchema (stamped ev (ticks w1) (mirrored lb st e))" by (rule S(3))
  qed
qed

section \<open>A successful append\<close>

definition ref_value :: "string option \<Rightarrow> value" where
  "ref_value ref = (case ref of None \<Rightarrow> VNull | Some r \<Rightarrow> VStr r)"

definition data_value :: "value option \<Rightarrow> value" where
  "data_value data = (case data of None \<Rightarrow> VObj [] | Some d \<Rightarrow> d)"

definition prev_for :: "string list \<Rightarrow> string" where
  "prev_for lines = (if lines = [] then GenesisHash else tip_of (event_of (last lines)))"

text \<open>\<open>logged\<close> collects everything the inversion of a successful \<open>Log\<close> yields.\<close>

definition decided :: "env \<Rightarrow> world \<Rightarrow> string list \<Rightarrow> value \<Rightarrow> logBuilder \<Rightarrow> bool" where
  "decided ev w lines st lb \<longleftrightarrow>
     lines = records_of (content_of EventsPath w) \<and> State ev w = (Inr st, w) \<and> lb_lines lb = lines \<and>
     (lines \<noteq> [] \<longrightarrow> ParseOrdered (last lines) \<noteq> None) \<and>
     lb_rewoundDropped lb = (if lines = [] then length (vA (ObjAt st ''events'')) else 0) \<and>
     lb_rewoundCapped lb = (lines = [] \<and> length (vA (ObjAt st ''events'')) \<ge> mirrorCap) \<and>
     (\<exists>evs. (if lines = [] then lb_lagAdopted lb = 0
             else lag_decision lines (ObjAt st ''events'') evs (lb_lagAdopted lb)) \<and>
            (lb_lagAdopted lb > 0 \<longrightarrow> lb_lagEvents lb = evs))"

lemma decidedD:
  assumes "decided ev w lines st lb"
  shows "lines = records_of (content_of EventsPath w)" "State ev w = (Inr st, w)" "lb_lines lb = lines"
    "lb_rewoundDropped lb = (if lines = [] then length (vA (ObjAt st ''events'')) else 0)"
    "lb_rewoundCapped lb = (lines = [] \<and> length (vA (ObjAt st ''events'')) \<ge> mirrorCap)"
    "lines \<noteq> [] \<Longrightarrow> ParseOrdered (last lines) \<noteq> None" "lines = [] \<Longrightarrow> lb_lagAdopted lb = 0"
  using assms unfolding decided_def by auto

lemma decided_lag:
  assumes "decided ev w lines st lb" "lines \<noteq> []"
  obtains evs where "lag_decision lines (ObjAt st ''events'') evs (lb_lagAdopted lb)"
    "lb_lagAdopted lb > 0 \<longrightarrow> lb_lagEvents lb = evs"
  using assms unfolding decided_def by auto

definition disclosed :: "env \<Rightarrow> value \<Rightarrow> logBuilder \<Rightarrow> bool" where
  "disclosed ev d lb \<longleftrightarrow> (\<exists>d1.
     (if lb_rewoundDropped lb > 0
      then \<exists>extra t. d1 = set_field (if vkind d \<noteq> KObj then VObj [] else d) ''ledger_rewound''
             (VObj ((''dropped_tail'', VInt (int (lb_rewoundDropped lb))) # extra @ [(''at'', VStr (now ev t))]))
           \<and> (lb_rewoundCapped lb \<longrightarrow> extra = [(''mirror_capped'', VBool True), (''dropped_tail_meaning'', VStr cap_disclosure)])
           \<and> (\<not> lb_rewoundCapped lb \<longrightarrow> extra = [])
      else d1 = d) \<and>
     (if lb_lagAdopted lb > 0
      then \<exists>t. lb_data lb = set_field (if vkind d1 \<noteq> KObj then VObj [] else d1) ''mirror_lag_healed''
             (VObj [(''adopted_from_log'', VInt (int (lb_lagAdopted lb))), (''at'', VStr (now ev t))])
      else lb_data lb = d1))"

text \<open>A step that updates one field keeps the others.\<close>

lemma keep_data:
  assumes "lb' = lb\<lparr>lb_data := d\<rparr>"
  shows "lb_lines lb' = lb_lines lb" "lb_last lb' = lb_last lb" "lb_rewoundDropped lb' = lb_rewoundDropped lb"
    "lb_rewoundCapped lb' = lb_rewoundCapped lb" "lb_lagAdopted lb' = lb_lagAdopted lb" "lb_lagEvents lb' = lb_lagEvents lb"
  using assms by simp_all

lemma keep_last:
  assumes "lb' = lb\<lparr>lb_last := l\<rparr>"
  shows "lb_lines lb' = lb_lines lb" "lb_rewoundDropped lb' = lb_rewoundDropped lb" "lb_data lb' = lb_data lb"
    "lb_rewoundCapped lb' = lb_rewoundCapped lb" "lb_lagAdopted lb' = lb_lagAdopted lb" "lb_lagEvents lb' = lb_lagEvents lb"
  using assms by simp_all

lemma keep_lag:
  assumes "lb' = lb\<lparr>lb_lagEvents := es, lb_lagAdopted := n\<rparr>"
  shows "lb_lines lb' = lb_lines lb" "lb_rewoundDropped lb' = lb_rewoundDropped lb" "lb_data lb' = lb_data lb"
    "lb_rewoundCapped lb' = lb_rewoundCapped lb" "lb_last lb' = lb_last lb"
  using assms by simp_all

lemma bindE_pureD:
  assumes "snd (m w) = w" "bindE m k w = (r, w')" "\<not> (\<exists>e. r = Inl e \<and> w' = w)"
  shows "\<exists>x. m w = (Inr x, w) \<and> k x w = (r, w')"
  using assms by (cases "m w") (auto simp: bindE_def split: sum.splits)

text \<open>Once the four reading steps have answered, the rest of the call is the commit.\<close>

lemma Log_reaches_commit:
  assumes lk: "LockProcess w = (Inr (), wa)" and L: "logLines wa = (Inr lines, wa)"
    and g: "logProbeGenesis ev (lb_start lines) wa = (Inr lb1, wa)" and h: "logParseChainHead lb1 wa = (Inr lb2, wa)"
    and c: "logClassifyMirrorLag ev lb2 wa = (Inr lb3, wa)"
  obtains st lb t e w7 where
    "decided ev w lines st lb" "disclosed ev (data_value data) lb"
    "e = seal (event_body lb (now ev t) ty (ref_value ref) (prev_for lines))"
    "accessible w EventsPath" "files w7 = files w" "faults w7 = faults w" "flocks w7 = flocks wa"
    "Log ev ty ref data w = (case logCommit ev lb e w7 of (r, w8) \<Rightarrow> (r, UnlockProcess w8))"
proof -
  note fr = LockProcess_frame [OF lk]
  obtain lb5 w5 where d5: "logDiscloseRewind ev (lb3\<lparr>lb_data := data_value data\<rparr>) wa = (Inr lb5, w5)"
    using logDiscloseRewind_total by blast
  obtain lb6 w6 where d6: "logDiscloseLagHeal ev lb5 w5 = (Inr lb6, w6)" using logDiscloseLagHeal_total by blast
  define e0 where "e0 = seal (event_body lb6 (now ev (ticks w6)) ty (ref_value ref) (logPrevHash lb3))"
  let ?w7 = "w6\<lparr>ticks := Suc (ticks w6)\<rparr>"
  have d7: "logBuildEvent ev lb6 ty (ref_value ref) (logPrevHash lb3) w6 = (Inr e0, ?w7)"
    by (simp add: logBuildEvent_Inr e0_def)
  have run: "Log ev ty ref data w = (case logCommit ev lb6 e0 ?w7 of (r, w8) \<Rightarrow> (r, UnlockProcess w8))"
    by (simp add: Log_def with_lock_def bindE_step [of LockProcess w, OF lk] bindE_step [of logLines wa, OF L]
        bindE_step [of "logProbeGenesis ev (lb_start lines)" wa, OF g]
        bindE_step [of "logParseChainHead lb1" wa, OF h] bindE_step [of "logClassifyMirrorLag ev lb2" wa, OF c]
        data_value_def [symmetric] ref_value_def [symmetric] Let_def
        bindE_step [of "logDiscloseRewind ev (lb3\<lparr>lb_data := data_value data\<rparr>)" wa, OF d5]
        bindE_step [of "logDiscloseLagHeal ev lb5" w5, OF d6]
        bindE_step [of "logBuildEvent ev lb6 ty (ref_value ref) (logPrevHash lb3)" w6, OF d7])
  note D5 = logDiscloseRewind_Inr [OF d5] and D6 = logDiscloseLagHeal_Inr [OF d6]
  have f7: "files ?w7 = files w" "faults ?w7 = faults w" "flocks ?w7 = flocks wa" using D5 D6 fr by (simp_all add: only_clock_def)
  have L2: "accessible w EventsPath" "lines = records_of (content_of EventsPath w)"
    using L fr by (simp_all add: logLines_Inr accessible_def content_of_def)
  have "\<exists>st. State ev wa = (Inr st, wa)"
  proof (cases "lines = []")
    case True
    with g show ?thesis by (auto simp: logProbeGenesis_Inr lb_start_def)
  next
    case False
    with g have "lb1 = lb_start lines" by (simp add: logProbeGenesis_Inr lb_start_def)
    with h False have "lb_last lb2 \<noteq> None" by (auto simp: logParseChainHead_Inr lb_start_def)
    with c show ?thesis
      using State_pair [of ev wa] by (auto simp: logClassifyMirrorLag_def bindE_Inr)
  qed
  then obtain st where sta: "State ev wa = (Inr st, wa)" by blast
  have stw: "State ev w = (Inr st, w)" using State_transfer [OF sta, of w] fr by simp
  have G: "lb_lines lb1 = lines \<and> lb_last lb1 = None \<and> lb_lagAdopted lb1 = 0
     \<and> lb_rewoundDropped lb1 = (if lines = [] then length (vA (ObjAt st ''events'')) else 0)
     \<and> lb_rewoundCapped lb1 = (lines = [] \<and> length (vA (ObjAt st ''events'')) \<ge> mirrorCap)"
    using g sta by (auto simp: logProbeGenesis_Inr lb_start_def split: if_splits)
  have H: "lb2 = lb1\<lparr>lb_last := lb_last lb2\<rparr> \<and> (if lines = [] then lb_last lb2 = None
       else ParseOrdered (last lines) = lb_last lb2 \<and> lb_last lb2 \<noteq> None)"
    using h G by (auto simp: logParseChainHead_Inr split: if_splits)
  have L3: "lb3 = lb2\<lparr>lb_lagEvents := lb_lagEvents lb3, lb_lagAdopted := lb_lagAdopted lb3\<rparr> \<and>
      (\<exists>evs. (if lines = [] then lb_lagAdopted lb3 = 0
             else lag_decision lines (ObjAt st ''events'') evs (lb_lagAdopted lb3)) \<and>
            (lb_lagAdopted lb3 > 0 \<longrightarrow> lb_lagEvents lb3 = evs))"
  proof (cases "lines = []")
    case True
    with H have l2: "lb_last lb2 = None" by simp
    with c have "lb3 = lb2" by (simp add: logClassifyMirrorLag_def)
    moreover have "lb_lagAdopted lb2 = 0" using keep_last(5) [OF conjunct1 [OF H]] G by simp
    ultimately show ?thesis using True by auto
  next
    case False
    have "lb_lagAdopted lb2 = 0" "lb_lines lb2 = lines" using keep_last(1,5) [OF conjunct1 [OF H]] G by simp_all
    with logClassifyMirrorLag_Inr [OF c] H False sta show ?thesis by auto
  qed
  have flds: "lb_lines lb6 = lines" "lb_rewoundDropped lb6 = lb_rewoundDropped lb1" "lb_rewoundCapped lb6 = lb_rewoundCapped lb1"
     "lb_lagAdopted lb6 = lb_lagAdopted lb3" "lb_lagEvents lb6 = lb_lagEvents lb3" "lb_last lb3 = lb_last lb2"
     "lb_rewoundDropped lb5 = lb_rewoundDropped lb1" "lb_rewoundCapped lb5 = lb_rewoundCapped lb1" "lb_lagAdopted lb5 = lb_lagAdopted lb3"
     "lb_rewoundDropped lb3 = lb_rewoundDropped lb1" "lb_rewoundCapped lb3 = lb_rewoundCapped lb1"
    using keep_data [OF conjunct1 [OF conjunct2 [OF D5]]] keep_data [OF conjunct1 [OF conjunct2 [OF D6]]]
      keep_lag [OF conjunct1 [OF L3]] keep_last [OF conjunct1 [OF H]] G by simp_all
  have upd: "lb_rewoundDropped (x\<lparr>lb_data := d\<rparr>) = lb_rewoundDropped x" "lb_data (x\<lparr>lb_data := d\<rparr>) = d"
    "lb_rewoundCapped (x\<lparr>lb_data := d\<rparr>) = lb_rewoundCapped x" for x :: logBuilder and d
    by simp_all
  have ne: "lines \<noteq> [] \<longrightarrow> ParseOrdered (last lines) \<noteq> None"
    using conjunct2 [OF H] by (cases "lines = []") auto
  have dec: "decided ev w lines st lb6"
    unfolding decided_def flds using ne stw G conjunct2 [OF L3] L2(2) by blast
  have dis: "disclosed ev (data_value data) lb6"
    unfolding disclosed_def
    using conjunct2 [OF conjunct2 [OF D5]] conjunct2 [OF conjunct2 [OF D6]]
    by (intro exI [of _ "lb_data lb5"]) (simp only: flds data_of_def upd simp_thms)
  have prev: "logPrevHash lb3 = prev_for lines"
    using H by (auto simp: logPrevHash_def prev_for_def flds tip_of_def event_of_def Let_def split: option.splits if_splits)
  from e0_def have "e0 = seal (event_body lb6 (now ev (ticks w6)) ty (ref_value ref) (prev_for lines))" by (simp only: prev)
  from that [OF dec dis this L2(1) f7 run] show ?thesis .
qed

text \<open>Either the call stopped before touching a file, or it reached the commit with these decisions.\<close>

lemma Log_cases:
  assumes "Log ev ty ref data w = (r, w')"
  obtains (early) e where "r = Inl e" "files w' = files w"
  | (commit) lines st lb t e w7 w8 where
    "decided ev w lines st lb" "disclosed ev (data_value data) lb"
    "e = seal (event_body lb (now ev t) ty (ref_value ref) (prev_for lines))"
    "accessible w EventsPath" "files w7 = files w" "logCommit ev lb e w7 = (r, w8)" "files w' = files w8"
proof (cases "LockProcess w")
  case (Pair rl wa)
  note fr = LockProcess_frame [OF Pair]
  show ?thesis
  proof (cases rl)
    case (Inl e)
    with assms Pair have "r = Inl e" "w' = wa" by (simp_all add: Log_def with_lock_def bindE_def)
    with early [of e] fr show ?thesis by simp
  next
    case (Inr u)
    then have lk: "LockProcess w = (Inr (), wa)" using Pair by simp
    let ?k3 = "\<lambda>lb3. bindE (logDiscloseRewind ev (lb3\<lparr>lb_data := data_value data\<rparr>)) (\<lambda>lb5.
           bindE (logDiscloseLagHeal ev lb5) (\<lambda>lb6.
           bindE (logBuildEvent ev lb6 ty (ref_value ref) (logPrevHash lb3)) (\<lambda>event. logCommit ev lb6 event)))"
    let ?k2 = "\<lambda>lb2. bindE (logClassifyMirrorLag ev lb2) ?k3"
    let ?k1 = "\<lambda>lb1. bindE (logParseChainHead lb1) ?k2"
    let ?k0 = "\<lambda>lines. bindE (logProbeGenesis ev (lb_start lines)) ?k1"
    have "Log ev ty ref data w = (case bindE logLines ?k0 wa of (r, w2) \<Rightarrow> (r, UnlockProcess w2))"
      using lk by (simp add: Log_def with_lock_def bindE_def [of LockProcess] Let_def data_value_def ref_value_def)
    with assms obtain wb where b: "bindE logLines ?k0 wa = (r, wb)" and wb: "files w' = files wb"
      by (auto split: prod.splits simp: world_simps)
    show ?thesis
    proof (cases "\<exists>e. r = Inl e \<and> wb = wa")
      case True
      then show ?thesis using early wb fr by auto
    next
      case go: False
      from bindE_pureD [OF snd_logLines b go] obtain lines where L: "logLines wa = (Inr lines, wa)" and b1: "?k0 lines wa = (r, wb)"
        by (elim exE conjE)
      from bindE_pureD [OF snd_logProbeGenesis b1 go] obtain lb1 where
        g: "logProbeGenesis ev (lb_start lines) wa = (Inr lb1, wa)" and b2: "?k1 lb1 wa = (r, wb)" by (elim exE conjE)
      from bindE_pureD [OF snd_logParseChainHead b2 go] obtain lb2 where
        h: "logParseChainHead lb1 wa = (Inr lb2, wa)" and b3: "?k2 lb2 wa = (r, wb)" by (elim exE conjE)
      from bindE_pureD [OF snd_logClassifyMirrorLag b3 go] obtain lb3 where
        c: "logClassifyMirrorLag ev lb2 wa = (Inr lb3, wa)" by (elim exE conjE)
      obtain st lb t e w7 where C: "decided ev w lines st lb" "disclosed ev (data_value data) lb"
          "e = seal (event_body lb (now ev t) ty (ref_value ref) (prev_for lines))"
          "accessible w EventsPath" "files w7 = files w" "faults w7 = faults w" "flocks w7 = flocks wa"
          "Log ev ty ref data w = (case logCommit ev lb e w7 of (r, w8) \<Rightarrow> (r, UnlockProcess w8))"
        by (rule Log_reaches_commit [OF lk L g h c])
      obtain r8 w8 where w8: "logCommit ev lb e w7 = (r8, w8)" by (cases "logCommit ev lb e w7")
      with C(8) assms have "r8 = r" "files w' = files w8" by (auto simp: world_simps)
      with commit [OF C(1-5)] w8 show ?thesis by blast
    qed
  qed
qed

lemma Log_Inr:
  assumes "Log ev ty ref data w = (Inr e, w')"
  obtains lines st lb t t' where
    "decided ev w lines st lb" "disclosed ev (data_value data) lb"
    "e = seal (event_body lb (now ev t) ty (ref_value ref) (prev_for lines))"
    "isASCII (CanonSpaced e)" "accessible w EventsPath" "terminated (content_of EventsPath w)"
    "kv_find (files w') EventsPath = Some (File True (content_of EventsPath w @ CanonSpaced e @ NL))"
    "kv_find (files w') StatePath = Some (File True (DumpIndented (stamped ev t' (mirrored lb st e)) @ NL))"
    "\<forall>p. p \<noteq> EventsPath \<longrightarrow> p \<noteq> StatePath \<longrightarrow> kv_find (files w') p = kv_find (files w) p"
    "validates ev StateSchema (stamped ev t' (mirrored lb st e))"
proof (cases rule: Log_cases [OF assms])
  case (1 x)
  then show ?thesis by simp
next
  case (2 lines st0 lb t e0 w7 w8)
  from 2(6) obtain st t' where C: "e = e0" "State ev w7 = (Inr st, w7)" "isASCII (CanonSpaced e0)" "accessible w7 EventsPath"
    "terminated (content_of EventsPath w7)"
    "kv_find (files w8) EventsPath = Some (File True (content_of EventsPath w7 @ CanonSpaced e0 @ NL))"
    "kv_find (files w8) StatePath = Some (File True (DumpIndented (stamped ev t' (mirrored lb st e0)) @ NL))"
    "\<forall>p. p \<noteq> EventsPath \<longrightarrow> p \<noteq> StatePath \<longrightarrow> kv_find (files w8) p = kv_find (files w7) p"
    "validates ev StateSchema (stamped ev t' (mirrored lb st e0))"
    by (rule logCommit_Inr)
  have cw: "content_of p w7 = content_of p w" for p using 2(5) by (simp add: content_of_def)
  have "State ev w = (Inr st, w)" using State_transfer [OF C(2), of w] 2(5) by simp
  with 2(1) have st: "st = st0" by (simp add: decided_def)
  show ?thesis
    by (rule that [OF 2(1,2), of t t']) (use C 2 cw st in auto)
qed

end
