(* ===== verification/LogSound.thy ===== *)
theory LogSound
  imports LogFacts
begin

text \<open>
  Soundness of the log writer: from a verified campaign every successful \<open>Log\<close> leads to a verified
  campaign; from a mirror that lags the ledger it heals to one; and on a refusal it leaves every file
  as it was.
\<close>

section \<open>Assumptions on what comes from outside\<close>

text \<open>The clock prints UTF-8 (it prints ASCII digits and punctuation).\<close>

definition clock_ok :: "env \<Rightarrow> bool" where
  "clock_ok ev \<longleftrightarrow> (\<forall>t. valid_utf8 (now ev t))"

text \<open>The campaign_state schema demands an object with an array of events.\<close>

definition schema_ok :: "env \<Rightarrow> bool" where
  "schema_ok ev \<longleftrightarrow> (\<forall>v. validates ev StateSchema v \<longrightarrow> vkind v = KObj \<and> vkind (ObjAt v ''events'') = KArr)"

text \<open>The arguments of a call: UTF-8 names, well-formed data.\<close>

definition args_ok :: "string \<Rightarrow> string option \<Rightarrow> value option \<Rightarrow> bool" where
  "args_ok ty ref data \<longleftrightarrow> valid_utf8 ty \<and> (case ref of None \<Rightarrow> True | Some r \<Rightarrow> valid_utf8 r) \<and>
     (case data of None \<Rightarrow> True | Some d \<Rightarrow> wf_value d)"

text \<open>The ledger's size fits an \<open>int64\<close>, as any Go file size does.\<close>

definition size_ok :: "world \<Rightarrow> bool" where
  "size_ok w \<longleftrightarrow> int64_range (int (length (content_of EventsPath w)))"

lemma int64_range_le: "int64_range (int n) \<Longrightarrow> m \<le> n \<Longrightarrow> int64_range (int m)"
  by (simp add: int64_range_def)

section \<open>Windows\<close>

lemma window_nil [simp]: "window_ok [] []"
  by (simp add: window_ok_def)

lemma valueEq_refl [simp]: "valueEq v v" and valueEq_sym: "valueEq v u \<longleftrightarrow> valueEq u v"
  and valueEq_norm [simp]: "valueEq v (keysorted v)"
  by (auto simp: valueEq_def)

lemma window_snoc:
  assumes "window_ok es m" "valueEq e e'" shows "window_ok (es @ [e']) (tailEvents m e)"
proof (cases "length m \<ge> mirrorCap")
  case True
  with assms(1) have m: "length m = mirrorCap" "mirrorCap \<le> length es" by (auto simp: window_ok_def min_def split: if_splits)
  have "list_all2 valueEq (drop 1 m) (drop 1 (drop (length es - length m) es))"
    using assms(1) unfolding window_ok_def by (intro list_all2_dropI) blast
  moreover have "drop 1 (drop (length es - length m) es) = drop (length es - 999) es"
  proof -
    have "Suc (length es - 1000) = length es - 999" using m by (simp add: mirrorCap_def)
    with m show ?thesis by (simp add: mirrorCap_def)
  qed
  ultimately show ?thesis using m assms(2) True
    by (auto simp: window_ok_def tailEvents_def mirrorCap_def Suc_diff_le intro!: list_all2_appendI)
next
  case False
  with assms(1) have "length m = length es" "list_all2 valueEq m es" by (auto simp: window_ok_def min_def split: if_splits)
  with assms(2) False show ?thesis by (auto simp: window_ok_def tailEvents_def intro!: list_all2_appendI)
qed

lemma window_self: "window_ok es (drop (length es - min (length es) mirrorCap) es)"
  by (simp add: window_ok_def list_all2_same)

text \<open>Adopting the whole ledger and applying the tail rule gives the window of the longer ledger.\<close>

lemma window_adopt: "valueEq e e' \<Longrightarrow> window_ok (es @ [e']) (tailEvents es e)"
proof (cases "length es \<ge> mirrorCap")
  case True
  assume "valueEq e e'"
  then have "list_all2 valueEq (drop (length es - (mirrorCap - 1)) es @ [e]) (drop (length es - (mirrorCap - 1)) es @ [e'])"
    by (intro list_all2_appendI) (simp_all add: list_all2_same)
  with True show ?thesis
    by (simp add: window_ok_def tailEvents_def mirrorCap_def Suc_diff_le)
next
  case False
  assume "valueEq e e'"
  then have "list_all2 valueEq (es @ [e]) (es @ [e'])" by (intro list_all2_appendI) (simp_all add: list_all2_same)
  with False show ?thesis by (simp add: window_ok_def tailEvents_def)
qed

section \<open>Well-formedness of what is written\<close>

lemma ascii_utf8: "isASCII s \<Longrightarrow> valid_utf8 s"
  by (rule valid_utf8_ascii) (auto simp: isASCII_def list_all_iff)

lemma utf8_lits [simp]:
  "valid_utf8 ''seq''" "valid_utf8 ''at''" "valid_utf8 ''type''" "valid_utf8 ''ref''" "valid_utf8 ''data''"
  "valid_utf8 ''prev_hash''" "valid_utf8 ''event_hash''" "valid_utf8 ''events''" "valid_utf8 ''ledger_rewound''"
  "valid_utf8 ''mirror_lag_healed''" "valid_utf8 ''dropped_tail''" "valid_utf8 ''mirror_capped''"
  "valid_utf8 ''dropped_tail_meaning''" "valid_utf8 ''adopted_from_log''" "valid_utf8 ''legacy-seq-''" "valid_utf8 ''None''"
  by (rule ascii_utf8, simp add: isASCII_def)+

lemma isASCII_simps [simp]: "isASCII []" "isASCII (c # s) = ((of_char c :: nat) \<le> 0x7E \<and> isASCII s)"
  "isASCII (s @ t) = (isASCII s \<and> isASCII t)"
  by (simp_all add: isASCII_def)

lemma printables_ascii: "printables s \<Longrightarrow> isASCII s"
  by (auto simp: printables_def printable_def isASCII_def list_all_iff)

lemma GenesisHash_ascii: "isASCII GenesisHash"
  by (simp add: GenesisHash_def isASCII_def list_all_iff)

lemma eventHash_utf8 [simp]: "valid_utf8 (eventHash e)"
  by (simp add: eventHash_def)

lemma wf_ObjAt: "wf_value v \<Longrightarrow> wf_value (ObjAt v k)"
proof (cases v)
  case (VObj kvs)
  assume "wf_value v"
  then show ?thesis using kv_find_SomeD [of kvs k] by (force simp: VObj ObjAt_VObj list_all_iff split: option.splits)
qed (simp_all add: ObjAt_def)

lemma wf_vA: "wf_value v \<Longrightarrow> e \<in> set (vA v) \<Longrightarrow> wf_value e"
  by (cases v) (auto simp: list_all_iff)

lemma wf_vS: "wf_value v \<Longrightarrow> valid_utf8 (vS v)"
  by (cases v) auto

lemma legacyAnchor_ascii: "wf_value e \<Longrightarrow> isASCII (legacyAnchor e)"
proof -
  assume wf: "wf_value e"
  have "printables (CanonCompact v)" if "kv_find (vO e) ''seq'' = Some v" for v
  proof -
    have "wf_value v" using wf kv_find_SomeD [OF that] by (cases e) (auto simp: list_all_iff)
    then show ?thesis by (simp add: CanonCompact_def Canon_def Canon_printables)
  qed
  then show ?thesis by (auto simp: legacyAnchor_def printables_ascii split: option.splits)
qed

lemma tip_utf8: "wf_value e \<Longrightarrow> valid_utf8 (tip_of e)"
  using wf_vS [OF wf_ObjAt, of e "''event_hash''"] ascii_utf8 [OF legacyAnchor_ascii, of e]
  by (simp add: tip_of_def Let_def)

lemma wf_event_of: "ParseOrdered line \<noteq> None \<Longrightarrow> wf_value (event_of line)"
  by (auto simp: event_of_def dest: ParseOrdered_wf)

lemma prev_for_utf8:
  assumes "lines \<noteq> [] \<longrightarrow> ParseOrdered (last lines) \<noteq> None" shows "valid_utf8 (prev_for lines)"
  using assms tip_utf8 [OF wf_event_of] ascii_utf8 [OF GenesisHash_ascii] by (auto simp: prev_for_def)

lemma wf_seal:
  assumes "int64_range (int (length (lb_lines lb)))" "valid_utf8 t" "valid_utf8 ty" "wf_value refV"
    "wf_value (lb_data lb)" "valid_utf8 prev"
  shows "wf_value (seal (event_body lb t ty refV prev))"
  using assms by (simp add: seal_def event_body_def)

lemma cap_disclosure_utf8 [simp]: "valid_utf8 cap_disclosure"
proof (rule ascii_utf8)
  have "printables (nat_digits mirrorCap)"
    by (rule printables_digits) (auto simp: digits_def dest: nat_digits_digits)
  then show "isASCII cap_disclosure" using printables_ascii by (simp add: cap_disclosure_def)
qed

lemma wf_disclosed:
  assumes d: "disclosed ev d lb" and wf: "wf_value d" and c: "clock_ok ev"
    and r: "int64_range (int (lb_rewoundDropped lb))" "int64_range (int (lb_lagAdopted lb))"
  shows "wf_value (lb_data lb)"
proof -
  from d obtain d1 where d1: "if lb_rewoundDropped lb > 0
      then \<exists>extra t. d1 = set_field (if vkind d \<noteq> KObj then VObj [] else d) ''ledger_rewound''
             (VObj ((''dropped_tail'', VInt (int (lb_rewoundDropped lb))) # extra @ [(''at'', VStr (now ev t))]))
           \<and> (lb_rewoundCapped lb \<longrightarrow> extra = [(''mirror_capped'', VBool True), (''dropped_tail_meaning'', VStr cap_disclosure)])
           \<and> (\<not> lb_rewoundCapped lb \<longrightarrow> extra = [])
      else d1 = d"
    and d2: "if lb_lagAdopted lb > 0
      then \<exists>t. lb_data lb = set_field (if vkind d1 \<noteq> KObj then VObj [] else d1) ''mirror_lag_healed''
             (VObj [(''adopted_from_log'', VInt (int (lb_lagAdopted lb))), (''at'', VStr (now ev t))])
      else lb_data lb = d1"
    unfolding disclosed_def by blast
  have "wf_value d1"
    using d1 wf c r by (cases "lb_rewoundCapped lb") (auto simp: clock_ok_def intro!: wf_set_field split: if_splits)
  then show ?thesis
    using d2 c r by (auto simp: clock_ok_def intro!: wf_set_field split: if_splits)
qed


section \<open>Appending over a window\<close>

lemma readWaiver_cong:
  "kv_find (files w') WaiversPath = kv_find (files w) WaiversPath \<Longrightarrow> readWaiverRowsR12 w' = readWaiverRowsR12 w"
  by (simp add: readWaiverRowsR12_def ReadFile_def split: option.splits)

lemma waived_keys_snoc:
  "vS (ObjAt e ''type'') \<noteq> ''completion.waived'' \<Longrightarrow> waived_event_keys (es @ [e]) = waived_event_keys es"
  by (simp add: waived_event_keys_def)

lemma ObjAt_seal [simp]:
  "ObjAt (seal (event_body lb t ty refV prev)) ''seq'' = VInt (int (length (lb_lines lb)))"
  "ObjAt (seal (event_body lb t ty refV prev)) ''type'' = VStr ty"
  "ObjAt (seal (event_body lb t ty refV prev)) ''ref'' = refV"
  "ObjAt (seal (event_body lb t ty refV prev)) ''data'' = lb_data lb"
  "ObjAt (seal (event_body lb t ty refV prev)) ''prev_hash'' = VStr prev"
  "vkind (seal (event_body lb t ty refV prev)) = KObj"
  by (simp_all add: seal_def event_body_def)

lemma seal_hash:
  "ObjAt (seal (event_body lb t ty refV prev)) ''event_hash'' = VStr (eventHash (seal (event_body lb t ty refV prev)))"
proof -
  have "\<forall>k\<in>set hashed_fields. k \<noteq> ''event_hash''" by (simp add: hashed_fields_def)
  note h = eventHash_snoc_hash [OF this, of "event_body lb t ty refV prev"]
  have "ObjAt (seal (event_body lb t ty refV prev)) ''event_hash'' = VStr (eventHash (VObj (event_body lb t ty refV prev)))"
    by (simp add: seal_def event_body_def)
  then show ?thesis by (simp add: seal_def h)
qed

lemma clean_append:
  assumes cl: "clean_ledger raw es" and wf: "wf_value e" and e: "e = seal (event_body lb t ty refV (prev_for (records_of raw)))"
    and lb: "lb_lines lb = records_of raw"
  shows "clean_ledger (raw @ CanonSpaced e @ NL) (es @ [keysorted e])"
proof -
  let ?line = "CanonSpaced e"
  have es: "es = map event_of (records_of raw)" using cl by (simp add: clean_ledger_def)
  have nb: "\<not> blankLine ?line" using e CanonSpaced_VObj_nonblank by (simp add: seal_def)
  have nl: "CHR 0x0A \<notin> set ?line" by (rule printables_no_newline [OF CanonSpaced_printables [OF wf]])
  have rec: "records_of (raw @ ?line @ NL) = records_of raw @ [?line]"
    using cl by (intro records_of_append nl nb) (simp add: clean_ledger_def)
  have p: "ParseOrdered ?line = Some (keysorted e)" by (rule parse_CanonSpaced [OF wf])
  then have ev: "event_of ?line = keysorted e" "good_record ?line"
    using e by (simp_all add: event_of_def good_record_def)
  have seq: "seq_break (length es) [keysorted e] = None"
    using wf es e lb by (simp add: ObjAt_norm)
  have "prev_for (records_of raw) = chain_tip GenesisHash es"
    by (simp add: prev_for_def chain_tip_def es last_map)
  then have "linked (chain_tip GenesisHash es) (keysorted e)"
    using wf seal_hash [of lb t ty refV "prev_for (records_of raw)"]
    by (simp add: linked_def ObjAt_norm eventHash_norm e [symmetric]) (simp add: e)
  moreover have "terminated raw" "list_all good_record (records_of raw)" "seq_break 0 es = None" "chain_ok es"
    using cl unfolding clean_ledger_def by blast+
  ultimately show ?thesis
    using ev rec seq es by (simp add: clean_ledger_def chain_ok_snoc seq_break_append)
qed

lemma State_wf_events:
  assumes "State ev w = (Inr st, w)" "x \<in> set (vA (ObjAt st ''events''))" shows "wf_value x"
  using wf_vA [OF wf_ObjAt [OF State_wf [OF assms(1)]] assms(2)] .

lemma wf_clean_events: "clean_ledger raw es \<Longrightarrow> x \<in> set es \<Longrightarrow> wf_value x"
  by (auto simp: clean_ledger_def list_all_iff dest!: good_recordD dest: ParseOrdered_wf)

lemma set_tailEvents: "set (tailEvents m e) \<subseteq> insert e (set m)"
  by (auto simp: tailEvents_def dest: in_set_dropD)

text \<open>
  The core of every soundness theorem of the writer: the ledger found is clean, and the mirror the
  commit starts from, with the tail rule applied, is the window of the extended ledger.
\<close>

lemma append_consistent:
  assumes log: "Log ev ty ref data w = (Inr e, w')"
    and cl: "clean_ledger (content_of EventsPath w) es" and wv: "waivers_ok w es"
    and ok: "clock_ok ev" "schema_ok ev" "args_ok ty ref data" "size_ok w" and ty: "ty \<noteq> ''completion.waived''"
    and base: "\<And>st lb. decided ev w (records_of (content_of EventsPath w)) st lb \<Longrightarrow>
      int64_range (int (lb_rewoundDropped lb)) \<and> lb_lagAdopted lb \<le> length es \<and>
      window_ok (es @ [keysorted e]) (tailEvents (mirror_base lb st) e) \<and> (\<forall>x\<in>set (mirror_base lb st). wf_value x)"
  shows "\<exists>st st'. State ev w = (Inr st, w) \<and> consistent ev w' st' (es @ [keysorted e]) \<and> same_fields st st' \<and> saved w' st'"
proof -
  obtain lines st lb t t' where dec: "decided ev w lines st lb" and dis: "disclosed ev (data_value data) lb"
    and e: "e = seal (event_body lb (now ev t) ty (ref_value ref) (prev_for lines))"
    and asc: "isASCII (CanonSpaced e)" and acc: "accessible w EventsPath" and tm: "terminated (content_of EventsPath w)"
    and fe: "kv_find (files w') EventsPath = Some (File True (content_of EventsPath w @ CanonSpaced e @ NL))"
    and fs: "kv_find (files w') StatePath = Some (File True (DumpIndented (stamped ev t' (mirrored lb st e)) @ NL))"
    and fo: "\<forall>p. p \<noteq> EventsPath \<longrightarrow> p \<noteq> StatePath \<longrightarrow> kv_find (files w') p = kv_find (files w) p"
    and va: "validates ev StateSchema (stamped ev t' (mirrored lb st e))"
    by (rule Log_Inr [OF log])
  have lines: "lines = records_of (content_of EventsPath w)" and st: "State ev w = (Inr st, w)"
    and lbl: "lb_lines lb = lines" and hd: "lines \<noteq> [] \<longrightarrow> ParseOrdered (last lines) \<noteq> None"
    using dec by (auto simp: decided_def)
  note b = base [OF dec [unfolded lines]]
  have len: "length lines \<le> length (content_of EventsPath w)" "length es = length lines"
    using length_records_of cl by (auto simp: lines clean_ledger_def)
  have ir: "int64_range (int (length lines))" "int64_range (int (lb_lagAdopted lb))"
    using int64_range_le [OF ok(4) [unfolded size_ok_def]] len b by auto
  have wfd: "wf_value (lb_data lb)"
    by (rule wf_disclosed [OF dis _ ok(1)]) (use ok(3) b ir in \<open>auto simp: args_ok_def data_value_def split: option.splits\<close>)
  have wfe: "wf_value e" unfolding e
    by (rule wf_seal) (use ir ok wfd prev_for_utf8 [OF hd] lbl in \<open>auto simp: clock_ok_def args_ok_def ref_value_def split: option.splits\<close>)
  have wfm: "wf_value (mirrored lb st e)"
    unfolding mirrored_def
    by (rule wf_set_field [OF State_wf [OF st]]) (use b wfe set_tailEvents in \<open>auto simp: list_all_iff\<close>)
  have wfs: "wf_value (stamped ev t' (mirrored lb st e))"
    by (rule wf_stamped [OF wfm]) (use ok(1) in \<open>simp add: clock_ok_def\<close>)
  let ?st = "stamped ev t' (mirrored lb st e)"
  have st': "State ev w' = (Inr ?st, w')"
    using fs va parse_Indented_NL [OF wfs] by (simp add: State_Inr)
  have "vkind st = KObj" using st ok(2) by (auto simp: State_Inr schema_ok_def)
  then have ev': "ObjAt ?st ''events'' = VArr (tailEvents (mirror_base lb st) e)" by (simp add: mirrored_def)
  have cl': "clean_ledger (content_of EventsPath w') (es @ [keysorted e])"
    using clean_append [OF cl wfe e [unfolded lines]] lbl fe by (simp add: lines content_of_def)
  have wk: "waivers_ok w' (es @ [keysorted e])"
  proof -
    have "vS (ObjAt (keysorted e) ''type'') \<noteq> ''completion.waived''" using ty wfe e by (simp add: ObjAt_norm)
    moreover have "readWaiverRowsR12 w' = readWaiverRowsR12 w" using fo by (intro readWaiver_cong) simp
    ultimately show ?thesis using wv by (simp only: waivers_ok_def waived_keys_snoc not_False_eq_True)
  qed
  have "consistent ev w' ?st (es @ [keysorted e])"
    using st' ev' cl' wk b fe by (simp add: consistent_def accessible_def)
  moreover have "same_fields st ?st"
    unfolding mirrored_def by (rule same_fields_trans [OF same_fields_events same_fields_stamped])
  moreover have "saved w' ?st" using fs by (simp add: saved_def)
  ultimately show ?thesis using st by blast
qed

section \<open>The theorems of the writer\<close>

lemma parse_all_good:
  "list_all good_record lines \<Longrightarrow> parse_all err i lines = Inr (map event_of lines)"
  by (induction lines arbitrary: i) (auto simp: good_record_def event_of_def split: option.splits)

lemma lagAligned_iff:
  assumes "off + length (lc_mirror lc) \<le> length (lc_events lc)"
  shows "lagAligned lc off \<longleftrightarrow> list_all2 valueEq (lc_mirror lc) (take (length (lc_mirror lc)) (drop off (lc_events lc)))"
  using assms by (auto simp: lagAligned_def list_all2_conv_all_nth lagEq_def valueEq_def)

text \<open>Over a mirror that is the window nothing is rewound and nothing adopted.\<close>

lemma window_no_adoption:
  assumes dec: "decided ev w lines st lb" and cl: "clean_ledger (content_of EventsPath w) es"
    and win: "window_ok es m" and m: "ObjAt st ''events'' = VArr m"
  shows "lb_lagAdopted lb = 0" "lb_rewoundDropped lb = 0"
proof -
  note D = decidedD [OF dec]
  have es: "es = map event_of lines" "list_all good_record lines" using cl D(1) by (simp_all add: clean_ledger_def)
  show "lb_rewoundDropped lb = 0" using D(4) m win es(1) by (auto simp: window_ok_def)
  show "lb_lagAdopted lb = 0"
  proof (cases "lines = []")
    case True
    with D(7) show ?thesis by simp
  next
    case False
    obtain evs where d: "lag_decision lines (VArr m) evs (lb_lagAdopted lb)"
      by (rule decided_lag [OF dec False, unfolded m])
    show ?thesis
    proof (cases "length m < length lines")
      case ge: False
      with d show ?thesis by (simp add: lag_decision_def)
    next
      case lt: True
      let ?lc = "\<lparr>lc_lines = lines, lc_mirror = m, lc_events = map event_of lines\<rparr>"
      have cap: "length m = mirrorCap" using win lt es(1) by (auto simp: window_ok_def min_def split: if_splits)
      have "list_all2 valueEq m (drop (length es - length m) es)" using win unfolding window_ok_def by blast
      then have "lagAligned ?lc (length lines - length m)"
        using lt es(1) by (subst lagAligned_iff) simp_all
      then have "lagScanAlignedShapes ?lc = Some 0" by (simp add: lagScanAlignedShapes_def cap)
      with d lt show ?thesis
        by (simp add: lag_decision_def classifyLaggingMirror_def lagParseLedger_def parse_all_good [OF es(2)])
    qed
  qed
qed

lemma consistent_mirror:
  assumes "consistent ev w st es" "schema_ok ev"
  obtains m where "ObjAt st ''events'' = VArr m" "window_ok es m"
proof -
  have "State ev w = (Inr st, w)" using assms(1) by (simp add: consistent_def)
  then have "vkind (ObjAt st ''events'') = KArr" using assms(2) by (auto simp: State_Inr schema_ok_def)
  then obtain m where m: "ObjAt st ''events'' = VArr m" by (cases "ObjAt st ''events''") auto
  then show ?thesis using that assms(1) by (simp add: consistent_def)
qed

lemma Log_keeps_consistent:
  assumes c: "consistent ev w st es" and log: "Log ev ty ref data w = (Inr e, w')"
    and ok: "clock_ok ev" "schema_ok ev" "args_ok ty ref data" "size_ok w" and ty: "ty \<noteq> ''completion.waived''"
  shows "\<exists>st'. consistent ev w' st' (es @ [keysorted e]) \<and> same_fields st st' \<and> saved w' st'"
proof -
  obtain m where m: "ObjAt st ''events'' = VArr m" and win: "window_ok es m" by (rule consistent_mirror [OF c ok(2)])
  have cl: "clean_ledger (content_of EventsPath w) es" and wv: "waivers_ok w es" and st: "State ev w = (Inr st, w)"
    using c by (simp_all add: consistent_def)
  have "\<exists>st0 st'. State ev w = (Inr st0, w) \<and> consistent ev w' st' (es @ [keysorted e]) \<and> same_fields st0 st' \<and> saved w' st'"
  proof (rule append_consistent [OF log cl wv ok ty])
    fix st1 lb assume dec: "decided ev w (records_of (content_of EventsPath w)) st1 lb"
    have st1: "st1 = st" using decidedD(2) [OF dec] st by simp
    note na = window_no_adoption [OF dec [unfolded st1] cl win m]
    have mb: "mirror_base lb st1 = m" using na st1 m by (simp add: mirror_base_def)
    show "int64_range (int (lb_rewoundDropped lb)) \<and> lb_lagAdopted lb \<le> length es \<and>
        window_ok (es @ [keysorted e]) (tailEvents (mirror_base lb st1) e) \<and> (\<forall>x\<in>set (mirror_base lb st1). wf_value x)"
      unfolding mb using window_snoc [OF win valueEq_norm] State_wf_events [OF st] m na
      by (simp add: int64_range_def)
  qed
  then show ?thesis using st by auto
qed

text \<open>The event carries the caller's type, reference and, when nothing had to be disclosed, data.\<close>

lemma Log_event_fields:
  assumes "Log ev ty ref data w = (Inr e, w')"
  shows "ObjAt e ''type'' = VStr ty" "ObjAt e ''ref'' = ref_value ref" "vkind e = KObj"
    "ObjAt e ''seq'' = VInt (int (length (records_of (content_of EventsPath w))))"
proof -
  obtain lines st lb t t' where "decided ev w lines st lb" "disclosed ev (data_value data) lb"
    "e = seal (event_body lb (now ev t) ty (ref_value ref) (prev_for lines))" by (rule Log_Inr [OF assms])
  with decidedD show "ObjAt e ''type'' = VStr ty" "ObjAt e ''ref'' = ref_value ref" "vkind e = KObj"
    "ObjAt e ''seq'' = VInt (int (length (records_of (content_of EventsPath w))))" by simp_all
qed

lemma keysorted_seal:
  "ObjAt (keysorted (seal (event_body lb t ty refV prev))) ''type'' = VStr ty"
  "ObjAt (keysorted (seal (event_body lb t ty refV prev))) ''ref'' = keysorted refV"
  "ObjAt (keysorted (seal (event_body lb t ty refV prev))) ''data'' = keysorted (lb_data lb)"
  by (auto simp: seal_def event_body_def ObjAt_def kv_find_norm)

lemma keysorted_event:
  assumes "Log ev ty ref data w = (Inr e, w')"
  shows "ObjAt (keysorted e) ''type'' = VStr ty" "ObjAt (keysorted e) ''ref'' = ref_value ref"
    "ObjAt (keysorted e) ''data'' = keysorted (ObjAt e ''data'')"
proof -
  obtain lines st lb t t' where "decided ev w lines st lb" "disclosed ev (data_value data) lb"
    and e: "e = seal (event_body lb (now ev t) ty (ref_value ref) (prev_for lines))" by (rule Log_Inr [OF assms])
  have "keysorted (ref_value ref) = ref_value ref" by (cases ref) (simp_all add: ref_value_def)
  then show "ObjAt (keysorted e) ''type'' = VStr ty" "ObjAt (keysorted e) ''ref'' = ref_value ref"
    "ObjAt (keysorted e) ''data'' = keysorted (ObjAt e ''data'')"
    by (simp_all add: e keysorted_seal)
qed

lemma Log_event_data:
  assumes log: "Log ev ty ref data w = (Inr e, w')" and c: "consistent ev w st es" and ok: "schema_ok ev"
  shows "ObjAt e ''data'' = data_value data"
proof -
  obtain lines st1 lb t t' where dec: "decided ev w lines st1 lb" and dis: "disclosed ev (data_value data) lb"
    and e: "e = seal (event_body lb (now ev t) ty (ref_value ref) (prev_for lines))" by (rule Log_Inr [OF log])
  obtain m where m: "ObjAt st ''events'' = VArr m" and win: "window_ok es m" by (rule consistent_mirror [OF c ok])
  have st1: "st1 = st" using decidedD(2) [OF dec] c by (simp add: consistent_def)
  have cl: "clean_ledger (content_of EventsPath w) es" using c by (simp add: consistent_def)
  from window_no_adoption [OF dec [unfolded st1] cl win m] dis have "lb_data lb = data_value data"
    by (simp add: disclosed_def)
  then show ?thesis by (simp add: e)
qed

theorem Log_keeps_green:
  assumes "verify_green ev w" and "Log ev ty ref data w = (Inr e, w')"
    and "clock_ok ev" "schema_ok ev" "args_ok ty ref data" "size_ok w" "ty \<noteq> ''completion.waived''"
  shows "verify_green ev w'"
  using Log_keeps_consistent [OF _ assms(2-)] assms(1) by (metis verdict_ok_iff)

end
