(* ===== verification/LogHeal.thy ===== *)
theory LogHeal
  imports LogSound
begin

text \<open>
  The repairs and the refusals of the log writer. A mirror strictly shorter than a clean ledger is
  healed from the ledger and the adoption is disclosed in the hashed data; a ledger with no records
  under a non-empty mirror is rewound and the loss disclosed; a mirror longer than the ledger, a
  head that does not parse and an unterminated tail are refused with every file as it was. A mirror
  of the ledger's own length is not looked at.
\<close>

section \<open>The lag classifier\<close>

text \<open>The specification: the mirror is a contiguous piece of the ledger that ends \<open>adopted\<close> events early.\<close>

definition lag_shape :: "value list \<Rightarrow> value list \<Rightarrow> nat \<Rightarrow> bool" where
  "lag_shape es m adopted \<longleftrightarrow> (\<exists>off. off + length m + adopted = length es \<and>
     list_all2 valueEq m (take (length m) (drop off es)) \<and> (off = 0 \<or> length m = mirrorCap))"

lemma scan_offsets_Some: "scan_offsets lc offs = Some off \<Longrightarrow> off \<in> set offs \<and> lagAligned lc off"
  by (induction lc offs rule: scan_offsets.induct) (auto split: if_splits)

lemma scan_offsets_None: "scan_offsets lc offs = None \<longleftrightarrow> (\<forall>off\<in>set offs. \<not> lagAligned lc off)"
  by (induction lc offs rule: scan_offsets.induct) auto

lemma shapes_sound:
  assumes "lagScanAlignedShapes lc = Some k" "length (lc_mirror lc) < length (lc_lines lc)"
    "length (lc_events lc) = length (lc_lines lc)"
  shows "lag_shape (lc_events lc) (lc_mirror lc) k"
proof -
  let ?m = "lc_mirror lc" and ?es = "lc_events lc"
  have al: "lag_shape ?es ?m (length ?es - off - length ?m)"
    if "lagAligned lc off" "off + length ?m \<le> length ?es" "off = 0 \<or> length ?m = mirrorCap" for off
    using that lagAligned_iff [of off lc] unfolding lag_shape_def by (intro exI [of _ off]) auto
  consider "length ?m = mirrorCap" "lagAligned lc (length ?es - length ?m)" "k = 0"
    | "lagAligned lc 0" "k = length ?es - length ?m"
    | off where "length ?m = mirrorCap" "lagAligned lc off" "off < length ?es - length ?m" "k = length ?es - off - length ?m"
    using assms by (auto simp: lagScanAlignedShapes_def Let_def lagAligned_def split: if_splits dest!: scan_offsets_Some)
  then show ?thesis
    by cases (use al [of "length ?es - length ?m"] al [of 0] al assms in auto)
qed

lemma shapes_complete:
  assumes "lag_shape (lc_events lc) (lc_mirror lc) k" "length (lc_mirror lc) < length (lc_lines lc)"
    "length (lc_events lc) = length (lc_lines lc)"
  shows "lagScanAlignedShapes lc \<noteq> None"
proof -
  let ?m = "lc_mirror lc" and ?es = "lc_events lc"
  from assms(1) obtain off where o: "off + length ?m + k = length ?es"
      "list_all2 valueEq ?m (take (length ?m) (drop off ?es))" "off = 0 \<or> length ?m = mirrorCap"
    unfolding lag_shape_def by blast
  have a: "lagAligned lc off" using o lagAligned_iff [of off lc] by simp
  have "off = 0 \<or> off = length ?es - length ?m \<or> off \<in> set [1..<length ?es - length ?m]" using o by auto
  then show ?thesis
  proof (elim disjE)
    assume "off \<in> set [1..<length ?es - length ?m]"
    with a have "scan_offsets lc [1..<length ?es - length ?m] \<noteq> None" using scan_offsets_None by blast
    with o(3) \<open>off \<in> _\<close> assms(3) show ?thesis by (auto simp: lagScanAlignedShapes_def Let_def)
  qed (use a o(3) assms in \<open>auto simp: lagScanAlignedShapes_def Let_def\<close>)
qed

lemma classify_good:
  assumes "list_all good_record lines"
  shows "classifyLaggingMirror lines m =
    (case lagScanAlignedShapes \<lparr>lc_lines = lines, lc_mirror = m, lc_events = map event_of lines\<rparr> of
       Some k \<Rightarrow> Inr (map event_of lines, k)
     | None \<Rightarrow> Inl (lagRefusal \<lparr>lc_lines = lines, lc_mirror = m, lc_events = map event_of lines\<rparr>))"
  by (simp add: classifyLaggingMirror_def lagParseLedger_def parse_all_good [OF assms] Let_def split: option.split)

lemma classify_shape:
  assumes "list_all good_record lines" "classifyLaggingMirror lines m = Inr (evs, k)" "length m < length lines"
  shows "evs = map event_of lines" "lag_shape (map event_of lines) m k"
proof -
  let ?lc = "\<lparr>lc_lines = lines, lc_mirror = m, lc_events = map event_of lines\<rparr>"
  have "lagScanAlignedShapes ?lc = Some k \<and> evs = map event_of lines"
    using assms(2) unfolding classify_good [OF assms(1)] by (simp split: option.splits)
  with shapes_sound [of ?lc k] assms(3) show "evs = map event_of lines" "lag_shape (map event_of lines) m k" by simp_all
qed

lemma shape_window:
  assumes "lag_shape es m 0" "length m < length es" shows "window_ok es m"
proof -
  from assms obtain off where "off + length m = length es" "list_all2 valueEq m (take (length m) (drop off es))"
    "off = 0 \<or> length m = mirrorCap" unfolding lag_shape_def by auto
  moreover from this have "off = length es - length m" by simp
  ultimately show ?thesis using assms(2) by (auto simp: window_ok_def)
qed

section \<open>Healing a lagging mirror\<close>

lemma Log_heals_lag:
  assumes log: "Log ev ty ref data w = (Inr e, w')" and cl: "clean_ledger (content_of EventsPath w) es"
    and st: "State ev w = (Inr st, w)" "ObjAt st ''events'' = VArr m" "length m < length es" and wv: "waivers_ok w es"
    and ok: "clock_ok ev" "schema_ok ev" "args_ok ty ref data" "size_ok w" and ty: "ty \<noteq> ''completion.waived''"
  shows "\<exists>st0 st'. State ev w = (Inr st0, w) \<and> consistent ev w' st' (es @ [keysorted e]) \<and> same_fields st0 st' \<and> saved w' st'"
proof (rule append_consistent [OF log cl wv ok ty])
  fix st1 lb assume dec: "decided ev w (records_of (content_of EventsPath w)) st1 lb"
  let ?lines = "records_of (content_of EventsPath w)"
  have es: "es = map event_of ?lines" "list_all good_record ?lines" using cl by (simp_all add: clean_ledger_def)
  have st1: "st1 = st" using dec st by (simp add: decided_def)
  have ne: "?lines \<noteq> []" and lt: "length m < length ?lines" using st(3) es(1) by auto
  obtain evs where "lag_decision ?lines (ObjAt st ''events'') evs (lb_lagAdopted lb)"
      "lb_lagAdopted lb > 0 \<longrightarrow> lb_lagEvents lb = evs"
    by (rule decided_lag [OF dec ne, unfolded st1])
  then have c: "classifyLaggingMirror ?lines m = Inr (evs, lb_lagAdopted lb)" "lb_lagAdopted lb > 0 \<longrightarrow> lb_lagEvents lb = evs"
    using lt st(2) by (simp_all add: lag_decision_def)
  have r0: "lb_rewoundDropped lb = 0" using decidedD(4) [OF dec] ne by simp
  note sh = classify_shape [OF es(2) c(1) lt, folded es(1)]
  have le: "lb_lagAdopted lb \<le> length es" using sh(2) by (auto simp: lag_shape_def)
  have "window_ok (es @ [keysorted e]) (tailEvents (mirror_base lb st) e) \<and> (\<forall>x\<in>set (mirror_base lb st). wf_value x)"
  proof (cases "lb_lagAdopted lb = 0")
    case True
    then have "window_ok es m" using shape_window [OF _ st(3)] sh(2) by simp
    then show ?thesis using True r0 st State_wf_events [OF st(1)]
      by (simp add: mirror_base_def window_snoc)
  next
    case False
    then show ?thesis using c(2) sh(1) wf_clean_events [OF cl]
      by (simp add: mirror_base_def window_adopt)
  qed
  with le r0 st1 show "int64_range (int (lb_rewoundDropped lb)) \<and> lb_lagAdopted lb \<le> length es \<and>
      window_ok (es @ [keysorted e]) (tailEvents (mirror_base lb st1) e) \<and> (\<forall>x\<in>set (mirror_base lb st1). wf_value x)"
    by (simp add: int64_range_def)
qed

text \<open>The adoption is disclosed: the new event says how many ledger events the mirror was behind.\<close>

lemma Log_discloses_lag:
  assumes log: "Log ev ty ref data w = (Inr e, w')" and cl: "clean_ledger (content_of EventsPath w) es"
    and st: "State ev w = (Inr st, w)" "ObjAt st ''events'' = VArr m" "length m < length es" "\<not> window_ok es m"
  shows "\<exists>k>0. lag_shape es m k \<and>
    ObjAt (ObjAt (ObjAt e ''data'') ''mirror_lag_healed'') ''adopted_from_log'' = VInt (int k)"
proof -
  obtain lines st1 lb t t' where dec: "decided ev w lines st1 lb" and dis: "disclosed ev (data_value data) lb"
    and e: "e = seal (event_body lb (now ev t) ty (ref_value ref) (prev_for lines))"
    by (rule Log_Inr [OF log])
  have lines: "lines = records_of (content_of EventsPath w)" "st1 = st" using dec st(1) by (simp_all add: decided_def)
  have es: "es = map event_of lines" "list_all good_record lines" using cl by (simp_all add: lines clean_ledger_def)
  have lt: "length m < length lines" using st(3) es(1) by simp
  have ne: "lines \<noteq> []" using lt by auto
  obtain evs where "lag_decision lines (ObjAt st ''events'') evs (lb_lagAdopted lb)"
    by (rule decided_lag [OF dec ne, unfolded lines(2)])
  then have c: "classifyLaggingMirror lines m = Inr (evs, lb_lagAdopted lb)"
    using lt st(2) by (simp add: lag_decision_def)
  note sh = classify_shape [OF es(2) c lt, folded es(1)]
  have pos: "lb_lagAdopted lb > 0" using shape_window [OF _ st(3)] sh(2) st(4) by (cases "lb_lagAdopted lb") auto
  from dis pos obtain d1 t2 where "lb_data lb = set_field (if vkind d1 \<noteq> KObj then VObj [] else d1) ''mirror_lag_healed''
       (VObj [(''adopted_from_log'', VInt (int (lb_lagAdopted lb))), (''at'', VStr t2)])"
    unfolding disclosed_def by auto
  then have "ObjAt (ObjAt (lb_data lb) ''mirror_lag_healed'') ''adopted_from_log'' = VInt (int (lb_lagAdopted lb))"
    by (cases "vkind d1 = KObj") simp_all
  with pos sh(2) show ?thesis by (auto simp: e)
qed

section \<open>Rewinding onto an empty ledger\<close>

lemma Log_rewinds:
  assumes log: "Log ev ty ref data w = (Inr e, w')" and cl: "clean_ledger (content_of EventsPath w) []"
    and st: "State ev w = (Inr st, w)" "ObjAt st ''events'' = VArr m" "int64_range (int (length m))" and wv: "waivers_ok w []"
    and ok: "clock_ok ev" "schema_ok ev" "args_ok ty ref data" "size_ok w" and ty: "ty \<noteq> ''completion.waived''"
  shows "\<exists>st'. consistent ev w' st' [keysorted e]"
proof -
  have "\<exists>st0 st'. State ev w = (Inr st0, w) \<and> consistent ev w' st' ([] @ [keysorted e]) \<and> same_fields st0 st' \<and> saved w' st'"
  proof (rule append_consistent [OF log cl wv ok ty])
    fix st1 lb assume dec: "decided ev w (records_of (content_of EventsPath w)) st1 lb"
    have nl: "records_of (content_of EventsPath w) = []" using cl by (simp add: clean_ledger_def)
    have st1: "st1 = st" using dec st by (simp add: decided_def)
    have r: "lb_rewoundDropped lb = length m" "lb_lagAdopted lb = 0" using dec nl st(2) st1 by (auto simp: decided_def)
    have "mirror_base lb st = []" using r st(2) by (cases m) (simp_all add: mirror_base_def)
    moreover have "window_ok ([] @ [keysorted e]) (tailEvents [] e)" by (rule window_snoc) simp_all
    ultimately show "int64_range (int (lb_rewoundDropped lb)) \<and> lb_lagAdopted lb \<le> length ([] :: value list) \<and>
      window_ok ([] @ [keysorted e]) (tailEvents (mirror_base lb st1) e) \<and> (\<forall>x\<in>set (mirror_base lb st1). wf_value x)"
      using r st(3) st1 by simp
  qed
  then show ?thesis by auto
qed

lemma Log_discloses_rewind:
  assumes log: "Log ev ty ref data w = (Inr e, w')" and nl: "records_of (content_of EventsPath w) = []"
    and st: "State ev w = (Inr st, w)" "ObjAt st ''events'' = VArr m" "m \<noteq> []"
  shows "ObjAt e ''prev_hash'' = VStr GenesisHash" "ObjAt e ''seq'' = VInt 0"
    "ObjAt (ObjAt (ObjAt e ''data'') ''ledger_rewound'') ''dropped_tail'' = VInt (int (length m))"
    "ObjAt (ObjAt (ObjAt e ''data'') ''ledger_rewound'') ''mirror_capped'' = (if length m \<ge> mirrorCap then VBool True else VNull)"
proof -
  obtain lines st1 lb t t' where dec: "decided ev w lines st1 lb" and dis: "disclosed ev (data_value data) lb"
    and e: "e = seal (event_body lb (now ev t) ty (ref_value ref) (prev_for lines))"
    by (rule Log_Inr [OF log])
  have lines: "lines = []" "st1 = st" "lb_lines lb = []" using dec st(1) nl by (simp_all add: decided_def)
  have r: "lb_rewoundDropped lb = length m" "lb_lagAdopted lb = 0" "lb_rewoundCapped lb = (length m \<ge> mirrorCap)"
    using dec lines st(2) by (auto simp: decided_def)
  have pos: "lb_rewoundDropped lb > 0" using r st(3) by simp
  from dis pos r obtain extra t2 where d: "lb_data lb =
      set_field (if vkind (data_value data) \<noteq> KObj then VObj [] else data_value data) ''ledger_rewound''
        (VObj ((''dropped_tail'', VInt (int (length m))) # extra @ [(''at'', VStr t2)]))"
     and ex: "length m \<ge> mirrorCap \<longrightarrow> extra = [(''mirror_capped'', VBool True), (''dropped_tail_meaning'', VStr cap_disclosure)]"
        "\<not> length m \<ge> mirrorCap \<longrightarrow> extra = []"
    unfolding disclosed_def by auto
  show "ObjAt e ''prev_hash'' = VStr GenesisHash" "ObjAt e ''seq'' = VInt 0"
    by (simp_all add: e lines prev_for_def)
  have lr: "ObjAt (lb_data lb) ''ledger_rewound'' = VObj ((''dropped_tail'', VInt (int (length m))) # extra @ [(''at'', VStr t2)])"
    unfolding d by (cases "vkind (data_value data) = KObj") simp_all
  then show "ObjAt (ObjAt (ObjAt e ''data'') ''ledger_rewound'') ''dropped_tail'' = VInt (int (length m))"
    "ObjAt (ObjAt (ObjAt e ''data'') ''ledger_rewound'') ''mirror_capped'' = (if length m \<ge> mirrorCap then VBool True else VNull)"
    using ex by (cases "length m \<ge> mirrorCap"; simp add: e)+
qed

section \<open>Refusals\<close>

text \<open>A ledger or a mirror \<open>Log\<close> will not write over.\<close>

definition unwritable :: "env \<Rightarrow> world \<Rightarrow> bool" where
  "unwritable ev w \<longleftrightarrow>
     (let lines = records_of (content_of EventsPath w) in
      \<not> accessible w EventsPath \<or> \<not> terminated (content_of EventsPath w) \<or>
      (lines \<noteq> [] \<and> ParseOrdered (last lines) = None) \<or>
      (\<exists>st m. fst (State ev w) = Inr st \<and> lines \<noteq> [] \<and> ObjAt st ''events'' = VArr m \<and>
         (length m > length lines \<or>
          length m < length lines \<and> (\<forall>k. \<not> lag_shape (map event_of lines) m k) \<and> list_all good_record lines)) \<or>
      (\<exists>e. fst (State ev w) = Inl e))"

lemma logCommit_torn_Inl:
  assumes "logCommit ev lb e w = (r, w')" "\<not> terminated (content_of EventsPath w)"
  shows "(\<exists>x. r = Inl x) \<and> files w' = files w"
proof -
  have "\<exists>x. AppendJsonlAscii EventsPath (CanonSpaced e) w = (Inl x, w)"
    using assms(2) by (auto simp: AppendJsonlAscii_def appendJsonlChecked_def bindE_def checkJsonlTail_def terminated_def content_of_def
        split: option.splits)
  then obtain x where "AppendJsonlAscii EventsPath (CanonSpaced e) w = (Inl x, w)" by blast
  with assms(1) show ?thesis by (auto simp: logCommit_def bindE_def)
qed

lemma Log_refuses:
  assumes u: "unwritable ev w" and log: "Log ev ty ref data w = (r, w')"
  shows "(\<exists>x. r = Inl x) \<and> files w' = files w"
proof (cases rule: Log_cases [OF log])
  case (1 e)
  then show ?thesis by simp
next
  case (2 lines st lb t e w7 w8)
  have lines: "lines = records_of (content_of EventsPath w)" and stw: "State ev w = (Inr st, w)"
    and hd: "lines \<noteq> [] \<longrightarrow> ParseOrdered (last lines) \<noteq> None" using decidedD [OF 2(1)] by auto
  show ?thesis
  proof (cases "terminated (content_of EventsPath w)")
    case False
    then have "\<not> terminated (content_of EventsPath w7)" using 2(5) by (simp add: content_of_def)
    from logCommit_torn_Inl [OF 2(6) this] show ?thesis using 2(5,7) by simp
  next
    case True
    with u stw hd 2(4) lines obtain m where m: "lines \<noteq> []" "ObjAt st ''events'' = VArr m"
        "length m > length lines \<or> length m < length lines \<and> (\<forall>k. \<not> lag_shape (map event_of lines) m k) \<and> list_all good_record lines"
      unfolding unwritable_def Let_def by auto
    obtain evs where d: "lag_decision lines (VArr m) evs (lb_lagAdopted lb)"
      by (rule decided_lag [OF 2(1) m(1), unfolded m(2)])
    show ?thesis
    proof (cases "length m < length lines")
      case ge: False
      with d m(3) show ?thesis by (auto simp: lag_decision_def)
    next
      case lt: True
      with m(3) have g: "list_all good_record lines" "\<forall>k. \<not> lag_shape (map event_of lines) m k" by auto
      from d lt have "classifyLaggingMirror lines m = Inr (evs, lb_lagAdopted lb)" by (simp add: lag_decision_def)
      from classify_shape(2) [OF g(1) this lt] g(2) show ?thesis by blast
    qed
  qed
qed

section \<open>A mirror of the ledger's length\<close>

text \<open>A mirror as long as the ledger is appended to unread: below the cap an edited row survives.\<close>

lemma window_snoc_inv:
  assumes "window_ok (es @ [e']) (tailEvents m e)" "length m = length es" "length es < mirrorCap"
  shows "window_ok es m"
  using assms by (auto simp: window_ok_def tailEvents_def list_all2_append)

lemma Log_keeps_edited_mirror:
  assumes log: "Log ev ty ref data w = (Inr e, w')" and cl: "clean_ledger (content_of EventsPath w) es"
    and st: "State ev w = (Inr st, w)" "ObjAt st ''events'' = VArr m" "length m = length es" "\<not> window_ok es m"
    and cap: "length es < mirrorCap" and ok: "clock_ok ev" "schema_ok ev" "args_ok ty ref data" "size_ok w"
  shows "\<not> verify_green ev w'"
proof
  assume "verify_green ev w'"
  then obtain st' es' where c: "consistent ev w' st' es'" using verdict_ok_iff by blast
  obtain lines st1 lb t t' where dec: "decided ev w lines st1 lb" and dis: "disclosed ev (data_value data) lb"
    and e: "e = seal (event_body lb (now ev t) ty (ref_value ref) (prev_for lines))"
    and fe: "kv_find (files w') EventsPath = Some (File True (content_of EventsPath w @ CanonSpaced e @ NL))"
    and fs: "kv_find (files w') StatePath = Some (File True (DumpIndented (stamped ev t' (mirrored lb st1 e)) @ NL))"
    by (rule Log_Inr [OF log])
  note D = decidedD [OF dec]
  have st1: "st1 = st" using D(2) st(1) by simp
  have es: "es = map event_of lines" using cl D(1) by (simp add: clean_ledger_def)
  have ne: "lines \<noteq> []" using st(3,4) es by (auto simp: window_ok_def)
  obtain evs where "lag_decision lines (VArr m) evs (lb_lagAdopted lb)"
    by (rule decided_lag [OF dec ne, unfolded st1 st(2)])
  then have ad: "lb_lagAdopted lb = 0" "lb_rewoundDropped lb = 0" using st(3) es D(4) ne by (simp_all add: lag_decision_def)
  have ir: "int64_range (int (length lines))"
    using int64_range_le [OF ok(4) [unfolded size_ok_def] length_records_of] D(1) by simp
  have wfd: "wf_value (lb_data lb)"
    by (rule wf_disclosed [OF dis _ ok(1)])
       (use ok(3) ad in \<open>auto simp: args_ok_def data_value_def int64_range_def split: option.splits\<close>)
  have wfe: "wf_value e" unfolding e
    by (rule wf_seal) (use ir ok wfd prev_for_utf8 D in \<open>auto simp: clock_ok_def args_ok_def ref_value_def split: option.splits\<close>)
  have mb: "mirror_base lb st1 = m" using ad st st1 by (simp add: mirror_base_def)
  have wfm: "wf_value (mirrored lb st1 e)"
    unfolding mirrored_def
    by (rule wf_set_field [OF State_wf [OF D(2)]])
       (use State_wf_events [OF st(1)] st(2) mb wfe set_tailEvents in \<open>auto simp: list_all_iff\<close>)
  let ?st = "stamped ev t' (mirrored lb st1 e)"
  have "wf_value ?st" by (rule wf_stamped [OF wfm]) (use ok(1) in \<open>simp add: clock_ok_def\<close>)
  then have "st' = ?st" using c fs parse_Indented_NL by (simp add: consistent_def State_Inr)
  moreover have "vkind st = KObj" using st(1) ok(2) by (auto simp: State_Inr schema_ok_def)
  ultimately have "ObjAt st' ''events'' = VArr (tailEvents m e)" by (simp add: mirrored_def mb [unfolded st1] st1)
  moreover have "clean_ledger (content_of EventsPath w') (es @ [keysorted e])"
    using clean_append [OF cl wfe e [unfolded D(1)]] D fe by (simp add: content_of_def)
  moreover have "es' = map event_of (records_of (content_of EventsPath w'))"
    using c unfolding consistent_def clean_ledger_def by blast
  ultimately have "es' = es @ [keysorted e]" unfolding clean_ledger_def by argo
  with c \<open>ObjAt st' _ = _\<close> have "window_ok (es @ [keysorted e]) (tailEvents m e)" by (simp add: consistent_def)
  from window_snoc_inv [OF this st(3) cap] st(4) show False by blast
qed

end
