(* ===== verification/LogLive.thy ===== *)
theory LogLive
  imports LogHeal
begin

text \<open>
  Progress and refusal of the log writer. On a verified campaign, with the lock free and no write
  fault, \<open>Log\<close> appends unless the state schema refuses the new projection; whatever it answers, the
  ledger is only ever extended and no third file is touched; and the refusals leave every byte.
\<close>

section \<open>Progress\<close>

definition undisturbed :: "world \<Rightarrow> bool" where
  "undisturbed w \<longleftrightarrow> faults w = [] \<and> flocks w = []"

lemma LockProcess_free:
  "flocks w = [] \<Longrightarrow> \<exists>w'. LockProcess w = (Inr (), w') \<and> files w' = files w \<and> ticks w' = ticks w \<and>
     faults w' = faults w \<and> flocks w' = [] \<and> lk_depth (plock w') > 0"
  by (auto simp: LockProcess_def Let_def pl_lock_def split: prod.splits)

lemma with_lock_run:
  "LockProcess w = (Inr (), w1) \<Longrightarrow> with_lock body w = (case body w1 of (r, w2) \<Rightarrow> (r, UnlockProcess w2))"
  by (simp add: with_lock_def bindE_def)

lemma SaveState_free:
  assumes "faults w = []" "flocks w = []"
  shows "fst (SaveState ev st w) = (if validates ev StateSchema (stamped ev (ticks w) st) then Inr () else Inl (ESchema StateSchema))"
proof -
  from LockProcess_free [OF assms(2)] obtain w1 where lk: "LockProcess w = (Inr (), w1)"
    and w1: "files w1 = files w" "ticks w1 = ticks w" "faults w1 = faults w" by blast
  have s: "\<exists>w2. stamp_updated ev st w1 = (Inr (stamped ev (ticks w) st), w2) \<and> faults w2 = []"
    using assms w1 by (auto simp: stamp_updated_def stamped_def bindE_def nowIso_def)
  then obtain w2 where w2: "stamp_updated ev st w1 = (Inr (stamped ev (ticks w) st), w2)" "faults w2 = []" by blast
  show ?thesis
    by (simp add: SaveState_def with_lock_run [OF lk] bindE_def w2 WriteJson_def Validate_def replace_file_def next_fault_def)
qed

text \<open>Nothing the writer looks at before its commit refuses.\<close>

definition writable :: "env \<Rightarrow> world \<Rightarrow> value \<Rightarrow> bool" where
  "writable ev w st \<longleftrightarrow>
     (let lines = records_of (content_of EventsPath w); m = vA (ObjAt st ''events'') in
      accessible w EventsPath \<and> terminated (content_of EventsPath w) \<and> State ev w = (Inr st, w) \<and>
      (lines \<noteq> [] \<longrightarrow> ParseOrdered (last lines) \<noteq> None \<and> length m \<le> length lines \<and>
        (length m < length lines \<longrightarrow> (\<exists>r. classifyLaggingMirror lines m = Inr r))))"

lemma Log_writable_commit:
  assumes wr: "writable ev w st" and fl: "flocks w = []"
  obtains lines st' lb t e w7 where
    "decided ev w lines st' lb" "disclosed ev (data_value data) lb"
    "e = seal (event_body lb (now ev t) ty (ref_value ref) (prev_for lines))"
    "accessible w EventsPath" "files w7 = files w" "faults w7 = faults w" "flocks w7 = []"
    "Log ev ty ref data w = (case logCommit ev lb e w7 of (r, w8) \<Rightarrow> (r, UnlockProcess w8))"
proof -
  let ?lines = "records_of (content_of EventsPath w)" and ?m = "vA (ObjAt st ''events'')"
  have W: "accessible w EventsPath" "State ev w = (Inr st, w)"
      "?lines \<noteq> [] \<Longrightarrow> ParseOrdered (last ?lines) \<noteq> None \<and> length ?m \<le> length ?lines \<and>
         (length ?m < length ?lines \<longrightarrow> (\<exists>r. classifyLaggingMirror ?lines ?m = Inr r))"
    using wr by (auto simp: writable_def Let_def)
  from LockProcess_free [OF fl] obtain wa where lk: "LockProcess w = (Inr (), wa)" "flocks wa = []" by blast
  note fr = LockProcess_frame [OF lk(1)]
  have stw: "State ev wa = (Inr st, wa)" using State_transfer [OF W(2), of wa] fr by simp
  have L: "logLines wa = (Inr ?lines, wa)" using W(1) fr by (simp add: logLines_Inr accessible_def content_of_def)
  have "\<exists>lb1 lb2 lb3. logProbeGenesis ev (lb_start ?lines) wa = (Inr lb1, wa) \<and>
      logParseChainHead lb1 wa = (Inr lb2, wa) \<and> logClassifyMirrorLag ev lb2 wa = (Inr lb3, wa)"
  proof (cases "?lines = []")
    case True
    then show ?thesis
      by (simp add: logProbeGenesis_def lb_start_def bindE_def stw Let_def logParseChainHead_def logClassifyMirrorLag_def)
  next
    case False
    from W(3) [OF False] obtain v where v: "ParseOrdered (last ?lines) = Some v" by auto
    let ?lb = "lb_start ?lines" let ?lb2 = "?lb\<lparr>lb_last := Some v\<rparr>"
    have g: "logProbeGenesis ev ?lb wa = (Inr ?lb, wa)" using False by (simp add: logProbeGenesis_def lb_start_def)
    have h: "logParseChainHead ?lb wa = (Inr ?lb2, wa)"
      using False v by (simp add: logParseChainHead_def lb_start_def bindE_def parseE_def)
    have "\<exists>lb3. logClassifyMirrorLag ev ?lb2 wa = (Inr lb3, wa)"
      using W(3) [OF False]
      by (auto simp: logClassifyMirrorLag_def lb_start_def bindE_def stw Let_def)
    with g h show ?thesis by blast
  qed
  then obtain lb1 lb2 lb3 where s: "logProbeGenesis ev (lb_start ?lines) wa = (Inr lb1, wa)"
      "logParseChainHead lb1 wa = (Inr lb2, wa)" "logClassifyMirrorLag ev lb2 wa = (Inr lb3, wa)" by blast
  show ?thesis by (rule Log_reaches_commit [OF lk(1) L s]) (rule that, (assumption | simp add: lk(2))+)
qed

lemma wf_logged_event:
  assumes dec: "decided ev w lines st lb" and dis: "disclosed ev (data_value data) lb"
    and e: "e = seal (event_body lb (now ev t) ty (ref_value ref) (prev_for lines))"
    and ok: "clock_ok ev" "args_ok ty ref data" "size_ok w"
    and r: "int64_range (int (lb_rewoundDropped lb))" "int64_range (int (lb_lagAdopted lb))"
  shows "wf_value e"
proof -
  note D = decidedD [OF dec]
  have ir: "int64_range (int (length lines))"
    using int64_range_le [OF ok(3) [unfolded size_ok_def] length_records_of] D(1) by simp
  have wfd: "wf_value (lb_data lb)"
    by (rule wf_disclosed [OF dis _ ok(1) r]) (use ok(2) in \<open>auto simp: args_ok_def data_value_def split: option.splits\<close>)
  show ?thesis unfolding e
    by (rule wf_seal) (use ir ok wfd prev_for_utf8 D in \<open>auto simp: clock_ok_def args_ok_def ref_value_def split: option.splits\<close>)
qed

lemma decided_adopted_le:
  assumes "decided ev w lines st lb" shows "lb_lagAdopted lb \<le> length lines"
proof (cases "lines = []")
  case False
  obtain evs where "lag_decision lines (ObjAt st ''events'') evs (lb_lagAdopted lb)"
    by (rule decided_lag [OF assms False])
  then show ?thesis
    by (auto simp: lag_decision_def classifyLaggingMirror_def lagParseLedger_def bindR_Inr_iff lagScanAlignedShapes_def Let_def
        split: if_splits option.splits)
qed (use decidedD(7) [OF assms] in simp)

lemma decided_event_wf:
  assumes "decided ev w lines st lb" "disclosed ev (data_value data) lb"
    and "e = seal (event_body lb (now ev t) ty (ref_value ref) (prev_for lines))"
    and ok: "clock_ok ev" "args_ok ty ref data" "size_ok w" "int64_range (int (length (vA (ObjAt st ''events''))))"
  shows "wf_value e"
proof (rule wf_logged_event [OF assms(1-3) ok(1-3)])
  note D = decidedD [OF assms(1)]
  show "int64_range (int (lb_rewoundDropped lb))" using D(4) ok(4) by (simp add: int64_range_def)
  have "int64_range (int (length lines))"
    using int64_range_le [OF ok(3) [unfolded size_ok_def] length_records_of] D(1) by simp
  then show "int64_range (int (lb_lagAdopted lb))" using int64_range_le decided_adopted_le [OF assms(1)] by blast
qed

text \<open>With no write fault the line always lands, and only the state save can fail.\<close>

definition line_landed :: "world \<Rightarrow> value \<Rightarrow> world" where
  "line_landed w e = spend (put_file EventsPath (content_of EventsPath w @ CanonSpaced e @ NL) w)"

lemma logCommit_run:
  assumes "wf_value e" "accessible w EventsPath" "terminated (content_of EventsPath w)" "faults w = []" "State ev w = (Inr st, w)"
  shows "logCommit ev lb e w = (case SaveState ev (mirrored lb st e) (line_landed w e) of
      (Inl x, w8) \<Rightarrow> (Inl x, w8) | (Inr _, w8) \<Rightarrow> (Inr e, w8))"
proof -
  have A: "AppendJsonlAscii EventsPath (CanonSpaced e) w = (Inr (), line_landed w e)"
    using assms CanonSpaced_ascii [OF assms(1)]
    by (simp add: AppendJsonlAscii_def appendJsonlChecked_Inr terminated_def next_fault_def line_landed_def)
  have S: "State ev (line_landed w e) = (Inr st, line_landed w e)"
    by (rule State_transfer [OF assms(5)]) (simp add: world_simps line_landed_def)
  show ?thesis
    by (simp add: logCommit_def bindE_def A S Let_def mirrored_def mirror_base_def split: prod.split sum.split)
qed

lemma Log_progress:
  assumes wr: "writable ev w st" and u: "undisturbed w"
    and ok: "clock_ok ev" "args_ok ty ref data" "size_ok w" "int64_range (int (length (vA (ObjAt st ''events''))))"
  shows "(\<exists>e w'. Log ev ty ref data w = (Inr e, w')) \<or>
    ((\<exists>w'. Log ev ty ref data w = (Inl (ESchema StateSchema), w')) \<and>
     (\<exists>es t. \<not> validates ev StateSchema (stamped ev t (set_field st ''events'' (VArr es)))))"
proof -
  have fl: "flocks w = []" "faults w = []" using u by (simp_all add: undisturbed_def)
  obtain lines st1 lb t e w7 where C: "decided ev w lines st1 lb" "disclosed ev (data_value data) lb"
      "e = seal (event_body lb (now ev t) ty (ref_value ref) (prev_for lines))"
      "accessible w EventsPath" "files w7 = files w" "faults w7 = faults w" "flocks w7 = []"
      "Log ev ty ref data w = (case logCommit ev lb e w7 of (r, w8) \<Rightarrow> (r, UnlockProcess w8))"
    by (rule Log_writable_commit [OF wr fl(1)])
  have st: "State ev w = (Inr st, w)" "terminated (content_of EventsPath w)" using wr by (auto simp: writable_def Let_def)
  then have st1: "st1 = st" using decidedD(2) [OF C(1)] by simp
  have wfe: "wf_value e" by (rule decided_event_wf [OF C(1-3) ok(1-3)]) (use st1 ok(4) in simp)
  let ?w7 = "line_landed w7 e" and ?st = "mirrored lb st e"
  have cm: "logCommit ev lb e w7 = (case SaveState ev ?st ?w7 of (Inl x, w8) \<Rightarrow> (Inl x, w8) | (Inr _, w8) \<Rightarrow> (Inr e, w8))"
    by (rule logCommit_run [OF wfe])
       (use C(4-6) st fl State_transfer [OF st(1), of w7] in \<open>simp_all add: content_of_def accessible_def\<close>)
  have "faults ?w7 = []" "flocks ?w7 = []" using C(6,7) fl by (simp_all add: world_simps line_landed_def)
  note sv = SaveState_free [OF this, of ev ?st]
  have body: "fst (Log ev ty ref data w) = fst (logCommit ev lb e w7)" by (simp add: C(8) split: prod.split)
  show ?thesis
  proof (cases "validates ev StateSchema (stamped ev (ticks ?w7) ?st)")
    case True
    then show ?thesis using sv body cm
      by (cases "SaveState ev ?st ?w7"; cases "Log ev ty ref data w") auto
  next
    case False
    then have "\<exists>es t. \<not> validates ev StateSchema (stamped ev t (set_field st ''events'' (VArr es)))"
      unfolding mirrored_def by blast
    moreover have "\<exists>w'. Log ev ty ref data w = (Inl (ESchema StateSchema), w')" using sv body cm False
      by (cases "SaveState ev ?st ?w7"; cases "Log ev ty ref data w") auto
    ultimately show ?thesis by blast
  qed
qed

text \<open>Verified campaigns and the two repairable shapes are writable.\<close>

lemma writable_lag:
  assumes "clean_ledger (content_of EventsPath w) es" "accessible w EventsPath" "State ev w = (Inr st, w)"
    "ObjAt st ''events'' = VArr m" "es \<noteq> [] \<longrightarrow> length m = length es \<or> (\<exists>k. lag_shape es m k)"
  shows "writable ev w st"
proof -
  let ?lines = "records_of (content_of EventsPath w)"
  have es: "es = map event_of ?lines" "list_all good_record ?lines" "terminated (content_of EventsPath w)"
    using assms(1) by (simp_all add: clean_ledger_def)
  have "ParseOrdered (last ?lines) \<noteq> None \<and> length m \<le> length ?lines \<and>
      (length m < length ?lines \<longrightarrow> (\<exists>r. classifyLaggingMirror ?lines m = Inr r))" if ne: "?lines \<noteq> []"
  proof -
    have "good_record (last ?lines)" using es(2) ne by (simp add: list_all_iff)
    then have hd: "ParseOrdered (last ?lines) \<noteq> None" using good_recordD by force
    have le: "length m \<le> length ?lines" using assms(5) ne es(1) by (auto simp: lag_shape_def)
    have "\<exists>r. classifyLaggingMirror ?lines m = Inr r" if lt: "length m < length ?lines"
    proof -
      obtain k where "lag_shape es m k" using assms(5) lt es(1) by fastforce
      then have "lagScanAlignedShapes \<lparr>lc_lines = ?lines, lc_mirror = m, lc_events = map event_of ?lines\<rparr> \<noteq> None"
        using es(1) lt by (intro shapes_complete [of _ k]) simp_all
      then show ?thesis unfolding classify_good [OF es(2)] by auto
    qed
    with hd le show ?thesis by blast
  qed
  then show ?thesis using assms es(3) by (simp add: writable_def Let_def)
qed

lemma window_lag_shape: "window_ok es m \<Longrightarrow> length m < length es \<Longrightarrow> lag_shape es m 0"
  by (auto simp: window_ok_def lag_shape_def min_def split: if_splits intro!: exI [of _ "length es - length m"])

lemma writable_consistent:
  assumes c: "consistent ev w st es" and ok: "schema_ok ev" shows "writable ev w st"
proof -
  have st: "State ev w = (Inr st, w)" using c by (simp add: consistent_def)
  then have "vkind (ObjAt st ''events'') = KArr" using ok by (auto simp: State_Inr schema_ok_def)
  then obtain m where m: "ObjAt st ''events'' = VArr m" by (cases "ObjAt st ''events''") auto
  have win: "window_ok es m" using c m by (simp add: consistent_def)
  then have "length m = length es \<or> (\<exists>k. lag_shape es m k)"
    using window_lag_shape [OF win] by (cases "length m < length es") (auto simp: window_ok_def)
  with c m st show ?thesis by (intro writable_lag [of w es]) (auto simp: consistent_def)
qed

end
