(* ===== verification/Rebuild.thy ===== *)
theory Rebuild
  imports LogHeal
begin

text \<open>
  What the sanctioned rebuild of the mirror vouches for. When \<open>EventsMirrorFromLog\<close> answers, the
  ledger's records all parse to objects with contiguous numbers and content hashes, each naming the
  one before, and the answer is the mirror window of that ledger. The first event's predecessor is
  not looked at, so the chain \<open>VerifyLog\<close> walks holds exactly when the first event names the genesis
  hash.
\<close>

section \<open>The fold of the tail rule\<close>

lemma tailEvents_window: "tailEvents (drop (length es - mirrorCap) es) e = drop (Suc (length es) - mirrorCap) (es @ [e])"
proof (cases "length es < mirrorCap")
  case False
  then have "Suc (length es - 1000) = length es - 999" "Suc (length es) - 1000 = length es - 999"
    by (simp_all add: mirrorCap_def)
  with False show ?thesis by (simp add: tailEvents_def mirrorCap_def)
qed (simp add: tailEvents_def mirrorCap_def)

lemma foldl_tailEvents: "foldl tailEvents [] es = drop (length es - mirrorCap) es"
  by (induction es rule: rev_induct) (simp_all add: tailEvents_window)

lemma window_of_fold: "window_ok es (foldl tailEvents [] es)"
proof -
  have "length es - (length es - (length es - mirrorCap)) = length es - mirrorCap" by simp
  then show ?thesis by (simp add: foldl_tailEvents window_ok_def min_def list_all2_same)
qed

section \<open>The checks\<close>

text \<open>An event the rebuild accepts after the prefix \<open>all\<close>.\<close>

definition rebuild_ok :: "value list \<Rightarrow> value \<Rightarrow> bool" where
  "rebuild_ok all v \<longleftrightarrow> vkind v = KObj \<and> seq_is (length all) v \<and> vkind (ObjAt v ''event_hash'') = KStr \<and>
     eventHash v = vS (ObjAt v ''event_hash'') \<and> vkind (ObjAt v ''prev_hash'') = KStr \<and>
     (all \<noteq> [] \<longrightarrow> vS (ObjAt v ''prev_hash'') = ObjStr (last all) ''event_hash'')"

lemma ObjStr_nonempty: "ObjStr v k \<noteq> [] \<Longrightarrow> vkind (ObjAt v k) = KStr \<and> ObjStr v k = vS (ObjAt v k)"
  by (auto simp: ObjStr_def Let_def split: if_splits)

lemma rebuild_check_Inr: "rebuild_check i all v = Inr u \<Longrightarrow> rebuild_ok all v"
  using ObjStr_nonempty [of v "''prev_hash''"] ObjStr_nonempty [of v "''event_hash''"]
  by (auto simp: rebuild_check_def rebuild_ok_def seq_is_def Let_def split: if_splits)

text \<open>Every event of a list is accepted after its prefix.\<close>

definition all_rebuild_ok :: "value list \<Rightarrow> bool" where
  "all_rebuild_ok es \<longleftrightarrow> (\<forall>k<length es. rebuild_ok (take k es) (es ! k))"

lemma all_rebuild_snoc: "all_rebuild_ok (es @ [e]) \<longleftrightarrow> all_rebuild_ok es \<and> rebuild_ok es e"
  by (auto simp: all_rebuild_ok_def less_Suc_eq nth_append)

lemma rebuild_loop_Inr:
  assumes "rebuild_loop i all lines = Inr es" "all_rebuild_ok all" "list_all (\<lambda>l. \<not> blankLine l) lines"
  shows "es = all @ map event_of lines \<and> list_all good_record lines \<and> all_rebuild_ok es"
  using assms
proof (induction i all lines rule: rebuild_loop.induct)
  case (1 i all)
  then show ?case by simp
next
  case (2 i all line lns)
  from "2.prems" obtain v where p: "ParseOrdered line = Some v" and c: "rebuild_check i all v = Inr ()"
      and r: "rebuild_loop (Suc i) (all @ [v]) lns = Inr es"
    by (auto simp: bindR_Inr_iff split: option.splits)
  from rebuild_check_Inr [OF c] have ok: "rebuild_ok all v" .
  then have g: "good_record line" "event_of line = v" using p by (simp_all add: good_record_def event_of_def rebuild_ok_def)
  have nb: "\<not> blankLine line" "list_all (\<lambda>l. \<not> blankLine l) lns" using "2.prems" by simp_all
  from "2.IH"(2) [OF nb(1) p r _ nb(2)] ok "2.prems"(2) g show ?case by (auto simp: all_rebuild_snoc)
qed

lemma all_rebuild_seq: "all_rebuild_ok es \<Longrightarrow> seq_break 0 es = None"
  by (simp add: seq_break_None_iff all_rebuild_ok_def rebuild_ok_def)

lemma all_rebuild_chain:
  assumes "all_rebuild_ok es" "es \<noteq> [] \<longrightarrow> vS (ObjAt (hd es) ''prev_hash'') = GenesisHash"
  shows "chain_ok es"
  using assms
proof (induction es rule: rev_induct)
  case (snoc e es)
  have ok: "rebuild_ok es e" "all_rebuild_ok es" using snoc.prems(1) by (simp_all add: all_rebuild_snoc)
  have c: "chain_ok es" using snoc.IH [OF ok(2)] snoc.prems(2) by (cases es) auto
  have "vS (ObjAt e ''prev_hash'') = chain_tip GenesisHash es"
  proof (cases "es = []")
    case True
    then show ?thesis using snoc.prems(2) by (simp add: chain_tip_def)
  next
    case False
    then have "rebuild_ok (take (length es - 1) es) (last es)"
      using ok(2) by (simp add: all_rebuild_ok_def last_conv_nth)
    then have "vkind (ObjAt (last es) ''event_hash'') = KStr" by (simp add: rebuild_ok_def)
    with False ok(1) show ?thesis by (simp add: rebuild_ok_def chain_tip_def tip_of_def ObjStr_def Let_def)
  qed
  with c ok(1) show ?case by (simp add: chain_ok_snoc linked_def rebuild_ok_def)
qed simp

lemma all_rebuild_genesis:
  assumes "all_rebuild_ok es" "chain_ok es" "es \<noteq> []" shows "vS (ObjAt (hd es) ''prev_hash'') = GenesisHash"
proof -
  obtain e fs where es: "es = e # fs" using assms(3) by (cases es) auto
  have "linked (chain_tip GenesisHash []) e" by (rule chain_ok_linked) (use assms(2) es in simp)
  moreover have "rebuild_ok [] e" using assms(1) by (auto simp: all_rebuild_ok_def es)
  ultimately show ?thesis by (simp add: es linked_def rebuild_ok_def chain_tip_def)
qed

lemma records_nonblank: "list_all (\<lambda>l. \<not> blankLine l) (records_of raw)"
  by (simp add: records_of_def list_all_iff)

lemma EventsMirrorFromLog_Inr:
  assumes "EventsMirrorFromLog w = (Inr m, w')"
  obtains es where "w' = w" "accessible w EventsPath" "es = map event_of (records_of (content_of EventsPath w))"
    "list_all good_record (records_of (content_of EventsPath w))" "all_rebuild_ok es" "m = foldl tailEvents [] es"
proof -
  from assms obtain lines w1 where l1: "logLines w = (Inr lines, w1)"
      and b: "(bindR (rebuild_loop 0 [] lines) (\<lambda>all. Inr (foldl tailEvents [] all)), w1) = (Inr m, w')"
    unfolding EventsMirrorFromLog_def bindE_Inr by blast
  have w1: "w1 = w" using l1 snd_logLines [of w] by simp
  from b obtain es where l: "logLines w = (Inr lines, w)" "w' = w" "rebuild_loop 0 [] lines = Inr es" "m = foldl tailEvents [] es"
    using l1 unfolding prod.inject bindR_Inr_iff w1 sum.inject by blast
  have lines: "lines = records_of (content_of EventsPath w)" "accessible w EventsPath" using l(1) by (simp_all add: logLines_Inr)
  have "all_rebuild_ok []" by (simp add: all_rebuild_ok_def)
  from rebuild_loop_Inr [OF l(3) this] records_nonblank [of "content_of EventsPath w", folded lines(1)] have
    "es = map event_of lines" "list_all good_record lines" "all_rebuild_ok es" by auto
  from that [OF l(2) lines(2) this(1,2) [unfolded lines(1)] this(3) l(4)] show ?thesis .
qed

section \<open>Acceptance\<close>

text \<open>On a verified ledger of chained events the rebuild answers.\<close>

definition chained :: "value \<Rightarrow> bool" where
  "chained e \<longleftrightarrow> vkind (ObjAt e ''event_hash'') = KStr \<and> vkind (ObjAt e ''prev_hash'') = KStr \<and>
     vS (ObjAt e ''prev_hash'') \<noteq> [] \<and> vS (ObjAt e ''event_hash'') \<noteq> []"

lemma rebuild_loop_accepts:
  assumes "chain_ok (all @ map event_of lines)" "seq_break 0 (all @ map event_of lines) = None"
    "list_all good_record lines" "list_all (\<lambda>l. \<not> blankLine l) lines" "list_all chained (all @ map event_of lines)"
  shows "rebuild_loop i all lines = Inr (all @ map event_of lines)"
  using assms
proof (induction lines arbitrary: i all)
  case (Cons line lns)
  let ?v = "event_of line"
  have p: "ParseOrdered line = Some ?v" "vkind ?v = KObj" using Cons.prems(3) good_recordD by auto
  have link: "linked (chain_tip GenesisHash all) ?v" by (rule chain_ok_linked) (use Cons.prems(1) in simp)
  have sq: "seq_is (length all) ?v"
    using Cons.prems(2) by (simp add: seq_break_append Let_def seq_is_def split: if_splits)
  have ch: "chained ?v" "all \<noteq> [] \<Longrightarrow> chained (last all)" using Cons.prems(5) by (simp_all add: list_all_iff)
  have "all \<noteq> [] \<longrightarrow> ObjStr ?v ''prev_hash'' = ObjStr (last all) ''event_hash''"
    using link ch by (simp add: linked_def chain_tip_def tip_of_def chained_def ObjStr_def Let_def)
  then have "rebuild_check i all ?v = Inr ()"
    using p(2) sq ch(1) link by (auto simp: rebuild_check_def Let_def seq_is_def chained_def ObjStr_def linked_def)
  moreover have "rebuild_loop (Suc i) (all @ [?v]) lns = Inr ((all @ [?v]) @ map event_of lns)"
    by (rule Cons.IH) (use Cons.prems in simp_all)
  ultimately show ?case using p(1) Cons.prems(4) by simp
qed simp

lemma EventsMirrorFromLog_accepts:
  assumes "clean_ledger (content_of EventsPath w) es" "accessible w EventsPath" "list_all chained es"
  shows "EventsMirrorFromLog w = (Inr (foldl tailEvents [] es), w)"
proof -
  let ?lines = "records_of (content_of EventsPath w)"
  have L: "logLines w = (Inr ?lines, w)" using assms(2) by (simp add: logLines_Inr)
  have "rebuild_loop 0 [] ?lines = Inr ([] @ map event_of ?lines)"
    by (rule rebuild_loop_accepts) (use assms records_nonblank in \<open>auto simp: clean_ledger_def\<close>)
  then show ?thesis using assms(1) by (simp add: EventsMirrorFromLog_def bindE_def L clean_ledger_def)
qed

end
