(* ===== verification/Tamper.thy ===== *)
theory Tamper
  imports Rebuild
begin

text \<open>
  What the hash chain protects. Two clean ledgers of the same length whose last events carry the
  same hash either hold the same hashed content event by event, or exhibit two different texts with
  the same SHA-256 digest: history cannot be edited under an unchanged head without a collision.
\<close>

section \<open>Hashed content\<close>

definition hashed_text :: "value \<Rightarrow> string" where
  "hashed_text e = CanonSpaced (pickEventBody e)"

lemma eventHash_text: "eventHash e = Sha256Hex (hashed_text e)"
  by (simp add: eventHash_def hashed_text_def)

lemma hashed_fields_utf8: "k \<in> set hashed_fields \<Longrightarrow> valid_utf8 k"
  by (auto simp: hashed_fields_def)

lemma wf_pick: "wf_value e \<Longrightarrow> wf_value (pickEventBody e)"
proof -
  assume wf: "wf_value e"
  have "wf_value (case kv_find (vO e) k of None \<Rightarrow> VNull | Some v \<Rightarrow> v)" for k
    using wf kv_find_SomeD [of "vO e" k] by (cases e) (force simp: list_all_iff split: option.splits)+
  moreover have "distinct hashed_fields" by (simp add: hashed_fields_def)
  ultimately show ?thesis using hashed_fields_utf8 by (auto simp: pickEventBody_def list_all_iff comp_def)
qed

lemma ObjAt_pick:
  assumes "vkind e = KObj" "k \<in> set hashed_fields" shows "ObjAt (pickEventBody e) k = ObjAt e k"
  using assms by (auto simp: pickEventBody_def ObjAt_def hashed_fields_def)

lemma hashed_field_eq:
  assumes "hashed_text e = hashed_text f" "wf_value e" "wf_value f" "vkind e = KObj" "vkind f = KObj" "k \<in> set hashed_fields"
  shows "keysorted (ObjAt e k) = keysorted (ObjAt f k)"
proof -
  have "keysorted (pickEventBody e) = keysorted (pickEventBody f)"
    using assms(1) Canon_eq_iff [OF wf_pick [OF assms(2)] wf_pick [OF assms(3)], of False]
    by (simp add: hashed_text_def CanonSpaced_def)
  then have "ObjAt (keysorted (pickEventBody e)) k = ObjAt (keysorted (pickEventBody f)) k" by simp
  then show ?thesis using assms by (simp add: ObjAt_norm wf_pick ObjAt_pick)
qed

lemma keysorted_string: "vkind v = KStr \<Longrightarrow> keysorted v = v" and vkind_keysorted: "vkind (keysorted v) = vkind v"
  by (cases v; simp)+

lemma prev_hash_eq:
  assumes "hashed_text e = hashed_text f" "wf_value e" "wf_value f" "vkind e = KObj" "vkind f = KObj"
    "vkind (ObjAt e ''prev_hash'') = KStr"
  shows "vS (ObjAt e ''prev_hash'') = vS (ObjAt f ''prev_hash'')"
proof -
  have "keysorted (ObjAt e ''prev_hash'') = keysorted (ObjAt f ''prev_hash'')"
    by (rule hashed_field_eq [OF assms(1-5)]) (simp add: hashed_fields_def)
  moreover from this have "vkind (ObjAt f ''prev_hash'') = KStr" using assms(6) by (metis vkind_keysorted)
  ultimately show ?thesis using assms(6) by (simp add: keysorted_string)
qed

section \<open>Collisions\<close>

definition collision :: "string \<Rightarrow> string \<Rightarrow> bool" where
  "collision s t \<longleftrightarrow> s \<noteq> t \<and> Sha256Hex s = Sha256Hex t"

definition same_history :: "value list \<Rightarrow> value list \<Rightarrow> bool" where
  "same_history es fs \<longleftrightarrow> list_all2 (\<lambda>e f. hashed_text e = hashed_text f) es fs"

definition history_collision :: "value list \<Rightarrow> value list \<Rightarrow> bool" where
  "history_collision es fs \<longleftrightarrow> (\<exists>k<length es. k < length fs \<and> collision (hashed_text (es ! k)) (hashed_text (fs ! k)))"

definition event_shape :: "value \<Rightarrow> bool" where
  "event_shape e \<longleftrightarrow> wf_value e \<and> vkind e = KObj \<and> chained e"

lemma chained_link:
  assumes "chain_ok (es @ [e])" "chained e"
  shows "chain_ok es" "eventHash e = vS (ObjAt e ''event_hash'')" "vS (ObjAt e ''prev_hash'') = chain_tip GenesisHash es"
  using assms by (auto simp: chain_ok_snoc linked_def chained_def)

lemma chain_tip_snoc: "chained e \<Longrightarrow> chain_tip p (es @ [e]) = vS (ObjAt e ''event_hash'')"
  by (simp add: chain_tip_def tip_of_def chained_def Let_def)

lemma chain_fixes_history:
  assumes "chain_ok es" "chain_ok fs" "list_all event_shape es" "list_all event_shape fs" "length es = length fs"
    "chain_tip GenesisHash es = chain_tip GenesisHash fs"
  shows "same_history es fs \<or> history_collision es fs"
  using assms
proof (induction es arbitrary: fs rule: rev_induct)
  case Nil
  then show ?case by (simp add: same_history_def)
next
  case (snoc e es)
  from snoc.prems(5) obtain fs' f where fs: "fs = fs' @ [f]" by (cases fs rule: rev_cases) auto
  have sh: "event_shape e" "event_shape f" using snoc.prems(3,4) by (simp_all add: fs)
  then have ch: "chained e" "chained f" by (simp_all add: event_shape_def)
  note le = chained_link [OF snoc.prems(1) ch(1)] and lf = chained_link [OF snoc.prems(2) [unfolded fs] ch(2)]
  have h: "Sha256Hex (hashed_text e) = Sha256Hex (hashed_text f)"
    using snoc.prems(6) le(2) lf(2) by (simp add: fs chain_tip_snoc ch eventHash_text)
  have len: "length es = length fs'" using snoc.prems(5) fs by simp
  show ?case
  proof (cases "hashed_text e = hashed_text f")
    case False
    with h len have "history_collision (es @ [e]) fs"
      unfolding history_collision_def fs by (intro exI [of _ "length es"]) (simp add: collision_def nth_append)
    then show ?thesis ..
  next
    case True
    have "chain_tip GenesisHash es = chain_tip GenesisHash fs'"
      using prev_hash_eq [OF True] sh le(3) lf(3) by (simp add: event_shape_def chained_def)
    from snoc.IH [OF le(1) lf(1) _ _ len this] snoc.prems(3,4) fs
    have "same_history es fs' \<or> history_collision es fs'" by simp
    then show ?thesis
    proof
      assume "same_history es fs'"
      with True have "same_history (es @ [e]) fs" by (simp add: same_history_def fs list_all2_appendI)
      then show ?thesis ..
    next
      assume "history_collision es fs'"
      then obtain k where "k < length es" "k < length fs'" "collision (hashed_text (es ! k)) (hashed_text (fs' ! k))"
        unfolding history_collision_def by blast
      then have "history_collision (es @ [e]) fs"
        unfolding history_collision_def fs by (intro exI [of _ k]) (simp add: nth_append)
      then show ?thesis ..
    qed
  qed
qed

lemma clean_event_shape:
  "clean_ledger raw es \<Longrightarrow> list_all chained es \<Longrightarrow> list_all event_shape es"
  using wf_clean_events [of raw es]
  by (auto simp: list_all_iff event_shape_def clean_ledger_def dest!: good_recordD)

text \<open>What the writer appends is a chained event.\<close>

lemma GenesisHash_not_Nil [simp]: "GenesisHash \<noteq> []"
  by (simp add: GenesisHash_def)

lemma eventHash_not_Nil [simp]: "eventHash e \<noteq> []"
  by (simp add: eventHash_def)

lemma chained_seal:
  assumes "wf_value (seal (event_body lb t ty refV prev))" "prev \<noteq> []"
  shows "chained (keysorted (seal (event_body lb t ty refV prev)))"
  using assms seal_hash [of lb t ty refV prev] by (simp add: chained_def ObjAt_norm)

end
