(* ===== verification/Frames.thy ===== *)
theory Frames
  imports EventLog StoreFacts
begin

text \<open>
  Frame conditions. A relation between the world before and after is a frame when it is reflexive,
  transitive, insensitive to the clock and closed under the lock bracket; every operation built from
  the primitives then keeps_to it. Three interpretations give, for \<open>Log\<close> and every operation that is
  built on it: the ledger only grows, no third file is touched, and the lock depth is balanced.
\<close>

section \<open>The contract\<close>

definition keeps_to :: "(world \<Rightarrow> world \<Rightarrow> bool) \<Rightarrow> 'a op \<Rightarrow> bool" where
  "keeps_to R m \<longleftrightarrow> (\<forall>w. R w (snd (m w)))"

text \<open>Failing leaves the relation, succeeding may leave it.\<close>

definition fails_within :: "(world \<Rightarrow> world \<Rightarrow> bool) \<Rightarrow> 'a op \<Rightarrow> bool" where
  "fails_within R m \<longleftrightarrow> (\<forall>w e w'. m w = (Inl e, w') \<longrightarrow> R w w')"

locale frame =
  fixes R :: "world \<Rightarrow> world \<Rightarrow> bool"
  assumes fr_refl: "R w w"
    and fr_trans: "R w w1 \<Longrightarrow> R w1 w2 \<Longrightarrow> R w w2"
    and fr_tick: "R w (w\<lparr>ticks := t\<rparr>)"
    and fr_refused: "LockProcess w = (Inl e, w1) \<Longrightarrow> R w w1"
    and fr_bracket: "LockProcess w = (Inr u, w1) \<Longrightarrow> R w1 w2 \<Longrightarrow> R w (UnlockProcess w2)"
begin

lemma resp_pure: "(\<And>w. snd (m w) = w) \<Longrightarrow> keeps_to R m"
  by (simp add: keeps_to_def fr_refl)

lemma resp_ret: "keeps_to R (ret x)" and resp_fail: "keeps_to R (fail e)" and resp_guard: "keeps_to R (guard b e)"
  by (simp_all add: keeps_to_def fr_refl)

lemma resp_bind:
  assumes "keeps_to R m" "\<And>x. keeps_to R (k x)" shows "keeps_to R (bindE m k)"
  unfolding keeps_to_def
proof
  fix w
  show "R w (snd (bindE m k w))"
  proof (cases "m w")
    case (Pair r w1)
    with assms(1) have "R w w1" by (metis keeps_to_def snd_conv)
    with Pair assms(2) show ?thesis
      by (cases r) (auto simp: bindE_def keeps_to_def intro: fr_trans)
  qed
qed

lemma resp_catch:
  assumes "keeps_to R m" "\<And>r. keeps_to R (k r)" shows "keeps_to R (catchE m k)"
  unfolding keeps_to_def
proof
  fix w
  show "R w (snd (catchE m k w))"
  proof (cases "m w")
    case (Pair r w1)
    with assms(1) have "R w w1" by (metis keeps_to_def snd_conv)
    with Pair assms(2) show ?thesis by (auto simp: catchE_def keeps_to_def intro: fr_trans)
  qed
qed

lemma resp_with_lock: "keeps_to R m \<Longrightarrow> keeps_to R (with_lock m)"
  unfolding keeps_to_def
proof
  fix w
  assume m: "\<forall>w. R w (snd (m w))"
  show "R w (snd (with_lock m w))"
  proof (cases "LockProcess w")
    case (Pair r w1)
    show ?thesis
    proof (cases r)
      case (Inl e)
      with Pair fr_refused show ?thesis by (simp add: with_lock_def bindE_def)
    next
      case (Inr u)
      from m have "R w1 (snd (m w1))" by blast
      with fr_bracket [of w u w1 "snd (m w1)"] Pair Inr show ?thesis by (auto simp: with_lock_def bindE_def split: prod.splits)
    qed
  qed
qed

lemma resp_nowIso: "keeps_to R (nowIso ev)"
  by (simp add: keeps_to_def nowIso_def fr_tick)

lemma resp_if: "keeps_to R m \<Longrightarrow> keeps_to R m' \<Longrightarrow> keeps_to R (if b then m else m')"
  by simp

lemma resp_State: "keeps_to R (State ev)" and resp_ReadFile: "keeps_to R (ReadFile p)" and resp_parseE: "keeps_to R (parseE s e)"
  by (rule resp_pure, simp add: world_simps)+

lemma resp_Validate: "keeps_to R (Validate ev v s)"
  by (simp add: Validate_def resp_guard)

lemma resp_stamp_updated: "keeps_to R (stamp_updated ev st)"
  unfolding stamp_updated_def by (intro resp_if resp_bind resp_nowIso resp_ret)

lemma resp_rawState: "keeps_to R rawState"
  unfolding rawState_def by (intro resp_catch resp_ReadFile resp_ret)

lemma fails_bind:
  assumes "keeps_to R m" "\<And>x. fails_within R (k x)" shows "fails_within R (bindE m k)"
  unfolding fails_within_def
proof (intro allI impI)
  fix w e w'
  assume b: "bindE m k w = (Inl e, w')"
  show "R w w'"
  proof (cases "m w")
    case (Pair r w1)
    with assms(1) have "R w w1" by (metis keeps_to_def snd_conv)
    with Pair b assms(2) show ?thesis
      by (cases r) (auto simp: bindE_def fails_within_def intro: fr_trans)
  qed
qed

lemma fails_ret: "fails_within R (ret x)"
  by (simp add: fails_within_def)

lemma fails_bind_ret: "fails_within R m \<Longrightarrow> fails_within R (bindE m (\<lambda>x. ret (g x)))"
  by (auto simp: fails_within_def bindE_Inl)

lemma fails_resp: "keeps_to R m \<Longrightarrow> fails_within R m"
  unfolding keeps_to_def fails_within_def by (metis snd_conv)

lemma fails_with_lock:
  assumes "fails_within R m" shows "fails_within R (with_lock m)"
  unfolding fails_within_def
proof (intro allI impI)
  fix w e w'
  assume "with_lock m w = (Inl e, w')"
  then show "R w w'"
  proof (cases rule: with_lock_Inl)
    case refused
    from refused(1) show ?thesis by (rule fr_refused)
  next
    case (inside w1 w2)
    with assms have "R w1 w2" unfolding fails_within_def by blast
    from fr_bracket [OF inside(1) this] inside(7) show ?thesis by simp
  qed
qed

lemmas resp_basic = resp_ret resp_fail resp_guard resp_bind resp_catch resp_with_lock resp_nowIso resp_if resp_State
  resp_ReadFile resp_parseE resp_Validate resp_stamp_updated resp_rawState

end

text \<open>Frames that also allow writing the state file.\<close>

locale state_frame = frame +
  assumes fr_replace: "R w (snd (replace_file StatePath c w))"
    and fr_remove: "R w (snd (remove_file StatePath w))"
begin

lemma resp_WriteState: "keeps_to R (WriteJson ev StatePath st schema)"
  unfolding WriteJson_def by (intro resp_basic) (simp add: keeps_to_def fr_replace)

lemma resp_SaveState: "keeps_to R (SaveState ev st)"
  unfolding SaveState_def by (intro resp_basic resp_WriteState)

lemma resp_unwindState: "keeps_to R (unwindState ev prev)"
proof -
  have "keeps_to R (remove_file StatePath)" by (simp add: keeps_to_def fr_remove)
  then show ?thesis
    unfolding unwindState_def by (cases prev) (auto intro!: resp_with_lock resp_bind resp_parseE resp_WriteState)
qed

lemma resp_or_unwind: "keeps_to R m \<Longrightarrow> keeps_to R (or_unwind ev prev m)"
  unfolding or_unwind_def
  by (intro resp_catch) (auto intro!: resp_basic resp_unwindState split: sum.splits)

end

text \<open>Frames that allow appending to the ledger as well.\<close>

locale log_frame = state_frame +
  assumes fr_append: "R w (snd (append_file EventsPath c w))"
begin

lemma resp_append: "keeps_to R (AppendJsonlAscii EventsPath line)"
  unfolding AppendJsonlAscii_def appendJsonlChecked_def
  by (intro resp_basic) (auto simp: keeps_to_def fr_append world_simps fr_refl)

lemma resp_logCommit: "keeps_to R (logCommit ev lb e)"
  unfolding logCommit_def Let_def by (intro resp_basic resp_append resp_SaveState)

lemma resp_logDisclose:
  "keeps_to R (logDiscloseRewind ev lb)" "keeps_to R (logDiscloseLagHeal ev lb)" "keeps_to R (logBuildEvent ev lb ty refV prev)"
  unfolding logDiscloseRewind_def logDiscloseLagHeal_def logBuildEvent_def Let_def by (intro resp_basic)+

lemma resp_logLines: "keeps_to R logLines"
  unfolding logLines_def by (intro resp_catch resp_basic) (auto intro!: resp_basic split: sum.splits)

lemma resp_logChecks: "keeps_to R (logProbeGenesis ev lb)" "keeps_to R (logParseChainHead lb)"
    "keeps_to R (logClassifyMirrorLag ev lb)"
  unfolding logProbeGenesis_def logParseChainHead_def logClassifyMirrorLag_def Let_def
  by (auto intro!: resp_basic split: sum.splits prod.splits)

lemma resp_Log: "keeps_to R (Log ev ty ref data)"
  unfolding Log_def Let_def
  by (intro resp_basic resp_logLines resp_logChecks resp_logDisclose resp_logCommit)

end

section \<open>The interpretations\<close>

text \<open>The ledger only grows.\<close>

definition ledger_grows :: "world \<Rightarrow> world \<Rightarrow> bool" where
  "ledger_grows w w' \<longleftrightarrow> (\<exists>s. content_of EventsPath w' = content_of EventsPath w @ s)"

lemma content_of_files: "files w' = files w \<Longrightarrow> content_of p w' = content_of p w"
  by (simp add: content_of_def)

lemma content_of_put_other [world_simps]: "q \<noteq> p \<Longrightarrow> content_of q (put_file p c w) = content_of q w"
  by (simp add: content_of_def world_simps)

lemma content_of_put_same [world_simps]: "content_of p (put_file p c w) = c"
  by (simp add: content_of_def world_simps)

lemma content_of_spend [world_simps]: "content_of p (spend w) = content_of p w"
  by (simp add: content_of_def world_simps)

lemma kv_find_filter_other: "q \<noteq> p \<Longrightarrow> kv_find (filter (\<lambda>e. fst e \<noteq> p) kvs) q = kv_find kvs q"
  by (induction kvs q rule: kv_find.induct) auto

lemma del_file_other [world_simps]: "q \<noteq> p \<Longrightarrow> kv_find (files (del_file p w)) q = kv_find (files w) q"
  by (simp add: del_file_def kv_find_filter_other)

lemma replace_file_other: "q \<noteq> p \<Longrightarrow> kv_find (files (snd (replace_file p c w))) q = kv_find (files w) q"
  by (simp add: replace_file_def world_simps split: fault.splits)

lemma append_file_other: "q \<noteq> p \<Longrightarrow> kv_find (files (snd (append_file p c w))) q = kv_find (files w) q"
  by (simp add: append_file_def world_simps split: fault.splits)

lemma remove_file_other: "q \<noteq> p \<Longrightarrow> kv_find (files (snd (remove_file p w))) q = kv_find (files w) q"
  by (simp add: remove_file_def world_simps split: fault.splits)

lemma content_of_cong: "kv_find (files w') p = kv_find (files w) p \<Longrightarrow> content_of p w' = content_of p w"
  by (simp add: content_of_def)

interpretation grows: log_frame ledger_grows
proof unfold_locales
  fix w w1 w2 :: world and t e u c
  show "ledger_grows w w" by (simp add: ledger_grows_def)
  show "ledger_grows w w1 \<Longrightarrow> ledger_grows w1 w2 \<Longrightarrow> ledger_grows w w2" by (auto simp: ledger_grows_def)
  show "ledger_grows w (w\<lparr>ticks := t\<rparr>)" by (simp add: ledger_grows_def content_of_def)
  show "LockProcess w = (Inl e, w1) \<Longrightarrow> ledger_grows w w1"
    by (auto dest!: LockProcess_frame simp: ledger_grows_def content_of_def)
  show "LockProcess w = (Inr u, w1) \<Longrightarrow> ledger_grows w1 w2 \<Longrightarrow> ledger_grows w (UnlockProcess w2)"
    by (auto dest!: LockProcess_frame simp: ledger_grows_def content_of_def world_simps)
  show "ledger_grows w (snd (replace_file StatePath c w))"
    using content_of_cong [OF replace_file_other [of EventsPath StatePath]] by (simp add: ledger_grows_def)
  show "ledger_grows w (snd (remove_file StatePath w))"
    using content_of_cong [OF remove_file_other [of EventsPath StatePath]] by (simp add: ledger_grows_def)
  show "ledger_grows w (snd (append_file EventsPath c w))"
    by (auto simp: ledger_grows_def append_file_def world_simps split: fault.splits)
qed

text \<open>No file but the ledger and the state file is touched.\<close>

definition others_same :: "world \<Rightarrow> world \<Rightarrow> bool" where
  "others_same w w' \<longleftrightarrow> (\<forall>p. p \<noteq> EventsPath \<longrightarrow> p \<noteq> StatePath \<longrightarrow> kv_find (files w') p = kv_find (files w) p)"

interpretation others: log_frame others_same
proof unfold_locales
  fix w w1 w2 :: world and t e u c
  show "others_same w w" "others_same w w1 \<Longrightarrow> others_same w1 w2 \<Longrightarrow> others_same w w2"
    "others_same w (w\<lparr>ticks := t\<rparr>)" by (simp_all add: others_same_def)
  show "LockProcess w = (Inl e, w1) \<Longrightarrow> others_same w w1"
    by (auto dest!: LockProcess_frame simp: others_same_def)
  show "LockProcess w = (Inr u, w1) \<Longrightarrow> others_same w1 w2 \<Longrightarrow> others_same w (UnlockProcess w2)"
    by (auto dest!: LockProcess_frame simp: others_same_def world_simps)
  show "others_same w (snd (replace_file StatePath c w))" "others_same w (snd (remove_file StatePath w))"
    "others_same w (snd (append_file EventsPath c w))"
    by (simp_all add: others_same_def replace_file_other remove_file_other append_file_other)
qed

text \<open>The lock depth is what it was: every acquisition is matched by its deferred release.\<close>

definition depth_same :: "world \<Rightarrow> world \<Rightarrow> bool" where
  "depth_same w w' \<longleftrightarrow> lk_depth (plock w') = lk_depth (plock w)"

interpretation depth: log_frame depth_same
proof unfold_locales
  fix w w1 w2 :: world and t e u c
  show "depth_same w w" "depth_same w w1 \<Longrightarrow> depth_same w1 w2 \<Longrightarrow> depth_same w w2"
    "depth_same w (w\<lparr>ticks := t\<rparr>)" by (simp_all add: depth_same_def)
  show "LockProcess w = (Inl e, w1) \<Longrightarrow> depth_same w w1"
    by (auto dest!: LockProcess_Inl_depth simp: depth_same_def)
  show "LockProcess w = (Inr u, w1) \<Longrightarrow> depth_same w1 w2 \<Longrightarrow> depth_same w (UnlockProcess w2)"
    by (auto dest!: LockProcess_Inr_depth simp: depth_same_def world_simps)
  show "depth_same w (snd (replace_file StatePath c w))" "depth_same w (snd (remove_file StatePath w))"
    "depth_same w (snd (append_file EventsPath c w))"
    by (simp_all add: depth_same_def replace_file_def remove_file_def append_file_def del_file_def world_simps split: fault.splits)
qed

text \<open>The state file is what it was: a frame of everything before the final save.\<close>

definition state_same :: "world \<Rightarrow> world \<Rightarrow> bool" where
  "state_same w w' \<longleftrightarrow> kv_find (files w') StatePath = kv_find (files w) StatePath"

interpretation unsaved: frame state_same
proof unfold_locales
  fix w w1 w2 :: world and t e u
  show "state_same w w" "state_same w w1 \<Longrightarrow> state_same w1 w2 \<Longrightarrow> state_same w w2"
    "state_same w (w\<lparr>ticks := t\<rparr>)" by (simp_all add: state_same_def)
  show "LockProcess w = (Inl e, w1) \<Longrightarrow> state_same w w1"
    by (auto dest!: LockProcess_frame simp: state_same_def)
  show "LockProcess w = (Inr u, w1) \<Longrightarrow> state_same w1 w2 \<Longrightarrow> state_same w (UnlockProcess w2)"
    by (auto dest!: LockProcess_frame simp: state_same_def world_simps)
qed

lemma SaveState_fails_within: "fails_within state_same (SaveState ev st)"
  by (auto simp: fails_within_def state_same_def dest: SaveState_Inl_files)

lemma append_state_same: "keeps_to state_same (AppendJsonlAscii EventsPath line)"
  unfolding AppendJsonlAscii_def appendJsonlChecked_def
  by (intro unsaved.resp_basic) (auto simp: keeps_to_def state_same_def append_file_other world_simps)

text \<open>A failing \<open>Log\<close> leaves the state file alone.\<close>

lemma Log_fails_within: "fails_within state_same (Log ev ty ref data)"
proof -
  have c: "fails_within state_same (logCommit ev lb e)" for lb e
    unfolding logCommit_def Let_def
    by (rule unsaved.fails_bind [OF append_state_same], rule unsaved.fails_bind [OF unsaved.resp_State])
       (intro unsaved.fails_bind_ret SaveState_fails_within)
  have l: "keeps_to state_same logLines"
    unfolding logLines_def by (intro unsaved.resp_catch unsaved.resp_basic) (auto intro!: unsaved.resp_basic split: sum.splits)
  have k: "keeps_to state_same (logProbeGenesis ev lb)" "keeps_to state_same (logParseChainHead lb)"
    "keeps_to state_same (logClassifyMirrorLag ev lb)" for lb
    unfolding logProbeGenesis_def logParseChainHead_def logClassifyMirrorLag_def Let_def
    by (auto intro!: unsaved.resp_basic split: sum.splits prod.splits)
  have d: "keeps_to state_same (logDiscloseRewind ev lb)" "keeps_to state_same (logDiscloseLagHeal ev lb)"
    "keeps_to state_same (logBuildEvent ev lb ty refV prev)" for lb refV prev
    unfolding logDiscloseRewind_def logDiscloseLagHeal_def logBuildEvent_def Let_def by (intro unsaved.resp_basic)+
  show ?thesis
    unfolding Log_def Let_def by (intro unsaved.fails_with_lock unsaved.fails_bind l k d c)
qed

end
