(* ===== verification/Examples.thy ===== *)
theory Examples
  imports LogLive Tamper Frames
begin

text \<open>
  Concrete campaigns the theorems are applied to: a fresh campaign with an empty ledger, the same
  campaign after one and two successful appends, and variants of it. The validator is the part of
  the campaign_state schema the log relies on. Nothing here evaluates SHA-256: that an append
  succeeds is \<open>Log_progress\<close>.
\<close>

section \<open>A fresh campaign\<close>

definition ev0 :: env where
  "ev0 = \<lparr>CampaignID = ''c1'', now = (\<lambda>t. ''2026-01-01T00:00:00+00:00''),
          validates = (\<lambda>s v. vkind v = KObj \<and> vkind (ObjAt v ''events'') = KArr), build = ''dev''\<rparr>"

definition st_with :: "value list \<Rightarrow> value" where
  "st_with m = VObj [(''campaign_id'', VStr ''c1''), (''phase'', VStr ''init''), (''events'', VArr m)]"

definition world_with :: "string \<Rightarrow> value \<Rightarrow> world" where
  "world_with ledger st = \<lparr>files = [(StatePath, File True (DumpIndented st @ NL)), (EventsPath, File True ledger)],
     ticks = 0, faults = [], plock = \<lparr>lk_open = False, lk_depth = 0\<rparr>, flocks = []\<rparr>"

lemma env0 [simp]: "clock_ok ev0" "schema_ok ev0"
  "validates ev0 s v = (vkind v = KObj \<and> vkind (ObjAt v ''events'') = KArr)"
  by (auto simp: ev0_def clock_ok_def schema_ok_def intro!: valid_utf8_ascii)

lemma st_with_simps [simp]:
  "ObjAt (st_with m) ''events'' = VArr m" "vkind (st_with m) = KObj"
  "wf_value (st_with m) = list_all wf_value m"
  by (auto simp: st_with_def intro!: valid_utf8_ascii)

lemma world_with_files [simp]:
  "kv_find (files (world_with s st)) StatePath = Some (File True (DumpIndented st @ NL))"
  "kv_find (files (world_with s st)) EventsPath = Some (File True s)"
  "kv_find (files (world_with s st)) WaiversPath = None"
  by (simp_all add: world_with_def)

lemma world_with_simps [simp]:
  "content_of EventsPath (world_with s st) = s" "accessible (world_with s st) EventsPath"
  "undisturbed (world_with s st)" "plock (world_with s st) = \<lparr>lk_open = False, lk_depth = 0\<rparr>"
  by (simp_all add: content_of_def accessible_def undisturbed_def world_with_def)

lemma State_world_with:
  "list_all wf_value m \<Longrightarrow> State ev0 (world_with s (st_with m)) = (Inr (st_with m), world_with s (st_with m))"
  using parse_Indented_NL [of "st_with m"] by (simp add: State_Inr)

lemma no_waivers: "kv_find (files w) WaiversPath = None \<Longrightarrow> waived_event_keys es = [] \<Longrightarrow> waivers_ok w es"
  by (simp add: waivers_ok_def readWaiverRowsR12_def ReadFile_def waiver_problems_def waived_row_keys_def)

lemma clean_empty [simp]: "clean_ledger [] []"
  by (simp add: clean_ledger_def terminated_def)

abbreviation w0 :: world where "w0 \<equiv> world_with [] (st_with [])"

lemma consistent_w0: "consistent ev0 w0 (st_with []) []"
  by (simp add: consistent_def State_world_with no_waivers waived_event_keys_def)

lemma size_ok_empty [simp]: "size_ok (world_with [] st)"
  by (simp add: size_ok_def int64_range_def)

section \<open>Appends that succeed\<close>

lemma args_ok_simple [simp]: "args_ok ''note'' None None"
  by (simp add: args_ok_def valid_utf8_ascii)

lemma Log_at_ev0:
  assumes "writable ev0 w st" "undisturbed w" "size_ok w" "int64_range (int (length (vA (ObjAt st ''events''))))"
  shows "\<exists>e w'. Log ev0 ''note'' None None w = (Inr e, w')"
proof -
  have st: "State ev0 w = (Inr st, w)" using assms(1) by (simp add: writable_def Let_def)
  then have "vkind st = KObj" by (auto simp: State_Inr)
  then have "validates ev0 StateSchema (stamped ev0 t (set_field st ''events'' (VArr x)))" for t x by simp
  with Log_progress [OF assms(1,2) env0(1) args_ok_simple assms(3,4)] show ?thesis by blast
qed

lemma Log_w0: "\<exists>e w'. Log ev0 ''note'' None None w0 = (Inr e, w')"
  by (rule Log_at_ev0 [OF writable_consistent [OF consistent_w0 env0(2)]]) (simp_all add: int64_range_def)

text \<open>A ledger of one event under a state whose mirror is \<open>m\<close>.\<close>

definition body1 :: "kv list" where
  "body1 = event_body ((lb_start [])\<lparr>lb_data := VObj []\<rparr>) ''2026-01-01'' ''note'' VNull GenesisHash"

definition e1 :: "value" where "e1 = seal body1"

definition ledger1 :: string where "ledger1 = CanonSpaced e1 @ NL"

lemma e1_wf [simp]: "wf_value e1"
  unfolding e1_def body1_def
  by (rule wf_seal) (auto simp: lb_start_def int64_range_def ascii_utf8 [OF GenesisHash_ascii] intro!: valid_utf8_ascii)

lemma clean_ledger1 [simp]: "clean_ledger ledger1 [keysorted e1]"
  using clean_append [OF clean_empty e1_wf] unfolding e1_def body1_def ledger1_def
  by (simp add: prev_for_def lb_start_def)

lemma e1_type [simp]: "ObjAt (keysorted e1) ''type'' = VStr ''note''"
  by (simp add: ObjAt_norm) (simp add: e1_def body1_def)

section \<open>A ledger of one unchained event\<close>

text \<open>Events older than the chain carry no hash; the first line below is one.\<close>

definition e_legacy :: "value" where "e_legacy = VObj [(''seq'', VInt 0)]"

definition ledgerL :: string where "ledgerL = CanonSpaced e_legacy @ NL"

lemma e_legacy_wf [simp]: "wf_value e_legacy" "keysorted e_legacy = e_legacy"
  by (auto simp: e_legacy_def int64_range_def intro!: valid_utf8_ascii)

lemma length_ledgerL: "length ledgerL = 11"
  by (simp add: ledgerL_def e_legacy_def CanonSpaced_def Canon_def quoted_def writeEscaped_def esc_ascii_def
      named_escape_def encode_rune_ascii NL_def FormatInt_def nat_digits.simps)

lemma records_ledgerL: "records_of ledgerL = [CanonSpaced e_legacy]"
proof -
  have "CHR 0x0A \<notin> set (CanonSpaced e_legacy)" by (rule printables_no_newline [OF CanonSpaced_printables [OF e_legacy_wf(1)]])
  moreover have "\<not> blankLine (CanonSpaced e_legacy)" unfolding e_legacy_def by (rule CanonSpaced_VObj_nonblank)
  ultimately show ?thesis using records_of_append [of "[]" "CanonSpaced e_legacy"]
    by (simp add: ledgerL_def terminated_def)
qed

lemma event_of_legacy: "event_of (CanonSpaced e_legacy) = e_legacy" "good_record (CanonSpaced e_legacy)"
  using parse_CanonSpaced [OF e_legacy_wf(1)] by (simp_all add: event_of_def good_record_def) (simp add: e_legacy_def)

lemma clean_ledgerL: "clean_ledger ledgerL [e_legacy]"
proof -
  have "chain_ok ([] @ [e_legacy])"
    unfolding chain_ok_snoc by (simp add: linked_def e_legacy_def)
  then show ?thesis
    by (simp add: clean_ledger_def records_ledgerL event_of_legacy) (simp add: ledgerL_def terminated_def NL_def e_legacy_def)
qed

lemma size_ok_L [simp]: "size_ok (world_with ledgerL st)"
  by (simp add: size_ok_def length_ledgerL int64_range_def)

lemma waivers_L [simp]: "waivers_ok (world_with s st) [e_legacy]"
  by (rule no_waivers) (simp_all add: waived_event_keys_def e_legacy_def)

lemma waivers_none [simp]: "waivers_ok (world_with s st) []"
  by (rule no_waivers) (simp_all add: waived_event_keys_def)

text \<open>A mirror that missed the event, one that has lost it, one that was edited, one that is ahead.\<close>

abbreviation w_lag :: world where "w_lag \<equiv> world_with ledgerL (st_with [])"
abbreviation w_rewound :: world where "w_rewound \<equiv> world_with [] (st_with [e_legacy])"
abbreviation w_edited :: world where "w_edited \<equiv> world_with ledgerL (st_with [VNull])"
abbreviation w_ahead :: world where "w_ahead \<equiv> world_with ledgerL (st_with [e_legacy, e_legacy])"

lemma writable_examples:
  "writable ev0 w_lag (st_with [])" "writable ev0 w_rewound (st_with [e_legacy])" "writable ev0 w_edited (st_with [VNull])"
proof -
  have "lag_shape [e_legacy] [] 1" by (simp add: lag_shape_def)
  then show "writable ev0 w_lag (st_with [])"
    by (intro writable_lag [of _ "[e_legacy]"]) (auto simp: clean_ledgerL State_world_with)
  show "writable ev0 w_rewound (st_with [e_legacy])"
    by (intro writable_lag [of _ "[]"]) (auto simp: State_world_with)
  show "writable ev0 w_edited (st_with [VNull])"
    by (intro writable_lag [of _ "[e_legacy]"]) (auto simp: clean_ledgerL State_world_with)
qed

lemma Log_examples:
  "\<exists>e w'. Log ev0 ''note'' None None w_lag = (Inr e, w')"
  "\<exists>e w'. Log ev0 ''note'' None None w_rewound = (Inr e, w')"
  "\<exists>e w'. Log ev0 ''note'' None None w_edited = (Inr e, w')"
  by (rule Log_at_ev0 [OF writable_examples(1)], simp_all add: int64_range_def)
     (rule Log_at_ev0 [OF writable_examples(2)] Log_at_ev0 [OF writable_examples(3)], simp_all add: int64_range_def)+

lemma edited_not_window: "\<not> window_ok [e_legacy] [VNull]"
proof -
  have "\<not> valueEq VNull e_legacy" by (simp add: valueEq_def CanonSpaced_def Canon_def e_legacy_def)
  then show ?thesis by (simp add: window_ok_def)
qed

lemma ahead_unwritable: "unwritable ev0 w_ahead"
  by (simp add: unwritable_def Let_def State_world_with records_ledgerL)

text \<open>A campaign whose lock another process holds.\<close>

abbreviation w_locked :: world where "w_locked \<equiv> w0\<lparr>flocks := [(True, [WouldBlock])]\<rparr>"

lemma Log_locked: "\<exists>w'. Log ev0 ''note'' None None w_locked = (Inl (ELock LockTimeout), w')"
  by (simp add: Log_def with_lock_def bindE_def LockProcess_def pl_lock_def world_with_def)

end
