(* ===== verification/LedgerProperties.thy ===== *)
theory LedgerProperties
  imports Examples
begin

text \<open>
  The properties of the event ledger: what the verifier certifies, that the writer keeps it, when
  the writer answers, what it heals, what it refuses, and what the chain protects.
\<close>


text \<open>C1: from a campaign that verifies, every successful \<open>Log\<close> of an ordinary event leads to a campaign
  that verifies.\<close>

theorem log_preserves_verdict:
  assumes "verify_green ev w" "Log ev ty ref data w = (Inr e, w')"
    and "clock_ok ev" "schema_ok ev" "args_ok ty ref data" "size_ok w" "ty \<noteq> ''completion.waived''"
  shows "verify_green ev w'"
  by (rule Log_keeps_green [OF assms])

lemma green_w0: "verify_green ev0 w0"
  using consistent_w0 verdict_ok_iff by blast

theorem log_preserves_verdict_witness: "\<exists>e w'. Log ev0 ''note'' None None w0 = (Inr e, w') \<and> verify_green ev0 w'"
  using Log_w0 log_preserves_verdict [OF green_w0, of "''note''" None None] by auto



text \<open>C4: whatever \<open>Log\<close> answers, from any state of the disk: the ledger's old bytes are a prefix of its new
  bytes, no file but the ledger and the state is touched, and the lock depth is what it was.\<close>

theorem log_append_only:
  "ledger_grows w (snd (Log ev ty ref data w)) \<and> others_same w (snd (Log ev ty ref data w)) \<and>
   depth_same w (snd (Log ev ty ref data w))"
  using grows.resp_Log others.resp_Log depth.resp_Log unfolding keeps_to_def by blast

text \<open>A failing \<open>Log\<close> leaves the state file's bytes as they were.\<close>

theorem log_failure_keeps_state:
  assumes "Log ev ty ref data w = (Inl x, w')" shows "state_same w w'"
  using Log_fails_within assms unfolding fails_within_def by blast

theorem log_failure_keeps_state_witness:
  "\<exists>w'. Log ev0 ''note'' None None w_locked = (Inl (ELock LockTimeout), w') \<and> state_same w_locked w'"
  using Log_locked log_failure_keeps_state by blast

text \<open>C5: \<open>Log\<close> refuses, leaving every file as it was, when the ledger is unreadable or does not end in a
  newline, when its last record does not parse, when the state cannot be read, when the mirror holds
  more events than the ledger, or when a shorter mirror is no lagging copy of the ledger.\<close>

theorem log_refuses_damage:
  assumes "unwritable ev w" "Log ev ty ref data w = (r, w')"
  shows "(\<exists>x. r = Inl x) \<and> files w' = files w"
  by (rule Log_refuses [OF assms])

theorem log_refuses_damage_witness: "files (snd (Log ev0 ''note'' None None w_ahead)) = files w_ahead"
  by (rule conjunct2 [OF log_refuses_damage [OF ahead_unwritable prod.collapse [symmetric]]])

text \<open>C6: over a clean ledger a mirror that lags it is healed: a successful \<open>Log\<close> leads to a campaign that
  verifies, and when the mirror was not already the window, the new event discloses by how many
  events it was behind.\<close>

theorem log_heals_lagging_mirror:
  assumes "Log ev ty ref data w = (Inr e, w')" "clean_ledger (content_of EventsPath w) es"
    and "State ev w = (Inr st, w)" "ObjAt st ''events'' = VArr m" "length m < length es" "waivers_ok w es"
    and "clock_ok ev" "schema_ok ev" "args_ok ty ref data" "size_ok w" "ty \<noteq> ''completion.waived''"
  shows "verify_green ev w' \<and> (\<not> window_ok es m \<longrightarrow> (\<exists>k>0. lag_shape es m k \<and>
    ObjAt (ObjAt (ObjAt e ''data'') ''mirror_lag_healed'') ''adopted_from_log'' = VInt (int k)))"
  using Log_heals_lag [OF assms] Log_discloses_lag [OF assms(1-5)] verdict_ok_iff by blast

theorem log_heals_lagging_mirror_witness:
  "\<exists>e w'. Log ev0 ''note'' None None w_lag = (Inr e, w') \<and> verify_green ev0 w'"
proof -
  obtain e w' where l: "Log ev0 ''note'' None None w_lag = (Inr e, w')" using Log_examples(1) by blast
  have "verify_green ev0 w'"
    using log_heals_lagging_mirror [OF l, of "[e_legacy]" "st_with []" "[]"] by (simp add: clean_ledgerL State_world_with)
  with l show ?thesis by blast
qed

text \<open>When the ledger holds no records but the mirror does, a successful \<open>Log\<close> starts a new chain from
  the genesis hash, leads to a campaign that verifies, and its first event discloses how many
  mirrored events were dropped and whether the mirror was at its cap.\<close>

theorem log_rewinds_disclosed:
  assumes "Log ev ty ref data w = (Inr e, w')" "clean_ledger (content_of EventsPath w) []"
    and "State ev w = (Inr st, w)" "ObjAt st ''events'' = VArr m" "m \<noteq> []" "int64_range (int (length m))" "waivers_ok w []"
    and "clock_ok ev" "schema_ok ev" "args_ok ty ref data" "size_ok w" "ty \<noteq> ''completion.waived''"
  shows "verify_green ev w' \<and> ObjAt e ''prev_hash'' = VStr GenesisHash \<and> ObjAt e ''seq'' = VInt 0 \<and>
    ObjAt (ObjAt (ObjAt e ''data'') ''ledger_rewound'') ''dropped_tail'' = VInt (int (length m)) \<and>
    ObjAt (ObjAt (ObjAt e ''data'') ''ledger_rewound'') ''mirror_capped'' = (if length m \<ge> mirrorCap then VBool True else VNull)"
proof -
  have "records_of (content_of EventsPath w) = []" using assms(2) by (simp add: clean_ledger_def)
  from Log_discloses_rewind [OF assms(1) this assms(3-5)] Log_rewinds [OF assms(1-4) assms(6-)] verdict_ok_iff
  show ?thesis by blast
qed

theorem log_rewinds_disclosed_witness:
  "\<exists>e w'. Log ev0 ''note'' None None w_rewound = (Inr e, w') \<and>
     ObjAt (ObjAt (ObjAt e ''data'') ''ledger_rewound'') ''dropped_tail'' = VInt 1"
proof -
  obtain e w' where l: "Log ev0 ''note'' None None w_rewound = (Inr e, w')" using Log_examples(2) by blast
  from log_rewinds_disclosed [OF l, of "st_with [e_legacy]" "[e_legacy]"] l show ?thesis
    by (auto simp: State_world_with int64_range_def)
qed

text \<open>A mirror of exactly the ledger's length is not compared with it: below the cap, \<open>Log\<close> over an
  edited mirror succeeds and the campaign still does not verify.\<close>

theorem log_keeps_edited_mirror:
  assumes "Log ev ty ref data w = (Inr e, w')" "clean_ledger (content_of EventsPath w) es"
    and "State ev w = (Inr st, w)" "ObjAt st ''events'' = VArr m" "length m = length es" "\<not> window_ok es m"
    and "length es < mirrorCap" "clock_ok ev" "schema_ok ev" "args_ok ty ref data" "size_ok w"
  shows "\<not> verify_green ev w'"
  by (rule Log_keeps_edited_mirror [OF assms])

theorem log_keeps_edited_mirror_witness:
  "\<exists>e w'. Log ev0 ''note'' None None w_edited = (Inr e, w') \<and> \<not> verify_green ev0 w'"
proof -
  obtain e w' where l: "Log ev0 ''note'' None None w_edited = (Inr e, w')" using Log_examples(3) by blast
  from log_keeps_edited_mirror [OF l, of "[e_legacy]" "st_with [VNull]" "[VNull]"] l edited_not_window show ?thesis
    by (auto simp: State_world_with clean_ledgerL mirrorCap_def)
qed

text \<open>C7: two clean ledgers of chained events with the same length and the same last hash hold the same
  hashed content event by event, or they exhibit two different texts with one SHA-256 digest.\<close>

theorem chain_tamper_evidence:
  assumes "clean_ledger raw es" "clean_ledger raw' fs" "list_all chained es" "list_all chained fs"
    and "length es = length fs" "chain_tip GenesisHash es = chain_tip GenesisHash fs"
  shows "same_history es fs \<or> history_collision es fs"
  by (rule chain_fixes_history)
     (use assms clean_event_shape in \<open>auto simp: clean_ledger_def\<close>)

lemma chained_e1: "chained (keysorted e1)"
  unfolding e1_def body1_def by (rule chained_seal) (use e1_wf in \<open>simp_all add: e1_def body1_def\<close>)

theorem chain_tamper_evidence_witness:
  "same_history [keysorted e1] [keysorted e1] \<or> history_collision [keysorted e1] [keysorted e1]"
  by (rule chain_tamper_evidence [OF clean_ledger1 clean_ledger1]) (simp_all add: chained_e1)

text \<open>C13: when the rebuild of the mirror answers, the ledger's records are objects with contiguous numbers,
  content hashes and backward links, its answer is the mirror window of those records, and the chain
  holds exactly when the first record names the genesis hash.\<close>

theorem rebuild_sound:
  assumes "EventsMirrorFromLog w = (Inr m, w')"
  shows "\<exists>es. es = map event_of (records_of (content_of EventsPath w)) \<and>
    list_all good_record (records_of (content_of EventsPath w)) \<and> seq_break 0 es = None \<and> window_ok es m \<and>
    (chain_ok es \<longleftrightarrow> (es \<noteq> [] \<longrightarrow> vS (ObjAt (hd es) ''prev_hash'') = GenesisHash))"
proof -
  obtain es where "es = map event_of (records_of (content_of EventsPath w))" "m = foldl tailEvents [] es"
    "list_all good_record (records_of (content_of EventsPath w))" "all_rebuild_ok es"
    by (rule EventsMirrorFromLog_Inr [OF assms])
  with all_rebuild_seq all_rebuild_chain all_rebuild_genesis window_of_fold show ?thesis by blast
qed

theorem rebuild_sound_witness:
  "\<exists>es. es = map event_of (records_of ledger1) \<and> window_ok es [keysorted e1]"
proof -
  have "EventsMirrorFromLog (world_with ledger1 (st_with [])) = (Inr (foldl tailEvents [] [keysorted e1]), world_with ledger1 (st_with []))"
    by (rule EventsMirrorFromLog_accepts) (simp_all add: chained_e1)
  from rebuild_sound [OF this] show ?thesis by (auto simp: tailEvents_def mirrorCap_def)
qed

text \<open>On a clean ledger of chained events the rebuild answers, with the last-1000 window.\<close>

theorem rebuild_complete:
  assumes "clean_ledger (content_of EventsPath w) es" "accessible w EventsPath" "list_all chained es"
  shows "EventsMirrorFromLog w = (Inr (drop (length es - mirrorCap) es), w)"
  using EventsMirrorFromLog_accepts [OF assms] by (simp add: foldl_tailEvents)

theorem rebuild_complete_witness:
  "EventsMirrorFromLog (world_with ledger1 (st_with [])) = (Inr [keysorted e1], world_with ledger1 (st_with []))"
  using rebuild_complete [of "world_with ledger1 (st_with [])" "[keysorted e1]"] by (simp add: chained_e1 mirrorCap_def)

text \<open>The reader that reports the ledger's tail and the writer's tail check agree: an append of an ASCII
  line is refused as torn exactly when the framing reader calls the tail torn, and a torn tail makes
  the verdict red.\<close>

theorem torn_tail_agreement:
  "(fst (checkJsonlTail EventsPath w) = Inl (ETornTail EventsPath) \<longleftrightarrow>
      (\<exists>t. fst (LedgerTailFraming w) = Inr t \<and> lt_Torn t)) \<and>
   (fst (checkJsonlTail EventsPath w) = Inl (ETornTail EventsPath) \<longrightarrow> \<not> verify_green ev w)"
proof -
  have a: "fst (checkJsonlTail EventsPath w) = Inl (ETornTail EventsPath) \<longleftrightarrow>
      (\<exists>c. kv_find (files w) EventsPath = Some (File True c) \<and> \<not> terminated c)"
    by (cases rule: ReadFile_cases [of EventsPath w]) (auto simp: checkJsonlTail_def terminated_def)
  have b: "(\<exists>t. fst (LedgerTailFraming w) = Inr t \<and> lt_Torn t) \<longleftrightarrow>
      (\<exists>c. kv_find (files w) EventsPath = Some (File True c) \<and> \<not> terminated c)"
    by (cases rule: ReadFile_cases [of EventsPath w])
       (auto simp: LedgerTailFraming_def catchE_def no_ledger_tail_def ledgerTail_torn)
  have "\<not> verify_green ev w" if "kv_find (files w) EventsPath = Some (File True c)" "\<not> terminated c" for c
    using that by (auto simp: verdict_ok_iff consistent_def clean_ledger_def content_of_def)
  with a b show ?thesis by blast
qed

theorem torn_tail_agreement_witness:
  "\<not> verify_green ev0 (world_with ''x'' (st_with []))"
  using conjunct2 [OF torn_tail_agreement [of "world_with ''x'' (st_with [])" ev0]] by (simp add: checkJsonlTail_def)

text \<open>C14: whatever order processes acquire, re-enter, release, time out or die in, at most one of them is
  inside its window.\<close>

theorem lock_mutual_exclusion:
  assumes "lock_reachable s" "lk_depth (handles s p) > 0" "lk_depth (handles s q) > 0"
  shows "p = q"
  using lock_reachable_inv [OF assms(1)] assms(2,3) by (auto simp: lock_inv_def)

theorem lock_mutual_exclusion_witness:
  "\<exists>s. lock_reachable s \<and> lk_depth (handles s (1::nat)) > 0 \<and> (\<forall>q. lk_depth (handles s q) > 0 \<longrightarrow> 1 = q)"
proof -
  let ?s = "snd (sys_lock (1::nat) sys_init)"
  have r: "lock_reachable ?s" by (rule reach_step [OF reach_init step_lock])
  have d: "lk_depth (handles ?s 1) > 0" by (simp add: sys_lock_def sys_init_def pl_lock_def kernel_answer_def)
  from r d lock_mutual_exclusion [OF r d] show ?thesis by blast
qed

end
