(* ===== verification/Triples.thy ===== *)
theory Triples
  imports LogLive Frames
begin

text \<open>
  A Hoare logic for the operations of a campaign. A triple has a postcondition for success and one
  for failure; it speaks about runs whose final ledger still fits a Go file size, which every
  intermediate ledger of the run then does, since the ledger only grows. The predicate \<open>healthy\<close> is
  the invariant of a campaign between operations: the ledger is clean and the mirror is its window
  or a lagging copy of it.
\<close>

section \<open>Undisturbed runs\<close>

text \<open>No write fault and no contention is lost by running an operation.\<close>

definition calm :: "world \<Rightarrow> world \<Rightarrow> bool" where
  "calm w w' \<longleftrightarrow> (undisturbed w \<longrightarrow> undisturbed w') \<and> (accessible w StatePath \<longrightarrow> accessible w' StatePath)"

lemma accessible_put [world_simps]: "accessible (put_file p c w) q = accessible w q"
  by (cases "q = p") (auto simp: accessible_def world_simps)

lemma accessible_del: "accessible w q \<Longrightarrow> accessible (del_file p w) q"
proof (cases "q = p")
  case True
  have "kv_find (files (del_file p w)) p = None" by (auto simp: del_file_def kv_find_None_iff)
  with True show ?thesis by (simp add: accessible_def)
qed (simp add: accessible_def del_file_other)

lemma accessible_spend [world_simps]: "accessible (spend w) q = accessible w q"
  by (simp add: accessible_def world_simps)

lemma undisturbed_lock:
  "LockProcess w = (r, w') \<Longrightarrow> undisturbed w \<Longrightarrow> undisturbed w'"
  by (auto simp: undisturbed_def LockProcess_def Let_def split: prod.splits sum.splits)

interpretation calm: log_frame calm
proof unfold_locales
  fix w w1 w2 :: world and t e u c
  show "calm w w" "calm w w1 \<Longrightarrow> calm w1 w2 \<Longrightarrow> calm w w2" "calm w (w\<lparr>ticks := t\<rparr>)"
    by (auto simp: calm_def undisturbed_def accessible_def)
  show "LockProcess w = (Inl e, w1) \<Longrightarrow> calm w w1"
    using undisturbed_lock [of w "Inl e" w1] by (auto dest: LockProcess_frame simp: calm_def accessible_def)
  show "LockProcess w = (Inr u, w1) \<Longrightarrow> calm w1 w2 \<Longrightarrow> calm w (UnlockProcess w2)"
    using undisturbed_lock [of w "Inr u" w1]
    by (auto dest!: LockProcess_frame simp: calm_def accessible_def undisturbed_def world_simps UnlockProcess_def)
  show "calm w (snd (replace_file StatePath c w))" "calm w (snd (append_file EventsPath c w))"
    by (auto simp: calm_def undisturbed_def replace_file_def append_file_def world_simps split: fault.splits)
  show "calm w (snd (remove_file StatePath w))"
    by (auto simp: calm_def undisturbed_def remove_file_def world_simps accessible_del del_file_def split: fault.splits)
       (auto simp: accessible_del [unfolded del_file_def])
qed

section \<open>Triples\<close>

definition valid :: "(world \<Rightarrow> bool) \<Rightarrow> 'a op \<Rightarrow> ('a \<Rightarrow> world \<Rightarrow> bool) \<Rightarrow> (world \<Rightarrow> bool) \<Rightarrow> bool" where
  "valid P m Q E \<longleftrightarrow> keeps_to ledger_grows m \<and>
     (\<forall>w. P w \<longrightarrow> size_ok (snd (m w)) \<longrightarrow> (case m w of (Inr x, w') \<Rightarrow> Q x w' | (Inl e, w') \<Rightarrow> E w'))"

lemma size_ok_grows: "ledger_grows w w' \<Longrightarrow> size_ok w' \<Longrightarrow> size_ok w"
  by (auto simp: size_ok_def ledger_grows_def int64_range_def)

lemma valid_grows: "valid P m Q E \<Longrightarrow> keeps_to ledger_grows m"
  by (simp add: valid_def)

lemma valid_run:
  "valid P m Q E \<Longrightarrow> P w \<Longrightarrow> m w = (r, w') \<Longrightarrow> size_ok w' \<Longrightarrow> (case r of Inr x \<Rightarrow> Q x w' | Inl e \<Rightarrow> E w')"
  unfolding valid_def by (metis (no_types, lifting) old.prod.case snd_conv sum.case_eq_if)

lemma validI:
  assumes "keeps_to ledger_grows m"
    and "\<And>w r w'. P w \<Longrightarrow> m w = (r, w') \<Longrightarrow> size_ok w' \<Longrightarrow> (case r of Inr x \<Rightarrow> Q x w' | Inl e \<Rightarrow> E w')"
  shows "valid P m Q E"
  unfolding valid_def
proof (intro conjI allI impI assms(1))
  fix w assume P: "P w" and s: "size_ok (snd (m w))"
  show "case m w of (Inr x, w') \<Rightarrow> Q x w' | (Inl e, w') \<Rightarrow> E w'"
  proof (cases "m w")
    case (Pair r w')
    with assms(2) [OF P Pair] s show ?thesis by (simp add: case_sum_if split: sum.splits)
  qed
qed

lemma v_weaken:
  assumes "valid P' m Q' E'" "\<And>w. P w \<Longrightarrow> P' w" "\<And>x w. Q' x w \<Longrightarrow> Q x w" "\<And>w. E' w \<Longrightarrow> E w"
  shows "valid P m Q E"
proof (rule validI [OF valid_grows [OF assms(1)]])
  fix w r w' assume "P w" "m w = (r, w')" "size_ok w'"
  then show "case r of Inr x \<Rightarrow> Q x w' | Inl e \<Rightarrow> E w'"
    using valid_run [OF assms(1) assms(2)] assms(3,4) by (fastforce split: sum.splits)
qed

lemma v_bind:
  assumes "valid P m R E" "\<And>x. valid (R x) (k x) Q E" shows "valid P (bindE m k) Q E"
proof (rule validI)
  show "keeps_to ledger_grows (bindE m k)"
    by (rule grows.resp_bind) (use assms valid_grows in blast)+
  fix w r w' assume P: "P w" and run: "bindE m k w = (r, w')" and s: "size_ok w'"
  show "case r of Inr x \<Rightarrow> Q x w' | Inl e \<Rightarrow> E w'"
  proof (cases "m w")
    case (Pair r1 w1)
    show ?thesis
    proof (cases r1)
      case (Inl e)
      with Pair run have "r = Inl e" "w' = w1" by (simp_all add: bindE_def)
      with valid_run [OF assms(1) P Pair] s Inl show ?thesis by simp
    next
      case (Inr x)
      with Pair run have k: "k x w1 = (r, w')" by (simp add: bindE_def)
      have "ledger_grows w1 w'" using valid_grows [OF assms(2)] k by (metis keeps_to_def snd_conv)
      with s have "size_ok w1" by (metis size_ok_grows)
      with valid_run [OF assms(1) P Pair] Inr have "R x w1" by simp
      from valid_run [OF assms(2) this k s] show ?thesis .
    qed
  qed
qed

lemma v_catch:
  assumes m: "valid P m R E'" and k: "\<And>x. valid (R x) (k (Inr x)) Q E" "\<And>e. valid E' (k (Inl e)) Q E"
  shows "valid P (catchE m k) Q E"
proof (rule validI)
  have g: "keeps_to ledger_grows (k r)" for r using k valid_grows by (cases r) blast+
  show "keeps_to ledger_grows (catchE m k)" by (rule grows.resp_catch [OF valid_grows [OF m] g])
  fix w r w' assume P: "P w" and run: "catchE m k w = (r, w')" and s: "size_ok w'"
  obtain r1 w1 where m1: "m w = (r1, w1)" by (cases "m w")
  with run have k1: "k r1 w1 = (r, w')" by (simp add: catchE_def)
  have "ledger_grows w1 w'" using g k1 unfolding keeps_to_def by (metis snd_conv)
  then have s1: "size_ok w1" using s by (rule size_ok_grows)
  show "case r of Inr x \<Rightarrow> Q x w' | Inl e \<Rightarrow> E w'"
  proof (cases r1)
    case (Inl e)
    with valid_run [OF m P m1 s1] have "E' w1" by simp
    from valid_run [OF k(2) this k1 [unfolded Inl] s] show ?thesis .
  next
    case (Inr x)
    with valid_run [OF m P m1 s1] have "R x w1" by simp
    from valid_run [OF k(1) this k1 [unfolded Inr] s] show ?thesis .
  qed
qed

lemma v_ret: "(\<And>w. P w \<Longrightarrow> Q x w) \<Longrightarrow> valid P (ret x) Q E"
  by (rule validI) (auto simp: grows.resp_ret)

lemma v_fail: "(\<And>w. P w \<Longrightarrow> E w) \<Longrightarrow> valid P (fail e) Q E"
  by (rule validI) (auto simp: grows.resp_fail)

lemma v_guard: "(\<And>w. P w \<Longrightarrow> b \<Longrightarrow> Q () w) \<Longrightarrow> (\<And>w. P w \<Longrightarrow> \<not> b \<Longrightarrow> E w) \<Longrightarrow> valid P (guard b e) Q E"
  by (rule validI) (auto simp: grows.resp_guard split: if_splits)

lemma v_if: "(b \<Longrightarrow> valid P m Q E) \<Longrightarrow> (\<not> b \<Longrightarrow> valid P m' Q E) \<Longrightarrow> valid P (if b then m else m') Q E"
  by simp

lemma v_pre: "(\<And>w. P w \<Longrightarrow> \<exists>a. P' a w) \<Longrightarrow> (\<And>a. valid (P' a) m Q E) \<Longrightarrow> valid P m Q E"
  by (rule validI) (metis valid_def, metis valid_run)

lemma v_pure: "(\<And>w. P w \<Longrightarrow> A) \<Longrightarrow> keeps_to ledger_grows m \<Longrightarrow> (A \<Longrightarrow> valid P m Q E) \<Longrightarrow> valid P m Q E"
  by (rule validI) (auto dest: valid_run)

text \<open>Predicates that only look at the files and at the absence of faults.\<close>

definition of_files :: "(world \<Rightarrow> bool) \<Rightarrow> bool" where
  "of_files P \<longleftrightarrow> (\<forall>w w'. P w \<longrightarrow> files w' = files w \<longrightarrow> (undisturbed w \<longrightarrow> undisturbed w') \<longrightarrow> P w')"

lemma of_filesD: "of_files P \<Longrightarrow> P w \<Longrightarrow> files w' = files w \<Longrightarrow> (undisturbed w \<Longrightarrow> undisturbed w') \<Longrightarrow> P w'"
  by (auto simp: of_files_def)

lemma undisturbed_unlock: "undisturbed w \<Longrightarrow> undisturbed (UnlockProcess w)"
  by (simp add: undisturbed_def UnlockProcess_def)

lemma v_lock:
  assumes v: "valid P m Q E" and P: "of_files P" and Q: "\<And>x. of_files (Q x)" and E: "of_files E"
    and refused: "\<And>w. P w \<Longrightarrow> E w"
  shows "valid P (with_lock m) Q E"
proof (rule validI [OF grows.resp_with_lock [OF valid_grows [OF v]]])
  fix w r w' assume Pw: "P w" and run: "with_lock m w = (r, w')" and s: "size_ok w'"
  show "case r of Inr x \<Rightarrow> Q x w' | Inl e \<Rightarrow> E w'"
  proof (cases "LockProcess w")
    case (Pair r1 w1)
    note fr = LockProcess_frame [OF Pair] and und = undisturbed_lock [OF Pair]
    show ?thesis
    proof (cases r1)
      case (Inl e)
      with Pair run have "r = Inl e" "w' = w1" by (simp_all add: with_lock_def bindE_def)
      moreover have "E w1" by (rule of_filesD [OF E refused [OF Pw]]) (use fr und in auto)
      ultimately show ?thesis by simp
    next
      case (Inr u)
      then have lk: "LockProcess w = (Inr (), w1)" using Pair by simp
      have P1: "P w1" by (rule of_filesD [OF P Pw]) (use fr und in auto)
      obtain r2 w2 where m: "m w1 = (r2, w2)" by (cases "m w1")
      with with_lock_run [OF lk, of m] run have w': "r = r2" "w' = UnlockProcess w2" by simp_all
      have s2: "size_ok w2" using s w'(2) by (simp add: size_ok_def content_of_def world_simps)
      have f: "files w' = files w2" "undisturbed w2 \<Longrightarrow> undisturbed w'"
        using w'(2) undisturbed_unlock by (simp_all add: world_simps)
      from valid_run [OF v P1 m s2] show ?thesis unfolding w'(1)
        by (cases r2) (auto intro: of_filesD [OF Q _ f] of_filesD [OF E _ f])
    qed
  qed
qed

lemma v_nowIso:
  assumes P: "of_files P" and Q: "\<And>w t. P w \<Longrightarrow> t \<in> range (now ev) \<Longrightarrow> Q t w"
  shows "valid P (nowIso ev) Q E"
proof (rule validI [OF grows.resp_nowIso])
  fix w r w' assume Pw: "P w" and run: "nowIso ev w = (r, w')"
  have r: "r = Inr (now ev (ticks w))" "w' = w\<lparr>ticks := Suc (ticks w)\<rparr>" using run by (auto simp: nowIso_def)
  have "P w'" by (rule of_filesD [OF P Pw]) (simp_all add: r undisturbed_def)
  then show "case r of Inr x \<Rightarrow> Q x w' | Inl e \<Rightarrow> E w'" using Q r(1) by simp
qed

end
