(* ===== verification/Phases.thy ===== *)
theory Phases
  imports EventLog
begin

text \<open>
  The campaign's state machine and budget of \<^verbatim>\<open>internal/state/phases.go\<close>: every method takes the
  lock, snapshots the state's bytes, edits the projection, saves it and records the decision in the
  ledger, restoring the snapshot when the ledger refuses.
\<close>

section \<open>Phases\<close>

definition Phases :: "string list" where
  "Phases = [''SCOPE'', ''SNAPSHOT'', ''STRUCTURAL_INDEX'', ''PROTOCOL_INTELLIGENCE'', ''CAMPAIGN_PLANNING'',
     ''DISCOVERY'', ''CANDIDATE_INTEL'', ''HOSTILE_REVIEW'', ''REPRODUCTION'', ''CHAINING'', ''MAXIMAL_EXPLOITATION'',
     ''INDEPENDENT_VERIFICATION'', ''RISK_CALIBRATION'', ''MAINNET_FORK_POC'', ''BOUNTY_GATE'', ''REPORTING'',
     ''LEARNING'', ''HALTED'', ''COMPLETE'']"

definition phaseKnown :: "string \<Rightarrow> bool" where
  "phaseKnown phase \<longleftrightarrow> list_ex (\<lambda>p. p = phase) Phases"

text \<open>The closing move the methods share: save, log, unwind when the log refuses.\<close>

definition saveThenLog :: "env \<Rightarrow> string option \<Rightarrow> value \<Rightarrow> string \<Rightarrow> string option \<Rightarrow> value \<Rightarrow> value op" where
  "saveThenLog ev prevRaw st ty ref data =
     bindE (SaveState ev st) (\<lambda>_. or_unwind ev prevRaw (Log ev ty ref (Some data)))"

definition SetPhase :: "env \<Rightarrow> string \<Rightarrow> string \<Rightarrow> unit op" where
  "SetPhase ev phase reason = with_lock
     (bindE rawState (\<lambda>prevRaw.
      bindE (guard (phaseKnown phase) (EUnknownPhase phase)) (\<lambda>_.
      bindE (State ev) (\<lambda>st.
        let prev = ObjStr st ''phase'' in
        if prev = phase then ret ()
        else bindE (nowIso ev) (\<lambda>t.
          let st1 = set_field st ''phase'' (VStr phase);
              hist = ObjAt st1 ''phase_history'';
              row = VObj [(''at'', VStr t), (''from'', VStr prev), (''to'', VStr phase), (''reason'', VStr reason)];
              st2 = set_field st1 ''phase_history'' (setA hist (vA hist @ [row]))
          in bindE (saveThenLog ev prevRaw st2 ''phase.transition'' (Some phase)
                      (VObj [(''from'', VStr prev), (''reason'', VStr reason)])) (\<lambda>_. ret ()))))))"

definition Halt :: "env \<Rightarrow> string \<Rightarrow> unit op" where
  "Halt ev reason = with_lock
     (bindE rawState (\<lambda>prevRaw.
      bindE (State ev) (\<lambda>st.
      bindE (SaveState ev (set_field st ''halt_reason'' (VStr reason))) (\<lambda>_.
        or_unwind ev prevRaw (SetPhase ev ''HALTED'' reason)))))"

definition Complete :: "env \<Rightarrow> string \<Rightarrow> string \<Rightarrow> value op" where
  "Complete ev actor0 reason0 = with_lock
     (bindE rawState (\<lambda>prevRaw.
      let actor = TrimSpace actor0; reason = TrimSpace reason0 in
      bindE (guard (actor \<noteq> []) ENoActor) (\<lambda>_.
      bindE (guard (\<not> RuneCount reason < 10) EShortReason) (\<lambda>_.
      bindE (State ev) (\<lambda>st.
        let st1 = set_field st ''completed_by'' (VStr actor);
            st2 = set_field st1 ''completed_reason'' (VStr reason)
        in bindE (saveThenLog ev prevRaw st2 ''campaign.completed'' (Some (CampaignID ev))
                    (VObj [(''actor'', VStr actor), (''reason'', VStr reason)])) (\<lambda>_.
           bindE (SetPhase ev ''COMPLETE'' (actor @ '': '' @ reason)) (\<lambda>_.
             State ev)))))))"

section \<open>Budget\<close>

definition Budget :: "env \<Rightarrow> value op" where
  "Budget ev = bindE (State ev) (\<lambda>st. ret (ObjAt st ''budget''))"

definition budget_with :: "value \<Rightarrow> string \<Rightarrow> value \<Rightarrow> value" where
  "budget_with st key x = (let b = ObjAt st ''budget'' in set_field st ''budget'' (set_field b key x))"

text \<open>The counter is an \<open>int64\<close>: adding one wraps.\<close>

definition ConsumeDiscoverySlot :: "env \<Rightarrow> unit op" where
  "ConsumeDiscoverySlot ev = with_lock
     (bindE (State ev) (\<lambda>st.
        let v = ObjAt (ObjAt st ''budget'') ''discovery_findings_so_far'' in
        SaveState ev (budget_with st ''discovery_findings_so_far'' (VInt (wrap64 (vI v + 1))))))"

definition SetCostCeiling :: "env \<Rightarrow> value option \<Rightarrow> string \<Rightarrow> value op" where
  "SetCostCeiling ev ceil actor = with_lock
     (bindE rawState (\<lambda>prevRaw.
      bindE (State ev) (\<lambda>st.
        let old = ObjAt (ObjAt st ''budget'') ''max_total_cost_usd'';
            newV = (case ceil of None \<Rightarrow> VNull | Some c \<Rightarrow> c);
            st1 = budget_with st ''max_total_cost_usd'' newV
        in bindE (saveThenLog ev prevRaw st1 ''budget.limit_set'' None
                    (VObj [(''old'', old), (''new'', newV), (''actor'', VStr actor)])) (\<lambda>_.
             ret (ObjAt st1 ''budget'')))))"

definition SetDiscoveryBudget :: "env \<Rightarrow> int \<Rightarrow> string \<Rightarrow> value op" where
  "SetDiscoveryBudget ev maxFindings actor = with_lock
     (bindE rawState (\<lambda>prevRaw.
      bindE (guard (\<not> maxFindings < 1) ENotPositive) (\<lambda>_.
      bindE (State ev) (\<lambda>st.
        let old = ObjAt (ObjAt st ''budget'') ''max_discovery_findings'';
            st1 = budget_with st ''max_discovery_findings'' (VInt maxFindings)
        in bindE (saveThenLog ev prevRaw st1 ''budget.discovery_set'' None
                    (VObj [(''old'', old), (''new'', VInt maxFindings), (''actor'', VStr actor)])) (\<lambda>_.
             ret (ObjAt st1 ''budget''))))))"

end
