(* ===== verification/Healthy.thy ===== *)
theory Healthy
  imports Triples Phases
begin

text \<open>
  The invariant of a campaign between operations and the triples of the shared steps: reading and
  saving the state, logging, unwinding, and the save-then-log move every decision ends in. A decision
  that is refused leaves exactly the state it found.
\<close>

section \<open>The invariant\<close>

definition mirror_shape :: "value list \<Rightarrow> value list \<Rightarrow> bool" where
  "mirror_shape es m \<longleftrightarrow> window_ok es m \<or> length m < length es \<and> (\<exists>k. lag_shape es m k)"

definition healthy :: "env \<Rightarrow> value \<Rightarrow> value list \<Rightarrow> world \<Rightarrow> bool" where
  "healthy ev st es w \<longleftrightarrow> undisturbed w \<and> accessible w EventsPath \<and> clean_ledger (content_of EventsPath w) es \<and>
     State ev w = (Inr st, w) \<and> saved w st \<and> waivers_ok w es \<and> mirror_shape es (vA (ObjAt st ''events''))"

definition settled :: "env \<Rightarrow> value \<Rightarrow> value list \<Rightarrow> world \<Rightarrow> bool" where
  "settled ev st es w \<longleftrightarrow> healthy ev st es w \<and> window_ok es (vA (ObjAt st ''events''))"

definition env_ok :: "env \<Rightarrow> bool" where
  "env_ok ev \<longleftrightarrow> clock_ok ev \<and> schema_ok ev \<and> valid_utf8 (CampaignID ev)"

lemma settled_consistent: "settled ev st es w \<Longrightarrow> consistent ev w st es"
  by (simp add: settled_def healthy_def consistent_def)

lemma settled_healthy: "settled ev st es w \<Longrightarrow> healthy ev st es w"
  by (simp add: settled_def)

lemma settled_green: "settled ev st es w \<Longrightarrow> verify_green ev w"
  using settled_consistent verdict_ok_iff by blast

lemma mirror_shape_Nil [simp]: "mirror_shape [] m = (m = [])"
  by (auto simp: mirror_shape_def window_ok_def)

lemma mirror_shape_length: "mirror_shape es m \<Longrightarrow> length m \<le> length es"
  by (auto simp: mirror_shape_def window_ok_def)

lemma mirror_shape_snoc: "mirror_shape es m \<Longrightarrow> mirror_shape (es @ [e]) m"
proof -
  assume ms: "mirror_shape es m"
  have "\<exists>k. lag_shape (es @ [e]) m k"
  proof (cases "window_ok es m")
    case True
    then have "lag_shape (es @ [e]) m 1"
      by (auto simp: window_ok_def lag_shape_def min_def split: if_splits intro!: exI [of _ "length es - length m"])
    then show ?thesis ..
  next
    case False
    with ms obtain k where "lag_shape es m k" by (auto simp: mirror_shape_def)
    then have "lag_shape (es @ [e]) m (Suc k)" by (auto simp: lag_shape_def)
    then show ?thesis ..
  qed
  then show ?thesis using mirror_shape_length [OF ms] by (auto simp: mirror_shape_def)
qed

lemma of_files_healthy: "of_files (healthy ev st es)"
  unfolding of_files_def
proof (intro allI impI)
  fix w w' :: world
  assume h: "healthy ev st es w" and f: "files w' = files w" and u: "undisturbed w \<longrightarrow> undisturbed w'"
  have "State ev w' = (Inr st, w')"
    by (rule State_transfer [of ev w _ w]) (use h f in \<open>simp_all add: healthy_def\<close>)
  moreover have "readWaiverRowsR12 w' = readWaiverRowsR12 w" using f by (intro readWaiver_cong) simp
  ultimately show "healthy ev st es w'"
    using h f u by (simp add: healthy_def content_of_def accessible_def saved_def waivers_ok_def)
qed

lemma of_files_settled: "of_files (settled ev st es)"
  using of_files_healthy by (auto simp: of_files_def settled_def)

lemma of_files_closed:
  "of_files (\<lambda>w. False)" "of_files (\<lambda>w. A)" "of_files P \<Longrightarrow> of_files (\<lambda>w. A \<and> P w)" "of_files P \<Longrightarrow> of_files (\<lambda>w. P w \<and> A)"
  by (auto simp: of_files_def)

lemma of_files_ex: "(\<And>x. of_files (P x)) \<Longrightarrow> of_files (\<lambda>w. \<exists>x. P x w)"
  by (fastforce simp: of_files_def)

lemma of_files_conj: "of_files P \<Longrightarrow> of_files Q \<Longrightarrow> of_files (\<lambda>w. P w \<and> Q w)"
  and of_files_disj: "of_files P \<Longrightarrow> of_files Q \<Longrightarrow> of_files (\<lambda>w. P w \<or> Q w)"
  by (auto simp: of_files_def)

lemmas of_files_rules = of_files_healthy of_files_settled of_files_closed of_files_ex of_files_conj of_files_disj

lemma healthy_facts:
  assumes "healthy ev st es w" "env_ok ev"
  shows "wf_value st" "validates ev StateSchema st" "vkind st = KObj" "vkind (ObjAt st ''events'') = KArr"
    "State ev w = (Inr st, w)" "accessible w StatePath"
  using assms State_wf by (auto simp: healthy_def State_Inr env_ok_def schema_ok_def saved_def accessible_def)

lemma healthy_writable: "healthy ev st es w \<Longrightarrow> env_ok ev \<Longrightarrow> writable ev w st"
proof -
  assume h: "healthy ev st es w" and ev: "env_ok ev"
  obtain m where m: "ObjAt st ''events'' = VArr m" using healthy_facts(4) [OF h ev] by (cases "ObjAt st ''events''") auto
  have "es \<noteq> [] \<longrightarrow> length m = length es \<or> (\<exists>k. lag_shape es m k)"
    using h m window_lag_shape [of es m] mirror_shape_length [of es m]
    by (auto simp: healthy_def mirror_shape_def le_less)
  then show ?thesis using h m by (intro writable_lag [of w es]) (auto simp: healthy_def)
qed

text \<open>Rewriting the state file by one with the same mirror keeps the invariant.\<close>

lemma healthy_rewrite:
  assumes h: "healthy ev st es w" and same: "\<And>p. p \<noteq> StatePath \<Longrightarrow> kv_find (files w') p = kv_find (files w) p"
    and sv: "saved w' st'" "wf_value st'" "validates ev StateSchema st'" and e: "ObjAt st' ''events'' = ObjAt st ''events''"
    and u: "undisturbed w'"
  shows "healthy ev st' es w'"
proof -
  have "content_of EventsPath w' = content_of EventsPath w" "accessible w' EventsPath = accessible w EventsPath"
    using same [of EventsPath] by (simp_all add: content_of_def accessible_def)
  moreover have "readWaiverRowsR12 w' = readWaiverRowsR12 w" using same by (intro readWaiver_cong) simp
  ultimately show ?thesis using h u sv e State_saved [OF sv(1,2), of ev]
    by (simp add: healthy_def waivers_ok_def)
qed

section \<open>Triples of the shared steps\<close>

text \<open>A settled campaign with one more event, of the given type, reference and (when exact) data.\<close>

definition appended :: "env \<Rightarrow> value \<Rightarrow> value list \<Rightarrow> bool \<Rightarrow> string \<Rightarrow> string option \<Rightarrow> value \<Rightarrow> world \<Rightarrow> bool" where
  "appended ev st es exact ty ref data w \<longleftrightarrow> (\<exists>e. settled ev st (es @ [e]) w \<and> ObjAt e ''type'' = VStr ty \<and>
     ObjAt e ''ref'' = ref_value ref \<and> (exact \<longrightarrow> ObjAt e ''data'' = keysorted data))"

lemma v_State: "valid (healthy ev st es) (State ev) (\<lambda>x w. x = st \<and> healthy ev st es w) E"
  by (rule validI [OF grows.resp_State]) (auto simp: healthy_def split: sum.splits)

lemma v_rawState: "valid (healthy ev st es) rawState (\<lambda>x w. x = Some (DumpIndented st @ NL) \<and> healthy ev st es w) E"
  by (rule validI [OF grows.resp_rawState])
     (auto simp: healthy_def rawState_def catchE_def ReadFile_def saved_def split: sum.splits)

lemma calm_run: "keeps_to calm m \<Longrightarrow> m w = (r, w') \<Longrightarrow> undisturbed w \<Longrightarrow> undisturbed w'"
  unfolding keeps_to_def calm_def by (metis snd_conv)

lemma v_SaveState:
  assumes ev: "env_ok ev" and wf: "wf_value st1" and e: "ObjAt st1 ''events'' = ObjAt st ''events''"
  shows "valid (healthy ev st es) (SaveState ev st1)
    (\<lambda>_ w. \<exists>st'. healthy ev st' es w \<and> same_fields st1 st' \<and> ObjAt st' ''events'' = ObjAt st ''events'') (healthy ev st es)"
proof (rule validI [OF grows.resp_SaveState])
  fix w r w' assume h: "healthy ev st es w" and run: "SaveState ev st1 w = (r, w')"
  have u: "undisturbed w'" using calm_run [OF calm.resp_SaveState run] h by (simp add: healthy_def)
  show "case r of Inr x \<Rightarrow> \<exists>st'. healthy ev st' es w' \<and> same_fields st1 st' \<and> ObjAt st' ''events'' = ObjAt st ''events''
      | Inl _ \<Rightarrow> healthy ev st es w'"
  proof (cases r)
    case (Inl x)
    have "healthy ev st es w'"
      by (rule of_filesD [OF of_files_healthy h]) (use SaveState_Inl_files run Inl u in auto)
    with Inl show ?thesis by simp
  next
    case (Inr x)
    let ?st = "stamped ev (ticks w) st1"
    note S = SaveState_Inr [OF run [unfolded Inr]] and sv = SaveState_saved [OF run [unfolded Inr] healthy_facts(6) [OF h ev]]
    have "wf_value ?st" by (rule wf_stamped [OF wf]) (use ev in \<open>simp add: env_ok_def clock_ok_def\<close>)
    then have "healthy ev ?st es w'" using healthy_rewrite [OF h S(2) sv _ S(3)] e u by simp
    then show ?thesis using Inr same_fields_stamped e by (auto intro!: exI [of _ ?st])
  qed
qed

text \<open>A failing \<open>Log\<close> leaves the ledger, or one more event the mirror now lags by.\<close>

lemma Log_failed_healthy:
  assumes h: "healthy ev st es w" and ev: "env_ok ev" and ar: "args_ok ty ref data" and ty: "ty \<noteq> ''completion.waived''"
    and run: "Log ev ty ref data w = (Inl x, w')" and sw: "size_ok w"
  shows "healthy ev st es w' \<or> (\<exists>e. healthy ev st (es @ [e]) w')"
proof -
  note hf = healthy_facts [OF h ev]
  have u: "undisturbed w'" using calm_run [OF calm.resp_Log run] h by (simp add: healthy_def)
  have H: "clean_ledger (content_of EventsPath w) es" "waivers_ok w es" "mirror_shape es (vA (ObjAt st ''events''))"
      "accessible w EventsPath" "undisturbed w" using h by (simp_all add: healthy_def)
  then have tm: "terminated (content_of EventsPath w)" and fl: "flocks w = []" "faults w = []"
    by (simp_all add: clean_ledger_def undisturbed_def)
  obtain lines st1 lb t e w7 where C: "decided ev w lines st1 lb" "disclosed ev (data_value data) lb"
      "e = seal (event_body lb (now ev t) ty (ref_value ref) (prev_for lines))"
      "accessible w EventsPath" "files w7 = files w" "faults w7 = faults w" "flocks w7 = []"
      "Log ev ty ref data w = (case logCommit ev lb e w7 of (r, w8) \<Rightarrow> (r, UnlockProcess w8))"
    by (rule Log_writable_commit [OF healthy_writable [OF h ev] fl(1)])
  note D = decidedD [OF C(1)]
  have st1: "st1 = st" using D(2) hf(5) by simp
  have len: "length es \<le> length (content_of EventsPath w)"
    using H(1) length_records_of [of "content_of EventsPath w"] by (simp add: clean_ledger_def)
  have ir: "int64_range (int (length (vA (ObjAt st ''events''))))"
    using int64_range_le [OF sw [unfolded size_ok_def]] mirror_shape_length [OF H(3)] len by simp
  have wfe: "wf_value e"
    by (rule decided_event_wf [OF C(1-3) _ ar sw]) (use ev ir st1 in \<open>simp_all add: env_ok_def\<close>)
  let ?w8 = "line_landed w7 e"
  have cm: "logCommit ev lb e w7 = (case SaveState ev (mirrored lb st e) ?w8 of (Inl x, w9) \<Rightarrow> (Inl x, w9) | (Inr _, w9) \<Rightarrow> (Inr e, w9))"
    by (rule logCommit_run [OF wfe])
       (use C(4-6) tm fl hf(5) State_transfer [OF hf(5), of w7] in \<open>simp_all add: content_of_def accessible_def\<close>)
  obtain w9 where w9: "SaveState ev (mirrored lb st e) ?w8 = (Inl x, w9)" "files w' = files w9"
    using run cm C(8) by (auto split: prod.splits sum.splits simp: world_simps)
  then have f: "files w' = files ?w8" using SaveState_Inl_files by metis
  have c: "content_of EventsPath w' = content_of EventsPath w @ CanonSpaced e @ NL"
    using f C(5) by (simp add: content_of_def line_landed_def world_simps)
  have o: "kv_find (files w') p = kv_find (files w) p" if "p \<noteq> EventsPath" for p
    using f C(5) that by (simp add: line_landed_def world_simps)
  have cl: "clean_ledger (content_of EventsPath w') (es @ [keysorted e])"
    unfolding c by (rule clean_append [OF H(1) wfe C(3) [unfolded D(1)]]) (use D in simp)
  have "accessible w' EventsPath" using f H(4) C(5) by (simp add: accessible_def line_landed_def world_simps)
  moreover have "State ev w' = (Inr st, w')" by (rule State_transfer [OF hf(5)]) (simp add: o)
  moreover have "waivers_ok w' (es @ [keysorted e])"
  proof -
    have "vS (ObjAt (keysorted e) ''type'') \<noteq> ''completion.waived''" using ty wfe C(3) by (simp add: ObjAt_norm)
    moreover have "readWaiverRowsR12 w' = readWaiverRowsR12 w" using o by (intro readWaiver_cong) simp
    ultimately show ?thesis using H(2) by (simp only: waivers_ok_def waived_keys_snoc not_False_eq_True)
  qed
  ultimately have "healthy ev st (es @ [keysorted e]) w'"
    using h u cl o mirror_shape_snoc [OF H(3)] by (simp add: healthy_def saved_def)
  then show ?thesis by blast
qed

lemma v_Log:
  assumes ev: "env_ok ev" and ar: "args_ok ty ref data" and ty: "ty \<noteq> ''completion.waived''"
  shows "valid (healthy ev st es) (Log ev ty ref data)
    (\<lambda>_ w. \<exists>st'. same_fields st st' \<and> appended ev st' es (window_ok es (vA (ObjAt st ''events''))) ty ref (data_value data) w)
    (\<lambda>w. healthy ev st es w \<or> (\<exists>e. healthy ev st (es @ [e]) w))"
proof (rule validI [OF grows.resp_Log])
  fix w r w' assume h: "healthy ev st es w" and run: "Log ev ty ref data w = (r, w')" and s: "size_ok w'"
  have u: "undisturbed w'" using calm_run [OF calm.resp_Log run] h by (simp add: healthy_def)
  have sw: "size_ok w" using grows.resp_Log run s size_ok_grows unfolding keeps_to_def by (metis snd_conv)
  note hf = healthy_facts [OF h ev]
  obtain m where m: "ObjAt st ''events'' = VArr m" using hf(4) by (cases "ObjAt st ''events''") auto
  have ok: "clock_ok ev" "schema_ok ev" using ev by (simp_all add: env_ok_def)
  have H: "clean_ledger (content_of EventsPath w) es" "waivers_ok w es" "mirror_shape es m" "accessible w EventsPath"
    using h m by (simp_all add: healthy_def)
  show "case r of Inr e \<Rightarrow> \<exists>st'. same_fields st st' \<and> appended ev st' es (window_ok es (vA (ObjAt st ''events''))) ty ref (data_value data) w'
     | Inl _ \<Rightarrow> healthy ev st es w' \<or> (\<exists>e. healthy ev st (es @ [e]) w')"
  proof (cases r)
    case (Inr e)
    note log = run [unfolded Inr]
    have "\<exists>st'. consistent ev w' st' (es @ [keysorted e]) \<and> same_fields st st' \<and> saved w' st'"
    proof (cases "window_ok es m")
      case True
      then have "consistent ev w st es" using H hf(5) m by (simp add: consistent_def)
      from Log_keeps_consistent [OF this log ok ar sw ty] show ?thesis .
    next
      case False
      then have "length m < length es" using H(3) by (simp add: mirror_shape_def)
      from Log_heals_lag [OF log H(1) hf(5) m this H(2) ok ar sw ty] hf(5) show ?thesis by auto
    qed
    then obtain st' where st': "consistent ev w' st' (es @ [keysorted e])" "same_fields st st'" "saved w' st'" by blast
    obtain m' where "ObjAt st' ''events'' = VArr m'" "window_ok (es @ [keysorted e]) m'"
      by (rule consistent_mirror [OF st'(1) ok(2)])
    then have "settled ev st' (es @ [keysorted e]) w'"
      using st'(1,3) u by (simp add: settled_def healthy_def consistent_def mirror_shape_def)
    moreover have "ObjAt e ''data'' = data_value data" if "window_ok es m"
    proof -
      have "consistent ev w st es" using that H hf(5) m by (simp add: consistent_def)
      from Log_event_data [OF log this ok(2)] show ?thesis .
    qed
    ultimately have "appended ev st' es (window_ok es m) ty ref (data_value data) w'"
      using keysorted_event [OF log] by (auto simp: appended_def intro!: exI [of _ "keysorted e"])
    then show ?thesis using Inr st'(2) m by auto
  next
    case (Inl x)
    have "healthy ev st es w' \<or> (\<exists>e. healthy ev st (es @ [e]) w')"
      by (rule Log_failed_healthy [OF h ev ar ty run [unfolded Inl] sw])
    with Inl show ?thesis by simp
  qed
qed

section \<open>Unwinding\<close>

lemma v_unwind:
  assumes ev: "env_ok ev" and st: "wf_value st" "validates ev StateSchema st" and e: "ObjAt st1 ''events'' = ObjAt st ''events''"
  shows "valid (healthy ev st1 es) (unwindState ev (Some (DumpIndented st @ NL))) (\<lambda>_. healthy ev st es) (\<lambda>_. False)"
proof (rule validI [OF grows.resp_unwindState])
  fix w r w' assume h: "healthy ev st1 es w" and run: "unwindState ev (Some (DumpIndented st @ NL)) w = (r, w')"
  have u: "undisturbed w'" using calm_run [OF calm.resp_unwindState run] h by (simp add: healthy_def)
  have fl: "flocks w = []" "faults w = []" using h by (simp_all add: healthy_def undisturbed_def)
  from LockProcess_free [OF fl(1)] obtain wa where lk: "LockProcess w = (Inr (), wa)" by blast
  note fr = LockProcess_frame [OF lk]
  have W: "WriteJson ev StatePath st StateSchema wa = (Inr (), spend (put_file StatePath (DumpIndented st @ NL) wa))"
    using st fr fl by (simp add: WriteJson_Inr next_fault_def)
  have r: "r = Inr ()" "w' = UnlockProcess (spend (put_file StatePath (DumpIndented st @ NL) wa))"
    using run parse_Indented_NL [OF st(1)] W
    by (simp_all add: unwindState_def with_lock_run [OF lk] bindE_def parseE_def)
  have a: "accessible wa StatePath" using healthy_facts(6) [OF h ev] fr by (simp add: accessible_def)
  have "healthy ev st es w'"
    by (rule healthy_rewrite [OF h _ _ st])
       (use a fr e u in \<open>simp_all add: r(2) saved_def world_simps\<close>)
  then show "case r of Inr x \<Rightarrow> healthy ev st es w' | Inl e \<Rightarrow> False" by (simp add: r(1))
qed

lemma v_or_unwind:
  assumes m: "valid P m Q E'" and un: "valid E' (unwindState ev prev) (\<lambda>_. E) E"
  shows "valid P (or_unwind ev prev m) Q E"
proof (rule validI [OF grows.resp_or_unwind [OF valid_grows [OF m]]])
  fix w r w' assume P: "P w" and run: "or_unwind ev prev m w = (r, w')" and s: "size_ok w'"
  show "case r of Inr x \<Rightarrow> Q x w' | Inl e \<Rightarrow> E w'"
  proof (cases "m w")
    case (Pair r1 w1)
    show ?thesis
    proof (cases r1)
      case (Inr x)
      with Pair run have "r = Inr x" "w' = w1" by (simp_all add: or_unwind_def catchE_def)
      with valid_run [OF m P Pair] s Inr show ?thesis by simp
    next
      case (Inl e)
      obtain r2 w2 where un2: "unwindState ev prev w1 = (r2, w2)" by (cases "unwindState ev prev w1")
      with Pair Inl run have r: "r = Inl e" "w' = w2" by (simp_all add: or_unwind_def catchE_def)
      have "ledger_grows w1 w'" using grows.resp_unwindState un2 r(2) unfolding keeps_to_def by (metis snd_conv)
      with s have "size_ok w1" by (metis size_ok_grows)
      with valid_run [OF m P Pair] Inl have "E' w1" by simp
      from valid_run [OF un this un2] s r show ?thesis by (cases r2) simp_all
    qed
  qed
qed

section \<open>Save, then log\<close>

definition may_lag :: "env \<Rightarrow> value \<Rightarrow> value list \<Rightarrow> world \<Rightarrow> bool" where
  "may_lag ev st es w \<longleftrightarrow> healthy ev st es w \<or> (\<exists>e. healthy ev st (es @ [e]) w)"

lemma of_files_may_lag: "of_files (may_lag ev st es)"
  unfolding may_lag_def by (intro of_files_rules)

lemma v_disjE:
  assumes "valid P m Q E" "valid P' m Q E" shows "valid (\<lambda>w. P w \<or> P' w) m Q E"
  by (rule validI [OF valid_grows [OF assms(1)]]) (use valid_run [OF assms(1)] valid_run [OF assms(2)] in blast)

lemma v_exE:
  assumes "\<And>a. valid (P a) m Q E" shows "valid (\<lambda>w. \<exists>a. P a w) m Q E"
  by (rule v_pre [of _ P]) (use assms in auto)

lemma v_unwind_lag:
  assumes "env_ok ev" "wf_value st" "validates ev StateSchema st" "ObjAt st1 ''events'' = ObjAt st ''events''"
  shows "valid (may_lag ev st1 es) (unwindState ev (Some (DumpIndented st @ NL))) (\<lambda>_. may_lag ev st es) (may_lag ev st es)"
  unfolding may_lag_def
  by (intro v_disjE v_exE; rule v_weaken [OF v_unwind [OF assms]]) auto

lemma v_saveThenLog:
  assumes ev: "env_ok ev" and ar: "args_ok ty ref (Some data)" and ty: "ty \<noteq> ''completion.waived''"
    and wf: "wf_value st1" and e: "ObjAt st1 ''events'' = ObjAt st ''events''"
  shows "valid (healthy ev st es) (saveThenLog ev (Some (DumpIndented st @ NL)) st1 ty ref data)
    (\<lambda>_ w. \<exists>st'. same_fields st1 st' \<and> appended ev st' es (window_ok es (vA (ObjAt st ''events''))) ty ref data w)
    (may_lag ev st es)"
proof (rule v_pure [of _ "wf_value st \<and> validates ev StateSchema st"])
  let ?log = "or_unwind ev (Some (DumpIndented st @ NL)) (Log ev ty ref (Some data))"
  let ?Q = "\<lambda>s (_ :: value) w. \<exists>st'. same_fields s st' \<and> appended ev st' es (window_ok es (vA (ObjAt st ''events''))) ty ref data w"
  show "keeps_to ledger_grows (saveThenLog ev (Some (DumpIndented st @ NL)) st1 ty ref data)"
    unfolding saveThenLog_def by (intro grows.resp_bind grows.resp_SaveState grows.resp_or_unwind grows.resp_Log)
  show "wf_value st \<and> validates ev StateSchema st" if "healthy ev st es w" for w
    using healthy_facts [OF that ev] by blast
  assume st: "wf_value st \<and> validates ev StateSchema st"
  have log: "valid (healthy ev st2 es) ?log (?Q st2) (may_lag ev st es)"
    if e2: "ObjAt st2 ''events'' = ObjAt st ''events''" for st2
    by (rule v_or_unwind [OF v_weaken [OF v_Log [OF ev ar ty, of st2 es]] v_unwind_lag [OF ev, of st st2 es]])
       (use st e2 in \<open>auto simp: may_lag_def data_value_def\<close>)
  have log1: "valid (\<lambda>w. healthy ev st2 es w \<and> same_fields st1 st2 \<and> ObjAt st2 ''events'' = ObjAt st ''events'') ?log (?Q st1) (may_lag ev st es)" for st2
  proof (rule v_pure [of _ "same_fields st1 st2 \<and> ObjAt st2 ''events'' = ObjAt st ''events''"])
    show "keeps_to ledger_grows ?log" by (intro grows.resp_or_unwind grows.resp_Log)
    assume s: "same_fields st1 st2 \<and> ObjAt st2 ''events'' = ObjAt st ''events''"
    show "valid (\<lambda>w. healthy ev st2 es w \<and> same_fields st1 st2 \<and> ObjAt st2 ''events'' = ObjAt st ''events'') ?log (?Q st1) (may_lag ev st es)"
      by (rule v_weaken [OF log [of st2]]) (use s same_fields_trans in blast)+
  qed blast
  show "valid (healthy ev st es) (saveThenLog ev (Some (DumpIndented st @ NL)) st1 ty ref data) (?Q st1) (may_lag ev st es)"
    unfolding saveThenLog_def
  proof (rule v_bind)
    show "valid (healthy ev st es) (SaveState ev st1)
      (\<lambda>_ w. \<exists>st2. healthy ev st2 es w \<and> same_fields st1 st2 \<and> ObjAt st2 ''events'' = ObjAt st ''events'') (may_lag ev st es)"
      by (rule v_weaken [OF v_SaveState [OF ev wf e]]) (auto simp: may_lag_def)
  qed (rule v_exE [OF log1])
qed

end
