(* ===== verification/StateFields.thy ===== *)
theory StateFields
  imports LogSound
begin

text \<open>
  Well-formedness of edited projections: literals and trimmed or joined UTF-8 strings are UTF-8, and
  the field updates the campaign methods use keep a value well formed. The rules are simplification
  rules, so that a method's new state is shown well formed by \<open>simp\<close>.
\<close>

section \<open>UTF-8 strings\<close>

lemma valid_utf8_Cons [simp]: "(of_char c :: nat) < 128 \<Longrightarrow> valid_utf8 (c # s) = valid_utf8 s"
  by (simp add: valid_utf8_def encode_rune_ascii)

lemma valid_utf8_append: "valid_utf8 s \<Longrightarrow> valid_utf8 t \<Longrightarrow> valid_utf8 (s @ t)"
proof -
  assume "valid_utf8 s" "valid_utf8 t"
  then have "s @ t = utf8_encode (runes s @ runes t)" by (simp add: valid_utf8_def)
  moreover have "valid_utf8 (utf8_encode (runes s @ runes t))" by (rule valid_utf8_encode) (auto dest: runes_valid)
  ultimately show ?thesis by simp
qed

lemma rune_segments_Nil [simp]: "rune_segments [] = []"
  by (simp add: rune_segments.simps)

lemma rune_segments_encode: "valid_rune r \<Longrightarrow> rune_segments (encode_rune r @ rest) = (r, encode_rune r) # rune_segments rest"
  by (subst rune_segments.simps) (simp add: decode_encode_rune)

lemma rune_segments_utf8: "\<forall>r\<in>set rs. valid_rune r \<Longrightarrow> rune_segments (utf8_encode rs) = map (\<lambda>r. (r, encode_rune r)) rs"
  by (induction rs) (auto simp: rune_segments_encode)

lemma TrimSpace_utf8_encode:
  assumes "\<forall>r\<in>set rs. valid_rune r"
  shows "TrimSpace (utf8_encode rs) = utf8_encode (rev (dropWhile isSpace (rev (dropWhile isSpace rs))))"
proof -
  let ?f = "\<lambda>r. (r, encode_rune r)" and ?P = "isSpace \<circ> fst"
  have d: "dropWhile ?P (map ?f xs) = map ?f (dropWhile isSpace xs)" for xs
    by (simp add: dropWhile_map comp_def)
  have "TrimSpace (utf8_encode rs) = concat (map snd (map ?f (rev (dropWhile isSpace (rev (dropWhile isSpace rs))))))"
    unfolding TrimSpace_def rune_segments_utf8 [OF assms] d rev_map d by (rule refl)
  then show ?thesis by (simp add: utf8_encode_def comp_def)
qed

lemma set_trim: "set (rev (dropWhile P (rev (dropWhile P xs)))) \<subseteq> set xs"
  by (auto dest!: set_dropWhileD)

lemma valid_utf8_TrimSpace [simp]: "valid_utf8 s \<Longrightarrow> valid_utf8 (TrimSpace s)"
proof -
  assume "valid_utf8 s"
  then have s: "utf8_encode (runes s) = s" by (simp add: valid_utf8_def)
  have v: "\<forall>r\<in>set (runes s). valid_rune r" by (auto dest: runes_valid)
  have "TrimSpace s = utf8_encode (rev (dropWhile isSpace (rev (dropWhile isSpace (runes s)))))"
    by (rule TrimSpace_utf8_encode [OF v, unfolded s])
  moreover have "valid_utf8 (utf8_encode (rev (dropWhile isSpace (rev (dropWhile isSpace (runes s))))))"
    by (rule valid_utf8_encode, intro ballI, rule bspec [OF v], erule subsetD [OF set_trim])
  ultimately show ?thesis by simp
qed

section \<open>Field updates\<close>

lemma wf_setA: "wf_value v \<Longrightarrow> list_all wf_value xs \<Longrightarrow> wf_value (setA v xs)"
  by (cases v) auto

lemma wf_setA_snoc: "wf_value v \<Longrightarrow> wf_value x \<Longrightarrow> wf_value (setA v (vA v @ [x]))"
  by (rule wf_setA) (auto simp: list_all_iff dest: wf_vA)

lemma wf_ObjStr: "wf_value v \<Longrightarrow> valid_utf8 (ObjStr v k)"
  using wf_vS [OF wf_ObjAt, of v k] by (simp add: ObjStr_def Let_def)

lemmas wf_edits = wf_set_field wf_setA_snoc wf_ObjAt wf_ObjStr valid_utf8_append

lemma setA_VArr [simp]: "vkind v = KArr \<Longrightarrow> setA v xs = VArr xs"
  by (cases v) auto

lemma ObjStr_set_same [simp]: "vkind v = KObj \<Longrightarrow> ObjStr (set_field v k (VStr s)) k = s"
  by (simp add: ObjStr_def Let_def)

lemma ObjStr_set_other [simp]: "k' \<noteq> k \<Longrightarrow> ObjStr (set_field v k x) k' = ObjStr v k'"
  by (simp add: ObjStr_def Let_def)

lemma ObjStr_same_fields: "same_fields st st' \<Longrightarrow> k \<noteq> ''events'' \<Longrightarrow> k \<noteq> ''updated_at'' \<Longrightarrow> ObjStr st' k = ObjStr st k"
  by (simp add: ObjStr_def Let_def same_fields_def)

end
