(* ===== verification/PhaseFacts.thy ===== *)
theory PhaseFacts
  imports Healthy StateFields
begin

text \<open>
  The triples of the phase machine and the budget. Every decision method either moves a healthy
  campaign to a settled one whose ledger records exactly that decision, or leaves the state it found.
\<close>

section \<open>Operations that only extend the ledger\<close>

lemmas grows_rules = grows.resp_basic grows.resp_Log grows.resp_SaveState grows.resp_or_unwind grows.resp_unwindState

lemma grows_saveThenLog: "keeps_to ledger_grows (saveThenLog ev prev st ty ref data)"
  unfolding saveThenLog_def by (intro grows_rules)

lemma grows_SetPhase: "keeps_to ledger_grows (SetPhase ev phase reason)"
  unfolding SetPhase_def Let_def by (intro grows_rules grows_saveThenLog)

lemma v_with_state:
  assumes "\<And>x. keeps_to ledger_grows (m x)" "valid (healthy ev st es) (m st) Q E"
  shows "valid (healthy ev st es) (bindE (State ev) m) Q E"
proof (rule v_bind [OF v_State])
  fix x
  show "valid (\<lambda>w. x = st \<and> healthy ev st es w) (m x) Q E"
    by (rule v_pure [of _ "x = st"]) (use assms in simp_all)
qed

lemma v_with_raw:
  assumes "\<And>x. keeps_to ledger_grows (m x)" "valid (healthy ev st es) (m (Some (DumpIndented st @ NL))) Q E"
  shows "valid (healthy ev st es) (bindE rawState m) Q E"
proof (rule v_bind [OF v_rawState])
  fix x
  show "valid (\<lambda>w. x = Some (DumpIndented st @ NL) \<and> healthy ev st es w) (m x) Q E"
    by (rule v_pure [of _ "x = Some (DumpIndented st @ NL)"]) (use assms in simp_all)
qed

lemma v_with_now:
  assumes "\<And>t. keeps_to ledger_grows (m t)" "of_files P" "\<And>t. t \<in> range (now ev) \<Longrightarrow> valid P (m t) Q E"
  shows "valid P (bindE (nowIso ev) m) Q E"
proof (rule v_bind [of _ _ "\<lambda>t w. t \<in> range (now ev) \<and> P w"])
  show "valid P (nowIso ev) (\<lambda>t w. t \<in> range (now ev) \<and> P w) E"
    by (rule v_nowIso [OF assms(2)]) simp
  show "valid (\<lambda>w. t \<in> range (now ev) \<and> P w) (m t) Q E" for t
    by (rule v_pure [of _ "t \<in> range (now ev)"]) (use assms in \<open>auto intro: v_weaken [OF assms(3)]\<close>)
qed

lemma v_with_guard:
  assumes "keeps_to ledger_grows (m ())" "b \<Longrightarrow> valid P (m ()) Q E" "\<And>w. P w \<Longrightarrow> \<not> b \<Longrightarrow> E w"
  shows "valid P (bindE (guard b e) m) Q E"
proof (rule v_bind [of _ _ "\<lambda>_ w. b \<and> P w"])
  show "valid P (guard b e) (\<lambda>_ w. b \<and> P w) E" by (rule v_guard) (use assms(3) in auto)
  show "valid (\<lambda>w. b \<and> P w) (m u) Q E" for u
    by (rule v_pure [of _ b]) (use assms in \<open>auto intro: v_weaken [OF assms(2)]\<close>)
qed

text \<open>Facts that every healthy campaign provides to the method that runs on it.\<close>

lemma v_healthy_facts:
  assumes ev: "env_ok ev" and g: "keeps_to ledger_grows m"
    and v: "wf_value st \<Longrightarrow> vkind st = KObj \<Longrightarrow> vkind (ObjAt st ''events'') = KArr \<Longrightarrow> valid (healthy ev st es) m Q E"
  shows "valid (healthy ev st es) m Q E"
  by (rule v_pure [of _ "wf_value st \<and> vkind st = KObj \<and> vkind (ObjAt st ''events'') = KArr", OF _ g])
     (use healthy_facts [OF _ ev] v in blast)+

section \<open>\<open>SetPhase\<close>\<close>

text \<open>The projection after a move: the new phase, one more row of history, nothing else.\<close>

definition phase_moved :: "value \<Rightarrow> string \<Rightarrow> string \<Rightarrow> value \<Rightarrow> bool" where
  "phase_moved st phase reason st' \<longleftrightarrow> ObjStr st' ''phase'' = phase \<and>
     (\<forall>h. ObjAt st ''phase_history'' = VArr h \<longrightarrow> (\<exists>t. ObjAt st' ''phase_history'' = VArr (h @ [VObj [(''at'', VStr t),
        (''from'', VStr (ObjStr st ''phase'')), (''to'', VStr phase), (''reason'', VStr reason)]]))) \<and>
     (\<forall>k. k \<notin> {''phase'', ''phase_history'', ''events'', ''updated_at''} \<longrightarrow> ObjAt st' k = ObjAt st k)"

definition phase_data :: "value \<Rightarrow> string \<Rightarrow> value" where
  "phase_data st reason = VObj [(''from'', VStr (ObjStr st ''phase'')), (''reason'', VStr reason)]"

text \<open>Either nothing to do, or moved and recorded.\<close>

definition phase_post :: "env \<Rightarrow> value \<Rightarrow> value list \<Rightarrow> string \<Rightarrow> string \<Rightarrow> world \<Rightarrow> bool" where
  "phase_post ev st es phase reason w \<longleftrightarrow> phaseKnown phase \<and>
     (if ObjStr st ''phase'' = phase then healthy ev st es w
      else \<exists>st'. phase_moved st phase reason st' \<and>
        appended ev st' es (window_ok es (vA (ObjAt st ''events''))) ''phase.transition'' (Some phase) (phase_data st reason) w)"

lemma phase_utf8: "phaseKnown phase \<Longrightarrow> valid_utf8 phase"
  by (auto simp: phaseKnown_def Phases_def)

lemma of_files_appended: "of_files (appended ev st es b ty ref data)"
  unfolding appended_def by (intro of_files_rules)

lemma of_files_phase_post: "of_files (phase_post ev st es phase reason)"
  by (cases "ObjStr st ''phase'' = phase") (simp_all add: phase_post_def [abs_def] of_files_rules of_files_appended)

lemma phase_moved_fields:
  assumes "vkind st = KObj"
    and "same_fields (set_field (set_field st ''phase'' (VStr phase)) ''phase_history''
      (setA (ObjAt st ''phase_history'') (vA (ObjAt st ''phase_history'') @ [VObj [(''at'', VStr t),
        (''from'', VStr (ObjStr st ''phase'')), (''to'', VStr phase), (''reason'', VStr reason)]]))) st'"
  shows "phase_moved st phase reason st'"
  using assms ObjStr_same_fields [OF assms(2), of "''phase''"]
  by (auto simp: phase_moved_def same_fields_def)

lemma v_SetPhase:
  assumes ev: "env_ok ev" and r: "valid_utf8 reason"
  shows "valid (healthy ev st es) (SetPhase ev phase reason) (\<lambda>_. phase_post ev st es phase reason) (may_lag ev st es)"
  unfolding SetPhase_def
proof (rule v_lock [OF v_with_raw [OF _ v_with_guard [OF _ v_with_state [OF _ v_healthy_facts [OF ev]]]]])
  let ?raw = "Some (DumpIndented st @ NL)"
  assume k: "phaseKnown phase" and wf: "wf_value st" and o: "vkind st = KObj"
  show "valid (healthy ev st es) (let prev = ObjStr st ''phase'' in
        if prev = phase then ret ()
        else bindE (nowIso ev) (\<lambda>t.
          let st1 = set_field st ''phase'' (VStr phase);
              hist = ObjAt st1 ''phase_history'';
              row = VObj [(''at'', VStr t), (''from'', VStr prev), (''to'', VStr phase), (''reason'', VStr reason)];
              st2 = set_field st1 ''phase_history'' (setA hist (vA hist @ [row]))
          in bindE (saveThenLog ev ?raw st2 ''phase.transition'' (Some phase)
                      (VObj [(''from'', VStr prev), (''reason'', VStr reason)])) (\<lambda>_. ret ())))
      (\<lambda>_. phase_post ev st es phase reason) (may_lag ev st es)"
  proof (cases "ObjStr st ''phase'' = phase")
    case True
    then show ?thesis using k by (auto simp: Let_def phase_post_def intro!: v_ret)
  next
    case False
    show ?thesis unfolding Let_def if_not_P [OF False]
    proof (rule v_with_now [OF _ of_files_healthy])
      fix t assume "t \<in> range (now ev)"
      then have t: "valid_utf8 t" using ev by (auto simp: env_ok_def clock_ok_def)
      let ?hist = "ObjAt (set_field st ''phase'' (VStr phase)) ''phase_history''"
      let ?row = "VObj [(''at'', VStr t), (''from'', VStr (ObjStr st ''phase'')), (''to'', VStr phase), (''reason'', VStr reason)]"
      let ?st2 = "set_field (set_field st ''phase'' (VStr phase)) ''phase_history'' (setA ?hist (vA ?hist @ [?row]))"
      have w2: "wf_value ?st2" by (intro wf_edits wf) (use t r wf_ObjStr [OF wf] phase_utf8 [OF k] in simp_all)
      show "valid (healthy ev st es) (bindE (saveThenLog ev ?raw ?st2 ''phase.transition'' (Some phase)
                  (VObj [(''from'', VStr (ObjStr st ''phase'')), (''reason'', VStr reason)])) (\<lambda>_. ret ()))
          (\<lambda>_. phase_post ev st es phase reason) (may_lag ev st es)"
      proof (rule v_bind [OF v_saveThenLog [OF ev _ _ w2]])
        show "args_ok ''phase.transition'' (Some phase) (Some (VObj [(''from'', VStr (ObjStr st ''phase'')), (''reason'', VStr reason)]))"
          using r wf_ObjStr [OF wf] phase_utf8 [OF k] by (simp add: args_ok_def)
        show "valid (\<lambda>w. \<exists>st'. same_fields ?st2 st' \<and> appended ev st' es (window_ok es (vA (ObjAt st ''events'')))
               ''phase.transition'' (Some phase) (VObj [(''from'', VStr (ObjStr st ''phase'')), (''reason'', VStr reason)]) w)
            (ret ()) (\<lambda>_. phase_post ev st es phase reason) (may_lag ev st es)"
        proof (rule v_ret, elim exE conjE)
          fix w st' assume "same_fields ?st2 st'" and a: "appended ev st' es (window_ok es (vA (ObjAt st ''events'')))
               ''phase.transition'' (Some phase) (VObj [(''from'', VStr (ObjStr st ''phase'')), (''reason'', VStr reason)]) w"
          then have "phase_moved st phase reason st'" by (intro phase_moved_fields [OF o, of phase t]) simp
          with a k False show "phase_post ev st es phase reason w" by (auto simp: phase_post_def phase_data_def)
        qed
      qed simp_all
    qed (intro grows_rules grows_saveThenLog)
  qed
qed (unfold Let_def, (intro grows_rules grows_saveThenLog of_files_healthy of_files_may_lag of_files_phase_post
     | simp add: may_lag_def)+)

section \<open>\<open>Halt\<close> and \<open>Complete\<close>\<close>

definition halt_post :: "env \<Rightarrow> value \<Rightarrow> value list \<Rightarrow> string \<Rightarrow> world \<Rightarrow> bool" where
  "halt_post ev st es reason w \<longleftrightarrow> (\<exists>st1. same_fields (set_field st ''halt_reason'' (VStr reason)) st1 \<and>
     ObjAt st1 ''events'' = ObjAt st ''events'' \<and> phase_post ev st1 es ''HALTED'' reason w)"

lemma of_files_halt_post: "of_files (halt_post ev st es reason)"
  unfolding halt_post_def by (intro of_files_rules of_files_phase_post)

lemma v_Halt:
  assumes ev: "env_ok ev" and r: "valid_utf8 reason"
  shows "valid (healthy ev st es) (Halt ev reason) (\<lambda>_. halt_post ev st es reason) (may_lag ev st es)"
  unfolding Halt_def
proof (rule v_lock [OF v_with_raw [OF _ v_with_state]])
  let ?raw = "Some (DumpIndented st @ NL)" and ?st1 = "set_field st ''halt_reason'' (VStr reason)"
  let ?body = "or_unwind ev ?raw (SetPhase ev ''HALTED'' reason)"
  have g: "keeps_to ledger_grows ?body" by (intro grows_rules grows_SetPhase)
  show "valid (healthy ev st es) (bindE (SaveState ev ?st1) (\<lambda>_. ?body)) (\<lambda>_. halt_post ev st es reason) (may_lag ev st es)"
  proof (rule v_pure [of _ "wf_value st \<and> validates ev StateSchema st"])
    show "wf_value st \<and> validates ev StateSchema st" if "healthy ev st es w" for w using healthy_facts [OF that ev] by blast
    assume st: "wf_value st \<and> validates ev StateSchema st"
    have w1: "wf_value ?st1" by (intro wf_edits) (use st r in simp_all)
    show "valid (healthy ev st es) (bindE (SaveState ev ?st1) (\<lambda>_. ?body)) (\<lambda>_. halt_post ev st es reason) (may_lag ev st es)"
    proof (rule v_bind)
      show "valid (healthy ev st es) (SaveState ev ?st1)
        (\<lambda>_ w. \<exists>st2. healthy ev st2 es w \<and> same_fields ?st1 st2 \<and> ObjAt st2 ''events'' = ObjAt st ''events'') (may_lag ev st es)"
        by (rule v_weaken [OF v_SaveState [OF ev w1]]) (auto simp: may_lag_def)
      show "valid (\<lambda>w. \<exists>st2. healthy ev st2 es w \<and> same_fields ?st1 st2 \<and> ObjAt st2 ''events'' = ObjAt st ''events'')
          ?body (\<lambda>_. halt_post ev st es reason) (may_lag ev st es)" for u
      proof (rule v_exE)
        fix st2
        show "valid (\<lambda>w. healthy ev st2 es w \<and> same_fields ?st1 st2 \<and> ObjAt st2 ''events'' = ObjAt st ''events'')
          ?body (\<lambda>_. halt_post ev st es reason) (may_lag ev st es)"
        proof (rule v_pure [of _ "same_fields ?st1 st2 \<and> ObjAt st2 ''events'' = ObjAt st ''events''", OF _ g])
          assume s: "same_fields ?st1 st2 \<and> ObjAt st2 ''events'' = ObjAt st ''events''"
          have b: "valid (healthy ev st2 es) ?body (\<lambda>_. phase_post ev st2 es ''HALTED'' reason) (may_lag ev st es)"
            by (rule v_or_unwind [OF v_SetPhase [OF ev r] v_unwind_lag [OF ev]]) (use s st in simp_all)
          show "valid (\<lambda>w. healthy ev st2 es w \<and> same_fields ?st1 st2 \<and> ObjAt st2 ''events'' = ObjAt st ''events'')
            ?body (\<lambda>_. halt_post ev st es reason) (may_lag ev st es)"
            by (rule v_weaken [OF b]) (use s in \<open>auto simp: halt_post_def\<close>)
        qed blast
      qed
    qed
  qed (intro grows_rules grows_SetPhase)
qed ((intro grows_rules grows_SetPhase of_files_healthy of_files_may_lag of_files_halt_post | simp add: may_lag_def)+)

definition completed_state :: "value \<Rightarrow> string \<Rightarrow> string \<Rightarrow> value" where
  "completed_state st actor reason =
     set_field (set_field st ''completed_by'' (VStr actor)) ''completed_reason'' (VStr reason)"

definition completed_event :: "env \<Rightarrow> value \<Rightarrow> bool" where
  "completed_event ev e \<longleftrightarrow> ObjAt e ''type'' = VStr ''campaign.completed'' \<and> ObjAt e ''ref'' = VStr (CampaignID ev)"

text \<open>Both the decision and the phase are on the ledger; or the decision is and the phase is not.\<close>

definition complete_post :: "env \<Rightarrow> value \<Rightarrow> value list \<Rightarrow> string \<Rightarrow> string \<Rightarrow> world \<Rightarrow> bool" where
  "complete_post ev st es actor reason w \<longleftrightarrow> (\<exists>st1 e. same_fields (completed_state st actor reason) st1 \<and> completed_event ev e \<and>
     phase_post ev st1 (es @ [e]) ''COMPLETE'' (actor @ '': '' @ reason) w)"

definition complete_refused :: "env \<Rightarrow> value \<Rightarrow> value list \<Rightarrow> string \<Rightarrow> string \<Rightarrow> world \<Rightarrow> bool" where
  "complete_refused ev st es actor reason w \<longleftrightarrow> may_lag ev st es w \<or>
     (\<exists>st1 e. same_fields (completed_state st actor reason) st1 \<and> completed_event ev e \<and> may_lag ev st1 (es @ [e]) w)"

lemma of_files_complete:
  "of_files (complete_post ev st es actor reason)" "of_files (complete_refused ev st es actor reason)"
  unfolding complete_post_def complete_refused_def
  by (intro of_files_rules of_files_phase_post of_files_may_lag)+

lemma phase_post_State: "valid (phase_post ev st es phase reason) (State ev) (\<lambda>_. phase_post ev st es phase reason) E"
proof (rule validI [OF grows.resp_State])
  fix w r w' assume p: "phase_post ev st es phase reason w" and run: "State ev w = (r, w')"
  obtain st' es' where "healthy ev st' es' w" using p by (auto simp: phase_post_def appended_def settled_def split: if_splits)
  then have "State ev w = (Inr st', w)" by (simp add: healthy_def)
  with run p show "case r of Inr x \<Rightarrow> phase_post ev st es phase reason w' | Inl e \<Rightarrow> E w'" by auto
qed

lemma v_Complete:
  assumes ev: "env_ok ev" and a: "valid_utf8 actor0" and r: "valid_utf8 reason0"
  shows "valid (healthy ev st es) (Complete ev actor0 reason0)
    (\<lambda>_ w. TrimSpace actor0 \<noteq> [] \<and> 10 \<le> RuneCount (TrimSpace reason0) \<and>
       complete_post ev st es (TrimSpace actor0) (TrimSpace reason0) w)
    (complete_refused ev st es (TrimSpace actor0) (TrimSpace reason0))"
  unfolding Complete_def Let_def
proof (rule v_lock [OF v_with_raw [OF _ v_with_guard [OF _ v_with_guard [OF _ v_with_state [OF _ v_healthy_facts [OF ev]]]]]])
  let ?a = "TrimSpace actor0" and ?r = "TrimSpace reason0"
  let ?raw = "Some (DumpIndented st @ NL)"
  let ?st2 = "set_field (set_field st ''completed_by'' (VStr ?a)) ''completed_reason'' (VStr ?r)"
  let ?d = "VObj [(''actor'', VStr ?a), (''reason'', VStr ?r)]"
  let ?tail = "bindE (SetPhase ev ''COMPLETE'' (?a @ '': '' @ ?r)) (\<lambda>_. State ev)"
  let ?Q = "\<lambda>(_ :: value) w. ?a \<noteq> [] \<and> 10 \<le> RuneCount ?r \<and> complete_post ev st es ?a ?r w"
  let ?E = "complete_refused ev st es ?a ?r"
  assume ne: "?a \<noteq> []" and len: "\<not> RuneCount ?r < 10" and wf: "wf_value st"
  have w2: "wf_value ?st2" by (intro wf_edits wf) (use a r in simp_all)
  let ?R = "\<lambda>(_ :: value) w. \<exists>st1 e. healthy ev st1 (es @ [e]) w \<and> same_fields ?st2 st1 \<and> completed_event ev e"
  show "valid (healthy ev st es) (bindE (saveThenLog ev ?raw ?st2 ''campaign.completed'' (Some (CampaignID ev)) ?d) (\<lambda>_. ?tail)) ?Q ?E"
  proof (rule v_bind [of _ _ ?R])
    show "valid (healthy ev st es) (saveThenLog ev ?raw ?st2 ''campaign.completed'' (Some (CampaignID ev)) ?d)
      (\<lambda>_ w. \<exists>st1 e. healthy ev st1 (es @ [e]) w \<and> same_fields ?st2 st1 \<and> completed_event ev e) ?E"
      by (rule v_weaken [OF v_saveThenLog [OF ev _ _ w2]])
         (use ev a r in \<open>auto simp: args_ok_def env_ok_def complete_refused_def appended_def settled_def completed_event_def ref_value_def\<close>)
    have t: "valid (healthy ev st1 (es @ [e])) ?tail (\<lambda>_. phase_post ev st1 (es @ [e]) ''COMPLETE'' (?a @ '': '' @ ?r)) (may_lag ev st1 (es @ [e]))"
      for st1 e
      by (rule v_bind [OF v_SetPhase [OF ev] phase_post_State]) (use a r in \<open>simp add: valid_utf8_append\<close>)
    show "valid (\<lambda>w. \<exists>st1 e. healthy ev st1 (es @ [e]) w \<and> same_fields ?st2 st1 \<and> completed_event ev e) ?tail ?Q ?E" for u
    proof (intro v_exE)
      fix st1 e
      show "valid (\<lambda>w. healthy ev st1 (es @ [e]) w \<and> same_fields ?st2 st1 \<and> completed_event ev e) ?tail ?Q ?E"
      proof (rule v_pure [of _ "same_fields ?st2 st1 \<and> completed_event ev e"])
        show "keeps_to ledger_grows ?tail" by (intro grows_rules grows_SetPhase)
        assume s: "same_fields ?st2 st1 \<and> completed_event ev e"
        show "valid (\<lambda>w. healthy ev st1 (es @ [e]) w \<and> same_fields ?st2 st1 \<and> completed_event ev e) ?tail ?Q ?E"
          by (rule v_weaken [OF t [of st1 e]])
             (use s ne len in \<open>auto simp: complete_post_def complete_refused_def completed_state_def\<close>)
      qed blast
    qed
  qed
qed (intro grows_rules grows_SetPhase grows_saveThenLog of_files_rules of_files_complete of_files_healthy
     | auto simp: complete_refused_def may_lag_def)+

section \<open>Budget\<close>

lemma wf_budget_with: "wf_value st \<Longrightarrow> wf_value x \<Longrightarrow> valid_utf8 key \<Longrightarrow> wf_value (budget_with st key x)"
  unfolding budget_with_def Let_def by (intro wf_edits) simp_all

lemma budget_with_events [simp]: "ObjAt (budget_with st key x) ''events'' = ObjAt st ''events''"
  by (simp add: budget_with_def Let_def)

text \<open>A budget decision: the projection with the new key, and the event that records old, new and actor.\<close>

definition budget_post :: "env \<Rightarrow> value \<Rightarrow> value list \<Rightarrow> string \<Rightarrow> value \<Rightarrow> string \<Rightarrow> string \<Rightarrow> world \<Rightarrow> bool" where
  "budget_post ev st es key new ty actor w \<longleftrightarrow> (\<exists>st'. same_fields (budget_with st key new) st' \<and>
     appended ev st' es (window_ok es (vA (ObjAt st ''events''))) ty None
       (VObj [(''old'', ObjAt (ObjAt st ''budget'') key), (''new'', new), (''actor'', VStr actor)]) w)"

lemma of_files_budget_post: "of_files (budget_post ev st es key new ty actor)"
  unfolding budget_post_def by (intro of_files_rules of_files_appended)

lemma v_budget_decision:
  assumes ev: "env_ok ev" and a: "valid_utf8 actor" "valid_utf8 key" "valid_utf8 ty" and n: "wf_value new"
    and ty: "ty \<noteq> ''completion.waived''" and wf: "wf_value st"
  shows "valid (healthy ev st es)
    (bindE (saveThenLog ev (Some (DumpIndented st @ NL)) (budget_with st key new) ty None
       (VObj [(''old'', ObjAt (ObjAt st ''budget'') key), (''new'', new), (''actor'', VStr actor)])) (\<lambda>_. ret (ObjAt (budget_with st key new) ''budget'')))
    (\<lambda>_. budget_post ev st es key new ty actor) (may_lag ev st es)"
proof (rule v_bind [OF v_saveThenLog [OF ev _ ty wf_budget_with [OF wf n a(2)]] v_ret])
  show "args_ok ty None (Some (VObj [(''old'', ObjAt (ObjAt st ''budget'') key), (''new'', new), (''actor'', VStr actor)]))"
    using a n wf_ObjAt [OF wf_ObjAt [OF wf]] by (simp add: args_ok_def)
qed (auto simp: budget_post_def)

lemma v_SetCostCeiling:
  assumes ev: "env_ok ev" and a: "valid_utf8 actor" and c: "case ceil of None \<Rightarrow> True | Some c \<Rightarrow> wf_value c"
  shows "valid (healthy ev st es) (SetCostCeiling ev ceil actor)
    (\<lambda>_. budget_post ev st es ''max_total_cost_usd'' (case ceil of None \<Rightarrow> VNull | Some c \<Rightarrow> c) ''budget.limit_set'' actor)
    (may_lag ev st es)"
  unfolding SetCostCeiling_def Let_def
proof (rule v_lock [OF v_with_raw [OF _ v_with_state [OF _ v_healthy_facts [OF ev]]]])
  let ?new = "case ceil of None \<Rightarrow> VNull | Some c \<Rightarrow> c"
  assume wf: "wf_value st"
  show "valid (healthy ev st es)
     (bindE (saveThenLog ev (Some (DumpIndented st @ NL)) (budget_with st ''max_total_cost_usd'' ?new) ''budget.limit_set'' None
        (VObj [(''old'', ObjAt (ObjAt st ''budget'') ''max_total_cost_usd''), (''new'', ?new), (''actor'', VStr actor)]))
        (\<lambda>_. ret (ObjAt (budget_with st ''max_total_cost_usd'' ?new) ''budget'')))
     (\<lambda>_. budget_post ev st es ''max_total_cost_usd'' ?new ''budget.limit_set'' actor) (may_lag ev st es)"
    by (rule v_budget_decision [OF ev a _ _ _ _ wf]) (use c in \<open>simp_all split: option.splits\<close>)
qed (intro grows_rules grows_saveThenLog of_files_rules of_files_may_lag of_files_budget_post | simp add: may_lag_def)+

lemma v_SetDiscoveryBudget:
  assumes ev: "env_ok ev" and a: "valid_utf8 actor" and c: "int64_range maxFindings"
  shows "valid (healthy ev st es) (SetDiscoveryBudget ev maxFindings actor)
    (\<lambda>_ w. 1 \<le> maxFindings \<and> budget_post ev st es ''max_discovery_findings'' (VInt maxFindings) ''budget.discovery_set'' actor w)
    (may_lag ev st es)"
  unfolding SetDiscoveryBudget_def Let_def
proof (rule v_lock [OF v_with_raw [OF _ v_with_guard [OF _ v_with_state [OF _ v_healthy_facts [OF ev]]]]])
  assume n: "\<not> maxFindings < 1" and wf: "wf_value st"
  show "valid (healthy ev st es)
     (bindE (saveThenLog ev (Some (DumpIndented st @ NL)) (budget_with st ''max_discovery_findings'' (VInt maxFindings)) ''budget.discovery_set'' None
        (VObj [(''old'', ObjAt (ObjAt st ''budget'') ''max_discovery_findings''), (''new'', VInt maxFindings), (''actor'', VStr actor)]))
        (\<lambda>_. ret (ObjAt (budget_with st ''max_discovery_findings'' (VInt maxFindings)) ''budget'')))
     (\<lambda>_ w. 1 \<le> maxFindings \<and> budget_post ev st es ''max_discovery_findings'' (VInt maxFindings) ''budget.discovery_set'' actor w)
     (may_lag ev st es)"
    by (rule v_weaken [OF v_budget_decision [OF ev a]]) (use n c wf in auto)
qed (intro grows_rules grows_saveThenLog of_files_rules of_files_may_lag of_files_budget_post | simp add: may_lag_def)+

lemma v_ConsumeDiscoverySlot:
  assumes ev: "env_ok ev"
  shows "valid (healthy ev st es) (ConsumeDiscoverySlot ev)
    (\<lambda>_ w. \<exists>st'. healthy ev st' es w \<and> same_fields (budget_with st ''discovery_findings_so_far''
        (VInt (wrap64 (vI (ObjAt (ObjAt st ''budget'') ''discovery_findings_so_far'') + 1)))) st' \<and>
      ObjAt st' ''events'' = ObjAt st ''events'')
    (healthy ev st es)"
  unfolding ConsumeDiscoverySlot_def Let_def
proof (rule v_lock [OF v_with_state [OF _ v_healthy_facts [OF ev]]])
  assume wf: "wf_value st"
  let ?st = "budget_with st ''discovery_findings_so_far'' (VInt (wrap64 (vI (ObjAt (ObjAt st ''budget'') ''discovery_findings_so_far'') + 1)))"
  show "valid (healthy ev st es) (SaveState ev ?st) (\<lambda>_ w. \<exists>st'. healthy ev st' es w \<and> same_fields ?st st' \<and> ObjAt st' ''events'' = ObjAt st ''events'') (healthy ev st es)"
    by (rule v_weaken [OF v_SaveState [OF ev wf_budget_with [OF wf]]]) auto
qed (intro grows_rules of_files_rules | simp)+

end
