(* ===== verification/PhaseProperties.thy ===== *)
theory PhaseProperties
  imports PhaseFacts Examples
begin

text \<open>
  The properties of the phase machine and the discovery budget: on a settled campaign every decision
  is either on the ledger and in the state, or in neither.
\<close>

section \<open>Reading the triples\<close>

text \<open>A ledger that no longer fits a Go file size; no run of a real campaign ends there.\<close>

definition oversize :: "world \<Rightarrow> bool" where
  "oversize w \<longleftrightarrow> 2 ^ 63 \<le> length (content_of EventsPath w)"

lemma size_or_oversize: "oversize w \<or> size_ok w"
  by (auto simp: oversize_def size_ok_def int64_range_def)

lemma valid_outcome:
  assumes "valid P m Q E" "P w" "m w = (r, w')"
  shows "oversize w' \<or> (case r of Inr x \<Rightarrow> Q x w' | Inl _ \<Rightarrow> E w')"
  using valid_run [OF assms] size_or_oversize [of w'] by blast

text \<open>The state a decision found, under a ledger that may hold one more event than its mirror knows.\<close>

definition unchanged :: "env \<Rightarrow> value \<Rightarrow> value list \<Rightarrow> world \<Rightarrow> bool" where
  "unchanged ev st es w \<longleftrightarrow> State ev w = (Inr st, w) \<and> saved w st \<and>
     (clean_ledger (content_of EventsPath w) es \<or> (\<exists>e. clean_ledger (content_of EventsPath w) (es @ [e])))"

lemma may_lag_unchanged: "may_lag ev st es w \<Longrightarrow> unchanged ev st es w"
  by (auto simp: may_lag_def healthy_def unchanged_def)

text \<open>A verified campaign whose newest event is the given decision.\<close>

definition recorded :: "env \<Rightarrow> value \<Rightarrow> value list \<Rightarrow> string \<Rightarrow> string option \<Rightarrow> value \<Rightarrow> world \<Rightarrow> bool" where
  "recorded ev st es ty ref data w \<longleftrightarrow> State ev w = (Inr st, w) \<and> verify_green ev w \<and>
     (\<exists>e. clean_ledger (content_of EventsPath w) (es @ [e]) \<and> ObjAt e ''type'' = VStr ty \<and>
        ObjAt e ''ref'' = ref_value ref \<and> ObjAt e ''data'' = keysorted data)"

lemma appended_recorded: "appended ev st es True ty ref data w \<Longrightarrow> recorded ev st es ty ref data w"
  using settled_green by (fastforce simp: appended_def recorded_def settled_def healthy_def)

lemma phase_post_recorded:
  assumes "phase_post ev st es phase reason w" "window_ok es (vA (ObjAt st ''events''))" "ObjStr st ''phase'' \<noteq> phase"
  shows "\<exists>st'. phase_moved st phase reason st' \<and>
    recorded ev st' es ''phase.transition'' (Some phase) (phase_data st reason) w"
  using assms appended_recorded by (auto simp: phase_post_def)

section \<open>Examples\<close>

lemma env_ok_ev0 [simp]: "env_ok ev0"
  using env0(1,2) by (simp add: env_ok_def) (simp add: ev0_def)

lemma settled_fresh:
  assumes "ObjAt st ''events'' = VArr []" "vkind st = KObj" "wf_value st"
  shows "settled ev0 st [] (world_with [] st)"
  using assms parse_Indented_NL [OF assms(3)]
  by (simp add: settled_def healthy_def State_Inr saved_def)

lemma settled_w0: "settled ev0 (st_with []) [] w0"
  by (rule settled_fresh) simp_all

section \<open>Phase decisions\<close>



text \<open>\<open>Halt\<close> on a settled campaign: when it returns, the state holds the reason, the phase is HALTED and
  the transition is the ledger's newest event, unless the campaign was already HALTED: then the reason
  is rewritten and the ledger holds no event for it. When it fails, the state is the one it found.\<close>

theorem halt_recorded:
  assumes "env_ok ev" "valid_utf8 reason" "settled ev st es w" "Halt ev reason w = (r, w')"
  shows "oversize w' \<or> (case r of
      Inr _ \<Rightarrow> \<exists>st1. same_fields (set_field st ''halt_reason'' (VStr reason)) st1 \<and>
        (if ObjStr st ''phase'' = ''HALTED'' then State ev w' = (Inr st1, w') \<and> clean_ledger (content_of EventsPath w') es
         else \<exists>st'. phase_moved st1 ''HALTED'' reason st' \<and>
           recorded ev st' es ''phase.transition'' (Some ''HALTED'') (phase_data st1 reason) w')
    | Inl _ \<Rightarrow> unchanged ev st es w')"
proof -
  have win: "window_ok es (vA (ObjAt st ''events''))" using assms(3) by (simp add: settled_def)
  have p: "ObjStr st1 ''phase'' = ObjStr st ''phase''"
    if "same_fields (set_field st ''halt_reason'' (VStr reason)) st1" for st1
    using ObjStr_same_fields [OF that, of "''phase''"] by simp
  have "oversize w' \<or> (case r of Inr _ \<Rightarrow> halt_post ev st es reason w' | Inl _ \<Rightarrow> may_lag ev st es w')"
    by (rule valid_outcome [OF v_Halt [OF assms(1,2)] settled_healthy [OF assms(3)] assms(4)])
  then show ?thesis
  proof (elim disjE)
    assume "case r of Inr _ \<Rightarrow> halt_post ev st es reason w' | Inl _ \<Rightarrow> may_lag ev st es w'"
    then show ?thesis
    proof (cases r)
      case (Inl x)
      with \<open>case r of Inr _ \<Rightarrow> _ w' | Inl _ \<Rightarrow> _ w'\<close> show ?thesis using may_lag_unchanged by simp
    next
      case (Inr x)
      with \<open>case r of Inr _ \<Rightarrow> _ w' | Inl _ \<Rightarrow> _ w'\<close> obtain st1
        where st1: "same_fields (set_field st ''halt_reason'' (VStr reason)) st1"
          "ObjAt st1 ''events'' = ObjAt st ''events''" "phase_post ev st1 es ''HALTED'' reason w'"
        by (auto simp: halt_post_def)
      then show ?thesis using Inr win p [OF st1(1)] phase_post_recorded [OF st1(3)]
        by (cases "ObjStr st ''phase'' = ''HALTED''") (auto simp: phase_post_def healthy_def)
    qed
  qed simp
qed

definition st_halted :: "value" where
  "st_halted = VObj [(''campaign_id'', VStr ''c1''), (''phase'', VStr ''HALTED''), (''halt_reason'', VStr ''old''), (''events'', VArr [])]"

lemma settled_halted: "settled ev0 st_halted [] (world_with [] st_halted)"
  by (rule settled_fresh) (simp_all add: st_halted_def ObjAt_def)

theorem halt_recorded_witness:
  "\<exists>r w'. Halt ev0 ''new'' (world_with [] st_halted) = (r, w') \<and> (oversize w' \<or> (case r of
      Inr _ \<Rightarrow> \<exists>st1. ObjAt st1 ''halt_reason'' = VStr ''new'' \<and> State ev0 w' = (Inr st1, w') \<and>
         clean_ledger (content_of EventsPath w') []
    | Inl _ \<Rightarrow> unchanged ev0 st_halted [] w'))"
proof -
  obtain r w' where run: "Halt ev0 ''new'' (world_with [] st_halted) = (r, w')"
    by (cases "Halt ev0 ''new'' (world_with [] st_halted)")
  have p: "ObjStr st_halted ''phase'' = ''HALTED''" "vkind st_halted = KObj"
    by (simp_all add: ObjStr_def ObjAt_def st_halted_def)
  have h: "ObjAt st1 ''halt_reason'' = VStr ''new''" if "same_fields (set_field st_halted ''halt_reason'' (VStr ''new'')) st1" for st1
    using that p(2) by (auto simp: same_fields_def)
  show ?thesis using halt_recorded [OF env_ok_ev0 _ settled_halted run] run p h by (auto split: sum.splits)
qed

text \<open>\<open>Complete\<close> demands an actor and a reason of ten characters. When it returns, the ledger holds the
  completion and, unless the campaign was COMPLETE before, the phase transition, and verifies; when it fails,
  either nothing was decided and the state is the one it found, or the completion is in the state and
  on the ledger and only the phase move is missing.\<close>

theorem complete_recorded:
  assumes "env_ok ev" "valid_utf8 actor" "valid_utf8 reason" "settled ev st es w" "Complete ev actor reason w = (r, w')"
  shows "oversize w' \<or> (case r of
      Inr _ \<Rightarrow> TrimSpace actor \<noteq> [] \<and> 10 \<le> RuneCount (TrimSpace reason) \<and>
        (\<exists>st1 e st'. same_fields (completed_state st (TrimSpace actor) (TrimSpace reason)) st1 \<and> completed_event ev e \<and>
          State ev w' = (Inr st', w') \<and> ObjStr st' ''phase'' = ''COMPLETE'' \<and>
          (clean_ledger (content_of EventsPath w') (es @ [e]) \<or> (\<exists>e'. clean_ledger (content_of EventsPath w') (es @ [e, e']) \<and>
             ObjAt e' ''type'' = VStr ''phase.transition'' \<and> ObjAt e' ''ref'' = VStr ''COMPLETE'')))
    | Inl _ \<Rightarrow> unchanged ev st es w' \<or>
        (\<exists>st1 e. same_fields (completed_state st (TrimSpace actor) (TrimSpace reason)) st1 \<and> completed_event ev e \<and>
           unchanged ev st1 (es @ [e]) w'))"
proof -
  have "oversize w' \<or> (case r of Inr _ \<Rightarrow> TrimSpace actor \<noteq> [] \<and> 10 \<le> RuneCount (TrimSpace reason) \<and>
      complete_post ev st es (TrimSpace actor) (TrimSpace reason) w'
    | Inl _ \<Rightarrow> complete_refused ev st es (TrimSpace actor) (TrimSpace reason) w')"
    by (rule valid_outcome [OF v_Complete [OF assms(1-3)] settled_healthy [OF assms(4)] assms(5)])
  moreover have "\<exists>st'. State ev w' = (Inr st', w') \<and> ObjStr st' ''phase'' = ''COMPLETE'' \<and>
      (clean_ledger (content_of EventsPath w') (es @ [e]) \<or> (\<exists>e'. clean_ledger (content_of EventsPath w') (es @ [e, e']) \<and>
         ObjAt e' ''type'' = VStr ''phase.transition'' \<and> ObjAt e' ''ref'' = VStr ''COMPLETE''))"
    if "phase_post ev st1 (es @ [e]) ''COMPLETE'' t w'" for st1 e t
  proof (cases "ObjStr st1 ''phase'' = ''COMPLETE''")
    case True
    with that show ?thesis by (auto simp: phase_post_def healthy_def)
  next
    case False
    with that show ?thesis
      by (fastforce simp: phase_post_def appended_def settled_def healthy_def phase_moved_def ref_value_def)
  qed
  ultimately show ?thesis
    using may_lag_unchanged
    by (auto simp: complete_post_def complete_refused_def split: sum.splits) blast+
qed

theorem complete_recorded_witness:
  "\<exists>r w'. Complete ev0 ''ada'' ''audit finished'' w0 = (r, w') \<and> (oversize w' \<or> (case r of
      Inr _ \<Rightarrow> \<exists>st'. State ev0 w' = (Inr st', w') \<and> ObjStr st' ''phase'' = ''COMPLETE''
    | Inl _ \<Rightarrow> unchanged ev0 (st_with []) [] w' \<or>
        (\<exists>st1 e. completed_event ev0 e \<and> unchanged ev0 st1 [e] w')))"
proof -
  obtain r w' where run: "Complete ev0 ''ada'' ''audit finished'' w0 = (r, w')"
    by (cases "Complete ev0 ''ada'' ''audit finished'' w0")
  show ?thesis using complete_recorded [OF env_ok_ev0 _ _ settled_w0 run] run by (fastforce split: sum.splits)
qed

section \<open>Budget decisions\<close>

definition budget_data :: "value \<Rightarrow> string \<Rightarrow> value \<Rightarrow> string \<Rightarrow> value" where
  "budget_data st key new actor =
     VObj [(''old'', ObjAt (ObjAt st ''budget'') key), (''new'', new), (''actor'', VStr actor)]"

lemma budget_post_recorded:
  assumes "budget_post ev st es key new ty actor w" "window_ok es (vA (ObjAt st ''events''))"
  shows "\<exists>st'. same_fields (budget_with st key new) st' \<and> recorded ev st' es ty None (budget_data st key new actor) w"
  using assms appended_recorded by (auto simp: budget_post_def budget_data_def)

lemma cost_ceiling_recorded:
  assumes "env_ok ev" "valid_utf8 actor" "wf_value c" "settled ev st es w" "SetCostCeiling ev (Some c) actor w = (r, w')"
  shows "oversize w' \<or> (case r of
      Inr _ \<Rightarrow> \<exists>st'. same_fields (budget_with st ''max_total_cost_usd'' c) st' \<and>
        recorded ev st' es ''budget.limit_set'' None (budget_data st ''max_total_cost_usd'' c actor) w'
    | Inl _ \<Rightarrow> unchanged ev st es w')"
proof -
  have win: "window_ok es (vA (ObjAt st ''events''))" and h: "healthy ev st es w"
    using assms(4) by (simp_all add: settled_def)
  show ?thesis
    using valid_outcome [OF v_SetCostCeiling [OF assms(1,2), of "Some c"] h assms(5)] assms(3)
      budget_post_recorded [OF _ win] may_lag_unchanged
    by (auto split: sum.splits)
qed

text \<open>Raising or lowering the discovery ceiling is a decision: on a settled campaign it is in the state and
  on the ledger with the old value, the new one, which is positive, and the actor, or it is in neither.\<close>

theorem budget_recorded:
  assumes "env_ok ev" "valid_utf8 actor" "int64_range n" "settled ev st es w" "SetDiscoveryBudget ev n actor w = (r, w')"
  shows "oversize w' \<or> (case r of
      Inr _ \<Rightarrow> 1 \<le> n \<and> (\<exists>st'. same_fields (budget_with st ''max_discovery_findings'' (VInt n)) st' \<and>
        recorded ev st' es ''budget.discovery_set'' None (budget_data st ''max_discovery_findings'' (VInt n) actor) w')
    | Inl _ \<Rightarrow> unchanged ev st es w')"
proof -
  have win: "window_ok es (vA (ObjAt st ''events''))" and h: "healthy ev st es w"
    using assms(4) by (simp_all add: settled_def)
  show ?thesis
    using valid_outcome [OF v_SetDiscoveryBudget [OF assms(1-3)] h assms(5)] budget_post_recorded [OF _ win] may_lag_unchanged
    by (auto split: sum.splits)
qed

theorem budget_recorded_witness:
  "\<exists>r w'. SetDiscoveryBudget ev0 7 ''ada'' w0 = (r, w') \<and> (oversize w' \<or> (case r of
      Inr _ \<Rightarrow> \<exists>st'. recorded ev0 st' [] ''budget.discovery_set'' None
        (budget_data (st_with []) ''max_discovery_findings'' (VInt 7) ''ada'') w'
    | Inl _ \<Rightarrow> unchanged ev0 (st_with []) [] w'))"
proof -
  obtain r w' where run: "SetDiscoveryBudget ev0 7 ''ada'' w0 = (r, w')" by (cases "SetDiscoveryBudget ev0 7 ''ada'' w0")
  show ?thesis using budget_recorded [OF env_ok_ev0 _ _ settled_w0 run] run by (auto simp: int64_range_def split: sum.splits)
qed

text \<open>Charging the discovery budget adds one to the counter, as an \<open>int64\<close>, changes no other field,
  appends no event, and on failure leaves the state it found.\<close>

theorem slot_charged:
  assumes "env_ok ev" "settled ev st es w" "ConsumeDiscoverySlot ev w = (r, w')"
  shows "oversize w' \<or> (case r of
      Inr _ \<Rightarrow> \<exists>st'. settled ev st' es w' \<and> same_fields (budget_with st ''discovery_findings_so_far''
        (VInt (wrap64 (vI (ObjAt (ObjAt st ''budget'') ''discovery_findings_so_far'') + 1)))) st'
    | Inl _ \<Rightarrow> settled ev st es w')"
proof -
  have win: "window_ok es (vA (ObjAt st ''events''))" and h: "healthy ev st es w"
    using assms(2) by (simp_all add: settled_def)
  show ?thesis
    using valid_outcome [OF v_ConsumeDiscoverySlot [OF assms(1)] h assms(3)] win
    by (auto simp: settled_def split: sum.splits)
qed

theorem slot_charged_witness:
  "\<exists>r w'. ConsumeDiscoverySlot ev0 w0 = (r, w') \<and> (oversize w' \<or> (\<exists>st'. settled ev0 st' [] w'))"
proof -
  obtain r w' where run: "ConsumeDiscoverySlot ev0 w0 = (r, w')" by (cases "ConsumeDiscoverySlot ev0 w0")
  show ?thesis using slot_charged [OF env_ok_ev0 settled_w0 run] run by (auto split: sum.splits)
qed

end
