(* ===== verification/Notes.thy ===== *)
theory Notes
  imports StateFields
begin

text \<open>
  Stage notes, \<^verbatim>\<open>internal/state/note.go\<close>: a note is cut to \<open>NOTE_CAP\<close> code points with a marker that
  says how many were dropped. The marker's width depends on that number, so the cut is found by
  iteration.
\<close>

section \<open>The code\<close>

definition NOTE_CAP :: nat where "NOTE_CAP = 4096"

text \<open>\<open>truncateRunes\<close>: the bytes of the first \<open>keep\<close> runes.\<close>

definition truncateRunes :: "string \<Rightarrow> nat \<Rightarrow> string" where
  "truncateRunes s keep = concat (map snd (take keep (rune_segments s)))"

text \<open>\<open>itoa\<close> fills a buffer from the right.\<close>

fun itoa_loop :: "nat \<Rightarrow> string \<Rightarrow> string" where
  "itoa_loop n b = (if 0 < n then itoa_loop (n div 10) (digit_char (n mod 10) # b) else b)"

declare itoa_loop.simps [simp del]

definition itoa :: "nat \<Rightarrow> string" where
  "itoa n = (if n = 0 then ''0'' else itoa_loop n [])"

definition truncationMarker :: "nat \<Rightarrow> string" where
  "truncationMarker n = '' '' @ encode_rune 0x2026 @ ''[truncated '' @ itoa n @ '' chars '' @ encode_rune 0x2014 @
     '' full content must live in an artifact, not a stage note]''"

lemma RuneCount_pos: "s \<noteq> [] \<Longrightarrow> 0 < RuneCount s"
  by (simp add: RuneCount_def runes.simps)

lemma marker_pos: "0 < RuneCount (truncationMarker n)"
  by (rule RuneCount_pos) (simp add: truncationMarker_def)

text \<open>The loop of \<open>capNote\<close>; \<open>keep\<close> strictly decreases because the marker is never empty.\<close>

function cap_loop :: "string \<Rightarrow> nat \<Rightarrow> nat \<Rightarrow> string" where
  "cap_loop s n keep =
     (let marker = truncationMarker (n - keep); m = RuneCount marker in
      if keep + m \<le> NOTE_CAP then truncateRunes s keep @ marker
      else if NOTE_CAP - m = 0 then truncateRunes (truncationMarker n) NOTE_CAP
      else cap_loop s n (NOTE_CAP - m))"
  by pat_completeness auto
termination
  by (relation "measure (\<lambda>(s, n, keep). keep)") (use marker_pos in \<open>auto simp: Let_def not_le\<close>)

declare cap_loop.simps [simp del]

definition note_text :: "value \<Rightarrow> string" where
  "note_text note = (if vkind note = KStr then vS note else CanonSpaced note)"

definition capNote :: "value \<Rightarrow> string" where
  "capNote note =
     (if vkind note = KNull then []
      else let s = note_text note; n = RuneCount s in
        if n \<le> NOTE_CAP then s else cap_loop s n NOTE_CAP)"

section \<open>What it guarantees\<close>

lemma itoa_loop_digits: "0 < n \<Longrightarrow> itoa_loop n b = nat_digits n @ b"
proof (induction n b rule: itoa_loop.induct)
  case (1 n b)
  then show ?case
    by (cases "n < 10") (simp_all add: itoa_loop.simps [of n] itoa_loop.simps [of 0] nat_digits.simps [of n])
qed

lemma itoa_nat_digits: "itoa n = nat_digits n"
  by (simp add: itoa_def itoa_loop_digits nat_digits_zero)

lemma RuneCount_utf8: "\<forall>r\<in>set rs. valid_rune r \<Longrightarrow> RuneCount (utf8_encode rs) = length rs"
  by (simp add: RuneCount_def runes_utf8_encode)

text \<open>A valid string is the encoding of its runes; cutting, joining and counting act on the rune list.\<close>

lemma utf8_runes: "valid_utf8 s \<Longrightarrow> \<exists>rs. s = utf8_encode rs \<and> (\<forall>r\<in>set rs. valid_rune r)"
  by (metis runes_valid valid_utf8_def)

lemma RuneCount_append: "valid_utf8 s \<Longrightarrow> valid_utf8 t \<Longrightarrow> RuneCount (s @ t) = RuneCount s + RuneCount t"
proof -
  assume "valid_utf8 s" "valid_utf8 t"
  then obtain rs rt where "s = utf8_encode rs" "\<forall>r\<in>set rs. valid_rune r" "t = utf8_encode rt" "\<forall>r\<in>set rt. valid_rune r"
    using utf8_runes by blast
  then show ?thesis using RuneCount_utf8 [of "rs @ rt"] by (auto simp: RuneCount_utf8)
qed

lemma truncateRunes_utf8: "\<forall>r\<in>set rs. valid_rune r \<Longrightarrow> truncateRunes (utf8_encode rs) k = utf8_encode (take k rs)"
  by (simp add: truncateRunes_def rune_segments_utf8 take_map comp_def utf8_encode_def [of "take k rs"])

lemma truncateRunes_valid:
  assumes "valid_utf8 s"
  shows "valid_utf8 (truncateRunes s k)" "RuneCount (truncateRunes s k) = min k (RuneCount s)"
    "\<exists>t. s = truncateRunes s k @ t"
proof -
  obtain rs where rs: "s = utf8_encode rs" "\<forall>r\<in>set rs. valid_rune r" using utf8_runes [OF assms] by blast
  have tk: "\<forall>r\<in>set (take k rs). valid_rune r" using rs(2) by (auto dest: in_set_takeD)
  have eq: "truncateRunes s k = utf8_encode (take k rs)" by (simp add: rs truncateRunes_utf8)
  show "valid_utf8 (truncateRunes s k)" unfolding eq by (rule valid_utf8_encode [OF tk])
  show "RuneCount (truncateRunes s k) = min k (RuneCount s)"
    unfolding eq RuneCount_utf8 [OF tk] unfolding rs(1) RuneCount_utf8 [OF rs(2)] by simp
  have "utf8_encode rs = utf8_encode (take k rs) @ utf8_encode (drop k rs)"
    by (metis append_take_drop_id utf8_encode_simps(3))
  then show "\<exists>t. s = truncateRunes s k @ t" using rs(1) eq by auto
qed

lemma digits_utf8: "valid_utf8 (nat_digits n)"
proof (rule valid_utf8_ascii, rule ballI)
  fix c assume "c \<in> set (nat_digits n)"
  then show "(of_char c :: nat) < 128" using nat_digits_digits by (force simp: is_digit_def)
qed

lemma marker_utf8: "valid_utf8 (truncationMarker n)"
proof -
  have e: "valid_utf8 (encode_rune r)" if "valid_rune r" for r
    using valid_utf8_encode [of "[r]"] that by simp
  show ?thesis unfolding truncationMarker_def itoa_nat_digits
    by (intro valid_utf8_append e digits_utf8) (simp_all add: valid_rune_def)
qed

lemma cap_loop_bounded:
  assumes "valid_utf8 s" "keep \<le> NOTE_CAP"
  shows "valid_utf8 (cap_loop s n keep) \<and> RuneCount (cap_loop s n keep) \<le> NOTE_CAP"
  using assms
proof (induction s n keep rule: cap_loop.induct)
  case (1 s n keep)
  have m: "RuneCount (truncateRunes s keep @ truncationMarker (n - keep))
      = min keep (RuneCount s) + RuneCount (truncationMarker (n - keep))"
    using truncateRunes_valid [OF 1(2)] marker_utf8 by (simp add: RuneCount_append)
  show ?case
    using 1 m truncateRunes_valid [OF marker_utf8] truncateRunes_valid [OF 1(2)] marker_utf8
    by (subst cap_loop.simps) (auto simp: Let_def cap_loop.simps [of s n keep] valid_utf8_append)
qed

lemma wf_note_text: "wf_value v \<Longrightarrow> valid_utf8 (note_text v)"
proof -
  assume wf: "wf_value v"
  have "isASCII (CanonSpaced v)" by (rule printables_ascii [OF CanonSpaced_printables [OF wf]])
  then have "valid_utf8 (CanonSpaced v)" by (intro valid_utf8_ascii) (auto simp: isASCII_def list_all_iff)
  with wf show ?thesis by (simp add: note_text_def wf_vS)
qed

lemma capNote_bounded: "wf_value v \<Longrightarrow> valid_utf8 (capNote v) \<and> RuneCount (capNote v) \<le> NOTE_CAP"
  using wf_note_text [of v] cap_loop_bounded [of "note_text v" NOTE_CAP]
  by (auto simp: capNote_def Let_def RuneCount_def)

lemma capNote_fixed: "wf_value v \<Longrightarrow> capNote (VStr (capNote v)) = capNote v"
  using capNote_bounded [of v] by (simp add: capNote_def [of "VStr _"] note_text_def)

section \<open>The cut discloses its size\<close>

lemma length_nat_digits: "n < 10 ^ Suc k \<Longrightarrow> length (nat_digits n) \<le> Suc k"
proof (induction k arbitrary: n)
  case 0
  then show ?case by (simp add: nat_digits.simps)
next
  case (Suc k)
  show ?case
  proof (cases "n < 10")
    case False
    have "n div 10 < 10 ^ Suc k" using Suc.prems by (simp add: less_mult_imp_div_less mult.commute)
    from Suc.IH [OF this] False show ?thesis by (simp add: nat_digits.simps [of n])
  qed (simp add: nat_digits.simps)
qed

lemma RuneCount_Cons [simp]: "(of_char c :: nat) < 128 \<Longrightarrow> RuneCount (c # s) = Suc (RuneCount s)"
  by (simp add: RuneCount_def)

lemma RuneCount_Nil [simp]: "RuneCount [] = 0"
  by (simp add: RuneCount_def)

lemma RuneCount_ascii: "\<forall>c\<in>set s. (of_char c :: nat) < 128 \<Longrightarrow> RuneCount s = length s"
  by (induction s) simp_all

lemma RuneCount_digits: "RuneCount (nat_digits n) = length (nat_digits n)"
proof (rule RuneCount_ascii, rule ballI)
  fix c assume "c \<in> set (nat_digits n)"
  then show "(of_char c :: nat) < 128" using nat_digits_digits by (force simp: is_digit_def)
qed

lemma marker_short:
  assumes "n < 10 ^ 19" shows "RuneCount (truncationMarker n) < 128"
proof -
  have e: "valid_utf8 (encode_rune r)" "RuneCount (encode_rune r) = 1" if "valid_rune r" for r
    using valid_utf8_encode [of "[r]"] RuneCount_utf8 [of "[r]"] that by simp_all
  have d: "length (nat_digits n) \<le> 19" using length_nat_digits [of n 18] assms by simp
  show ?thesis unfolding truncationMarker_def itoa_nat_digits
    using d by (simp add: RuneCount_append valid_utf8_append e digits_utf8 RuneCount_digits valid_rune_def)
qed

lemma cap_loop_shape:
  assumes "n < 10 ^ 19"
  shows "\<exists>k. k + RuneCount (truncationMarker (n - k)) \<le> NOTE_CAP \<and>
    cap_loop s n keep = truncateRunes s k @ truncationMarker (n - k)"
  using assms
proof (induction s n keep rule: cap_loop.induct)
  case (1 s n keep)
  have m: "RuneCount (truncationMarker (n - keep)) < 128" by (rule marker_short) (use 1(2) in simp)
  show ?case
  proof (cases "keep + RuneCount (truncationMarker (n - keep)) \<le> NOTE_CAP")
    case True
    then show ?thesis by (subst cap_loop.simps) (auto simp: Let_def)
  next
    case False
    moreover have "NOTE_CAP - RuneCount (truncationMarker (n - keep)) \<noteq> 0" using m by (simp add: NOTE_CAP_def)
    moreover note 1(1) [OF refl refl False this 1(2)]
    ultimately show ?thesis by (subst cap_loop.simps) (simp add: Let_def)
  qed
qed

lemma capNote_shape:
  assumes "vkind v \<noteq> KNull" "NOTE_CAP < RuneCount (note_text v)" "RuneCount (note_text v) < 10 ^ 19"
  shows "\<exists>k<NOTE_CAP. capNote v = truncateRunes (note_text v) k @ truncationMarker (RuneCount (note_text v) - k)"
proof -
  let ?n = "RuneCount (note_text v)"
  obtain k where "k + RuneCount (truncationMarker (?n - k)) \<le> NOTE_CAP"
      "cap_loop (note_text v) ?n NOTE_CAP = truncateRunes (note_text v) k @ truncationMarker (?n - k)"
    using cap_loop_shape [OF assms(3), of "note_text v" NOTE_CAP] by blast
  moreover have "capNote v = cap_loop (note_text v) ?n NOTE_CAP" using assms(1,2) by (simp add: capNote_def Let_def)
  ultimately show ?thesis using marker_pos [of "?n - k"] by (intro exI [of _ k]) simp
qed

end
