(* ===== verification/RowLog.thy ===== *)
theory RowLog
  imports LogLive Frames
begin

text \<open>
  A row of an append-only file paired with a ledger event, \<^verbatim>\<open>internal/state/jsonlcommit.go\<close>: the
  bytes are snapshotted, the row appended, the event logged, and a refusal of either restores the
  file, or removes one that did not exist. The result holds whatever the disk does to the writes,
  because a failed restore is an error of its own.
\<close>

section \<open>The code\<close>

text \<open>\<open>restore\<close>: a missing file is a successful restore.\<close>

definition restore_row :: "string \<Rightarrow> string option \<Rightarrow> unit op" where
  "restore_row p prev = (case prev of
       Some raw \<Rightarrow> write_file p raw
     | None \<Rightarrow> catchE (remove_file p) (\<lambda>r. case r of
           Inl e \<Rightarrow> if is_not_exist e then ret () else fail e
         | Inr _ \<Rightarrow> ret ()))"

definition fail_row :: "string \<Rightarrow> string option \<Rightarrow> error \<Rightarrow> 'a op" where
  "fail_row p prev e = catchE (restore_row p prev) (\<lambda>r. case r of
       Inl e2 \<Rightarrow> fail (EUnwindFailed e e2)
     | Inr _ \<Rightarrow> fail e)"

definition appendJsonlThenLog ::
    "string \<Rightarrow> string \<Rightarrow> (string \<Rightarrow> string \<Rightarrow> unit op) \<Rightarrow> 'a op \<Rightarrow> 'a op" where
  "appendJsonlThenLog p line appendFn logf = with_lock
     (catchE (ReadFile p) (\<lambda>r.
        let go = (\<lambda>prev. catchE (appendFn p line) (\<lambda>ra. case ra of
                     Inl e \<Rightarrow> fail_row p prev e
                   | Inr _ \<Rightarrow> catchE logf (\<lambda>rl. case rl of
                         Inl e \<Rightarrow> fail_row p prev e
                       | Inr x \<Rightarrow> ret x)))
        in case r of
             Inl e \<Rightarrow> if is_not_exist e then go None else fail e
           | Inr raw \<Rightarrow> go (Some raw)))"

definition AppendJsonlThenLog :: "string \<Rightarrow> string \<Rightarrow> 'a op \<Rightarrow> 'a op" where
  "AppendJsonlThenLog p line logf = appendJsonlThenLog p line AppendJsonl logf"

definition AppendJsonlAsciiThenLog :: "string \<Rightarrow> string \<Rightarrow> 'a op \<Rightarrow> 'a op" where
  "AppendJsonlAsciiThenLog p line logf = appendJsonlThenLog p line AppendJsonlAscii logf"

section \<open>The contract\<close>

definition file_same :: "string \<Rightarrow> world \<Rightarrow> world \<Rightarrow> bool" where
  "file_same p w w' \<longleftrightarrow> kv_find (files w') p = kv_find (files w) p"

text \<open>The discipline for any write to one file: what it does to the content is a relation, and the log
  leaves the file alone.\<close>

definition guarded_write :: "string \<Rightarrow> unit op \<Rightarrow> 'a op \<Rightarrow> 'a op" where
  "guarded_write p put logf = with_lock
     (catchE (ReadFile p) (\<lambda>r.
        let go = (\<lambda>prev. catchE put (\<lambda>rw. case rw of
                     Inl e \<Rightarrow> fail_row p prev e
                   | Inr _ \<Rightarrow> catchE logf (\<lambda>rl. case rl of
                         Inl e \<Rightarrow> fail_row p prev e
                       | Inr x \<Rightarrow> ret x)))
        in case r of
             Inl e \<Rightarrow> if is_not_exist e then go None else fail e
           | Inr raw \<Rightarrow> go (Some raw)))"

locale file_writer =
  fixes p :: string and put :: "unit op" and logf :: "'a op" and written :: "string \<Rightarrow> string \<Rightarrow> bool"
  assumes log_keeps: "keeps_to (file_same p) logf"
    and write_done: "put w = (Inr u, w1) \<Longrightarrow> written (content_of p w) (content_of p w1)"
    and write_mode: "put w = (r, w1) \<Longrightarrow> kv_find (files w) p = Some (File True b) \<Longrightarrow>
      \<exists>c. kv_find (files w1) p = Some (File True c)"
begin

lemma restore_row_done:
  assumes "restore_row p prev w = (Inr u, w')"
    and "\<And>raw. prev = Some raw \<Longrightarrow> \<exists>c. kv_find (files w) p = Some (File True c)"
  shows "kv_find (files w') p = map_option (File True) prev"
proof (cases prev)
  case (Some raw)
  with assms obtain c where "kv_find (files w) p = Some (File True c)" by blast
  with Some assms(1) show ?thesis
    by (auto simp: restore_row_def write_file_def world_simps accessible_def split: fault.splits)
next
  case None
  have "kv_find (files (del_file p w)) p = None" by (auto simp: del_file_def kv_find_None_iff)
  with None assms(1) show ?thesis
    by (auto simp: restore_row_def catchE_def remove_file_def world_simps split: fault.splits if_splits)
qed

lemma fail_row_outcome:
  assumes "fail_row p prev e w = (r, w')"
    and "\<And>raw. prev = Some raw \<Longrightarrow> \<exists>c. kv_find (files w) p = Some (File True c)"
  shows "(\<exists>e2. r = Inl (EUnwindFailed e e2)) \<or> (r = Inl e \<and> kv_find (files w') p = map_option (File True) prev)"
  using assms restore_row_done [of prev w "()"]
  by (auto simp: fail_row_def catchE_def split: prod.splits sum.splits)

text \<open>A refusal that is not a failed unwind leaves the row file as it was, present or absent.\<close>

lemma body_atomic:
  assumes run: "catchE put (\<lambda>ra. case ra of Inl e \<Rightarrow> fail_row p prev e
      | Inr _ \<Rightarrow> catchE logf (\<lambda>rl. case rl of Inl e \<Rightarrow> fail_row p prev e | Inr x \<Rightarrow> ret x)) w = (r, w')"
    and prev: "kv_find (files w) p = map_option (File True) prev"
  shows "case r of Inr x \<Rightarrow> written (content_of p w) (content_of p w') \<and> (\<exists>w1 w2. logf w1 = (Inr x, w2) \<and> w' = w2)
    | Inl e \<Rightarrow> (\<exists>e1 e2. e = EUnwindFailed e1 e2) \<or> kv_find (files w') p = kv_find (files w) p"
proof -
  obtain ra w1 where a: "put w = (ra, w1)" by (cases "put w")
  have m1: "\<exists>c. kv_find (files w1) p = Some (File True c)" if "prev = Some raw" for raw
    using write_mode [OF a, of raw] prev that by simp
  show ?thesis
  proof (cases ra)
    case (Inl e)
    with run a have "fail_row p prev e w1 = (r, w')" by (simp add: catchE_def)
    then have "(\<exists>e2. r = Inl (EUnwindFailed e e2)) \<or> (r = Inl e \<and> kv_find (files w') p = map_option (File True) prev)"
      by (rule fail_row_outcome) (rule m1)
    with prev show ?thesis by auto
  next
    case (Inr u)
    obtain rl w2 where l: "logf w1 = (rl, w2)" by (cases "logf w1")
    have same: "kv_find (files w2) p = kv_find (files w1) p"
      using log_keeps l unfolding keeps_to_def file_same_def by (metis snd_conv)
    then have m2: "\<exists>c. kv_find (files w2) p = Some (File True c)" if "prev = Some raw" for raw using m1 that by simp
    show ?thesis
    proof (cases rl)
      case (Inl e)
      with run a Inr l have "fail_row p prev e w2 = (r, w')" by (simp add: catchE_def)
      then have "(\<exists>e2. r = Inl (EUnwindFailed e e2)) \<or> (r = Inl e \<and> kv_find (files w') p = map_option (File True) prev)"
        by (rule fail_row_outcome) (rule m2)
      with prev show ?thesis by auto
    next
      case (Inr x)
      with run a \<open>ra = Inr u\<close> l have r: "r = Inr x" "w' = w2" by (simp_all add: catchE_def)
      have "written (content_of p w) (content_of p w1)" using write_done a \<open>ra = Inr u\<close> by simp
      then show ?thesis using r l content_of_cong [OF same] Inr by auto
    qed
  qed
qed

lemma atomic:
  assumes run: "guarded_write p put logf w = (r, w')"
  shows "case r of Inr x \<Rightarrow> written (content_of p w) (content_of p w') \<and> (\<exists>w1 w2. logf w1 = (Inr x, w2) \<and> files w' = files w2)
    | Inl e \<Rightarrow> (\<exists>e1 e2. e = EUnwindFailed e1 e2) \<or> file_same p w w'"
proof (cases "LockProcess w")
  case (Pair r1 w1)
  note fr = LockProcess_frame [OF Pair]
  have c1: "content_of p w1 = content_of p w" using fr by (simp add: content_of_def)
  show ?thesis
  proof (cases r1)
    case (Inl e)
    with Pair run have "r = Inl e" "w' = w1" by (simp_all add: guarded_write_def with_lock_def bindE_def)
    then show ?thesis using fr by (simp add: file_same_def)
  next
    case (Inr u)
    then have lk: "LockProcess w = (Inr (), w1)" using Pair by simp
    let ?go = "\<lambda>prev. catchE put (\<lambda>ra. case ra of Inl e \<Rightarrow> fail_row p prev e
        | Inr _ \<Rightarrow> catchE logf (\<lambda>rl. case rl of Inl e \<Rightarrow> fail_row p prev e | Inr x \<Rightarrow> ret x))"
    have go: ?thesis if "?go prev w1 = (r, w2)" "w' = UnlockProcess w2" "kv_find (files w1) p = map_option (File True) prev" for prev w2
      using body_atomic [OF that(1,3)] that(2) c1 fr
      by (cases r) (auto simp: file_same_def content_of_def world_simps)
    show ?thesis
    proof (cases rule: ReadFile_cases [of p w1])
      case absent
      then show ?thesis using run go [of None]
        by (auto simp: guarded_write_def Let_def with_lock_run [OF lk] catchE_def [of "ReadFile p"] split: prod.splits)
    next
      case (denied c)
      then show ?thesis using run fr
        by (auto simp: guarded_write_def Let_def with_lock_run [OF lk] catchE_def [of "ReadFile p"] file_same_def world_simps)
    next
      case (read c)
      then show ?thesis using run go [of "Some c"]
        by (auto simp: guarded_write_def Let_def with_lock_run [OF lk] catchE_def [of "ReadFile p"] split: prod.splits)
    qed
  qed
qed

end

text \<open>A row: the write appends a line.\<close>

lemma appendJsonlThenLog_guarded: "appendJsonlThenLog p line appendFn logf = guarded_write p (appendFn p line) logf"
  by (simp add: appendJsonlThenLog_def guarded_write_def)

locale row_writer =
  fixes p :: string and appendFn :: "string \<Rightarrow> string \<Rightarrow> unit op" and logf :: "'a op"
  assumes log_keeps: "keeps_to (file_same p) logf"
    and append_adds: "appendFn p line w = (Inr u, w1) \<Longrightarrow> content_of p w1 = content_of p w @ line @ NL"
    and append_mode: "appendFn p line w = (r, w1) \<Longrightarrow> kv_find (files w) p = Some f \<Longrightarrow>
      \<exists>c. kv_find (files w1) p = Some (File (readable f) c)"

sublocale row_writer \<subseteq> row: file_writer p "appendFn p line" logf "\<lambda>old new. new = old @ line @ NL" for line
  by unfold_locales (rule log_keeps, erule append_adds, drule (1) append_mode, simp)

context row_writer
begin

lemma atomic:
  assumes "appendJsonlThenLog p line appendFn logf w = (r, w')"
  shows "case r of Inr x \<Rightarrow> content_of p w' = content_of p w @ line @ NL \<and> (\<exists>w1 w2. logf w1 = (Inr x, w2) \<and> files w' = files w2)
    | Inl e \<Rightarrow> (\<exists>e1 e2. e = EUnwindFailed e1 e2) \<or> file_same p w w'"
  by (rule row.atomic) (use assms in \<open>simp add: appendJsonlThenLog_guarded\<close>)

end

section \<open>The two doors, with the ledger\<close>

lemma appendJsonl_adds: "appendJsonlChecked p line b w = (Inr u, w1) \<Longrightarrow> content_of p w1 = content_of p w @ line @ NL"
  by (cases "next_fault w") (auto simp: appendJsonlChecked_def bindE_Inr append_file_def world_simps checkJsonlTail_Inr split: if_splits)

lemma appendJsonl_mode:
  "appendJsonlChecked p line b w = (r, w1) \<Longrightarrow> kv_find (files w) p = Some f \<Longrightarrow> \<exists>c. kv_find (files w1) p = Some (File (readable f) c)"
  by (cases f) (auto simp: appendJsonlChecked_def bindE_def checkJsonlTail_def append_file_def world_simps accessible_def
      split: fault.splits if_splits)

lemma Log_file_same: "p \<noteq> EventsPath \<Longrightarrow> p \<noteq> StatePath \<Longrightarrow> keeps_to (file_same p) (Log ev ty ref data)"
  using others.resp_Log by (simp add: keeps_to_def others_same_def file_same_def)

interpretation waiver_rows: row_writer WaiversPath AppendJsonl "Log ev ty ref data"
proof unfold_locales
  show "keeps_to (file_same WaiversPath) (Log ev ty ref data)" by (rule Log_file_same) simp_all
  show "AppendJsonl WaiversPath line w = (Inr u, w1) \<Longrightarrow> content_of WaiversPath w1 = content_of WaiversPath w @ line @ NL" for line w u w1
    unfolding AppendJsonl_def by (rule appendJsonl_adds)
  show "AppendJsonl WaiversPath line w = (r, w1) \<Longrightarrow> kv_find (files w) WaiversPath = Some f \<Longrightarrow>
      \<exists>c. kv_find (files w1) WaiversPath = Some (File (readable f) c)" for line w r w1 f
    unfolding AppendJsonl_def by (rule appendJsonl_mode)
qed

definition CostsPath :: string where "CostsPath = ''costs.jsonl''"

lemma CostsPath_simps [simp]: "CostsPath \<noteq> EventsPath" "CostsPath \<noteq> StatePath"
  by (simp_all add: CostsPath_def EventsPath_def StatePath_def)

interpretation cost_rows: row_writer CostsPath AppendJsonlAscii "Log ev ty ref data"
proof unfold_locales
  show "keeps_to (file_same CostsPath) (Log ev ty ref data)" by (rule Log_file_same) simp_all
  show "AppendJsonlAscii CostsPath line w = (Inr u, w1) \<Longrightarrow> content_of CostsPath w1 = content_of CostsPath w @ line @ NL" for line w u w1
    unfolding AppendJsonlAscii_def by (rule appendJsonl_adds)
  show "AppendJsonlAscii CostsPath line w = (r, w1) \<Longrightarrow> kv_find (files w) CostsPath = Some f \<Longrightarrow>
      \<exists>c. kv_find (files w1) CostsPath = Some (File (readable f) c)" for line w r w1 f
    unfolding AppendJsonlAscii_def by (rule appendJsonl_mode)
qed

end
