(* ===== verification/Names.thy ===== *)
theory Names
  imports Campaign Sha256
begin

text \<open>
  Names on disk: lexical path cleaning (\<^verbatim>\<open>path/filepath\<close>) for the paths inside a campaign
  directory, and the identifiers of \<^verbatim>\<open>internal/state/id.go\<close> with the campaign-id pattern of
  \<^verbatim>\<open>campaign.go\<close>. Paths of the model are relative to the campaign directory.
\<close>

section \<open>\<open>filepath.Join\<close>\<close>

definition slash :: char where "slash = CHR ''/''"

text \<open>One component of \<open>Clean\<close>, on the stack of the components kept so far.\<close>

fun clean_step :: "string list \<Rightarrow> string \<Rightarrow> string list" where
  "clean_step st c =
     (if c = [] \<or> c = ''.'' then st
      else if c = ''..'' then (case st of [] \<Rightarrow> [c] | d # ds \<Rightarrow> if d = ''..'' then c # st else ds)
      else c # st)"

definition JoinPath :: "string list \<Rightarrow> string" where
  "JoinPath elems =
     (let cs = rev (foldl clean_step [] (concat (map (split_on slash) elems)))
      in if cs = [] then ''.'' else join [slash] cs)"

text \<open>A file name: not empty, no separator, not one of the two dots.\<close>

definition plain :: "string \<Rightarrow> bool" where
  "plain c \<longleftrightarrow> c \<noteq> [] \<and> slash \<notin> set c \<and> c \<noteq> ''.'' \<and> c \<noteq> ''..''"

lemma clean_step_plain: "plain c \<Longrightarrow> clean_step st c = c # st"
  by (simp add: plain_def)

lemma JoinPath_plain: "list_all plain cs \<Longrightarrow> cs \<noteq> [] \<Longrightarrow> JoinPath cs = join [slash] cs"
proof -
  assume p: "list_all plain cs" and ne: "cs \<noteq> []"
  have "concat (map (split_on slash) cs) = cs"
    using p by (induction cs) (auto simp: plain_def split_on_no_delim)
  moreover have "foldl clean_step st cs = rev cs @ st" for st
    using p by (induction cs arbitrary: st) (simp_all add: clean_step_plain del: clean_step.simps)
  ultimately show ?thesis using ne by (simp add: JoinPath_def)
qed

section \<open>Identifiers\<close>

text \<open>\<open>encoding/hex\<close> on a byte list.\<close>

definition hex_byte :: "nat \<Rightarrow> string" where
  "hex_byte b = [hexd ! (b div 16 mod 16), hexd ! (b mod 16)]"

definition HexEncode :: "nat list \<Rightarrow> string" where
  "HexEncode bs = concat (map hex_byte bs)"

text \<open>The version and variant bits of a version 4 UUID: \<open>b[6] & 0x0f | 0x40\<close>, \<open>b[8] & 0x3f | 0x80\<close>.\<close>

definition uuid4_bits :: "nat list \<Rightarrow> nat list" where
  "uuid4_bits b = (b[6 := b ! 6 mod 16 + 64])[8 := b ! 8 mod 64 + 128]"

text \<open>The sixteen bytes come from \<open>crypto/rand\<close> or from the pinned stream; they are an argument.\<close>

definition newId :: "nat list \<Rightarrow> string \<Rightarrow> nat \<Rightarrow> string" where
  "newId bytes16 prefix n =
     (let h = HexEncode (uuid4_bits bytes16); k = (if n > length h then length h else n)
      in prefix @ ''-'' @ take k h)"

text \<open>\<open>^C-[0-9a-z]{8,16}$\<close>\<close>

definition id_char :: "char \<Rightarrow> bool" where
  "id_char c \<longleftrightarrow> (CHR ''0'' \<le> c \<and> c \<le> CHR ''9'') \<or> (CHR ''a'' \<le> c \<and> c \<le> CHR ''z'')"

definition campaignIDRe :: "string \<Rightarrow> bool" where
  "campaignIDRe s \<longleftrightarrow> take 2 s = ''C-'' \<and> 8 \<le> length (drop 2 s) \<and> length (drop 2 s) \<le> 16 \<and> list_all id_char (drop 2 s)"

definition newCampaign :: "env \<Rightarrow> unit op" where
  "newCampaign ev = guard (campaignIDRe (CampaignID ev)) (EBadId (CampaignID ev))"

lemma length_HexEncode: "length (HexEncode bs) = 2 * length bs"
  by (induction bs) (simp_all add: HexEncode_def hex_byte_def)

lemma hexd_id_char: "n < 16 \<Longrightarrow> id_char (hexd ! n)"
proof -
  have "\<forall>n\<in>set [0..<16]. id_char (hexd ! n)" by code_simp
  then show "n < 16 \<Longrightarrow> id_char (hexd ! n)" by simp
qed

lemma HexEncode_id_char: "list_all id_char (HexEncode bs)"
  by (induction bs) (simp_all add: HexEncode_def hex_byte_def hexd_id_char)

lemma list_all_take: "list_all P xs \<Longrightarrow> list_all P (take n xs)"
  by (auto simp: list_all_iff dest: in_set_takeD)

text \<open>A fresh campaign id is accepted by the pattern, and has no component that path cleaning could read.\<close>

lemma newId_accepted:
  assumes "length b = 16" "8 \<le> n" "n \<le> 16"
  shows "campaignIDRe (newId b ''C'' n)"
proof -
  let ?h = "HexEncode (uuid4_bits b)"
  have l: "length ?h = 32" using assms(1) by (simp add: length_HexEncode uuid4_bits_def)
  have "newId b ''C'' n = CHR ''C'' # CHR ''-'' # take n ?h" using assms l by (simp add: newId_def Let_def)
  then show ?thesis using assms l list_all_take [OF HexEncode_id_char] by (simp add: campaignIDRe_def)
qed

lemma id_char_plain: "list_all id_char s \<Longrightarrow> slash \<notin> set s"
proof -
  have "\<not> id_char slash" by code_simp
  then show "list_all id_char s \<Longrightarrow> slash \<notin> set s" by (auto simp: list_all_iff)
qed

lemma campaignID_plain: "campaignIDRe s \<Longrightarrow> plain s"
proof -
  assume c: "campaignIDRe s"
  have s: "s = ''C-'' @ drop 2 s" using c append_take_drop_id [of 2 s] by (simp add: campaignIDRe_def)
  have "slash \<notin> set (drop 2 s)" using c id_char_plain by (simp add: campaignIDRe_def)
  then have "slash \<notin> set s" by (subst s) (simp add: slash_def)
  moreover have "length s \<ge> 10" using c by (auto simp: campaignIDRe_def)
  ultimately show "plain s" by (auto simp: plain_def)
qed

end
