(* ===== verification/Lifecycle.thy ===== *)
theory Lifecycle
  imports PhaseFacts Names
begin

text \<open>
  Creating, opening and listing campaigns, \<^verbatim>\<open>internal/state/campaign.go\<close>. \<open>Init\<close> lays out the
  directory, writes the first state, logs \<open>campaign.created\<close>, and removes the directory when any of
  that fails. The world is the content of one campaign directory; the campaign store that
  \<open>ListCampaigns\<close> reads is a listing.
\<close>

section \<open>The initial state\<close>

definition defaultBudget :: "kv list" where
  "defaultBudget = [(''max_discovery_findings'', VInt 400), (''max_repro_attempts_per_finding'', VInt 6),
     (''max_fresh_context_retries'', VInt 3), (''max_passes'', VInt 8), (''pass'', VInt 1),
     (''discovery_findings_so_far'', VInt 0)]"

definition mergeBudget :: "value option \<Rightarrow> value" where
  "mergeBudget budget = (case budget of
       None \<Rightarrow> VObj defaultBudget
     | Some b \<Rightarrow> VObj (foldl (\<lambda>out ov. kv_set out (fst ov) (snd ov)) defaultBudget (vO b)))"

definition initial_state :: "env \<Rightarrow> string \<Rightarrow> value option \<Rightarrow> string \<Rightarrow> string \<Rightarrow> value" where
  "initial_state ev program budget createdAt updatedAt =
     VObj [(''campaign_id'', VStr (CampaignID ev)), (''program'', VStr program),
       (''created_at'', VStr createdAt), (''updated_at'', VStr updatedAt), (''phase'', VStr ''SCOPE''),
       (''phase_history'', VArr []), (''halt_reason'', VNull), (''budget'', mergeBudget budget),
       (''snapshots'', VArr []), (''active_snapshot_id'', VNull), (''artifacts'', VArr []), (''stages'', VObj []),
       (''events'', VArr []), (''policy_path'', VNull), (''floor_policy'', VArr []), (''probe_blanks'', VArr []),
       (''eval_adjudications'', VArr [])]"

section \<open>\<open>Init\<close>\<close>

text \<open>\<open>os.MkdirAll\<close> and \<open>os.RemoveAll\<close> of the campaign directory; a failing removal stops part way.\<close>

definition mkdir_all :: "string \<Rightarrow> unit op" where
  "mkdir_all d w = (case next_fault w of IOok \<Rightarrow> (Inr (), spend w) | IOfail n \<Rightarrow> (Inl (EIO d), spend w))"

definition remove_all :: "world \<Rightarrow> world" where
  "remove_all w = (case next_fault w of
       IOok \<Rightarrow> spend (w\<lparr>files := []\<rparr>)
     | IOfail n \<Rightarrow> spend (w\<lparr>files := drop n (files w)\<rparr>))"

definition campaign_dirs :: "string list" where
  "campaign_dirs = [''.'', ''findings'', ''artifacts'', ''memory'', ''chains'', ''execs'']"

text \<open>The second component is \<open>dirsMade\<close>.\<close>

fun make_dirs :: "bool \<Rightarrow> string list \<Rightarrow> world \<Rightarrow> (error + unit) \<times> bool \<times> world" where
  "make_dirs made [] w = (Inr (), made, w)"
| "make_dirs made (d # ds) w = (case mkdir_all d w of
       (Inl e, w') \<Rightarrow> (Inl e, made, w')
     | (Inr _, w') \<Rightarrow> make_dirs True ds w')"

definition init_body :: "env \<Rightarrow> string \<Rightarrow> value option \<Rightarrow> unit op" where
  "init_body ev program budget =
     bindE (nowIso ev) (\<lambda>createdAt.
     bindE (nowIso ev) (\<lambda>updatedAt.
     bindE (WriteJson ev StatePath (initial_state ev program budget createdAt updatedAt) StateSchema) (\<lambda>_.
     bindE (Log ev ''campaign.created'' (Some (CampaignID ev)) (Some (VObj [(''program'', VStr program)]))) (\<lambda>_.
       ret ()))))"

definition Init :: "env \<Rightarrow> string \<Rightarrow> value option \<Rightarrow> unit op" where
  "Init ev program budget = bindE (newCampaign ev) (\<lambda>_. \<lambda>w.
     if kv_find (files w) StatePath \<noteq> None then (Inl (EExists (CampaignID ev)), w)
     else (case make_dirs False campaign_dirs w of
         (Inl e, made, w1) \<Rightarrow> (Inl e, if made then remove_all w1 else w1)
       | (Inr _, made, w1) \<Rightarrow> (case init_body ev program budget w1 of
             (Inl e, w2) \<Rightarrow> (Inl e, if made then remove_all w2 else w2)
           | (Inr _, w2) \<Rightarrow> (Inr (), w2))))"

section \<open>\<open>Open\<close> and \<open>ListCampaigns\<close>\<close>

definition Open :: "env \<Rightarrow> unit op" where
  "Open ev = bindE (newCampaign ev) (\<lambda>_. \<lambda>w.
     (if kv_find (files w) StatePath = None then Inl (ENotExist (CampaignID ev)) else Inr (), w))"

text \<open>What \<open>os.ReadDir\<close> and \<open>os.Stat\<close> answer about the campaign store.\<close>

datatype stat_answer = StatDir | StatFile | StatMissing | StatRefused

record dir_entry =
  de_name :: string
  de_stat :: stat_answer
  de_state :: stat_answer

datatype listing = NoDir | Unlistable | Entries "dir_entry list"

fun list_entries :: "dir_entry list \<Rightarrow> error + string list" where
  "list_entries [] = Inr []"
| "list_entries (d # ds) =
     (case de_stat d of
        StatMissing \<Rightarrow> list_entries ds
      | StatRefused \<Rightarrow> Inl (EAccess (de_name d))
      | StatFile \<Rightarrow> list_entries ds
      | StatDir \<Rightarrow> (case de_state d of
            StatMissing \<Rightarrow> list_entries ds
          | StatRefused \<Rightarrow> Inl (EAccess (de_name d))
          | _ \<Rightarrow> bindR (list_entries ds) (\<lambda>ns. Inr (de_name d # ns))))"

definition ListCampaigns :: "listing \<Rightarrow> error + string list" where
  "ListCampaigns l = (case l of
       NoDir \<Rightarrow> Inr []
     | Unlistable \<Rightarrow> Inl (EAccess ''campaigns'')
     | Entries ds \<Rightarrow> bindR (list_entries ds) (\<lambda>ns. Inr (sort ns)))"

section \<open>Listing fails closed\<close>

definition is_campaign :: "dir_entry \<Rightarrow> bool" where
  "is_campaign d \<longleftrightarrow> de_stat d = StatDir \<and> de_state d \<in> {StatDir, StatFile}"

definition undecidable :: "dir_entry \<Rightarrow> bool" where
  "undecidable d \<longleftrightarrow> de_stat d = StatRefused \<or> (de_stat d = StatDir \<and> de_state d = StatRefused)"

lemma list_entries_Inr: "list_entries ds = Inr ns \<longleftrightarrow> list_all (\<lambda>d. \<not> undecidable d) ds \<and> ns = map de_name (filter is_campaign ds)"
  by (induction ds arbitrary: ns) (auto simp: undecidable_def is_campaign_def bindR_Inr_iff split: stat_answer.splits)

lemma ListCampaigns_Entries:
  "ListCampaigns (Entries ds) = Inr ns \<longleftrightarrow>
     list_all (\<lambda>d. \<not> undecidable d) ds \<and> ns = sort (map de_name (filter is_campaign ds))"
  by (auto simp: ListCampaigns_def bindR_Inr_iff list_entries_Inr)

section \<open>\<open>Init\<close> on an empty directory\<close>

lemma spend_none [simp]: "faults w = [] \<Longrightarrow> spend w = w"
  by (simp add: spend_def)

lemma make_dirs_calm:
  "faults w = [] \<Longrightarrow> make_dirs made ds w = (Inr (), made \<or> ds \<noteq> [], w)"
  by (induction ds arbitrary: made) (auto simp: mkdir_all_def next_fault_def)

lemma wf_mergeBudget: "list_all (\<lambda>b. wf_value b) (case budget of None \<Rightarrow> [] | Some b \<Rightarrow> [b]) \<Longrightarrow> wf_value (mergeBudget budget)"
proof -
  have d: "wf_value (VObj defaultBudget)"
    by (simp add: defaultBudget_def int64_range_def)
  have s: "wf_value (VObj (foldl (\<lambda>out ov. kv_set out (fst ov) (snd ov)) out kvs))"
    if "wf_value (VObj out)" "\<forall>kv\<in>set kvs. valid_utf8 (fst kv) \<and> wf_value (snd kv)" for out kvs
    using that
  proof (induction kvs arbitrary: out)
    case (Cons kv kvs)
    have "wf_value (set_field (VObj out) (fst kv) (snd kv))" by (rule wf_set_field) (use Cons.prems in simp_all)
    then show ?case using Cons by (simp add: set_field_def SetOrAppend_def)
  qed simp
  assume b: "list_all (\<lambda>b. wf_value b) (case budget of None \<Rightarrow> [] | Some b \<Rightarrow> [b])"
  show ?thesis
  proof (cases budget)
    case (Some bv)
    have "\<forall>kv\<in>set (vO bv). valid_utf8 (fst kv) \<and> wf_value (snd kv)"
      using b Some by (cases bv) (auto simp: list_all_iff)
    from s [OF d this] show ?thesis by (simp add: mergeBudget_def Some)
  qed (use d in \<open>simp add: mergeBudget_def\<close>)
qed

lemma ObjAt_initial [simp]:
  "ObjAt (initial_state ev program budget c u) ''events'' = VArr []"
  "ObjAt (initial_state ev program budget c u) ''phase'' = VStr ''SCOPE''"
  "ObjAt (initial_state ev program budget c u) ''budget'' = mergeBudget budget"
  "ObjAt (initial_state ev program budget c u) ''campaign_id'' = VStr (CampaignID ev)"
  by (simp_all add: initial_state_def ObjAt_def)

definition budget_ok :: "value option \<Rightarrow> bool" where
  "budget_ok budget \<longleftrightarrow> (case budget of None \<Rightarrow> True | Some b \<Rightarrow> wf_value b)"

lemma wf_initial:
  assumes "env_ok ev" "valid_utf8 program" "budget_ok budget" "valid_utf8 c" "valid_utf8 u"
  shows "wf_value (initial_state ev program budget c u)"
  using assms wf_mergeBudget [of budget]
  by (simp add: initial_state_def env_ok_def budget_ok_def split: option.splits)

definition blank :: "world \<Rightarrow> bool" where
  "blank w \<longleftrightarrow> undisturbed w \<and> files w = []"

lemma of_files_blank: "of_files blank"
  by (auto simp: of_files_def blank_def)

lemma v_write_initial:
  assumes wf: "wf_value st" and e: "ObjAt st ''events'' = VArr []"
  shows "valid blank (WriteJson ev StatePath st StateSchema) (\<lambda>_. settled ev st []) (\<lambda>_. True)"
proof (rule validI [OF grows.resp_WriteState])
  fix w r w' assume b: "blank w" and run: "WriteJson ev StatePath st StateSchema w = (r, w')"
  show "case r of Inr _ \<Rightarrow> settled ev st [] w' | Inl _ \<Rightarrow> True"
  proof (cases r)
    case (Inr u)
    have f: "files w = []" "faults w = []" "undisturbed w" using b by (simp_all add: blank_def undisturbed_def)
    have v: "validates ev StateSchema st" "w' = put_file StatePath (DumpIndented st @ NL) w"
      using run Inr f by (auto simp: WriteJson_Inr next_fault_def undisturbed_def world_simps spend_def put_file_def)
    have fs: "files w' = [(StatePath, File True (DumpIndented st @ NL))]" by (simp add: v put_file_def f)
    have sv: "saved w' st" by (simp add: saved_def fs)
    have o: "kv_find (files w') EventsPath = None" "kv_find (files w') WaiversPath = None" by (simp_all add: fs)
    have "waivers_ok w' []"
      by (simp add: waivers_ok_def readWaiverRowsR12_def ReadFile_def o waiver_problems_def waived_row_keys_def waived_event_keys_def)
    moreover have "undisturbed w'" using f by (simp add: v undisturbed_def put_file_def)
    ultimately have "settled ev st [] w'"
      using sv State_saved [OF sv wf v(1)] o e
      by (simp add: settled_def healthy_def accessible_def content_of_def clean_ledger_def terminated_def)
    with Inr show ?thesis by simp
  qed simp
qed

text \<open>A fresh campaign: settled, in phase SCOPE, with its creation as the only event.\<close>

definition created :: "env \<Rightarrow> string \<Rightarrow> value option \<Rightarrow> world \<Rightarrow> bool" where
  "created ev program budget w \<longleftrightarrow> (\<exists>st e. settled ev st [e] w \<and> ObjAt e ''type'' = VStr ''campaign.created'' \<and>
     ObjAt e ''ref'' = VStr (CampaignID ev) \<and> ObjAt e ''data'' = VObj [(''program'', VStr program)] \<and>
     ObjStr st ''phase'' = ''SCOPE'' \<and> ObjAt st ''budget'' = mergeBudget budget)"

lemma v_init_body:
  assumes ev: "env_ok ev" and p: "valid_utf8 program" and b: "budget_ok budget"
  shows "valid blank (init_body ev program budget) (\<lambda>_. created ev program budget) (\<lambda>_. True)"
  unfolding init_body_def
proof (rule v_with_now [OF _ of_files_blank v_with_now [OF _ of_files_blank]])
  let ?d = "VObj [(''program'', VStr program)]"
  fix t1 t2 assume t: "t1 \<in> range (now ev)" "t2 \<in> range (now ev)"
  let ?st = "initial_state ev program budget t1 t2"
  have tt: "valid_utf8 t1" "valid_utf8 t2" using t ev by (auto simp: env_ok_def clock_ok_def)
  have a: "args_ok ''campaign.created'' (Some (CampaignID ev)) (Some ?d)" using ev p by (simp add: args_ok_def env_ok_def)
  have q: "created ev program budget w"
    if "appended ev st' [] True ''campaign.created'' (Some (CampaignID ev)) ?d w" "same_fields ?st st'" for st' w
  proof -
    have "ObjStr st' ''phase'' = ''SCOPE''" "ObjAt st' ''budget'' = mergeBudget budget"
      using same_fieldsD [OF that(2), of "''phase''"] same_fieldsD [OF that(2), of "''budget''"] by (simp_all add: ObjStr_def)
    moreover note ap = that(1)
    moreover obtain e where "settled ev st' [e] w" "ObjAt e ''type'' = VStr ''campaign.created''"
        "ObjAt e ''ref'' = VStr (CampaignID ev)" "ObjAt e ''data'' = VObj [(''program'', VStr program)]"
      using ap by (auto simp: appended_def ref_value_def)
    ultimately show ?thesis unfolding created_def by blast
  qed
  have lg: "valid (settled ev ?st []) (bindE (Log ev ''campaign.created'' (Some (CampaignID ev)) (Some ?d)) (\<lambda>_. ret ()))
      (\<lambda>_. created ev program budget) (\<lambda>_. True)"
  proof (rule v_bind)
    show "valid (settled ev ?st []) (Log ev ''campaign.created'' (Some (CampaignID ev)) (Some ?d))
        (\<lambda>_. created ev program budget) (\<lambda>_. True)"
      by (rule v_weaken [OF v_Log [OF ev a]]) (use q in \<open>auto simp: settled_def data_value_def\<close>)
  qed (simp add: v_ret)
  show "valid blank (bindE (WriteJson ev StatePath ?st StateSchema)
      (\<lambda>_. bindE (Log ev ''campaign.created'' (Some (CampaignID ev)) (Some ?d)) (\<lambda>_. ret ())))
      (\<lambda>_. created ev program budget) (\<lambda>_. True)"
    by (rule v_bind [OF v_write_initial [OF wf_initial [OF ev p b tt]] lg]) simp
qed (intro grows.resp_basic grows.resp_WriteState grows.resp_Log)+

section \<open>What a refused \<open>Init\<close> leaves\<close>

lemma Init_run:
  assumes "campaignIDRe (CampaignID ev)" "kv_find (files w) StatePath = None" "faults w = []"
  shows "Init ev program budget w = (case init_body ev program budget w of
      (Inl e, w2) \<Rightarrow> (Inl e, remove_all w2) | (Inr _, w2) \<Rightarrow> (Inr (), w2))"
  using assms make_dirs_calm [of w False campaign_dirs]
  by (simp add: Init_def newCampaign_def bindE_def campaign_dirs_def split: prod.splits sum.splits)

lemma calm_init_body: "keeps_to calm (init_body ev program budget)"
  unfolding init_body_def by (intro calm.resp_basic calm.resp_WriteState calm.resp_Log)

lemma remove_all_calm: "faults w = [] \<Longrightarrow> files (remove_all w) = []"
  by (simp add: remove_all_def next_fault_def)

lemma Init_failed_removes:
  assumes "campaignIDRe (CampaignID ev)" "kv_find (files w) StatePath = None" "undisturbed w"
    and "Init ev program budget w = (Inl e, w')"
  shows "files w' = []"
proof -
  obtain r w2 where b: "init_body ev program budget w = (r, w2)" by (cases "init_body ev program budget w")
  have f: "faults w = []" using assms(3) by (simp add: undisturbed_def)
  have "undisturbed w2" using calm_run [OF calm_init_body b assms(3)] .
  then have "files (remove_all w2) = []" by (simp add: remove_all_calm undisturbed_def)
  then show ?thesis using assms(4) unfolding Init_run [OF assms(1,2) f] b by (auto split: sum.splits)
qed

text \<open>A torn ledger left in the directory refuses the creation event, whatever the schema says.\<close>

lemma Init_torn_refused:
  assumes "campaignIDRe (CampaignID ev)" "kv_find (files w) StatePath = None" "undisturbed w"
    and "kv_find (files w) EventsPath = Some (File True raw)" "\<not> terminated raw"
  shows "\<exists>e. fst (Init ev program budget w) = Inl e"
proof -
  have "\<exists>e. fst (init_body ev program budget w) = Inl e"
  proof (cases "fst (init_body ev program budget w)")
    case (Inr u)
    then obtain w2 where b: "init_body ev program budget w = (Inr u, w2)" by (metis prod.collapse)
    then obtain st w1 wa e wb where wr: "WriteJson ev StatePath st StateSchema w1 = (Inr (), wa)" "files w1 = files w"
      and lg: "Log ev ''campaign.created'' (Some (CampaignID ev)) (Some (VObj [(''program'', VStr program)])) wa = (Inr e, wb)"
      by (auto simp: init_body_def bindE_Inr world_simps)
    have "kv_find (files wa) EventsPath = Some (File True raw)"
      using wr assms(4) by (auto simp: WriteJson_Inr world_simps)
    then have "unwritable ev wa" using assms(5) by (simp add: unwritable_def Let_def content_of_def)
    from Log_refuses [OF this lg] show ?thesis by simp
  qed auto
  then show ?thesis
    using Init_run [OF assms(1,2)] assms(3) by (auto simp: undisturbed_def split: prod.splits sum.splits)
qed

end
