(* ===== verification/Snapshots.thy ===== *)
theory Snapshots
  imports PhaseFacts Names
begin

text \<open>
  Snapshot pins (\<^verbatim>\<open>internal/state/campaign_snapshot.go\<close>) and recon stamps
  (\<^verbatim>\<open>internal/state/campaign_recon.go\<close>). A pin is a row of the state and an event of the ledger; whether
  the event is still due is decided by the ledger, so pinning again heals a missing event.
\<close>

section \<open>Pins\<close>

record pinSnapCtx =
  ps_snap :: "value"
  ps_sid :: string
  ps_st :: "value"
  ps_existing :: bool
  ps_prev :: "string option"

definition registerRow :: "env \<Rightarrow> pinSnapCtx \<Rightarrow> pinSnapCtx op" where
  "registerRow ev p =
     (let rows = ObjAt (ps_st p) ''snapshots'';
          existing = list_ex (\<lambda>r. ObjStr r ''snapshot_id'' = ps_sid p) (vA rows);
          pass = (if HasObjKey (ps_snap p) ''pass'' then ObjAt (ps_snap p) ''pass''
                  else ObjAt (ObjAt (ps_st p) ''budget'') ''pass'');
          pinned = (if HasObjKey (ps_snap p) ''pinned'' then ObjAt (ps_snap p) ''pinned'' else VBool True)
      in if existing then ret (p\<lparr>ps_existing := True\<rparr>)
         else bindE (nowIso ev) (\<lambda>t.
           let row = VObj [(''snapshot_id'', VStr (ps_sid p)), (''pass'', pass), (''pinned'', pinned), (''registered_at'', VStr t)]
           in ret (p\<lparr>ps_existing := False, ps_st := set_field (ps_st p) ''snapshots'' (setA rows (vA rows @ [row]))\<rparr>)))"

definition capturePrev :: "pinSnapCtx \<Rightarrow> pinSnapCtx op" where
  "capturePrev p = bindE rawState (\<lambda>prev. ret (p\<lparr>ps_prev := prev\<rparr>))"

definition saveActive :: "env \<Rightarrow> pinSnapCtx \<Rightarrow> unit op" where
  "saveActive ev p = SaveState ev (set_field (ps_st p) ''active_snapshot_id'' (VStr (ps_sid p)))"

text \<open>The refusal both remaining steps share: unwind, and name both failures when that fails too.\<close>

definition not_kept :: "env \<Rightarrow> pinSnapCtx \<Rightarrow> error \<Rightarrow> 'a op" where
  "not_kept ev p e = catchE (unwindState ev (ps_prev p)) (\<lambda>u. case u of
       Inl ue \<Rightarrow> fail (EUnwindFailed e ue)
     | Inr _ \<Rightarrow> fail (ENotKept (ps_sid p) e))"

definition is_pin :: "string \<Rightarrow> value \<Rightarrow> bool" where
  "is_pin sid e \<longleftrightarrow> ObjStr e ''type'' = ''snapshot.pinned'' \<and> ObjStr e ''ref'' = sid"

definition eventLogged :: "env \<Rightarrow> pinSnapCtx \<Rightarrow> bool op" where
  "eventLogged ev p = catchE Events (\<lambda>r. case r of
       Inl e \<Rightarrow> if is_not_exist e then ret False else not_kept ev p e
     | Inr evts \<Rightarrow> ret (list_ex (is_pin (ps_sid p)) evts))"

definition pin_data :: "env \<Rightarrow> pinSnapCtx \<Rightarrow> value" where
  "pin_data ev p =
     (let d = VObj [(''ladder'', ObjAt (ObjAt (ps_snap p) ''source'') ''ladder''), (''framework_build'', VStr (build ev))]
      in if ps_existing p then set_field d ''reconciled'' (VBool True) else d)"

definition emitEvent :: "env \<Rightarrow> pinSnapCtx \<Rightarrow> unit op" where
  "emitEvent ev p = catchE (Log ev ''snapshot.pinned'' (Some (ps_sid p)) (Some (pin_data ev p))) (\<lambda>r. case r of
       Inl e \<Rightarrow> not_kept ev p e
     | Inr _ \<Rightarrow> ret ())"

definition PinSnapshot :: "env \<Rightarrow> value \<Rightarrow> string op" where
  "PinSnapshot ev snap = with_lock
     (bindE (Validate ev snap ''snapshot'') (\<lambda>_.
      bindE (State ev) (\<lambda>st.
      bindE (registerRow ev \<lparr>ps_snap = snap, ps_sid = ObjStr snap ''snapshot_id'', ps_st = st,
                             ps_existing = False, ps_prev = None\<rparr>) (\<lambda>p1.
      bindE (capturePrev p1) (\<lambda>p.
      bindE (saveActive ev p) (\<lambda>_.
      bindE (eventLogged ev p) (\<lambda>logged.
      bindE (if \<not> logged then emitEvent ev p else ret ()) (\<lambda>_.
        ret (ps_sid p)))))))))"

section \<open>Readers\<close>

definition first_row :: "string \<Rightarrow> value list \<Rightarrow> value" where
  "first_row sid rows = (case filter (\<lambda>r. ObjStr r ''snapshot_id'' = sid) rows of [] \<Rightarrow> VNull | r # _ \<Rightarrow> r)"

definition ActiveSnapshot :: "env \<Rightarrow> value op" where
  "ActiveSnapshot ev = bindE (State ev) (\<lambda>st.
     let sid = ObjAt st ''active_snapshot_id''
     in ret (if vkind sid \<noteq> KStr \<or> vS sid = [] then VNull else first_row (vS sid) (vA (ObjAt st ''snapshots''))))"

definition ActiveSnapshotIDOrNone :: "env \<Rightarrow> string option op" where
  "ActiveSnapshotIDOrNone ev = bindE (State ev) (\<lambda>st.
     let sid = ObjAt st ''active_snapshot_id''
     in ret (if vkind sid \<noteq> KStr \<or> vS sid = [] then None else Some (vS sid)))"

text \<open>\<open>ok = false\<close> is \<open>None\<close>; every read failure is folded into it.\<close>

definition ActiveSnapshotContentHash :: "env \<Rightarrow> string option op" where
  "ActiveSnapshotContentHash ev = catchE (ActiveSnapshotIDOrNone ev) (\<lambda>r. case r of
       Inr (Some sid) \<Rightarrow> catchE (ReadJson (JoinPath [''snapshots'', sid, ''snapshot.json''])) (\<lambda>m. case m of
           Inl _ \<Rightarrow> ret None
         | Inr meta \<Rightarrow> (let h = ObjAt (ObjAt meta ''source'') ''content_hash''
                        in ret (if vkind h = KStr \<and> vS h \<noteq> [] then Some (vS h) else None)))
     | _ \<Rightarrow> ret None)"

section \<open>Recon stamps\<close>

definition StampRecon :: "env \<Rightarrow> string \<Rightarrow> string \<Rightarrow> unit op" where
  "StampRecon ev verb src = with_lock
     (bindE (State ev) (\<lambda>st.
        let recon0 = ObjAt st ''recon'';
            recon = (if vkind recon0 \<noteq> KObj then VObj [] else recon0)
        in bindE (nowIso ev) (\<lambda>t.
             SaveState ev (set_field st ''recon'' (set_field recon verb
               (VObj [(''campaign_id'', VStr (CampaignID ev)), (''src'', VStr src), (''at'', VStr t)]))))))"

definition ReconStamp :: "env \<Rightarrow> string \<Rightarrow> value op" where
  "ReconStamp ev verb = bindE (State ev) (\<lambda>st.
     let recon = ObjAt st ''recon''
     in ret (if vkind recon \<noteq> KObj then VNull else ObjAt recon verb))"

section \<open>Reading the ledger of a healthy campaign\<close>

lemma Events_clean:
  assumes "clean_ledger (content_of EventsPath w) es" "accessible w EventsPath"
  shows "Events w = (Inr es, w)"
proof -
  have "logLines w = (Inr (records_of (content_of EventsPath w)), w)"
  proof (cases rule: ReadFile_cases [of EventsPath w])
    case absent
    then show ?thesis by (simp add: logLines_def catchE_def content_of_def records_of_def blankLine_def BlankLine_def)
  next
    case (denied c)
    with assms(2) show ?thesis by (simp add: accessible_def)
  next
    case (read c)
    then show ?thesis by (simp add: logLines_def catchE_def content_of_def)
  qed
  then show ?thesis using assms(1) by (simp add: Events_def bindE_def clean_ledger_def parse_all_good)
qed

lemma grows_logLines: "keeps_to ledger_grows Events"
  unfolding Events_def by (intro grows.resp_bind grows.resp_logLines grows.resp_pure) simp

lemma v_Events: "valid (healthy ev st es) Events (\<lambda>x w. x = es \<and> healthy ev st es w) E"
proof (rule validI [OF grows_logLines])
  fix w r w' assume h: "healthy ev st es w" and run: "Events w = (r, w')"
  have "Events w = (Inr es, w)" by (rule Events_clean) (use h in \<open>simp_all add: healthy_def\<close>)
  with run have "r = Inr es" "w' = w" by simp_all
  with h show "case r of Inr x \<Rightarrow> x = es \<and> healthy ev st es w' | Inl _ \<Rightarrow> E w'" by simp
qed

section \<open>The triple of \<open>PinSnapshot\<close>\<close>

lemma grows_not_kept: "keeps_to ledger_grows (not_kept ev p e)"
  unfolding not_kept_def by (intro grows.resp_catch grows.resp_unwindState) (simp add: grows.resp_fail split: sum.split)

lemma bindE_ret: "bindE (ret x) k = k x"
  by (rule ext) (simp add: bindE_def)

lemma v_False: "keeps_to ledger_grows m \<Longrightarrow> valid (\<lambda>w. False) m Q E"
  by (rule validI) simp_all

lemma v_not_kept:
  assumes "env_ok ev" "wf_value st" "validates ev StateSchema st" "ObjAt st1 ''events'' = ObjAt st ''events''"
    and "ps_prev p = Some (DumpIndented st @ NL)"
  shows "valid (may_lag ev st1 es) (not_kept ev p e) Q (may_lag ev st es)"
  unfolding not_kept_def assms(5)
  by (rule v_catch [OF v_unwind_lag [OF assms(1-4)]]) (simp_all add: v_fail)

text \<open>What a pin makes of the projection: the id is active, and its row is there, appended if it was new.\<close>

definition pin_row :: "value \<Rightarrow> value \<Rightarrow> string \<Rightarrow> value" where
  "pin_row st snap t = VObj [(''snapshot_id'', VStr (ObjStr snap ''snapshot_id'')),
     (''pass'', if HasObjKey snap ''pass'' then ObjAt snap ''pass'' else ObjAt (ObjAt st ''budget'') ''pass''),
     (''pinned'', if HasObjKey snap ''pinned'' then ObjAt snap ''pinned'' else VBool True), (''registered_at'', VStr t)]"

definition registered :: "value \<Rightarrow> string \<Rightarrow> bool" where
  "registered st sid \<longleftrightarrow> list_ex (\<lambda>r. ObjStr r ''snapshot_id'' = sid) (vA (ObjAt st ''snapshots''))"

definition with_row :: "value \<Rightarrow> value \<Rightarrow> string \<Rightarrow> value" where
  "with_row st snap t = (if registered st (ObjStr snap ''snapshot_id'') then st
     else set_field st ''snapshots'' (setA (ObjAt st ''snapshots'') (vA (ObjAt st ''snapshots'') @ [pin_row st snap t])))"

definition pin_state :: "value \<Rightarrow> value \<Rightarrow> string \<Rightarrow> value" where
  "pin_state st snap t = set_field (with_row st snap t) ''active_snapshot_id'' (VStr (ObjStr snap ''snapshot_id''))"

definition pin_event :: "env \<Rightarrow> value \<Rightarrow> value \<Rightarrow> value" where
  "pin_event ev st snap =
     (let d = VObj [(''ladder'', ObjAt (ObjAt snap ''source'') ''ladder''), (''framework_build'', VStr (build ev))]
      in if registered st (ObjStr snap ''snapshot_id'') then set_field d ''reconciled'' (VBool True) else d)"

definition pin_post :: "env \<Rightarrow> value \<Rightarrow> value list \<Rightarrow> value \<Rightarrow> world \<Rightarrow> bool" where
  "pin_post ev st es snap w \<longleftrightarrow> (let sid = ObjStr snap ''snapshot_id'' in
     \<exists>t st'. same_fields (pin_state st snap t) st' \<and>
       (if list_ex (is_pin sid) es then healthy ev st' es w \<and> ObjAt st' ''events'' = ObjAt st ''events''
        else appended ev st' es (window_ok es (vA (ObjAt st ''events''))) ''snapshot.pinned'' (Some sid) (pin_event ev st snap) w))"

lemma of_files_pin_post: "of_files (pin_post ev st es snap)"
proof -
  let ?sid = "ObjStr snap ''snapshot_id''"
  have "of_files (\<lambda>w. \<exists>t st'. same_fields (pin_state st snap t) st' \<and>
       (if list_ex (is_pin ?sid) es then healthy ev st' es w \<and> ObjAt st' ''events'' = ObjAt st ''events''
        else appended ev st' es (window_ok es (vA (ObjAt st ''events''))) ''snapshot.pinned'' (Some ?sid) (pin_event ev st snap) w))"
    by (cases "list_ex (is_pin ?sid) es") (simp_all add: of_files_rules of_files_appended)
  then show ?thesis by (simp add: pin_post_def [abs_def] Let_def)
qed

lemma wf_pin_event: "env_ok ev \<Longrightarrow> valid_utf8 (build ev) \<Longrightarrow> wf_value snap \<Longrightarrow> wf_value (pin_event ev st snap)"
  by (auto simp: pin_event_def Let_def set_field_def SetOrAppend_def intro: wf_ObjAt)

lemma with_row_facts:
  assumes "wf_value st" "wf_value snap" "valid_utf8 t"
  shows "wf_value (with_row st snap t)" "ObjAt (with_row st snap t) ''events'' = ObjAt st ''events''"
  using assms by (simp_all add: with_row_def pin_row_def wf_edits)

lemma v_pin_rest:
  assumes ev: "env_ok ev" "valid_utf8 (build ev)" and wf: "wf_value snap" "wf_value st" "validates ev StateSchema st" "valid_utf8 t"
    and p: "ps_snap p = snap" "ps_sid p = ObjStr snap ''snapshot_id''" "ps_st p = with_row st snap t"
      "ps_existing p = registered st (ObjStr snap ''snapshot_id'')"
  shows "valid (healthy ev st es)
     (bindE (capturePrev p) (\<lambda>p. bindE (saveActive ev p) (\<lambda>_. bindE (eventLogged ev p) (\<lambda>logged.
        bindE (if \<not> logged then emitEvent ev p else ret ()) (\<lambda>_. ret (ps_sid p))))))
     (\<lambda>sid w. sid = ObjStr snap ''snapshot_id'' \<and> pin_post ev st es snap w) (may_lag ev st es)"
proof (rule v_bind)
  let ?sid = "ObjStr snap ''snapshot_id''"
  let ?p = "p\<lparr>ps_prev := Some (DumpIndented st @ NL)\<rparr>"
  let ?st2 = "pin_state st snap t"
  have e2: "ObjAt ?st2 ''events'' = ObjAt st ''events''" using with_row_facts(2) [OF wf(2,1,4)] by (simp add: pin_state_def)
  have w2: "wf_value ?st2" unfolding pin_state_def using with_row_facts(1) [OF wf(2,1,4)] wf by (simp add: wf_edits)
  show "valid (healthy ev st es) (capturePrev p) (\<lambda>x w. x = ?p \<and> healthy ev st es w) (may_lag ev st es)"
    unfolding capturePrev_def by (rule v_bind [OF v_rawState]) (auto intro: v_ret)
  let ?rest = "\<lambda>p. bindE (saveActive ev p) (\<lambda>_. bindE (eventLogged ev p) (\<lambda>logged.
        bindE (if \<not> logged then emitEvent ev p else ret ()) (\<lambda>_. ret (ps_sid p))))"
  have g: "keeps_to ledger_grows (eventLogged ev p)" "keeps_to ledger_grows (emitEvent ev p)" for p
    unfolding eventLogged_def emitEvent_def
    by (intro grows.resp_catch grows_logLines grows.resp_Log, simp add: grows_not_kept grows.resp_ret split: sum.split)+
  have log: "valid (healthy ev st1 es) (emitEvent ev ?p) (\<lambda>_ w. \<exists>st'. same_fields st1 st' \<and>
        appended ev st' es (window_ok es (vA (ObjAt st ''events''))) ''snapshot.pinned'' (Some ?sid) (pin_event ev st snap) w) (may_lag ev st es)"
    if e: "ObjAt st1 ''events'' = ObjAt st ''events''" for st1
    unfolding emitEvent_def
  proof (rule v_catch)
    have d: "pin_data ev ?p = pin_event ev st snap" by (simp add: pin_data_def pin_event_def p)
    have a: "args_ok ''snapshot.pinned'' (Some ?sid) (Some (pin_event ev st snap))"
      using wf_pin_event [OF ev wf(1)] wf_ObjStr [OF wf(1)] by (simp add: args_ok_def)
    show "valid (healthy ev st1 es) (Log ev ''snapshot.pinned'' (Some (ps_sid ?p)) (Some (pin_data ev ?p)))
       (\<lambda>_ w. \<exists>st'. same_fields st1 st' \<and>
        appended ev st' es (window_ok es (vA (ObjAt st ''events''))) ''snapshot.pinned'' (Some ?sid) (pin_event ev st snap) w) (may_lag ev st1 es)"
      unfolding d using v_Log [OF ev(1) a, of st1 es] by (simp add: p e data_value_def may_lag_def [abs_def])
  qed (simp_all add: v_ret v_not_kept [OF ev(1) wf(2,3) e])
  have body: "valid (healthy ev st es) (?rest ?p) (\<lambda>sid w. sid = ?sid \<and> pin_post ev st es snap w) (may_lag ev st es)"
  proof (rule v_bind)
    show "valid (healthy ev st es) (saveActive ev ?p)
        (\<lambda>_ w. \<exists>st1. healthy ev st1 es w \<and> same_fields ?st2 st1 \<and> ObjAt st1 ''events'' = ObjAt st ''events'') (may_lag ev st es)"
      using v_weaken [OF v_SaveState [OF ev(1) w2 e2]] by (simp add: saveActive_def p pin_state_def may_lag_def)
    show "valid (\<lambda>w. \<exists>st1. healthy ev st1 es w \<and> same_fields ?st2 st1 \<and> ObjAt st1 ''events'' = ObjAt st ''events'')
        (bindE (eventLogged ev ?p) (\<lambda>logged. bindE (if \<not> logged then emitEvent ev ?p else ret ()) (\<lambda>_. ret (ps_sid ?p))))
        (\<lambda>sid w. sid = ?sid \<and> pin_post ev st es snap w) (may_lag ev st es)" for u
    proof (rule v_exE)
      fix st1
      let ?tail = "\<lambda>logged. bindE (if \<not> logged then emitEvent ev ?p else ret ()) (\<lambda>_. ret (ps_sid ?p))"
      have gt: "keeps_to ledger_grows (?tail l)" for l
        by (cases l) (simp_all add: grows.resp_bind grows.resp_ret g)
      show "valid (\<lambda>w. healthy ev st1 es w \<and> same_fields ?st2 st1 \<and> ObjAt st1 ''events'' = ObjAt st ''events'')
          (bindE (eventLogged ev ?p) ?tail) (\<lambda>sid w. sid = ?sid \<and> pin_post ev st es snap w) (may_lag ev st es)"
      proof (rule v_pure [of _ "same_fields ?st2 st1 \<and> ObjAt st1 ''events'' = ObjAt st ''events''"])
        show "keeps_to ledger_grows (bindE (eventLogged ev ?p) ?tail)" by (intro grows.resp_bind g gt)
        assume s: "same_fields ?st2 st1 \<and> ObjAt st1 ''events'' = ObjAt st ''events''"
        have ask: "valid (healthy ev st1 es) (eventLogged ev ?p)
            (\<lambda>l w. l = list_ex (is_pin ?sid) es \<and> healthy ev st1 es w) (may_lag ev st es)"
          unfolding eventLogged_def
          by (rule v_catch [OF v_Events [of _ _ _ "\<lambda>_. False"]]) (auto simp: p grows_not_kept grows.resp_ret intro!: v_ret v_False)
        have "valid (healthy ev st1 es) (bindE (eventLogged ev ?p) ?tail)
            (\<lambda>sid w. sid = ?sid \<and> pin_post ev st es snap w) (may_lag ev st es)"
        proof (rule v_bind [OF ask])
          fix l
          show "valid (\<lambda>w. l = list_ex (is_pin ?sid) es \<and> healthy ev st1 es w) (?tail l)
              (\<lambda>sid w. sid = ?sid \<and> pin_post ev st es snap w) (may_lag ev st es)"
          proof (cases l)
            case True
            then have q: "?tail l = ret ?sid" by (simp add: bindE_ret p del: ret_apply)
            show ?thesis unfolding q by (rule v_ret) (use s True in \<open>auto simp: pin_post_def Let_def\<close>)
          next
            case False
            show ?thesis
            proof (rule v_pure [of _ "\<not> list_ex (is_pin ?sid) es", OF _ gt])
              assume n: "\<not> list_ex (is_pin ?sid) es"
              have "valid (healthy ev st1 es) (?tail l) (\<lambda>sid w. sid = ?sid \<and> pin_post ev st es snap w) (may_lag ev st es)"
                using False s n same_fields_trans [of ?st2 st1]
                by simp (rule v_bind [OF log], simp, rule v_ret, auto simp: p pin_post_def Let_def)
              then show "valid (\<lambda>w. l = list_ex (is_pin ?sid) es \<and> healthy ev st1 es w) (?tail l)
                  (\<lambda>sid w. sid = ?sid \<and> pin_post ev st es snap w) (may_lag ev st es)"
                by (rule v_weaken) simp_all
            qed (use False in simp)
          qed
        qed
        then show "valid (\<lambda>w. healthy ev st1 es w \<and> same_fields ?st2 st1 \<and> ObjAt st1 ''events'' = ObjAt st ''events'')
            (bindE (eventLogged ev ?p) ?tail) (\<lambda>sid w. sid = ?sid \<and> pin_post ev st es snap w) (may_lag ev st es)"
          by (rule v_weaken) simp_all
      qed simp
    qed
  qed
  show "valid (\<lambda>w. x = ?p \<and> healthy ev st es w) (?rest x) (\<lambda>sid w. sid = ?sid \<and> pin_post ev st es snap w) (may_lag ev st es)" for x
  proof (rule v_pure [of _ "x = ?p"])
    show "keeps_to ledger_grows (?rest x)"
      unfolding saveActive_def by (intro grows.resp_bind grows.resp_if grows.resp_ret grows.resp_SaveState g)
    assume x: "x = ?p"
    show "valid (\<lambda>w. x = ?p \<and> healthy ev st es w) (?rest x) (\<lambda>sid w. sid = ?sid \<and> pin_post ev st es snap w) (may_lag ev st es)"
      unfolding x by (rule v_weaken [OF body]) simp_all
  qed simp
qed

text \<open>A pin on a healthy campaign.\<close>

lemma grows_pin_rest:
  "keeps_to ledger_grows (bindE (capturePrev p) (\<lambda>p. bindE (saveActive ev p) (\<lambda>_. bindE (eventLogged ev p) (\<lambda>logged.
        bindE (if \<not> logged then emitEvent ev p else ret ()) (\<lambda>_. ret (ps_sid p))))))"
proof -
  have g: "keeps_to ledger_grows (eventLogged ev p)" "keeps_to ledger_grows (emitEvent ev p)" for p
    unfolding eventLogged_def emitEvent_def
    by (intro grows.resp_catch grows_logLines grows.resp_Log, simp add: grows_not_kept grows.resp_ret split: sum.split)+
  show ?thesis unfolding saveActive_def capturePrev_def
    by (intro grows.resp_bind grows.resp_if grows.resp_ret grows.resp_SaveState grows.resp_rawState g)
qed

lemma grows_registerRow: "keeps_to ledger_grows (registerRow ev p)"
  unfolding registerRow_def Let_def by (intro grows.resp_if grows.resp_bind grows.resp_ret grows.resp_nowIso)

lemma v_PinSnapshot:
  assumes ev: "env_ok ev" "valid_utf8 (build ev)" and wf: "wf_value snap"
  shows "valid (healthy ev st es) (PinSnapshot ev snap)
    (\<lambda>sid w. sid = ObjStr snap ''snapshot_id'' \<and> pin_post ev st es snap w) (may_lag ev st es)"
  unfolding PinSnapshot_def Validate_def
proof (rule v_lock [OF v_with_guard [OF _ v_with_state]])
  let ?sid = "ObjStr snap ''snapshot_id''"
  let ?p0 = "\<lparr>ps_snap = snap, ps_sid = ?sid, ps_st = st, ps_existing = False, ps_prev = None\<rparr>"
  let ?Q = "\<lambda>sid w. sid = ?sid \<and> pin_post ev st es snap w"
  let ?rest = "\<lambda>p. bindE (capturePrev p) (\<lambda>p. bindE (saveActive ev p) (\<lambda>_. bindE (eventLogged ev p) (\<lambda>logged.
        bindE (if \<not> logged then emitEvent ev p else ret ()) (\<lambda>_. ret (ps_sid p)))))"
  let ?P = "\<lambda>p. \<exists>t. valid_utf8 t \<and> ps_snap p = snap \<and> ps_sid p = ?sid \<and> ps_st p = with_row st snap t \<and> ps_existing p = registered st ?sid"
  show "valid (healthy ev st es) (bindE (registerRow ev ?p0) ?rest) ?Q (may_lag ev st es)"
  proof (rule v_pure [of _ "wf_value st \<and> validates ev StateSchema st"])
    show "wf_value st \<and> validates ev StateSchema st" if "healthy ev st es w" for w
      using healthy_facts [OF that ev(1)] by blast
    show "keeps_to ledger_grows (bindE (registerRow ev ?p0) ?rest)"
      by (intro grows.resp_bind [OF grows_registerRow] grows_pin_rest)
    assume st: "wf_value st \<and> validates ev StateSchema st"
    show "valid (healthy ev st es) (bindE (registerRow ev ?p0) ?rest) ?Q (may_lag ev st es)"
    proof (rule v_bind)
      show "valid (healthy ev st es) (registerRow ev ?p0) (\<lambda>p w. ?P p \<and> healthy ev st es w) (may_lag ev st es)"
      proof (cases "registered st ?sid")
        case True
        then have r: "registerRow ev ?p0 = ret (?p0\<lparr>ps_existing := True\<rparr>)"
          by (simp add: registerRow_def Let_def registered_def del: ret_apply)
        show ?thesis unfolding r by (rule v_ret) (use True in \<open>auto simp: with_row_def intro!: exI [of _ "[]"]\<close>)
      next
        case False
        then have r: "registerRow ev ?p0 = bindE (nowIso ev) (\<lambda>t. ret (?p0\<lparr>ps_existing := False, ps_st := with_row st snap t\<rparr>))"
          by (simp add: registerRow_def Let_def registered_def with_row_def pin_row_def del: ret_apply)
        show ?thesis unfolding r
        proof (rule v_with_now [OF _ of_files_healthy])
          fix t assume "t \<in> range (now ev)"
          then have "valid_utf8 t" using ev by (auto simp: env_ok_def clock_ok_def)
          with False show "valid (healthy ev st es) (ret (?p0\<lparr>ps_existing := False, ps_st := with_row st snap t\<rparr>))
              (\<lambda>p w. ?P p \<and> healthy ev st es w) (may_lag ev st es)"
            by (intro v_ret) auto
        qed (rule grows.resp_ret)
      qed
      show "valid (\<lambda>w. ?P p \<and> healthy ev st es w) (?rest p) ?Q (may_lag ev st es)" for p
      proof (rule v_pure [of _ "?P p", OF _ grows_pin_rest])
        assume "?P p"
        then obtain t where "valid_utf8 t" "ps_snap p = snap" "ps_sid p = ?sid" "ps_st p = with_row st snap t"
          "ps_existing p = registered st ?sid" by blast
        then have "valid (healthy ev st es) (?rest p) ?Q (may_lag ev st es)"
          using v_pin_rest [OF ev wf] st by blast
        then show "valid (\<lambda>w. ?P p \<and> healthy ev st es w) (?rest p) ?Q (may_lag ev st es)"
          by (rule v_weaken) simp_all
      qed simp
    qed
  qed
qed (intro grows.resp_bind grows.resp_State grows_registerRow grows_pin_rest of_files_healthy of_files_may_lag
     of_files_pin_post of_files_rules | simp add: may_lag_def)+

section \<open>Recon stamps on a healthy campaign\<close>

definition stamped_recon :: "env \<Rightarrow> value \<Rightarrow> string \<Rightarrow> string \<Rightarrow> string \<Rightarrow> value" where
  "stamped_recon ev st verb src t =
     set_field st ''recon'' (set_field (if vkind (ObjAt st ''recon'') \<noteq> KObj then VObj [] else ObjAt st ''recon'') verb
       (VObj [(''campaign_id'', VStr (CampaignID ev)), (''src'', VStr src), (''at'', VStr t)]))"

lemma v_StampRecon:
  assumes ev: "env_ok ev" and u: "valid_utf8 verb" "valid_utf8 src"
  shows "valid (healthy ev st es) (StampRecon ev verb src)
    (\<lambda>_ w. \<exists>t st'. healthy ev st' es w \<and> same_fields (stamped_recon ev st verb src t) st' \<and> ObjAt st' ''events'' = ObjAt st ''events'')
    (healthy ev st es)"
  unfolding StampRecon_def Let_def stamped_recon_def [symmetric]
proof (rule v_lock [OF v_with_state [OF _ v_healthy_facts [OF ev]]])
  assume wf: "wf_value st"
  let ?Q = "\<lambda>w. \<exists>t st'. healthy ev st' es w \<and> same_fields (stamped_recon ev st verb src t) st' \<and> ObjAt st' ''events'' = ObjAt st ''events''"
  show "valid (healthy ev st es) (bindE (nowIso ev) (\<lambda>t. SaveState ev (stamped_recon ev st verb src t))) (\<lambda>_. ?Q) (healthy ev st es)"
  proof (rule v_with_now [OF grows.resp_SaveState of_files_healthy])
    fix t assume "t \<in> range (now ev)"
    then have t: "valid_utf8 t" using ev by (auto simp: env_ok_def clock_ok_def)
    have o: "wf_value (if vkind (ObjAt st ''recon'') \<noteq> KObj then VObj [] else ObjAt st ''recon'')"
      using wf_ObjAt [OF wf] by simp
    have n: "wf_value (VObj [(''campaign_id'', VStr (CampaignID ev)), (''src'', VStr src), (''at'', VStr t)])"
      using ev t u by (simp add: env_ok_def)
    have w: "wf_value (stamped_recon ev st verb src t)"
      unfolding stamped_recon_def by (intro wf_set_field wf o n u) simp
    have e: "ObjAt (stamped_recon ev st verb src t) ''events'' = ObjAt st ''events''" by (simp add: stamped_recon_def)
    show "valid (healthy ev st es) (SaveState ev (stamped_recon ev st verb src t)) (\<lambda>_. ?Q) (healthy ev st es)"
      by (rule v_weaken [OF v_SaveState [OF ev w e]]) blast+
  qed
qed (intro grows.resp_bind grows.resp_nowIso grows.resp_SaveState of_files_rules | simp only: stamped_recon_def)+

end
