(* ===== verification/StateProperties.thy ===== *)
theory StateProperties
  imports PhaseProperties Notes RowLog Lifecycle Snapshots
begin

text \<open>
  The properties of the remaining campaign operations: creation and listing, snapshot pins, recon
  stamps, rows paired with an event, notes and identifiers.
\<close>

section \<open>Creation\<close>

text \<open>C33: \<open>Init\<close> in an empty directory, when it returns, leaves a campaign that verifies, in phase SCOPE, with
  the merged budget and \<open>campaign.created\<close> as its only event; when it fails it leaves no file behind.\<close>

theorem init_all_or_nothing:
  assumes "env_ok ev" "valid_utf8 program" "budget_ok budget" "blank w" "Init ev program budget w = (r, w')"
  shows "oversize w' \<or> (case r of Inr _ \<Rightarrow> created ev program budget w' | Inl _ \<Rightarrow> files w' = [])"
proof (cases "campaignIDRe (CampaignID ev)")
  case False
  then show ?thesis using assms(4,5) by (auto simp: Init_def newCampaign_def bindE_def blank_def)
next
  case True
  have w: "kv_find (files w) StatePath = None" "undisturbed w" "faults w = []"
    using assms(4) by (simp_all add: blank_def undisturbed_def)
  show ?thesis
  proof (cases r)
    case (Inl e)
    with Init_failed_removes [OF True w(1,2)] assms(5) show ?thesis by simp
  next
    case (Inr u)
    then have "init_body ev program budget w = (Inr (), w')"
      using assms(5) unfolding Init_run [OF True w(1,3)] by (auto split: prod.splits sum.splits)
    from valid_outcome [OF v_init_body [OF assms(1-3)] assms(4) this] Inr show ?thesis by simp
  qed
qed

definition ev_named :: env where
  "ev_named = ev0\<lparr>CampaignID := ''C-0123456789''\<rparr>"

lemma ev_named_ok [simp]: "env_ok ev_named" "campaignIDRe (CampaignID ev_named)"
proof -
  show "env_ok ev_named" using env_ok_ev0 by (auto simp: env_ok_def ev_named_def clock_ok_def schema_ok_def)
  show "campaignIDRe (CampaignID ev_named)" unfolding ev_named_def by code_simp
qed

definition w_empty :: world where
  "w_empty = \<lparr>files = [], ticks = 0, faults = [], plock = \<lparr>lk_open = False, lk_depth = 0\<rparr>, flocks = []\<rparr>"

lemma blank_empty [simp]: "blank w_empty"
  by (simp add: blank_def w_empty_def undisturbed_def)

theorem init_all_or_nothing_witness:
  "\<exists>r w'. Init ev_named ''vault'' None w_empty = (r, w') \<and>
     (oversize w' \<or> (case r of Inr _ \<Rightarrow> created ev_named ''vault'' None w' | Inl _ \<Rightarrow> files w' = []))"
proof -
  obtain r w' where run: "Init ev_named ''vault'' None w_empty = (r, w')" by (cases "Init ev_named ''vault'' None w_empty")
  show ?thesis using init_all_or_nothing [OF ev_named_ok(1) _ _ blank_empty run] run by (simp add: budget_ok_def)
qed

text \<open>C34: the clean-up of a refused \<open>Init\<close> removes the whole directory: over a directory that has lost its
  state file but still holds a ledger with a torn tail, and whatever else, \<open>Init\<close> fails and every
  file that was there before the call is gone.\<close>

theorem init_refusal_deletes_ledger:
  assumes "campaignIDRe (CampaignID ev)" "undisturbed w" "kv_find (files w) StatePath = None"
    and "kv_find (files w) EventsPath = Some (File True raw)" "\<not> terminated raw"
  shows "\<exists>e w'. Init ev program budget w = (Inl e, w') \<and> files w' = []"
proof -
  obtain e where "fst (Init ev program budget w) = Inl e" using Init_torn_refused [OF assms(1,3,2,4,5)] by blast
  then have run: "Init ev program budget w = (Inl e, snd (Init ev program budget w))" by (metis prod.collapse)
  with Init_failed_removes [OF assms(1,3,2) run] show ?thesis by blast
qed

theorem init_refusal_deletes_ledger_witness:
  "\<exists>e w'. Init ev_named ''vault'' None (w_empty\<lparr>files := [(EventsPath, File True ''x'')]\<rparr>) = (Inl e, w') \<and> files w' = []"
  by (rule init_refusal_deletes_ledger [of _ _ "''x''"]) (simp_all add: w_empty_def undisturbed_def terminated_def)

text \<open>The campaign list is the sorted names of the directories that hold a state file, and it is given
  only when every entry could be examined; an absent store is an empty list, an unreadable one a refusal.\<close>

theorem list_campaigns_spec:
  "(ListCampaigns l = Inr ns) \<longleftrightarrow> (l = NoDir \<and> ns = []) \<or>
     (\<exists>ds. l = Entries ds \<and> list_all (\<lambda>d. \<not> undecidable d) ds \<and> ns = sort (map de_name (filter is_campaign ds)))"
  by (cases l) (auto simp: ListCampaigns_Entries, simp_all add: ListCampaigns_def)

section \<open>Snapshot pins\<close>

text \<open>C35: a pin on a settled campaign, when it returns, has made the snapshot active with its row present, and
  the ledger holds its event: the one it held, or a new one that says \<open>reconciled\<close> when the row was
  there without it. When the pin fails, the state is the one it found.\<close>

theorem pin_recorded:
  assumes "env_ok ev" "valid_utf8 (build ev)" "wf_value snap" "settled ev st es w" "PinSnapshot ev snap w = (r, w')"
  shows "oversize w' \<or> (case r of
      Inr sid \<Rightarrow> sid = ObjStr snap ''snapshot_id'' \<and> (\<exists>t st'. same_fields (pin_state st snap t) st' \<and>
        (if list_ex (is_pin sid) es then settled ev st' es w'
         else recorded ev st' es ''snapshot.pinned'' (Some sid) (pin_event ev st snap) w'))
    | Inl _ \<Rightarrow> unchanged ev st es w')"
proof -
  have win: "window_ok es (vA (ObjAt st ''events''))" and h: "healthy ev st es w"
    using assms(4) by (simp_all add: settled_def)
  have "oversize w' \<or> (case r of Inr sid \<Rightarrow> sid = ObjStr snap ''snapshot_id'' \<and> pin_post ev st es snap w' | Inl _ \<Rightarrow> may_lag ev st es w')"
    by (rule valid_outcome [OF v_PinSnapshot [OF assms(1-3)] h assms(5)])
  note out = this
  have key: "\<exists>t st'. same_fields (pin_state st snap t) st' \<and>
        (if list_ex (is_pin (ObjStr snap ''snapshot_id'')) es then settled ev st' es w'
         else recorded ev st' es ''snapshot.pinned'' (Some (ObjStr snap ''snapshot_id'')) (pin_event ev st snap) w')"
    if post: "pin_post ev st es snap w'"
  proof -
    obtain t st' where s: "same_fields (pin_state st snap t) st'"
      and p: "if list_ex (is_pin (ObjStr snap ''snapshot_id'')) es then healthy ev st' es w' \<and> ObjAt st' ''events'' = ObjAt st ''events''
        else appended ev st' es (window_ok es (vA (ObjAt st ''events''))) ''snapshot.pinned''
          (Some (ObjStr snap ''snapshot_id'')) (pin_event ev st snap) w'"
      using post unfolding pin_post_def Let_def by blast
    from p win have "if list_ex (is_pin (ObjStr snap ''snapshot_id'')) es then settled ev st' es w'
        else recorded ev st' es ''snapshot.pinned'' (Some (ObjStr snap ''snapshot_id'')) (pin_event ev st snap) w'"
      using appended_recorded by (auto simp: settled_def split: if_splits)
    with s show ?thesis by blast
  qed
  show ?thesis
  proof (cases r)
    case (Inl e)
    from out [unfolded Inl sum.case] may_lag_unchanged show ?thesis unfolding Inl sum.case by blast
  next
    case (Inr sid)
    from out [unfolded Inr sum.case] key show ?thesis unfolding Inr sum.case by blast
  qed
qed

theorem pin_recorded_witness:
  "\<exists>r w'. PinSnapshot ev0 (VObj [(''snapshot_id'', VStr ''S-1''), (''events'', VArr [])]) w0 = (r, w') \<and> (oversize w' \<or> (case r of
      Inr sid \<Rightarrow> sid = ''S-1'' | Inl _ \<Rightarrow> unchanged ev0 (st_with []) [] w'))"
proof -
  let ?snap = "VObj [(''snapshot_id'', VStr ''S-1''), (''events'', VArr [])]"
  obtain r w' where run: "PinSnapshot ev0 ?snap w0 = (r, w')" by (cases "PinSnapshot ev0 ?snap w0")
  have "valid_utf8 (build ev0)" by (simp add: ev0_def)
  from pin_recorded [OF env_ok_ev0 this _ settled_w0 run] run show ?thesis
    by (auto simp: ObjStr_def ObjAt_def split: sum.splits)
qed

section \<open>Rows paired with an event\<close>

text \<open>C36: a cost row and its event land together whatever the disk does: success means the row is the last
  line of its file and the event was logged; failure means the file is as it was, present or absent,
  unless the error says that the unwind failed too.\<close>

theorem row_commit_atomic:
  assumes "AppendJsonlAsciiThenLog CostsPath line (Log ev ty ref data) w = (r, w')"
  shows "case r of
      Inr e \<Rightarrow> content_of CostsPath w' = content_of CostsPath w @ line @ NL \<and>
        (\<exists>w1 w2. Log ev ty ref data w1 = (Inr e, w2) \<and> files w' = files w2)
    | Inl e \<Rightarrow> (\<exists>e1 e2. e = EUnwindFailed e1 e2) \<or> file_same CostsPath w w'"
  by (rule cost_rows.atomic) (use assms in \<open>simp add: AppendJsonlAsciiThenLog_def\<close>)

theorem row_commit_atomic_witness:
  "\<exists>r w'. AppendJsonlAsciiThenLog CostsPath ''{}'' (Log ev0 ''note'' None None) w_ahead = (r, w') \<and> (case r of
      Inr e \<Rightarrow> content_of CostsPath w' = content_of CostsPath w_ahead @ ''{}'' @ NL
    | Inl e \<Rightarrow> (\<exists>e1 e2. e = EUnwindFailed e1 e2) \<or> file_same CostsPath w_ahead w')"
proof -
  obtain r w' where run: "AppendJsonlAsciiThenLog CostsPath ''{}'' (Log ev0 ''note'' None None) w_ahead = (r, w')"
    by (cases "AppendJsonlAsciiThenLog CostsPath ''{}'' (Log ev0 ''note'' None None) w_ahead")
  from row_commit_atomic [OF run] run show ?thesis by (auto split: sum.splits)
qed

section \<open>Notes and identifiers\<close>

text \<open>C40: A capped note is valid UTF-8 of at most 4096 code points, and capping it again changes nothing.\<close>

theorem note_capped:
  assumes "wf_value v"
  shows "RuneCount (capNote v) \<le> 4096 \<and> valid_utf8 (capNote v) \<and> capNote (VStr (capNote v)) = capNote v"
  using capNote_bounded [OF assms] capNote_fixed [OF assms] by (simp add: NOTE_CAP_def)

theorem note_capped_witness: "RuneCount (capNote (VArr [VInt 7, VNull])) \<le> 4096"
  by (rule conjunct1 [OF note_capped]) (simp add: int64_range_def)

text \<open>A longer note is cut at a code point, and the marker states exactly how many were dropped.\<close>

theorem note_cut_disclosed:
  assumes "vkind v \<noteq> KNull" "4096 < RuneCount (note_text v)" "RuneCount (note_text v) < 10 ^ 19"
  shows "\<exists>k<4096. capNote v = truncateRunes (note_text v) k @ truncationMarker (RuneCount (note_text v) - k)"
  using capNote_shape [of v] assms by (simp add: NOTE_CAP_def)

theorem note_cut_disclosed_witness:
  "\<exists>k<4096. capNote (VStr (replicate 5000 CHR ''x'')) =
     truncateRunes (replicate 5000 CHR ''x'') k @ truncationMarker (5000 - k)"
proof -
  have "RuneCount (replicate 5000 CHR ''x'') = 5000" by (simp add: RuneCount_ascii)
  then show ?thesis using note_cut_disclosed [of "VStr (replicate 5000 CHR ''x'')"] by (simp add: note_text_def)
qed

text \<open>A minted campaign id matches the pattern every campaign handle is checked against, and is one path
  component.\<close>

theorem new_id_accepted:
  assumes "length b = 16" "8 \<le> n" "n \<le> 16"
  shows "campaignIDRe (newId b ''C'' n) \<and> plain (newId b ''C'' n)"
  using newId_accepted [OF assms] campaignID_plain by blast

theorem new_id_accepted_witness: "campaignIDRe (newId (replicate 16 0) ''C'' 10)"
  using new_id_accepted [of "replicate 16 0" 10] by simp

end
