(* ===== verification/Levels.thy ===== *)
theory Levels
  imports EventLog
begin

text \<open>
  The evidence ladder and the status machine of \<^verbatim>\<open>internal/findings/levels.go\<close>: the tables, the
  floor of a status and a bug class, ladder positions, and the legal moves. A Go map is an
  association list, a set the list of its members. The second half is the abstract reading: a
  linearly ordered ladder, and what the table says about every path of moves.
\<close>

section \<open>Tables\<close>

definition EVIDENCE_ORDER :: "string list" where
  "EVIDENCE_ORDER = [''E0'', ''E1'', ''E2'', ''E3'', ''E4'', ''E5'', ''E6'', ''E7'']"

definition TERMINAL :: "string list" where
  "TERMINAL = [''DISPROVED'', ''OUT_OF_SCOPE'', ''INFORMATIONAL'', ''DUPLICATE'', ''SUPERSEDED'']"

definition STATUS_FLOOR :: "(string \<times> string) list" where
  "STATUS_FLOOR = [(''HYPOTHESIS'', ''E0''), (''NEEDS_RESEARCH'', ''E0''), (''PROVISIONALLY_VALID'', ''E1''),
     (''POSSIBLE'', ''E2''), (''CONFIRMED'', ''E5''), (''CHAIN'', ''E4'')]"

definition CLASS_CONFIRM_FLOOR :: "(string \<times> string) list" where
  "CLASS_CONFIRM_FLOOR =
     [(''access-control'', ''E4''), (''signature-replay'', ''E4''), (''upgrade-initializer'', ''E4''),
      (''authorization'', ''E4''), (''reentrancy'', ''E4''), (''logic-error'', ''E4''), (''dos-griefing'', ''E4''),
      (''token-integration'', ''E4''), (''share-price-accounting'', ''E4''), (''chain-freeze'', ''E4''),
      (''sequencer-halt'', ''E4''), (''liveness'', ''E4''), (''oracle-manipulation'', ''E5''), (''flash-loan'', ''E5''),
      (''share-price-inflation'', ''E6''), (''economic-invariant'', ''E6''), (''liquidation-logic'', ''E5''),
      (''bridge-message'', ''E6''), (''cross-chain-replay'', ''E6''), (''frontend-injection'', ''E6''),
      (''infra-boundary'', ''E6'')]"

definition CROSS_CHAIN_E6_CLASSES :: "string list" where
  "CROSS_CHAIN_E6_CLASSES = [''bridge-message'', ''cross-chain-replay'']"

definition ALLOWED_TRANSITIONS :: "(string \<times> string list) list" where
  "ALLOWED_TRANSITIONS =
     [(''HYPOTHESIS'', [''NEEDS_RESEARCH'', ''PROVISIONALLY_VALID'', ''POSSIBLE'', ''DISPROVED'', ''OUT_OF_SCOPE'',
         ''DUPLICATE'', ''INFORMATIONAL'', ''SUPERSEDED'']),
      (''NEEDS_RESEARCH'', [''POSSIBLE'', ''PROVISIONALLY_VALID'', ''DISPROVED'', ''OUT_OF_SCOPE'', ''DUPLICATE'',
         ''INFORMATIONAL'', ''SUPERSEDED'']),
      (''PROVISIONALLY_VALID'', [''POSSIBLE'', ''NEEDS_RESEARCH'', ''DISPROVED'', ''OUT_OF_SCOPE'', ''DUPLICATE'',
         ''INFORMATIONAL'', ''SUPERSEDED'']),
      (''POSSIBLE'', [''CONFIRMED'', ''NEEDS_RESEARCH'', ''DISPROVED'', ''OUT_OF_SCOPE'', ''DUPLICATE'',
         ''INFORMATIONAL'', ''SUPERSEDED'']),
      (''CONFIRMED'', [''DISPROVED'', ''DUPLICATE'', ''CHAIN'', ''OUT_OF_SCOPE'', ''INFORMATIONAL'', ''SUPERSEDED'']),
      (''CHAIN'', [''CONFIRMED'', ''DISPROVED'', ''SUPERSEDED'']),
      (''DISPROVED'', []), (''DUPLICATE'', [''HYPOTHESIS'']), (''OUT_OF_SCOPE'', []), (''INFORMATIONAL'', []),
      (''SUPERSEDED'', [])]"

definition EVIDENCE_TYPE_GROUPS :: "(string \<times> string list) list" where
  "EVIDENCE_TYPE_GROUPS =
     [(''static'', [''reasoning'', ''static-analysis'']), (''reachability'', [''reachability'']),
      (''invariant'', [''invariant-test'', ''symbolic-witness'']),
      (''local-poc'', [''unit-test'', ''foundry-test'', ''fuzz'']),
      (''fork-poc'', [''fork-test'', ''trace'', ''balance-delta'']),
      (''independent-repro'', [''differential'', ''historical-analog'', ''manual'']),
      (''economic'', [''balance-delta'', ''manual''])]"

definition ECONOMIC_CONFIRMATION_CLASSES :: "string list" where
  "ECONOMIC_CONFIRMATION_CLASSES = [''oracle-manipulation'', ''flash-loan'', ''share-price-inflation'',
     ''economic-invariant'', ''liquidation-logic'']"

section \<open>Reads of the tables\<close>

definition inSet :: "string list \<Rightarrow> string \<Rightarrow> bool" where
  "inSet s key \<longleftrightarrow> list_ex (\<lambda>x. x = key) s"

lemma inSet_iff [simp]: "inSet s key \<longleftrightarrow> key \<in> set s"
  by (auto simp: inSet_def list_ex_iff)

text \<open>A missing key of a Go map of strings reads as the empty string, of a map of sets as the empty set.\<close>

definition map_str :: "(string \<times> string) list \<Rightarrow> string \<Rightarrow> string" where
  "map_str m k = (case kv_find m k of None \<Rightarrow> [] | Some v \<Rightarrow> v)"

definition map_set :: "(string \<times> string list) list \<Rightarrow> string \<Rightarrow> string list" where
  "map_set m k = (case kv_find m k of None \<Rightarrow> [] | Some v \<Rightarrow> v)"

definition RequiredLevelFor :: "string \<Rightarrow> string \<Rightarrow> string" where
  "RequiredLevelFor status bugClass =
     (if status = ''CONFIRMED'' \<and> bugClass \<noteq> [] then
        (case kv_find CLASS_CONFIRM_FLOOR bugClass of Some f \<Rightarrow> f | None \<Rightarrow> map_str STATUS_FLOOR ''CONFIRMED'')
      else (case kv_find STATUS_FLOOR status of Some f \<Rightarrow> f | None \<Rightarrow> ''E0''))"

definition ClassConfirmFloor :: "string \<Rightarrow> string" where
  "ClassConfirmFloor cls =
     (case kv_find CLASS_CONFIRM_FLOOR cls of Some f \<Rightarrow> f | None \<Rightarrow> map_str STATUS_FLOOR ''CONFIRMED'')"

definition TransitionAllowed :: "string \<Rightarrow> string \<Rightarrow> bool" where
  "TransitionAllowed src dst = (case kv_find ALLOWED_TRANSITIONS src of None \<Rightarrow> False | Some s \<Rightarrow> inSet s dst)"

fun index_from :: "nat \<Rightarrow> string list \<Rightarrow> string \<Rightarrow> nat option" where
  "index_from i [] level = None"
| "index_from i (e # es) level = (if e = level then Some i else index_from (Suc i) es level)"

definition LevelIndex :: "string \<Rightarrow> error + nat" where
  "LevelIndex level = (case index_from 0 EVIDENCE_ORDER level of
       Some i \<Rightarrow> Inr i
     | None \<Rightarrow> Inl (ERefused ''unknown evidence level'' [level]))"

definition levelIndexValue :: "string \<Rightarrow> nat" where
  "levelIndexValue level = (case LevelIndex level of Inl _ \<Rightarrow> 0 | Inr i \<Rightarrow> i)"

definition ReachableLocally :: "string \<Rightarrow> string \<Rightarrow> bool" where
  "ReachableLocally cls cap = (case LevelIndex (ClassConfirmFloor cls) of
       Inl _ \<Rightarrow> False
     | Inr fl \<Rightarrow> (case LevelIndex cap of Inl _ \<Rightarrow> False | Inr limit \<Rightarrow> fl \<le> limit))"

definition IsExecutionLevel :: "string \<Rightarrow> error + bool" where
  "IsExecutionLevel level =
     bindR (LevelIndex level) (\<lambda>lvl. Inr (lvl \<ge> levelIndexValue ''E4'' \<and> level \<noteq> ''E7''))"

definition IsTerminal :: "string \<Rightarrow> bool" where
  "IsTerminal status = inSet TERMINAL status"

text \<open>\<open>statusBaselineIndex\<close> of \<^verbatim>\<open>slot.go\<close>: the ladder position a status occupies.\<close>

definition statusBaselineIndex :: "string \<Rightarrow> nat" where
  "statusBaselineIndex status = (case kv_find STATUS_FLOOR status of None \<Rightarrow> 0 | Some level \<Rightarrow> levelIndexValue level)"

section \<open>The ladder as a linear order\<close>

datatype elevel = E0 | E1 | E2 | E3 | E4 | E5 | E6 | E7

definition rank :: "elevel \<Rightarrow> nat" where
  "rank e = (case e of E0 \<Rightarrow> 0 | E1 \<Rightarrow> 1 | E2 \<Rightarrow> 2 | E3 \<Rightarrow> 3 | E4 \<Rightarrow> 4 | E5 \<Rightarrow> 5 | E6 \<Rightarrow> 6 | E7 \<Rightarrow> 7)"

lemma rank_inj: "rank a = rank b \<longleftrightarrow> a = b"
  by (cases a; cases b) (simp_all add: rank_def)

instantiation elevel :: linorder
begin

definition less_eq_elevel :: "elevel \<Rightarrow> elevel \<Rightarrow> bool" where
  "less_eq_elevel a b \<longleftrightarrow> rank a \<le> rank b"

definition less_elevel :: "elevel \<Rightarrow> elevel \<Rightarrow> bool" where
  "less_elevel a b \<longleftrightarrow> rank a < rank b"

instance
  by standard (auto simp: less_eq_elevel_def less_elevel_def rank_inj)

end

definition level_name :: "elevel \<Rightarrow> string" where
  "level_name e = EVIDENCE_ORDER ! rank e"

definition level_of :: "string \<Rightarrow> elevel option" where
  "level_of s = kv_find (map (\<lambda>e. (level_name e, e)) [E0, E1, E2, E3, E4, E5, E6, E7]) s"

lemma level_name_simps:
  "level_name E0 = ''E0''" "level_name E1 = ''E1''" "level_name E2 = ''E2''" "level_name E3 = ''E3''"
  "level_name E4 = ''E4''" "level_name E5 = ''E5''" "level_name E6 = ''E6''" "level_name E7 = ''E7''"
  by (simp_all add: level_name_def rank_def EVIDENCE_ORDER_def)

lemma level_of_name [simp]: "level_of (level_name e) = Some e"
  by (cases e) (simp_all add: level_of_def level_name_simps)

text \<open>Ladder positions are the ranks of the levels the names stand for; an unknown name has none.\<close>

lemma LevelIndex_level_of: "LevelIndex s = (case level_of s of Some e \<Rightarrow> Inr (rank e) | None \<Rightarrow> Inl (ERefused ''unknown evidence level'' [s]))"
  by (simp add: LevelIndex_def level_of_def level_name_simps EVIDENCE_ORDER_def rank_def)

lemma LevelIndex_Inr: "LevelIndex s = Inr i \<longleftrightarrow> (\<exists>e. level_of s = Some e \<and> i = rank e)"
  by (auto simp: LevelIndex_level_of split: option.splits)

lemma levelIndexValue_name [simp]: "levelIndexValue (level_name e) = rank e"
  by (simp add: levelIndexValue_def LevelIndex_level_of)

lemma floors_on_ladder:
  "f \<in> snd ` set CLASS_CONFIRM_FLOOR \<or> f \<in> snd ` set STATUS_FLOOR \<Longrightarrow> level_of f \<noteq> None"
proof -
  have "\<forall>f\<in>set (map snd CLASS_CONFIRM_FLOOR @ map snd STATUS_FLOOR). level_of f \<noteq> None"
    by (simp add: CLASS_CONFIRM_FLOOR_def STATUS_FLOOR_def level_of_def level_name_simps)
  then show "f \<in> snd ` set CLASS_CONFIRM_FLOOR \<or> f \<in> snd ` set STATUS_FLOOR \<Longrightarrow> level_of f \<noteq> None" by auto
qed

lemma RequiredLevelFor_known: "level_of (RequiredLevelFor status cls) \<noteq> None"
proof -
  have c: "level_of f \<noteq> None" if "kv_find CLASS_CONFIRM_FLOOR cls = Some f" for f
    using kv_find_SomeD [OF that] floors_on_ladder [of f] by force
  have s: "level_of f \<noteq> None" if "kv_find STATUS_FLOOR st = Some f" for f st
    using kv_find_SomeD [OF that] floors_on_ladder [of f] by force
  have "kv_find STATUS_FLOOR ''CONFIRMED'' = Some ''E5''" by (simp add: STATUS_FLOOR_def)
  then have d: "level_of (map_str STATUS_FLOOR ''CONFIRMED'') \<noteq> None" using s by (simp add: map_str_def)
  have e: "level_of ''E0'' \<noteq> None" using level_of_name [of E0] by (simp add: level_name_simps)
  show ?thesis unfolding RequiredLevelFor_def
    using c s d e by (simp split: option.split)
qed

text \<open>Never below the local-proof rung: no class can be confirmed on less than E4.\<close>

lemma confirm_floor_at_least_E4:
  assumes "level_of (RequiredLevelFor ''CONFIRMED'' cls) = Some l" shows "E4 \<le> l"
proof -
  let ?ok = "\<lambda>f. case level_of f of None \<Rightarrow> False | Some l \<Rightarrow> 4 \<le> rank l"
  have all: "list_all ?ok (map snd CLASS_CONFIRM_FLOOR)" "?ok ''E5''" by code_simp+
  have c: "?ok f" if "kv_find CLASS_CONFIRM_FLOOR cls = Some f" for f
    using kv_find_SomeD [OF that] all(1) by (force simp: list_all_iff)
  have "RequiredLevelFor ''CONFIRMED'' cls = ''E5'' \<or> kv_find CLASS_CONFIRM_FLOOR cls = Some (RequiredLevelFor ''CONFIRMED'' cls)"
    by (simp add: RequiredLevelFor_def map_str_def STATUS_FLOOR_def split: option.splits)
  then have "?ok (RequiredLevelFor ''CONFIRMED'' cls)"
  proof
    assume "RequiredLevelFor ''CONFIRMED'' cls = ''E5''"
    with all(2) show ?thesis by (simp only:)
  qed (rule c)
  then have "4 \<le> rank l" unfolding assms by simp
  then show ?thesis by (simp add: less_eq_elevel_def rank_def [of E4])
qed

section \<open>Paths of moves\<close>

inductive lifecycle :: "string \<Rightarrow> string list \<Rightarrow> string \<Rightarrow> bool" where
  lc_start: "lifecycle s [] s"
| lc_move: "lifecycle s p t \<Longrightarrow> TransitionAllowed t u \<Longrightarrow> lifecycle s (p @ [t]) u"

inductive_cases lifecycle_NilE: "lifecycle s [] t"

text \<open>A decidable statement about every edge is checked on the table.\<close>

lemma allowed_all:
  assumes "TransitionAllowed s t" "list_all (\<lambda>e. list_all (P (fst e)) (snd e)) ALLOWED_TRANSITIONS"
  shows "P s t"
  using assms by (force simp: TransitionAllowed_def list_all_iff dest: kv_find_SomeD split: option.splits)

text \<open>Only a possible or a chained finding is confirmed, only a confirmed one is chained.\<close>

lemma into_CONFIRMED: "TransitionAllowed s ''CONFIRMED'' \<Longrightarrow> s = ''POSSIBLE'' \<or> s = ''CHAIN''"
  using allowed_all [of s "''CONFIRMED''" "\<lambda>s t. t = ''CONFIRMED'' \<longrightarrow> s = ''POSSIBLE'' \<or> s = ''CHAIN''"]
  by (simp add: ALLOWED_TRANSITIONS_def)

lemma into_CHAIN: "TransitionAllowed s ''CHAIN'' \<Longrightarrow> s = ''CONFIRMED''"
  using allowed_all [of s "''CHAIN''" "\<lambda>s t. t = ''CHAIN'' \<longrightarrow> s = ''CONFIRMED''"]
  by (simp add: ALLOWED_TRANSITIONS_def)

lemma out_of_TERMINAL: "IsTerminal s \<Longrightarrow> TransitionAllowed s t \<Longrightarrow> s = ''DUPLICATE'' \<and> t = ''HYPOTHESIS''"
  using allowed_all [of s t "\<lambda>s t. IsTerminal s \<longrightarrow> s = ''DUPLICATE'' \<and> t = ''HYPOTHESIS''"]
  by (simp add: ALLOWED_TRANSITIONS_def IsTerminal_def TERMINAL_def)

lemma confirmed_via_possible:
  "lifecycle s p t \<Longrightarrow> t = ''CONFIRMED'' \<or> t = ''CHAIN'' \<Longrightarrow> s \<noteq> ''CONFIRMED'' \<Longrightarrow> s \<noteq> ''CHAIN'' \<Longrightarrow> ''POSSIBLE'' \<in> set p"
proof (induction rule: lifecycle.induct)
  case (lc_move s p t u)
  then show ?case using into_CONFIRMED [of t] into_CHAIN [of t] by auto
qed simp

text \<open>Leaving a terminal status is reopening a duplicate: from there on the path is that of a hypothesis.\<close>

lemma terminal_absorbs:
  "lifecycle s p t \<Longrightarrow> IsTerminal s \<Longrightarrow> p = [] \<and> t = s \<or> s = ''DUPLICATE'' \<and> (p = [s] \<and> t = ''HYPOTHESIS'' \<or> ''HYPOTHESIS'' \<in> set p)"
proof (induction rule: lifecycle.induct)
  case (lc_move s p t u)
  then show ?case using out_of_TERMINAL [of s u] by auto
qed simp

end
