(* ===== verification/Floors.thy ===== *)
theory Floors
  imports PyRepr Levels PhaseFacts
begin

text \<open>
  Instance-level evidence floors (\<^verbatim>\<open>internal/floors/floors.go\<close>): setting and clearing an
  override as a logged decision of the campaign, the lookup that feeds the gate, the table report, and
  the policy file a campaign can be seeded from. The triples say what a decision leaves behind.
\<close>

section \<open>Overrides as decisions\<close>

text \<open>\<open>classRe\<close>, \<open>^[a-z0-9-]{3,64}\n?$\<close>.\<close>

definition class_char :: "char \<Rightarrow> bool" where
  "class_char c \<longleftrightarrow> (CHR ''a'' \<le> c \<and> c \<le> CHR ''z'') \<or> (CHR ''0'' \<le> c \<and> c \<le> CHR ''9'') \<or> c = CHR ''-''"

definition classRe :: "string \<Rightarrow> bool" where
  "classRe s \<longleftrightarrow>
     (let body = (if s \<noteq> [] \<and> last s = CHR 0x0A then butlast s else s)
      in 3 \<le> length body \<and> length body \<le> 64 \<and> list_all class_char body)"

definition inEvidenceOrder :: "string \<Rightarrow> bool" where
  "inEvidenceOrder flr \<longleftrightarrow> list_ex (\<lambda>e. e = flr) EVIDENCE_ORDER"

definition policyOf :: "env \<Rightarrow> value list op" where
  "policyOf ev = bindE (State ev) (\<lambda>st. ret (vA (ObjAt st ''floor_policy'')))"

definition floor_entry :: "string \<Rightarrow> string \<Rightarrow> string \<Rightarrow> string \<Rightarrow> string \<Rightarrow> value" where
  "floor_entry bugClass flr actor reason t =
     VObj [(''class'', VStr bugClass), (''floor'', VStr flr), (''actor'', VStr actor),
           (''reason'', VStr reason), (''at'', VStr t)]"

text \<open>The loop over the policy that keeps the other classes' entries.\<close>

definition other_entries :: "string \<Rightarrow> value list \<Rightarrow> value list" where
  "other_entries bugClass policy = filter (\<lambda>e. ObjStr e ''class'' \<noteq> bugClass) policy"

definition has_entry :: "string \<Rightarrow> value list \<Rightarrow> bool" where
  "has_entry bugClass policy \<longleftrightarrow> list_ex (\<lambda>e. ObjStr e ''class'' = bugClass) policy"

definition set_data :: "string \<Rightarrow> string \<Rightarrow> string \<Rightarrow> bool \<Rightarrow> value" where
  "set_data flr actor reason replaced =
     VObj [(''floor'', VStr flr), (''actor'', VStr actor), (''reason'', VStr reason),
           (''replaced'', VBool replaced)]"

definition SetFloorPolicy :: "env \<Rightarrow> string \<Rightarrow> string \<Rightarrow> string \<Rightarrow> string \<Rightarrow> value op" where
  "SetFloorPolicy ev bugClass flr actor reason =
     bindE (guard (classRe bugClass) (ERefused ''bug class must be kebab-case'' [PyReprStr bugClass])) (\<lambda>_.
     bindE (guard (inEvidenceOrder flr) (ERefused ''floor must be one of'' (EVIDENCE_ORDER @ [PyReprStr flr]))) (\<lambda>_.
     bindE (guard (TrimSpace actor \<noteq> []) ENoActor) (\<lambda>_.
     bindE (guard (\<not> (TrimSpace reason = [] \<or> RuneCount reason < 10)) EShortReason) (\<lambda>_.
     bindE (nowIso ev) (\<lambda>t.
       let entry = floor_entry bugClass flr actor reason t in
       with_lock
         (bindE (State ev) (\<lambda>st.
            let policy = vA (ObjAt st ''floor_policy'');
                remaining = other_entries bugClass policy;
                replaced = has_entry bugClass policy
            in bindE rawState (\<lambda>prevRaw.
                 bindE (saveThenLog ev prevRaw (set_field st ''floor_policy'' (VArr (remaining @ [entry])))
                          ''floor_policy.set'' (Some bugClass) (set_data flr actor reason replaced))
                   (\<lambda>_. ret entry)))))))))"

definition ClearFloorPolicy :: "env \<Rightarrow> string \<Rightarrow> string \<Rightarrow> string \<Rightarrow> unit op" where
  "ClearFloorPolicy ev bugClass actor reason = with_lock
     (bindE (guard (TrimSpace actor \<noteq> []) ENoActor) (\<lambda>_.
      bindE (guard (TrimSpace reason \<noteq> []) EShortReason) (\<lambda>_.
      bindE (State ev) (\<lambda>st.
        let policy = vA (ObjAt st ''floor_policy'');
            remaining = other_entries bugClass policy
        in bindE (guard (length remaining \<noteq> length policy)
                   (ERefused ''no floor override for class'' [PyReprStr bugClass])) (\<lambda>_.
           bindE rawState (\<lambda>prevRaw.
           bindE (saveThenLog ev prevRaw (set_field st ''floor_policy'' (VArr remaining))
                    ''floor_policy.cleared'' (Some bugClass)
                    (VObj [(''actor'', VStr actor), (''reason'', VStr reason)]))
             (\<lambda>_. ret ())))))))"

section \<open>Lookup\<close>

text \<open>The scan from the end: the last entry of the class.\<close>

definition last_entry :: "string \<Rightarrow> value list \<Rightarrow> string option" where
  "last_entry bugClass policy =
     map_option (\<lambda>e. ObjStr e ''floor'') (find (\<lambda>e. ObjStr e ''class'' = bugClass) (rev policy))"

definition FloorOverride :: "env \<Rightarrow> string \<Rightarrow> string option op" where
  "FloorOverride ev bugClass = bindE (policyOf ev) (\<lambda>policy. ret (last_entry bugClass policy))"

text \<open>A campaign argument may be nil; a handle is read in the world of the call.\<close>

type_synonym camp = "(env \<times> world) option"

definition EffectiveFloor :: "camp \<Rightarrow> string \<Rightarrow> string \<Rightarrow> string" where
  "EffectiveFloor campaign status bugClass =
     (case campaign of
        Some (ev, w) \<Rightarrow>
          if status = ''CONFIRMED'' \<and> bugClass \<noteq> [] then
            (case fst (FloorOverride ev bugClass w) of
               Inr (Some flr) \<Rightarrow> flr
             | _ \<Rightarrow> RequiredLevelFor status bugClass)
          else RequiredLevelFor status bugClass
      | None \<Rightarrow> RequiredLevelFor status bugClass)"

section \<open>The table report\<close>

text \<open>\<open>validation.SortedKeys\<close> of a set of names.\<close>

definition SortedKeys :: "string list \<Rightarrow> string list" where
  "SortedKeys ks = sort (remdups ks)"

text \<open>The classes of the taxonomy: those with a floor of their own and the list another package
  installs at start-up, or the default below.\<close>

definition defaultCompatClasses :: "string list" where
  "defaultCompatClasses =
     [''oracle-manipulation'', ''flash-loan'', ''frontend-injection'', ''infra-boundary'', ''economic-invariant'',
      ''share-price-inflation'', ''precision-rounding'', ''token-integration'', ''logic-error'', ''access-control'',
      ''authorization'', ''upgrade-initializer'', ''centralization-risk'', ''signature-replay'', ''reentrancy'',
      ''unchecked-external-call'', ''dos-griefing'', ''bridge-message'', ''cross-chain-replay'', ''liquidation-logic'',
      ''donation'']"

definition KnownClasses :: "string list \<Rightarrow> string list" where
  "KnownClasses vocab = map fst CLASS_CONFIRM_FLOOR @ vocab"

definition overrides_of :: "value list \<Rightarrow> (string \<times> value) list" where
  "overrides_of policy = foldl (\<lambda>m e. kv_set m (ObjStr e ''class'') e) [] policy"

definition report_row :: "(string \<times> value) list \<Rightarrow> string \<Rightarrow> value" where
  "report_row overrides cls =
     (let defaultFloor = (case kv_find CLASS_CONFIRM_FLOOR cls of Some f \<Rightarrow> VStr f | None \<Rightarrow> VNull);
          (effective, override) =
            (case kv_find overrides cls of
               Some ov \<Rightarrow> (VStr (ObjStr ov ''floor''),
                 VObj [(''actor'', VStr (ObjStr ov ''actor'')), (''reason'', VStr (ObjStr ov ''reason'')),
                       (''at'', VStr (ObjStr ov ''at''))])
             | None \<Rightarrow> (defaultFloor, VNull))
      in VObj [(''class'', VStr cls), (''default_floor'', defaultFloor),
               (''effective_floor'', effective), (''override'', override)])"

definition default_note :: string where
  "default_note = ''classes without a listed floor default to the STATUS_FLOOR CONFIRMED level (E5) ''
     @ encode_rune 0x2014 @ '' the most conservative assumption for unknown classes''"

definition FloorTableReport :: "env \<Rightarrow> string list \<Rightarrow> value op" where
  "FloorTableReport ev vocab =
     bindE (policyOf ev) (\<lambda>policy.
       let overrides = overrides_of policy;
           classes = KnownClasses vocab @ map fst CLASS_CONFIRM_FLOOR @ map fst overrides;
           rows = map (report_row overrides) (SortedKeys classes)
       in ret (VObj [(''default_note'', VStr default_note), (''rows'', VArr rows)]))"

section \<open>Policy files\<close>

definition refusalWalkMaxDepth :: nat where "refusalWalkMaxDepth = 32"

text \<open>The walk stops at the first refusal. The recursion is on the value; the depth cap is a refusal
  like the others.\<close>

fun refuseWalk :: "value \<Rightarrow> nat \<Rightarrow> (string \<Rightarrow> bool) \<Rightarrow> string \<Rightarrow> error option" where
  "refuseWalk v depth bad msg =
     (if depth > refusalWalkMaxDepth then Some (ERefused ''nesting depth'' [])
      else case v of
        VObj kvs \<Rightarrow> foldr (\<lambda>kv rest. if bad (fst kv) then Some (ERefused msg [fst kv])
            else case refuseWalk (snd kv) (depth + 1) bad msg of Some e \<Rightarrow> Some e | None \<Rightarrow> rest) kvs None
      | VArr es \<Rightarrow> foldr (\<lambda>e rest. case refuseWalk e (depth + 1) bad msg of Some e \<Rightarrow> Some e | None \<Rightarrow> rest) es None
      | _ \<Rightarrow> None)"

definition refuseClassWeightKeys :: "value \<Rightarrow> error option" where
  "refuseClassWeightKeys doc =
     (case refuseWalk doc 0 (\<lambda>k. k = ''severity_default'' \<or> k = ''class_weights'') ''class weights'' of
        Some e \<Rightarrow> Some e
      | None \<Rightarrow> refuseWalk doc 0 (\<lambda>k. k = ''classes'') ''plural table'')"

definition override_shape :: "value \<Rightarrow> bool" where
  "override_shape ov \<longleftrightarrow> vkind ov = KObj \<and> HasObjKey ov ''class'' \<and> HasObjKey ov ''floor''"

definition LoadPolicyFile :: "string \<Rightarrow> value list op" where
  "LoadPolicyFile p =
     bindE (ReadJson p) (\<lambda>doc.
       case refuseClassWeightKeys doc of Some e \<Rightarrow> fail e
       | None \<Rightarrow>
         (let overrides = ObjAt doc ''overrides'' in
          bindE (guard (\<not> (vkind doc \<noteq> KObj \<or> vkind overrides \<noteq> KArr)) (ERefused ''floor policy file'' [p])) (\<lambda>_.
          case find (\<lambda>ov. \<not> override_shape ov) (vA overrides) of
            Some ov \<Rightarrow> fail (ERefused ''each floor override needs class and floor'' [PyRepr ov])
          | None \<Rightarrow> ret (vA overrides))))"

text \<open>\<open>filepath.Base\<close> of a cleaned path: what follows the last slash.\<close>

definition base_name :: "string \<Rightarrow> string" where
  "base_name p = rev (takeWhile (\<lambda>c. c \<noteq> CHR ''/'') (rev p))"

definition policyReason :: "value \<Rightarrow> string \<Rightarrow> string" where
  "policyReason ov p =
     (let reason = ObjAt ov ''reason'' in
      if vkind reason = KStr \<and> vS reason \<noteq> [] then vS reason
      else if \<not> PyTruthy reason then ''declared in floor policy file '' @ base_name p
      else PyRepr reason)"

definition valueStr :: "value \<Rightarrow> string option" where
  "valueStr v = (if vkind v = KStr then Some (vS v) else None)"

definition setFloorFromValues :: "env \<Rightarrow> value \<Rightarrow> value \<Rightarrow> string \<Rightarrow> value op" where
  "setFloorFromValues ev classV floorV reason =
     (case valueStr classV of
        None \<Rightarrow> fail (ERefused ''bug class must be kebab-case'' [PyRepr classV])
      | Some cls \<Rightarrow>
         (case valueStr floorV of
            None \<Rightarrow> fail (ERefused ''floor must be one of'' (EVIDENCE_ORDER @ [PyRepr floorV]))
          | Some flr \<Rightarrow> SetFloorPolicy ev cls flr ''campaign-init'' reason))"

fun apply_overrides :: "env \<Rightarrow> string \<Rightarrow> value list \<Rightarrow> value list \<Rightarrow> value list op" where
  "apply_overrides ev p out [] = ret out"
| "apply_overrides ev p out (ov # ovs) =
     bindE (setFloorFromValues ev (ObjAt ov ''class'') (ObjAt ov ''floor'') (policyReason ov p))
       (\<lambda>entry. apply_overrides ev p (out @ [entry]) ovs)"

definition ApplyPolicyFile :: "env \<Rightarrow> string \<Rightarrow> value list op" where
  "ApplyPolicyFile ev p = bindE (LoadPolicyFile p) (apply_overrides ev p [])"

end
