(* ===== verification/Gates.thy ===== *)
theory Gates
  imports Floors
begin

text \<open>
  The gate algebra over evidence (\<^verbatim>\<open>internal/findings/levels.go\<close>, second half): the clauses a
  status demands, when a clause is met, the level a finding has reached, the decision that may stand
  in for a price, and the description of what is missing. A set of evidence types is a list of names;
  a campaign may be nil.
\<close>

section \<open>Sets of types\<close>

definition copySet :: "string list \<Rightarrow> string list" where
  "copySet s = remdups s"

definition mergeSets :: "string list \<Rightarrow> string list \<Rightarrow> string list" where
  "mergeSets a b = remdups (a @ b)"

text \<open>\<open>listRepr\<close> of the sorted members.\<close>

definition listRepr :: "string list \<Rightarrow> string" where
  "listRepr names = ''['' @ join '', '' (map PyReprStr names) @ '']''"

definition asDict :: "value \<Rightarrow> value" where
  "asDict v = (if vkind v \<noteq> KObj then VObj [] else v)"

definition objBool :: "value \<Rightarrow> string \<Rightarrow> bool" where
  "objBool v key = (let got = ObjAt v key in vkind got = KBool \<and> vB got)"

section \<open>Requirements\<close>

record GateRequirement =
  Types :: "string list option"
  MinLevel :: string
  Decision :: string

definition RequiredLevelForCampaign :: "camp \<Rightarrow> string \<Rightarrow> string \<Rightarrow> string" where
  "RequiredLevelForCampaign campaign status bugClass =
     (case campaign of None \<Rightarrow> RequiredLevelFor status bugClass
      | Some _ \<Rightarrow> EffectiveFloor campaign status bugClass)"

definition GateRequirements :: "string \<Rightarrow> string \<Rightarrow> camp \<Rightarrow> GateRequirement list" where
  "GateRequirements status bugClass campaign =
     (let flr = RequiredLevelForCampaign campaign status bugClass in
      if status = ''CONFIRMED'' \<and> bugClass \<noteq> [] \<and> inSet ECONOMIC_CONFIRMATION_CLASSES bugClass then
        [\<lparr>Types = Some (copySet (map_set EVIDENCE_TYPE_GROUPS ''local-poc'')), MinLevel = ''E4'', Decision = []\<rparr>,
         \<lparr>Types = Some (mergeSets (map_set EVIDENCE_TYPE_GROUPS ''fork-poc'')
                     (map_set EVIDENCE_TYPE_GROUPS ''independent-repro'')), MinLevel = flr, Decision = []\<rparr>,
         \<lparr>Types = Some (copySet (map_set EVIDENCE_TYPE_GROUPS ''economic'')), MinLevel = ''E7'',
          Decision = ''unpriceable''\<rparr>]
      else [\<lparr>Types = None, MinLevel = flr, Decision = []\<rparr>])"

section \<open>Evidence of a finding\<close>

definition evidence_of :: "value \<Rightarrow> value list" where
  "evidence_of finding = vA (ObjAt finding ''evidence'')"

definition UnpriceableDecision :: "value \<Rightarrow> value option" where
  "UnpriceableDecision finding =
     (let imp = asDict (ObjAt finding ''economic_impact'');
          p = ObjAt imp ''priceable'';
          ceil = ObjAt imp ''ceiling''
      in if vkind p \<noteq> KBool \<or> vB p then None
         else if vkind ceil \<noteq> KStr \<or> TrimSpace (vS ceil) = [] then None
         else Some (VObj [(''priceable'', VBool False), (''ceiling'', ceil)]))"

text \<open>The scan of the evidence for an item of the clause's types at the clause's level.\<close>

fun evidence_meets :: "string list option \<Rightarrow> nat \<Rightarrow> value list \<Rightarrow> bool" where
  "evidence_meets types need [] = False"
| "evidence_meets types need (e # es) =
     (case LevelIndex (ObjStr e ''level'') of
        Inl _ \<Rightarrow> evidence_meets types need es
      | Inr lvl \<Rightarrow>
          if lvl < need then evidence_meets types need es
          else (case types of
                  None \<Rightarrow> True
                | Some ts \<Rightarrow> if inSet ts (ObjStr e ''type'') then True else evidence_meets types need es))"

definition ClauseMet :: "value \<Rightarrow> GateRequirement \<Rightarrow> bool" where
  "ClauseMet finding clause =
     (if Decision clause = ''unpriceable'' \<and> UnpriceableDecision finding \<noteq> None then True
      else case LevelIndex (MinLevel clause) of
             Inl _ \<Rightarrow> False
           | Inr need \<Rightarrow> evidence_meets (Types clause) need (evidence_of finding))"

fun best_level :: "nat \<Rightarrow> value list \<Rightarrow> nat" where
  "best_level best [] = best"
| "best_level best (e # es) =
     (case LevelIndex (ObjStr e ''level'') of
        Inl _ \<Rightarrow> best_level best es
      | Inr lvl \<Rightarrow> best_level (if lvl > best then lvl else best) es)"

definition FindingLevel :: "value \<Rightarrow> string" where
  "FindingLevel finding = EVIDENCE_ORDER ! best_level 0 (evidence_of finding)"

section \<open>The decision on the ledger\<close>

text \<open>The last impact decision of the finding in the event log.\<close>

definition is_impact :: "string \<Rightarrow> value \<Rightarrow> bool" where
  "is_impact fid e \<longleftrightarrow>
     (ObjStr e ''type'' = ''finding.unpriceable'' \<or> ObjStr e ''type'' = ''finding.impact_recorded'')
     \<and> ObjStr e ''ref'' = fid"

definition unpriceableAgreesWithLog :: "camp \<Rightarrow> value \<Rightarrow> bool" where
  "unpriceableAgreesWithLog campaign finding =
     (case campaign of
        None \<Rightarrow> True
      | Some (ev, w) \<Rightarrow>
          (case fst (Events w) of
             Inl _ \<Rightarrow> False
           | Inr events \<Rightarrow>
               (case find (is_impact (ObjStr finding ''finding_id'')) (rev events) of
                  None \<Rightarrow> False
                | Some l \<Rightarrow>
                    if ObjStr l ''type'' \<noteq> ''finding.unpriceable'' then False
                    else (let recorded = ObjAt (ObjAt l ''data'') ''ceiling'';
                              proj = ObjAt (asDict (ObjAt finding ''economic_impact'')) ''ceiling''
                          in if vkind recorded \<noteq> KStr \<or> vkind proj \<noteq> KStr then False
                             else vS recorded = vS proj))))"

section \<open>What is missing\<close>

definition campaignPlaceholder :: string where "campaignPlaceholder = ''<campaign>''"

definition class_of :: "value \<Rightarrow> string" where
  "class_of finding = ObjStr (ObjAt finding ''root_cause'') ''class''"

text \<open>Does the clause count as met in this call, the named decision being honoured only while it
  agrees with the log?\<close>

definition clause_counts :: "camp \<Rightarrow> value \<Rightarrow> GateRequirement \<Rightarrow> bool" where
  "clause_counts campaign finding cl =
     (if Decision cl \<noteq> ''unpriceable'' \<or> UnpriceableDecision finding = None then ClauseMet finding cl
      else unpriceableAgreesWithLog campaign finding \<and> ClauseMet finding cl)"

definition missing_text :: "camp \<Rightarrow> GateRequirement \<Rightarrow> string" where
  "missing_text campaign cl =
     (let types = (case Types cl of None \<Rightarrow> ''(any)'' | Some ts \<Rightarrow> listRepr (sort (remdups ts)));
          msg = ''no evidence of type '' @ types @ '' at level >= '' @ MinLevel cl;
          cid = (case campaign of Some (ev, _) \<Rightarrow> if CampaignID ev \<noteq> [] then CampaignID ev else campaignPlaceholder
                 | None \<Rightarrow> campaignPlaceholder)
      in if Decision cl = ''unpriceable'' then
           msg @ '' and no unpriceable decision recorded (`webv2 impact '' @ cid
             @ '' <finding> --unpriceable --ceiling '' @ [CHR 0x27] @ ''<capacity basis>'' @ [CHR 0x27]
             @ '' --reason <why no figure is defensible> --actor <you>`)''
         else msg)"

definition EvidenceDeficit :: "value \<Rightarrow> string \<Rightarrow> camp \<Rightarrow> string option" where
  "EvidenceDeficit finding status campaign =
     (let clauses = GateRequirements status (class_of finding) campaign in
      if length clauses = 1 \<and> Types (clauses ! 0) = None then
        (let have' = FindingLevel finding; need = MinLevel (clauses ! 0) in
         if levelIndexValue have' \<ge> levelIndexValue need then None
         else Some (''evidence level '' @ have' @ '' < required '' @ need @ '' for '' @ status))
      else
        (let missing = map (missing_text campaign) (filter (\<lambda>cl. \<not> clause_counts campaign finding cl) clauses)
         in if missing = [] then None else Some (join ''; '' missing)))"

end
