(* ===== verification/FloorFacts.thy ===== *)
theory FloorFacts
  imports Floors
begin

text \<open>
  What the floor decisions do: the policy list after a decision as a map from classes to floors, the
  triples of setting and clearing on a healthy campaign, the report against the lookup, and the
  refusal walk against the keys a document holds.
\<close>

section \<open>The policy list as a map\<close>

lemma last_entry_other: "cls' \<noteq> cls \<Longrightarrow> last_entry cls' (other_entries cls policy) = last_entry cls' policy"
proof -
  assume ne: "cls' \<noteq> cls"
  have "find (\<lambda>e. ObjStr e ''class'' = cls') (filter (\<lambda>e. ObjStr e ''class'' \<noteq> cls) xs)
      = find (\<lambda>e. ObjStr e ''class'' = cls') xs" for xs
    using ne by (induction xs) auto
  then show ?thesis by (simp add: last_entry_def other_entries_def rev_filter)
qed

lemma last_entry_removed: "last_entry cls (other_entries cls policy) = None"
  by (auto simp: last_entry_def other_entries_def find_None_iff)

lemma last_entry_snoc:
  "last_entry cls (policy @ [e]) = (if ObjStr e ''class'' = cls then Some (ObjStr e ''floor'') else last_entry cls policy)"
  by (simp add: last_entry_def)

lemma floor_entry_fields [simp]:
  "ObjStr (floor_entry cls flr actor reason t) ''class'' = cls"
  "ObjStr (floor_entry cls flr actor reason t) ''floor'' = flr"
  by (simp_all add: floor_entry_def ObjStr_def)

lemma last_entry_set:
  "last_entry c (other_entries cls policy @ [floor_entry cls flr actor reason t])
     = (if c = cls then Some flr else last_entry c policy)"
  by (simp add: last_entry_snoc last_entry_other)

lemma last_entry_cleared:
  "last_entry c (other_entries cls policy) = (if c = cls then None else last_entry c policy)"
  by (simp add: last_entry_other last_entry_removed)

lemma other_entries_shorter: "length (other_entries cls policy) \<noteq> length policy \<longleftrightarrow> has_entry cls policy"
proof (induction policy)
  case (Cons e policy)
  have "length (filter (\<lambda>e. ObjStr e ''class'' \<noteq> cls) policy) < Suc (length policy)"
    by (simp add: le_imp_less_Suc)
  then have "length (filter (\<lambda>e. ObjStr e ''class'' \<noteq> cls) policy) \<noteq> Suc (length policy)" by (rule less_imp_neq)
  with Cons show ?case by (simp add: other_entries_def has_entry_def)
qed (simp add: other_entries_def has_entry_def)

text \<open>The report's map of overrides reads like the scan from the end.\<close>

lemma kv_find_overrides:
  "kv_find (foldl (\<lambda>m e. kv_set m (ObjStr e ''class'') e) m policy) c
     = (case find (\<lambda>e. ObjStr e ''class'' = c) (rev policy) of Some e \<Rightarrow> Some e | None \<Rightarrow> kv_find m c)"
proof (induction policy rule: rev_induct)
  case (snoc e policy)
  then show ?case by (cases "ObjStr e ''class'' = c") auto
qed simp

lemma overrides_of_last_entry: "map_option (\<lambda>e. ObjStr e ''floor'') (kv_find (overrides_of policy) c) = last_entry c policy"
  by (simp add: overrides_of_def kv_find_overrides last_entry_def split: option.split)

section \<open>Setting and clearing on a healthy campaign\<close>

lemma class_char_ascii: "class_char c \<Longrightarrow> (of_char c :: nat) < 128"
proof -
  have "(of_char (CHR ''z'') :: nat) = 122" "(of_char (CHR ''9'') :: nat) = 57" "(of_char (CHR ''-'') :: nat) = 45"
    by simp_all
  then show "class_char c \<Longrightarrow> (of_char c :: nat) < 128"
    by (auto simp: class_char_def less_eq_char_def)
qed

lemma classRe_utf8: "classRe s \<Longrightarrow> valid_utf8 s"
proof (rule valid_utf8_ascii, rule ballI)
  fix c assume s: "classRe s" and c: "c \<in> set s"
  show "(of_char c :: nat) < 128"
  proof (cases "s \<noteq> [] \<and> last s = CHR 0x0A")
    case True
    then have "s = butlast s @ [CHR 0x0A]" by (metis append_butlast_last_id)
    with c have "c \<in> set (butlast s) \<or> c = CHR 0x0A" by (metis Un_iff empty_iff insert_iff list.set(1,2) set_append)
    with s True show ?thesis by (auto simp: classRe_def Let_def list_all_iff class_char_ascii)
  next
    case False
    with s c show ?thesis by (auto simp: classRe_def Let_def list_all_iff class_char_ascii split: if_splits)
  qed
qed

lemma inEvidenceOrder_utf8: "inEvidenceOrder flr \<Longrightarrow> valid_utf8 flr"
  by (auto simp: inEvidenceOrder_def EVIDENCE_ORDER_def)

lemma inEvidenceOrder_level: "inEvidenceOrder flr \<longleftrightarrow> level_of flr \<noteq> None"
  by (auto simp: inEvidenceOrder_def EVIDENCE_ORDER_def level_of_def level_name_simps)

definition policy_list :: "value \<Rightarrow> value list" where
  "policy_list st = vA (ObjAt st ''floor_policy'')"

definition floor_set_state :: "value \<Rightarrow> string \<Rightarrow> value \<Rightarrow> value" where
  "floor_set_state st cls entry = set_field st ''floor_policy'' (VArr (other_entries cls (policy_list st) @ [entry]))"

definition floor_cleared_state :: "value \<Rightarrow> string \<Rightarrow> value" where
  "floor_cleared_state st cls = set_field st ''floor_policy'' (VArr (other_entries cls (policy_list st)))"

lemma wf_policy: "wf_value st \<Longrightarrow> list_all wf_value (other_entries cls (policy_list st))"
  using wf_vA [OF wf_ObjAt [of st "''floor_policy''"]] by (auto simp: other_entries_def policy_list_def list_all_iff)

lemma wf_floor_states:
  "wf_value st \<Longrightarrow> wf_value entry \<Longrightarrow> wf_value (floor_set_state st cls entry)"
  "wf_value st \<Longrightarrow> wf_value (floor_cleared_state st cls)"
  unfolding floor_set_state_def floor_cleared_state_def using wf_policy [of st cls]
  by (auto intro!: wf_set_field simp: list_all_iff)

definition floor_set_post ::
  "env \<Rightarrow> value \<Rightarrow> value list \<Rightarrow> string \<Rightarrow> string \<Rightarrow> string \<Rightarrow> string \<Rightarrow> value \<Rightarrow> world \<Rightarrow> bool" where
  "floor_set_post ev st es cls flr actor reason entry w \<longleftrightarrow> (\<exists>t st'. entry = floor_entry cls flr actor reason t \<and>
     same_fields (floor_set_state st cls entry) st' \<and>
     appended ev st' es (window_ok es (vA (ObjAt st ''events''))) ''floor_policy.set'' (Some cls)
       (set_data flr actor reason (has_entry cls (policy_list st))) w)"

lemma of_files_floor_set_post: "of_files (floor_set_post ev st es cls flr actor reason entry)"
  unfolding floor_set_post_def by (intro of_files_rules of_files_appended)

lemma v_SetFloorPolicy:
  assumes ev: "env_ok ev" and a: "valid_utf8 actor" "valid_utf8 reason"
  shows "valid (healthy ev st es) (SetFloorPolicy ev cls flr actor reason)
    (\<lambda>entry w. classRe cls \<and> inEvidenceOrder flr \<and> TrimSpace actor \<noteq> [] \<and> 10 \<le> RuneCount reason \<and>
       floor_set_post ev st es cls flr actor reason entry w)
    (may_lag ev st es)"
  unfolding SetFloorPolicy_def Let_def
proof (rule v_with_guard [OF _ v_with_guard [OF _ v_with_guard [OF _ v_with_guard [OF _
      v_with_now [OF _ of_files_healthy v_lock [OF v_with_state [OF _ v_healthy_facts [OF ev _ v_with_raw]]]]]]]])
  fix t assume c: "classRe cls" "inEvidenceOrder flr" "TrimSpace actor \<noteq> []"
    "\<not> (TrimSpace reason = [] \<or> RuneCount reason < 10)" and "t \<in> range (now ev)" and wf: "wf_value st"
  then have t: "valid_utf8 t" using ev by (auto simp: env_ok_def clock_ok_def)
  let ?entry = "floor_entry cls flr actor reason t" and ?p = "vA (ObjAt st ''floor_policy'')"
  have w: "wf_value (floor_set_state st cls ?entry)"
    using wf_floor_states(1) [OF wf, of ?entry cls] c t a classRe_utf8 inEvidenceOrder_utf8 by (simp add: floor_entry_def)
  have args: "args_ok ''floor_policy.set'' (Some cls) (Some (set_data flr actor reason (has_entry cls ?p)))"
    using c a classRe_utf8 inEvidenceOrder_utf8 by (simp add: args_ok_def set_data_def)
  have e: "ObjAt (floor_set_state st cls ?entry) ''events'' = ObjAt st ''events''" by (simp add: floor_set_state_def)
  show "valid (healthy ev st es)
     (bindE (saveThenLog ev (Some (DumpIndented st @ NL))
          (set_field st ''floor_policy'' (VArr (other_entries cls ?p @ [?entry])))
          ''floor_policy.set'' (Some cls) (set_data flr actor reason (has_entry cls ?p))) (\<lambda>_. ret ?entry))
     (\<lambda>entry w. classRe cls \<and> inEvidenceOrder flr \<and> TrimSpace actor \<noteq> [] \<and> 10 \<le> RuneCount reason \<and>
       floor_set_post ev st es cls flr actor reason entry w) (may_lag ev st es)"
    using c by (intro v_bind [OF v_saveThenLog [OF ev args _ w [unfolded floor_set_state_def policy_list_def]
        e [unfolded floor_set_state_def policy_list_def]] v_ret])
      (auto simp: floor_set_post_def floor_set_state_def policy_list_def)
qed (intro grows.resp_bind grows.resp_with_lock grows.resp_nowIso grows.resp_State grows.resp_rawState
       grows_saveThenLog grows.resp_ret grows.resp_guard of_files_rules of_files_may_lag of_files_floor_set_post
     | simp add: may_lag_def)+

lemma v_ClearFloorPolicy:
  assumes ev: "env_ok ev" and a: "valid_utf8 actor" "valid_utf8 reason" "valid_utf8 cls"
  shows "valid (healthy ev st es) (ClearFloorPolicy ev cls actor reason)
    (\<lambda>_ w. TrimSpace actor \<noteq> [] \<and> TrimSpace reason \<noteq> [] \<and> has_entry cls (policy_list st) \<and>
       (\<exists>st'. same_fields (floor_cleared_state st cls) st' \<and>
         appended ev st' es (window_ok es (vA (ObjAt st ''events''))) ''floor_policy.cleared'' (Some cls)
           (VObj [(''actor'', VStr actor), (''reason'', VStr reason)]) w))
    (may_lag ev st es)"
  unfolding ClearFloorPolicy_def Let_def
proof (rule v_lock [OF v_with_guard [OF _ v_with_guard [OF _ v_with_state [OF _ v_healthy_facts [OF ev _
      v_with_guard [OF _ v_with_raw]]]]]])
  let ?p = "vA (ObjAt st ''floor_policy'')" and ?d = "VObj [(''actor'', VStr actor), (''reason'', VStr reason)]"
  assume c: "TrimSpace actor \<noteq> []" "TrimSpace reason \<noteq> []" and wf: "wf_value st"
    and n: "length (other_entries cls ?p) \<noteq> length ?p"
  have h: "has_entry cls (policy_list st)" using n by (simp add: policy_list_def other_entries_shorter)
  have w: "wf_value (floor_cleared_state st cls)" by (rule wf_floor_states(2) [OF wf])
  have args: "args_ok ''floor_policy.cleared'' (Some cls) (Some ?d)" using a by (simp add: args_ok_def)
  have e: "ObjAt (floor_cleared_state st cls) ''events'' = ObjAt st ''events''" by (simp add: floor_cleared_state_def)
  show "valid (healthy ev st es)
     (bindE (saveThenLog ev (Some (DumpIndented st @ NL)) (set_field st ''floor_policy'' (VArr (other_entries cls ?p)))
          ''floor_policy.cleared'' (Some cls) ?d) (\<lambda>_. ret ()))
     (\<lambda>_ w. TrimSpace actor \<noteq> [] \<and> TrimSpace reason \<noteq> [] \<and> has_entry cls (policy_list st) \<and>
       (\<exists>st'. same_fields (floor_cleared_state st cls) st' \<and>
         appended ev st' es (window_ok es (vA (ObjAt st ''events''))) ''floor_policy.cleared'' (Some cls) ?d w))
     (may_lag ev st es)"
    using c h by (intro v_bind [OF v_saveThenLog [OF ev args _ w [unfolded floor_cleared_state_def policy_list_def]
        e [unfolded floor_cleared_state_def policy_list_def]] v_ret])
      (auto simp: floor_cleared_state_def policy_list_def)
qed (intro grows.resp_bind grows.resp_State grows.resp_rawState grows_saveThenLog grows.resp_ret grows.resp_guard
       of_files_rules of_files_may_lag of_files_appended
     | simp add: may_lag_def)+

section \<open>Reading the policy of a saved state\<close>

lemma policyOf_run: "State ev w = (Inr st, w) \<Longrightarrow> policyOf ev w = (Inr (policy_list st), w)"
  by (simp add: policyOf_def bindE_def policy_list_def)

lemma FloorOverride_run: "State ev w = (Inr st, w) \<Longrightarrow> FloorOverride ev cls w = (Inr (last_entry cls (policy_list st)), w)"
  using policyOf_run [of ev w st] by (simp add: FloorOverride_def bindE_def)

lemma EffectiveFloor_run:
  assumes "State ev w = (Inr st, w)" "cls \<noteq> []"
  shows "EffectiveFloor (Some (ev, w)) ''CONFIRMED'' cls
    = (case last_entry cls (policy_list st) of Some flr \<Rightarrow> flr | None \<Rightarrow> RequiredLevelFor ''CONFIRMED'' cls)"
  using FloorOverride_run [OF assms(1), of cls] assms(2) by (simp add: EffectiveFloor_def split: option.split)

lemma policy_list_same:
  "same_fields st st' \<Longrightarrow> policy_list st' = policy_list st"
  by (simp add: policy_list_def same_fields_def)

lemma policy_list_states:
  "vkind st = KObj \<Longrightarrow> policy_list (floor_set_state st cls entry) = other_entries cls (policy_list st) @ [entry]"
  "vkind st = KObj \<Longrightarrow> policy_list (floor_cleared_state st cls) = other_entries cls (policy_list st)"
  by (simp_all add: policy_list_def floor_set_state_def floor_cleared_state_def)

section \<open>The refusal walk\<close>

text \<open>Every key of a document, at whatever depth, and how deep its containers nest.\<close>

fun all_keys :: "value \<Rightarrow> string list" where
  "all_keys (VObj kvs) = concat (map (\<lambda>kv. fst kv # all_keys (snd kv)) kvs)"
| "all_keys (VArr es) = concat (map all_keys es)"
| "all_keys _ = []"

fun nesting :: "value \<Rightarrow> nat" where
  "nesting (VObj kvs) = foldr (\<lambda>kv n. max (Suc (nesting (snd kv))) n) kvs 0"
| "nesting (VArr es) = foldr (\<lambda>e n. max (Suc (nesting e)) n) es 0"
| "nesting _ = 0"

lemma foldr_refusals:
  "foldr (\<lambda>x rest. case f x of Some e \<Rightarrow> Some e | None \<Rightarrow> rest) xs None = None \<longleftrightarrow> (\<forall>x\<in>set xs. f x = None)"
  by (induction xs) (auto split: option.split)

lemma foldr_max_le: "foldr (\<lambda>x n. max (f x) n) xs 0 \<le> b \<longleftrightarrow> (\<forall>x\<in>set xs. f x \<le> (b::nat))"
  by (induction xs) auto

declare refuseWalk.simps [simp del]

lemma refuseWalk_None:
  "refuseWalk v depth bad msg = None \<longleftrightarrow>
     depth + nesting v \<le> refusalWalkMaxDepth \<and> (\<forall>k\<in>set (all_keys v). \<not> bad k)"
proof (induction v depth bad msg rule: refuseWalk.induct)
  case (1 v depth bad msg)
  show ?case
  proof (cases "depth > refusalWalkMaxDepth")
    case True
    then show ?thesis by (simp add: refuseWalk.simps)
  next
    case False
    note IHo = 1(2) [OF False] and IHa = 1(1) [OF False]
    show ?thesis
    proof (cases v)
      case (VObj kvs)
      let ?f = "\<lambda>kv. if bad (fst kv) then Some (ERefused msg [fst kv]) else refuseWalk (snd kv) (depth + 1) bad msg"
      have f: "(\<lambda>kv rest. if bad (fst kv) then Some (ERefused msg [fst kv])
            else case refuseWalk (snd kv) (depth + 1) bad msg of Some e \<Rightarrow> Some e | None \<Rightarrow> rest)
        = (\<lambda>kv rest. case ?f kv of Some e \<Rightarrow> Some e | None \<Rightarrow> rest)"
        by (intro ext) simp
      have "refuseWalk v depth bad msg = foldr (\<lambda>kv rest. if bad (fst kv) then Some (ERefused msg [fst kv])
            else case refuseWalk (snd kv) (depth + 1) bad msg of Some e \<Rightarrow> Some e | None \<Rightarrow> rest) kvs None"
        using False VObj refuseWalk.simps [of v depth bad msg] by simp
      also have "\<dots> = None \<longleftrightarrow> (\<forall>kv\<in>set kvs. ?f kv = None)"
        unfolding f by (rule foldr_refusals)
      also have "\<dots> \<longleftrightarrow> (\<forall>kv\<in>set kvs. \<not> bad (fst kv) \<and> refuseWalk (snd kv) (depth + 1) bad msg = None)"
        by (intro ball_cong refl) auto
      also have "\<dots> \<longleftrightarrow> (\<forall>kv\<in>set kvs. \<not> bad (fst kv) \<and> depth + 1 + nesting (snd kv) \<le> refusalWalkMaxDepth
          \<and> (\<forall>k\<in>set (all_keys (snd kv)). \<not> bad k))"
        using IHo [OF VObj] by blast
      also have "\<dots> \<longleftrightarrow> depth + nesting v \<le> refusalWalkMaxDepth \<and> (\<forall>k\<in>set (all_keys v). \<not> bad k)"
      proof -
        have "depth + nesting v \<le> refusalWalkMaxDepth \<longleftrightarrow> nesting v \<le> refusalWalkMaxDepth - depth"
          using False by linarith
        also have "\<dots> \<longleftrightarrow> (\<forall>kv\<in>set kvs. Suc (nesting (snd kv)) \<le> refusalWalkMaxDepth - depth)"
          by (simp add: VObj foldr_max_le)
        also have "\<dots> \<longleftrightarrow> (\<forall>kv\<in>set kvs. depth + 1 + nesting (snd kv) \<le> refusalWalkMaxDepth)"
          using False by (intro ball_cong refl) linarith
        finally show ?thesis by (simp add: VObj) blast
      qed
      finally show ?thesis .
    next
      case (VArr es)
      have "refuseWalk v depth bad msg = None \<longleftrightarrow> (\<forall>e\<in>set es. refuseWalk e (depth + 1) bad msg = None)"
        using False VArr refuseWalk.simps [of v depth bad msg]
        by (simp add: foldr_refusals [of "\<lambda>e. refuseWalk e (Suc depth) bad msg"])
      also have "\<dots> \<longleftrightarrow> (\<forall>e\<in>set es. depth + 1 + nesting e \<le> refusalWalkMaxDepth \<and> (\<forall>k\<in>set (all_keys e). \<not> bad k))"
        using IHa [OF VArr] by blast
      also have "\<dots> \<longleftrightarrow> depth + nesting v \<le> refusalWalkMaxDepth \<and> (\<forall>k\<in>set (all_keys v). \<not> bad k)"
      proof -
        have "depth + nesting v \<le> refusalWalkMaxDepth \<longleftrightarrow> nesting v \<le> refusalWalkMaxDepth - depth"
          using False by linarith
        also have "\<dots> \<longleftrightarrow> (\<forall>e\<in>set es. Suc (nesting e) \<le> refusalWalkMaxDepth - depth)"
          by (simp add: VArr foldr_max_le)
        also have "\<dots> \<longleftrightarrow> (\<forall>e\<in>set es. depth + 1 + nesting e \<le> refusalWalkMaxDepth)"
          using False by (intro ball_cong refl) linarith
        finally show ?thesis by (simp add: VArr) blast
      qed
      finally show ?thesis .
    qed (use False in \<open>simp_all add: refuseWalk.simps\<close>)
  qed
qed

lemma refuseClassWeightKeys_None:
  "refuseClassWeightKeys doc = None \<longleftrightarrow> nesting doc \<le> refusalWalkMaxDepth \<and>
     (\<forall>k\<in>set (all_keys doc). k \<notin> {''severity_default'', ''class_weights'', ''classes''})"
proof -
  have "refuseClassWeightKeys doc = None \<longleftrightarrow>
      refuseWalk doc 0 (\<lambda>k. k = ''severity_default'' \<or> k = ''class_weights'') ''class weights'' = None \<and>
      refuseWalk doc 0 (\<lambda>k. k = ''classes'') ''plural table'' = None"
    by (simp add: refuseClassWeightKeys_def split: option.split)
  then show ?thesis unfolding refuseWalk_None by auto
qed

end
