(* ===== verification/GateFacts.thy ===== *)
theory GateFacts
  imports Gates FloorFacts
begin

text \<open>
  The abstract reading of the gate: the evidence of a finding is a list of pairs of a ladder level and
  a type, a clause asks for a pair, and a gate is a conjunction of clauses. The lemmas say that the
  code's scans compute that reading.
\<close>

section \<open>Evidence as pairs\<close>

definition item_of :: "value \<Rightarrow> (elevel \<times> string) list" where
  "item_of e = (case level_of (ObjStr e ''level'') of None \<Rightarrow> [] | Some l \<Rightarrow> [(l, ObjStr e ''type'')])"

definition items :: "value list \<Rightarrow> (elevel \<times> string) list" where
  "items es = concat (map item_of es)"

lemma items_simps [simp]: "items [] = []" "items (e # es) = item_of e @ items es" "items (xs @ ys) = items xs @ items ys"
  by (simp_all add: items_def)

definition attests :: "(elevel \<times> string) list \<Rightarrow> string list \<Rightarrow> elevel \<Rightarrow> bool" where
  "attests its types need \<longleftrightarrow> (\<exists>(l, t) \<in> set its. need \<le> l \<and> t \<in> set types)"

definition reaches :: "(elevel \<times> string) list \<Rightarrow> elevel \<Rightarrow> bool" where
  "reaches its need \<longleftrightarrow> need = E0 \<or> (\<exists>(l, t) \<in> set its. need \<le> l)"

lemma attests_append [simp]: "attests (xs @ ys) types need \<longleftrightarrow> attests xs types need \<or> attests ys types need"
  by (auto simp: attests_def)

lemma reaches_append: "reaches xs need \<Longrightarrow> reaches (xs @ ys) need"
  by (auto simp: reaches_def)

lemma rank_le_iff: "rank a \<le> rank b \<longleftrightarrow> a \<le> b" and rank_less_iff: "rank a < rank b \<longleftrightarrow> a < b"
  by (simp_all add: less_eq_elevel_def less_elevel_def)

text \<open>The scan of the evidence finds a pair exactly when there is one.\<close>

lemma evidence_meets_attests: "evidence_meets (Some ts) (rank need) es \<longleftrightarrow> attests (items es) ts need"
proof (induction es)
  case (Cons e es)
  show ?case
  proof (cases "level_of (ObjStr e ''level'')")
    case None
    with Cons show ?thesis by (simp add: LevelIndex_level_of item_of_def)
  next
    case (Some l)
    have "attests (item_of e) ts need \<longleftrightarrow> need \<le> l \<and> ObjStr e ''type'' \<in> set ts"
      by (simp add: Some item_of_def attests_def)
    with Some Cons show ?thesis
      by (auto simp: LevelIndex_level_of rank_less_iff)
  qed
qed (simp add: attests_def)

section \<open>The level of a finding\<close>

lemma rank_max: "rank (max a b) = max (rank a) (rank b)"
  by (simp add: max_def less_eq_elevel_def)

lemma best_level_max: "best_level (rank b) es = rank (foldl max b (map fst (items es)))"
proof (induction es arbitrary: b)
  case (Cons e es)
  show ?case
  proof (cases "level_of (ObjStr e ''level'')")
    case None
    with Cons show ?thesis by (simp add: LevelIndex_level_of item_of_def)
  next
    case (Some l)
    have "(if rank l > rank b then rank l else rank b) = rank (max b l)" unfolding rank_max by auto
    with Some Cons [of "max b l"] show ?thesis by (simp add: LevelIndex_level_of item_of_def)
  qed
qed simp

lemma foldl_max_Max: "foldl max b xs = Max (insert b (set xs))" for b :: "'a::linorder"
proof (induction xs arbitrary: b)
  case (Cons x xs)
  have "Max (insert (max b x) (set xs)) = Max (insert b (insert x (set xs)))"
    by (cases "xs = []") (simp_all add: max.assoc)
  with Cons [of "max b x"] show ?case by simp
qed simp

definition reached :: "value \<Rightarrow> elevel" where
  "reached finding = Max (insert E0 (fst ` set (items (evidence_of finding))))"

lemma FindingLevel_reached: "FindingLevel finding = level_name (reached finding)"
proof -
  have "best_level 0 (evidence_of finding) = best_level (rank E0) (evidence_of finding)" by (simp add: rank_def)
  also have "\<dots> = rank (reached finding)" unfolding best_level_max foldl_max_Max reached_def by simp
  finally show ?thesis by (simp add: FindingLevel_def level_name_def)
qed

lemma E0_least [simp]: "E0 \<le> l"
  by (simp add: less_eq_elevel_def rank_def)

lemma reached_ge: "need \<le> reached finding \<longleftrightarrow> reaches (items (evidence_of finding)) need"
proof -
  have "need \<le> reached finding \<longleftrightarrow> need \<le> E0 \<or> (\<exists>it\<in>set (items (evidence_of finding)). need \<le> fst it)"
    unfolding reached_def by (subst Max_ge_iff) auto
  moreover have "need \<le> E0 \<longleftrightarrow> need = E0" using E0_least antisym by blast
  ultimately show ?thesis by (force simp: reaches_def)
qed

section \<open>The gate\<close>

definition local_types :: "string list" where "local_types = [''unit-test'', ''foundry-test'', ''fuzz'']"

definition live_types :: "string list" where
  "live_types = [''fork-test'', ''trace'', ''balance-delta'', ''differential'', ''historical-analog'', ''manual'']"

definition price_types :: "string list" where "price_types = [''balance-delta'', ''manual'']"

definition economic :: "string \<Rightarrow> string \<Rightarrow> bool" where
  "economic status cls \<longleftrightarrow> status = ''CONFIRMED'' \<and> cls \<in> set ECONOMIC_CONFIRMATION_CLASSES"

text \<open>The conjunction of clauses a status asks for. A recorded decision that a finding cannot be priced
  replaces the price, and stands or falls with the log.\<close>

definition gate_open :: "camp \<Rightarrow> value \<Rightarrow> string \<Rightarrow> elevel \<Rightarrow> bool" where
  "gate_open campaign finding status need =
     (let its = items (evidence_of finding) in
      if economic status (class_of finding) then
        attests its local_types E4 \<and> attests its live_types need \<and>
        (if UnpriceableDecision finding = None then attests its price_types E7
         else unpriceableAgreesWithLog campaign finding)
      else reaches its need)"

lemma economic_not_Nil: "c \<in> set ECONOMIC_CONFIRMATION_CLASSES \<Longrightarrow> c \<noteq> []"
  by (auto simp: ECONOMIC_CONFIRMATION_CLASSES_def)

lemma GateRequirements_cases:
  "GateRequirements status cls campaign =
     (if economic status cls then
        [\<lparr>Types = Some local_types, MinLevel = ''E4'', Decision = []\<rparr>,
         \<lparr>Types = Some live_types, MinLevel = RequiredLevelForCampaign campaign status cls, Decision = []\<rparr>,
         \<lparr>Types = Some price_types, MinLevel = ''E7'', Decision = ''unpriceable''\<rparr>]
      else [\<lparr>Types = None, MinLevel = RequiredLevelForCampaign campaign status cls, Decision = []\<rparr>])"
proof -
  have "copySet (map_set EVIDENCE_TYPE_GROUPS ''local-poc'') = local_types"
    "mergeSets (map_set EVIDENCE_TYPE_GROUPS ''fork-poc'') (map_set EVIDENCE_TYPE_GROUPS ''independent-repro'') = live_types"
    "copySet (map_set EVIDENCE_TYPE_GROUPS ''economic'') = price_types"
    by (simp_all add: copySet_def mergeSets_def map_set_def EVIDENCE_TYPE_GROUPS_def local_types_def live_types_def
      price_types_def)
  then show ?thesis using economic_not_Nil
    by (auto simp: GateRequirements_def Let_def economic_def)
qed

lemma ClauseMet_plain:
  assumes "level_of lvl = Some need"
  shows "ClauseMet finding \<lparr>Types = Some ts, MinLevel = lvl, Decision = []\<rparr> \<longleftrightarrow> attests (items (evidence_of finding)) ts need"
  using assms by (simp add: ClauseMet_def LevelIndex_level_of evidence_meets_attests)

lemma level_of_E4 [simp]: "level_of ''E4'' = Some E4" and level_of_E7 [simp]: "level_of ''E7'' = Some E7"
  using level_of_name [of E4] level_of_name [of E7] by (simp_all add: level_name_simps)

lemma clause_counts_price:
  "clause_counts campaign finding \<lparr>Types = Some price_types, MinLevel = ''E7'', Decision = ''unpriceable''\<rparr> \<longleftrightarrow>
     (if UnpriceableDecision finding = None then attests (items (evidence_of finding)) price_types E7
      else unpriceableAgreesWithLog campaign finding)"
  by (simp add: clause_counts_def ClauseMet_def LevelIndex_level_of evidence_meets_attests)

lemma clause_counts_plain:
  "level_of lvl = Some need \<Longrightarrow> clause_counts campaign finding \<lparr>Types = Some ts, MinLevel = lvl, Decision = []\<rparr>
     \<longleftrightarrow> attests (items (evidence_of finding)) ts need"
  by (simp add: clause_counts_def ClauseMet_plain)

lemma EvidenceDeficit_gate:
  assumes n: "level_of (RequiredLevelForCampaign campaign status (class_of finding)) = Some need"
  shows "EvidenceDeficit finding status campaign = None \<longleftrightarrow> gate_open campaign finding status need"
proof (cases "economic status (class_of finding)")
  case True
  have "EvidenceDeficit finding status campaign = None \<longleftrightarrow>
      list_all (clause_counts campaign finding) (GateRequirements status (class_of finding) campaign)"
    using True by (simp add: EvidenceDeficit_def Let_def GateRequirements_cases)
  then show ?thesis
    using True clause_counts_plain [OF level_of_E4, of campaign finding local_types]
      clause_counts_plain [OF n, of campaign finding live_types]
    by (simp add: GateRequirements_cases clause_counts_price gate_open_def Let_def)
next
  case False
  have n: "levelIndexValue (RequiredLevelForCampaign campaign status (class_of finding)) = rank need"
    using n by (simp add: levelIndexValue_def LevelIndex_level_of)
  show ?thesis using False
    by (simp add: EvidenceDeficit_def Let_def GateRequirements_cases FindingLevel_reached n rank_le_iff reached_ge gate_open_def)
qed

lemma gate_open_floor: "gate_open campaign finding status need \<Longrightarrow> reaches (items (evidence_of finding)) need"
  by (auto simp: gate_open_def Let_def reaches_def attests_def split: if_splits)

section \<open>More evidence\<close>

definition with_evidence :: "value \<Rightarrow> value list \<Rightarrow> value" where
  "with_evidence finding extra = set_field finding ''evidence'' (VArr (evidence_of finding @ extra))"

lemma with_evidence_fields [simp]:
  "vkind finding = KObj \<Longrightarrow> evidence_of (with_evidence finding extra) = evidence_of finding @ extra"
  "class_of (with_evidence finding extra) = class_of finding"
  "UnpriceableDecision (with_evidence finding extra) = UnpriceableDecision finding"
  "unpriceableAgreesWithLog campaign (with_evidence finding extra) = unpriceableAgreesWithLog campaign finding"
proof -
  have o: "ObjAt (with_evidence finding extra) k = ObjAt finding k" "ObjStr (with_evidence finding extra) k = ObjStr finding k"
    if "k \<noteq> ''evidence''" for k
    using that by (simp_all add: with_evidence_def ObjStr_def Let_def)
  show "vkind finding = KObj \<Longrightarrow> evidence_of (with_evidence finding extra) = evidence_of finding @ extra"
    by (simp add: with_evidence_def evidence_of_def)
  show "class_of (with_evidence finding extra) = class_of finding"
    "UnpriceableDecision (with_evidence finding extra) = UnpriceableDecision finding"
    by (simp_all add: class_of_def UnpriceableDecision_def o)
  show "unpriceableAgreesWithLog campaign (with_evidence finding extra) = unpriceableAgreesWithLog campaign finding"
    unfolding unpriceableAgreesWithLog_def by (simp only: o(1) [of "''economic_impact''", simplified] o(2) [of "''finding_id''", simplified])
qed

lemma gate_open_mono:
  "vkind finding = KObj \<Longrightarrow> gate_open campaign finding status need \<Longrightarrow> gate_open campaign (with_evidence finding extra) status need"
  by (auto simp: gate_open_def Let_def reaches_append split: if_splits)

end
