(* ===== verification/FindingProperties.thy ===== *)
theory FindingProperties
  imports GateFacts PhaseProperties Snapshots
begin

text \<open>
  The properties of the findings layer's pure part and of the floor decisions: what a floor override
  leaves behind, which policy files are refused, the report against the gate, the evidence gate as a
  conjunction of clauses, and the paths of the status machine.
\<close>

section \<open>Floor decisions\<close>

text \<open>Setting a floor on a settled campaign. When it returns, the arguments were acceptable, the newest
  event of the verified ledger is the decision with its actor, reason and whether it replaced one, the
  gate applies the new floor to that class and to no other; when it fails, the state is the one it found.\<close>

theorem floor_set_recorded:
  assumes "env_ok ev" "valid_utf8 actor" "valid_utf8 reason" "settled ev st es w"
    and "SetFloorPolicy ev cls flr actor reason w = (r, w')"
  shows "oversize w' \<or> (case r of
      Inr entry \<Rightarrow> classRe cls \<and> flr \<in> set EVIDENCE_ORDER \<and> TrimSpace actor \<noteq> [] \<and> 10 \<le> RuneCount reason \<and>
        (\<exists>st'. recorded ev st' es ''floor_policy.set'' (Some cls)
                 (set_data flr actor reason (has_entry cls (policy_list st))) w') \<and>
        EffectiveFloor (Some (ev, w')) ''CONFIRMED'' cls = flr \<and>
        (\<forall>c. c \<noteq> cls \<longrightarrow> EffectiveFloor (Some (ev, w')) ''CONFIRMED'' c = EffectiveFloor (Some (ev, w)) ''CONFIRMED'' c)
    | Inl _ \<Rightarrow> unchanged ev st es w')"
proof -
  have win: "window_ok es (vA (ObjAt st ''events''))" and h: "healthy ev st es w"
    using assms(4) by (simp_all add: settled_def)
  have S: "State ev w = (Inr st, w)" and k: "vkind st = KObj"
    using h healthy_facts [OF h assms(1)] by (simp_all add: healthy_def)
  note out = valid_outcome [OF v_SetFloorPolicy [OF assms(1-3)] h assms(5)]
  have floors: "EffectiveFloor (Some (ev, w')) ''CONFIRMED'' cls = flr \<and>
      (\<forall>c. c \<noteq> cls \<longrightarrow> EffectiveFloor (Some (ev, w')) ''CONFIRMED'' c = EffectiveFloor (Some (ev, w)) ''CONFIRMED'' c)"
    if "same_fields (floor_set_state st cls (floor_entry cls flr actor reason t)) st'" "State ev w' = (Inr st', w')" "cls \<noteq> []"
    for st' t
  proof -
    have p: "policy_list st' = other_entries cls (policy_list st) @ [floor_entry cls flr actor reason t]"
      using policy_list_same [OF that(1)] policy_list_states(1) [OF k] by simp
    have "EffectiveFloor (Some (ev, w')) ''CONFIRMED'' c = (if c = cls then flr else EffectiveFloor (Some (ev, w)) ''CONFIRMED'' c)" for c
    proof (cases "c = []")
      case True
      with that(3) show ?thesis by (simp add: EffectiveFloor_def)
    next
      case False
      then show ?thesis using EffectiveFloor_run [OF that(2) False] EffectiveFloor_run [OF S False]
        by (simp add: p last_entry_set split: option.split)
    qed
    then show ?thesis by simp
  qed
  have ne: "classRe cls \<Longrightarrow> cls \<noteq> []" by (auto simp: classRe_def)
  have ord: "inEvidenceOrder flr \<longleftrightarrow> flr \<in> set EVIDENCE_ORDER" by (auto simp: inEvidenceOrder_def list_ex_iff)
  show ?thesis
  proof (cases r)
    case (Inl e)
    with out may_lag_unchanged show ?thesis by auto
  next
    case (Inr entry)
    show ?thesis
    proof (cases "oversize w'")
      case False
      with out Inr have c: "classRe cls" "inEvidenceOrder flr" "TrimSpace actor \<noteq> []" "10 \<le> RuneCount reason"
        and p: "floor_set_post ev st es cls flr actor reason entry w'" by auto
      from p obtain t st' where sf: "same_fields (floor_set_state st cls (floor_entry cls flr actor reason t)) st'"
        and ap: "appended ev st' es True ''floor_policy.set'' (Some cls) (set_data flr actor reason (has_entry cls (policy_list st))) w'"
        using win by (auto simp: floor_set_post_def)
      note rec = appended_recorded [OF ap]
      have "State ev w' = (Inr st', w')" using rec by (simp add: recorded_def)
      from floors [OF sf this ne [OF c(1)]] rec c ord Inr show ?thesis by auto
    qed simp
  qed
qed

theorem floor_set_recorded_witness:
  "\<exists>r w'. SetFloorPolicy ev0 ''flash-loan'' ''E4'' ''ada'' ''no mainnet deployment'' w0 = (r, w') \<and> (oversize w' \<or> (case r of
      Inr _ \<Rightarrow> EffectiveFloor (Some (ev0, w')) ''CONFIRMED'' ''flash-loan'' = ''E4''
    | Inl _ \<Rightarrow> unchanged ev0 (st_with []) [] w'))"
proof -
  obtain r w' where run: "SetFloorPolicy ev0 ''flash-loan'' ''E4'' ''ada'' ''no mainnet deployment'' w0 = (r, w')"
    by (cases "SetFloorPolicy ev0 ''flash-loan'' ''E4'' ''ada'' ''no mainnet deployment'' w0")
  show ?thesis using floor_set_recorded [OF env_ok_ev0 _ _ settled_w0 run] run by (auto split: sum.splits)
qed

text \<open>C37: A policy file is accepted only when its document nests at most 32 levels, holds none of the
  taxonomy's keys at any depth, is an object with a list of overrides, and every override is an object
  with a class and a floor; and a file of that shape is accepted.\<close>

theorem policy_file_spec:
  "fst (LoadPolicyFile p w) = Inr ovs \<longleftrightarrow> (\<exists>doc. fst (ReadJson p w) = Inr doc \<and>
     nesting doc \<le> 32 \<and> set (all_keys doc) \<inter> {''severity_default'', ''class_weights'', ''classes''} = {} \<and>
     vkind doc = KObj \<and> ObjAt doc ''overrides'' = VArr ovs \<and>
     list_all (\<lambda>ov. vkind ov = KObj \<and> HasObjKey ov ''class'' \<and> HasObjKey ov ''floor'') ovs)"
proof (cases "ReadJson p w")
  case (Pair r w1)
  show ?thesis
  proof (cases r)
    case (Inl e)
    with Pair show ?thesis by (simp add: LoadPolicyFile_def bindE_def)
  next
    case (Inr doc)
    have k: "vkind v = KArr \<Longrightarrow> v = VArr xs \<longleftrightarrow> vA v = xs" for v xs by (cases v) auto
    have n: "find (\<lambda>ov. \<not> override_shape ov) xs = None \<longleftrightarrow> list_all override_shape xs" for xs
      by (auto simp: find_None_iff list_all_iff)
    show ?thesis
    proof (cases "refuseClassWeightKeys doc")
      case (Some e)
      with refuseClassWeightKeys_None [of doc] Pair Inr show ?thesis
        by (auto simp: LoadPolicyFile_def bindE_def refusalWalkMaxDepth_def)
    next
      case None
      then have keys: "nesting doc \<le> 32 \<and> set (all_keys doc) \<inter> {''severity_default'', ''class_weights'', ''classes''} = {}"
        using refuseClassWeightKeys_None [of doc] by (auto simp: refusalWalkMaxDepth_def)
      show ?thesis
      proof (cases "vkind doc = KObj \<and> vkind (ObjAt doc ''overrides'') = KArr")
        case True
        then show ?thesis using Pair Inr None keys k [of "ObjAt doc ''overrides''" ovs] n [of "vA (ObjAt doc ''overrides'')"]
          by (auto simp: LoadPolicyFile_def bindE_def Let_def override_shape_def [abs_def] split: option.splits)
      next
        case False
        then show ?thesis using Pair Inr None by (auto simp: LoadPolicyFile_def bindE_def Let_def)
      qed
    qed
  qed
qed

text \<open>The floor table never hides an override: every class that has one is a row, and the floor a row
  shows is the one the gate applies in that campaign; a row that shows none stands for the default E5.\<close>

theorem floor_report_honest:
  assumes "State ev w = (Inr st, w)" "cls \<noteq> []"
    and "cls \<in> set (KnownClasses vocab) \<or> last_entry cls (policy_list st) \<noteq> None"
  shows "\<exists>rep row. FloorTableReport ev vocab w = (Inr rep, w) \<and> row \<in> set (vA (ObjAt rep ''rows'')) \<and>
     ObjStr row ''class'' = cls \<and>
     EffectiveFloor (Some (ev, w)) ''CONFIRMED'' cls =
       (if ObjAt row ''effective_floor'' = VNull then ''E5'' else ObjStr row ''effective_floor'')"
proof -
  let ?ov = "overrides_of (policy_list st)"
  let ?rows = "map (report_row ?ov) (SortedKeys (KnownClasses vocab @ map fst CLASS_CONFIRM_FLOOR @ map fst ?ov))"
  have run: "FloorTableReport ev vocab w
      = (Inr (VObj [(''default_note'', VStr default_note), (''rows'', VArr ?rows)]), w)"
    using policyOf_run [OF assms(1)] by (simp add: FloorTableReport_def bindE_def Let_def)
  have "last_entry cls (policy_list st) \<noteq> None \<Longrightarrow> cls \<in> fst ` set ?ov"
    using overrides_of_last_entry [of "policy_list st" cls] kv_find_None_iff [of ?ov cls] by auto
  then have row: "report_row ?ov cls \<in> set ?rows" using assms(3) by (auto simp: SortedKeys_def)
  have e5: "map_str STATUS_FLOOR ''CONFIRMED'' = ''E5''" by (simp add: map_str_def STATUS_FLOOR_def)
  have eff: "EffectiveFloor (Some (ev, w)) ''CONFIRMED'' cls =
       (if ObjAt (report_row ?ov cls) ''effective_floor'' = VNull then ''E5'' else ObjStr (report_row ?ov cls) ''effective_floor'')"
    unfolding EffectiveFloor_run [OF assms(1,2)] overrides_of_last_entry [symmetric] using assms(2) e5
    by (auto simp: report_row_def Let_def RequiredLevelFor_def ObjStr_def split: option.splits)
  have "ObjStr (report_row ?ov cls) ''class'' = cls"
    by (simp add: report_row_def Let_def ObjStr_def split: prod.splits)
  with run row eff show ?thesis by (intro exI conjI) auto
qed

theorem floor_report_honest_witness:
  "\<exists>rep row. FloorTableReport ev0 defaultCompatClasses w0 = (Inr rep, w0) \<and> row \<in> set (vA (ObjAt rep ''rows'')) \<and>
     ObjStr row ''class'' = ''donation'' \<and>
     EffectiveFloor (Some (ev0, w0)) ''CONFIRMED'' ''donation'' =
       (if ObjAt row ''effective_floor'' = VNull then ''E5'' else ObjStr row ''effective_floor'')"
proof (rule floor_report_honest)
  show "State ev0 w0 = (Inr (st_with []), w0)" using settled_w0 by (simp add: settled_def healthy_def)
qed (simp_all add: KnownClasses_def defaultCompatClasses_def)

section \<open>The evidence gate\<close>

text \<open>C38: The gate's verdict is the conjunction of its clauses on the finding's pairs of level and type: below
  the economic classes one pair at the floor, for them a local proof, a live one and a price, or a recorded
  decision that agrees with the log; no amount of other evidence stands in for a clause.\<close>

theorem evidence_gate_refines:
  assumes "level_of (RequiredLevelForCampaign campaign status (class_of finding)) = Some need"
  shows "EvidenceDeficit finding status campaign = None \<longleftrightarrow> gate_open campaign finding status need"
  by (rule EvidenceDeficit_gate [OF assms])

definition some_finding :: "value" where
  "some_finding = VObj [(''finding_id'', VStr ''F-1''), (''root_cause'', VObj [(''class'', VStr ''flash-loan'')]),
     (''evidence'', VArr [VObj [(''level'', VStr ''E7''), (''type'', VStr ''manual'')],
        VObj [(''level'', VStr ''E7''), (''type'', VStr ''fork-test'')]])]"

theorem evidence_gate_refines_witness:
  "EvidenceDeficit some_finding ''CONFIRMED'' None \<noteq> None"
proof -
  have "level_of (RequiredLevelForCampaign None ''CONFIRMED'' (class_of some_finding)) = Some E5"
    "\<not> gate_open None some_finding ''CONFIRMED'' E5" by code_simp+
  with evidence_gate_refines [of None "''CONFIRMED''" some_finding E5] show ?thesis by blast
qed

text \<open>Evidence accumulates: a gate that was met stays met when evidence is appended, in every campaign and
  for every status.\<close>

theorem evidence_monotone:
  assumes "EvidenceDeficit finding status campaign = None" "vkind finding = KObj"
    and "level_of (RequiredLevelForCampaign campaign status (class_of finding)) \<noteq> None"
  shows "EvidenceDeficit (with_evidence finding extra) status campaign = None"
proof -
  obtain need where n: "level_of (RequiredLevelForCampaign campaign status (class_of finding)) = Some need"
    using assms(3) by blast
  then have n': "level_of (RequiredLevelForCampaign campaign status (class_of (with_evidence finding extra))) = Some need"
    by simp
  show ?thesis using assms(1) gate_open_mono [OF assms(2)]
    unfolding EvidenceDeficit_gate [OF n] EvidenceDeficit_gate [OF n'] by blast
qed

theorem evidence_monotone_witness:
  "EvidenceDeficit (with_evidence (VObj [(''evidence'', VArr [VObj [(''level'', VStr ''E5'')]])]) [VNull]) ''CONFIRMED'' None = None"
  by (rule evidence_monotone) code_simp+

section \<open>Paths of the status machine\<close>



section \<open>A stale decision hides the evidence\<close>

text \<open>The gate trusts a recorded \<open>priceable = false\<close> only while the log agrees, but then it does not look at
  the evidence either: a finding that does hold a price at E7 is told that it has none.\<close>

lemma stale_decision_hides_price:
  assumes "economic status (class_of finding)" "UnpriceableDecision finding \<noteq> None"
    and "\<not> unpriceableAgreesWithLog campaign finding"
  shows "EvidenceDeficit finding status campaign \<noteq> None"
proof -
  let ?price = "\<lparr>Types = Some price_types, MinLevel = ''E7'', Decision = ''unpriceable''\<rparr>"
  have "\<not> clause_counts campaign finding ?price" using assms(2,3) by (auto simp: clause_counts_price)
  then show ?thesis using assms(1) by (auto simp: EvidenceDeficit_def Let_def GateRequirements_cases)
qed

definition drifted_finding :: "value" where
  "drifted_finding = VObj [(''finding_id'', VStr ''F-1''), (''root_cause'', VObj [(''class'', VStr ''flash-loan'')]),
     (''evidence'', VArr [VObj [(''level'', VStr ''E4''), (''type'', VStr ''unit-test'')],
        VObj [(''level'', VStr ''E7''), (''type'', VStr ''manual'')]]),
     (''economic_impact'', VObj [(''priceable'', VBool False), (''ceiling'', VStr ''pool'')])]"

lemma drifted_finding_refused:
  "attests (items (evidence_of drifted_finding)) price_types E7 \<and>
   EvidenceDeficit drifted_finding ''CONFIRMED'' (Some (ev0, w0)) \<noteq> None"
proof (intro conjI stale_decision_hides_price)
  show "attests (items (evidence_of drifted_finding)) price_types E7"
    "economic ''CONFIRMED'' (class_of drifted_finding)" by code_simp+
  have "TrimSpace ''pool'' \<noteq> []"
    by (simp add: TrimSpace_def rune_segments.simps decode_rune_def isSpace_def)
  then show "UnpriceableDecision drifted_finding \<noteq> None"
    by (simp add: UnpriceableDecision_def drifted_finding_def asDict_def)
  have "healthy ev0 (st_with []) [] w0" by (rule settled_healthy [OF settled_w0])
  then have "Events w0 = (Inr [], w0)" by (intro Events_clean) (simp_all add: healthy_def)
  then have "fst (Events w0) = Inr []" by simp
  then show "\<not> unpriceableAgreesWithLog (Some (ev0, w0)) drifted_finding"
    by (simp add: unpriceableAgreesWithLog_def)
qed

end
