(* ===== verification/FindingStore.thy ===== *)
theory FindingStore
  imports Gates Names "HOL-Library.Product_Lexorder"
begin

text \<open>
  The finding files of a campaign and the one way to change them
  (\<^verbatim>\<open>internal/findings/storage.go\<close>, \<^verbatim>\<open>slot.go\<close>): paths, the validated save,
  the ordered loads, the two save-then-log helpers with their unwind, identifiers, and the discovery
  slot a rising finding is charged. A save that changes the finding it was handed returns the changed
  finding.
\<close>

section \<open>Paths and saves\<close>

definition FindingsDir :: string where "FindingsDir = ''findings''"

definition FindingPath :: "string \<Rightarrow> string" where
  "FindingPath findingID = JoinPath [FindingsDir, findingID @ ''.json'']"

definition SaveFinding :: "env \<Rightarrow> value \<Rightarrow> value op" where
  "SaveFinding ev finding =
     bindE (nowIso ev) (\<lambda>t.
       let f = set_field finding ''updated_at'' (VStr t) in
       bindE (Validate ev f ''finding'') (\<lambda>_.
         let fid = ObjStr f ''finding_id'' in
         if fid = [] then fail (ERefused ''finding_id'' [])
         else bindE (WriteJson ev (FindingPath fid) f []) (\<lambda>_. ret f)))"

text \<open>\<open>os.Stat\<close> only asks whether the file is there.\<close>

definition stat_file :: "string \<Rightarrow> unit op" where
  "stat_file p w = (if kv_find (files w) p = None then (Inl (ENotExist p), w) else (Inr (), w))"

definition LoadFinding :: "env \<Rightarrow> string \<Rightarrow> value op" where
  "LoadFinding ev findingID =
     (let p = FindingPath findingID in
      catchE (stat_file p) (\<lambda>r. case r of
          Inl _ \<Rightarrow> fail (ERefused ''no finding'' [PyReprStr findingID, CampaignID ev])
        | Inr _ \<Rightarrow> ReadJson p))"

text \<open>\<open>ListPrefixed\<close> of the findings directory: its files named \<open>F-\<close>\dots\<open>.json\<close>, sorted; whether the
  directory can be listed at all is an answer of the operating system.\<close>

definition has_prefix :: "string \<Rightarrow> string \<Rightarrow> bool" where
  "has_prefix p s \<longleftrightarrow> take (length p) s = p"

definition has_suffix :: "string \<Rightarrow> string \<Rightarrow> bool" where
  "has_suffix p s \<longleftrightarrow> has_prefix (rev p) (rev s)"

text \<open>\<open>strings.Contains\<close>.\<close>

fun contains :: "string \<Rightarrow> string \<Rightarrow> bool" where
  "contains [] sub = has_prefix sub []"
| "contains (c # cs) sub = (if has_prefix sub (c # cs) then True else contains cs sub)"

definition in_dir :: "string \<Rightarrow> string \<Rightarrow> string option" where
  "in_dir d p = (if has_prefix (d @ [slash]) p \<and> slash \<notin> set (drop (length d + 1) p)
                 then Some (drop (length d + 1) p) else None)"

definition ListPrefixedOptional :: "bool \<Rightarrow> string \<Rightarrow> string \<Rightarrow> string \<Rightarrow> string list op" where
  "ListPrefixedOptional listable d prefix suffix w =
     (if \<not> listable then (Inl (EAccess d), w)
      else (Inr (sort (filter (\<lambda>p. case in_dir d p of None \<Rightarrow> False
                  | Some name \<Rightarrow> has_prefix prefix name \<and> has_suffix suffix name) (map fst (files w)))), w))"

fun read_all :: "string list \<Rightarrow> value list op" where
  "read_all [] = ret []"
| "read_all (p # ps) = bindE (ReadJson p) (\<lambda>v. bindE (read_all ps) (\<lambda>vs. ret (v # vs)))"

definition finding_order :: "value \<Rightarrow> string \<times> string" where
  "finding_order f = (ObjStr f ''created_at'', ObjStr f ''finding_id'')"

definition LoadAllFindings :: "bool \<Rightarrow> value list op" where
  "LoadAllFindings listable =
     catchE (ListPrefixedOptional listable FindingsDir ''F-'' ''.json'') (\<lambda>r. case r of
         Inl e \<Rightarrow> fail (ERefused ''the findings store cannot be listed'' [FindingsDir])
       | Inr matches \<Rightarrow> bindE (read_all matches) (\<lambda>out. ret (sort_key finding_order out)))"

definition is_live :: "value \<Rightarrow> bool" where
  "is_live f = (let s = ObjStr f ''status'' in
     \<not> (s = ''DUPLICATE'' \<or> s = ''OUT_OF_SCOPE'' \<or> s = ''SUPERSEDED''))"

definition LoadLiveFindings :: "bool \<Rightarrow> value list op" where
  "LoadLiveFindings listable = bindE (LoadAllFindings listable) (\<lambda>all. ret (filter is_live all))"

section \<open>Identifiers\<close>

text \<open>The sixteen random bytes are given; the pinned stream is driven by its counter.\<close>

definition newRandomFindingID :: "nat list \<Rightarrow> string" where
  "newRandomFindingID b = ''F-'' @ take 12 (HexEncode (uuid4_bits b))"

section \<open>Save, then log\<close>

definition prevBytes :: "string \<Rightarrow> string option op" where
  "prevBytes p = catchE (ReadFile p) (\<lambda>r. case r of
       Inl e \<Rightarrow> if is_not_exist e then ret None else fail e
     | Inr raw \<Rightarrow> ret (Some raw))"

definition restoreBytes :: "string \<Rightarrow> string option \<Rightarrow> unit op" where
  "restoreBytes p prev = (case prev of None \<Rightarrow> remove_file p | Some raw \<Rightarrow> write_file p raw)"

definition restore_after :: "string \<Rightarrow> string option \<Rightarrow> error \<Rightarrow> 'a op" where
  "restore_after p prev e = catchE (restoreBytes p prev) (\<lambda>r. case r of
       Inl e2 \<Rightarrow> fail (EUnwindFailed e e2)
     | Inr _ \<Rightarrow> fail e)"

definition SaveThenLog :: "env \<Rightarrow> value \<Rightarrow> (value \<Rightarrow> 'a op) \<Rightarrow> value op" where
  "SaveThenLog ev finding logf =
     (let p = FindingPath (ObjStr finding ''finding_id'') in
      bindE (prevBytes p) (\<lambda>prev.
      bindE (SaveFinding ev finding) (\<lambda>f.
        catchE (logf f) (\<lambda>r. case r of
            Inl e \<Rightarrow> restore_after p prev e
          | Inr _ \<Rightarrow> ret f))))"

text \<open>The same for several findings and one event. The first loop stops at the first save that fails and
  puts the earlier files back, whatever becomes of that; the last one collects the ids of the files that
  could not be put back.\<close>

fun snap_all :: "value list \<Rightarrow> (string \<times> string option \<times> string) list op" where
  "snap_all [] = ret []"
| "snap_all (f # fs) =
     (let fid = ObjStr f ''finding_id''; p = FindingPath fid in
      bindE (prevBytes p) (\<lambda>prev. bindE (snap_all fs) (\<lambda>snaps. ret ((p, prev, fid) # snaps))))"

fun restore_quietly :: "(string \<times> string option \<times> string) list \<Rightarrow> unit op" where
  "restore_quietly [] = ret ()"
| "restore_quietly ((p, prev, fid) # snaps) = catchE (restoreBytes p prev) (\<lambda>_. restore_quietly snaps)"

fun restore_failures :: "(string \<times> string option \<times> string) list \<Rightarrow> string list op" where
  "restore_failures [] = ret []"
| "restore_failures ((p, prev, fid) # snaps) =
     catchE (restoreBytes p prev) (\<lambda>r. bindE (restore_failures snaps) (\<lambda>failed.
       ret (case r of Inl _ \<Rightarrow> fid # failed | Inr _ \<Rightarrow> failed)))"

fun save_all :: "env \<Rightarrow> (string \<times> string option \<times> string) list \<Rightarrow> nat \<Rightarrow> value list \<Rightarrow> value list op" where
  "save_all ev snaps i [] = ret []"
| "save_all ev snaps i (f # fs) =
     catchE (SaveFinding ev f) (\<lambda>r. case r of
         Inl e \<Rightarrow> bindE (restore_quietly (take i snaps)) (\<lambda>_. fail e)
       | Inr f' \<Rightarrow> bindE (save_all ev snaps (Suc i) fs) (\<lambda>fs'. ret (f' # fs')))"

definition SaveThenLogMany :: "env \<Rightarrow> value list \<Rightarrow> (value list \<Rightarrow> 'a op) \<Rightarrow> value list op" where
  "SaveThenLogMany ev fs logf =
     bindE (snap_all fs) (\<lambda>snaps.
     bindE (save_all ev snaps 0 fs) (\<lambda>fs'.
       catchE (logf fs') (\<lambda>r. case r of
           Inl e \<Rightarrow> bindE (restore_failures snaps) (\<lambda>failed.
               if failed \<noteq> [] then fail (EUnwindFailed e (ERefused ''UNWIND INCOMPLETE'' failed)) else fail e)
         | Inr _ \<Rightarrow> ret fs')))"

section \<open>Discovery slots\<close>

text \<open>The lint run stops before the counter is written and stamps the flag all the same.\<close>

definition chargeSlot :: "env \<Rightarrow> bool \<Rightarrow> value \<Rightarrow> value op" where
  "chargeSlot ev lint finding =
     (if objBool finding ''discovery_slot_consumed'' then ret finding
      else bindE (Budget ev) (\<lambda>budget.
        if vI (ObjAt budget ''discovery_findings_so_far'') \<ge> vI (ObjAt budget ''max_discovery_findings'')
        then fail (ERefused ''discovery budget exhausted'' [CampaignID ev])
        else bindE (if \<not> lint then ConsumeDiscoverySlot ev else ret ()) (\<lambda>_.
               ret (set_field finding ''discovery_slot_consumed'' (VBool True)))))"

definition ConsumeSlotOnce :: "env \<Rightarrow> value \<Rightarrow> value op" where
  "ConsumeSlotOnce ev finding = chargeSlot ev False finding"

text \<open>The loop looks for an item above the baseline; unknown levels are passed over.\<close>

definition rose_before :: "value list \<Rightarrow> bool" where
  "rose_before es \<longleftrightarrow> list_ex (\<lambda>it. case LevelIndex (ObjStr it ''level'') of
     Inl _ \<Rightarrow> False | Inr prev \<Rightarrow> levelIndexValue ''E0'' < prev) es"

definition risesAboveBaseline :: "value \<Rightarrow> string \<Rightarrow> bool" where
  "risesAboveBaseline finding level =
     (case LevelIndex level of
        Inl _ \<Rightarrow> False
      | Inr li \<Rightarrow>
          if li \<le> levelIndexValue ''E0'' then False
          else if rose_before (evidence_of finding) then False
          else \<not> objBool finding ''discovery_slot_consumed'')"

end
