(* ===== verification/SnapTrust.thy ===== *)
theory SnapTrust
  imports Snapshots RowLog FindingStore
begin

text \<open>
  What a finding owes to the active pin, and the attachments of a pin
  (\<^verbatim>\<open>internal/snapshot/compat.go\<close>): the trust gate that compares a finding's source pin with the
  campaign's, and the two writers that put a deployment or a chain on a pinned snapshot, whose file and
  event land together or not at all. The recomputation of the manifest (\<^verbatim>\<open>manifest.go\<close>) reads the
  pinned sources and is an argument.
\<close>

section \<open>The trust gate\<close>

definition Canonical :: "value \<Rightarrow> string" where "Canonical v = CanonCompact v"

definition valuesEqual :: "value \<Rightarrow> value \<Rightarrow> bool" where
  "valuesEqual a b = (if vkind a \<noteq> vkind b then False else Canonical a = Canonical b)"

definition findingIDString :: "value \<Rightarrow> string" where
  "findingIDString finding = (let v = ObjAt finding ''finding_id'' in
     case vkind v of KStr \<Rightarrow> vS v | KNull \<Rightarrow> ''None'' | _ \<Rightarrow> PyRepr v)"

definition mismatch_text :: "value \<Rightarrow> value \<Rightarrow> value \<Rightarrow> string" where
  "mismatch_text finding src active = ''finding '' @ findingIDString finding @ '' was discovered against '' @ PyRepr src
     @ '' but campaign is pinned to '' @ PyRepr active @ ''; re-verify instead of trusting''"

definition SnapshotMismatch :: "string \<Rightarrow> error" where
  "SnapshotMismatch m = ERefused ''SnapshotMismatch'' [m]"

definition AssertSnapshotCompatible :: "env \<Rightarrow> value \<Rightarrow> bool \<Rightarrow> bool op" where
  "AssertSnapshotCompatible ev finding strict = bindE (ActiveSnapshot ev) (\<lambda>active.
     let src = ObjAt (ObjAt finding ''snapshot_ids'') ''source''; act = ObjAt active ''snapshot_id'' in
     if vkind active \<noteq> KObj \<or> vO active = [] then ret True
     else if valuesEqual src act then ret True
     else if strict then fail (SnapshotMismatch (mismatch_text finding src act))
     else ret False)"

definition ReverifyRequired :: "value \<Rightarrow> string option \<Rightarrow> bool" where
  "ReverifyRequired finding activeSnapshotID = (case activeSnapshotID of
       None \<Rightarrow> False
     | Some sid \<Rightarrow> \<not> valuesEqual (ObjAt (ObjAt finding ''snapshot_ids'') ''source'') (VStr sid))"

text \<open>The strict gate passes exactly on agreement, or when nothing is pinned.\<close>

definition pin_agrees :: "env \<Rightarrow> value \<Rightarrow> world \<Rightarrow> bool" where
  "pin_agrees ev finding w \<longleftrightarrow> (\<exists>active. fst (ActiveSnapshot ev w) = Inr active \<and>
     (vkind active \<noteq> KObj \<or> vO active = [] \<or>
      valuesEqual (ObjAt (ObjAt finding ''snapshot_ids'') ''source'') (ObjAt active ''snapshot_id'')))"

lemma pin_agrees: "(\<exists>b. fst (AssertSnapshotCompatible ev finding True w) = Inr b) \<longleftrightarrow> pin_agrees ev finding w"
  by (cases "ActiveSnapshot ev w") (auto simp: AssertSnapshotCompatible_def pin_agrees_def bindE_def fail_def ret_def Let_def
      split: sum.splits)

section \<open>Attachments\<close>

text \<open>A directory is there when a file lies under it.\<close>

definition dir_exists :: "string \<Rightarrow> world \<Rightarrow> bool" where
  "dir_exists d w \<longleftrightarrow> list_ex (\<lambda>e. has_prefix (d @ [slash]) (fst e)) (files w)"

definition snap_dir :: "string \<Rightarrow> string" where
  "snap_dir snapshotID = JoinPath [''snapshots'', snapshotID]"

definition snapPath :: "string \<Rightarrow> string op" where
  "snapPath snapshotID w = (let d = snap_dir snapshotID in
     if \<not> dir_exists d w then (Inl (ERefused ''no pinned snapshot in this campaign'' [PyReprStr snapshotID]), w)
     else (Inr (JoinPath [d, ''snapshot.json'']), w))"

definition pinThenLog :: "string \<Rightarrow> unit op \<Rightarrow> 'a op \<Rightarrow> 'a op" where
  "pinThenLog p write logf = with_lock
     (catchE (ReadFile p) (\<lambda>r.
        let go = (\<lambda>prev. catchE write (\<lambda>rw. case rw of
                     Inl e \<Rightarrow> fail_row p prev e
                   | Inr _ \<Rightarrow> catchE logf (\<lambda>rl. case rl of
                         Inl e \<Rightarrow> fail_row p prev e
                       | Inr x \<Rightarrow> ret x)))
        in case r of
             Inl e \<Rightarrow> if is_not_exist e then go None else fail e
           | Inr raw \<Rightarrow> go (Some raw)))"

type_synonym refresher = "value \<Rightarrow> string \<Rightarrow> world \<Rightarrow> error + value"

definition deployment_data :: "value \<Rightarrow> value" where
  "deployment_data deployment = (let contracts = ObjAt deployment ''contracts'' in
     VObj [(''contracts'', VInt (if vkind contracts = KArr then int (length (vA contracts)) else 0)),
           (''network'', ObjAt deployment ''network'')])"

definition AttachDeploymentPin :: "refresher \<Rightarrow> env \<Rightarrow> string \<Rightarrow> value \<Rightarrow> value op" where
  "AttachDeploymentPin refreshManifest ev snapshotID deployment =
     bindE (snapPath snapshotID) (\<lambda>p.
     bindE (ReadJson p) (\<lambda>snap0.
     bindE (\<lambda>w. (refreshManifest (set_field snap0 ''deployment'' deployment) (snap_dir snapshotID) w, w)) (\<lambda>snap.
     bindE (pinThenLog p (WriteJson ev p snap ''snapshot'')
              (Log ev ''snapshot.deployment_attached'' (Some snapshotID) (Some (deployment_data deployment)))) (\<lambda>_.
       ret snap))))"

definition chain_data :: "value \<Rightarrow> value" where
  "chain_data chain = VObj [(''fork_block'', ObjAt chain ''fork_block'')]"

definition AttachChainPin :: "refresher \<Rightarrow> env \<Rightarrow> string \<Rightarrow> value \<Rightarrow> value op" where
  "AttachChainPin refreshManifest ev snapshotID chain =
     bindE (snapPath snapshotID) (\<lambda>p.
     bindE (ReadJson p) (\<lambda>snap0.
     bindE (\<lambda>w. (refreshManifest (set_field snap0 ''chain'' chain) (snap_dir snapshotID) w, w)) (\<lambda>snap.
     bindE (pinThenLog p (WriteJson ev p snap ''snapshot'')
              (Log ev ''snapshot.chain_attached'' (Some snapshotID) (Some (chain_data chain)))) (\<lambda>_.
       ret snap))))"

end
