(* ===== verification/Capabilities.thy ===== *)
theory Capabilities
  imports FindingStore
begin

text \<open>
  The vocabulary of attacker capabilities (\<^verbatim>\<open>internal/capabilities/capabilities.go\<close>): canonical
  labels, their kinds, roles, and what a finding adds to what the attacker holds. The Unicode case
  mapping of the standard library is an argument.
\<close>

section \<open>Labels\<close>

text \<open>\<open>strings.FieldsFunc\<close> over the runes of a string.\<close>

fun fields_from :: "(nat \<Rightarrow> bool) \<Rightarrow> string \<Rightarrow> (nat \<times> string) list \<Rightarrow> string list" where
  "fields_from P cur [] = (if cur = [] then [] else [cur])"
| "fields_from P cur ((r, b) # segs) =
     (if P r then (if cur = [] then fields_from P [] segs else cur # fields_from P [] segs)
      else fields_from P (cur @ b) segs)"

definition pySplit :: "string \<Rightarrow> string list" where
  "pySplit s = fields_from PyIsSpace [] (rune_segments s)"

definition dash_to_space :: "string \<Rightarrow> string" where
  "dash_to_space s = map (\<lambda>c. if c = CHR ''-'' then CHR '' '' else c) s"

definition NormalizeLabel :: "(string \<Rightarrow> string) \<Rightarrow> string \<Rightarrow> string" where
  "NormalizeLabel lower v = join ''_'' (pySplit (dash_to_space (lower v)))"

text \<open>The loop keeps first occurrences and sorts at the end.\<close>

definition NormalizeLabels :: "(string \<Rightarrow> string) \<Rightarrow> string list \<Rightarrow> string list" where
  "NormalizeLabels lower vs =
     sort (foldl (\<lambda>out v. if PyStrip v = [] then out
                          else let n = NormalizeLabel lower v in if n \<in> set out then out else out @ [n]) [] vs)"

definition RoleLabel :: "(string \<Rightarrow> string) \<Rightarrow> string \<Rightarrow> string" where
  "RoleLabel lower role = NormalizeLabel lower (''role '' @ role)"

definition IsRoleLabel :: "(string \<Rightarrow> string) \<Rightarrow> string \<Rightarrow> bool" where
  "IsRoleLabel lower label =
     (let n = NormalizeLabel lower label in has_prefix ''role_'' n \<and> length n > length ''role_'')"

definition RoleFromLabel :: "(string \<Rightarrow> string) \<Rightarrow> string \<Rightarrow> string option" where
  "RoleFromLabel lower label =
     (if \<not> IsRoleLabel lower label then None else Some (drop (length ''role_'') (NormalizeLabel lower label)))"

section \<open>Kinds\<close>

definition KINDS :: "string list" where
  "KINDS = [''authority'', ''state'', ''market'', ''asset'', ''information'', ''execution'', ''timing'', ''liveness'']"

definition COMMON :: "(string \<times> string list) list" where
  "COMMON =
     [(''authority'', [''call_any_entry_point'', ''hold_governor'', ''hold_pauser'', ''hold_oracle_updater'',
         ''set_implementation'', ''grant_role'']),
      (''state'', [''write_accounting_state'', ''force_liquidation'', ''skip_initialization'', ''reopen_closed_position'',
         ''control_protocol_pause'']),
      (''market'', [''move_spot_price'', ''control_perceived_asset_price'', ''access_flash_liquidity'', ''manipulate_pool_depth'']),
      (''asset'', [''withdraw_unbacked_assets'', ''extract_protocol_liquidity'', ''retain_extracted_funds'', ''drain_treasury'',
         ''steal_pending_rewards'']),
      (''information'', [''read_private_state'', ''front_run_internal_call'']),
      (''execution'', [''trigger_callback'', ''delegatecall_attacker_code'', ''reenter_victim'']),
      (''timing'', [''act_within_cooldown'', ''win_auction'', ''cross_epoch_boundary'']),
      (''liveness'', [''liveness_loss''])]"

definition TERMINAL_KINDS :: "string list" where
  "TERMINAL_KINDS = [''asset'', ''liveness'']"

definition KindOf :: "(string \<Rightarrow> string) \<Rightarrow> string \<Rightarrow> string option" where
  "KindOf lower label =
     (if IsRoleLabel lower label then Some ''authority''
      else find (\<lambda>kind. NormalizeLabel lower label \<in> set (map_set COMMON kind)) KINDS)"

definition IsTerminalLabel :: "(string \<Rightarrow> string) \<Rightarrow> string \<Rightarrow> bool" where
  "IsTerminalLabel lower label = (case KindOf lower label of None \<Rightarrow> False | Some kind \<Rightarrow> inSet TERMINAL_KINDS kind)"

definition IsLivenessTerminal :: "(string \<Rightarrow> string) \<Rightarrow> string \<Rightarrow> bool" where
  "IsLivenessTerminal lower label \<longleftrightarrow> KindOf lower label = Some ''liveness''"

definition IsEconomicTerminal :: "(string \<Rightarrow> string) \<Rightarrow> string \<Rightarrow> bool" where
  "IsEconomicTerminal lower label \<longleftrightarrow> KindOf lower label = Some ''asset''"

section \<open>Granted, required, gained\<close>

definition strList :: "value \<Rightarrow> string list" where
  "strList v =
     (if vkind v = KArr then map (\<lambda>e. if vkind e = KStr then vS e else PyRepr e) (vA v)
      else if vkind v = KStr then map encode_rune (runes (vS v)) else [])"

definition Granted :: "(string \<Rightarrow> string) \<Rightarrow> value \<Rightarrow> string list" where
  "Granted lower finding = NormalizeLabels lower (strList (ObjAt (ObjAt finding ''capabilities'') ''granted''))"

definition Required :: "(string \<Rightarrow> string) \<Rightarrow> value \<Rightarrow> string list" where
  "Required lower finding =
     (let req = strList (ObjAt (ObjAt finding ''capabilities'') ''required'') in
      if req \<noteq> [] then NormalizeLabels lower req else NormalizeLabels lower (strList (ObjAt finding ''preconditions'')))"

definition keysOf :: "string list \<Rightarrow> string list" where
  "keysOf s = sort (remdups s)"

definition CapabilityDelta :: "(string \<Rightarrow> string) \<Rightarrow> value \<Rightarrow> value" where
  "CapabilityDelta lower finding =
     (let before = Required lower finding; after = remdups (Granted lower finding) in
      VObj [(''gained'', StrArr (sort (filter (\<lambda>a. a \<notin> set before) after))),
            (''retained'', StrArr (sort (filter (\<lambda>a. a \<in> set before) after))),
            (''required'', StrArr (keysOf before)),
            (''kinds'', StrArr (keysOf (List.map_filter (KindOf lower) after))),
            (''unclassified'', StrArr (sort (filter (\<lambda>a. KindOf lower a = None) after)))])"

section \<open>Facts\<close>

text \<open>No label of the starter vocabulary has two kinds, so the order of the search does not matter for them.\<close>

lemma COMMON_distinct: "distinct (concat (map snd COMMON))"
  by code_simp

lemma NormalizeLabels_distinct: "distinct (NormalizeLabels lower vs)"
proof -
  let ?step = "\<lambda>out v. if PyStrip v = [] then out else let n = NormalizeLabel lower v in if n \<in> set out then out else out @ [n]"
  have "distinct (foldl ?step out vs)" if "distinct out" for out
    using that by (induction vs arbitrary: out) (auto simp: Let_def)
  then show ?thesis by (simp add: NormalizeLabels_def)
qed

lemma set_NormalizeLabels:
  "set (NormalizeLabels lower vs) = NormalizeLabel lower ` {v \<in> set vs. PyStrip v \<noteq> []}"
proof -
  let ?step = "\<lambda>out v. if PyStrip v = [] then out else let n = NormalizeLabel lower v in if n \<in> set out then out else out @ [n]"
  have "set (foldl ?step out vs) = set out \<union> NormalizeLabel lower ` {v \<in> set vs. PyStrip v \<noteq> []}" for out
    by (induction vs arbitrary: out) (auto simp: Let_def)
  then show ?thesis by (simp add: NormalizeLabels_def)
qed

end
