(* ===== verification/Relevance.thy ===== *)
theory Relevance
  imports Capabilities
begin

text \<open>
  Does a recalled memory row have anything to do with the finding (\<^verbatim>\<open>internal/findings/relevance.go\<close>):
  structural tags on both sides, their overlap under the rule about the catch-all class, and the honest
  reasons for having none. The two case mappings (the standard library's and the one of
  \<^verbatim>\<open>golang.org/x/text\<close>) are the fields of a record.
\<close>

record casing =
  ToLower :: "string \<Rightarrow> string"
  pyLower :: "string \<Rightarrow> string"

definition sortedSetKeys :: "string list \<Rightarrow> string list" where
  "sortedSetKeys s = sort (remdups s)"

section \<open>Tags\<close>

definition RelevanceBases :: "string list" where
  "RelevanceBases = [''bug_class'', ''capability'', ''cwe'']"

definition CATCH_ALL_BUG_CLASS :: string where "CATCH_ALL_BUG_CLASS = ''logic-error''"

definition CoarseClassRule :: string where
  "CoarseClassRule = ''bug_class alone counts as overlap unless it is the taxonomy catch-all ('' @ CATCH_ALL_BUG_CLASS
     @ ''); a catch-all match needs a second basis (capability/cwe)''"

definition GAP_NO_SHARED_TAG :: string where "GAP_NO_SHARED_TAG = ''no-shared-structural-tag''"
definition GAP_SHARED_CATCH_ALL_ONLY :: string where "GAP_SHARED_CATCH_ALL_ONLY = ''shared-catch-all-class-only''"
definition GAP_NO_ROWS_CITED :: string where "GAP_NO_ROWS_CITED = ''no-rows-cited''"

definition NondiscriminativeClasses :: "string list" where
  "NondiscriminativeClasses = [CATCH_ALL_BUG_CLASS]"

definition pyStripLower :: "casing \<Rightarrow> string \<Rightarrow> string" where
  "pyStripLower lc s = pyLower lc (PyStrip s)"

definition normTag :: "casing \<Rightarrow> value \<Rightarrow> string" where
  "normTag lc v = (if \<not> PyTruthy v then [] else pyStripLower lc (PyStr v))"

definition normCapValues :: "casing \<Rightarrow> value \<Rightarrow> string list" where
  "normCapValues lc v =
     (if vkind v = KStr then NormalizeLabels (ToLower lc) [vS v]
      else if vkind v = KArr then NormalizeLabels (ToLower lc) (map PyStr (vA v))
      else [])"

text \<open>The Go map from a basis to its tags; an absent basis has no entry.\<close>

definition FindingRelevanceTags :: "casing \<Rightarrow> value \<Rightarrow> (string \<times> string list) list" where
  "FindingRelevanceTags lc finding =
     (let root = asDict (ObjAt finding ''root_cause'');
          cls = normTag lc (ObjAt root ''class'');
          cwe0 = normTag lc (ObjAt root ''cwe'');
          cwe = (if cwe0 = [] then normTag lc (ObjAt finding ''cwe'') else cwe0);
          caps = asDict (ObjAt finding ''capabilities'');
          labels = normCapValues lc (ObjAt caps ''granted'') @ normCapValues lc (ObjAt caps ''required'')
      in (if cls \<noteq> [] then [(''bug_class'', [cls])] else [])
       @ (if cwe \<noteq> [] then [(''cwe'', [cwe])] else [])
       @ (if labels \<noteq> [] then [(''capability'', sortedSetKeys labels)] else []))"

definition MemoryRowRelevanceTags :: "casing \<Rightarrow> value \<Rightarrow> (string \<times> string list) list" where
  "MemoryRowRelevanceTags lc row =
     (let cls = normTag lc (ObjAt row ''bug_class'');
          cwe = normTag lc (ObjAt row ''cwe'');
          trm = ObjAt row ''terminal'';
          labels = normCapValues lc (ObjAt row ''granted'') @ normCapValues lc (ObjAt row ''required'')
            @ (if PyTruthy trm then normCapValues lc (VArr [trm]) else [])
      in (if cls \<noteq> [] then [(''bug_class'', [cls])] else [])
       @ (if cwe \<noteq> [] then [(''cwe'', [cwe])] else [])
       @ (if labels \<noteq> [] then [(''capability'', sortedSetKeys labels)] else []))"

section \<open>Overlap\<close>

definition intersects :: "string list \<Rightarrow> string list \<Rightarrow> bool" where
  "intersects a b = list_ex (\<lambda>s. s \<in> set b) a"

definition sortedIntersect :: "string list \<Rightarrow> string list \<Rightarrow> string list" where
  "sortedIntersect a b = sort (filter (\<lambda>s. s \<in> set b) a)"

definition withoutStr :: "string list \<Rightarrow> string \<Rightarrow> string list" where
  "withoutStr xs drp = filter (\<lambda>s. s \<noteq> drp) xs"

definition allInSet :: "string list \<Rightarrow> string list \<Rightarrow> bool" where
  "allInSet xs s = list_all (\<lambda>x. x \<in> set s) xs"

definition fired_bases :: "(string \<times> string list) list \<Rightarrow> (string \<times> string list) list \<Rightarrow> string list" where
  "fired_bases fTags rTags = filter (\<lambda>b. case kv_find fTags b of None \<Rightarrow> False
     | Some ft \<Rightarrow> (case kv_find rTags b of None \<Rightarrow> False | Some rt \<Rightarrow> intersects ft rt)) RelevanceBases"

text \<open>The bug-class matches of a row, and whether they are all too coarse to count alone.\<close>

definition class_matches :: "(string \<times> string list) list \<Rightarrow> (string \<times> string list) list \<Rightarrow> string list" where
  "class_matches fTags rTags = sortedIntersect (map_set fTags ''bug_class'') (map_set rTags ''bug_class'')"

definition coarse_match :: "(string \<times> string list) list \<Rightarrow> (string \<times> string list) list \<Rightarrow> bool" where
  "coarse_match fTags rTags \<longleftrightarrow> ''bug_class'' \<in> set (fired_bases fTags rTags) \<and> class_matches fTags rTags \<noteq> [] \<and>
     allInSet (class_matches fTags rTags) NondiscriminativeClasses"

text \<open>One row of the loop: the bases that count, and the coarse match that was set aside.\<close>

definition row_verdict :: "casing \<Rightarrow> (string \<times> string list) list \<Rightarrow> value \<Rightarrow> string list \<times> string list" where
  "row_verdict lc fTags row =
     (let rTags = MemoryRowRelevanceTags lc row; fired = fired_bases fTags rTags in
      if fired = [] then ([], [])
      else if coarse_match fTags rTags
        then (withoutStr fired ''bug_class'', [''bug_class='' @ hd (class_matches fTags rTags)])
      else (fired, []))"

fun relevance_loop ::
    "casing \<Rightarrow> (string \<times> string list) list \<Rightarrow> (string \<times> value) list \<Rightarrow> string list
      \<Rightarrow> string list \<times> string list \<times> string list \<Rightarrow> string list \<times> string list \<times> string list" where
  "relevance_loop lc fTags rows [] acc = acc"
| "relevance_loop lc fTags rows (mid # mids) (overlapping, basis, discounted) =
     (case kv_find rows mid of
        None \<Rightarrow> relevance_loop lc fTags rows mids (overlapping, basis, discounted)
      | Some row \<Rightarrow>
          if vkind row \<noteq> KObj then relevance_loop lc fTags rows mids (overlapping, basis, discounted)
          else (let (fired, disc) = row_verdict lc fTags row in
                if fired = [] then relevance_loop lc fTags rows mids (overlapping, basis, discounted @ disc)
                else relevance_loop lc fTags rows mids (overlapping @ [mid], basis @ fired, discounted @ disc)))"

definition MemoryCheckRelevance :: "casing \<Rightarrow> value \<Rightarrow> string list \<Rightarrow> (string \<times> value) list \<Rightarrow> value" where
  "MemoryCheckRelevance lc finding memoryIDs rowsByID =
     (let (overlapping, basis, discounted) =
            relevance_loop lc (FindingRelevanceTags lc finding) rowsByID (sortedSetKeys memoryIDs) ([], [], [])
      in VObj ([(''overlapping'', StrArr overlapping), (''basis'', StrArr (sortedSetKeys basis))]
        @ (if discounted \<noteq> [] then [(''discounted'', StrArr (sortedSetKeys discounted)), (''rule'', VStr CoarseClassRule)]
           else [])))"

section \<open>Reasons\<close>

text \<open>Ranging over the Go map visits the bases in any order; the sort makes the order immaterial.\<close>

definition LineageTags :: "casing \<Rightarrow> value \<Rightarrow> string list" where
  "LineageTags lc finding = sort (concat (map (\<lambda>bv. map (\<lambda>v. fst bv @ ''='' @ v) (snd bv)) (FindingRelevanceTags lc finding)))"

definition second_bases :: string where
  "second_bases = join ''/'' (filter (\<lambda>b. b \<noteq> ''bug_class'') RelevanceBases)"

definition IrrelevantReason :: "value \<Rightarrow> string list \<Rightarrow> string \<times> string" where
  "IrrelevantReason relevance memoryIDs =
     (let discounted = ObjAt relevance ''discounted'' in
      if vkind discounted = KArr \<and> vA discounted \<noteq> [] then
        (GAP_SHARED_CATCH_ALL_ONLY, ''cited row(s) share only a non-discriminative class label (''
           @ join '', '' (map PyStr (vA discounted)) @ '') with this finding '' @ encode_rune 0x2014
           @ '' the corpus holds rows in that class, but the label alone is not lineage overlap and needs a second basis (''
           @ second_bases @ '')'')
      else if memoryIDs = [] then
        (GAP_NO_ROWS_CITED, ''the check cited no rows '' @ encode_rune 0x2014
           @ '' nothing was consulted, so the corpus has not been asked about this lineage'')
      else
        (GAP_NO_SHARED_TAG, ''cited row(s) share no structural tag ('' @ join '', '' RelevanceBases @ '') with this finding ''
           @ encode_rune 0x2014 @ '' the corpus is silent on this lineage''))"

section \<open>The report of the brief\<close>

definition memory_checks_of :: "value \<Rightarrow> value list" where
  "memory_checks_of f = (let checks = ObjAt (asDict (ObjAt f ''provenance'')) ''memory_checks''
     in if vkind checks = KArr then filter (\<lambda>c. vkind c = KObj) (vA checks) else [])"

definition recalled_irrelevant :: "value \<Rightarrow> bool" where
  "recalled_irrelevant c = (let v = ObjAt c ''recalled_irrelevant'' in vkind v = KBool \<and> vB v)"

definition discounted_of :: "value \<Rightarrow> value list" where
  "discounted_of c = (let disc = ObjAt (asDict (ObjAt c ''relevance'')) ''discounted''
     in if vkind disc = KArr then vA disc else [])"

definition CorpusRecallGaps :: "bool \<Rightarrow> value op" where
  "CorpusRecallGaps listable = bindE (LoadAllFindings listable) (\<lambda>fs.
     let checks = concat (map memory_checks_of fs);
         bad = filter recalled_irrelevant checks;
         labelOnly = filter (\<lambda>c. discounted_of c \<noteq> []) bad;
         noRows = filter (\<lambda>c. discounted_of c = [] \<and> \<not> PyTruthy (ObjAt c ''memory_ids'')) bad
     in ret (VObj
       [(''checks'', VInt (int (length checks))),
        (''irrelevant_checks'', VInt (int (length bad))),
        (''label_only_checks'', VInt (int (length labelOnly))),
        (''no_rows_checks'', VInt (int (length noRows))),
        (''silent_checks'', VInt (int (length bad) - int (length labelOnly) - int (length noRows))),
        (''discounted'', StrArr (sortedSetKeys (concat (map (\<lambda>c. map PyStr (discounted_of c)) labelOnly)))),
        (''findings'', StrArr (sort (map (\<lambda>f. ObjStr f ''finding_id'')
           (filter (\<lambda>f. list_ex recalled_irrelevant (memory_checks_of f)) fs))))]))"

end
