(* ===== verification/Memory.thy ===== *)
theory Memory
  imports Relevance
begin

text \<open>
  The graph-memory check of a finding (\<^verbatim>\<open>internal/findings/memory.go\<close>): which rows a campaign may
  consult, the digest that stamps a consultation, its record on the finding, the gap signal owed to the
  ledger, and the question the CONFIRMED gate asks. The shared store lies outside the campaign and is a
  function of the world; whether a directory can be listed is an answer of the operating system.
\<close>

record stores =
  sharedMemoryRows :: "world \<Rightarrow> error + value list"
  memoryListable :: bool
  execsListable :: bool
  errString :: "error \<Rightarrow> string"

definition readW :: "(world \<Rightarrow> error + 'a) \<Rightarrow> 'a op" where
  "readW f w = (f w, w)"

definition valueStrings :: "value \<Rightarrow> string list" where
  "valueStrings v = map vS (filter (\<lambda>e. vkind e = KStr) (vA v))"

section \<open>The visible rows\<close>

definition MemoryDir :: string where "MemoryDir = ''memory''"

definition AllMemory :: "bool \<Rightarrow> value list op" where
  "AllMemory listable =
     catchE (ListPrefixedOptional listable MemoryDir ''MEM-'' ''.json'') (\<lambda>r. case r of
         Inl e \<Rightarrow> fail (ERefused ''the memory store cannot be listed'' [MemoryDir])
       | Inr paths \<Rightarrow> read_all paths)"

definition shared_row :: "value \<Rightarrow> value" where
  "shared_row w = (if vkind w = KObj \<and> HasObjKey w ''row'' then ObjAt w ''row'' else w)"

definition add_shared :: "(string \<times> value) list \<Rightarrow> value \<Rightarrow> (string \<times> value) list" where
  "add_shared out w = (let row = shared_row w; mid = ObjStr row ''memory_id''
     in if mid \<noteq> [] then kv_set out mid row else out)"

definition add_learned :: "(string \<times> value) list \<Rightarrow> value \<Rightarrow> (string \<times> value) list" where
  "add_learned out row = (let mid = ObjStr row ''memory_id''
     in if mid \<noteq> [] \<and> kv_find out mid = None then kv_set out mid row else out)"

definition VisibleMemoryRows :: "'a stores_scheme \<Rightarrow> world \<Rightarrow> error + (string \<times> value) list" where
  "VisibleMemoryRows st w =
     bindR (sharedMemoryRows st w) (\<lambda>shared.
     bindR (fst (AllMemory (memoryListable st) w)) (\<lambda>learned.
       Inr (foldl add_learned (foldl add_shared [] shared) learned)))"

section \<open>The digest\<close>

definition canonicalRowHash :: "value \<Rightarrow> string" where
  "canonicalRowHash row = Sha256Hex (CanonSpaced row)"

definition row_pairs :: "string list \<Rightarrow> (string \<times> value) list \<Rightarrow> (string \<times> string) list" where
  "row_pairs memoryIDs rowsByID = List.map_filter (\<lambda>mid.
     map_option (\<lambda>row. (mid, canonicalRowHash row)) (kv_find rowsByID mid)) memoryIDs"

definition pair_value :: "string \<times> string \<Rightarrow> value" where
  "pair_value p = VArr [VStr (fst p), VStr (snd p)]"

definition ComputeRowDigest :: "string list \<Rightarrow> (string \<times> value) list \<Rightarrow> string" where
  "ComputeRowDigest memoryIDs rowsByID =
     Sha256Hex (CanonSpaced (VArr (map pair_value (sort (row_pairs memoryIDs rowsByID)))))"

section \<open>One check\<close>

definition memoryCheckKey :: "string list \<Rightarrow> value \<Rightarrow> string" where
  "memoryCheckKey ids mode = join [CHR 0x00] (sort (remdups ids)) @ [CHR 0x01] @ PyRepr mode"

definition known_mode :: "value \<Rightarrow> bool" where
  "known_mode mode \<longleftrightarrow> vkind mode = KStr \<and> (vS mode = ''negative'' \<or> vS mode = ''comparative'')"

definition corpusGapOwed :: "value \<Rightarrow> bool" where
  "corpusGapOwed entry \<longleftrightarrow>
     (let v = ObjAt entry ''recalled_irrelevant''; rel = ObjAt entry ''relevance''; ov = ObjAt rel ''overlapping'' in
      vkind entry = KObj \<and> vkind v = KBool \<and> vB v \<and> vkind rel = KObj \<and> vkind ov = KArr \<and> vA ov = [])"

definition check_entry :: "casing \<Rightarrow> value \<Rightarrow> string list \<Rightarrow> (string \<times> value) list \<Rightarrow> value \<Rightarrow> string \<Rightarrow> value" where
  "check_entry lc c ids rowsByID finding t =
     (let rel = MemoryCheckRelevance lc finding ids rowsByID; note = ObjAt c ''note'' in
      VObj ([(''memory_ids'', StrArr (sort ids)), (''mode'', ObjAt c ''mode''), (''consulted_at'', VStr t),
             (''row_digest'', VStr (ComputeRowDigest ids rowsByID)), (''relevance'', rel)]
          @ (if vA (ObjAt rel ''overlapping'') = [] then [(''recalled_irrelevant'', VBool True)] else [])
          @ (if PyTruthy note then [(''note'', note)] else [])))"

definition memoryCheckEntry ::
    "casing \<Rightarrow> env \<Rightarrow> value \<Rightarrow> (string \<times> value) list \<Rightarrow> value \<Rightarrow> (string \<times> value \<times> bool) op" where
  "memoryCheckEntry lc ev c rowsByID finding =
     (let ids = valueStrings (ObjAt c ''memory_ids''); mode = ObjAt c ''mode'';
          unknown = filter (\<lambda>mid. kv_find rowsByID mid = None) ids in
      bindE (guard (known_mode mode) (ERefused ''memory check mode'' [PyRepr mode])) (\<lambda>_.
      bindE (guard (unknown = []) (ERefused ''unknown memory id(s)'' unknown)) (\<lambda>_.
      bindE (nowIso ev) (\<lambda>t.
        let entry = check_entry lc c ids rowsByID finding t
        in ret (memoryCheckKey ids mode, entry, corpusGapOwed entry)))))"

fun check_loop ::
    "casing \<Rightarrow> env \<Rightarrow> (string \<times> value) list \<Rightarrow> value \<Rightarrow> value list \<Rightarrow> string list \<Rightarrow> value list \<Rightarrow> nat \<Rightarrow> nat
      \<Rightarrow> (value list \<times> nat \<times> nat) op" where
  "check_loop lc ev rowsByID finding [] seen existing added irrelevant = ret (existing, added, irrelevant)"
| "check_loop lc ev rowsByID finding (c # cs) seen existing added irrelevant =
     bindE (memoryCheckEntry lc ev c rowsByID finding) (\<lambda>(key, entry, owesGap).
       if key \<in> set seen then check_loop lc ev rowsByID finding cs seen existing added irrelevant
       else check_loop lc ev rowsByID finding cs (key # seen) (existing @ [entry]) (Suc added)
              (if owesGap then Suc irrelevant else irrelevant))"

definition checkModes :: "value list \<Rightarrow> string list" where
  "checkModes checks = sortedSetKeys (map (\<lambda>c. let m = ObjAt c ''mode'' in
     if vkind m = KStr \<and> vS m \<noteq> [] then vS m else ''-'') checks)"

section \<open>The gap signal\<close>

definition corpusGapKey :: "string \<Rightarrow> value \<Rightarrow> string" where
  "corpusGapKey findingID entry = findingID @ [CHR 0x01] @ PyRepr (ObjAt entry ''mode'') @ [CHR 0x01]
     @ CanonCompact (StrArr (valueStrings (ObjAt entry ''memory_ids'')))"

definition corpusGapPayload :: "casing \<Rightarrow> value \<Rightarrow> value \<Rightarrow> value" where
  "corpusGapPayload lc finding entry =
     (let ids = valueStrings (ObjAt entry ''memory_ids'');
          (reasonCode, reason) = IrrelevantReason (ObjAt entry ''relevance'') ids
      in VObj [(''finding'', VStr (ObjStr finding ''finding_id'')), (''memory_ids'', StrArr ids),
               (''mode'', ObjAt entry ''mode''), (''lineage'', StrArr (LineageTags lc finding)),
               (''reason_code'', VStr reasonCode), (''reason'', VStr reason)])"

definition is_gap_of :: "string \<Rightarrow> value \<Rightarrow> bool" where
  "is_gap_of findingID e \<longleftrightarrow> ObjStr e ''type'' = ''corpus.gap'' \<and>
     (ObjStr e ''ref'' = findingID \<or> ObjStr (ObjAt e ''data'') ''finding'' = findingID)"

definition loggedCorpusGaps :: "string \<Rightarrow> string list op" where
  "loggedCorpusGaps findingID = bindE Events (\<lambda>events.
     ret (map (\<lambda>e. corpusGapKey findingID (ObjAt e ''data'')) (filter (is_gap_of findingID) events)))"

text \<open>Every owed signal is attempted; the first refusal is the result.\<close>

fun emit_gaps :: "casing \<Rightarrow> env \<Rightarrow> string \<Rightarrow> value \<Rightarrow> string list \<Rightarrow> value list \<Rightarrow> error option \<Rightarrow> unit op" where
  "emit_gaps lc ev findingID finding logged [] firstErr = (case firstErr of None \<Rightarrow> ret () | Some e \<Rightarrow> fail e)"
| "emit_gaps lc ev findingID finding logged (e # es) firstErr =
     (if corpusGapKey findingID e \<in> set logged then emit_gaps lc ev findingID finding logged es firstErr
      else catchE (Log ev ''corpus.gap'' (Some findingID) (Some (corpusGapPayload lc finding e))) (\<lambda>r.
        emit_gaps lc ev findingID finding logged es
          (case r of Inl lerr \<Rightarrow> (if firstErr = None then Some lerr else firstErr) | Inr _ \<Rightarrow> firstErr)))"

definition emitOwedCorpusGaps :: "casing \<Rightarrow> env \<Rightarrow> string \<Rightarrow> value \<Rightarrow> value \<Rightarrow> unit op" where
  "emitOwedCorpusGaps lc ev findingID finding recorded =
     (let owed = filter corpusGapOwed (vA recorded) in
      if owed = [] then ret ()
      else bindE (loggedCorpusGaps findingID) (\<lambda>logged. emit_gaps lc ev findingID finding logged owed None))"

section \<open>The record\<close>

definition check_key_of :: "value \<Rightarrow> string" where
  "check_key_of r = memoryCheckKey (valueStrings (ObjAt r ''memory_ids'')) (ObjAt r ''mode'')"

definition checked_data :: "nat \<Rightarrow> nat \<Rightarrow> value list \<Rightarrow> value" where
  "checked_data added irrelevant checks =
     VObj [(''added'', VInt (int added)), (''irrelevant'', VInt (int irrelevant)), (''modes'', StrArr (checkModes checks))]"

definition RecordMemoryCheck ::
    "'a stores_scheme \<Rightarrow> casing \<Rightarrow> env \<Rightarrow> string \<Rightarrow> value list \<Rightarrow> value op" where
  "RecordMemoryCheck st lc ev findingID checks =
     bindE (LoadFinding ev findingID) (\<lambda>finding.
       let prov = asDict (ObjAt finding ''provenance'');
           existing = (let x = ObjAt prov ''memory_checks'' in if vkind x \<noteq> KArr then VArr [] else x);
           seen = map check_key_of (filter (\<lambda>r. vkind r = KObj) (vA existing))
       in bindE (readW (VisibleMemoryRows st)) (\<lambda>rowsByID.
          bindE (check_loop lc ev rowsByID finding checks seen (vA existing) 0 0) (\<lambda>(entries, added, irrelevant).
            let recorded = VArr entries;
                f1 = set_field finding ''provenance'' (set_field prov ''memory_checks'' recorded)
            in bindE (SaveThenLog ev f1 (\<lambda>_. Log ev ''finding.memory_checked'' (Some findingID)
                        (Some (checked_data added irrelevant checks)))) (\<lambda>f2.
               bindE (emitOwedCorpusGaps lc ev findingID f2 recorded) (\<lambda>_. ret f2)))))"

section \<open>The question of the gate\<close>

definition recorded_checks :: "value \<Rightarrow> value list" where
  "recorded_checks finding =
     (let checks = ObjAt (asDict (ObjAt finding ''provenance'')) ''memory_checks''
      in if vkind checks \<noteq> KArr then [] else vA checks)"

definition check_verifies :: "(string \<times> value) list \<Rightarrow> value \<Rightarrow> bool" where
  "check_verifies rowsByID c \<longleftrightarrow>
     (let ids = valueStrings (ObjAt c ''memory_ids'') in
      vkind c = KObj \<and> known_mode (ObjAt c ''mode'') \<and> list_all (\<lambda>mid. kv_find rowsByID mid \<noteq> None) ids \<and>
      ComputeRowDigest ids rowsByID = ObjStr c ''row_digest'')"

definition recall_text :: "env \<Rightarrow> string \<Rightarrow> string" where
  "recall_text ev findingID = ''no verified graph-memory recall recorded '' @ encode_rune 0x2014
     @ '' none recorded, or every recorded check is stale (a referenced row changed or left the store) '' @ encode_rune 0x2014
     @ '' run `webv2 recall '' @ CampaignID ev @ '' --finding '' @ findingID @ ''`''"

definition MemoryCheckFails :: "'a stores_scheme \<Rightarrow> env \<Rightarrow> string \<Rightarrow> world \<Rightarrow> error + string option" where
  "MemoryCheckFails st ev findingID w =
     bindR (fst (LoadFinding ev findingID w)) (\<lambda>finding.
     bindR (VisibleMemoryRows st w) (\<lambda>rowsByID.
       Inr (if list_ex (check_verifies rowsByID) (recorded_checks finding) then None
            else Some (recall_text ev findingID))))"

end
