(* ===== verification/ExecRecord.thy ===== *)
theory ExecRecord
  imports Memory
begin

text \<open>
  The records of sandboxed runs and what makes one admissible as evidence: the listing
  (\<^verbatim>\<open>internal/state/execs.go\<close>, \<^verbatim>\<open>internal/sandbox/exec_query.go\<close>), the captured
  output (\<^verbatim>\<open>output.go\<close>), the declared expectation (\<^verbatim>\<open>expect.go\<close>), the
  meaningfulness of test output (\<^verbatim>\<open>sandbox.go\<close>) and the digest that anchors a record to the
  ledger (\<^verbatim>\<open>exec_record_anchor.go\<close>). The Unicode tables, the log files (which lie outside the
  modelled store) and the installed failure classifier are the fields of a record.
\<close>

record harness =
  lowerText :: "string \<Rightarrow> string"
  digitValue :: "nat \<Rightarrow> nat option"
  alnum :: "nat \<Rightarrow> bool"
  equalFold :: "string \<Rightarrow> string \<Rightarrow> bool"
  readLog :: "string \<Rightarrow> string option"
  ClassifyFailure :: "value \<Rightarrow> value"

section \<open>Listing and loading\<close>

definition ExecsDir :: string where "ExecsDir = ''execs''"

definition sub_entry :: "string \<Rightarrow> string \<Rightarrow> string \<Rightarrow> string \<Rightarrow> bool" where
  "sub_entry d subPrefix leaf p = (case split_on slash p of
       [d', name, l] \<Rightarrow> d' = d \<and> has_prefix subPrefix name \<and> l = leaf
     | _ \<Rightarrow> False)"

definition ListSubPrefixedOptional :: "bool \<Rightarrow> string \<Rightarrow> string \<Rightarrow> string \<Rightarrow> string list op" where
  "ListSubPrefixedOptional listable d subPrefix leaf w =
     (if \<not> listable then (Inl (EAccess d), w)
      else (Inr (sort (filter (sub_entry d subPrefix leaf) (map fst (files w)))), w))"

definition AllExecs :: "bool \<Rightarrow> value list op" where
  "AllExecs listable =
     catchE (ListSubPrefixedOptional listable ExecsDir ''EXEC-'' ''exec_record.json'') (\<lambda>r. case r of
         Inl e \<Rightarrow> fail (ERefused ''the exec store cannot be listed'' [ExecsDir])
       | Inr matches \<Rightarrow> read_all (sort matches))"

definition exec_path :: "string \<Rightarrow> string" where
  "exec_path execID = JoinPath [ExecsDir, execID, ''exec_record.json'']"

definition LoadExec :: "string \<Rightarrow> value op" where
  "LoadExec execID = catchE (stat_file (exec_path execID)) (\<lambda>r. case r of
       Inl _ \<Rightarrow> fail (ERefused ''[Errno 2] No such file or directory'' [PyReprStr (exec_path execID)])
     | Inr _ \<Rightarrow> ReadJson (exec_path execID))"

section \<open>The captured output\<close>

text \<open>One sequence of the replacing decoder. An ill-formed sequence consumes its maximal valid prefix:
  \<open>cont_run\<close> counts the continuation bytes that fit, the first one within its own bounds.\<close>

fun cont_run :: "nat \<Rightarrow> nat \<Rightarrow> nat \<Rightarrow> string \<Rightarrow> nat" where
  "cont_run 0 lo hi cs = 0"
| "cont_run (Suc k) lo hi [] = 0"
| "cont_run (Suc k) lo hi (c # cs) =
     (if lo \<le> of_char c \<and> of_char c \<le> hi then Suc (cont_run k 0x80 0xBF cs) else 0)"

definition lead_bounds :: "nat \<Rightarrow> (nat \<times> nat \<times> nat) option" where
  "lead_bounds b0 =
     (if 0xC2 \<le> b0 \<and> b0 \<le> 0xDF then Some (2, 0x80, 0xBF)
      else if b0 = 0xE0 then Some (3, 0xA0, 0xBF)
      else if 0xE1 \<le> b0 \<and> b0 \<le> 0xEC then Some (3, 0x80, 0xBF)
      else if b0 = 0xED then Some (3, 0x80, 0x9F)
      else if 0xEE \<le> b0 \<and> b0 \<le> 0xEF then Some (3, 0x80, 0xBF)
      else if b0 = 0xF0 then Some (4, 0x90, 0xBF)
      else if 0xF1 \<le> b0 \<and> b0 \<le> 0xF3 then Some (4, 0x80, 0xBF)
      else if b0 = 0xF4 then Some (4, 0x80, 0x8F)
      else None)"

definition byte_at :: "string \<Rightarrow> nat \<Rightarrow> nat" where "byte_at s i = of_char (s ! i)"

definition decodeUTF8Replace :: "string \<Rightarrow> nat \<times> nat" where
  "decodeUTF8Replace s =
     (let b0 = byte_at s 0 in
      if b0 < 0x80 then (b0, 1)
      else case lead_bounds b0 of
        None \<Rightarrow> (RuneError, 1)
      | Some (need, lo, hi) \<Rightarrow>
          (let n = Suc (cont_run (need - 1) lo hi (drop 1 s)) in
           if n < need then (RuneError, n)
           else if need = 2 then ((b0 mod 32) * 64 + byte_at s 1 mod 64, 2)
           else if need = 3 then ((b0 mod 16) * 4096 + (byte_at s 1 mod 64) * 64 + byte_at s 2 mod 64, 3)
           else ((b0 mod 8) * 262144 + (byte_at s 1 mod 64) * 4096 + (byte_at s 2 mod 64) * 64 + byte_at s 3 mod 64, 4)))"

lemma decodeUTF8Replace_width: "s \<noteq> [] \<Longrightarrow> 0 < snd (decodeUTF8Replace s)"
  by (auto simp: decodeUTF8Replace_def Let_def split: option.split)

lemma drop_sequence_less: "s \<noteq> [] \<Longrightarrow> length (drop (snd (decodeUTF8Replace s)) s) < length s"
  using decodeUTF8Replace_width [of s] by (cases s) auto

definition after_CR :: "string \<Rightarrow> string" where
  "after_CR rest = (if take 1 rest = NL then drop 1 rest else rest)"

lemma after_CR_length: "length (after_CR rest) \<le> length rest"
  by (simp add: after_CR_def)

function pyTextReplace :: "string \<Rightarrow> string" where
  "pyTextReplace raw =
     (if raw = [] then []
      else if fst (decodeUTF8Replace raw) = 0x0D
        then NL @ pyTextReplace (after_CR (drop (snd (decodeUTF8Replace raw)) raw))
      else encode_rune (fst (decodeUTF8Replace raw)) @ pyTextReplace (drop (snd (decodeUTF8Replace raw)) raw))"
  by pat_completeness auto
termination
proof (relation "measure length")
  fix raw :: string assume "raw \<noteq> []"
  then show "(drop (snd (decodeUTF8Replace raw)) raw, raw) \<in> measure length"
    using drop_sequence_less by (simp del: length_drop)
  show "(after_CR (drop (snd (decodeUTF8Replace raw)) raw), raw) \<in> measure length"
    using le_less_trans [OF after_CR_length drop_sequence_less [OF \<open>raw \<noteq> []\<close>]] by (simp del: length_drop)
qed simp

declare pyTextReplace.simps [simp del]

definition ExecOutput :: "harness \<Rightarrow> value \<Rightarrow> string" where
  "ExecOutput h rec = concat (map (\<lambda>key.
     let p = ObjStr rec key in
     if p = [] then [] else (case readLog h p of None \<Rightarrow> [] | Some raw \<Rightarrow> pyTextReplace raw))
     [''stdout_path'', ''stderr_path''])"

section \<open>The declared expectation\<close>

definition EXPECT_PASS :: string where "EXPECT_PASS = ''pass''"
definition EXPECT_FAIL :: string where "EXPECT_FAIL = ''fail''"

definition ExecExpectedOutcome :: "value \<Rightarrow> string" where
  "ExecExpectedOutcome rec = (if ObjStr rec ''expected_outcome'' = EXPECT_FAIL then EXPECT_FAIL else EXPECT_PASS)"

definition ExecExpectedFailure :: "value \<Rightarrow> string" where
  "ExecExpectedFailure rec = ObjStr rec ''expected_failure''"

section \<open>Test output\<close>

record ForgeSummary =
  Ran :: "int option"
  Failed :: "int option"
  NoTests :: bool
  HasFailMarker :: bool
  HasPassMarker :: bool

definition rune_prefix :: "nat list \<Rightarrow> nat list \<Rightarrow> bool" where
  "rune_prefix p s \<longleftrightarrow> take (length p) s = p"

text \<open>The leftmost match of a literal, a run of decimal digits and a literal that starts with no digit:
  the digits are the captured group.\<close>

fun search_digits :: "(nat \<Rightarrow> bool) \<Rightarrow> nat list \<Rightarrow> nat list \<Rightarrow> nat list \<Rightarrow> nat list option" where
  "search_digits nd pre suf [] = None"
| "search_digits nd pre suf (c # cs) =
     (let rest = drop (length pre) (c # cs); ds = takeWhile nd rest in
      if rune_prefix pre (c # cs) \<and> ds \<noteq> [] \<and> rune_prefix suf (drop (length ds) rest) then Some ds
      else search_digits nd pre suf cs)"

definition is_nd :: "harness \<Rightarrow> nat \<Rightarrow> bool" where
  "is_nd h r \<longleftrightarrow> digitValue h r \<noteq> None"

text \<open>A counter past \<open>int64\<close> saturates.\<close>

definition MaxInt64 :: int where "MaxInt64 = 2 ^ 63 - 1"

fun py_int_digits :: "harness \<Rightarrow> int \<Rightarrow> nat list \<Rightarrow> int" where
  "py_int_digits h n [] = n"
| "py_int_digits h n (r # rs) = (case digitValue h r of
       None \<Rightarrow> py_int_digits h n rs
     | Some d \<Rightarrow> if n > (MaxInt64 - int d) div 10 then MaxInt64 else py_int_digits h (n * 10 + int d) rs)"

definition pyIntDigits :: "harness \<Rightarrow> nat list \<Rightarrow> int" where
  "pyIntDigits h rs = py_int_digits h 0 rs"

definition ForgeTestSummary :: "harness \<Rightarrow> string \<Rightarrow> ForgeSummary" where
  "ForgeTestSummary h txt =
     (let tl = lowerText h txt; rs = runes tl;
          ran = map_option (pyIntDigits h) (search_digits (is_nd h) (runes ''ran '') (runes '' test'') rs);
          failed = map_option (pyIntDigits h) (search_digits (is_nd h) [] (runes '' failed'') rs)
      in \<lparr>Ran = ran, Failed = failed, NoTests = contains tl ''no tests found'' \<or> ran = Some 0,
          HasFailMarker = contains tl ''[fail]'',
          HasPassMarker = contains tl ''[pass]'' \<or> contains tl ''pass: '' \<or> contains tl ''test suite successful''
            \<or> contains tl ''suite result: ok''\<rparr>)"

definition isPyWord :: "harness \<Rightarrow> nat list \<Rightarrow> bool" where
  "isPyWord h rs \<longleftrightarrow> (case rs of [] \<Rightarrow> False | r # _ \<Rightarrow> r = of_char (CHR ''_'') \<or> alnum h r)"

text \<open>\<open>before\<close> holds the runes already passed, the last one first.\<close>

fun word_found :: "harness \<Rightarrow> nat list \<Rightarrow> nat list \<Rightarrow> nat list \<Rightarrow> bool" where
  "word_found h word before [] = False"
| "word_found h word before (r # rs) =
     (if rune_prefix word (r # rs) \<and> \<not> isPyWord h before \<and> \<not> isPyWord h (drop (length word) (r # rs)) then True
      else word_found h word (r # before) rs)"

definition LooksLikeForgeTest :: "harness \<Rightarrow> string \<Rightarrow> bool" where
  "LooksLikeForgeTest h command =
     list_ex (\<lambda>word. word_found h (runes word) [] (runes (lowerText h command))) [''forge'', ''foundry'']"

definition commandIsForgeLike :: "harness \<Rightarrow> value \<Rightarrow> bool" where
  "commandIsForgeLike h rec =
     (let c = ObjAt rec ''command'' in
      if \<not> HasObjKey rec ''command'' then False
      else if vkind c \<noteq> KStr then vkind c \<noteq> KNull
      else LooksLikeForgeTest h (vS c))"

definition noRunEvidence :: "ForgeSummary \<Rightarrow> bool" where
  "noRunEvidence s \<longleftrightarrow> Ran s = None \<and> Failed s = None \<and> \<not> HasPassMarker s"

definition failMarkerProvesRun :: "value \<Rightarrow> ForgeSummary \<Rightarrow> bool" where
  "failMarkerProvesRun rec s \<longleftrightarrow> ExecExpectedOutcome rec = EXPECT_FAIL \<and> HasFailMarker s"

definition hasFailingSuite :: "ForgeSummary \<Rightarrow> bool" where
  "hasFailingSuite s \<longleftrightarrow> HasFailMarker s \<or> (case Failed s of None \<Rightarrow> False | Some n \<Rightarrow> n > 0)"

definition pyReprOptInt :: "int option \<Rightarrow> string" where
  "pyReprOptInt v = (case v of None \<Rightarrow> ''None'' | Some n \<Rightarrow> FormatInt n)"

definition pyReprBool :: "bool \<Rightarrow> string" where
  "pyReprBool b = (if b then ''True'' else ''False'')"

definition dash :: string where "dash = encode_rune 0x2014"

definition ExecOutputProblem :: "harness \<Rightarrow> value \<Rightarrow> string option" where
  "ExecOutputProblem h rec =
     (if \<not> commandIsForgeLike h rec then None
      else let s = ForgeTestSummary h (ExecOutput h rec) in
        if NoTests s then Some (''forge output shows no tests were run (ran='' @ pyReprOptInt (Ran s)
          @ ''); '' @ [CHR 0x27] @ ''No tests found'' @ [CHR 0x27] @ '' is not a reproduction '' @ dash
          @ '' check the --match-test filter / test path and re-run'')
        else if ExecExpectedOutcome rec = EXPECT_PASS \<and> hasFailingSuite s then
          Some (''forge output shows a failing suite (ran='' @ pyReprOptInt (Ran s) @ '', failed='' @ pyReprOptInt (Failed s)
            @ '', fail_marker='' @ pyReprBool (HasFailMarker s) @ '') '' @ dash @ '' a failing test is not a passing reproduction'')
        else if noRunEvidence s \<and> \<not> failMarkerProvesRun rec s then
          Some (''forge output has no test counters and no PASS marker '' @ dash
            @ '' cannot verify a test actually ran and passed; capture the full forge output and re-run'')
        else None)"

definition FailureSignatureOnFailLine :: "harness \<Rightarrow> value \<Rightarrow> string \<Rightarrow> bool" where
  "FailureSignatureOnFailLine h rec sig =
     (let marker = (if commandIsForgeLike h rec then ''[FAIL'' else ''FAIL'')
      in list_ex (\<lambda>line. contains line marker \<and> contains line sig) (split_on (CHR 0x0A) (ExecOutput h rec)))"

section \<open>The anchor\<close>

definition ExecRecordAnchorAlg :: string where "ExecRecordAnchorAlg = ''sha256-canon-spaced''"
definition KeyExecRecordSHA256 :: string where "KeyExecRecordSHA256 = ''exec_record_sha256''"
definition KeyExecRecordSHA256Alg :: string where "KeyExecRecordSHA256Alg = ''exec_record_sha256_alg''"

definition AnchorCarrierEventTypes :: "string list" where
  "AnchorCarrierEventTypes = [''sandbox.exec'', ''sandbox.exec.registered'']"

definition ExecRecordDigest :: "value \<Rightarrow> string" where
  "ExecRecordDigest rec = Sha256Hex (CanonSpaced rec)"

definition ExecRecordAnchorKVs :: "value \<Rightarrow> kv list" where
  "ExecRecordAnchorKVs rec = [(KeyExecRecordSHA256, VStr (ExecRecordDigest rec)),
     (KeyExecRecordSHA256Alg, VStr ExecRecordAnchorAlg)]"

definition IsAnchorCarrier :: "string \<Rightarrow> bool" where
  "IsAnchorCarrier eventType = list_ex (\<lambda>t. eventType = t) AnchorCarrierEventTypes"

definition anchorKey :: "value \<Rightarrow> string \<Rightarrow> string \<times> bool" where
  "anchorKey data key = (case kv_find (vO data) key of
       None \<Rightarrow> ([], False)
     | Some v \<Rightarrow> (if vkind v = KStr then vS v else PyRepr v, True))"

definition EventAnchor :: "value \<Rightarrow> string \<times> string \<times> bool" where
  "EventAnchor e =
     (let data = ObjAt e ''data''; (d, dOK) = anchorKey data KeyExecRecordSHA256; (a, aOK) = anchorKey data KeyExecRecordSHA256Alg
      in (d, a, dOK \<or> aOK))"

definition AnchorProblem :: "string \<Rightarrow> string \<Rightarrow> string \<Rightarrow> string \<Rightarrow> value \<Rightarrow> string" where
  "AnchorProblem eventType execID digest alg rec =
     (if alg = [] then ''exec '' @ execID @ '': the '' @ eventType @ '' event carries a digest with no encoding label '' @ dash
        @ '' an unlabelled canonical encoding is not evidence (the '' @ KeyExecRecordSHA256Alg @ '' key is absent or empty)''
      else if alg \<noteq> ExecRecordAnchorAlg then ''exec '' @ execID @ '': the '' @ eventType @ '' event names anchor encoding '' @ alg
        @ '', not '' @ ExecRecordAnchorAlg
      else if digest = [] then ''exec '' @ execID @ '': the '' @ eventType @ '' event names the anchor encoding but carries no digest''
      else if digest \<noteq> ExecRecordDigest rec then ''exec '' @ execID
        @ '': exec_record.json does not recompute to the digest the '' @ eventType @ '' event anchored (event '' @ digest
        @ '', record '' @ ExecRecordDigest rec @ '') '' @ dash
        @ '' the record was edited after the run, or the stored digest is not 64 lowercase hex; either way its declared exit/expectation cannot be trusted''
      else [])"

definition carrierFor :: "value \<Rightarrow> string \<Rightarrow> bool" where
  "carrierFor e execID \<longleftrightarrow> IsAnchorCarrier (ObjStr e ''type'') \<and> ObjStr e ''ref'' = execID"

definition carrier_problem :: "string \<Rightarrow> value \<Rightarrow> value \<Rightarrow> string" where
  "carrier_problem execID rec e =
     (let (digest, alg, present) = EventAnchor e in
      if \<not> carrierFor e execID then [] else if \<not> present then []
      else AnchorProblem (ObjStr e ''type'') execID digest alg rec)"

definition VerifyExecRecordAnchor :: "string \<Rightarrow> value \<Rightarrow> unit op" where
  "VerifyExecRecordAnchor execID rec = bindE Events (\<lambda>events.
     case filter (\<lambda>p. p \<noteq> []) (map (carrier_problem execID rec) events) of
       [] \<Rightarrow> ret ()
     | prob # _ \<Rightarrow> fail (ERefused prob []))"

end
