(* ===== verification/GateRun.thy ===== *)
theory GateRun
  imports SnapTrust ExecRecord
begin

text \<open>
  The CONFIRMED gate as a list of clauses (\<^verbatim>\<open>internal/findings/gate.go\<close>,
  \<^verbatim>\<open>gate_checks.go\<close>, \<^verbatim>\<open>gate_reachability.go\<close>). The package reaches other packages
  through function variables that are installed at start-up (\<^verbatim>\<open>gate_seams.go\<close>); here they are
  the fields of a record. The gate reads the campaign and changes nothing, so a check is a function of
  the world.
\<close>

section \<open>What is installed from outside\<close>

record seams = stores +
  onchainSequenceRequired :: "value \<Rightarrow> world \<Rightarrow> bool"
  verifySequenceCoverage :: "value \<Rightarrow> value \<Rightarrow> world \<Rightarrow> bool"
  intentClaims :: "world \<Rightarrow> error + (string \<times> value) list"
  loadInvariantLinks :: "world \<Rightarrow> error + value"
  documentedInvariants :: "world \<Rightarrow> error + (string \<times> value) list"
  invariantVerified :: "value \<Rightarrow> string \<Rightarrow> value list \<Rightarrow> world \<Rightarrow> bool"
  reproductionTierOrder :: "string list"
  probeBlindSpots :: "value \<Rightarrow> world \<Rightarrow> (string \<times> string \<times> string) list option"
  ClaimDriftProblems :: "value \<Rightarrow> error + string list"
  forkRpcSet :: bool

section \<open>Clauses\<close>

record Clause =
  CheckID :: string
  OK :: bool
  Message :: string
  Remediation :: string
  Subject :: "string option"

definition emdash :: string where "emdash = encode_rune 0x2014"

text \<open>\<open>strings.ReplaceAll\<close>: the counter skips the rest of a match.\<close>

fun replace_from :: "string \<Rightarrow> string \<Rightarrow> nat \<Rightarrow> string \<Rightarrow> string" where
  "replace_from old new k [] = []"
| "replace_from old new k (c # cs) =
     (if k > 0 then replace_from old new (k - 1) cs
      else if has_prefix old (c # cs) then new @ replace_from old new (length old - 1) cs
      else c # replace_from old new 0 cs)"

definition NameCampaign :: "string \<Rightarrow> string \<Rightarrow> string" where
  "NameCampaign entry campaignID =
     (if campaignID = [] then entry else replace_from campaignPlaceholder campaignID 0 entry)"

definition sq :: string where "sq = [CHR 0x27]"

definition GATE_REMEDIATION :: "(string \<times> string) list" where
  "GATE_REMEDIATION =
     [(''critic-verdict'', ''webv2 verdict <campaign> <fid> --verdict confirmed --reason '' @ sq @ ''<reasoning>'' @ sq),
      (''memory-check'', ''webv2 recall <campaign> --finding <fid>   (records a graph-memory consultation)''),
      (''reproduction-reproduced'', ''webv2 mint <fid> --exec <EXEC-ID>   (a reproduced attempt, sandboxed)''),
      (''evidence-floor'', ''webv2 mint <fid> --exec <EXEC-ID>   (or, for a NAMED decision: webv2 floors set ''
         @ emdash @ '' an override, logged, never a silent edit). Economic-class E7: when no USD figure is defensible, record the decision instead ''
         @ emdash @ '' webv2 impact <campaign> <fid> --unpriceable --ceiling '' @ sq @ ''<capacity basis>'' @ sq
         @ '' --reason '' @ sq @ ''<why>'' @ sq @ '' --actor <you>''),
      (''evidence-floor-unreachable'', ''webv2 snap / export FORK_RPC_URL   (make the evidence reachable) ''
         @ emdash @ '' or webv2 floors set to record the override as a decision''),
      (''snapshot-compatible'', ''webv2 snap   (re-pin the target and re-verify the finding against it)''),
      (''shield-adjudication'', ''webv2 shield <fid> --extraction --reason '' @ sq
         @ ''<why the effect is still extraction despite being documented as intended>'' @ sq @ '' --actor <you>''),
      (''claim-drift'', ''make the claim and the measurement agree: fix the title, or re-run the PoC and re-measure extraction_ratio''),
      (''reproduction-tier'', ''webv2 mint <campaign> <fid> --exec <fork exec> --description '' @ sq @ ''...'' @ sq
         @ '' --tier T3   (record the fork-tier attempt the evidence is based on)''),
      (''invariant-unverified'', ''webv2 invariant-verify <campaign> <INV-ID> --artifact <ART-ID>   (check the statement against code; the artifact must be registered)''),
      (''sequence-coverage'', ''webv2 sequence run <spec-file> --finding <fid>   (a T4 sequence PoC covering the declared exploit_sequence)'')]"

definition remediation :: "env \<Rightarrow> string \<Rightarrow> string" where
  "remediation ev checkID = NameCampaign (map_str GATE_REMEDIATION checkID) (CampaignID ev)"

definition fail_clause :: "env \<Rightarrow> string \<Rightarrow> string \<Rightarrow> string option \<Rightarrow> Clause" where
  "fail_clause ev checkID message subject =
     \<lparr>CheckID = checkID, OK = False, Message = message, Remediation = remediation ev checkID, Subject = subject\<rparr>"

definition satisfied :: "env \<Rightarrow> string \<Rightarrow> string option \<Rightarrow> Clause" where
  "satisfied ev checkID subject =
     \<lparr>CheckID = checkID, OK = True, Message = [], Remediation = remediation ev checkID, Subject = subject\<rparr>"

definition failWith :: "string \<Rightarrow> string \<Rightarrow> string \<Rightarrow> string option \<Rightarrow> Clause" where
  "failWith checkID message rem subject =
     \<lparr>CheckID = checkID, OK = False, Message = message, Remediation = rem, Subject = subject\<rparr>"

definition clause_id :: "Clause \<Rightarrow> string" where
  "clause_id cl = (case Subject cl of
       Some s \<Rightarrow> if s \<noteq> [] then CheckID cl @ ''['' @ s @ '']'' else CheckID cl
     | None \<Rightarrow> CheckID cl)"

definition FailingCheckIDs :: "Clause list \<Rightarrow> string list" where
  "FailingCheckIDs clauses =
     foldl (\<lambda>seen cl. if \<not> OK cl \<and> clause_id cl \<notin> set seen then seen @ [clause_id cl] else seen) [] clauses"

section \<open>The checks\<close>

definition criticVerdict :: "env \<Rightarrow> value \<Rightarrow> Clause" where
  "criticVerdict ev ver =
     (let v = ObjAt ver ''critic_verdict'' in
      if vkind v \<noteq> KStr \<or> vS v \<noteq> ''confirmed''
      then fail_clause ev ''critic-verdict'' (''hostile critic verdict is '' @ PyRepr v @ '', need '' @ sq @ ''confirmed'' @ sq) None
      else satisfied ev ''critic-verdict'' None)"

definition memoryCheck :: "seams \<Rightarrow> env \<Rightarrow> value \<Rightarrow> world \<Rightarrow> error + Clause" where
  "memoryCheck sm ev finding w =
     bindR (MemoryCheckFails sm ev (ObjStr finding ''finding_id'') w) (\<lambda>msg. Inr (case msg of
         Some m \<Rightarrow> fail_clause ev ''memory-check'' m None
       | None \<Rightarrow> satisfied ev ''memory-check'' None))"

definition reproduction :: "env \<Rightarrow> value \<Rightarrow> Clause" where
  "reproduction ev repro =
     (let s = ObjAt repro ''status'' in
      if vkind s \<noteq> KStr \<or> vS s \<noteq> ''reproduced''
      then fail_clause ev ''reproduction-reproduced'' (''reproduction status is '' @ PyRepr s @ '', need '' @ sq @ ''reproduced'' @ sq) None
      else satisfied ev ''reproduction-reproduced'' None)"

text \<open>The pin manifest of the active snapshot: absent, read, or a refusal.\<close>

definition activeForkTargetPin :: "env \<Rightarrow> world \<Rightarrow> error + value option" where
  "activeForkTargetPin ev w =
     (case fst (ActiveSnapshotIDOrNone ev w) of
        Inl e \<Rightarrow> Inl e
      | Inr None \<Rightarrow> Inr None
      | Inr (Some sid) \<Rightarrow>
          (let p = JoinPath [''snapshots'', sid, ''snapshot.json''] in
           if kv_find (files w) p = None then Inr None
           else (case fst (ReadJson p w) of
                   Inl e \<Rightarrow> Inl (ERefused ''the pin manifest cannot be read'' [p])
                 | Inr pin \<Rightarrow> Inr (Some pin))))"

definition dep_text :: string where
  "dep_text = ''no deployment/chain pin on the active snapshot '' @ emdash
     @ '' fork evidence (E5+) has no fork target, for single-call PoCs and multi-tx sequence PoCs (`webv2 sequence run`) alike; pin one (`webv2 snap`) or record a floor override (`webv2 floors set`)''"

definition chain_text :: string where
  "chain_text = ''no chain pin on the active snapshot '' @ emdash @ '' cross-chain witnesses (E6) need one''"

definition rpc_text :: string where
  "rpc_text = ''FORK_RPC_URL is not set '' @ emdash @ '' the fork-runner profile cannot reach a chain''"

definition ReachabilityDiagnostic :: "seams \<Rightarrow> env \<Rightarrow> string \<Rightarrow> string option \<Rightarrow> world \<Rightarrow> error + string list" where
  "ReachabilityDiagnostic sm ev minLevel bugClass w =
     bindR (LevelIndex minLevel) (\<lambda>li.
       if li < levelIndexValue ''E5'' then Inr []
       else bindR (activeForkTargetPin ev w) (\<lambda>pin.
         let hasDep = (case pin of Some p \<Rightarrow> PyTruthy (ObjAt p ''deployment'') | None \<Rightarrow> False);
             hasChain = (case pin of Some p \<Rightarrow> PyTruthy (ObjAt p ''chain'') | None \<Rightarrow> False);
             cross = (case bugClass of None \<Rightarrow> True | Some c \<Rightarrow> inSet CROSS_CHAIN_E6_CLASSES c)
         in Inr ((if \<not> (hasDep \<or> hasChain) then [dep_text] else [])
              @ (if li \<ge> levelIndexValue ''E6'' \<and> \<not> hasChain \<and> cross then [chain_text] else [])
              @ (if \<not> forkRpcSet sm then [rpc_text] else []))))"

definition unreachable_text :: "string list \<Rightarrow> string" where
  "unreachable_text diag = ''structurally unreachable in this campaign: '' @ join ''; '' diag @ '' '' @ emdash
     @ '' if the target truly cannot produce that evidence, record the decision with `webv2 floors set` instead of editing the framework'' @ sq @ ''s floor table''"

definition gate_class :: "value \<Rightarrow> string option" where
  "gate_class finding =
     (let classV = ObjAt (asDict (ObjAt finding ''root_cause'')) ''class''
      in if vkind classV \<noteq> KStr then None else Some (vS classV))"

definition gate_floor :: "env \<Rightarrow> value \<Rightarrow> world \<Rightarrow> string" where
  "gate_floor ev finding w = RequiredLevelForCampaign (Some (ev, w)) ''CONFIRMED''
     (case gate_class finding of None \<Rightarrow> [] | Some c \<Rightarrow> c)"

definition evidenceFloor :: "seams \<Rightarrow> env \<Rightarrow> value \<Rightarrow> world \<Rightarrow> error + Clause list" where
  "evidenceFloor sm ev finding w =
     (let flr = gate_floor ev finding w in
      case EvidenceDeficit finding ''CONFIRMED'' (Some (ev, w)) of
        None \<Rightarrow> Inr [satisfied ev ''evidence-floor'' None]
      | Some deficit \<Rightarrow>
          bindR (LevelIndex flr) (\<lambda>fi.
            if fi < levelIndexValue ''E5'' then Inr [fail_clause ev ''evidence-floor'' deficit None]
            else bindR (ReachabilityDiagnostic sm ev flr (gate_class finding) w) (\<lambda>diag.
              Inr (fail_clause ev ''evidence-floor'' deficit None
                # (if diag \<noteq> [] then [fail_clause ev ''evidence-floor-unreachable'' (unreachable_text diag) None] else [])))))"

definition indexOfStr :: "string list \<Rightarrow> string \<Rightarrow> nat option" where
  "indexOfStr items want = index_from 0 items want"

definition tierBelowT3 :: "value \<Rightarrow> string list \<Rightarrow> bool" where
  "tierBelowT3 tier order =
     (if vkind tier \<noteq> KStr then True
      else case indexOfStr order (vS tier) of
             None \<Rightarrow> True
           | Some i \<Rightarrow> (case indexOfStr order ''T3'' of None \<Rightarrow> False | Some j \<Rightarrow> i < j))"

definition reproductionTier :: "seams \<Rightarrow> env \<Rightarrow> value \<Rightarrow> string \<Rightarrow> Clause list" where
  "reproductionTier sm ev repro flr =
     (case LevelIndex flr of
        Inl _ \<Rightarrow> []
      | Inr fi \<Rightarrow>
          if fi < levelIndexValue ''E5'' then []
          else (let tier = (if HasObjKey repro ''tier_reached'' then ObjAt repro ''tier_reached'' else VStr ''none'') in
                if \<not> tierBelowT3 tier (reproductionTierOrder sm) then [satisfied ev ''reproduction-tier'' None]
                else [fail_clause ev ''reproduction-tier'' (''evidence floor '' @ flr
                   @ '' demands a fork-level reproduction (T3+), but tier_reached is '' @ PyRepr tier @ '' '' @ emdash
                   @ '' record the fork-tier attempt (record_attempt / attempt_and_mint) before confirming'') None]))"

definition sequenceCoverage :: "seams \<Rightarrow> env \<Rightarrow> value \<Rightarrow> value \<Rightarrow> world \<Rightarrow> error + Clause list" where
  "sequenceCoverage sm ev finding repro w =
     (if \<not> onchainSequenceRequired sm finding w then Inr []
      else bindR (activeForkTargetPin ev w) (\<lambda>_.
           bindR (fst (AllExecs (execsListable sm) w)) (\<lambda>execs.
             let byID = foldl (\<lambda>m r. if ObjStr r ''exec_id'' \<noteq> [] then kv_set m (ObjStr r ''exec_id'') r else m) [] execs;
                 attempts = vA (ObjAt repro ''attempts'');
                 covered = list_ex (\<lambda>a. vkind a = KObj \<and> (case kv_find byID (ObjStr a ''artifact_id'') of
                     None \<Rightarrow> False | Some rec \<Rightarrow> verifySequenceCoverage sm finding rec w)) attempts
             in Inr [if covered then satisfied ev ''sequence-coverage'' None
                     else fail_clause ev ''sequence-coverage'' (''declared exploit_sequence needs a multi-tx PoC '' @ emdash
                       @ '' no recorded attempt traces to an exec with verified sequence coverage (single-call PoCs cannot cover it)'') None])))"

text \<open>The message of a mismatch is its own text; any other refusal is rendered by \<open>err.Error()\<close>.\<close>

definition snapshot_error :: "'a stores_scheme \<Rightarrow> error \<Rightarrow> string" where
  "snapshot_error sm e = (case e of ERefused k [m] \<Rightarrow> if k = ''SnapshotMismatch'' then m else errString sm e | _ \<Rightarrow> errString sm e)"

definition snapshotCompatible :: "seams \<Rightarrow> env \<Rightarrow> value \<Rightarrow> world \<Rightarrow> Clause" where
  "snapshotCompatible sm ev finding w = (case fst (AssertSnapshotCompatible ev finding True w) of
       Inl e \<Rightarrow> fail_clause ev ''snapshot-compatible'' (snapshot_error sm e) None
     | Inr _ \<Rightarrow> satisfied ev ''snapshot-compatible'' None)"

text \<open>\<open>normalizeInvIDFunc\<close>: \<open>^INV-([0-9]+)$\<close>, the digits read as an \<open>int64\<close>.\<close>

definition normalizeInvID :: "string \<Rightarrow> string" where
  "normalizeInvID iid =
     (let ds = drop 4 iid in
      if has_prefix ''INV-'' iid \<and> ds \<noteq> [] \<and> list_all is_digit ds \<and> digits_val ds < 2 ^ 63
      then ''INV-'' @ FormatInt (int (digits_val ds)) else iid)"

definition firstRunes :: "string \<Rightarrow> nat \<Rightarrow> string" where
  "firstRunes s n = (if RuneCount s \<le> n then s else utf8_encode (take n (runes s)))"

definition shield :: "seams \<Rightarrow> env \<Rightarrow> value \<Rightarrow> value \<Rightarrow> world \<Rightarrow> error + Clause list" where
  "shield sm ev finding ver w =
     (let iid = ObjAt (asDict (ObjAt finding ''invariant'')) ''id'' in
      if \<not> PyTruthy iid \<or> vkind iid \<noteq> KStr then Inr []
      else bindR (intentClaims sm w) (\<lambda>claims.
        case kv_find claims (normalizeInvID (vS iid)) of
          None \<Rightarrow> Inr []
        | Some claim \<Rightarrow>
            if \<not> PyTruthy claim then Inr []
            else if PyTruthy (ObjAt ver ''shield_adjudication'') then Inr [satisfied ev ''shield-adjudication'' None]
            else Inr [fail_clause ev ''shield-adjudication'' (''invariant '' @ vS iid @ '' is documented as intended ('' @
                 firstRunes (ObjStr claim ''intent_line'') 100 @ '') '' @ emdash @ '' record the extraction adjudication before CONFIRMED'') None]))"

definition invariantIDs :: "value \<Rightarrow> string list" where
  "invariantIDs finding =
     (let iid = ObjAt (asDict (ObjAt finding ''invariant'')) ''id'';
          ids = (if PyTruthy iid \<and> vkind iid = KStr then [normalizeInvID (vS iid)] else []);
          sec = ObjAt finding ''security_invariants''
      in if \<not> PyTruthy sec \<or> vkind sec \<noteq> KArr then ids
         else foldl (\<lambda>ids s.
                let i = ObjAt s ''id''; nid = normalizeInvID (vS i) in
                if vkind s = KObj \<and> PyTruthy i \<and> vkind i = KStr \<and> nid \<noteq> [] \<and> nid \<notin> set ids then ids @ [nid] else ids)
              ids (vA sec))"

definition invariant_clause ::
    "seams \<Rightarrow> env \<Rightarrow> (string \<times> value) list \<Rightarrow> (string \<times> value) list \<Rightarrow> value list \<Rightarrow> world \<Rightarrow> string \<Rightarrow> Clause" where
  "invariant_clause sm ev normReg doc events w iid =
     (case kv_find normReg iid of
        None \<Rightarrow> fail_clause ev ''invariant-unverified'' (''invariant-unverified: '' @ iid @ '' not in registry '' @ emdash
                  @ '' seed it or correct the id'') (Some iid)
      | Some e \<Rightarrow>
          if kv_find doc iid \<noteq> None \<or> ObjStr e ''source'' = ''documented'' then satisfied ev ''invariant-unverified'' (Some iid)
          else if \<not> invariantVerified sm e iid events w
            then fail_clause ev ''invariant-unverified'' (''invariant '' @ iid @ '' has status '' @ PyRepr (ObjAt e ''status'')
                   @ '' '' @ emdash @ '' verify it against code before CONFIRMED'') (Some iid)
          else satisfied ev ''invariant-unverified'' (Some iid))"

definition invariants :: "seams \<Rightarrow> env \<Rightarrow> value \<Rightarrow> world \<Rightarrow> error + Clause list" where
  "invariants sm ev finding w =
     bindR (loadInvariantLinks sm w) (\<lambda>links.
       let reg = vO (asDict (ObjAt links ''invariants''));
           normReg = foldl (\<lambda>m kv. if vkind (snd kv) = KObj then kv_set m (normalizeInvID (fst kv)) (snd kv) else m) [] reg
       in bindR (documentedInvariants sm w) (\<lambda>doc.
          bindR (fst (Events w)) (\<lambda>events.
            Inr (map (invariant_clause sm ev normReg doc events w) (invariantIDs finding)))))"

definition ProbeAnchorCheckID :: string where "ProbeAnchorCheckID = ''probe-surface-undispositioned''"

definition probeAnchor :: "seams \<Rightarrow> env \<Rightarrow> value \<Rightarrow> world \<Rightarrow> Clause list" where
  "probeAnchor sm ev finding w = (case probeBlindSpots sm finding w of
       None \<Rightarrow> []
     | Some spots \<Rightarrow>
         if spots = [] then [satisfied ev ProbeAnchorCheckID None]
         else map (\<lambda>(row, msg, heal). failWith ProbeAnchorCheckID msg heal (Some row)) spots)"

definition claimDrift :: "seams \<Rightarrow> env \<Rightarrow> value \<Rightarrow> error + Clause list" where
  "claimDrift sm ev finding = bindR (ClaimDriftProblems sm finding) (\<lambda>problems.
     Inr (if problems = [] then [satisfied ev ''claim-drift'' None]
          else map (\<lambda>p. fail_clause ev ''claim-drift'' p None) problems))"

section \<open>The gate\<close>

definition ConfirmationGateClauses :: "seams \<Rightarrow> env \<Rightarrow> value \<Rightarrow> world \<Rightarrow> error + Clause list" where
  "ConfirmationGateClauses sm ev finding w =
     (let ver = asDict (ObjAt finding ''verification'');
          repro = asDict (ObjAt ver ''reproduction'')
      in bindR (memoryCheck sm ev finding w) (\<lambda>memory.
         bindR (evidenceFloor sm ev finding w) (\<lambda>ground.
         bindR (sequenceCoverage sm ev finding repro w) (\<lambda>sequences.
         bindR (shield sm ev finding ver w) (\<lambda>shields.
         bindR (invariants sm ev finding w) (\<lambda>invs.
         bindR (claimDrift sm ev finding) (\<lambda>drift.
           Inr ([criticVerdict ev ver, memory, reproduction ev repro] @ ground
                @ reproductionTier sm ev repro (gate_floor ev finding w) @ sequences
                @ [snapshotCompatible sm ev finding w] @ shields @ invs
                @ probeAnchor sm ev finding w @ drift))))))))"

definition ConfirmationGateDetail :: "seams \<Rightarrow> env \<Rightarrow> value \<Rightarrow> world \<Rightarrow> error + (string \<times> string \<times> string) list" where
  "ConfirmationGateDetail sm ev finding w = bindR (ConfirmationGateClauses sm ev finding w) (\<lambda>clauses.
     Inr (map (\<lambda>cl. (CheckID cl, Message cl, Remediation cl)) (filter (\<lambda>cl. \<not> OK cl) clauses)))"

definition ConfirmationGates :: "seams \<Rightarrow> env \<Rightarrow> value \<Rightarrow> world \<Rightarrow> error + string list" where
  "ConfirmationGates sm ev finding w = bindR (ConfirmationGateDetail sm ev finding w) (\<lambda>detail.
     Inr (map (\<lambda>(c, m, _). c @ '': '' @ m) detail))"

end
