(* ===== verification/Anchor.thy ===== *)
theory Anchor
  imports GateRun
begin

text \<open>
  What a confirmed finding does to the campaign plan (\<^verbatim>\<open>internal/findings/transitions_anchor.go\<close>):
  lenses that claimed its family exhausted are reopened, and one re-scan priority is added per finding.
  The planner and the taxonomy are reached through installed functions, the fields of a record; the
  plan is a JSON value.
\<close>

record planner =
  familiesFor :: "value \<Rightarrow> world \<Rightarrow> string list"
  loadPlanReadonly :: "world \<Rightarrow> error + value"
  savePlan :: "value \<Rightarrow> unit op"
  siblingRescan :: "value \<Rightarrow> string \<Rightarrow> bool \<Rightarrow> string \<Rightarrow> string \<Rightarrow> unit op"
  knownClasses :: "string list"
  errText :: "error \<Rightarrow> string"

definition PlanPath :: string where "PlanPath = ''artifacts/campaign_plan.json''"

section \<open>Small helpers\<close>

definition dropKey :: "kv list \<Rightarrow> string \<Rightarrow> kv list" where
  "dropKey o' key = filter (\<lambda>kv. fst kv \<noteq> key) o'"

definition intersectSorted :: "value \<Rightarrow> string list \<Rightarrow> string list" where
  "intersectSorted families toks =
     sortedSetKeys (filter (\<lambda>s. s \<in> set toks) (map vS (filter (\<lambda>f. vkind f = KStr) (vA families))))"

definition sortedContracts :: "value \<Rightarrow> string list" where
  "sortedContracts finding =
     sortedSetKeys (filter (\<lambda>c. c \<noteq> []) (map (\<lambda>a. ObjStr a ''contract'')
       (filter (\<lambda>a. vkind a = KObj) (vA (ObjAt finding ''affected'')))))"

definition hasAnchorPriority :: "value \<Rightarrow> string \<Rightarrow> bool" where
  "hasAnchorPriority plan findingID =
     list_ex (\<lambda>q. vkind (ObjAt q ''anchor_of'') = KStr \<and> ObjStr q ''anchor_of'' = findingID) (vA (ObjAt plan ''priorities''))"

text \<open>\<open>pyIntText\<close>: the scan accepts digits and single underscores between digits; \<open>strconv.Atoi\<close> then
  refuses what does not fit an \<open>int\<close>.\<close>

definition underscore_ok :: "string \<Rightarrow> nat \<Rightarrow> bool" where
  "underscore_ok t i =
     (if t ! i = CHR ''_'' then \<not> (i = 0 \<or> i = length t - 1 \<or> \<not> is_digit (t ! (i - 1)) \<or> \<not> is_digit (t ! (i + 1)))
      else is_digit (t ! i))"

definition pyIntText :: "string \<Rightarrow> int option" where
  "pyIntText s =
     (let t0 = TrimSpace s in
      if t0 = [] then None
      else let signed = (hd t0 = CHR ''+'' \<or> hd t0 = CHR ''-'');
               neg = (hd t0 = CHR ''-'');
               t = (if signed then tl t0 else t0);
               ds = filter (\<lambda>c. c \<noteq> CHR ''_'') t
           in if t = [] then None
              else if \<not> list_all (underscore_ok t) [0..<length t] then None
              else if 2 ^ 63 \<le> digits_val ds then None
              else Some (if neg then - int (digits_val ds) else int (digits_val ds)))"

fun priority_numbers :: "value list \<Rightarrow> error + int list" where
  "priority_numbers [] = Inr []"
| "priority_numbers (q # qs) =
     (let fid = ObjStr q ''id'' in
      if \<not> has_prefix ''Q-'' fid then priority_numbers qs
      else case pyIntText (drop 2 fid) of
             None \<Rightarrow> Inl (ERefused ''invalid literal for int() with base 10'' [PyReprStr (drop 2 fid)])
           | Some n \<Rightarrow> bindR (priority_numbers qs) (\<lambda>ns. Inr (n # ns)))"

text \<open>The Go \<open>int\<close> sum wraps at 64 bits.\<close>

definition nextPriorityNumber :: "value \<Rightarrow> error + int" where
  "nextPriorityNumber plan = bindR (priority_numbers (vA (ObjAt plan ''priorities''))) (\<lambda>nums.
     let best = (case nums of [] \<Rightarrow> 0 | n # ns \<Rightarrow> foldl (\<lambda>b m. if m > b then m else b) n ns)
     in Inr (wrap64 (best + 1)))"

text \<open>\<open>fmt\<close>'s \<open>%03d\<close>: the width counts the sign.\<close>

definition fmt_03d :: "int \<Rightarrow> string" where
  "fmt_03d n = (if n < 0 then CHR ''-'' # replicate (2 - length (nat_digits (nat (- n)))) CHR ''0'' @ nat_digits (nat (- n))
     else replicate (3 - length (nat_digits (nat n))) CHR ''0'' @ nat_digits (nat n))"

section \<open>The anchor priority\<close>

definition risk_08 :: "value" where
  "risk_08 = (case ParseFloat ''0.8'' of Some f \<Rightarrow> VFloat f | None \<Rightarrow> VNull)"

definition anchorPriority :: "planner \<Rightarrow> value \<Rightarrow> value \<Rightarrow> error + value" where
  "anchorPriority pl finding plan =
     (let surfaces0 = sortedContracts finding;
          surfaces = (if surfaces0 = [] then [''the affected surface''] else surfaces0)
      in bindR (nextPriorityNumber plan) (\<lambda>n.
        let fid = ObjStr finding ''finding_id'';
            cls = ObjStr (asDict (ObjAt finding ''root_cause'')) ''class'';
            clsText = (if cls = [] then ''unclassified'' else cls);
            question = ''ANCHOR: '' @ fid @ '' ('' @ PyStr (ObjAt finding ''reported_severity'') @ '', '' @ clsText
              @ '') is CONFIRMED at '' @ join '', '' surfaces @ '' '' @ emdash
              @ '' re-scan the SAME lifecycle for a non-obvious coordination bug before converging (the loud bug usually hides the subtle one)'';
            row = VObj [(''id'', VStr (''Q-'' @ fmt_03d n)), (''question'', VStr question), (''risk'', risk_08),
              (''components'', StrArr surfaces), (''trajectories'', VArr [VStr ''code'']), (''status'', VStr ''open''),
              (''anchor_of'', VStr fid)]
        in Inr (if cls \<noteq> [] \<and> inSet (knownClasses pl) cls then set_field row ''bug_class'' (VStr cls) else row)))"

section \<open>Reopening lenses\<close>

definition reopened :: "value \<Rightarrow> value \<Rightarrow> string list \<Rightarrow> string \<Rightarrow> value" where
  "reopened finding lens hit t =
     (let fid = ObjStr finding ''finding_id'';
          l1 = set_field lens ''status'' (VStr ''open'');
          l2 = set_field l1 ''reopen_reason'' (VStr (''CONFIRMED '' @ fid @ '' in family '' @ join '', '' hit @ '' after ''
                 @ ObjStr l1 ''lens'' @ '' was closed '' @ emdash @ '' re-scan the family''));
          l3 = set_field l2 ''reopened_at'' (VStr t)
      in foldl (\<lambda>l k. setO l (dropKey (vO l) k)) l3
           [''closed_reason'', ''closed_ref'', ''closed_at'', ''closed_by'', ''families_checked'', ''symmetry''])"

text \<open>A refused log of a reopening is dropped.\<close>

definition reopenLens :: "env \<Rightarrow> value \<Rightarrow> value \<Rightarrow> string list \<Rightarrow> value op" where
  "reopenLens ev finding lens hit =
     bindE (nowIso ev) (\<lambda>t.
       let l = reopened finding lens hit t in
       catchE (Log ev ''plan.lens_reopened'' (Some (ObjStr finding ''finding_id''))
                 (Some (VObj [(''lens_id'', ObjAt l ''id''), (''families'', StrArr hit)]))) (\<lambda>_. ret l))"

definition closed_lens :: "string list \<Rightarrow> value \<Rightarrow> bool" where
  "closed_lens toks l \<longleftrightarrow> vkind l = KObj \<and> (ObjStr l ''status'' = ''answered'' \<or> ObjStr l ''status'' = ''not-applicable'')
     \<and> intersectSorted (ObjAt l ''families'') toks \<noteq> []"

fun reopen_loop :: "env \<Rightarrow> value \<Rightarrow> string list \<Rightarrow> value list \<Rightarrow> value list op" where
  "reopen_loop ev finding toks [] = ret []"
| "reopen_loop ev finding toks (l # ls) =
     (if closed_lens toks l
      then bindE (reopenLens ev finding l (intersectSorted (ObjAt l ''families'') toks)) (\<lambda>l'.
             bindE (reopen_loop ev finding toks ls) (\<lambda>ls'. ret (l' # ls')))
      else bindE (reopen_loop ev finding toks ls) (\<lambda>ls'. ret (l # ls')))"

definition reopenExhaustedLenses :: "planner \<Rightarrow> env \<Rightarrow> value \<Rightarrow> unit op" where
  "reopenExhaustedLenses pl ev finding =
     bindE (readW (\<lambda>w. Inr (familiesFor pl finding w))) (\<lambda>toks.
       if toks = [] then ret ()
       else bindE (readW (loadPlanReadonly pl)) (\<lambda>plan.
         let lenses = ObjAt plan ''lenses'' in
         if vkind lenses \<noteq> KArr then ret ()
         else bindE (reopen_loop ev finding toks (vA lenses)) (\<lambda>ls.
           if \<not> list_ex (closed_lens toks) (vA lenses) then ret ()
           else savePlan pl (set_field plan ''lenses'' (setA lenses ls)))))"

section \<open>The rescan\<close>

definition add_anchor :: "planner \<Rightarrow> env \<Rightarrow> value \<Rightarrow> unit op" where
  "add_anchor pl ev finding =
     bindE (readW (loadPlanReadonly pl)) (\<lambda>plan.
       let fid = ObjStr finding ''finding_id'' in
       if hasAnchorPriority plan fid then ret ()
       else bindE (readW (\<lambda>_. anchorPriority pl finding plan)) (\<lambda>priority.
         let priorities = ObjAt plan ''priorities'' in
         if vkind priorities \<noteq> KArr then fail (ERefused ''priorities'' [])
         else bindE (savePlan pl (set_field plan ''priorities'' (setA priorities (vA priorities @ [priority])))) (\<lambda>_.
              bindE (Log ev ''plan.anchor_priority'' (Some fid) (Some (VObj [(''priority_id'', ObjAt priority ''id''),
                       (''severity'', ObjAt finding ''reported_severity'')]))) (\<lambda>_. ret ()))))"

definition anchorRescan :: "planner \<Rightarrow> env \<Rightarrow> value \<Rightarrow> unit op" where
  "anchorRescan pl ev finding =
     (let sev = ObjStr finding ''reported_severity'' in
      if sev \<noteq> ''high'' \<and> sev \<noteq> ''critical'' then ret ()
      else catchE (stat_file PlanPath) (\<lambda>r. case r of
          Inl _ \<Rightarrow> ret ()
        | Inr _ \<Rightarrow>
            catchE (reopenExhaustedLenses pl ev finding) (\<lambda>r. case r of
                Inr _ \<Rightarrow> add_anchor pl ev finding
              | Inl e \<Rightarrow> catchE (Log ev ''plan.lens_reopen_failed'' (Some (ObjStr finding ''finding_id''))
                            (Some (VObj [(''error'', VStr (errText pl e))]))) (\<lambda>rl. case rl of
                    Inl _ \<Rightarrow> ret ()
                  | Inr _ \<Rightarrow> add_anchor pl ev finding))))"

end
