(* ===== verification/Transitions.thy ===== *)
theory Transitions
  imports Anchor
begin

text \<open>
  The status of a finding and who may change it (\<^verbatim>\<open>internal/findings/transitions.go\<close>,
  \<^verbatim>\<open>transitions_dedup.go\<close>, \<^verbatim>\<open>transitions_verdicts.go\<close>, \<^verbatim>\<open>adversarial.go\<close>). The options
  of a move are a record; the planner is that of the theory of the plan.
\<close>

record transitionOpts =
  actor :: string
  adjacent :: string
  adjacentClear :: bool
  duplicateOf :: string

section \<open>The merge pointer\<close>

definition recordDuplicateOf :: "value \<Rightarrow> string \<Rightarrow> value" where
  "recordDuplicateOf finding ofFindingID =
     set_field finding ''dedup'' (set_field (asDict (ObjAt finding ''dedup'')) ''duplicate_of'' (VStr ofFindingID))"

definition clearDuplicateOf :: "value \<Rightarrow> value" where
  "clearDuplicateOf finding =
     (let dedup = asDict (ObjAt finding ''dedup'');
          kept = filter (\<lambda>kv. fst kv \<noteq> ''duplicate_of'') (vO dedup)
      in if length kept = length (vO dedup) then finding else set_field finding ''dedup'' (setO dedup kept))"

definition validateDuplicateTarget :: "env \<Rightarrow> value \<Rightarrow> string \<Rightarrow> unit op" where
  "validateDuplicateTarget ev finding target =
     (if target = ObjStr finding ''finding_id''
      then fail (ERefused ''a finding cannot be merged into itself'' [PyReprStr target])
      else catchE (LoadFinding ev target) (\<lambda>r. case r of
          Inl e \<Rightarrow> fail (ERefused ''duplicate of target does not exist'' [target])
        | Inr _ \<Rightarrow> ret ()))"

section \<open>The status write\<close>

definition history_row :: "string \<Rightarrow> string \<Rightarrow> string \<Rightarrow> string \<Rightarrow> string \<Rightarrow> value" where
  "history_row t fromStatus toStatus reason who =
     VObj [(''at'', VStr t), (''from'', VStr fromStatus), (''to'', VStr toStatus), (''reason'', VStr reason),
           (''actor'', VStr who)]"

definition moved :: "value \<Rightarrow> string \<Rightarrow> value \<Rightarrow> value" where
  "moved finding toStatus row =
     (let f1 = set_field finding ''status'' (VStr toStatus);
          hist = ObjAt f1 ''history'';
          hist1 = (if vkind hist \<noteq> KArr then VArr [] else hist)
      in set_field f1 ''history'' (setA hist1 (vA hist1 @ [row])))"

definition mutateStatus :: "env \<Rightarrow> value \<Rightarrow> string \<Rightarrow> string \<Rightarrow> string \<Rightarrow> string \<Rightarrow> value op" where
  "mutateStatus ev finding fromStatus toStatus reason who =
     bindE (nowIso ev) (\<lambda>t. ret (moved finding toStatus (history_row t fromStatus toStatus reason who)))"

definition status_data :: "string \<Rightarrow> string \<Rightarrow> string \<Rightarrow> string \<Rightarrow> value" where
  "status_data fromStatus toStatus reason who =
     VObj [(''from'', VStr fromStatus), (''to'', VStr toStatus), (''reason'', VStr reason), (''actor'', VStr who)]"

definition logStatus :: "env \<Rightarrow> string \<Rightarrow> string \<Rightarrow> string \<Rightarrow> string \<Rightarrow> value \<Rightarrow> value op" where
  "logStatus ev fromStatus toStatus reason who f =
     Log ev ''finding.status'' (Some (ObjStr f ''finding_id'')) (Some (status_data fromStatus toStatus reason who))"

section \<open>The move\<close>

text \<open>A move to the status a finding already has: nothing to do, except that a merged finding is not
  merged again into another.\<close>

definition same_status :: "value \<Rightarrow> string \<Rightarrow> string \<Rightarrow> string \<Rightarrow> value op" where
  "same_status finding findingID toStatus dup =
     (let recorded = ObjStr (ObjAt finding ''dedup'') ''duplicate_of'' in
      if toStatus \<noteq> ''DUPLICATE'' then ret finding
      else if TrimSpace dup = [] then ret finding
      else if dup = recorded then ret finding
      else if recorded = [] then fail (ERefused ''a DUPLICATE with no merge target on record'' [findingID, dup])
      else fail (ERefused ''already merged'' [findingID, recorded, dup]))"

text \<open>The evidence floor of the target status, or for CONFIRMED the whole gate; a refused gate is recorded.\<close>

definition gate_attempt :: "string \<Rightarrow> Clause list \<Rightarrow> value" where
  "gate_attempt findingID clauses =
     VObj [(''finding'', VStr findingID), (''check_ids'', VArr (map VStr (FailingCheckIDs clauses)))]"

definition pass_gate :: "seams \<Rightarrow> env \<Rightarrow> string \<Rightarrow> string \<Rightarrow> value \<Rightarrow> unit op" where
  "pass_gate sm ev findingID toStatus finding w =
     (if toStatus \<noteq> ''CONFIRMED'' then
        (case EvidenceDeficit finding toStatus (Some (ev, w)) of
           Some deficit \<Rightarrow> (Inl (ERefused ''illegal transition'' [deficit]), w)
         | None \<Rightarrow> (Inr (), w))
      else
        (case ConfirmationGateClauses sm ev finding w of
           Inl e \<Rightarrow> (Inl e, w)
         | Inr clauses \<Rightarrow>
             (let failures = map (\<lambda>cl. CheckID cl @ '': '' @ Message cl) (filter (\<lambda>cl. \<not> OK cl) clauses) in
              if failures \<noteq> [] then
                bindE (Log ev ''finding.gate_attempt'' (Some findingID) (Some (gate_attempt findingID clauses)))
                  (\<lambda>_. fail (ERefused ''CONFIRMED gate failed'' (findingID # failures))) w
              else (Inr (), w))))"

definition disprove_check :: "planner \<Rightarrow> string \<Rightarrow> transitionOpts \<Rightarrow> value \<Rightarrow> unit op" where
  "disprove_check pl toStatus opts finding w =
     (if toStatus = ''DISPROVED'' \<and> familiesFor pl finding w \<noteq> [] \<and> TrimSpace (adjacent opts) = [] \<and> \<not> adjacentClear opts
      then (Inl (ERefused ''adjacent property required'' []), w) else (Inr (), w))"

definition pay_slot :: "env \<Rightarrow> string \<Rightarrow> string \<Rightarrow> value \<Rightarrow> value op" where
  "pay_slot ev fromStatus toStatus finding =
     (let toIdx = statusBaselineIndex toStatus; fromIdx = statusBaselineIndex fromStatus in
      if fromIdx < toIdx \<and> 0 < toIdx then ConsumeSlotOnce ev finding else ret finding)"

definition merge_edit :: "string \<Rightarrow> string \<Rightarrow> string \<Rightarrow> value \<Rightarrow> value" where
  "merge_edit fromStatus toStatus dup f =
     (let f1 = (if toStatus = ''DUPLICATE'' then recordDuplicateOf f dup else f)
      in if fromStatus = ''DUPLICATE'' \<and> toStatus = ''HYPOTHESIS'' then clearDuplicateOf f1 else f1)"

text \<open>What follows the durable move.\<close>

definition after_move ::
    "planner \<Rightarrow> env \<Rightarrow> string \<Rightarrow> string \<Rightarrow> transitionOpts \<Rightarrow> string \<Rightarrow> string \<Rightarrow> value \<Rightarrow> value op" where
  "after_move pl ev findingID toStatus opts reason who f =
     bindE (if toStatus = ''CONFIRMED'' then anchorRescan pl ev f else ret ()) (\<lambda>_.
     bindE (if toStatus = ''DISPROVED''
            then catchE (siblingRescan pl f (adjacent opts) (adjacentClear opts) reason who) (\<lambda>r. case r of
                Inl e \<Rightarrow> bindE (Log ev ''plan.sibling_error'' (Some findingID) (Some (VObj [(''error'', VStr (errText pl e))])))
                           (\<lambda>_. ret ())
              | Inr _ \<Rightarrow> ret ())
            else ret ()) (\<lambda>_. ret f))"

definition transition ::
    "seams \<Rightarrow> planner \<Rightarrow> env \<Rightarrow> string \<Rightarrow> string \<Rightarrow> string \<Rightarrow> transitionOpts \<Rightarrow> value op" where
  "transition sm pl ev findingID toStatus reason opts =
     (let who = (if actor opts = [] then ''orchestrator'' else actor opts) in
      bindE (LoadFinding ev findingID) (\<lambda>finding.
        let fromStatus = ObjStr finding ''status'' in
        if toStatus = fromStatus then same_status finding findingID toStatus (duplicateOf opts)
        else bindE (guard (TransitionAllowed fromStatus toStatus)
                     (ERefused ''not a legal transition'' (fromStatus # toStatus # sort (map_set ALLOWED_TRANSITIONS fromStatus)))) (\<lambda>_.
             bindE (if toStatus = ''DUPLICATE''
                    then (if TrimSpace (duplicateOf opts) = [] then fail (ERefused ''move to DUPLICATE must name the duplicate'' [])
                          else validateDuplicateTarget ev finding (duplicateOf opts))
                    else ret ()) (\<lambda>_.
             bindE (pass_gate sm ev findingID toStatus finding) (\<lambda>_.
             bindE (disprove_check pl toStatus opts finding) (\<lambda>_.
             bindE (pay_slot ev fromStatus toStatus finding) (\<lambda>paid.
             bindE (mutateStatus ev paid fromStatus toStatus reason who) (\<lambda>f1.
             bindE (SaveThenLog ev (merge_edit fromStatus toStatus (duplicateOf opts) f1)
                      (logStatus ev fromStatus toStatus reason who)) (\<lambda>f2.
               after_move pl ev findingID toStatus opts reason who f2)))))))))"

definition MarkDuplicate :: "seams \<Rightarrow> planner \<Rightarrow> env \<Rightarrow> string \<Rightarrow> string \<Rightarrow> value op" where
  "MarkDuplicate sm pl ev findingID ofFindingID =
     transition sm pl ev findingID ''DUPLICATE'' (''technical/root-cause duplicate of '' @ ofFindingID)
       \<lparr>actor = ''dedup'', adjacent = [], adjacentClear = False, duplicateOf = ofFindingID\<rparr>"

section \<open>Dedup edits\<close>

definition FoldIntoLineage :: "env \<Rightarrow> string \<Rightarrow> string \<Rightarrow> value op" where
  "FoldIntoLineage ev findingID lineageID =
     bindE (LoadFinding ev findingID) (\<lambda>finding.
       SaveFinding ev (set_field finding ''dedup''
         (set_field (asDict (ObjAt finding ''dedup'')) ''lineage_id'' (VStr lineageID))))"

definition FlagPossibleDuplicate :: "env \<Rightarrow> string \<Rightarrow> string \<Rightarrow> value op" where
  "FlagPossibleDuplicate ev findingID ofFindingID =
     bindE (LoadFinding ev findingID) (\<lambda>finding.
       let dedup = asDict (ObjAt finding ''dedup'');
           lst0 = ObjAt dedup ''possible_duplicate_of'';
           lst1 = (if vkind lst0 \<noteq> KArr then VArr [] else lst0);
           lst = (if ofFindingID \<notin> set (valueStrings lst1) then setA lst1 (vA lst1 @ [VStr ofFindingID]) else lst1)
       in SaveThenLog ev (set_field finding ''dedup'' (set_field dedup ''possible_duplicate_of'' lst))
            (\<lambda>_. Log ev ''finding.possible_duplicate'' (Some findingID) (Some (VObj [(''of'', VStr ofFindingID)]))))"

section \<open>Verdicts\<close>

definition critic_verdicts :: "string list" where
  "critic_verdicts = [''pending'', ''confirmed'', ''possible'', ''disproved'', ''duplicate'', ''out_of_scope'', ''informational'']"

definition DefaultCriticActor :: string where "DefaultCriticActor = ''model''"

definition SetCriticVerdict :: "env \<Rightarrow> string \<Rightarrow> string \<Rightarrow> string \<Rightarrow> string list \<Rightarrow> value op" where
  "SetCriticVerdict ev findingID verdict reasoning actors =
     bindE (guard (verdict \<in> set critic_verdicts) (ERefused ''invalid critic verdict'' [PyReprStr verdict])) (\<lambda>_.
     bindE (LoadFinding ev findingID) (\<lambda>finding.
     bindE (guard (\<not> IsTerminal (ObjStr finding ''status''))
              (ERefused ''critic verdict on terminal finding'' [findingID, ObjStr finding ''status''])) (\<lambda>_.
       let ver = set_field (asDict (ObjAt finding ''verification'')) ''critic_verdict'' (VStr verdict);
           f1 = set_field finding ''verification'' ver;
           meta = set_field (asDict (ObjAt f1 ''dedup_meta'')) ''critic_reasoning'' (VStr reasoning);
           f2 = set_field f1 ''dedup_meta'' meta;
           who = (case actors of a # _ \<Rightarrow> if TrimSpace a \<noteq> [] then TrimSpace a else DefaultCriticActor | [] \<Rightarrow> DefaultCriticActor)
       in SaveThenLog ev f2 (\<lambda>_. Log ev ''finding.critic'' (Some findingID)
            (Some (VObj [(''verdict'', VStr verdict), (''actor'', VStr who)]))))))"

definition TriagerOutlooks :: "string list" where
  "TriagerOutlooks = [''likely'', ''uncertain'', ''unlikely'']"

definition SetTriagerOutlook :: "env \<Rightarrow> string \<Rightarrow> string \<Rightarrow> string \<Rightarrow> value op" where
  "SetTriagerOutlook ev findingID outcome reason =
     bindE (guard (list_ex (\<lambda>o'. o' = outcome) TriagerOutlooks) (ERefused ''invalid triager outlook'' [PyReprStr outcome])) (\<lambda>_.
     let stripped = TrimSpace reason in
     bindE (guard (\<not> RuneCount stripped < 15) EShortReason) (\<lambda>_.
     bindE (LoadFinding ev findingID) (\<lambda>finding.
       let ver = set_field (asDict (ObjAt finding ''verification'')) ''triager_outlook''
                   (VObj [(''outcome'', VStr outcome), (''reason'', VStr stripped)])
       in SaveThenLog ev (set_field finding ''verification'' ver)
            (\<lambda>_. Log ev ''finding.triager_outlook'' (Some findingID) (Some (VObj [(''outcome'', VStr outcome)]))))))"

definition SetShieldAdjudication :: "env \<Rightarrow> string \<Rightarrow> bool \<Rightarrow> string \<Rightarrow> string \<Rightarrow> value op" where
  "SetShieldAdjudication ev findingID extracts reasoning actor0 =
     (let who = (if actor0 = [] then ''orchestrator'' else actor0) in
      bindE (LoadFinding ev findingID) (\<lambda>finding.
      bindE (guard (\<not> RuneCount reasoning < 15) EShortReason) (\<lambda>_.
      bindE (nowIso ev) (\<lambda>t.
        let ver = set_field (asDict (ObjAt finding ''verification'')) ''shield_adjudication''
                    (VObj [(''extraction_despite_intent'', VBool extracts), (''reasoning'', VStr reasoning), (''at'', VStr t),
                           (''actor'', VStr who)])
        in SaveThenLog ev (set_field finding ''verification'' ver)
             (\<lambda>_. Log ev ''finding.shield_adjudication'' (Some findingID)
                 (Some (VObj [(''extracts'', VBool extracts), (''actor'', VStr who)])))))))"

text \<open>The case mapping of the second search is the library's Unicode table.\<close>

fun first_match :: "nat \<Rightarrow> (value \<Rightarrow> bool) \<Rightarrow> value list \<Rightarrow> (nat \<times> value) option" where
  "first_match i P [] = None"
| "first_match i P (p # ps) = (if vkind p = KObj \<and> P p then Some (i, p) else first_match (Suc i) P ps)"

definition auditPrecondition :: "env \<Rightarrow> value \<Rightarrow> nat \<Rightarrow> value \<Rightarrow> string \<Rightarrow> string \<Rightarrow> value op" where
  "auditPrecondition ev finding i p loggedDesc val =
     (let p1 = set_field p ''enforced_by_poc'' (VStr val);
          pre = ObjAt finding ''preconditions''
      in SaveThenLog ev (set_field finding ''preconditions'' (setA pre ((vA pre)[i := p1])))
           (\<lambda>f. Log ev ''finding.precondition_audited'' (Some (ObjStr finding ''finding_id''))
              (Some (VObj [(''description'', VStr loggedDesc), (''enforced'', VStr val)]))))"

definition MarkPrecondition :: "(string \<Rightarrow> string) \<Rightarrow> env \<Rightarrow> string \<Rightarrow> string \<Rightarrow> bool \<Rightarrow> value op" where
  "MarkPrecondition lower ev findingID description enforced =
     bindE (LoadFinding ev findingID) (\<lambda>finding.
       let val = (if enforced then ''true'' else ''false'');
           pre = vA (ObjAt finding ''preconditions'');
           low = lower description
       in (case first_match 0 (\<lambda>p. ObjStr p ''description'' = description) pre of
             Some (i, p) \<Rightarrow> auditPrecondition ev finding i p description val
           | None \<Rightarrow>
              (case first_match 0 (\<lambda>p. let desc = lower (ObjStr p ''description'') in contains desc low \<or> contains low desc) pre of
                 Some (i, p) \<Rightarrow> auditPrecondition ev finding i p (ObjStr p ''description'') val
               | None \<Rightarrow> fail (ERefused ''no precondition matching'' [findingID, PyReprStr description]))))"

section \<open>The adversarial game\<close>

definition AdversarialGameFieldMin :: nat where "AdversarialGameFieldMin = 20"

definition AdversarialGameFields :: "string list" where
  "AdversarialGameFields = [''who_profits'', ''profit_mechanism'', ''challenge_interplay'', ''strongest_attacker'']"

definition LivenessClasses :: "string list" where
  "LivenessClasses = [''chain-freeze'', ''sequencer-halt'', ''liveness'']"

definition objStrAt :: "value \<Rightarrow> string \<Rightarrow> string \<Rightarrow> string" where
  "objStrAt v k1 k2 = (let sub = ObjAt v k1 in if vkind sub \<noteq> KObj then [] else ObjStr sub k2)"

definition strListAt :: "value \<Rightarrow> string \<Rightarrow> string \<Rightarrow> string list" where
  "strListAt v k1 k2 =
     (let sub = ObjAt v k1; arr = ObjAt sub k2
      in if vkind sub \<noteq> KObj \<or> vkind arr \<noteq> KArr then [] else valueStrings arr)"

definition IsLivenessFinding :: "(string \<Rightarrow> string) \<Rightarrow> value \<Rightarrow> bool" where
  "IsLivenessFinding lower f \<longleftrightarrow>
     objStrAt f ''root_cause'' ''class'' \<in> set LivenessClasses \<or> objStrAt f ''economic_impact'' ''kind'' = ''liveness'' \<or>
     list_ex (IsLivenessTerminal lower) (strListAt f ''capabilities'' ''granted'')"

definition AdversarialGameDeficits :: "value \<Rightarrow> string list" where
  "AdversarialGameDeficits f =
     (let ag = ObjAt f ''adversarial_game'' in
      if vkind ag \<noteq> KObj then [''missing'']
      else filter (\<lambda>key. let v = ObjAt ag key in vkind v \<noteq> KStr \<or> RuneCount (vS v) < AdversarialGameFieldMin)
             AdversarialGameFields)"

text \<open>The four arguments in the order of the fields.\<close>

definition SetAdversarialGame :: "env \<Rightarrow> string \<Rightarrow> string \<Rightarrow> string \<Rightarrow> string \<Rightarrow> string \<Rightarrow> value op" where
  "SetAdversarialGame ev findingID whoProfits profitMechanism challengeInterplay strongestAttacker =
     (let fields = zip AdversarialGameFields [whoProfits, profitMechanism, challengeInterplay, strongestAttacker] in
      case find (\<lambda>kt. RuneCount (snd kt) < AdversarialGameFieldMin) fields of
        Some kt \<Rightarrow> fail (ERefused ''adversarial_game field too short'' [fst kt])
      | None \<Rightarrow>
          bindE (LoadFinding ev findingID) (\<lambda>finding.
          bindE (SaveFinding ev (set_field finding ''adversarial_game'' (VObj (map (\<lambda>kt. (fst kt, VStr (snd kt))) fields)))) (\<lambda>f.
          bindE (Log ev ''finding.adversarial_game_set'' (Some findingID)
                   (Some (VObj (map (\<lambda>kt. (fst kt @ ''_chars'', VInt (int (RuneCount (snd kt))))) fields)))) (\<lambda>_.
            ret f))))"

end
