(* ===== verification/SaveFacts.thy ===== *)
theory SaveFacts
  imports FindingStore RowLog PhaseFacts
begin

text \<open>
  What a finding save leaves behind. The first part is a contract for save-then-log under any write
  faults, the second a triple for it on an undisturbed campaign: the file holds the finding and the
  ledger its event, or both are what they were, and no third file is touched.
\<close>

section \<open>The file of a finding\<close>

text \<open>The part of the finding schema the paths rely on: the pattern of \<open>finding_id\<close> admits no slash.\<close>

definition finding_schema_ok :: "env \<Rightarrow> bool" where
  "finding_schema_ok ev \<longleftrightarrow> (\<forall>f. validates ev ''finding'' f \<longrightarrow> vkind f = KObj \<and> slash \<notin> set (ObjStr f ''finding_id''))"

lemma FindingPath_plain: "slash \<notin> set n \<Longrightarrow> FindingPath n = ''findings/'' @ n @ ''.json''"
proof -
  assume n: "slash \<notin> set n"
  have "plain (n @ ''.json'')" "plain FindingsDir"
    using n by (auto simp: plain_def FindingsDir_def slash_def)
  then have "JoinPath [FindingsDir, n @ ''.json''] = join [slash] [FindingsDir, n @ ''.json'']"
    by (intro JoinPath_plain) simp_all
  then show ?thesis by (simp add: FindingPath_def FindingsDir_def slash_def)
qed

lemma FindingPath_apart:
  "slash \<notin> set n \<Longrightarrow> FindingPath n \<noteq> EventsPath" "slash \<notin> set n \<Longrightarrow> FindingPath n \<noteq> StatePath"
  "slash \<notin> set n \<Longrightarrow> FindingPath n \<noteq> WaiversPath"
  by (simp_all add: FindingPath_plain EventsPath_def StatePath_def WaiversPath_def)

abbreviation finding_path :: "value \<Rightarrow> string" where
  "finding_path f \<equiv> FindingPath (ObjStr f ''finding_id'')"

abbreviation finding_bytes :: "value \<Rightarrow> string" where
  "finding_bytes f \<equiv> DumpIndented f @ NL"

definition touched :: "value \<Rightarrow> string \<Rightarrow> value" where
  "touched finding t = set_field finding ''updated_at'' (VStr t)"

lemma touched_fields [simp]:
  "ObjStr (touched f t) ''finding_id'' = ObjStr f ''finding_id''" "vkind (touched f t) = vkind f"
  "k \<noteq> ''updated_at'' \<Longrightarrow> ObjAt (touched f t) k = ObjAt f k" "k \<noteq> ''updated_at'' \<Longrightarrow> ObjStr (touched f t) k = ObjStr f k"
  by (simp_all add: touched_def)

lemma WriteFinding: "WriteJson ev p f [] w = replace_file p (finding_bytes f) w"
  by (simp add: WriteJson_def bindE_def)

lemma SaveFinding_cases:
  obtains (refused) e where "SaveFinding ev finding w = (Inl e, w\<lparr>ticks := Suc (ticks w)\<rparr>)"
  | (io) e where "SaveFinding ev finding w = (Inl e, spend (w\<lparr>ticks := Suc (ticks w)\<rparr>))"
  | (saved) f where "f = touched finding (now ev (ticks w))" "validates ev ''finding'' f"
      "SaveFinding ev finding w = (Inr f, spend (put_file (finding_path finding) (finding_bytes f) (w\<lparr>ticks := Suc (ticks w)\<rparr>)))"
proof -
  let ?f = "touched finding (now ev (ticks w))" and ?w = "w\<lparr>ticks := Suc (ticks w)\<rparr>"
  have run: "SaveFinding ev finding w = (if \<not> validates ev ''finding'' ?f then (Inl (ESchema ''finding''), ?w)
      else if ObjStr finding ''finding_id'' = [] then (Inl (ERefused ''finding_id'' []), ?w)
      else (case next_fault w of IOok \<Rightarrow> (Inr ?f, spend (put_file (finding_path finding) (finding_bytes ?f) ?w))
        | IOfail n \<Rightarrow> (Inl (EIO (finding_path finding)), spend ?w)))"
    by (simp add: SaveFinding_def bindE_def nowIso_def Validate_def Let_def WriteFinding replace_file_def next_fault_def
        flip: touched_def split: fault.splits)
  show thesis
  proof (cases "validates ev ''finding'' ?f \<and> ObjStr finding ''finding_id'' \<noteq> []")
    case True
    then show ?thesis using run saved [of ?f] io by (cases "next_fault w") auto
  next
    case False
    then have "\<exists>e. SaveFinding ev finding w = (Inl e, ?w)" using run by (simp only: if_True if_False de_Morgan_conj split: if_splits) auto
    then show ?thesis using refused by blast
  qed
qed

section \<open>Save, then log, whatever the disk does\<close>

text \<open>The contract of the log: it leaves the finding's file alone.\<close>

locale logged_save =
  fixes p :: string and logf :: "value \<Rightarrow> 'a op"
  assumes log_keeps: "keeps_to (file_same p) (logf f)"
begin

lemma restored:
  assumes "restore_after p prev e w = (r, w')" "kv_find (files w) p = Some (File True c)"
  shows "\<exists>e'. r = Inl e' \<and> ((\<exists>e2. e' = EUnwindFailed e e2) \<or> e' = e \<and> kv_find (files w') p = map_option (File True) prev)"
proof (cases prev)
  case None
  have "kv_find (files (del_file p w)) p = None" by (auto simp: del_file_def kv_find_None_iff)
  with None assms show ?thesis
    by (auto simp: restore_after_def restoreBytes_def catchE_def remove_file_def world_simps split: fault.splits)
next
  case (Some raw)
  with assms show ?thesis
    by (auto simp: restore_after_def restoreBytes_def catchE_def write_file_def world_simps accessible_def split: fault.splits)
qed

lemma prevBytes_cases:
  obtains (read) prev where "prevBytes p w = (Inr prev, w)" "kv_find (files w) p = map_option (File True) prev"
  | (denied) e where "prevBytes p w = (Inl e, w)"
  by (cases rule: ReadFile_cases [of p w]) (auto simp: prevBytes_def catchE_def)

lemma atomic:
  assumes run: "SaveThenLog ev finding logf w = (r, w')" and p: "p = finding_path finding"
  shows "case r of
      Inr f \<Rightarrow> (\<exists>t. f = touched finding t) \<and> validates ev ''finding'' f \<and> content_of p w' = finding_bytes f \<and>
        (\<exists>x w1. logf f w1 = (Inr x, w'))
    | Inl e \<Rightarrow> (\<exists>e1 e2. e = EUnwindFailed e1 e2) \<or> file_same p w w'"
proof (cases rule: prevBytes_cases [of w])
  case (denied e)
  with run p have "r = Inl e" "w' = w" by (simp_all add: SaveThenLog_def Let_def bindE_def)
  then show ?thesis by (simp add: file_same_def)
next
  case (read prev)
  show ?thesis
  proof (cases rule: SaveFinding_cases [of ev finding w])
    case (refused e)
    with run p read show ?thesis by (auto simp: SaveThenLog_def Let_def bindE_def file_same_def)
  next
    case (io e)
    with run p read show ?thesis by (auto simp: SaveThenLog_def Let_def bindE_def file_same_def world_simps)
  next
    case (saved f)
    let ?w1 = "spend (put_file p (finding_bytes f) (w\<lparr>ticks := Suc (ticks w)\<rparr>))"
    have at1: "kv_find (files ?w1) p = Some (File True (finding_bytes f))"
      using read(2) by (auto simp: world_simps accessible_def split: option.splits)
    obtain rl w2 where l: "logf f ?w1 = (rl, w2)" by (cases "logf f ?w1")
    have at2: "kv_find (files w2) p = Some (File True (finding_bytes f))"
      using log_keeps [of f] l at1 unfolding keeps_to_def file_same_def by (metis snd_conv)
    have body: "(case rl of Inl e \<Rightarrow> restore_after p prev e | Inr _ \<Rightarrow> ret f) w2 = (r, w')"
      using run p read(1) saved(3) l by (simp add: SaveThenLog_def Let_def bindE_def catchE_def split: sum.splits)
    show ?thesis
    proof (cases rl)
      case (Inl e)
      with body restored [OF _ at2, of prev e r w'] read(2) show ?thesis by (auto simp: file_same_def)
    next
      case (Inr x)
      with body have "r = Inr f" "w' = w2" by simp_all
      then show ?thesis using saved l Inr at2 by (auto simp: content_of_def)
    qed
  qed
qed

end

text \<open>Every log call of the package is \<open>Log\<close>, which touches the ledger and the state only.\<close>

interpretation finding_log: logged_save "''findings/'' @ n" "\<lambda>f. Log ev (ty f) (ref f) (data f)"
  by unfold_locales (rule Log_file_same, simp_all add: EventsPath_def StatePath_def)

section \<open>Save, then log, on an undisturbed campaign\<close>

text \<open>What the log and the state file do not show: every other file.\<close>

type_synonym file_map = "string \<Rightarrow> fnode option"

definition aside :: "file_map \<Rightarrow> world \<Rightarrow> bool" where
  "aside fs w \<longleftrightarrow> (\<forall>q. q \<noteq> EventsPath \<longrightarrow> q \<noteq> StatePath \<longrightarrow> kv_find (files w) q = fs q)"

lemma of_files_aside: "of_files (aside fs)"
  by (auto simp: of_files_def aside_def)

lemma aside_refl: "aside (kv_find (files w)) w"
  by (simp add: aside_def)

lemma v_aside:
  assumes "keeps_to others_same m" "valid P m Q E"
  shows "valid (\<lambda>w. P w \<and> aside fs w) m (\<lambda>x w. Q x w \<and> aside fs w) (\<lambda>w. E w \<and> aside fs w)"
proof (rule validI [OF valid_grows [OF assms(2)]])
  fix w r w' assume P: "P w \<and> aside fs w" and run: "m w = (r, w')" and s: "size_ok w'"
  have "others_same w w'" using assms(1) run unfolding keeps_to_def by (metis snd_conv)
  then have "aside fs w'" using P by (simp add: others_same_def aside_def)
  then show "case r of Inr x \<Rightarrow> Q x w' \<and> aside fs w' | Inl e \<Rightarrow> E w' \<and> aside fs w'"
    using valid_run [OF assms(2) _ run s] P by (cases r) auto
qed

text \<open>A write to a finding's file leaves the ledger, the state and the waivers alone.\<close>

lemma healthy_beside:
  assumes h: "healthy ev st es w" and same: "\<And>q. q \<noteq> p \<Longrightarrow> kv_find (files w') q = kv_find (files w) q"
    and p: "p \<noteq> EventsPath" "p \<noteq> StatePath" "p \<noteq> WaiversPath" and u: "undisturbed w'"
  shows "healthy ev st es w'"
proof -
  have "readWaiverRowsR12 w' = readWaiverRowsR12 w" using same p by (intro readWaiver_cong) auto
  moreover have "State ev w' = (Inr st, w')"
    by (rule State_transfer [of ev w _ w]) (use h same p in \<open>auto simp: healthy_def\<close>)
  ultimately show ?thesis
    using h u same p by (auto simp: healthy_def content_of_def accessible_def saved_def waivers_ok_def)
qed

lemma may_lag_beside:
  assumes "may_lag ev st es w" "\<And>q. q \<noteq> p \<Longrightarrow> kv_find (files w') q = kv_find (files w) q"
    "p \<noteq> EventsPath" "p \<noteq> StatePath" "p \<noteq> WaiversPath" "undisturbed w'"
  shows "may_lag ev st es w'"
  using assms healthy_beside [of ev st _ w p w'] unfolding may_lag_def by blast

text \<open>An identifier with a slash never passes the schema, so nothing is written.\<close>

lemma slash_refused:
  assumes "finding_schema_ok ev" "slash \<in> set (ObjStr finding ''finding_id'')"
  shows "\<exists>e w1. SaveThenLog ev finding logf w = (Inl e, w1) \<and> files w1 = files w \<and> (undisturbed w \<longrightarrow> undisturbed w1)"
proof -
  have "\<not> validates ev ''finding'' (touched finding t)" for t
    using assms by (auto simp: finding_schema_ok_def)
  then have "SaveFinding ev finding w = (Inl (ESchema ''finding''), w\<lparr>ticks := Suc (ticks w)\<rparr>)"
    by (simp add: SaveFinding_def bindE_def nowIso_def Validate_def Let_def flip: touched_def)
  then show ?thesis
    by (cases rule: ReadFile_cases [of "finding_path finding" w])
       (auto simp: SaveThenLog_def Let_def bindE_def prevBytes_def catchE_def undisturbed_def)
qed

lemma grows_off_ledger: "p \<noteq> EventsPath \<Longrightarrow> (\<And>w q. q \<noteq> p \<Longrightarrow> kv_find (files (snd (m w))) q = kv_find (files w) q) \<Longrightarrow> keeps_to ledger_grows m"
  by (simp add: keeps_to_def ledger_grows_def content_of_def)

lemma prevBytes_pure: "snd (prevBytes p w) = w"
  by (cases rule: ReadFile_cases [of p w]) (auto simp: prevBytes_def catchE_def)

lemma restoreBytes_other: "q \<noteq> p \<Longrightarrow> kv_find (files (snd (restoreBytes p prev w))) q = kv_find (files w) q"
  by (cases prev) (auto simp: restoreBytes_def remove_file_other write_file_def world_simps split: fault.splits)

lemma grows_restore_after: "p \<noteq> EventsPath \<Longrightarrow> keeps_to ledger_grows (restore_after p prev e)"
  unfolding restore_after_def
  by (intro grows.resp_catch grows_off_ledger [OF _ restoreBytes_other])
     (auto intro: grows.resp_fail split: sum.splits)

lemma SaveFinding_other: "q \<noteq> finding_path finding \<Longrightarrow> kv_find (files (snd (SaveFinding ev finding w))) q = kv_find (files w) q"
  by (cases rule: SaveFinding_cases [of ev finding w]) (auto simp: world_simps)

lemma grows_SaveThenLog:
  assumes "finding_schema_ok ev" "\<And>f. keeps_to ledger_grows (logf f)"
  shows "keeps_to ledger_grows (SaveThenLog ev finding logf)"
proof (cases "slash \<in> set (ObjStr finding ''finding_id'')")
  case True
  show ?thesis unfolding keeps_to_def
  proof
    fix w show "ledger_grows w (snd (SaveThenLog ev finding logf w))"
      using slash_refused [OF assms(1) True, of logf w] by (auto simp: ledger_grows_def content_of_def)
  qed
next
  case False
  note p = FindingPath_apart(1) [OF False]
  have steps: "keeps_to ledger_grows (prevBytes (finding_path finding))" "keeps_to ledger_grows (SaveFinding ev finding)"
    by (rule grows.resp_pure [OF prevBytes_pure], rule grows_off_ledger [OF p SaveFinding_other])
  show ?thesis unfolding SaveThenLog_def Let_def
    by (intro grows.resp_bind grows.resp_catch steps assms(2))
       (auto intro: grows_restore_after [OF p] grows.resp_ret split: sum.splits)
qed

section \<open>The triple\<close>

lemma v_prevBytes:
  "valid P (prevBytes p) (\<lambda>prev w. P w \<and> kv_find (files w) p = map_option (File True) prev) P"
proof (rule validI [OF grows.resp_pure [OF prevBytes_pure]])
  fix w r w' assume P: "P w" and run: "prevBytes p w = (r, w')"
  have "w' = w" using prevBytes_pure [of p w] run by simp
  then show "case r of Inr prev \<Rightarrow> P w' \<and> kv_find (files w') p = map_option (File True) prev | Inl e \<Rightarrow> P w'"
    using P run by (cases rule: ReadFile_cases [of p w]) (auto simp: prevBytes_def catchE_def)
qed

text \<open>The state of a campaign next to its other files.\<close>

definition beside :: "env \<Rightarrow> value \<Rightarrow> value list \<Rightarrow> file_map \<Rightarrow> world \<Rightarrow> bool" where
  "beside ev st es fs w \<longleftrightarrow> healthy ev st es w \<and> aside fs w"

definition lag_beside :: "env \<Rightarrow> value \<Rightarrow> value list \<Rightarrow> file_map \<Rightarrow> world \<Rightarrow> bool" where
  "lag_beside ev st es fs w \<longleftrightarrow> may_lag ev st es w \<and> aside fs w"

lemma of_files_beside: "of_files (beside ev st es fs)" "of_files (lag_beside ev st es fs)"
  unfolding beside_def lag_beside_def by (intro of_files_rules of_files_aside of_files_may_lag)+

lemma beside_lag: "beside ev st es fs w \<Longrightarrow> lag_beside ev st es fs w"
  by (simp add: beside_def lag_beside_def may_lag_def)

lemma v_SaveFinding:
  assumes ok: "slash \<notin> set (ObjStr finding ''finding_id'')"
    and fs: "fs (finding_path finding) = map_option (File True) prev"
  shows "valid (beside ev st es fs) (SaveFinding ev finding)
    (\<lambda>f w. f \<in> touched finding ` range (now ev) \<and> validates ev ''finding'' f \<and>
       beside ev st es (fs(finding_path finding \<mapsto> File True (finding_bytes f))) w)
    (beside ev st es fs)"
proof (rule validI [OF grows_off_ledger [OF FindingPath_apart(1) [OF ok] SaveFinding_other]])
  fix w r w' assume b: "beside ev st es fs w" and run: "SaveFinding ev finding w = (r, w')"
  note p = FindingPath_apart [OF ok]
  have h: "healthy ev st es w" and a: "aside fs w" using b by (simp_all add: beside_def)
  have u: "undisturbed (w\<lparr>ticks := t\<rparr>)" for t using h by (simp add: healthy_def undisturbed_def)
  show "case r of Inr f \<Rightarrow> f \<in> touched finding ` range (now ev) \<and> validates ev ''finding'' f \<and>
       beside ev st es (fs(finding_path finding \<mapsto> File True (finding_bytes f))) w' | Inl e \<Rightarrow> beside ev st es fs w'"
  proof (cases rule: SaveFinding_cases [of ev finding w])
    case (refused e)
    then have "files w' = files w" "undisturbed w'" "r = Inl e" using run u by auto
    then show ?thesis using of_filesD [OF of_files_beside(1) b, of w'] by simp
  next
    case (io e)
    then have "files w' = files w" "undisturbed w'" "r = Inl e" using run u by (auto simp: world_simps undisturbed_def)
    then show ?thesis using of_filesD [OF of_files_beside(1) b, of w'] by simp
  next
    case (saved f)
    have r: "r = Inr f" "w' = spend (put_file (finding_path finding) (finding_bytes f) (w\<lparr>ticks := Suc (ticks w)\<rparr>))"
      using saved(3) run by simp_all
    have "healthy ev st es w'"
      by (rule healthy_beside [OF h _ p]) (use u in \<open>auto simp: r world_simps undisturbed_def\<close>)
    moreover have "kv_find (files w) (finding_path finding) = map_option (File True) prev"
      using a p fs by (simp add: aside_def)
    then have "aside (fs(finding_path finding \<mapsto> File True (finding_bytes f))) w'"
      using a by (auto simp: aside_def r world_simps accessible_def split: option.splits)
    ultimately show ?thesis using r(1) saved by (auto simp: beside_def)
  qed
qed

lemma v_restore_after:
  fixes Q :: "'q \<Rightarrow> world \<Rightarrow> bool"
  assumes ok: "slash \<notin> set n" and fs: "fs (FindingPath n) = map_option (File True) prev"
  shows "valid (lag_beside ev st es (fs(FindingPath n \<mapsto> File True c))) (restore_after (FindingPath n) prev e) Q (lag_beside ev st es fs)"
proof (rule validI [OF grows_restore_after [OF FindingPath_apart(1) [OF ok]]])
  let ?p = "FindingPath n"
  note p = FindingPath_apart [OF ok]
  fix w w' and r :: "error + 'q" assume b: "lag_beside ev st es (fs(?p \<mapsto> File True c)) w" and run: "restore_after ?p prev e w = (r, w')"
  have l: "may_lag ev st es w" and a: "aside (fs(?p \<mapsto> File True c)) w" using b by (simp_all add: lag_beside_def)
  have u: "undisturbed w" using l by (auto simp: may_lag_def healthy_def)
  have at: "kv_find (files w) ?p = Some (File True c)" using a p by (simp add: aside_def)
  have nf: "next_fault w = IOok" using u by (simp add: next_fault_def undisturbed_def)
  have "\<exists>w1. restoreBytes ?p prev w = (Inr (), w1) \<and> kv_find (files w1) ?p = fs ?p \<and> undisturbed w1 \<and>
      (\<forall>q. q \<noteq> ?p \<longrightarrow> kv_find (files w1) q = kv_find (files w) q)"
  proof (cases prev)
    case None
    have d: "kv_find (files (del_file ?p w)) ?p = None" by (auto simp: del_file_def kv_find_None_iff)
    have "restoreBytes ?p prev w = (Inr (), spend (del_file ?p w))" using None at nf by (simp add: restoreBytes_def remove_file_def)
    moreover have "undisturbed (spend (del_file ?p w))" using u by (simp add: undisturbed_def spend_def del_file_def)
    ultimately show ?thesis using d fs None by (simp add: world_simps)
  next
    case (Some raw)
    have "restoreBytes ?p prev w = (Inr (), spend (put_file ?p raw w))" using Some nf by (simp add: restoreBytes_def write_file_def)
    moreover have "undisturbed (spend (put_file ?p raw w))" using u by (simp add: undisturbed_def world_simps)
    ultimately show ?thesis using at fs Some by (simp add: world_simps accessible_def)
  qed
  then have r: "r = Inl e" "kv_find (files w') ?p = fs ?p" "undisturbed w'" "\<And>q. q \<noteq> ?p \<Longrightarrow> kv_find (files w') q = kv_find (files w) q"
    using run by (auto simp: restore_after_def catchE_def)
  have "may_lag ev st es w'" by (rule may_lag_beside [OF l r(4) p r(3)])
  moreover have "aside fs w'" using a r(2,4) unfolding aside_def by (metis fun_upd_apply)
  ultimately show "case r of Inr x \<Rightarrow> Q x w' | Inl e \<Rightarrow> lag_beside ev st es fs w'" using r(1) by (simp add: lag_beside_def)
qed

text \<open>A finding saved next to a settled campaign whose newest event is its decision.\<close>

definition save_logged ::
    "env \<Rightarrow> value \<Rightarrow> value list \<Rightarrow> file_map \<Rightarrow> value \<Rightarrow> string \<Rightarrow> string option \<Rightarrow> value \<Rightarrow> value \<Rightarrow> world \<Rightarrow> bool" where
  "save_logged ev st es fs finding ty ref data f w \<longleftrightarrow> f \<in> touched finding ` range (now ev) \<and> validates ev ''finding'' f \<and>
     (\<exists>st'. same_fields st st' \<and> appended ev st' es (window_ok es (vA (ObjAt st ''events''))) ty ref data w) \<and>
     aside (fs(finding_path finding \<mapsto> File True (finding_bytes f))) w"

lemma v_SaveThenLog:
  assumes ev: "env_ok ev" "finding_schema_ok ev" and ty: "ty \<noteq> ''completion.waived''" and ar: "args_ok ty ref (Some data)"
    and logf: "\<And>t. logf (touched finding t) = Log ev ty ref (Some data)" "\<And>f. keeps_to ledger_grows (logf f)"
  shows "valid (beside ev st es fs) (SaveThenLog ev finding logf) (save_logged ev st es fs finding ty ref data)
    (lag_beside ev st es fs)"
proof (cases "slash \<in> set (ObjStr finding ''finding_id'')")
  case True
  show ?thesis
  proof (rule validI [OF grows_SaveThenLog [OF ev(2) logf(2)]])
    fix w r w' assume b: "beside ev st es fs w" and run: "SaveThenLog ev finding logf w = (r, w')"
    with slash_refused [OF ev(2) True, of logf w] obtain e where e: "r = Inl e" "files w' = files w"
      "undisturbed w \<longrightarrow> undisturbed w'" by auto
    have "beside ev st es fs w'" by (rule of_filesD [OF of_files_beside(1) b e(2)]) (use e(3) in blast)
    then show "case r of Inr f \<Rightarrow> save_logged ev st es fs finding ty ref data f w' | Inl e \<Rightarrow> lag_beside ev st es fs w'"
      using e(1) beside_lag by simp
  qed
next
  case False
  let ?p = "finding_path finding"
  note p = FindingPath_apart [OF False]
  let ?rest = "\<lambda>prev f. catchE (logf f) (\<lambda>r. case r of Inl e \<Rightarrow> restore_after ?p prev e | Inr _ \<Rightarrow> ret f)"
  let ?Q = "save_logged ev st es fs finding ty ref data" and ?E = "lag_beside ev st es fs"
  let ?fs = "\<lambda>f. fs(?p \<mapsto> File True (finding_bytes f))"
  have g: "keeps_to ledger_grows (?rest prev f)" for prev f
    by (intro grows.resp_catch logf(2)) (auto intro: grows_restore_after [OF p(1)] grows.resp_ret split: sum.splits)
  have g2: "keeps_to ledger_grows (bindE (SaveFinding ev finding) (?rest prev))" for prev
    by (rule grows.resp_bind [OF grows_off_ledger [OF p(1) SaveFinding_other] g])
  have rest: "valid (beside ev st es (?fs f)) (?rest prev f) ?Q ?E"
    if f: "f \<in> touched finding ` range (now ev)" "validates ev ''finding'' f" and prev: "fs ?p = map_option (File True) prev" for prev f
  proof (rule v_catch)
    have l: "logf f = Log ev ty ref (Some data)" using f logf(1) by auto
    show "valid (beside ev st es (?fs f)) (logf f)
        (\<lambda>_ w. (\<exists>st'. same_fields st st' \<and> appended ev st' es (window_ok es (vA (ObjAt st ''events''))) ty ref data w) \<and> aside (?fs f) w)
        (lag_beside ev st es (?fs f))"
      unfolding l beside_def lag_beside_def
      by (rule v_weaken [OF v_aside [OF others.resp_Log v_Log [OF ev(1) ar ty, of st es], of "?fs f"]])
         (auto simp: data_value_def may_lag_def)
    show "valid (\<lambda>w. (\<exists>st'. same_fields st st' \<and> appended ev st' es (window_ok es (vA (ObjAt st ''events''))) ty ref data w) \<and> aside (?fs f) w)
        (case Inr x of Inl e \<Rightarrow> restore_after ?p prev e | Inr _ \<Rightarrow> ret f) ?Q ?E" for x :: "value"
      using f by (auto intro!: v_ret simp: save_logged_def)
    show "valid (lag_beside ev st es (?fs f)) (case Inl e of Inl e \<Rightarrow> restore_after ?p prev e | Inr _ \<Rightarrow> ret f) ?Q ?E" for e
      using v_restore_after [where fs = fs, OF False prev] by simp
  qed
  have save: "valid (beside ev st es fs) (bindE (SaveFinding ev finding) (?rest prev)) ?Q ?E"
    if prev: "fs ?p = map_option (File True) prev" for prev
  proof (rule v_bind)
    show "valid (beside ev st es fs) (SaveFinding ev finding)
      (\<lambda>f w. (f \<in> touched finding ` range (now ev) \<and> validates ev ''finding'' f) \<and> beside ev st es (?fs f) w) ?E"
      by (rule v_weaken [OF v_SaveFinding [where fs = fs, OF False prev]]) (auto intro: beside_lag)
    show "valid (\<lambda>w. (f \<in> touched finding ` range (now ev) \<and> validates ev ''finding'' f) \<and> beside ev st es (?fs f) w) (?rest prev f) ?Q ?E" for f
    proof (rule v_pure [of _ "f \<in> touched finding ` range (now ev) \<and> validates ev ''finding'' f"])
      show "keeps_to ledger_grows (?rest prev f)" by (rule g)
      assume "f \<in> touched finding ` range (now ev) \<and> validates ev ''finding'' f"
      then show "valid (\<lambda>w. (f \<in> touched finding ` range (now ev) \<and> validates ev ''finding'' f) \<and> beside ev st es (?fs f) w) (?rest prev f) ?Q ?E"
        by (intro v_weaken [OF rest [OF _ _ prev]]) auto
    qed blast
  qed
  show ?thesis unfolding SaveThenLog_def Let_def
  proof (rule v_bind)
    show "valid (beside ev st es fs) (prevBytes ?p) (\<lambda>prev w. fs ?p = map_option (File True) prev \<and> beside ev st es fs w) ?E"
      by (rule v_weaken [OF v_prevBytes [of "beside ev st es fs"]]) (use p in \<open>auto simp: beside_def aside_def lag_beside_def may_lag_def\<close>)
    show "valid (\<lambda>w. fs ?p = map_option (File True) prev \<and> beside ev st es fs w) (bindE (SaveFinding ev finding) (?rest prev)) ?Q ?E" for prev
    proof (rule v_pure [of _ "fs ?p = map_option (File True) prev"])
      show "keeps_to ledger_grows (bindE (SaveFinding ev finding) (?rest prev))" by (rule g2)
      assume "fs ?p = map_option (File True) prev"
      then show "valid (\<lambda>w. fs ?p = map_option (File True) prev \<and> beside ev st es fs w) (bindE (SaveFinding ev finding) (?rest prev)) ?Q ?E"
        by (intro v_weaken [OF save]) auto
    qed blast
  qed
qed

end
