(* ===== verification/TransitionFacts.thy ===== *)
theory TransitionFacts
  imports Transitions SaveFacts GateFacts
begin

text \<open>
  The move of a finding taken apart: everything before the slot payment only reads, the payment is a
  state decision, and the status write is one save-then-log. The inversion says what a successful
  move went through; the triples say what it leaves on an undisturbed campaign.
\<close>

section \<open>Before the payment\<close>

lemma snd_stat_file: "snd (stat_file p w) = w"
  by (simp add: stat_file_def)

lemma snd_ReadJson: "snd (ReadJson p w) = w"
  by (simp add: ReadJson_def snd_bindE world_simps)

lemma snd_catch: "snd (m w) = w \<Longrightarrow> (\<And>r. snd (k r w) = w) \<Longrightarrow> snd (catchE m k w) = w"
  by (auto simp: catchE_def split: prod.splits)

lemma snd_LoadFinding: "snd (LoadFinding ev n w) = w"
  unfolding LoadFinding_def Let_def
  by (rule snd_catch [OF snd_stat_file]) (auto simp: snd_ReadJson split: sum.splits)

lemma LoadFinding_wf: "LoadFinding ev n w = (Inr f, w') \<Longrightarrow> wf_value f"
  by (auto simp: LoadFinding_def Let_def catchE_def stat_file_def ReadJson_def bindE_Inr world_simps
      split: if_splits dest: ParseOrdered_wf)

lemma LoadFinding_world: "LoadFinding ev n w = (r, w') \<Longrightarrow> w' = w"
  using snd_LoadFinding [of ev n w] by simp

text \<open>What a gate lets through.\<close>

definition gate_passed :: "seams \<Rightarrow> env \<Rightarrow> string \<Rightarrow> value \<Rightarrow> world \<Rightarrow> bool" where
  "gate_passed sm ev to finding w \<longleftrightarrow>
     (if to = ''CONFIRMED'' then (case ConfirmationGateClauses sm ev finding w of Inl _ \<Rightarrow> False | Inr cls \<Rightarrow> list_all OK cls)
      else EvidenceDeficit finding to (Some (ev, w)) = None)"

lemma filter_not_OK: "filter (\<lambda>cl. \<not> OK cl) cls = [] \<longleftrightarrow> list_all OK cls"
  by (auto simp: filter_empty_conv list_all_iff)

lemma pass_gate_Inr: "pass_gate sm ev n to finding w = (Inr u, w') \<Longrightarrow> w' = w \<and> gate_passed sm ev to finding w"
  by (auto simp: pass_gate_def gate_passed_def Let_def filter_not_OK bindE_Inr split: if_splits option.splits sum.splits)

lemma pass_gate_plain:
  "to \<noteq> ''CONFIRMED'' \<Longrightarrow> pass_gate sm ev n to finding w = (r, w') \<Longrightarrow> w' = w \<and> (r = Inr () \<longrightarrow> gate_passed sm ev to finding w)"
  by (auto simp: pass_gate_def gate_passed_def split: option.splits)

lemma disprove_check_world: "disprove_check pl to opts finding w = (r, w') \<Longrightarrow> w' = w"
  by (auto simp: disprove_check_def split: if_splits)

definition duplicate_check :: "env \<Rightarrow> string \<Rightarrow> transitionOpts \<Rightarrow> value \<Rightarrow> unit op" where
  "duplicate_check ev to opts finding =
     (if to = ''DUPLICATE''
      then (if TrimSpace (duplicateOf opts) = [] then fail (ERefused ''move to DUPLICATE must name the duplicate'' [])
            else validateDuplicateTarget ev finding (duplicateOf opts))
      else ret ())"

text \<open>A target of a merge is another finding that can be loaded.\<close>

definition target_ok :: "env \<Rightarrow> string \<Rightarrow> transitionOpts \<Rightarrow> value \<Rightarrow> world \<Rightarrow> bool" where
  "target_ok ev to opts finding w \<longleftrightarrow> (to = ''DUPLICATE'' \<longrightarrow> duplicateOf opts \<noteq> ObjStr finding ''finding_id'' \<and>
     TrimSpace (duplicateOf opts) \<noteq> [] \<and> (\<exists>target. fst (LoadFinding ev (duplicateOf opts) w) = Inr target))"

lemma duplicate_check_run:
  "duplicate_check ev to opts finding w = (r, w') \<Longrightarrow> w' = w \<and> (r = Inr () \<longrightarrow> target_ok ev to opts finding w)"
  by (cases "LoadFinding ev (duplicateOf opts) w")
     (auto simp: duplicate_check_def validateDuplicateTarget_def target_ok_def catchE_def
       split: if_splits sum.splits dest: LoadFinding_world)

text \<open>The payment, the status write and what follows.\<close>

definition status_write ::
    "env \<Rightarrow> string \<Rightarrow> string \<Rightarrow> string \<Rightarrow> string \<Rightarrow> transitionOpts \<Rightarrow> value \<Rightarrow> value op" where
  "status_write ev from to reason who opts paid =
     bindE (mutateStatus ev paid from to reason who) (\<lambda>f1.
       SaveThenLog ev (merge_edit from to (duplicateOf opts) f1) (logStatus ev from to reason who))"

definition move_tail ::
    "planner \<Rightarrow> env \<Rightarrow> string \<Rightarrow> string \<Rightarrow> string \<Rightarrow> string \<Rightarrow> string \<Rightarrow> transitionOpts \<Rightarrow> value \<Rightarrow> value op" where
  "move_tail pl ev findingID from to reason who opts finding =
     bindE (pay_slot ev from to finding) (\<lambda>paid.
     bindE (status_write ev from to reason who opts paid) (\<lambda>f2.
       after_move pl ev findingID to opts reason who f2))"

abbreviation who_of :: "transitionOpts \<Rightarrow> string" where
  "who_of opts \<equiv> (if actor opts = [] then ''orchestrator'' else actor opts)"

lemma bindE_assoc: "bindE (bindE m k) h = bindE m (\<lambda>x. bindE (k x) h)"
  by (auto simp: bindE_def fun_eq_iff split: prod.splits sum.splits)

lemma transition_steps:
  "transition sm pl ev n to reason opts =
     bindE (LoadFinding ev n) (\<lambda>finding. let from = ObjStr finding ''status'' in
       if to = from then same_status finding n to (duplicateOf opts)
       else bindE (guard (TransitionAllowed from to)
                (ERefused ''not a legal transition'' (from # to # sort (map_set ALLOWED_TRANSITIONS from)))) (\<lambda>_.
            bindE (duplicate_check ev to opts finding) (\<lambda>_.
            bindE (pass_gate sm ev n to finding) (\<lambda>_.
            bindE (disprove_check pl to opts finding) (\<lambda>_.
              move_tail pl ev n from to reason (who_of opts) opts finding)))))"
  unfolding transition_def duplicate_check_def move_tail_def status_write_def Let_def bindE_assoc by (rule refl)

lemma same_status_run: "same_status finding n to dup w = (r, w') \<Longrightarrow> w' = w \<and> (\<forall>f. r = Inr f \<longrightarrow> f = finding)"
  by (auto simp: same_status_def Let_def split: if_splits)

definition move_ready :: "seams \<Rightarrow> planner \<Rightarrow> env \<Rightarrow> string \<Rightarrow> transitionOpts \<Rightarrow> value \<Rightarrow> world \<Rightarrow> bool" where
  "move_ready sm pl ev to opts finding w \<longleftrightarrow> TransitionAllowed (ObjStr finding ''status'') to \<and>
     target_ok ev to opts finding w \<and> gate_passed sm ev to finding w"

lemma transition_Inr:
  assumes "transition sm pl ev n to reason opts w = (Inr f, w')"
  obtains (same) "LoadFinding ev n w = (Inr f, w)" "ObjStr f ''status'' = to" "w' = w"
  | (moved) finding where "LoadFinding ev n w = (Inr finding, w)" "ObjStr finding ''status'' \<noteq> to"
      "move_ready sm pl ev to opts finding w"
      "move_tail pl ev n (ObjStr finding ''status'') to reason (who_of opts) opts finding w = (Inr f, w')"
proof -
  obtain finding w1 where l: "LoadFinding ev n w = (Inr finding, w1)"
    using assms by (auto simp: transition_steps bindE_Inr)
  note w1 = LoadFinding_world [OF l]
  show ?thesis
  proof (cases "to = ObjStr finding ''status''")
    case True
    then have "same_status finding n to (duplicateOf opts) w = (Inr f, w')"
      using assms l w1 by (simp add: transition_steps bindE_def Let_def)
    from same_status_run [OF this] l w1 True show ?thesis by (intro same) auto
  next
    case False
    then show ?thesis using assms l w1
      by (intro moved [of finding])
         (auto simp: transition_steps bindE_Inr Let_def move_ready_def
           dest!: duplicate_check_run pass_gate_Inr disprove_check_world split: if_splits)
  qed
qed

text \<open>For a target other than CONFIRMED a run either stops early, with nothing changed, or is its tail.\<close>

lemma transition_plain:
  assumes "to \<noteq> ''CONFIRMED''" "LoadFinding ev n w = (Inr finding, w)" "transition sm pl ev n to reason opts w = (r, w')"
  obtains (early) "w' = w" "\<And>f. r = Inr f \<Longrightarrow> f = finding \<and> ObjStr f ''status'' = to"
  | (tail) "ObjStr finding ''status'' \<noteq> to" "move_ready sm pl ev to opts finding w"
      "move_tail pl ev n (ObjStr finding ''status'') to reason (who_of opts) opts finding w = (r, w')"
proof (cases "to = ObjStr finding ''status''")
  case True
  then have "same_status finding n to (duplicateOf opts) w = (r, w')"
    using assms by (simp add: transition_steps bindE_def Let_def)
  from same_status_run [OF this] True show ?thesis by (intro early) auto
next
  case False
  let ?from = "ObjStr finding ''status''"
  obtain rd wd where d: "duplicate_check ev to opts finding w = (rd, wd)" by (cases "duplicate_check ev to opts finding w")
  obtain rg wg where g: "pass_gate sm ev n to finding w = (rg, wg)" by (cases "pass_gate sm ev n to finding w")
  obtain rp wp where p: "disprove_check pl to opts finding w = (rp, wp)" by (cases "disprove_check pl to opts finding w")
  note D = duplicate_check_run [OF d] and G = pass_gate_plain [OF assms(1) g] and P = disprove_check_world [OF p]
  show ?thesis
    using assms(2,3) False d g p D G P early tail
    by (cases rd; cases rg; cases rp) (auto simp: transition_steps bindE_def Let_def move_ready_def split: if_splits)
qed

section \<open>What a move writes\<close>

definition needs_slot :: "value \<Rightarrow> string \<Rightarrow> string \<Rightarrow> bool" where
  "needs_slot finding from to \<longleftrightarrow> statusBaselineIndex from < statusBaselineIndex to \<and>
     \<not> objBool finding ''discovery_slot_consumed''"

definition paid_for :: "value \<Rightarrow> string \<Rightarrow> string \<Rightarrow> value" where
  "paid_for finding from to =
     (if needs_slot finding from to then set_field finding ''discovery_slot_consumed'' (VBool True) else finding)"

lemma pay_slot_cases:
  "pay_slot ev from to finding =
     (if needs_slot finding from to
      then bindE (Budget ev) (\<lambda>budget.
             if vI (ObjAt budget ''discovery_findings_so_far'') \<ge> vI (ObjAt budget ''max_discovery_findings'')
             then fail (ERefused ''discovery budget exhausted'' [CampaignID ev])
             else bindE (ConsumeDiscoverySlot ev) (\<lambda>_. ret (paid_for finding from to)))
      else ret finding)"
  by (cases "statusBaselineIndex from < statusBaselineIndex to"; cases "objBool finding ''discovery_slot_consumed''")
     (simp_all add: pay_slot_def ConsumeSlotOnce_def chargeSlot_def needs_slot_def paid_for_def Let_def cong: if_cong)

lemma pay_slot_Inr: "pay_slot ev from to finding w = (Inr paid, w') \<Longrightarrow> paid = paid_for finding from to"
  by (auto simp: pay_slot_cases paid_for_def bindE_Inr split: if_splits)

lemma SaveThenLog_steps:
  assumes "SaveThenLog ev finding logf w = (Inr f, w')"
  obtains x w2 where "SaveFinding ev finding w = (Inr f, w2)" "logf f w2 = (Inr x, w')"
proof -
  obtain prev w1 f1 w2 where st: "prevBytes (finding_path finding) w = (Inr prev, w1)" "SaveFinding ev finding w1 = (Inr f1, w2)"
      and body: "catchE (logf f1) (\<lambda>r. case r of Inl e \<Rightarrow> restore_after (finding_path finding) prev e | Inr _ \<Rightarrow> ret f1) w2 = (Inr f, w')"
    using assms by (auto simp: SaveThenLog_def Let_def bindE_Inr)
  have w1: "w1 = w" using prevBytes_pure [of "finding_path finding" w] st(1) by simp
  have "fst (restore_after p prev e w) \<noteq> Inr f" for p e w
    by (simp add: restore_after_def catchE_def split: prod.splits sum.splits)
  then have "f1 = f \<and> (\<exists>x. logf f1 w2 = (Inr x, w'))"
    using body by (auto simp: catchE_def split: prod.splits sum.splits) (metis fst_conv)+
  then show thesis using that st(2) w1 by blast
qed

lemma SaveThenLog_Inr:
  assumes "SaveThenLog ev finding logf w = (Inr f, w')" shows "\<exists>t. f = touched finding t \<and> validates ev ''finding'' f"
proof -
  obtain w2 where "SaveFinding ev finding w = (Inr f, w2)" using SaveThenLog_steps [OF assms] .
  then show ?thesis by (cases rule: SaveFinding_cases [of ev finding w]) auto
qed

lemma status_write_Inr:
  "status_write ev from to reason who opts paid w = (Inr f, w') \<Longrightarrow> \<exists>t t'. validates ev ''finding'' f \<and>
     f = touched (merge_edit from to (duplicateOf opts) (moved paid to (history_row t from to reason who))) t'"
  by (auto simp: status_write_def mutateStatus_def bindE_Inr world_simps dest!: SaveThenLog_Inr)

lemma after_move_Inr: "after_move pl ev n to opts reason who f w = (Inr g, w') \<Longrightarrow> g = f"
  by (auto simp: after_move_def bindE_Inr)

lemma after_move_plain: "to \<noteq> ''CONFIRMED'' \<Longrightarrow> to \<noteq> ''DISPROVED'' \<Longrightarrow> after_move pl ev n to opts reason who f = ret f"
  by (auto simp: after_move_def bindE_def fun_eq_iff)

text \<open>The finding after a move: the new status, one more row of history, the merge pointer of a duplicate;
  the slot flag and the time may differ, everything else is as it was.\<close>

definition moved_to :: "value \<Rightarrow> string \<Rightarrow> string \<Rightarrow> string \<Rightarrow> string \<Rightarrow> value \<Rightarrow> bool" where
  "moved_to finding to reason who dup f \<longleftrightarrow> ObjStr f ''status'' = to \<and>
     (\<exists>t. vA (ObjAt f ''history'') = vA (ObjAt finding ''history'') @ [history_row t (ObjStr finding ''status'') to reason who]) \<and>
     (to = ''DUPLICATE'' \<longrightarrow> ObjStr (ObjAt f ''dedup'') ''duplicate_of'' = dup) \<and>
     (\<forall>k. k \<notin> {''status'', ''history'', ''dedup'', ''updated_at'', ''discovery_slot_consumed''} \<longrightarrow> ObjAt f k = ObjAt finding k)"

lemma allowed_kind: "TransitionAllowed (ObjStr f ''status'') to \<Longrightarrow> vkind f = KObj"
proof -
  assume t: "TransitionAllowed (ObjStr f ''status'') to"
  have "\<not> TransitionAllowed [] to" by (simp add: TransitionAllowed_def ALLOWED_TRANSITIONS_def)
  with t have "ObjStr f ''status'' \<noteq> []" by metis
  then show ?thesis by (cases f) (auto simp: ObjStr_def ObjAt_def Let_def)
qed

lemma vkind_moved [simp]: "vkind (moved f to row) = vkind f"
  by (simp add: moved_def Let_def)

lemma moved_fields:
  assumes "vkind f = KObj"
  shows "ObjStr (moved f to row) ''status'' = to" "vA (ObjAt (moved f to row) ''history'') = vA (ObjAt f ''history'') @ [row]"
    "k \<noteq> ''status'' \<Longrightarrow> k \<noteq> ''history'' \<Longrightarrow> ObjAt (moved f to row) k = ObjAt f k"
  using assms by (cases "ObjAt f ''history''"; simp add: moved_def Let_def)+

lemma merge_edit_fields:
  "vkind (merge_edit from to dup f) = vkind f" "k \<noteq> ''dedup'' \<Longrightarrow> ObjAt (merge_edit from to dup f) k = ObjAt f k"
  by (auto simp: merge_edit_def recordDuplicateOf_def clearDuplicateOf_def Let_def)

lemma asDict_kind [simp]: "vkind (asDict v) = KObj"
  by (cases v) (auto simp: asDict_def)

lemma merge_edit_duplicate:
  "vkind f = KObj \<Longrightarrow> ObjStr (ObjAt (merge_edit from ''DUPLICATE'' dup f) ''dedup'') ''duplicate_of'' = dup"
  by (simp add: merge_edit_def recordDuplicateOf_def Let_def)

lemma paid_fields:
  "vkind (paid_for f from to) = vkind f" "k \<noteq> ''discovery_slot_consumed'' \<Longrightarrow> ObjAt (paid_for f from to) k = ObjAt f k"
  by (auto simp: paid_for_def)

lemma written_moved_to:
  assumes k: "vkind finding = KObj" and src: "from = ObjStr finding ''status''"
    and f: "f = touched (merge_edit from to dup (moved (paid_for finding from to) to (history_row t from to reason who))) t'"
  shows "moved_to finding to reason who dup f"
proof -
  let ?p = "paid_for finding from to"
  let ?m = "moved ?p to (history_row t from to reason who)"
  have kp: "vkind ?p = KObj" and km: "vkind ?m = KObj" using k by (simp_all add: paid_fields)
  have fd: "ObjAt f k = ObjAt ?m k" if "k \<noteq> ''dedup''" "k \<noteq> ''updated_at''" for k
    using that by (simp add: f merge_edit_fields)
  have "ObjStr f ''status'' = ObjStr ?m ''status''" using fd [of "''status''"] by (simp add: ObjStr_def Let_def)
  then have s: "ObjStr f ''status'' = to" using moved_fields(1) [OF kp] by simp
  have h: "vA (ObjAt f ''history'') = vA (ObjAt finding ''history'') @ [history_row t from to reason who]"
    using fd [of "''history''"] moved_fields(2) [OF kp] by (simp add: paid_fields)
  have d: "to = ''DUPLICATE'' \<Longrightarrow> ObjStr (ObjAt f ''dedup'') ''duplicate_of'' = dup"
    using merge_edit_duplicate [OF km] by (simp add: f)
  have o: "ObjAt f k = ObjAt finding k"
    if "k \<notin> {''status'', ''history'', ''dedup'', ''updated_at'', ''discovery_slot_consumed''}" for k
    using that fd [of k] moved_fields(3) [OF kp, of k] paid_fields(2) [of k] by simp
  show ?thesis unfolding moved_to_def using s h d o src by blast
qed

lemma move_tail_Inr:
  assumes "move_tail pl ev n (ObjStr finding ''status'') to reason who opts finding w = (Inr f, w')"
    and "TransitionAllowed (ObjStr finding ''status'') to"
  shows "moved_to finding to reason who (duplicateOf opts) f \<and> validates ev ''finding'' f"
proof -
  obtain paid w1 f2 w2 where s: "pay_slot ev (ObjStr finding ''status'') to finding w = (Inr paid, w1)"
      "status_write ev (ObjStr finding ''status'') to reason who opts paid w1 = (Inr f2, w2)"
      "after_move pl ev n to opts reason who f2 w2 = (Inr f, w')"
    using assms(1) by (auto simp: move_tail_def bindE_Inr)
  have "f = f2" using after_move_Inr [OF s(3)] .
  then show ?thesis using status_write_Inr [OF s(2)] pay_slot_Inr [OF s(1)] written_moved_to [OF allowed_kind [OF assms(2)] refl]
    by blast
qed

section \<open>What a move leaves on an undisturbed campaign\<close>

definition charged :: "value \<Rightarrow> value" where
  "charged st = budget_with st ''discovery_findings_so_far''
     (VInt (wrap64 (vI (ObjAt (ObjAt st ''budget'') ''discovery_findings_so_far'') + 1)))"

text \<open>The state between the payment and the status write.\<close>

definition after_slot :: "bool \<Rightarrow> value \<Rightarrow> value \<Rightarrow> bool" where
  "after_slot b st st' \<longleftrightarrow> (if b then same_fields (charged st) st' \<and> ObjAt st' ''events'' = ObjAt st ''events'' else st' = st)"

lemma charged_events [simp]: "ObjAt (charged st) ''events'' = ObjAt st ''events''"
  by (simp add: charged_def)

lemma others_ConsumeDiscoverySlot: "keeps_to others_same (ConsumeDiscoverySlot ev)"
  unfolding ConsumeDiscoverySlot_def Let_def by (intro others.resp_basic others.resp_SaveState)

lemma grows_ConsumeDiscoverySlot: "keeps_to ledger_grows (ConsumeDiscoverySlot ev)"
  unfolding ConsumeDiscoverySlot_def Let_def by (intro grows_rules)

lemma grows_pay_slot: "keeps_to ledger_grows (pay_slot ev from to finding)"
  unfolding pay_slot_cases Budget_def by (intro grows_rules grows_ConsumeDiscoverySlot)

lemma v_ConsumeSlot_beside:
  assumes "env_ok ev"
  shows "valid (beside ev st es fs) (ConsumeDiscoverySlot ev)
    (\<lambda>_ w. \<exists>st'. after_slot True st st' \<and> beside ev st' es fs w) (beside ev st es fs)"
  unfolding beside_def
  by (rule v_weaken [OF v_aside [OF others_ConsumeDiscoverySlot v_ConsumeDiscoverySlot [OF assms]]])
     (auto simp: after_slot_def charged_def)

lemma v_pay_slot:
  assumes ev: "env_ok ev"
  shows "valid (beside ev st es fs) (pay_slot ev from to finding)
    (\<lambda>paid w. \<exists>st'. after_slot (needs_slot finding from to) st st' \<and> paid = paid_for finding from to \<and> beside ev st' es fs w)
    (beside ev st es fs)"
proof (cases "needs_slot finding from to")
  case False
  then show ?thesis by (auto simp: pay_slot_cases after_slot_def paid_for_def intro!: v_ret)
next
  case True
  have b: "valid (beside ev st es fs) (Budget ev) (\<lambda>_. beside ev st es fs) (beside ev st es fs)"
    unfolding Budget_def beside_def
    by (rule v_bind [OF v_weaken [OF v_aside [OF others.resp_State v_State]] v_ret]) auto
  show ?thesis
    unfolding pay_slot_cases using True
    by (auto intro!: v_bind [OF b] v_if v_fail v_bind [OF v_ConsumeSlot_beside [OF ev]] v_ret)
qed

definition move_written ::
    "env \<Rightarrow> value \<Rightarrow> value list \<Rightarrow> file_map \<Rightarrow> value \<Rightarrow> value \<Rightarrow> value \<Rightarrow> world \<Rightarrow> bool" where
  "move_written ev st es fs finding data f w \<longleftrightarrow>
     (\<exists>st'. same_fields st st' \<and> appended ev st' es (window_ok es (vA (ObjAt st ''events''))) ''finding.status''
        (Some (ObjStr finding ''finding_id'')) data w) \<and>
     aside (fs(finding_path finding \<mapsto> File True (finding_bytes f))) w"

declare bindE_ret [simp]

lemma id_kept:
  "ObjStr (merge_edit from to dup (moved f to row)) ''finding_id'' = ObjStr f ''finding_id''"
  "ObjStr (paid_for f from to) ''finding_id'' = ObjStr f ''finding_id''"
  by (simp_all add: ObjStr_def Let_def merge_edit_fields paid_fields)
     (simp_all add: moved_def Let_def)

lemma grows_status_write: "finding_schema_ok ev \<Longrightarrow> keeps_to ledger_grows (status_write ev from to reason who opts paid)"
  unfolding status_write_def mutateStatus_def
  by (intro grows.resp_bind grows.resp_nowIso grows.resp_ret grows_SaveThenLog) (simp_all add: logStatus_def grows.resp_Log)

lemma v_status_write:
  assumes ev: "env_ok ev" "finding_schema_ok ev"
    and u: "valid_utf8 from" "valid_utf8 to" "valid_utf8 reason" "valid_utf8 who" "valid_utf8 (ObjStr paid ''finding_id'')"
  shows "valid (beside ev st es fs) (status_write ev from to reason who opts paid)
    (move_written ev st es fs paid (status_data from to reason who)) (lag_beside ev st es fs)"
proof -
  let ?logf = "logStatus ev from to reason who" and ?ref = "Some (ObjStr paid ''finding_id'')" and ?data = "status_data from to reason who"
  have ar: "args_ok ''finding.status'' ?ref (Some ?data)" using u by (simp add: args_ok_def status_data_def)
  let ?g = "\<lambda>t. merge_edit from to (duplicateOf opts) (moved paid to (history_row t from to reason who))"
  have "valid (beside ev st es fs) (SaveThenLog ev (?g t) ?logf) (move_written ev st es fs paid ?data) (lag_beside ev st es fs)" for t
    by (rule v_weaken [OF v_SaveThenLog [OF ev _ ar, of ?logf "?g t" st es fs]])
       (auto simp: logStatus_def id_kept move_written_def save_logged_def grows.resp_Log)
  then show ?thesis
    unfolding status_write_def mutateStatus_def bindE_assoc bindE_ret
    by (intro v_with_now of_files_beside grows_SaveThenLog [OF ev(2)]) (simp_all add: logStatus_def grows.resp_Log)
qed

text \<open>A move that stops after the payment leaves the counter charged.\<close>

definition move_refused :: "env \<Rightarrow> value \<Rightarrow> value list \<Rightarrow> file_map \<Rightarrow> bool \<Rightarrow> world \<Rightarrow> bool" where
  "move_refused ev st es fs slot w \<longleftrightarrow> (\<exists>st'. (st' = st \<or> after_slot slot st st') \<and> lag_beside ev st' es fs w)"

lemma v_move_tail:
  assumes ev: "env_ok ev" "finding_schema_ok ev"
    and u: "valid_utf8 from" "valid_utf8 to" "valid_utf8 reason" "valid_utf8 who" "valid_utf8 (ObjStr finding ''finding_id'')"
    and to: "to \<noteq> ''CONFIRMED''" "to \<noteq> ''DISPROVED''"
  shows "valid (beside ev st es fs) (move_tail pl ev n from to reason who opts finding)
    (move_written ev (if needs_slot finding from to then charged st else st) es fs finding (status_data from to reason who))
    (move_refused ev st es fs (needs_slot finding from to))"
proof -
  let ?slot = "needs_slot finding from to" and ?paid = "paid_for finding from to" and ?d = "status_data from to reason who"
  let ?Q = "move_written ev (if ?slot then charged st else st) es fs finding ?d" and ?E = "move_refused ev st es fs ?slot"
  have ret: "bindE (status_write ev from to reason who opts paid) (\<lambda>f2. after_move pl ev n to opts reason who f2)
      = status_write ev from to reason who opts paid" for paid
    using to by (auto simp: after_move_plain bindE_def fun_eq_iff split: prod.splits sum.splits)
  have w: "valid (beside ev st' es fs) (status_write ev from to reason who opts ?paid) ?Q ?E" if a: "after_slot ?slot st st'" for st'
  proof (rule v_weaken [OF v_status_write [OF ev u(1-4), of ?paid st' es fs opts]])
    show "valid_utf8 (ObjStr ?paid ''finding_id'')" using u(5) by (simp add: id_kept)
    show "move_written ev st' es fs ?paid ?d f w \<Longrightarrow> ?Q f w" for f w
      using a same_fields_trans by (auto simp: move_written_def after_slot_def id_kept split: if_splits)
    show "lag_beside ev st' es fs w \<Longrightarrow> ?E w" for w using a by (auto simp: move_refused_def)
  qed
  show ?thesis
    unfolding move_tail_def ret
  proof (rule v_bind)
    show "valid (beside ev st es fs) (pay_slot ev from to finding)
      (\<lambda>paid w. \<exists>st'. after_slot ?slot st st' \<and> paid = ?paid \<and> beside ev st' es fs w) ?E"
      by (rule v_weaken [OF v_pay_slot [OF ev(1)]]) (auto simp: move_refused_def intro: beside_lag)
    show "valid (\<lambda>w. \<exists>st'. after_slot ?slot st st' \<and> paid = ?paid \<and> beside ev st' es fs w)
      (status_write ev from to reason who opts paid) ?Q ?E" for paid
    proof (rule v_exE)
      fix st'
      show "valid (\<lambda>w. after_slot ?slot st st' \<and> paid = ?paid \<and> beside ev st' es fs w) (status_write ev from to reason who opts paid) ?Q ?E"
      proof (rule v_pure [of _ "after_slot ?slot st st' \<and> paid = ?paid"])
        assume a: "after_slot ?slot st st' \<and> paid = ?paid"
        then show "valid (\<lambda>w. after_slot ?slot st st' \<and> paid = ?paid \<and> beside ev st' es fs w) (status_write ev from to reason who opts paid) ?Q ?E"
          by (auto intro: v_weaken [OF w])
      qed (auto intro: grows_status_write [OF ev(2)])
    qed
  qed
qed

section \<open>A refused status write\<close>

text \<open>The payment writes the state file and nothing else.\<close>

definition only_state :: "world \<Rightarrow> world \<Rightarrow> bool" where
  "only_state w w' \<longleftrightarrow> (\<forall>q. q \<noteq> StatePath \<longrightarrow> kv_find (files w') q = kv_find (files w) q)"

interpretation slot_file: state_frame only_state
proof unfold_locales
  fix w w1 w2 :: world and t e u c
  show "only_state w w" "only_state w w1 \<Longrightarrow> only_state w1 w2 \<Longrightarrow> only_state w w2" "only_state w (w\<lparr>ticks := t\<rparr>)"
    by (simp_all add: only_state_def)
  show "LockProcess w = (Inl e, w1) \<Longrightarrow> only_state w w1"
    by (auto dest!: LockProcess_frame simp: only_state_def)
  show "LockProcess w = (Inr u, w1) \<Longrightarrow> only_state w1 w2 \<Longrightarrow> only_state w (UnlockProcess w2)"
    by (auto dest!: LockProcess_frame simp: only_state_def world_simps)
  show "only_state w (snd (replace_file StatePath c w))" "only_state w (snd (remove_file StatePath w))"
    by (simp_all add: only_state_def replace_file_other remove_file_other)
qed

lemma pay_slot_only_state: "keeps_to only_state (pay_slot ev from to finding)"
  unfolding pay_slot_cases Budget_def ConsumeDiscoverySlot_def Let_def
  by (intro slot_file.resp_basic slot_file.resp_SaveState)

lemma ConsumeDiscoverySlot_free:
  assumes "undisturbed w" "State ev w = (Inr st, w)"
  shows "\<exists>t. fst (ConsumeDiscoverySlot ev w) =
    (if validates ev StateSchema (stamped ev t (charged st)) then Inr () else Inl (ESchema StateSchema))"
proof -
  have u: "flocks w = []" "faults w = []" using assms(1) by (simp_all add: undisturbed_def)
  from LockProcess_free [OF u(1)] obtain w1 where lk: "LockProcess w = (Inr (), w1)" and w1: "faults w1 = []" "flocks w1 = []"
    using u(2) by auto
  have "State ev w1 = (Inr st, w1)" by (rule State_transfer [OF assms(2)]) (use LockProcess_frame [OF lk] in simp)
  then have "ConsumeDiscoverySlot ev w = (case SaveState ev (charged st) w1 of (r, w2) \<Rightarrow> (r, UnlockProcess w2))"
    by (simp add: ConsumeDiscoverySlot_def with_lock_run [OF lk] bindE_def charged_def)
  then have "fst (ConsumeDiscoverySlot ev w) = fst (SaveState ev (charged st) w1)" by (simp split: prod.splits)
  then show ?thesis using SaveState_free [OF w1] by auto
qed

definition slot_free :: "value \<Rightarrow> bool" where
  "slot_free st \<longleftrightarrow> vI (ObjAt (ObjAt st ''budget'') ''discovery_findings_so_far'')
     < vI (ObjAt (ObjAt st ''budget'') ''max_discovery_findings'')"

lemma pay_slot_free:
  assumes "undisturbed w" "State ev w = (Inr st, w)" "needs_slot finding from to \<longrightarrow> slot_free st"
  obtains (paid) w' where "pay_slot ev from to finding w = (Inr (paid_for finding from to), w')"
  | (refused) w' t where "needs_slot finding from to" "pay_slot ev from to finding w = (Inl (ESchema StateSchema), w')"
      "\<not> validates ev StateSchema (stamped ev t (charged st))"
proof (cases "needs_slot finding from to")
  case True
  obtain t where c: "fst (ConsumeDiscoverySlot ev w) =
      (if validates ev StateSchema (stamped ev t (charged st)) then Inr () else Inl (ESchema StateSchema))"
    using ConsumeDiscoverySlot_free [OF assms(1,2)] by blast
  obtain rc wc where run: "ConsumeDiscoverySlot ev w = (rc, wc)" by (cases "ConsumeDiscoverySlot ev w")
  have "pay_slot ev from to finding w = bindE (ConsumeDiscoverySlot ev) (\<lambda>_. ret (paid_for finding from to)) w"
    using True assms(2,3) by (simp add: pay_slot_cases Budget_def slot_free_def) (simp add: bindE_def)
  then show ?thesis using c run True paid refused by (cases rc) (auto simp: bindE_def split: if_splits)
next
  case False
  then show ?thesis using paid by (simp add: pay_slot_cases paid_for_def)
qed

text \<open>The bytes the schema sees at the end of a move.\<close>

definition move_rows :: "value \<Rightarrow> string \<Rightarrow> string \<Rightarrow> string \<Rightarrow> transitionOpts \<Rightarrow> value set" where
  "move_rows finding from to reason opts = {touched (merge_edit from to (duplicateOf opts)
     (moved (paid_for finding from to) to (history_row t from to reason (who_of opts)))) t' | t t'. True}"

lemma status_write_refused:
  assumes "\<And>f. f \<in> move_rows finding from to reason opts \<Longrightarrow> \<not> validates ev ''finding'' f"
  shows "\<exists>e w'. status_write ev from to reason (who_of opts) opts (paid_for finding from to) w = (Inl e, w') \<and>
    files w' = files w \<and> (undisturbed w \<longrightarrow> undisturbed w')"
proof -
  let ?g = "merge_edit from to (duplicateOf opts) (moved (paid_for finding from to) to (history_row (now ev (ticks w)) from to reason (who_of opts)))"
  let ?w = "w\<lparr>ticks := Suc (ticks w)\<rparr>"
  have v: "\<not> validates ev ''finding'' (touched ?g t')" for t' using assms [of "touched ?g t'"] unfolding move_rows_def by blast
  have run: "status_write ev from to reason (who_of opts) opts (paid_for finding from to) w
      = SaveThenLog ev ?g (logStatus ev from to reason (who_of opts)) ?w"
    by (simp add: status_write_def mutateStatus_def bindE_def nowIso_def)
  have sf: "SaveFinding ev ?g ?w = (Inl (ESchema ''finding''), ?w\<lparr>ticks := Suc (ticks ?w)\<rparr>)"
    using v by (simp add: SaveFinding_def bindE_def nowIso_def Validate_def Let_def flip: touched_def)
  show ?thesis unfolding run
    by (cases rule: ReadFile_cases [of "finding_path ?g" ?w])
       (use sf in \<open>auto simp: SaveThenLog_def Let_def bindE_def prevBytes_def catchE_def undisturbed_def\<close>)
qed

lemma move_tail_refused:
  assumes "env_ok ev" "healthy ev st es w" "\<And>t. validates ev StateSchema (stamped ev t (charged st))"
    and "needs_slot finding from to" "slot_free st" "size_ok w"
    and "\<And>f. f \<in> move_rows finding from to reason opts \<Longrightarrow> \<not> validates ev ''finding'' f"
  shows "\<exists>e w' st'. move_tail pl ev n from to reason (who_of opts) opts finding w = (Inl e, w') \<and>
    same_fields (charged st) st' \<and> ObjAt st' ''events'' = ObjAt st ''events'' \<and> healthy ev st' es w' \<and>
    (\<forall>q. q \<noteq> StatePath \<longrightarrow> kv_find (files w') q = kv_find (files w) q)"
proof -
  let ?fs = "kv_find (files w)"
  have b: "beside ev st es ?fs w" using assms(2) aside_refl by (simp add: beside_def)
  have S: "State ev w = (Inr st, w)" "undisturbed w" using assms(2) by (simp_all add: healthy_def)
  obtain w1 where w1: "pay_slot ev from to finding w = (Inr (paid_for finding from to), w1)"
    by (rule pay_slot_free [OF S(2,1), of finding "from" to]) (use assms(3-5) in auto)
  have ledger: "kv_find (files w1) q = kv_find (files w) q" if "q \<noteq> StatePath" for q
    using pay_slot_only_state w1 that unfolding keeps_to_def only_state_def by (metis snd_conv)
  have "size_ok w1" using assms(6) ledger by (simp add: size_ok_def content_of_def)
  from valid_run [OF v_pay_slot [OF assms(1)] b w1 this] obtain st' where
    st': "after_slot True st st'" "beside ev st' es ?fs w1" using assms(4) by auto
  from status_write_refused [where ev = ev and w = w1, OF assms(7)] obtain e w2 where
    w2: "status_write ev from to reason (who_of opts) opts (paid_for finding from to) w1 = (Inl e, w2)" "files w2 = files w1"
      "undisturbed w1 \<longrightarrow> undisturbed w2" by blast
  have "beside ev st' es ?fs w2" by (rule of_filesD [OF of_files_beside(1) st'(2) w2(2)]) (use w2(3) in blast)
  moreover have "move_tail pl ev n from to reason (who_of opts) opts finding w = (Inl e, w2)"
    using w1 w2(1) by (simp add: move_tail_def bindE_def)
  ultimately show ?thesis using st'(1) ledger w2(2) by (auto simp: after_slot_def beside_def aside_def)
qed

section \<open>Progress\<close>

text \<open>The validator refuses a projection of the right shape.\<close>

definition refuses_projection :: "env \<Rightarrow> bool" where
  "refuses_projection ev \<longleftrightarrow> (\<exists>v. vkind v = KObj \<and> vkind (ObjAt v ''events'') = KArr \<and> \<not> validates ev StateSchema v)"

definition progressed :: "env \<Rightarrow> error + 'a \<Rightarrow> bool" where
  "progressed ev r \<longleftrightarrow> (\<exists>x. r = Inr x) \<or> r = Inl (ESchema StateSchema) \<and> refuses_projection ev"

lemma status_write_progress:
  assumes ev: "env_ok ev" and h: "healthy ev st es w" and sz: "size_ok w"
    and u: "valid_utf8 from" "valid_utf8 to" "valid_utf8 reason" "valid_utf8 (who_of opts)" "valid_utf8 (ObjStr finding ''finding_id'')"
    and idn: "ObjStr finding ''finding_id'' \<noteq> []" "slash \<notin> set (ObjStr finding ''finding_id'')"
    and there: "kv_find (files w) (finding_path finding) = map_option (File True) prev"
    and ok: "\<And>f. f \<in> move_rows finding from to reason opts \<Longrightarrow> validates ev ''finding'' f"
  shows "\<exists>r w'. status_write ev from to reason (who_of opts) opts (paid_for finding from to) w = (r, w') \<and> progressed ev r"
proof -
  let ?n = "ObjStr finding ''finding_id''" and ?w = "w\<lparr>ticks := Suc (ticks w)\<rparr>"
  let ?g = "merge_edit from to (duplicateOf opts) (moved (paid_for finding from to) to (history_row (now ev (ticks w)) from to reason (who_of opts)))"
  let ?f = "touched ?g (now ev (Suc (ticks w)))" and ?logf = "logStatus ev from to reason (who_of opts)"
  note p = FindingPath_apart [OF idn(2)]
  have n: "ObjStr ?g ''finding_id'' = ?n" by (simp add: id_kept)
  have nf: "next_fault w = IOok" "faults w = []" "flocks w = []" using h by (simp_all add: healthy_def undisturbed_def next_fault_def)
  let ?w1 = "spend (put_file (FindingPath ?n) (finding_bytes ?f) (?w\<lparr>ticks := Suc (ticks ?w)\<rparr>))"
  have v: "validates ev ''finding'' ?f" by (rule ok) (auto simp: move_rows_def)
  have sf: "SaveFinding ev ?g ?w = (Inr ?f, ?w1)"
    using v nf idn n by (simp add: SaveFinding_def bindE_def nowIso_def Validate_def Let_def WriteFinding replace_file_def next_fault_def flip: touched_def)
  have pb: "prevBytes (FindingPath ?n) ?w = (Inr prev, ?w)"
    using there by (cases prev) (simp_all add: prevBytes_def catchE_def ReadFile_def)
  have run: "status_write ev from to reason (who_of opts) opts (paid_for finding from to) w
      = (case ?logf ?f ?w1 of (rl, w2) \<Rightarrow> (case rl of Inl e \<Rightarrow> restore_after (FindingPath ?n) prev e w2 | Inr _ \<Rightarrow> (Inr ?f, w2)))"
    using sf pb n by (simp add: status_write_def mutateStatus_def bindE_def nowIso_def SaveThenLog_def Let_def catchE_def split: sum.splits prod.splits)
  have h1: "healthy ev st es ?w1"
    by (rule healthy_beside [OF h _ p]) (use nf in \<open>auto simp: world_simps undisturbed_def\<close>)
  have sz1: "size_ok ?w1" using sz p by (simp add: size_ok_def content_of_def world_simps)
  have "mirror_shape es (vA (ObjAt st ''events''))" using h by (simp add: healthy_def)
  moreover have "length es \<le> length (content_of EventsPath w)"
    using h length_records_of [of "content_of EventsPath w"] by (auto simp: healthy_def clean_ledger_def)
  ultimately have len: "length (vA (ObjAt st ''events'')) \<le> length (content_of EventsPath w)"
    using mirror_shape_length le_trans by blast
  have ir: "int64_range (int (length (vA (ObjAt st ''events''))))"
    using int64_range_le [OF sz [unfolded size_ok_def] len] .
  have ar: "args_ok ''finding.status'' (Some ?n) (Some (status_data from to reason (who_of opts)))"
    using u by (simp add: args_ok_def status_data_def)
  have l: "?logf ?f = Log ev ''finding.status'' (Some ?n) (Some (status_data from to reason (who_of opts)))"
    by (simp add: logStatus_def n)
  have und1: "undisturbed ?w1" and ck: "clock_ok ev" using h1 ev by (simp_all add: healthy_def env_ok_def)
  have there1: "\<exists>c. kv_find (files ?w1) (FindingPath ?n) = Some (File True c)"
    using there by (auto simp: world_simps accessible_def split: option.splits)
  have k: "vkind st = KObj" using healthy_facts(3) [OF h ev] .
  have refuse: "refuses_projection ev" if "\<not> validates ev StateSchema (stamped ev t (set_field st ''events'' (VArr xs)))" for t xs
    using that k unfolding refuses_projection_def by (intro exI [of _ "stamped ev t (set_field st ''events'' (VArr xs))"]) simp
  from Log_progress [OF healthy_writable [OF h1 ev] und1 ck ar sz1 ir] consider
      e w2 where "?logf ?f ?w1 = (Inr e, w2)" | w2 where "?logf ?f ?w1 = (Inl (ESchema StateSchema), w2)" "refuses_projection ev"
    using refuse unfolding l by blast
  then show ?thesis
  proof cases
    case 1
    then show ?thesis unfolding run by (simp add: progressed_def)
  next
    case 2
    obtain c where "kv_find (files w2) (FindingPath ?n) = Some (File True c)"
      using there1 2(1) Log_file_same [OF p(1,2)] unfolding l keeps_to_def file_same_def by (metis snd_conv)
    moreover have "undisturbed w2" using calm_run [OF calm.resp_Log 2(1) [unfolded l] und1] .
    ultimately have "\<exists>w3. restoreBytes (FindingPath ?n) prev w2 = (Inr (), w3)"
      by (cases prev) (simp_all add: restoreBytes_def remove_file_def write_file_def next_fault_def undisturbed_def)
    then show ?thesis using 2 unfolding run by (auto simp: restore_after_def catchE_def progressed_def)
  qed
qed

lemma pass_gate_passed: "gate_passed sm ev to finding w \<Longrightarrow> pass_gate sm ev n to finding w = (Inr (), w)"
  by (auto simp: pass_gate_def gate_passed_def filter_not_OK split: if_splits option.splits sum.splits)

lemma duplicate_check_ok: "target_ok ev to opts finding w \<Longrightarrow> duplicate_check ev to opts finding w = (Inr (), w)"
  by (cases "LoadFinding ev (duplicateOf opts) w")
     (auto simp: duplicate_check_def validateDuplicateTarget_def target_ok_def catchE_def dest: LoadFinding_world)

lemma transition_ready:
  assumes "LoadFinding ev n w = (Inr finding, w)" "ObjStr finding ''status'' \<noteq> to" "move_ready sm pl ev to opts finding w"
    and "to \<noteq> ''DISPROVED''"
  shows "transition sm pl ev n to reason opts w = move_tail pl ev n (ObjStr finding ''status'') to reason (who_of opts) opts finding w"
  using assms by (simp add: transition_steps bindE_def Let_def move_ready_def pass_gate_passed duplicate_check_ok disprove_check_def)

lemma move_tail_progress:
  assumes ev: "env_ok ev" and h: "healthy ev st es w" and sz: "size_ok w"
    and u: "valid_utf8 from" "valid_utf8 to" "valid_utf8 reason" "valid_utf8 (who_of opts)" "valid_utf8 (ObjStr finding ''finding_id'')"
    and idn: "ObjStr finding ''finding_id'' \<noteq> []" "slash \<notin> set (ObjStr finding ''finding_id'')"
    and there: "kv_find (files w) (finding_path finding) = map_option (File True) prev"
    and ok: "\<And>f. f \<in> move_rows finding from to reason opts \<Longrightarrow> validates ev ''finding'' f"
    and slot: "needs_slot finding from to \<longrightarrow> slot_free st" and to: "to \<noteq> ''CONFIRMED''" "to \<noteq> ''DISPROVED''"
  shows "\<exists>r w'. move_tail pl ev n from to reason (who_of opts) opts finding w = (r, w') \<and> progressed ev r"
proof -
  have b: "beside ev st es (kv_find (files w)) w" using h aside_refl by (simp add: beside_def)
  have S: "State ev w = (Inr st, w)" "undisturbed w" using h by (simp_all add: healthy_def)
  from S(2,1) slot show ?thesis
  proof (cases rule: pay_slot_free)
    case (refused w1 t)
    have "vkind (charged st) = KObj" "vkind (ObjAt st ''events'') = KArr"
      using healthy_facts(3,4) [OF h ev] by (simp_all add: charged_def budget_with_def Let_def)
    with refused(3) have "refuses_projection ev"
      unfolding refuses_projection_def by (intro exI [of _ "stamped ev t (charged st)"]) simp
    with refused show ?thesis by (simp add: move_tail_def bindE_def progressed_def)
  next
    case (paid w1)
    have same: "kv_find (files w1) q = kv_find (files w) q" if "q \<noteq> StatePath" for q
      using pay_slot_only_state paid that unfolding keeps_to_def only_state_def by (metis snd_conv)
    have sz1: "size_ok w1" using sz same by (simp add: size_ok_def content_of_def)
    from valid_run [OF v_pay_slot [OF ev] b paid sz1] obtain st' where "healthy ev st' es w1" by (auto simp: beside_def)
    moreover have "kv_find (files w1) (finding_path finding) = map_option (File True) prev"
      using same FindingPath_apart(2) [OF idn(2)] there by simp
    ultimately have "\<exists>r w'. status_write ev from to reason (who_of opts) opts (paid_for finding from to) w1 = (r, w') \<and> progressed ev r"
      by (intro status_write_progress [OF ev _ sz1 u idn _ ok])
    then show ?thesis using paid by (auto simp: move_tail_def bindE_def after_move_plain [OF to] progressed_def)
  qed
qed

section \<open>A save and its event go through\<close>

lemma save_and_log:
  assumes ev: "env_ok ev" "\<not> refuses_projection ev" and h: "healthy ev st es w" and sz: "size_ok w"
    and ar: "args_ok ty ref data" and idn: "ObjStr g ''finding_id'' \<noteq> []" "slash \<notin> set (ObjStr g ''finding_id'')"
    and ok: "\<And>t. validates ev ''finding'' (touched g t)"
  shows "\<exists>w2 e w'. SaveFinding ev g w = (Inr (touched g (now ev (ticks w))), w2) \<and> Log ev ty ref data w2 = (Inr e, w')"
proof -
  let ?f = "touched g (now ev (ticks w))"
  let ?w1 = "spend (put_file (finding_path g) (finding_bytes ?f) (w\<lparr>ticks := Suc (ticks w)\<rparr>))"
  note p = FindingPath_apart [OF idn(2)]
  have nf: "faults w = []" "flocks w = []" using h by (simp_all add: healthy_def undisturbed_def)
  have sf: "SaveFinding ev g w = (Inr ?f, ?w1)"
    using nf ok idn by (simp add: SaveFinding_def bindE_def nowIso_def Validate_def Let_def WriteFinding replace_file_def next_fault_def
        flip: touched_def)
  have h1: "healthy ev st es ?w1"
    by (rule healthy_beside [OF h _ p]) (use nf in \<open>auto simp: world_simps undisturbed_def\<close>)
  have sz1: "size_ok ?w1" using sz p by (simp add: size_ok_def content_of_def world_simps)
  have ck: "clock_ok ev" "undisturbed ?w1" using ev h1 by (simp_all add: env_ok_def healthy_def)
  have k: "vkind st = KObj" using healthy_facts(3) [OF h ev(1)] .
  have "validates ev StateSchema (stamped ev t (set_field st ''events'' (VArr xs)))" for t xs
    using ev(2) k unfolding refuses_projection_def by fastforce
  moreover have "int64_range (int (length (vA (ObjAt st ''events''))))"
  proof -
    have "mirror_shape es (vA (ObjAt st ''events''))" using h by (simp add: healthy_def)
    moreover have "length es \<le> length (content_of EventsPath w)"
      using h length_records_of [of "content_of EventsPath w"] by (auto simp: healthy_def clean_ledger_def)
    ultimately have "length (vA (ObjAt st ''events'')) \<le> length (content_of EventsPath w)"
      using mirror_shape_length le_trans by blast
    then show ?thesis by (rule int64_range_le [OF sz [unfolded size_ok_def]])
  qed
  ultimately show ?thesis using Log_progress [OF healthy_writable [OF h1 ev(1)] ck(2,1) ar sz1] sf by blast
qed

lemma SaveThenLog_runs:
  assumes "SaveFinding ev g w = (Inr f, w2)" "logf f w2 = (Inr x, w')" "accessible w (finding_path g)"
  shows "SaveThenLog ev g logf w = (Inr f, w')"
proof -
  have "\<exists>prev. prevBytes (finding_path g) w = (Inr prev, w)"
    using assms(3) by (auto simp: prevBytes_def catchE_def ReadFile_def accessible_def split: option.splits)
  then show ?thesis using assms(1,2) by (auto simp: SaveThenLog_def Let_def bindE_def catchE_def)
qed

end
