(* ===== verification/FindingExamples.thy ===== *)
theory FindingExamples
  imports TransitionFacts PhaseProperties
begin

text \<open>
  A campaign with one finding, on which the properties of moves are applied. The validator is the part
  of the finding schema that matters there: an object, an identifier without a slash, and reasons of at
  least three letters in the history.
\<close>

definition ev1 :: env where
  "ev1 = ev0\<lparr>validates := (\<lambda>s v. if s = ''finding''
     then vkind v = KObj \<and> slash \<notin> set (ObjStr v ''finding_id'') \<and>
          list_all (\<lambda>r. 3 \<le> length (ObjStr r ''reason'')) (vA (ObjAt v ''history''))
     else if s = ''finding#evidence_item'' then vkind v = KObj
     else vkind v = KObj \<and> vkind (ObjAt v ''events'') = KArr)\<rparr>"

lemma validates_ev1 [simp]:
  "validates ev1 ''finding'' v = (vkind v = KObj \<and> slash \<notin> set (ObjStr v ''finding_id'') \<and>
     list_all (\<lambda>r. 3 \<le> length (ObjStr r ''reason'')) (vA (ObjAt v ''history'')))"
  "validates ev1 ''finding#evidence_item'' v = (vkind v = KObj)"
  "validates ev1 StateSchema v = (vkind v = KObj \<and> vkind (ObjAt v ''events'') = KArr)"
  by (simp_all add: ev1_def StateSchema_def)

lemma ev1_ok [simp]: "env_ok ev1" "finding_schema_ok ev1"
proof -
  show "env_ok ev1" using env_ok_ev0
    by (simp add: env_ok_def clock_ok_def schema_ok_def) (simp add: ev1_def)
  show "finding_schema_ok ev1" by (simp add: finding_schema_ok_def)
qed

lemma not_refuses_ev1 [simp]: "\<not> refuses_projection ev1"
  by (simp add: refuses_projection_def)

definition st_budget :: "value" where
  "st_budget = VObj [(''campaign_id'', VStr ''c1''), (''phase'', VStr ''init''), (''events'', VArr []),
     (''budget'', VObj [(''max_discovery_findings'', VInt 5), (''discovery_findings_so_far'', VInt 0)])]"

lemma st_budget_simps [simp]:
  "ObjAt st_budget ''events'' = VArr []" "vkind st_budget = KObj" "wf_value st_budget" "slot_free st_budget"
  by (auto simp: st_budget_def slot_free_def ObjAt_def int64_range_def intro!: valid_utf8_ascii)

text \<open>The world of a fresh campaign that holds one finding.\<close>

definition find_world :: "value \<Rightarrow> world" where
  "find_world f = (world_with [] st_budget)\<lparr>files := files (world_with [] st_budget) @
     [(''findings/F-0a.json'', File True (finding_bytes f))]\<rparr>"

lemma path_0a [simp]: "FindingPath ''F-0a'' = ''findings/F-0a.json''"
  using FindingPath_plain [of "''F-0a''"] by (simp add: slash_def)

lemma find_world_files [simp]:
  "kv_find (files (find_world f)) StatePath = Some (File True (DumpIndented st_budget @ NL))"
  "kv_find (files (find_world f)) EventsPath = Some (File True [])"
  "kv_find (files (find_world f)) WaiversPath = None"
  "kv_find (files (find_world f)) ''findings/F-0a.json'' = Some (File True (finding_bytes f))"
  by (simp_all add: find_world_def world_with_def StatePath_def EventsPath_def WaiversPath_def)

lemma find_world_simps [simp]:
  "content_of EventsPath (find_world f) = []" "accessible (find_world f) EventsPath" "undisturbed (find_world f)"
  "size_ok (find_world f)" "waivers_ok (find_world f) []"
proof -
  show "content_of EventsPath (find_world f) = []" "accessible (find_world f) EventsPath"
    by (simp_all add: content_of_def accessible_def)
  then show "size_ok (find_world f)" by (simp add: size_ok_def int64_range_def)
  show "undisturbed (find_world f)" by (simp add: find_world_def world_with_def undisturbed_def)
  show "waivers_ok (find_world f) []" by (rule no_waivers) (simp_all add: waived_event_keys_def)
qed

lemma settled_find_world: "settled ev1 st_budget [] (find_world f)"
  using parse_Indented_NL [of st_budget] by (simp add: settled_def healthy_def State_Inr saved_def)

lemma LoadFinding_find_world:
  "wf_value f \<Longrightarrow> LoadFinding ev1 ''F-0a'' (find_world f) = (Inr f, find_world f)"
  using parse_Indented_NL [of f]
  by (simp add: LoadFinding_def Let_def catchE_def stat_file_def ReadJson_def bindE_def ReadFile_def parseE_def)

section \<open>A suspicion with a first piece of evidence\<close>

definition f_hyp :: "value" where
  "f_hyp = VObj [(''finding_id'', VStr ''F-0a''), (''status'', VStr ''HYPOTHESIS''),
     (''evidence'', VArr [VObj [(''level'', VStr ''E1'')]]), (''history'', VArr [])]"

lemma f_hyp_simps [simp]:
  "wf_value f_hyp" "vkind f_hyp = KObj" "ObjStr f_hyp ''finding_id'' = ''F-0a''" "ObjStr f_hyp ''status'' = ''HYPOTHESIS''"
  "ObjAt f_hyp ''history'' = VArr []"
  by (auto simp: f_hyp_def ObjStr_def ObjAt_def intro!: valid_utf8_ascii)

abbreviation no_opts :: transitionOpts where
  "no_opts \<equiv> \<lparr>actor = [], adjacent = [], adjacentClear = False, duplicateOf = []\<rparr>"

lemma hyp_ready: "move_ready sm pl ev1 ''PROVISIONALLY_VALID'' no_opts f_hyp w"
proof -
  have "EvidenceDeficit f_hyp ''PROVISIONALLY_VALID'' (Some (ev1, w)) = None"
    by (simp add: EvidenceDeficit_def GateRequirements_def RequiredLevelForCampaign_def EffectiveFloor_def RequiredLevelFor_def
        STATUS_FLOOR_def FindingLevel_def evidence_of_def f_hyp_def ObjAt_def ObjStr_def LevelIndex_def levelIndexValue_def EVIDENCE_ORDER_def)
  then show ?thesis
    by (simp add: move_ready_def target_ok_def gate_passed_def TransitionAllowed_def ALLOWED_TRANSITIONS_def inSet_def)
qed

lemma hyp_slot: "needs_slot f_hyp ''HYPOTHESIS'' ''PROVISIONALLY_VALID''"
  by (simp add: needs_slot_def statusBaselineIndex_def STATUS_FLOOR_def levelIndexValue_def LevelIndex_def EVIDENCE_ORDER_def
      objBool_def f_hyp_def ObjAt_def)

text \<open>What such a move writes: the history has the given reason.\<close>

lemma hyp_rows:
  assumes "f \<in> move_rows f_hyp ''HYPOTHESIS'' ''PROVISIONALLY_VALID'' reason no_opts"
  shows "validates ev1 ''finding'' f \<longleftrightarrow> 3 \<le> length reason"
proof -
  from assms obtain t t' where f: "f = touched (merge_edit ''HYPOTHESIS'' ''PROVISIONALLY_VALID'' []
      (moved (paid_for f_hyp ''HYPOTHESIS'' ''PROVISIONALLY_VALID'') ''PROVISIONALLY_VALID''
        (history_row t ''HYPOTHESIS'' ''PROVISIONALLY_VALID'' reason ''orchestrator''))) t'"
    by (auto simp: move_rows_def)
  let ?p = "paid_for f_hyp ''HYPOTHESIS'' ''PROVISIONALLY_VALID''"
  have p: "vkind ?p = KObj" by (simp add: paid_fields)
  have "vA (ObjAt f ''history'') = [history_row t ''HYPOTHESIS'' ''PROVISIONALLY_VALID'' reason ''orchestrator'']"
    using moved_fields(2) [OF p] by (simp add: f merge_edit_fields paid_fields)
  moreover have "vkind f = KObj" "ObjStr f ''finding_id'' = ''F-0a''"
    using p by (simp_all add: f merge_edit_fields id_kept)
  ultimately show ?thesis by (simp add: history_row_def slash_def ObjStr_def ObjAt_def)
qed

section \<open>A possible finding that has earned its confirmation\<close>

definition mem_row :: "value" where
  "mem_row = VObj [(''memory_id'', VStr ''MEM-1''), (''bug_class'', VStr ''reentrancy'')]"

definition poss_check :: "value" where
  "poss_check = VObj [(''memory_ids'', VArr [VStr ''MEM-1'']), (''mode'', VStr ''negative''),
     (''row_digest'', VStr (ComputeRowDigest [''MEM-1''] [(''MEM-1'', mem_row)]))]"

lemma poss_check_wf [simp]: "wf_value poss_check"
  by (auto simp: poss_check_def ComputeRowDigest_def intro!: valid_utf8_ascii)

definition f_poss :: "value" where
  "f_poss = VObj [(''finding_id'', VStr ''F-0a''), (''status'', VStr ''POSSIBLE''), (''discovery_slot_consumed'', VBool True),
     (''evidence'', VArr [VObj [(''level'', VStr ''E5''), (''type'', VStr ''fork-test'')]]),
     (''verification'', VObj [(''critic_verdict'', VStr ''confirmed''),
        (''reproduction'', VObj [(''status'', VStr ''reproduced''), (''tier_reached'', VStr ''T3'')])]),
     (''provenance'', VObj [(''memory_checks'', VArr [poss_check])]), (''history'', VArr [])]"

definition sm0 :: seams where
  "sm0 = \<lparr>sharedMemoryRows = (\<lambda>_. Inr [mem_row]), memoryListable = True, execsListable = True, errString = (\<lambda>_. []),
     onchainSequenceRequired = (\<lambda>_ _. False), verifySequenceCoverage = (\<lambda>_ _ _. False), intentClaims = (\<lambda>_. Inr []),
     loadInvariantLinks = (\<lambda>_. Inr (VObj [])), documentedInvariants = (\<lambda>_. Inr []), invariantVerified = (\<lambda>_ _ _ _. False),
     reproductionTierOrder = [''none'', ''T0'', ''T1'', ''T2'', ''T3'', ''T4''], probeBlindSpots = (\<lambda>_ _. None),
     ClaimDriftProblems = (\<lambda>_. Inr []), forkRpcSet = True\<rparr>"

lemma f_poss_simps [simp]:
  "wf_value f_poss" "vkind f_poss = KObj" "ObjStr f_poss ''finding_id'' = ''F-0a''" "ObjStr f_poss ''status'' = ''POSSIBLE''"
  "ObjAt f_poss ''history'' = VArr []" "ObjStr f_poss ''reported_severity'' = []"
  by (auto simp: f_poss_def ObjStr_def ObjAt_def intro!: valid_utf8_ascii)

lemma poss_fields:
  "asDict (ObjAt f_poss ''verification'') = VObj [(''critic_verdict'', VStr ''confirmed''),
     (''reproduction'', VObj [(''status'', VStr ''reproduced''), (''tier_reached'', VStr ''T3'')])]"
  "evidence_of f_poss = [VObj [(''level'', VStr ''E5''), (''type'', VStr ''fork-test'')]]"
  "ObjAt f_poss ''invariant'' = VNull" "ObjAt f_poss ''security_invariants'' = VNull" "ObjAt f_poss ''root_cause'' = VNull"
  by (simp_all add: f_poss_def asDict_def ObjAt_def evidence_of_def)

lemma ObjAt_other [simp]: "ObjAt (VObj []) k = VNull" "ObjAt VNull k = VNull"
  by (simp_all add: ObjAt_def)

lemma poss_class: "gate_class f_poss = None" "class_of f_poss = []"
  by (simp_all add: gate_class_def class_of_def poss_fields asDict_def ObjStr_def Let_def)

lemma poss_floor: "gate_floor ev1 f_poss w = ''E5''"
  by (simp add: gate_floor_def poss_class RequiredLevelForCampaign_def EffectiveFloor_def RequiredLevelFor_def STATUS_FLOOR_def)

lemma E5_index: "LevelIndex ''E5'' = Inr 5" "levelIndexValue ''E5'' = 5"
  by (simp_all add: LevelIndex_def levelIndexValue_def EVIDENCE_ORDER_def)

lemma poss_deficit: "EvidenceDeficit f_poss ''CONFIRMED'' (Some (ev1, w)) = None"
  by (simp add: EvidenceDeficit_def GateRequirements_def poss_class RequiredLevelForCampaign_def EffectiveFloor_def RequiredLevelFor_def
      STATUS_FLOOR_def FindingLevel_def poss_fields E5_index ObjStr_def ObjAt_def)
     (simp add: EVIDENCE_ORDER_def E5_index)

lemma no_memory_files: "AllMemory True (find_world f) = (Inr [], find_world f)"
  by (simp add: AllMemory_def catchE_def ListPrefixedOptional_def find_world_def world_with_def in_dir_def has_prefix_def
      StatePath_def EventsPath_def MemoryDir_def slash_def ret_def)

lemma poss_rows_visible: "VisibleMemoryRows sm0 (find_world f) = Inr [(''MEM-1'', mem_row)]"
  by (simp add: VisibleMemoryRows_def sm0_def no_memory_files add_shared_def shared_row_def Let_def mem_row_def ObjStr_def ObjAt_def
      HasObjKey_def)

lemma poss_recall: "MemoryCheckFails sm0 ev1 ''F-0a'' (find_world f_poss) = Inr None"
proof -
  have "check_verifies [(''MEM-1'', mem_row)] poss_check"
    by (simp add: check_verifies_def poss_check_def known_mode_def valueStrings_def ObjAt_def ObjStr_def Let_def)
  moreover have "recorded_checks f_poss = [poss_check]"
    by (simp add: recorded_checks_def f_poss_def asDict_def ObjAt_def)
  ultimately show ?thesis by (simp add: MemoryCheckFails_def LoadFinding_find_world poss_rows_visible)
qed

lemma no_pin: "AssertSnapshotCompatible ev1 f True (find_world g) = (Inr True, find_world g)"
proof -
  have "State ev1 (find_world g) = (Inr st_budget, find_world g)"
    using settled_find_world [of g] by (simp add: settled_def healthy_def)
  then show ?thesis by (simp add: AssertSnapshotCompatible_def ActiveSnapshot_def bindE_def ret_def st_budget_def ObjAt_def)
qed

lemma poss_gate: "\<exists>cls. ConfirmationGateClauses sm0 ev1 f_poss (find_world f_poss) = Inr cls \<and> list_all OK cls"
proof -
  let ?w = "find_world f_poss" and ?repro = "VObj [(''status'', VStr ''reproduced''), (''tier_reached'', VStr ''T3'')]"
  have "logLines ?w = (Inr [], ?w)" using logLines_Inr [of ?w "[]" ?w] by simp
  then have events: "fst (Events ?w) = Inr []" by (simp add: Events_def bindE_def)
  have ids: "invariantIDs f_poss = []" by (simp add: invariantIDs_def poss_fields asDict_def Let_def)
  have parts: "memoryCheck sm0 ev1 f_poss ?w = Inr (satisfied ev1 ''memory-check'' None)"
      "evidenceFloor sm0 ev1 f_poss ?w = Inr [satisfied ev1 ''evidence-floor'' None]"
      "sequenceCoverage sm0 ev1 f_poss ?repro ?w = Inr []" "claimDrift sm0 ev1 f_poss = Inr [satisfied ev1 ''claim-drift'' None]"
      "probeAnchor sm0 ev1 f_poss ?w = []" "snapshotCompatible sm0 ev1 f_poss ?w = satisfied ev1 ''snapshot-compatible'' None"
    by (simp_all add: memoryCheck_def poss_recall evidenceFloor_def sequenceCoverage_def claimDrift_def probeAnchor_def
        snapshotCompatible_def no_pin poss_deficit Let_def) (simp_all add: sm0_def)
  have sh: "shield sm0 ev1 f_poss ver ?w = Inr []" for ver
    by (simp add: shield_def poss_fields asDict_def Let_def)
  have inv: "invariants sm0 ev1 f_poss ?w = Inr []" by (simp add: invariants_def ids events) (simp add: sm0_def events)
  have tb: "\<not> tierBelowT3 (VStr ''T3'') (reproductionTierOrder sm0)"
    by (simp add: sm0_def tierBelowT3_def indexOfStr_def)
  have tier: "reproductionTier sm0 ev1 ?repro ''E5'' = [satisfied ev1 ''reproduction-tier'' None]"
    using tb by (simp add: reproductionTier_def E5_index HasObjKey_def ObjAt_def)
  have crit: "criticVerdict ev1 (VObj [(''critic_verdict'', VStr ''confirmed''), (''reproduction'', ?repro)]) = satisfied ev1 ''critic-verdict'' None"
    "reproduction ev1 ?repro = satisfied ev1 ''reproduction-reproduced'' None"
    by (simp_all add: criticVerdict_def reproduction_def ObjAt_def)
  have rep: "asDict (ObjAt (VObj [(''critic_verdict'', VStr ''confirmed''), (''reproduction'', ?repro)]) ''reproduction'') = ?repro"
    by (simp add: ObjAt_def asDict_def)
  show ?thesis
    unfolding ConfirmationGateClauses_def Let_def poss_fields(1) rep
    by (simp add: parts sh inv tier crit poss_floor satisfied_def)
qed

text \<open>A plan layer that is never reached: the severity is not high.\<close>

definition pl0 :: planner where
  "pl0 = \<lparr>familiesFor = (\<lambda>_ _. []), loadPlanReadonly = (\<lambda>_. Inr VNull), savePlan = (\<lambda>_. ret ()),
     siblingRescan = (\<lambda>_ _ _ _ _. ret ()), knownClasses = [], errText = (\<lambda>_. [])\<rparr>"

lemma poss_ready: "move_ready sm0 pl0 ev1 ''CONFIRMED'' no_opts f_poss (find_world f_poss)"
  using poss_gate
  by (auto simp: move_ready_def target_ok_def gate_passed_def TransitionAllowed_def ALLOWED_TRANSITIONS_def inSet_def)

lemma poss_slot: "paid_for f_poss ''POSSIBLE'' ''CONFIRMED'' = f_poss" "\<not> needs_slot f_poss ''POSSIBLE'' ''CONFIRMED''"
proof -
  show "\<not> needs_slot f_poss ''POSSIBLE'' ''CONFIRMED''" by (simp add: needs_slot_def objBool_def f_poss_def ObjAt_def)
  then show "paid_for f_poss ''POSSIBLE'' ''CONFIRMED'' = f_poss" by (simp add: paid_for_def)
qed

lemma poss_rows:
  assumes "f \<in> move_rows f_poss ''POSSIBLE'' ''CONFIRMED'' ''reproduced on a fork'' no_opts"
  shows "validates ev1 ''finding'' f"
proof -
  from assms obtain t t' where f: "f = touched (merge_edit ''POSSIBLE'' ''CONFIRMED'' []
      (moved f_poss ''CONFIRMED'' (history_row t ''POSSIBLE'' ''CONFIRMED'' ''reproduced on a fork'' ''orchestrator''))) t'"
    by (auto simp: move_rows_def poss_slot)
  have "vA (ObjAt f ''history'') = [history_row t ''POSSIBLE'' ''CONFIRMED'' ''reproduced on a fork'' ''orchestrator'']"
    using moved_fields(2) [OF f_poss_simps(2)] by (simp add: f merge_edit_fields)
  moreover have "vkind f = KObj" "ObjStr f ''finding_id'' = ''F-0a''" by (simp_all add: f merge_edit_fields id_kept)
  ultimately show ?thesis by (simp add: history_row_def slash_def ObjStr_def ObjAt_def)
qed

lemma poss_confirmed:
  "\<exists>f w'. transition sm0 pl0 ev1 ''F-0a'' ''CONFIRMED'' ''reproduced on a fork'' no_opts (find_world f_poss) = (Inr f, w')"
proof -
  let ?w = "find_world f_poss"
  note h = settled_healthy [OF settled_find_world [of f_poss]]
  have "\<exists>r w'. status_write ev1 ''POSSIBLE'' ''CONFIRMED'' ''reproduced on a fork'' (who_of no_opts) no_opts
      (paid_for f_poss ''POSSIBLE'' ''CONFIRMED'') ?w = (r, w') \<and> progressed ev1 r"
    by (rule status_write_progress [OF ev1_ok(1) h _ _ _ _ _ _ _ _ _ poss_rows, where prev = "Some (finding_bytes f_poss)"])
       (simp_all add: slash_def valid_utf8_ascii)
  then obtain f w' where sw: "status_write ev1 ''POSSIBLE'' ''CONFIRMED'' ''reproduced on a fork'' (who_of no_opts) no_opts f_poss ?w = (Inr f, w')"
    by (auto simp: progressed_def poss_slot)
  obtain t t' where f: "f = touched (merge_edit ''POSSIBLE'' ''CONFIRMED'' []
      (moved f_poss ''CONFIRMED'' (history_row t ''POSSIBLE'' ''CONFIRMED'' ''reproduced on a fork'' ''orchestrator''))) t'"
    using status_write_Inr [OF sw] by auto
  have "ObjAt f ''reported_severity'' = ObjAt f_poss ''reported_severity''"
    using moved_fields(3) [OF f_poss_simps(2), of "''reported_severity''"] by (simp add: f merge_edit_fields)
  then have "ObjStr f ''reported_severity'' = []" using f_poss_simps(6) by (simp add: ObjStr_def)
  then have "after_move pl0 ev1 ''F-0a'' ''CONFIRMED'' no_opts ''reproduced on a fork'' ''orchestrator'' f w' = (Inr f, w')"
    by (simp add: after_move_def anchorRescan_def)
  then have "move_tail pl0 ev1 ''F-0a'' ''POSSIBLE'' ''CONFIRMED'' ''reproduced on a fork'' (who_of no_opts) no_opts f_poss ?w = (Inr f, w')"
    using sw poss_slot(2) by (simp add: move_tail_def pay_slot_cases bindE_def)
  then show ?thesis
    using transition_ready [OF _ _ poss_ready] LoadFinding_find_world [of f_poss] by auto
qed

end
