(* ===== verification/TransitionProperties.thy ===== *)
theory TransitionProperties
  imports FindingExamples
begin

text \<open>
  The properties of the finding store and of the status machine as it runs: a save with its event is
  atomic, a move is legal and changes only what it says, a confirmed finding passed every clause of the
  gate, and on a settled campaign a move is on the ledger and in the file or in neither, but for the
  discovery slot.
\<close>

section \<open>Saving a finding with its event\<close>

text \<open>C20: Saving a finding and logging its event, whatever the disk does to the writes. On success the
  file holds exactly the finding, stamped with the time and accepted by the schema, and the event was
  appended by the last step; on an error either the file is byte for byte what it was, present or absent,
  or the error says that the unwind itself failed.\<close>

theorem finding_save_atomic:
  assumes "slash \<notin> set (ObjStr finding ''finding_id'')"
    and "SaveThenLog ev finding (\<lambda>f. Log ev (ty f) (ref f) (data f)) w = (r, w')"
  shows "case r of
      Inr f \<Rightarrow> (\<exists>t. f = set_field finding ''updated_at'' (VStr t)) \<and> validates ev ''finding'' f \<and>
        content_of (FindingPath (ObjStr finding ''finding_id'')) w' = DumpIndented f @ NL \<and>
        (\<exists>e w1. Log ev (ty f) (ref f) (data f) w1 = (Inr e, w'))
    | Inl e \<Rightarrow> (\<exists>e1 e2. e = EUnwindFailed e1 e2) \<or>
        kv_find (files w') (FindingPath (ObjStr finding ''finding_id'')) = kv_find (files w) (FindingPath (ObjStr finding ''finding_id''))"
proof -
  let ?n = "ObjStr finding ''finding_id''"
  have p: "''findings/'' @ (?n @ ''.json'') = FindingPath ?n" by (simp add: FindingPath_plain [OF assms(1)])
  note out = finding_log.atomic [OF assms(2), of "?n @ ''.json''", unfolded p, OF refl]
  then show ?thesis unfolding file_same_def touched_def .
qed

theorem finding_save_atomic_witness:
  "\<exists>r w'. SaveThenLog ev1 f_hyp (\<lambda>f. Log ev1 ''note'' None None) (find_world f_hyp) = (r, w') \<and> (case r of
      Inr f \<Rightarrow> content_of ''findings/F-0a.json'' w' = DumpIndented f @ NL
    | Inl e \<Rightarrow> (\<exists>e1 e2. e = EUnwindFailed e1 e2) \<or>
        kv_find (files w') ''findings/F-0a.json'' = Some (File True (DumpIndented f_hyp @ NL)))"
proof -
  obtain r w' where run: "SaveThenLog ev1 f_hyp (\<lambda>f. Log ev1 ''note'' None None) (find_world f_hyp) = (r, w')"
    by (cases "SaveThenLog ev1 f_hyp (\<lambda>f. Log ev1 ''note'' None None) (find_world f_hyp)")
  have "slash \<notin> set (ObjStr f_hyp ''finding_id'')" by (simp add: slash_def)
  from finding_save_atomic [OF this run] run show ?thesis by (auto split: sum.splits)
qed

section \<open>Moves\<close>



section \<open>The gate\<close>

lemma clause_OK [simp]: "OK (fail_clause ev c m s) = False" "OK (satisfied ev c s) = True" "OK (failWith c m rem s) = False"
  by (simp_all add: fail_clause_def satisfied_def failWith_def)

lemma str_value: "vkind v = KStr \<and> vS v = s \<longleftrightarrow> v = VStr s"
  by (cases v) auto

text \<open>A recorded consultation that still verifies.\<close>

definition consulted :: "seams \<Rightarrow> env \<Rightarrow> string \<Rightarrow> world \<Rightarrow> bool" where
  "consulted sm ev n w \<longleftrightarrow> (\<exists>finding rows. fst (LoadFinding ev n w) = Inr finding \<and> VisibleMemoryRows sm w = Inr rows \<and>
     (\<exists>c \<in> set (recorded_checks finding). check_verifies rows c))"

lemma consulted: "MemoryCheckFails sm ev n w = Inr None \<longleftrightarrow> consulted sm ev n w"
  by (auto simp: MemoryCheckFails_def consulted_def bindR_Inr_iff list_ex_iff split: if_splits)

lemma OK_checks:
  "OK (criticVerdict ev ver) \<longleftrightarrow> ObjAt ver ''critic_verdict'' = VStr ''confirmed''"
  "OK (reproduction ev repro) \<longleftrightarrow> ObjAt repro ''status'' = VStr ''reproduced''"
  "OK (snapshotCompatible sm ev finding w) \<longleftrightarrow> pin_agrees ev finding w"
  by (auto simp: criticVerdict_def reproduction_def snapshotCompatible_def Let_def simp flip: str_value pin_agrees split: sum.split)

lemma OK_memory: "memoryCheck sm ev finding w = Inr cl \<Longrightarrow> OK cl \<Longrightarrow> consulted sm ev (ObjStr finding ''finding_id'') w"
  unfolding consulted [symmetric]
  by (cases "MemoryCheckFails sm ev (ObjStr finding ''finding_id'') w") (auto simp: memoryCheck_def split: option.splits)

lemma OK_floor: "evidenceFloor sm ev finding w = Inr cls \<Longrightarrow> list_all OK cls \<Longrightarrow> EvidenceDeficit finding ''CONFIRMED'' (Some (ev, w)) = None"
  by (auto simp: evidenceFloor_def Let_def bindR_Inr_iff split: option.splits if_splits)

lemma OK_drift: "claimDrift sm ev finding = Inr cls \<Longrightarrow> list_all OK cls \<Longrightarrow> ClaimDriftProblems sm finding = Inr []"
  by (auto simp: claimDrift_def bindR_Inr_iff split: if_splits) (case_tac x; simp)

lemma OK_probe: "list_all OK (probeAnchor sm ev finding w) \<Longrightarrow> probeBlindSpots sm finding w \<in> {None, Some []}"
  by (auto simp: probeAnchor_def split: option.splits if_splits) (case_tac x2; auto)

lemma OK_tier:
  "list_all OK (reproductionTier sm ev repro flr) \<Longrightarrow> LevelIndex flr = Inr fi \<Longrightarrow> levelIndexValue ''E5'' \<le> fi \<Longrightarrow>
     \<not> tierBelowT3 (if HasObjKey repro ''tier_reached'' then ObjAt repro ''tier_reached'' else VStr ''none'') (reproductionTierOrder sm)"
  by (auto simp: reproductionTier_def Let_def split: if_splits)

text \<open>An invariant the finding names is in the registry and documented or verified.\<close>

definition invariant_earned :: "seams \<Rightarrow> world \<Rightarrow> (string \<times> value) list \<Rightarrow> value list \<Rightarrow> string \<Rightarrow> value \<Rightarrow> bool" where
  "invariant_earned sm w docs events iid e \<longleftrightarrow>
     kv_find docs iid \<noteq> None \<or> ObjStr e ''source'' = ''documented'' \<or> invariantVerified sm e iid events w"

lemma OK_invariants:
  assumes "invariants sm ev finding w = Inr cls" "list_all OK cls" "iid \<in> set (invariantIDs finding)"
  shows "\<exists>docs events e. documentedInvariants sm w = Inr docs \<and> fst (Events w) = Inr events \<and> invariant_earned sm w docs events iid e"
proof -
  obtain reg docs events where d: "documentedInvariants sm w = Inr docs" "fst (Events w) = Inr events"
      "cls = map (invariant_clause sm ev reg docs events w) (invariantIDs finding)"
    using assms(1) by (auto simp: invariants_def Let_def bindR_Inr_iff)
  then have "OK (invariant_clause sm ev reg docs events w iid)" using assms(2,3) by (simp add: list_all_iff)
  then show ?thesis using d(1,2) by (auto simp: invariant_clause_def invariant_earned_def split: option.splits if_splits)
qed

definition confirmation_earned :: "seams \<Rightarrow> env \<Rightarrow> value \<Rightarrow> world \<Rightarrow> bool" where
  "confirmation_earned sm ev finding w \<longleftrightarrow>
     (let ver = asDict (ObjAt finding ''verification''); repro = asDict (ObjAt ver ''reproduction'') in
      ObjAt ver ''critic_verdict'' = VStr ''confirmed'' \<and> ObjAt repro ''status'' = VStr ''reproduced'' \<and>
      EvidenceDeficit finding ''CONFIRMED'' (Some (ev, w)) = None \<and>
      consulted sm ev (ObjStr finding ''finding_id'') w \<and>
      pin_agrees ev finding w \<and> ClaimDriftProblems sm finding = Inr [] \<and>
      probeBlindSpots sm finding w \<in> {None, Some []} \<and>
      (\<forall>fi. LevelIndex (gate_floor ev finding w) = Inr fi \<longrightarrow> levelIndexValue ''E5'' \<le> fi \<longrightarrow>
         \<not> tierBelowT3 (if HasObjKey repro ''tier_reached'' then ObjAt repro ''tier_reached'' else VStr ''none'') (reproductionTierOrder sm)) \<and>
      (\<forall>iid \<in> set (invariantIDs finding). \<exists>docs events e. documentedInvariants sm w = Inr docs \<and>
         fst (Events w) = Inr events \<and> invariant_earned sm w docs events iid e))"

lemma gate_earned:
  assumes "ConfirmationGateClauses sm ev finding w = Inr cls" "list_all OK cls"
  shows "confirmation_earned sm ev finding w"
proof -
  let ?ver = "asDict (ObjAt finding ''verification'')" let ?repro = "asDict (ObjAt ?ver ''reproduction'')"
  obtain memory ground sequences shields invs drift where g:
      "memoryCheck sm ev finding w = Inr memory" "evidenceFloor sm ev finding w = Inr ground"
      "invariants sm ev finding w = Inr invs" "claimDrift sm ev finding = Inr drift"
      "cls = [criticVerdict ev ?ver, memory, reproduction ev ?repro] @ ground
         @ reproductionTier sm ev ?repro (gate_floor ev finding w) @ sequences
         @ [snapshotCompatible sm ev finding w] @ shields @ invs @ probeAnchor sm ev finding w @ drift"
    using assms(1) by (auto simp: ConfirmationGateClauses_def Let_def bindR_Inr_iff)
  have ok: "OK (criticVerdict ev ?ver)" "OK memory" "OK (reproduction ev ?repro)" "list_all OK ground"
      "list_all OK (reproductionTier sm ev ?repro (gate_floor ev finding w))" "OK (snapshotCompatible sm ev finding w)"
      "list_all OK invs" "list_all OK (probeAnchor sm ev finding w)" "list_all OK drift"
    using assms(2) g(5) by simp_all
  show ?thesis unfolding confirmation_earned_def Let_def
    using ok(1,3,6) [unfolded OK_checks] OK_memory [OF g(1) ok(2)] OK_floor [OF g(2) ok(4)] OK_drift [OF g(4) ok(9)]
      OK_probe [OF ok(8)] OK_tier [OF ok(5)] OK_invariants [OF g(3) ok(7)] by blast
qed



section \<open>Moves on a settled campaign\<close>

lemma allowed_utf8: "TransitionAllowed s t \<Longrightarrow> valid_utf8 s \<and> valid_utf8 t"
proof -
  assume t: "TransitionAllowed s t"
  have "list_all (\<lambda>e. list_all (\<lambda>t. isASCII (fst e) \<and> isASCII t) (snd e)) ALLOWED_TRANSITIONS" by code_simp
  from allowed_all [OF t, of "\<lambda>s t. isASCII s \<and> isASCII t", OF this] show ?thesis
    by (auto simp: isASCII_def list_all_iff intro!: valid_utf8_ascii)
qed

lemma LoadFinding_utf8: "LoadFinding ev n w = (Inr finding, w') \<Longrightarrow> valid_utf8 (ObjStr finding k)"
  by (rule wf_ObjStr [OF LoadFinding_wf])

text \<open>The other files of a campaign.\<close>

definition apart_from :: "string set \<Rightarrow> world \<Rightarrow> world \<Rightarrow> bool" where
  "apart_from ps w w' \<longleftrightarrow> (\<forall>q. q \<notin> ps \<longrightarrow> kv_find (files w') q = kv_find (files w) q)"

lemma aside_apart: "aside (kv_find (files w)) w' \<longleftrightarrow> apart_from {EventsPath, StatePath} w w'"
  by (auto simp: aside_def apart_from_def)

lemma aside_apart_upd:
  "aside ((kv_find (files w))(p \<mapsto> x)) w' \<Longrightarrow> p \<noteq> EventsPath \<Longrightarrow> p \<noteq> StatePath \<Longrightarrow>
     kv_find (files w') p = Some x \<and> apart_from {EventsPath, StatePath, p} w w'"
  by (simp add: aside_def apart_from_def)

definition counted :: "bool \<Rightarrow> value \<Rightarrow> value" where
  "counted slot st = (if slot then charged st else st)"



lemma loaded_file:
  "LoadFinding ev n w = (Inr finding, w) \<Longrightarrow> \<exists>c. kv_find (files w) (FindingPath n) = Some (File True c)"
  by (auto simp: LoadFinding_def Let_def catchE_def stat_file_def ReadJson_def bindE_Inr world_simps split: if_splits)



lemma LoadFinding_cong:
  "kv_find (files w') (FindingPath n) = kv_find (files w) (FindingPath n) \<Longrightarrow> LoadFinding ev n w = (r, w) \<Longrightarrow> LoadFinding ev n w' = (r, w')"
  by (auto simp: LoadFinding_def Let_def catchE_def stat_file_def ReadJson_def bindE_def ReadFile_def parseE_def
      split: if_splits option.splits)

abbreviation slots_used :: "value \<Rightarrow> int" where
  "slots_used st \<equiv> vI (ObjAt (ObjAt st ''budget'') ''discovery_findings_so_far'')"

lemma charged_counter:
  assumes "wf_value st" "vkind st = KObj" "slot_free st"
  shows "slots_used (charged st) = slots_used st + 1"
proof -
  have i: "int64_range (vI v)" if "wf_value v" for v using that by (cases v) (auto simp: int64_range_def)
  let ?b = "ObjAt st ''budget''"
  have "vkind ?b = KObj" using assms(3) by (cases ?b) (auto simp: slot_free_def ObjAt_def)
  then have c: "slots_used (charged st) = wrap64 (slots_used st + 1)"
    using assms(2) by (simp add: charged_def budget_with_def Let_def)
  have r: "int64_range (slots_used st)" "int64_range (vI (ObjAt ?b ''max_discovery_findings''))"
    by (intro i wf_ObjAt assms(1))+
  have "int64_range (slots_used st + 1)"
    using r assms(3) unfolding int64_range_def slot_free_def by linarith
  then show ?thesis using c wrap64_id by simp
qed



end
