(* ===== verification/ExecEvidence.thy ===== *)
theory ExecEvidence
  imports SnapTrust ExecRecord
begin

text \<open>
  When a run may back evidence, and the operation that appends evidence to a finding
  (\<^verbatim>\<open>internal/findings/exec_evidence.go\<close>, \<^verbatim>\<open>poc_tier.go\<close>,
  \<^verbatim>\<open>ingest_evidence.go\<close>, \<^verbatim>\<open>ingest_evidence_gate.go\<close>). A refusal carries a tag and
  the values its sentence names. The guard over unverified invariants is installed at start-up and is an
  argument.
\<close>

section \<open>Tiers\<close>

definition ReproTierOf :: "value \<Rightarrow> string" where
  "ReproTierOf repro =
     (if vkind repro \<noteq> KObj then ''none''
      else case kv_find (vO repro) ''tier_reached'' of
        None \<Rightarrow> ''none''
      | Some v \<Rightarrow> if vkind v = KStr then vS v else ''none'')"

definition RecordedReproTier :: "value \<Rightarrow> string" where
  "RecordedReproTier f = ReproTierOf (ObjAt (ObjAt f ''verification'') ''reproduction'')"

definition MintEvidenceLevelType :: "string \<Rightarrow> string option \<Rightarrow> string \<times> string" where
  "MintEvidenceLevelType claimTier explicitType =
     (let level = (if claimTier = ''T3'' \<or> claimTier = ''T4'' then ''E5'' else ''E4'');
          etype = (if level = ''E5'' then ''fork-test'' else ''foundry-test'')
      in (level, case explicitType of None \<Rightarrow> etype | Some t \<Rightarrow> t))"

definition pocTierExistence :: string where "pocTierExistence = ''existence''"
definition pocTierMaximized :: string where "pocTierMaximized = ''maximized''"

definition PocTiers :: "string list" where "PocTiers = [pocTierExistence, pocTierMaximized]"

definition HasPocTier :: "value \<Rightarrow> string \<Rightarrow> bool" where
  "HasPocTier f tier = list_ex (\<lambda>e. ObjStr e ''poc_tier'' = tier) (vA (ObjAt f ''evidence''))"

definition PocTierOf :: "value \<Rightarrow> string" where
  "PocTierOf f = foldl (\<lambda>out tier. if HasPocTier f tier then tier else out) ''none'' PocTiers"

definition MaximizedEvidence :: "value \<Rightarrow> value option" where
  "MaximizedEvidence f = find (\<lambda>e. ObjStr e ''poc_tier'' = pocTierMaximized) (vA (ObjAt f ''evidence''))"

definition ForkDependent :: "value \<Rightarrow> bool" where
  "ForkDependent f \<longleftrightarrow> ObjStr f ''fork_dependence'' \<noteq> ''none''"

definition ValidatePocTierOrder :: "value \<Rightarrow> string \<Rightarrow> error + unit" where
  "ValidatePocTierOrder f tier =
     (if tier \<noteq> pocTierMaximized then Inr ()
      else if \<not> ForkDependent f then Inr ()
      else if \<not> HasPocTier f pocTierExistence then Inl (ERefused ''a maximized PoC requires an existence-tier PoC first'' [])
      else Inr ())"

section \<open>Truncated captures\<close>

record TruncatedCapture =
  Stream :: string
  Cap :: int
  Total :: "int option"

definition Kept :: "TruncatedCapture \<Rightarrow> int" where "Kept tc = Cap tc"

definition Accounting :: "TruncatedCapture \<Rightarrow> string" where
  "Accounting tc =
     (let total = (case Total tc of Some n \<Rightarrow> FormatInt n
                   | None \<Rightarrow> ''None (output withheld '' @ dash @ '' the true byte count is not in the record)'')
      in Stream tc @ '' capture marked truncated: kept '' @ FormatInt (Kept tc) @ '' of '' @ total @ '' bytes (cap_bytes ''
         @ FormatInt (Cap tc) @ '', '' @ Stream tc @ ''_truncated=true)'')"

definition int_field :: "value \<Rightarrow> string \<Rightarrow> int option" where
  "int_field v key = (let f = ObjAt v key in if vkind f = KInt then Some (vI f) else None)"

definition marked_truncated :: "value \<Rightarrow> string \<Rightarrow> bool" where
  "marked_truncated oc stream \<longleftrightarrow> (let m = ObjAt oc (stream @ ''_truncated'') in vkind m = KBool \<and> vB m)"

definition ExecTruncatedCapture :: "value \<Rightarrow> TruncatedCapture option" where
  "ExecTruncatedCapture rec =
     (let oc = ObjAt rec ''output_capture'' in
      if vkind oc \<noteq> KObj then None
      else map_option (\<lambda>stream. \<lparr>Stream = stream,
             Cap = (case int_field oc ''cap_bytes'' of None \<Rightarrow> 0 | Some n \<Rightarrow> n),
             Total = int_field oc (stream @ ''_total_bytes'')\<rparr>)
           (find (marked_truncated oc) [''stdout'', ''stderr'']))"

section \<open>The gate on a record\<close>

definition E4_PROFILES :: "string list" where
  "E4_PROFILES = [''docker-networkless'', ''docker-gvisor'', ''vm-snapshot'', ''fork-runner'']"

definition pyReprScalar :: "value \<Rightarrow> string" where
  "pyReprScalar v = (if vkind v = KStr then PyReprStr (vS v) else PyRepr v)"

definition checkR :: "bool \<Rightarrow> string \<Rightarrow> string list \<Rightarrow> error + unit" where
  "checkR ok tag args = (if ok then Inr () else Inl (ERefused tag args))"

definition checkExecExpectationShape :: "string \<Rightarrow> value \<Rightarrow> error + unit" where
  "checkExecExpectationShape execID rec =
     (let outcome = ObjStr rec ''expected_outcome''; sig = ExecExpectedFailure rec in
      if outcome \<noteq> [] \<and> outcome \<noteq> EXPECT_PASS \<and> outcome \<noteq> EXPECT_FAIL
        then Inl (ERefused ''expected_outcome is not one of pass | fail'' [execID, PyReprStr outcome])
      else if sig \<noteq> [] \<and> outcome \<noteq> EXPECT_FAIL
        then Inl (ERefused ''expected_failure declared under expected_outcome''
               [execID, PyReprStr sig, if outcome = [] then ''(absent)'' else outcome])
      else Inr ())"

definition checkExecProfile :: "string \<Rightarrow> value \<Rightarrow> error + unit" where
  "checkExecProfile execID rec =
     checkR (ObjStr rec ''profile'' \<in> set E4_PROFILES) ''E4+ evidence requires a container/VM profile''
       [execID, PyReprStr (ObjStr rec ''profile'')]"

definition checkExecExit :: "string \<Rightarrow> value \<Rightarrow> error + unit" where
  "checkExecExit execID rec =
     (let exit = ObjAt rec ''exit_status'' in
      if ExecExpectedOutcome rec = EXPECT_FAIL
      then checkR (vkind exit = KInt \<and> vI exit \<noteq> 0) ''expected_outcome is fail but exit_status is'' [execID, pyReprScalar exit]
      else checkR (vkind exit = KInt \<and> vI exit = 0) ''exec exited with status'' [execID, pyReprScalar exit])"

definition checkExecOutputNonEmpty :: "harness \<Rightarrow> string \<Rightarrow> value \<Rightarrow> error + unit" where
  "checkExecOutputNonEmpty h execID rec =
     (if TrimSpace (ExecOutput h rec) \<noteq> [] then Inr ()
      else if ExecExpectedOutcome rec = EXPECT_FAIL
        then Inl (ERefused ''expected_outcome is fail but the captured output is EMPTY'' [execID, pyReprScalar (ObjAt rec ''exit_status'')])
      else Inl (ERefused ''exec exited 0 with EMPTY captured output'' [execID]))"

definition checkExecCaptureComplete :: "string \<Rightarrow> value \<Rightarrow> error + unit" where
  "checkExecCaptureComplete execID rec = (case ExecTruncatedCapture rec of
       None \<Rightarrow> Inr ()
     | Some tc \<Rightarrow> Inl (ERefused ''a truncated capture is unfit for evidence'' [execID, Accounting tc]))"

definition minFailureSignatureLen :: nat where "minFailureSignatureLen = 8"

definition checkFailureSignatureSpecificity :: "harness \<Rightarrow> string \<Rightarrow> string \<Rightarrow> error + unit" where
  "checkFailureSignatureSpecificity h execID sig =
     checkR (RuneCount (TrimSpace sig) \<ge> minFailureSignatureLen \<and> \<not> equalFold h (TrimSpace sig) ''FAIL'')
       ''expected_failure is too weak'' [execID, PyReprStr sig]"

definition checkFailureClassIsLogic :: "harness \<Rightarrow> string \<Rightarrow> value \<Rightarrow> error + unit" where
  "checkFailureClassIsLogic h execID rec =
     (let res = ClassifyFailure h rec in
      checkR (ObjStr res ''class'' = ''logic'') ''the failure classified as class'' [execID, PyReprStr (ObjStr res ''class''), ObjStr res ''note''])"

definition checkExpectedFailure :: "harness \<Rightarrow> string \<Rightarrow> value \<Rightarrow> error + unit" where
  "checkExpectedFailure h execID rec =
     (let sig = ExecExpectedFailure rec in
      if sig = [] then Inl (ERefused ''expected_outcome is fail but expected_failure is missing'' [execID])
      else bindR (checkFailureSignatureSpecificity h execID sig) (\<lambda>_.
           bindR (checkR (FailureSignatureOnFailLine h rec sig)
                    ''expected_failure does not appear on any captured per-test failure line'' [execID, PyReprStr sig]) (\<lambda>_.
             checkFailureClassIsLogic h execID rec)))"

definition output_check :: "harness \<Rightarrow> string \<Rightarrow> value \<Rightarrow> error + unit" where
  "output_check h execID rec = (case ExecOutputProblem h rec of
       None \<Rightarrow> Inr ()
     | Some prob \<Rightarrow> Inl (ERefused prob [execID]))"

definition ValidateExecRecord :: "harness \<Rightarrow> string \<Rightarrow> value \<Rightarrow> error + unit" where
  "ValidateExecRecord h execID rec =
     bindR (checkExecExpectationShape execID rec) (\<lambda>_.
     bindR (checkExecProfile execID rec) (\<lambda>_.
     bindR (checkExecExit execID rec) (\<lambda>_.
     bindR (checkExecOutputNonEmpty h execID rec) (\<lambda>_.
     bindR (checkExecCaptureComplete execID rec) (\<lambda>_.
     bindR (output_check h execID rec) (\<lambda>_.
       if ExecExpectedOutcome rec = EXPECT_FAIL then checkExpectedFailure h execID rec else Inr ()))))))"

definition execFindingMatch :: "value \<Rightarrow> string \<Rightarrow> bool" where
  "execFindingMatch rec findingID \<longleftrightarrow>
     (let f = ObjAt rec ''finding_id'' in vkind f = KNull \<or> vkind f = KStr \<and> vS f = findingID)"

section \<open>The gate on an item\<close>

definition liftR :: "error + 'a \<Rightarrow> 'a op" where "liftR r w = (r, w)"

definition isZero :: "value \<Rightarrow> bool" where
  "isZero v = (case v of VInt i \<Rightarrow> i = 0 | VFloat (FFin _ m _) \<Rightarrow> m = 0 | _ \<Rightarrow> False)"

text \<open>A record whose declared expectation is to fail is judged by the record gate; the default trio
  otherwise.\<close>

definition cited_run :: "harness \<Rightarrow> string \<Rightarrow> value \<Rightarrow> error + unit" where
  "cited_run h artifact rec =
     (if ExecExpectedOutcome rec = EXPECT_FAIL then ValidateExecRecord h artifact rec
      else bindR (checkR (isZero (ObjAt rec ''exit_status'')) ''E4+ evidence must cite a run that succeeded''
                    [artifact, PyRepr (ObjAt rec ''exit_status'')]) (\<lambda>_.
           bindR (checkR (TrimSpace (ExecOutput h rec) \<noteq> []) ''exec has no captured output'' [artifact]) (\<lambda>_.
             output_check h artifact rec)))"

definition verifyExecReference :: "harness \<Rightarrow> 'a stores_scheme \<Rightarrow> value \<Rightarrow> string \<Rightarrow> string \<Rightarrow> unit op" where
  "verifyExecReference h st item profile findingID =
     (let artifact = ObjStr item ''artifact_id''; eid = PyStr (ObjAt item ''evidence_id'') in
      if has_prefix ''EXEC-'' artifact then
        catchE (stat_file (exec_path artifact)) (\<lambda>r. case r of
            Inl _ \<Rightarrow> fail (ERefused ''evidence cites exec but no such EXEC record exists'' [PyReprStr artifact])
          | Inr _ \<Rightarrow>
              bindE (ReadJson (exec_path artifact)) (\<lambda>rec.
              bindE (VerifyExecRecordAnchor artifact rec) (\<lambda>_.
              bindE (guard (ObjStr rec ''profile'' = profile)
                       (ERefused ''evidence claims profile'' [PyReprStr profile, artifact, PyRepr (ObjAt rec ''profile'')])) (\<lambda>_.
              bindE (guard (execFindingMatch rec findingID)
                       (ERefused ''exec was recorded for finding'' [artifact, PyRepr (ObjAt rec ''finding_id''), PyReprStr findingID])) (\<lambda>_.
              bindE (liftR (checkExecExpectationShape artifact rec)) (\<lambda>_.
                liftR (cited_run h artifact rec)))))))
      else
        catchE (ListSubPrefixedOptional (execsListable st) ExecsDir ''EXEC-'' ''exec_record.json'') (\<lambda>r. case r of
            Inl _ \<Rightarrow> fail (ERefused ''the exec store cannot be listed, so this evidence cannot be checked'' [ExecsDir])
          | Inr paths \<Rightarrow>
              bindE (read_all (sort paths)) (\<lambda>recs.
                case filter (\<lambda>rec. ObjStr rec ''profile'' = profile \<and> execFindingMatch rec findingID) recs of
                  [] \<Rightarrow> fail (ERefused ''no EXEC record under profile for this finding'' [PyReprStr profile, eid])
                | rec # _ \<Rightarrow> fail (ERefused ''E4+ evidence must cite its EXEC record'' [eid, PyReprStr profile, ObjStr rec ''exec_id'']))))"

definition checkExecGate :: "harness \<Rightarrow> 'a stores_scheme \<Rightarrow> string \<Rightarrow> value \<Rightarrow> bool \<Rightarrow> unit op" where
  "checkExecGate h st findingID item atIngest =
     (let level = ObjStr item ''level''; profile = ObjStr item ''sandbox_profile''; eid = PyStr (ObjAt item ''evidence_id'') in
      bindE (guard (\<not> (level = ''E7'' \<and> \<not> PyTruthy (ObjAt item ''artifact_id''))) (ERefused ''E7 must reference the artifact'' [])) (\<lambda>_.
      bindE (liftR (IsExecutionLevel level)) (\<lambda>exec.
        if \<not> exec then ret ()
        else if atIngest then fail (ERefused ''ingest rejected: pre-loaded evidence is EXECUTION evidence'' [eid, level])
        else if profile = [] then fail (ERefused ''evidence must name the sandbox_profile'' [eid, level])
        else if profile \<notin> set E4_PROFILES
          then fail (ERefused ''sandbox_profile is not an E4-capable profile'' [PyReprStr profile, listRepr (sort E4_PROFILES)])
        else verifyExecReference h st item profile findingID)))"

section \<open>Appending evidence\<close>

type_synonym invariant_guard = "value \<Rightarrow> world \<Rightarrow> error + unit"

definition enforceRiseGuardrail :: "invariant_guard \<Rightarrow> value \<Rightarrow> string \<Rightarrow> string \<Rightarrow> unit op" where
  "enforceRiseGuardrail assertInvariantsVerified finding level baseline =
     (let base = (if baseline = [] then FindingLevel finding else baseline) in
      bindE (liftR (LevelIndex level)) (\<lambda>li.
      bindE (liftR (LevelIndex base)) (\<lambda>bi.
        if li > bi then (\<lambda>w. (assertInvariantsVerified finding w, w)) else ret ())))"

text \<open>The copy of the item, dated if it was not.\<close>

definition dated_item :: "env \<Rightarrow> value \<Rightarrow> value op" where
  "dated_item ev item =
     (let it = VObj (vO item) in
      if \<not> HasObjKey it ''produced_at'' \<or> vkind (ObjAt it ''produced_at'') = KNull
      then bindE (nowIso ev) (\<lambda>t. ret (set_field it ''produced_at'' (VStr t))) else ret it)"

definition evidence_added :: "value \<Rightarrow> value \<Rightarrow> value" where
  "evidence_added finding it =
     (let e = ObjAt finding ''evidence'' in set_field finding ''evidence'' (setA e (vA e @ [it])))"

definition evidence_data :: "value \<Rightarrow> value" where
  "evidence_data it = VObj [(''evidence_id'', ObjAt it ''evidence_id''), (''level'', VStr (ObjStr it ''level'')), (''type'', ObjAt it ''type'')]"

definition AddEvidence ::
    "harness \<Rightarrow> 'a stores_scheme \<Rightarrow> invariant_guard \<Rightarrow> env \<Rightarrow> string \<Rightarrow> value \<Rightarrow> value op" where
  "AddEvidence h st assertInvariantsVerified ev findingID item =
     bindE (LoadFinding ev findingID) (\<lambda>finding.
     bindE (guard (\<not> IsTerminal (ObjStr finding ''status'')) (ERefused ''finding is terminal'' [findingID, ObjStr finding ''status''])) (\<lambda>_.
     bindE (guard (vkind (ObjAt item ''artifact_id'') \<in> {KNull, KStr}) (ERefused ''evidence artifact_id must be a string or omitted'' [])) (\<lambda>_.
     bindE (dated_item ev item) (\<lambda>it.
     bindE (Validate ev it ''finding#evidence_item'') (\<lambda>_.
       let level = ObjStr it ''level'' in
       bindE (checkExecGate h st findingID it False) (\<lambda>_.
       bindE (liftR (LevelIndex level)) (\<lambda>li.
       bindE (if li \<ge> levelIndexValue ''E4'' then AssertSnapshotCompatible ev finding True else ret True) (\<lambda>_.
       bindE (enforceRiseGuardrail assertInvariantsVerified finding level []) (\<lambda>_.
       bindE (if risesAboveBaseline finding level then ConsumeSlotOnce ev finding else ret finding) (\<lambda>paid.
       bindE (SaveFinding ev (evidence_added paid it)) (\<lambda>f.
       bindE (Log ev ''finding.evidence_added'' (Some findingID) (Some (evidence_data it))) (\<lambda>_.
         ret f))))))))))))"

section \<open>Evidence minted from a run\<close>

text \<open>The sixteen random bytes of the identifier are given.\<close>

definition MintedExecEvidenceItem ::
    "nat list \<Rightarrow> env \<Rightarrow> string \<Rightarrow> string \<Rightarrow> string \<Rightarrow> string \<Rightarrow> value \<Rightarrow> value \<Rightarrow> string \<Rightarrow> value op" where
  "MintedExecEvidenceItem bytes16 ev execID level etype description rec f pocTier = bindE (nowIso ev) (\<lambda>t.
     let item = VObj [(''evidence_id'', VStr (newId bytes16 ''EV'' 8)), (''level'', VStr level), (''type'', VStr etype),
           (''artifact_id'', VStr execID), (''description'', VStr description), (''command'', VStr (ObjStr rec ''command'')),
           (''produced_at'', VStr t), (''sandbox_profile'', VStr (ObjStr rec ''profile'')),
           (''snapshot_id'', ObjAt (ObjAt f ''snapshot_ids'') ''source'')]
     in ret (if pocTier \<noteq> [] then set_field item ''poc_tier'' (VStr pocTier) else item))"

definition refuseDeclaredPocTier :: "value \<Rightarrow> string \<Rightarrow> error + unit" where
  "refuseDeclaredPocTier item why =
     checkR (ObjStr item ''poc_tier'' = []) ''ingest refused: evidence declares poc_tier''
       [ObjStr item ''evidence_id'', PyReprStr (ObjStr item ''poc_tier''), why]"

definition ingest_refused :: "string \<Rightarrow> string \<Rightarrow> unit op \<Rightarrow> unit op" where
  "ingest_refused eid ref check = catchE check (\<lambda>r. case r of
       Inl e \<Rightarrow> fail (ENotKept (''ingest refused: evidence '' @ eid @ '' exec_ref '' @ ref) e)
     | Inr _ \<Rightarrow> ret ())"

definition IngestExecRefEvidence ::
    "harness \<Rightarrow> nat list \<Rightarrow> env \<Rightarrow> string \<Rightarrow> value \<Rightarrow> value \<Rightarrow> value op" where
  "IngestExecRefEvidence h bytes16 ev findingID finding item =
     (let ref = ObjStr item ''exec_ref''; eid = PyStr (ObjAt item ''evidence_id'');
          (level, etype) = MintEvidenceLevelType (RecordedReproTier finding) None;
          dt = ObjStr item ''type''; dl = ObjStr item ''level'' in
      catchE (LoadExec ref) (\<lambda>r. case r of
          Inl e \<Rightarrow> fail (ENotKept (''ingest refused: exec_ref not in the ledger: '' @ ref) e)
        | Inr rec \<Rightarrow>
            bindE (guard (execFindingMatch rec findingID)
                     (ERefused ''ingest refused: exec_ref is bound to another finding'' [ref, PyRepr (ObjAt rec ''finding_id''), findingID])) (\<lambda>_.
            bindE (ingest_refused eid ref (liftR (ValidateExecRecord h ref rec))) (\<lambda>_.
            bindE (ingest_refused eid ref (VerifyExecRecordAnchor ref rec)) (\<lambda>_.
            bindE (guard (dt = [] \<or> dt = etype) (ERefused ''ingest refused: evidence declares type'' [dt, ref, etype])) (\<lambda>_.
            bindE (guard (dl = [] \<or> dl = level) (ERefused ''ingest refused: evidence declares level'' [dl, ref, level])) (\<lambda>_.
            bindE (liftR (refuseDeclaredPocTier item (''this item lands as `mint` would have minted exec_ref '' @ ref @ '' (untiered)''))) (\<lambda>_.
              MintedExecEvidenceItem bytes16 ev ref level etype (ObjStr item ''description'') rec finding []))))))))"

section \<open>Fork dependence\<close>

definition ForkDependenceValues :: "string list" where
  "ForkDependenceValues = [''external-protocol-state'', ''real-price-feed'', ''real-balances-liquidity'', ''proxy-implementation'', ''none'']"

definition ExistenceFundingRequired :: "value \<Rightarrow> bool \<Rightarrow> bool" where
  "ExistenceFundingRequired f e4Satisfied \<longleftrightarrow> e4Satisfied \<and> ForkDependent f"

definition SetForkDependence :: "env \<Rightarrow> string \<Rightarrow> string \<Rightarrow> string \<Rightarrow> string \<Rightarrow> value op" where
  "SetForkDependence ev findingID val reason who =
     bindE (guard (val \<in> set ForkDependenceValues) (ERefused ''fork_dependence must be one of'' ForkDependenceValues)) (\<lambda>_.
     bindE (guard (reason \<noteq> []) (ERefused ''fork-dependence requires --reason'' [])) (\<lambda>_.
     bindE (LoadFinding ev findingID) (\<lambda>finding.
       let prior = ObjStr finding ''fork_dependence'';
           f1 = set_field finding ''fork_dependence'' (VStr val);
           data = VObj [(''fork_dependence'', VStr val), (''prior_fork_dependence'', VStr prior), (''reason'', VStr reason),
                        (''actor'', VStr (if who = [] then ''operator'' else who))]
       in SaveThenLog ev f1 (\<lambda>_. Log ev ''finding.fork_dependence_set'' (Some (ObjStr f1 ''finding_id'')) (Some data)))))"

end
