(* ===== verification/EvidenceFacts.thy ===== *)
theory EvidenceFacts
  imports ExecEvidence SaveFacts
begin

text \<open>
  What the evidence gates have seen when they let an item pass. The gates only read; a passed gate on
  execution evidence has read the cited run, and an anchored run is the run the ledger committed to, up to
  a collision of the digest.
\<close>

section \<open>Reading operations\<close>

definition reads_only :: "'a op \<Rightarrow> bool" where
  "reads_only m \<longleftrightarrow> (\<forall>w. snd (m w) = w)"

lemma reads_onlyD: "reads_only m \<Longrightarrow> m w = (r, w') \<Longrightarrow> w' = w"
  unfolding reads_only_def by (metis snd_conv)

lemma ro_bindE: "reads_only m \<Longrightarrow> (\<And>x. reads_only (k x)) \<Longrightarrow> reads_only (bindE m k)"
  unfolding reads_only_def bindE_def
proof (intro allI)
  fix w assume m: "\<forall>w. snd (m w) = w" and k: "\<And>x. \<forall>w. snd (k x w) = w"
  obtain r w1 where e: "m w = (r, w1)" by (cases "m w")
  with m have "w1 = w" by (metis snd_conv)
  with e k show "snd (case m w of (Inl e, w') \<Rightarrow> (Inl e, w') | (Inr x, w') \<Rightarrow> k x w') = w" by (cases r) simp_all
qed

lemma ro_catchE: "reads_only m \<Longrightarrow> (\<And>r. reads_only (k r)) \<Longrightarrow> reads_only (catchE m k)"
  unfolding reads_only_def catchE_def
proof (intro allI)
  fix w assume m: "\<forall>w. snd (m w) = w" and k: "\<And>x. \<forall>w. snd (k x w) = w"
  obtain r w1 where e: "m w = (r, w1)" by (cases "m w")
  with m have "w1 = w" by (metis snd_conv)
  with e k show "snd (case m w of (r, x) \<Rightarrow> k r x) = w" by simp
qed

lemma ro_basic: "reads_only (ret x)" "reads_only (fail e)" "reads_only (guard b e)" "reads_only (liftR r)"
  "reads_only (ReadFile p)" "reads_only (parseE s e)" "reads_only (stat_file p)" "reads_only (\<lambda>w. (f w, w))"
  "reads_only (ListSubPrefixedOptional b d s l)"
  by (auto simp: reads_only_def liftR_def ReadFile_def parseE_def stat_file_def ListSubPrefixedOptional_def split: option.splits)

lemma ro_if: "reads_only m \<Longrightarrow> reads_only m' \<Longrightarrow> reads_only (if b then m else m')"
  by simp

lemma ro_sum: "(\<And>e. reads_only (m e)) \<Longrightarrow> (\<And>x. reads_only (k x)) \<Longrightarrow> reads_only (case r of Inl e \<Rightarrow> m e | Inr x \<Rightarrow> k x)"
  by (cases r) simp_all

lemma ro_list: "reads_only m \<Longrightarrow> (\<And>x xs. reads_only (k x xs)) \<Longrightarrow> reads_only (case l of [] \<Rightarrow> m | x # xs \<Rightarrow> k x xs)"
  by (cases l) simp_all

lemmas ro_intros = ro_bindE ro_catchE ro_basic ro_if ro_sum ro_list

lemma ro_ReadJson: "reads_only (ReadJson p)"
  unfolding ReadJson_def by (intro ro_intros)

lemma ro_read_all: "reads_only (read_all ps)"
  by (induction ps) (auto intro!: ro_intros ro_ReadJson)

lemma ro_Events: "reads_only Events"
  unfolding Events_def logLines_def by (intro ro_intros)

lemma ro_anchor: "reads_only (VerifyExecRecordAnchor n rec)"
  unfolding VerifyExecRecordAnchor_def by (intro ro_intros ro_Events)

lemma ro_reference: "reads_only (verifyExecReference h st item profile n)"
  unfolding verifyExecReference_def Let_def by (intro ro_intros ro_ReadJson ro_anchor ro_read_all)

lemma ro_gate: "reads_only (checkExecGate h st n item b)"
  unfolding checkExecGate_def Let_def by (intro ro_intros ro_reference)

section \<open>The anchor\<close>

definition anchors_agree :: "string \<Rightarrow> value \<Rightarrow> value list \<Rightarrow> bool" where
  "anchors_agree n rec events \<longleftrightarrow> (\<forall>e \<in> set events. carrierFor e n \<longrightarrow> snd (snd (EventAnchor e)) \<longrightarrow>
     EventAnchor e = (ExecRecordDigest rec, ExecRecordAnchorAlg, True))"

lemma AnchorProblem_Nil:
  "AnchorProblem ty n digest alg rec = [] \<longleftrightarrow> alg = ExecRecordAnchorAlg \<and> digest = ExecRecordDigest rec"
  by (auto simp: AnchorProblem_def ExecRecordAnchorAlg_def ExecRecordDigest_def)

lemma list_fail [simp]:
  "(case l of [] \<Rightarrow> m | x # xs \<Rightarrow> fail (k x)) w = (Inr u, w') \<longleftrightarrow> l = [] \<and> m w = (Inr u, w')"
  by (cases l) simp_all

lemma anchor_Inr:
  assumes "VerifyExecRecordAnchor n rec w = (Inr u, w')"
  shows "\<exists>events. fst (Events w) = Inr events \<and> anchors_agree n rec events"
proof -
  obtain events w1 where ev: "Events w = (Inr events, w1)"
    and ok: "filter (\<lambda>p. p \<noteq> []) (map (carrier_problem n rec) events) = []"
    using assms by (auto simp: VerifyExecRecordAnchor_def bindE_Inr)
  have "anchors_agree n rec events"
    unfolding anchors_agree_def
  proof (intro ballI impI)
    fix e assume e: "e \<in> set events" "carrierFor e n" "snd (snd (EventAnchor e))"
    obtain d a where ea: "EventAnchor e = (d, a, True)" using e(3) by (cases "EventAnchor e") auto
    have "carrier_problem n rec e = []" using ok e(1) by (auto simp: filter_empty_conv)
    with e(2) ea show "EventAnchor e = (ExecRecordDigest rec, ExecRecordAnchorAlg, True)"
      by (simp add: carrier_problem_def AnchorProblem_Nil)
  qed
  with ev show ?thesis by auto
qed

lemma anchor_read: "ObjAt (ObjAt e ''data'') KeyExecRecordSHA256 = VStr d \<Longrightarrow> fst (EventAnchor e) = d \<and> snd (snd (EventAnchor e))"
  by (cases "ObjAt e ''data''") (auto simp: EventAnchor_def anchorKey_def ObjAt_def Let_def split: option.splits prod.splits if_splits)

section \<open>The cited run\<close>

definition failed_as_declared :: "harness \<Rightarrow> value \<Rightarrow> bool" where
  "failed_as_declared h rec \<longleftrightarrow>
     vkind (ObjAt rec ''exit_status'') = KInt \<and> vI (ObjAt rec ''exit_status'') \<noteq> 0 \<and> ExecTruncatedCapture rec = None \<and>
     minFailureSignatureLen \<le> RuneCount (TrimSpace (ExecExpectedFailure rec)) \<and>
     FailureSignatureOnFailLine h rec (ExecExpectedFailure rec) \<and> ObjStr (ClassifyFailure h rec) ''class'' = ''logic''"

definition admissible_run :: "harness \<Rightarrow> value \<Rightarrow> bool" where
  "admissible_run h rec \<longleftrightarrow> TrimSpace (ExecOutput h rec) \<noteq> [] \<and> ExecOutputProblem h rec = None \<and>
     (if ExecExpectedOutcome rec = EXPECT_FAIL then failed_as_declared h rec else isZero (ObjAt rec ''exit_status''))"

lemma checkR_Inr [simp]: "checkR ok t a = Inr u \<longleftrightarrow> ok"
  by (simp add: checkR_def)

lemma output_check_Inr [simp]: "output_check h n rec = Inr u \<longleftrightarrow> ExecOutputProblem h rec = None"
  by (auto simp: output_check_def split: option.splits)

lemma cited_run_Inr: "cited_run h n rec = Inr u \<Longrightarrow> admissible_run h rec"
proof (cases "ExecExpectedOutcome rec = EXPECT_FAIL")
  case False
  assume "cited_run h n rec = Inr u"
  with False show ?thesis by (auto simp: cited_run_def admissible_run_def bindR_Inr_iff)
next
  case True
  assume "cited_run h n rec = Inr u"
  then have "ValidateExecRecord h n rec = Inr u" using True by (simp add: cited_run_def)
  then have v: "checkExecExit n rec = Inr ()" "checkExecOutputNonEmpty h n rec = Inr ()" "checkExecCaptureComplete n rec = Inr ()"
      "ExecOutputProblem h rec = None" "checkExpectedFailure h n rec = Inr ()"
    using True by (auto simp: ValidateExecRecord_def bindR_Inr_iff)
  moreover have "failed_as_declared h rec"
    using v(1,3,5) True
    by (auto simp: failed_as_declared_def checkExecExit_def checkExecCaptureComplete_def checkExpectedFailure_def
        checkFailureSignatureSpecificity_def checkFailureClassIsLogic_def Let_def bindR_Inr_iff split: option.splits if_splits)
  ultimately show ?thesis using True
    by (auto simp: admissible_run_def checkExecOutputNonEmpty_def split: if_splits)
qed

definition backed :: "harness \<Rightarrow> string \<Rightarrow> value \<Rightarrow> world \<Rightarrow> bool" where
  "backed h n it w \<longleftrightarrow> (\<exists>rec events.
     has_prefix ''EXEC-'' (ObjStr it ''artifact_id'') \<and>
     ReadJson (exec_path (ObjStr it ''artifact_id'')) w = (Inr rec, w) \<and>
     fst (Events w) = Inr events \<and> anchors_agree (ObjStr it ''artifact_id'') rec events \<and>
     ObjStr rec ''profile'' = ObjStr it ''sandbox_profile'' \<and> ObjStr rec ''profile'' \<in> set E4_PROFILES \<and>
     execFindingMatch rec n \<and> admissible_run h rec)"

lemma reference_Inr:
  assumes "verifyExecReference h st it (ObjStr it ''sandbox_profile'') n w = (Inr u, w')" "ObjStr it ''sandbox_profile'' \<in> set E4_PROFILES"
  shows "backed h n it w"
proof -
  let ?a = "ObjStr it ''artifact_id''"
  have ex: "has_prefix ''EXEC-'' ?a"
    using assms(1) by (auto simp: verifyExecReference_def Let_def catchE_def bindE_Inr split: if_splits prod.splits sum.splits)
  obtain rec w1 w2 w3 where r: "ReadJson (exec_path ?a) w = (Inr rec, w1)" "VerifyExecRecordAnchor ?a rec w1 = (Inr (), w2)"
      "ObjStr rec ''profile'' = ObjStr it ''sandbox_profile''" "execFindingMatch rec n" "cited_run h ?a rec = Inr ()"
    using assms(1) ex
    by (auto simp: verifyExecReference_def Let_def catchE_def bindE_Inr stat_file_def liftR_def split: if_splits)
  moreover have "w1 = w" using reads_onlyD [OF ro_ReadJson r(1)] .
  ultimately show ?thesis
    unfolding backed_def using ex anchor_Inr [of ?a rec w1] cited_run_Inr [OF r(5)] assms(2) by auto
qed

lemma gate_Inr:
  assumes "checkExecGate h st n it False w = (Inr u, w')"
  shows "IsExecutionLevel (ObjStr it ''level'') = Inr True \<longrightarrow> backed h n it w"
    and "ObjStr it ''level'' = ''E7'' \<longrightarrow> PyTruthy (ObjAt it ''artifact_id'')"
  using assms reference_Inr [of h st it n w u]
  by (auto simp: checkExecGate_def Let_def bindE_Inr liftR_def split: if_splits)

section \<open>Ready to be appended\<close>

text \<open>An item that every gate lets pass, is dated, and owes no slot.\<close>

definition evidence_ready ::
    "harness \<Rightarrow> 'a stores_scheme \<Rightarrow> invariant_guard \<Rightarrow> env \<Rightarrow> value \<Rightarrow> string \<Rightarrow> value \<Rightarrow> world \<Rightarrow> bool" where
  "evidence_ready h st g ev finding n item w \<longleftrightarrow>
     LoadFinding ev n w = (Inr finding, w) \<and> \<not> IsTerminal (ObjStr finding ''status'') \<and>
     vkind (ObjAt item ''artifact_id'') \<in> {KNull, KStr} \<and> dated_item ev item w = (Inr item, w) \<and>
     validates ev ''finding#evidence_item'' item \<and> checkExecGate h st n item False w = (Inr (), w) \<and>
     (\<exists>li. LevelIndex (ObjStr item ''level'') = Inr li \<and>
        (levelIndexValue ''E4'' \<le> li \<longrightarrow> AssertSnapshotCompatible ev finding True w = (Inr True, w))) \<and>
     enforceRiseGuardrail g finding (ObjStr item ''level'') [] w = (Inr (), w) \<and>
     \<not> risesAboveBaseline finding (ObjStr item ''level'')"

lemma AddEvidence_ready:
  assumes "evidence_ready h st g ev finding n item w"
  shows "AddEvidence h st g ev n item w = bindE (SaveFinding ev (evidence_added finding item)) (\<lambda>f.
      bindE (Log ev ''finding.evidence_added'' (Some n) (Some (evidence_data item))) (\<lambda>_. ret f)) w"
proof -
  obtain li where li: "LevelIndex (ObjStr item ''level'') = Inr li"
      "(if levelIndexValue ''E4'' \<le> li then AssertSnapshotCompatible ev finding True else ret True) w = (Inr True, w)"
    using assms by (auto simp: evidence_ready_def)
  have lift: "liftR (Inr x) w = (Inr x, w)" for x :: 'x by (simp add: liftR_def)
  show ?thesis
    unfolding AddEvidence_def Let_def using assms li unfolding evidence_ready_def
    by (simp add: bindE_step lift Validate_def)
qed

end
