(* ===== verification/EvidenceExamples.thy ===== *)
theory EvidenceExamples
  imports EvidenceFacts FindingExamples
begin

text \<open>
  A campaign that has run one sandboxed test for its finding, and an item that cites the run.
\<close>

definition h0 :: harness where
  "h0 = \<lparr>lowerText = (\<lambda>s. s), digitValue = (\<lambda>r. if 48 \<le> r \<and> r \<le> 57 then Some (r - 48) else None), alnum = (\<lambda>_. False),
     equalFold = (=), readLog = (\<lambda>p. Some ''ok''), ClassifyFailure = (\<lambda>_. VNull)\<rparr>"

definition run1 :: "value" where
  "run1 = VObj [(''exec_id'', VStr ''EXEC-1''), (''profile'', VStr ''docker-networkless''), (''finding_id'', VStr ''F-0a''),
     (''exit_status'', VInt 0), (''stdout_path'', VStr ''out'')]"

definition item1 :: "value" where
  "item1 = VObj [(''evidence_id'', VStr ''EV-1''), (''level'', VStr ''E4''), (''type'', VStr ''foundry-test''),
     (''artifact_id'', VStr ''EXEC-1''), (''sandbox_profile'', VStr ''docker-networkless''), (''produced_at'', VStr ''t'')]"

definition exec_world :: "(bool \<times> flock_answer list) list \<Rightarrow> world" where
  "exec_world fl = (find_world f_poss)\<lparr>files := files (find_world f_poss) @
     [(''execs/EXEC-1/exec_record.json'', File True (DumpIndented run1 @ NL))], flocks := fl\<rparr>"

lemma run1_simps [simp]:
  "wf_value run1" "wf_value item1" "vkind item1 = KObj" "vkind run1 = KObj" "ObjStr run1 ''profile'' = ''docker-networkless''"
  "execFindingMatch run1 ''F-0a''" "ObjStr item1 ''artifact_id'' = ''EXEC-1''" "ObjStr item1 ''sandbox_profile'' = ''docker-networkless''"
  "ObjStr item1 ''level'' = ''E4''" "ObjAt item1 ''artifact_id'' = VStr ''EXEC-1''"
  by (auto simp: run1_def item1_def ObjStr_def ObjAt_def execFindingMatch_def int64_range_def intro!: valid_utf8_ascii)

lemma exec_path_1 [simp]: "exec_path ''EXEC-1'' = ''execs/EXEC-1/exec_record.json''"
proof -
  have "list_all plain [''execs'', ''EXEC-1'', ''exec_record.json'']" by (simp add: plain_def slash_def)
  from JoinPath_plain [OF this] show ?thesis by (simp add: exec_path_def ExecsDir_def slash_def)
qed

lemma exec_world_files:
  "q \<noteq> ''execs/EXEC-1/exec_record.json'' \<Longrightarrow> kv_find (files (exec_world fl)) q = kv_find (files (find_world f_poss)) q"
  "kv_find (files (exec_world fl)) ''execs/EXEC-1/exec_record.json'' = Some (File True (DumpIndented run1 @ NL))"
  by (simp_all add: exec_world_def find_world_def world_with_def StatePath_def EventsPath_def)

lemma exec_world_events: "kv_find (files (exec_world fl)) EventsPath = Some (File True [])"
  by (subst exec_world_files(1)) (simp_all add: EventsPath_def [symmetric], simp add: EventsPath_def)

lemma run1_read: "ReadJson ''execs/EXEC-1/exec_record.json'' (exec_world fl) = (Inr run1, (exec_world fl))"
  using parse_Indented_NL [of run1] by (simp add: ReadJson_def bindE_def ReadFile_def parseE_def exec_world_files)

lemma exec_healthy: "healthy ev1 st_budget [] (exec_world [])" "size_ok (exec_world [])"
proof -
  have u: "undisturbed (exec_world [])" by (simp add: exec_world_def undisturbed_def find_world_def world_with_def)
  show "healthy ev1 st_budget [] (exec_world [])"
    by (rule healthy_beside [OF settled_healthy [OF settled_find_world [of f_poss]], of "''execs/EXEC-1/exec_record.json''"])
       (simp_all add: exec_world_files u EventsPath_def StatePath_def WaiversPath_def)
  have "content_of EventsPath (exec_world []) = []" by (simp add: content_of_def exec_world_events)
  then show "size_ok (exec_world [])" by (simp add: size_ok_def int64_range_def)
qed

lemma run1_output: "TrimSpace (ExecOutput h0 run1) \<noteq> []" "ExecOutputProblem h0 run1 = None"
proof -
  have "pyTextReplace ''ok'' = ''ok''"
    by (simp add: pyTextReplace.simps decodeUTF8Replace_def byte_at_def encode_rune_def valid_rune_def) code_simp
  moreover have "ObjStr run1 ''stdout_path'' = ''out''" "ObjStr run1 ''stderr_path'' = []" by (simp_all add: run1_def ObjStr_def ObjAt_def)
  ultimately have "ExecOutput h0 run1 = ''ok''" by (simp add: ExecOutput_def h0_def)
  then show "TrimSpace (ExecOutput h0 run1) \<noteq> []" by (simp add: TrimSpace_def rune_segments.simps decode_rune_def isSpace_def)
  show "ExecOutputProblem h0 run1 = None"
    by (simp add: ExecOutputProblem_def commandIsForgeLike_def run1_def HasObjKey_def)
qed

lemma run1_cited: "cited_run h0 ''EXEC-1'' run1 = Inr ()" "checkExecExpectationShape ''EXEC-1'' run1 = Inr ()"
  using run1_output
  by (simp_all add: cited_run_def checkR_def output_check_def isZero_def ExecExpectedOutcome_def EXPECT_FAIL_def EXPECT_PASS_def
      run1_def ObjStr_def ObjAt_def checkExecExpectationShape_def ExecExpectedFailure_def)

lemma exec_no_events: "Events (exec_world fl) = (Inr [], (exec_world fl))"
proof -
  have "ReadFile EventsPath (exec_world fl) = (Inr [], (exec_world fl))"
    by (simp add: ReadFile_def exec_world_events)
  then show ?thesis by (simp add: Events_def logLines_def bindE_def catchE_def records_of_Nil)
qed

lemma item1_gate: "checkExecGate h0 sm0 ''F-0a'' item1 False (exec_world fl) = (Inr (), (exec_world fl))"
proof -
  have "VerifyExecRecordAnchor ''EXEC-1'' run1 (exec_world fl) = (Inr (), (exec_world fl))"
    by (simp add: VerifyExecRecordAnchor_def bindE_def exec_no_events)
  moreover have "stat_file ''execs/EXEC-1/exec_record.json'' (exec_world fl) = (Inr (), (exec_world fl))"
    by (simp add: stat_file_def exec_world_files)
  moreover have "has_prefix ''EXEC-'' ''EXEC-1''" by (simp add: has_prefix_def)
  ultimately show ?thesis
    by (simp add: checkExecGate_def verifyExecReference_def Let_def bindE_def catchE_def liftR_def run1_read run1_cited
        IsExecutionLevel_def LevelIndex_def levelIndexValue_def EVIDENCE_ORDER_def E4_PROFILES_def)
qed

lemma slot_paid: "objBool f_poss ''discovery_slot_consumed''"
  by (simp add: f_poss_def objBool_def ObjAt_def)

lemma exec_state: "State ev1 (exec_world fl) = (Inr st_budget, exec_world fl)"
  by (rule State_transfer [of _ "exec_world []" _ "exec_world []"]) (use exec_healthy(1) in \<open>simp_all add: healthy_def exec_world_def\<close>)

lemma item1_ready: "evidence_ready h0 sm0 g ev1 f_poss ''F-0a'' item1 (exec_world fl)"
proof -
  have l: "LoadFinding ev1 ''F-0a'' (exec_world fl) = (Inr f_poss, exec_world fl)"
    using parse_Indented_NL [of f_poss]
    by (simp add: LoadFinding_def Let_def catchE_def stat_file_def ReadJson_def bindE_def ReadFile_def parseE_def exec_world_files)
  have d: "dated_item ev1 item1 (exec_world fl) = (Inr item1, exec_world fl)"
    by (simp add: dated_item_def item1_def HasObjKey_def ObjAt_def Let_def)
  have pin: "AssertSnapshotCompatible ev1 f_poss True (exec_world fl) = (Inr True, exec_world fl)"
    using exec_state by (simp add: AssertSnapshotCompatible_def ActiveSnapshot_def bindE_def ret_def st_budget_def ObjAt_def)
  have lv: "LevelIndex ''E4'' = Inr 4" "levelIndexValue ''E4'' = 4" "LevelIndex (FindingLevel f_poss) = Inr 5"
    by (simp_all add: LevelIndex_def levelIndexValue_def EVIDENCE_ORDER_def FindingLevel_def poss_fields ObjStr_def ObjAt_def)
  have rise: "enforceRiseGuardrail g f_poss ''E4'' [] (exec_world fl) = (Inr (), exec_world fl)" "\<not> risesAboveBaseline f_poss ''E4''"
    by (simp_all add: enforceRiseGuardrail_def bindE_def liftR_def lv risesAboveBaseline_def slot_paid)
  have "\<not> IsTerminal ''POSSIBLE''" by (simp add: IsTerminal_def inSet_def TERMINAL_def)
  then show ?thesis using l d item1_gate pin rise by (simp add: evidence_ready_def lv)
qed

lemma added_fields:
  "vkind (evidence_added f_poss item1) = KObj" "ObjStr (evidence_added f_poss item1) ''finding_id'' = ''F-0a''"
  "ObjAt (evidence_added f_poss item1) ''history'' = VArr []"
  by (simp_all add: evidence_added_def Let_def)

lemma added_valid: "validates ev1 ''finding'' (touched (evidence_added f_poss item1) t)"
  by (simp add: added_fields slash_def)

lemma item1_appended:
  "\<exists>f w'. AddEvidence h0 sm0 g ev1 ''F-0a'' item1 (exec_world []) = (Inr f, w')"
proof -
  have ar: "args_ok ''finding.evidence_added'' (Some ''F-0a'') (Some (evidence_data item1))"
    by (auto simp: args_ok_def evidence_data_def item1_def ObjAt_def ObjStr_def intro!: valid_utf8_ascii)
  have "\<exists>w2 e w'. SaveFinding ev1 (evidence_added f_poss item1) (exec_world []) =
      (Inr (touched (evidence_added f_poss item1) (now ev1 (ticks (exec_world [])))), w2) \<and>
      Log ev1 ''finding.evidence_added'' (Some ''F-0a'') (Some (evidence_data item1)) w2 = (Inr e, w')"
    by (rule save_and_log [OF ev1_ok(1) _ exec_healthy ar _ _ added_valid]) (simp_all add: added_fields slash_def)
  then show ?thesis by (auto simp: AddEvidence_ready [OF item1_ready] bindE_def)
qed

end
