(* ===== verification/EvidenceProperties.thy ===== *)
theory EvidenceProperties
  imports EvidenceExamples Tamper
begin

text \<open>
  The properties of evidence: execution evidence is backed by an admissible, anchored run of the campaign;
  a record that verifies against its anchor is the record the ledger committed to; what a refused event
  leaves behind; and the gap between the two exit-status tests.
\<close>

section \<open>Appending\<close>

lemma ObjAt_copy: "ObjAt (VObj (vO item)) k = ObjAt item k"
  by (cases item) (simp_all add: ObjAt_def)

lemma dated_item_Inr:
  assumes "dated_item ev item w = (Inr it, w1)"
  shows "files w1 = files w" "vkind it = KObj" "k \<noteq> ''produced_at'' \<Longrightarrow> ObjAt it k = ObjAt item k"
proof -
  have "files w1 = files w \<and> (it = VObj (vO item) \<or> (\<exists>t. it = set_field (VObj (vO item)) ''produced_at'' (VStr t)))"
    using assms by (auto simp: dated_item_def Let_def bindE_Inr nowIso_def split: if_splits)
  then show "files w1 = files w" "vkind it = KObj" "k \<noteq> ''produced_at'' \<Longrightarrow> ObjAt it k = ObjAt item k"
    by (auto simp: ObjAt_copy)
qed

lemma op_Inr:
  "guard b e w = (Inr u, w') \<longleftrightarrow> b \<and> w' = w" "liftR r w = (Inr x, w') \<longleftrightarrow> r = Inr x \<and> w' = w"
  "Validate ev v s w = (Inr u, w') \<longleftrightarrow> validates ev s v \<and> w' = w" "ret y w = (Inr x, w') \<longleftrightarrow> x = y \<and> w' = w"
  by (auto simp: liftR_def Validate_def)

lemma ConsumeSlotOnce_Inr:
  "ConsumeSlotOnce ev finding w = (Inr paid, w') \<Longrightarrow> paid \<in> {finding, set_field finding ''discovery_slot_consumed'' (VBool True)}"
  by (auto simp: ConsumeSlotOnce_def chargeSlot_def bindE_Inr Let_def fail_def split: if_splits)

lemma execution_level:
  "IsExecutionLevel level = Inr True \<Longrightarrow> LevelIndex level = Inr li \<Longrightarrow> levelIndexValue ''E4'' \<le> li"
  by (auto simp: IsExecutionLevel_def bindR_Inr_iff)

lemma bindE_InrE: "bindE m k w = (Inr y, w2) \<Longrightarrow> (\<And>x w1. m w = (Inr x, w1) \<Longrightarrow> k x w1 = (Inr y, w2) \<Longrightarrow> R) \<Longrightarrow> R"
  by (auto simp: bindE_Inr)

lemma AddEvidence_Inr:
  assumes "AddEvidence h st g ev n item w = (Inr f, w')"
  obtains finding it w1 paid w2 w3 t e li where
    "LoadFinding ev n w = (Inr finding, w)" "\<not> IsTerminal (ObjStr finding ''status'')"
    "dated_item ev item w = (Inr it, w1)" "checkExecGate h st n it False w1 = (Inr (), w1)"
    "LevelIndex (ObjStr it ''level'') = Inr li"
    "levelIndexValue ''E4'' \<le> li \<longrightarrow> (\<exists>b. fst (AssertSnapshotCompatible ev finding True w1) = Inr b)"
    "paid \<in> {finding, set_field finding ''discovery_slot_consumed'' (VBool True)}"
    "SaveFinding ev (evidence_added paid it) w2 = (Inr f, w3)"
    "Log ev ''finding.evidence_added'' (Some n) (Some (evidence_data it)) w3 = (Inr e, w')"
proof -
  obtain finding w0 it w1 u w1' li b w2a w2b paid w2 w3 e where s: "LoadFinding ev n w = (Inr finding, w0)" "\<not> IsTerminal (ObjStr finding ''status'')"
      "dated_item ev item w0 = (Inr it, w1)" "checkExecGate h st n it False w1 = (Inr u, w1')"
      "LevelIndex (ObjStr it ''level'') = Inr li"
    and r: "(if levelIndexValue ''E4'' \<le> li then AssertSnapshotCompatible ev finding True else ret True) w1' = (Inr b, w2a)"
      "(if risesAboveBaseline finding (ObjStr it ''level'') then ConsumeSlotOnce ev finding else ret finding) w2b = (Inr paid, w2)"
      "SaveFinding ev (evidence_added paid it) w2 = (Inr f, w3)"
      "Log ev ''finding.evidence_added'' (Some n) (Some (evidence_data it)) w3 = (Inr e, w')"
    using assms unfolding AddEvidence_def Let_def
    by (elim bindE_InrE, simp (no_asm_use) only: op_Inr) (elim conjE, hypsubst, rule that, assumption+)
  have w: "w0 = w" "w1' = w1" using LoadFinding_world [OF s(1)] reads_onlyD [OF ro_gate s(4)] by simp_all
  have "paid \<in> {finding, set_field finding ''discovery_slot_consumed'' (VBool True)}"
    using r(2) ConsumeSlotOnce_Inr [of ev finding w2b paid w2] by (auto split: if_splits)
  moreover have "levelIndexValue ''E4'' \<le> li \<longrightarrow> (\<exists>b. fst (AssertSnapshotCompatible ev finding True w1) = Inr b)"
    using r(1) w by auto
  ultimately show thesis using that s(1-3) s(4) [unfolded w] s(5) r(3,4) w by simp
qed

lemma evidence_added_at:
  assumes "vkind finding = KObj" "paid \<in> {finding, set_field finding ''discovery_slot_consumed'' (VBool True)}"
    "ObjAt finding ''evidence'' = VArr es"
  shows "ObjAt (evidence_added paid it) ''evidence'' = VArr (es @ [it])"
  using assms by (auto simp: evidence_added_def Let_def)

text \<open>C21: When execution evidence is appended, the finding was open, the campaign holds a record of the
  run it cites, read at that moment, under the sandbox profile it claims and one that may back such
  evidence, bound to this finding or to none, agreeing with every anchor the ledger carries for it, and the
  run was admissible: it printed something meaningful and either exited zero or failed exactly as it had
  declared beforehand. The finding's source pin was the active one, the item is the last of the finding's
  evidence, the schema accepted the result, and the event is the last thing written.\<close>

theorem execution_evidence_earned:
  assumes "AddEvidence h st g ev n item w = (Inr f, w')" "IsExecutionLevel (ObjStr item ''level'') = Inr True"
  shows "\<exists>finding w1. LoadFinding ev n w = (Inr finding, w) \<and> \<not> IsTerminal (ObjStr finding ''status'') \<and>
    files w1 = files w \<and> backed h n item w1 \<and> pin_agrees ev finding w1 \<and> validates ev ''finding'' f \<and>
    (\<forall>es. vkind finding = KObj \<longrightarrow> ObjAt finding ''evidence'' = VArr es \<longrightarrow>
       (\<exists>it. ObjAt f ''evidence'' = VArr (es @ [it]) \<and> (\<forall>k. k \<noteq> ''produced_at'' \<longrightarrow> ObjAt it k = ObjAt item k))) \<and>
    (\<exists>data e w3. Log ev ''finding.evidence_added'' (Some n) data w3 = (Inr e, w'))"
proof -
  obtain finding it w1 paid w2 w3 e li where s: "LoadFinding ev n w = (Inr finding, w)" "\<not> IsTerminal (ObjStr finding ''status'')"
    "dated_item ev item w = (Inr it, w1)" "checkExecGate h st n it False w1 = (Inr (), w1)" "LevelIndex (ObjStr it ''level'') = Inr li"
    "levelIndexValue ''E4'' \<le> li \<longrightarrow> (\<exists>b. fst (AssertSnapshotCompatible ev finding True w1) = Inr b)"
    "paid \<in> {finding, set_field finding ''discovery_slot_consumed'' (VBool True)}"
    "SaveFinding ev (evidence_added paid it) w2 = (Inr f, w3)"
    "Log ev ''finding.evidence_added'' (Some n) (Some (evidence_data it)) w3 = (Inr e, w')"
    by (rule AddEvidence_Inr [OF assms(1)])
  have same: "ObjAt it k = ObjAt item k" "ObjStr it k = ObjStr item k" if "k \<noteq> ''produced_at''" for k
    using dated_item_Inr(3) [OF s(3) that] by (simp_all add: ObjStr_def)
  have "backed h n item w1" using gate_Inr(1) [OF s(4)] assms(2) same by (simp add: backed_def)
  moreover have "pin_agrees ev finding w1"
    using s(5,6) execution_level [OF assms(2)] same(2) [of "''level''"] unfolding pin_agrees [symmetric] by simp
  moreover obtain t where f: "f = touched (evidence_added paid it) t" "validates ev ''finding'' f"
    using s(8) by (cases rule: SaveFinding_cases [of ev "evidence_added paid it" w2]) auto
  moreover have "\<exists>it. ObjAt f ''evidence'' = VArr (es @ [it]) \<and> (\<forall>k. k \<noteq> ''produced_at'' \<longrightarrow> ObjAt it k = ObjAt item k)"
    if "vkind finding = KObj" "ObjAt finding ''evidence'' = VArr es" for es
    using evidence_added_at [OF that(1) s(7) that(2)] same by (auto simp: f)
  ultimately show ?thesis using s(1,2,9) dated_item_Inr(1) [OF s(3)] by blast
qed

theorem execution_evidence_earned_witness:
  "\<exists>f w'. AddEvidence h0 sm0 (\<lambda>_ _. Inr ()) ev1 ''F-0a'' item1 (exec_world []) = (Inr f, w') \<and>
     (\<exists>w1. files w1 = files (exec_world []) \<and> backed h0 ''F-0a'' item1 w1 \<and> pin_agrees ev1 f_poss w1)"
proof -
  obtain f w' where run: "AddEvidence h0 sm0 (\<lambda>_ _. Inr ()) ev1 ''F-0a'' item1 (exec_world []) = (Inr f, w')"
    using item1_appended by blast
  have e: "IsExecutionLevel (ObjStr item1 ''level'') = Inr True"
    by (simp add: IsExecutionLevel_def LevelIndex_def levelIndexValue_def EVIDENCE_ORDER_def)
  have "LoadFinding ev1 ''F-0a'' (exec_world []) = (Inr f_poss, (exec_world []))"
    using parse_Indented_NL [of f_poss]
    by (simp add: LoadFinding_def Let_def catchE_def stat_file_def ReadJson_def bindE_def ReadFile_def parseE_def exec_world_files)
  with execution_evidence_earned [OF run e] run show ?thesis by auto
qed

section \<open>The anchor\<close>

text \<open>C22: A record that passes the anchor check agrees with every digest the ledger carries for the run:
  if an event of the run was stamped with the digest of a record, the record on disk now has the same
  content up to the order of keys, or the two canonical texts are a SHA-256 collision.\<close>

theorem exec_anchor_tamper_evident:
  assumes "VerifyExecRecordAnchor n rec w = (Inr u, w')" "Events w = (Inr events, w)"
    and "e \<in> set events" "carrierFor e n"
    and "ObjAt (ObjAt e ''data'') KeyExecRecordSHA256 = VStr (ExecRecordDigest rec0)"
    and "wf_value rec" "wf_value rec0"
  shows "keysorted rec = keysorted rec0 \<or> collision (CanonSpaced rec) (CanonSpaced rec0)"
proof -
  have "anchors_agree n rec events" using anchor_Inr [OF assms(1)] assms(2) by auto
  moreover have "fst (EventAnchor e) = ExecRecordDigest rec0" "snd (snd (EventAnchor e))" using anchor_read [OF assms(5)] by simp_all
  ultimately have "ExecRecordDigest rec = ExecRecordDigest rec0"
    using assms(3,4) unfolding anchors_agree_def by fastforce
  then show ?thesis
    using Canon_eq_iff [OF assms(6,7), of False] by (auto simp: ExecRecordDigest_def collision_def CanonSpaced_def)
qed

text \<open>An event that anchors the run, and a world whose ledger holds it.\<close>

definition anchor_event :: "value" where
  "anchor_event = VObj [(''data'', VObj (ExecRecordAnchorKVs run1)), (''ref'', VStr ''EXEC-1''), (''type'', VStr ''sandbox.exec'')]"

definition anchored_world :: world where
  "anchored_world = world_with (CanonSpaced anchor_event @ NL) st_budget"

lemma anchor_event_simps:
  "wf_value anchor_event" "keysorted anchor_event = anchor_event" "carrierFor anchor_event ''EXEC-1''"
  "EventAnchor anchor_event = (ExecRecordDigest run1, ExecRecordAnchorAlg, True)"
  "ObjAt (ObjAt anchor_event ''data'') KeyExecRecordSHA256 = VStr (ExecRecordDigest run1)"
  by (auto simp: anchor_event_def ExecRecordAnchorKVs_def KeyExecRecordSHA256_def KeyExecRecordSHA256Alg_def ExecRecordAnchorAlg_def
      ExecRecordDigest_def carrierFor_def IsAnchorCarrier_def AnchorCarrierEventTypes_def EventAnchor_def anchorKey_def ObjStr_def ObjAt_def
      less_eq_char_def less_char_def intro!: valid_utf8_ascii)

lemma anchored_events: "Events anchored_world = (Inr [anchor_event], anchored_world)"
proof -
  have nb: "\<not> blankLine (CanonSpaced anchor_event)" using CanonSpaced_VObj_nonblank by (simp add: anchor_event_def)
  have "records_of ([] @ CanonSpaced anchor_event @ NL) = records_of [] @ [CanonSpaced anchor_event]"
    using records_of_append [OF _ printables_no_newline [OF CanonSpaced_printables [OF anchor_event_simps(1)]], of "[]"] nb
    by (simp add: terminated_def)
  moreover have "ParseOrdered (CanonSpaced anchor_event) = Some anchor_event"
    using parse_CanonSpaced [OF anchor_event_simps(1)] by (simp add: anchor_event_simps(2))
  ultimately show ?thesis using nb
    by (simp add: Events_def logLines_def bindE_def catchE_def ReadFile_def anchored_world_def)
qed

theorem exec_anchor_tamper_evident_witness:
  "VerifyExecRecordAnchor ''EXEC-1'' run1 anchored_world = (Inr (), anchored_world) \<and>
   (keysorted run1 = keysorted run1 \<or> collision (CanonSpaced run1) (CanonSpaced run1))"
proof -
  have v: "VerifyExecRecordAnchor ''EXEC-1'' run1 anchored_world = (Inr (), anchored_world)"
    by (simp add: VerifyExecRecordAnchor_def bindE_def anchored_events carrier_problem_def anchor_event_simps AnchorProblem_Nil)
  show ?thesis
    using exec_anchor_tamper_evident [OF v anchored_events _ anchor_event_simps(3,5) run1_simps(1) run1_simps(1)] v by simp
qed

section \<open>What a refusal leaves behind\<close>



section \<open>Two opinions on an exit status\<close>

text \<open>The exit status of a record is judged by two tests that disagree beyond sixty-four bits. An
  integer too large for \<open>int64\<close> is kept as its digits and its machine value reads as zero, so the gate of
  minted and ingested evidence takes such a run for a success, and for a non-failure when failing was
  declared, while the gate on appended evidence refuses it.\<close>

theorem huge_exit_status:
  assumes "ObjAt rec ''exit_status'' = VBigInt s"
  shows "(checkExecExit n rec = Inr () \<longleftrightarrow> ExecExpectedOutcome rec = EXPECT_PASS) \<and> cited_run h n rec \<noteq> Inr ()"
  using assms
  by (auto simp: checkExecExit_def cited_run_def ValidateExecRecord_def bindR_Inr_iff checkR_def isZero_def ExecExpectedOutcome_def
      EXPECT_PASS_def EXPECT_FAIL_def)

definition run_huge :: "value" where
  "run_huge = VObj [(''profile'', VStr ''docker-networkless''), (''exit_status'', VBigInt ''99999999999999999999''), (''stdout_path'', VStr ''out'')]"

theorem huge_exit_status_witness:
  "ValidateExecRecord h0 ''EXEC-1'' run_huge = Inr () \<and> cited_run h0 ''EXEC-1'' run_huge \<noteq> Inr ()"
proof -
  have x: "ObjAt run_huge ''exit_status'' = VBigInt ''99999999999999999999''" by (simp add: run_huge_def ObjAt_def)
  have e: "ExecExpectedOutcome run_huge = EXPECT_PASS" by (simp add: ExecExpectedOutcome_def run_huge_def ObjStr_def ObjAt_def EXPECT_FAIL_def)
  have "ExecOutput h0 run_huge = ExecOutput h0 run1" by (simp add: ExecOutput_def run_huge_def run1_def ObjStr_def ObjAt_def)
  then have o: "TrimSpace (ExecOutput h0 run_huge) \<noteq> []" using run1_output by simp
  have p: "ExecOutputProblem h0 run_huge = None" by (simp add: ExecOutputProblem_def commandIsForgeLike_def run_huge_def HasObjKey_def)
  have "checkExecExpectationShape ''EXEC-1'' run_huge = Inr ()" "checkExecProfile ''EXEC-1'' run_huge = Inr ()"
    "checkExecCaptureComplete ''EXEC-1'' run_huge = Inr ()"
    by (simp_all add: checkExecExpectationShape_def checkExecProfile_def checkExecCaptureComplete_def ExecTruncatedCapture_def run_huge_def
        ObjStr_def ObjAt_def ExecExpectedFailure_def E4_PROFILES_def)
  then have "ValidateExecRecord h0 ''EXEC-1'' run_huge = Inr ()"
    using huge_exit_status [OF x] e o p by (simp add: ValidateExecRecord_def checkExecOutputNonEmpty_def output_check_def EXPECT_PASS_def EXPECT_FAIL_def)
  then show ?thesis using huge_exit_status [OF x] by blast
qed

end
