(* ===== verification/MemoryFacts.thy ===== *)
theory MemoryFacts
  imports Memory SaveFacts Tamper "HOL-Library.Multiset"
begin

text \<open>
  What a recorded consultation is worth: the digest does not depend on the order of the ids and fixes the
  content of every cited row up to a collision; an entry verifies against the store it was made from.
\<close>

section \<open>The digest\<close>

definition digest_text :: "string list \<Rightarrow> (string \<times> value) list \<Rightarrow> string" where
  "digest_text ids rows = CanonSpaced (VArr (map pair_value (sort (row_pairs ids rows))))"

lemma ComputeRowDigest_text: "ComputeRowDigest ids rows = Sha256Hex (digest_text ids rows)"
  by (simp add: ComputeRowDigest_def digest_text_def)

lemma row_pairs_Cons:
  "row_pairs (i # ids) rows = (case kv_find rows i of None \<Rightarrow> [] | Some r \<Rightarrow> [(i, canonicalRowHash r)]) @ row_pairs ids rows"
  by (simp add: row_pairs_def List.map_filter_def split: option.split)

lemma row_pairs_Nil [simp]: "row_pairs [] rows = []"
  by (simp add: row_pairs_def List.map_filter_def)

lemma mset_row_pairs: "mset ids = mset ids' \<Longrightarrow> mset (row_pairs ids rows) = mset (row_pairs ids' rows)"
proof -
  have "mset (row_pairs ids rows) = \<Sum>\<^sub># (image_mset (\<lambda>i. mset (case kv_find rows i of None \<Rightarrow> [] | Some r \<Rightarrow> [(i, canonicalRowHash r)])) (mset ids))" for ids
    by (induction ids) (simp_all add: row_pairs_Cons)
  then show "mset ids = mset ids' \<Longrightarrow> ?thesis" by simp
qed

lemma sort_row_pairs: "mset ids = mset ids' \<Longrightarrow> sort (row_pairs ids rows) = sort (row_pairs ids' rows)"
proof (rule properties_for_sort)
  assume "mset ids = mset ids'"
  then show "mset (sort (row_pairs ids' rows)) = mset (row_pairs ids rows)" by (simp only: mset_sort mset_row_pairs [of ids ids'])
qed simp

lemma digest_order: "ComputeRowDigest (sort ids) rows = ComputeRowDigest ids rows"
  unfolding ComputeRowDigest_text digest_text_def by (simp add: sort_row_pairs [of "sort ids" ids])

lemma set_row_pairs: "set (row_pairs ids rows) = {(i, canonicalRowHash r) | i r. i \<in> set ids \<and> kv_find rows i = Some r}"
  by (induction ids) (auto simp: row_pairs_Cons split: option.splits, metis)

lemma wf_pairs: "list_all valid_utf8 ids \<Longrightarrow> wf_value (VArr (map pair_value (sort (row_pairs ids rows))))"
  by (auto simp: pair_value_def set_row_pairs canonicalRowHash_def list_all_iff)

lemma keysorted_pairs: "keysorted (VArr (map pair_value ps)) = VArr (map pair_value ps)"
  by (simp add: pair_value_def o_def)

lemma pair_value_inj: "inj pair_value"
  by (auto simp: inj_def pair_value_def)

text \<open>Equal texts cite rows with equal hashes.\<close>

lemma digest_text_fixes:
  assumes "digest_text ids rows = digest_text ids rows'" "list_all valid_utf8 ids" "i \<in> set ids"
    "kv_find rows i = Some r" "kv_find rows' i = Some r'"
  shows "canonicalRowHash r = canonicalRowHash r'"
proof -
  have "keysorted (VArr (map pair_value (sort (row_pairs ids rows)))) = keysorted (VArr (map pair_value (sort (row_pairs ids rows'))))"
    using assms(1) Canon_eq_iff [OF wf_pairs [OF assms(2)] wf_pairs [OF assms(2)], of rows False rows']
    by (simp add: digest_text_def CanonSpaced_def)
  then have "sort (row_pairs ids rows) = sort (row_pairs ids rows')"
    unfolding keysorted_pairs using inj_map_eq_map [OF pair_value_inj] by simp
  then have "set (row_pairs ids rows) = set (row_pairs ids rows')" by (metis set_sort)
  moreover have "(i, canonicalRowHash r) \<in> set (row_pairs ids rows)" using assms(3,4) by (auto simp: set_row_pairs)
  ultimately show ?thesis using assms(5) by (auto simp: set_row_pairs)
qed

section \<open>Entries\<close>

lemma valueStrings_StrArr [simp]: "valueStrings (StrArr ss) = ss"
  by (induction ss) (simp_all add: valueStrings_def StrArr_def)

lemma check_entry_verifies:
  assumes "known_mode (ObjAt c ''mode'')" "filter (\<lambda>mid. kv_find rows mid = None) ids = []"
  shows "check_verifies rows (check_entry lc c ids rows finding t)"
  using assms
  by (auto simp: check_verifies_def check_entry_def Let_def ObjAt_def ObjStr_def digest_order list_all_iff filter_empty_conv)

definition check_key :: "value \<Rightarrow> string" where
  "check_key c = memoryCheckKey (valueStrings (ObjAt c ''memory_ids'')) (ObjAt c ''mode'')"

lemma memoryCheckEntry_Inr:
  assumes "memoryCheckEntry lc ev c rows finding w = (Inr (key, entry, owed), w')"
  shows "key = check_key c" "check_verifies rows entry" "files w' = files w"
  using assms check_entry_verifies [of c rows "valueStrings (ObjAt c ''memory_ids'')" lc finding]
  by (auto simp: memoryCheckEntry_def Let_def bindE_Inr nowIso_def check_key_def split: if_splits)

text \<open>The loop appends; it appends nothing when every key was seen, and something otherwise.\<close>

lemma check_loop_Inr:
  assumes "check_loop lc ev rows finding cs seen existing a i w = (Inr (entries, a', i'), w')"
  shows "\<exists>news. entries = existing @ news \<and> list_all (check_verifies rows) news \<and> files w' = files w \<and>
    (news = [] \<longleftrightarrow> list_all (\<lambda>c. check_key c \<in> set seen) cs)"
  using assms
proof (induction cs arbitrary: seen existing a i w)
  case Nil
  then show ?case by auto
next
  case (Cons c cs)
  obtain key entry owed w1 where e: "memoryCheckEntry lc ev c rows finding w = (Inr (key, entry, owed), w1)"
    and rest: "(if key \<in> set seen then check_loop lc ev rows finding cs seen existing a i
       else check_loop lc ev rows finding cs (key # seen) (existing @ [entry]) (Suc a) (if owed then Suc i else i)) w1
       = (Inr (entries, a', i'), w')"
    using Cons.prems by (auto simp: bindE_Inr)
  note k = memoryCheckEntry_Inr [OF e]
  show ?case
  proof (cases "key \<in> set seen")
    case True
    with rest Cons.IH [of seen existing a i w1] k show ?thesis by auto
  next
    case False
    with rest obtain news where "entries = (existing @ [entry]) @ news" "list_all (check_verifies rows) news" "files w' = files w1"
      using Cons.IH [of "key # seen" "existing @ [entry]" "Suc a" "if owed then Suc i else i" w1] by auto
    then show ?thesis using False k by (intro exI [of _ "entry # news"]) auto
  qed
qed

section \<open>The record\<close>

lemma check_key_of_eq: "check_key_of = check_key"
  by (simp add: fun_eq_iff check_key_of_def check_key_def)

definition recorded_keys :: "value \<Rightarrow> string list" where
  "recorded_keys finding = map check_key (filter (\<lambda>r. vkind r = KObj) (recorded_checks finding))"

lemma keeps_emit: "keeps_to (file_same p) (emit_gaps lc ev n finding logged es fe)" if "p \<noteq> EventsPath" "p \<noteq> StatePath"
proof (induction es arbitrary: fe)
  case Nil
  then show ?case by (cases fe) (simp_all add: keeps_to_def file_same_def)
next
  case (Cons e es)
  show ?case unfolding keeps_to_def
  proof
    fix w
    obtain r w1 where l: "Log ev ''corpus.gap'' (Some n) (Some (corpusGapPayload lc finding e)) w = (r, w1)"
      by (cases "Log ev ''corpus.gap'' (Some n) (Some (corpusGapPayload lc finding e)) w")
    have "file_same p w w1" using Log_file_same [OF that] l unfolding keeps_to_def by (metis snd_conv)
    then show "file_same p w (snd (emit_gaps lc ev n finding logged (e # es) fe w))"
      using Cons.IH l unfolding keeps_to_def file_same_def by (auto simp: catchE_def)
  qed
qed

lemma keeps_owed: "p \<noteq> EventsPath \<Longrightarrow> p \<noteq> StatePath \<Longrightarrow> keeps_to (file_same p) (emitOwedCorpusGaps lc ev n finding recorded)"
proof -
  assume p: "p \<noteq> EventsPath" "p \<noteq> StatePath"
  have "snd (loggedCorpusGaps n w) = w" for w
    by (auto simp: loggedCorpusGaps_def Events_def logLines_def bindE_def catchE_def ReadFile_def split: option.splits sum.splits)
  then have "loggedCorpusGaps n w = (r, w1) \<Longrightarrow> w1 = w" for w r w1 by (metis snd_conv)
  then show ?thesis using keeps_emit [OF p]
    unfolding keeps_to_def file_same_def emitOwedCorpusGaps_def Let_def
    by (auto simp: bindE_def split: sum.splits prod.splits)
qed

end
