(* ===== verification/MemoryProperties.thy ===== *)
theory MemoryProperties
  imports MemoryFacts TransitionFacts FindingExamples
begin

text \<open>
  The properties of the memory check: a verified consultation fixes the content of the rows it cites; a
  consultation recorded for the first time opens the gate; one whose rows have moved cannot be renewed
  under its own key.
\<close>

section \<open>Staleness\<close>

text \<open>C23: A recorded consultation that verifies against two states of the store has seen the same rows in
  both: every row it cites has the same content in each, up to the order of keys, or one of the two digests
  involved has a SHA-256 collision.\<close>

theorem recall_tamper_evident:
  assumes "check_verifies rows c" "check_verifies rows' c" "i \<in> set (valueStrings (ObjAt c ''memory_ids''))"
    and "kv_find rows i = Some r" "kv_find rows' i = Some r'" "wf_value c" "wf_value r" "wf_value r'"
  shows "keysorted r = keysorted r' \<or> collision (CanonSpaced r) (CanonSpaced r') \<or>
    collision (digest_text (valueStrings (ObjAt c ''memory_ids'')) rows) (digest_text (valueStrings (ObjAt c ''memory_ids'')) rows')"
proof -
  let ?ids = "valueStrings (ObjAt c ''memory_ids'')"
  have u: "list_all valid_utf8 ?ids"
  proof -
    have "wf_value (ObjAt c ''memory_ids'')" using assms(6) by (rule wf_ObjAt)
    then have "list_all wf_value (vA (ObjAt c ''memory_ids''))" by (cases "ObjAt c ''memory_ids''") auto
    moreover have "valid_utf8 (vS v)" if "wf_value v" "vkind v = KStr" for v using that by (cases v) auto
    ultimately show ?thesis by (auto simp: valueStrings_def list_all_iff)
  qed
  have "Sha256Hex (digest_text ?ids rows) = Sha256Hex (digest_text ?ids rows')"
    using assms(1,2) by (simp add: check_verifies_def Let_def flip: ComputeRowDigest_text)
  moreover have "canonicalRowHash r = canonicalRowHash r'" if "digest_text ?ids rows = digest_text ?ids rows'"
    by (rule digest_text_fixes [OF that u assms(3-5)])
  ultimately show ?thesis
    using Canon_eq_iff [OF assms(7,8), of False] by (auto simp: collision_def canonicalRowHash_def CanonSpaced_def)
qed

theorem recall_tamper_evident_witness:
  "keysorted mem_row = keysorted mem_row \<or> collision (CanonSpaced mem_row) (CanonSpaced mem_row) \<or>
   collision (digest_text [''MEM-1''] [(''MEM-1'', mem_row)]) (digest_text [''MEM-1''] [(''MEM-1'', mem_row)])"
proof -
  have "check_verifies [(''MEM-1'', mem_row)] poss_check" "valueStrings (ObjAt poss_check ''memory_ids'') = [''MEM-1'']"
    by (simp_all add: check_verifies_def poss_check_def known_mode_def valueStrings_def ObjAt_def ObjStr_def Let_def)
  moreover have "wf_value mem_row" by (auto simp: mem_row_def intro!: valid_utf8_ascii)
  ultimately show ?thesis using recall_tamper_evident [of "[(''MEM-1'', mem_row)]" poss_check "[(''MEM-1'', mem_row)]" "''MEM-1''"] by simp
qed

section \<open>Recording\<close>

lemma SaveThenLog_file:
  assumes sv: "SaveThenLog ev g (\<lambda>_. Log ev ty ref data) w = (Inr f, w')" and ok: "slash \<notin> set (ObjStr g ''finding_id'')"
    and acc: "accessible w (finding_path g)"
  shows "kv_find (files w') (finding_path g) = Some (File True (finding_bytes f))"
proof -
  obtain x w2 where p: "SaveFinding ev g w = (Inr f, w2)" and l: "Log ev ty ref data w2 = (Inr x, w')"
    by (rule SaveThenLog_steps [OF sv])
  have "kv_find (files w2) (finding_path g) = Some (File True (finding_bytes f))"
    using p acc
    by (cases rule: SaveFinding_cases [of ev g w]) (auto simp: world_simps accessible_def split: option.splits)
  then show ?thesis
    using l Log_file_same [OF FindingPath_apart(1,2) [OF ok], of ev ty ref data] unfolding keeps_to_def file_same_def by (metis snd_conv)
qed

lemma RecordMemoryCheck_run:
  assumes "LoadFinding ev n w = (Inr finding, w)" "VisibleMemoryRows st w = Inr rows"
    and "check_loop lc ev rows finding checks (recorded_keys finding) (recorded_checks finding) 0 0 w = (Inr (entries, a, i), w1)"
    and "SaveThenLog ev (set_field finding ''provenance'' (set_field (asDict (ObjAt finding ''provenance'')) ''memory_checks'' (VArr entries)))
      (\<lambda>_. Log ev ''finding.memory_checked'' (Some n) (Some (checked_data a i checks))) w1 = (Inr f, w2)"
    and "emitOwedCorpusGaps lc ev n f (VArr entries) w2 = (Inr (), w')"
  shows "RecordMemoryCheck st lc ev n checks w = (Inr f, w')"
proof -
  have "vA (let x = ObjAt (asDict (ObjAt finding ''provenance'')) ''memory_checks'' in if vkind x \<noteq> KArr then VArr [] else x)
      = recorded_checks finding"
    by (simp add: recorded_checks_def Let_def)
  then show ?thesis using assms
    by (simp add: RecordMemoryCheck_def bindE_def readW_def check_key_of_eq recorded_keys_def Let_def)
qed

lemma RecordMemoryCheck_Inr:
  assumes "RecordMemoryCheck st lc ev n checks w = (Inr f, w')"
    and n: "finding_schema_ok ev" "\<And>g. fst (LoadFinding ev n w) = Inr g \<Longrightarrow> ObjStr g ''finding_id'' = n"
  obtains finding rows news where "LoadFinding ev n w = (Inr finding, w)" "VisibleMemoryRows st w = Inr rows"
    "recorded_checks f = recorded_checks finding @ news" "list_all (check_verifies rows) news"
    "news = [] \<longleftrightarrow> list_all (\<lambda>c. check_key c \<in> set (recorded_keys finding)) checks"
    "kv_find (files w') (FindingPath n) = Some (File True (DumpIndented f @ NL))"
proof -
  obtain finding w0 where l0: "LoadFinding ev n w = (Inr finding, w0)"
    using assms(1) by (auto simp: RecordMemoryCheck_def bindE_Inr)
  then have l: "LoadFinding ev n w = (Inr finding, w)" using LoadFinding_world by blast
  let ?prov = "asDict (ObjAt finding ''provenance'')" and ?old = "recorded_checks finding"
  let ?f1 = "\<lambda>es. set_field finding ''provenance'' (set_field ?prov ''memory_checks'' (VArr es))"
  have old: "vA (if vkind (ObjAt ?prov ''memory_checks'') \<noteq> KArr then VArr [] else ObjAt ?prov ''memory_checks'') = ?old"
    by (simp add: recorded_checks_def Let_def)
  obtain rows entries a i w1 w2 w3 f2 u where r: "VisibleMemoryRows st w = Inr rows"
    and lp: "check_loop lc ev rows finding checks (recorded_keys finding) ?old 0 0 w = (Inr (entries, a, i), w1)"
    and sv: "SaveThenLog ev (?f1 entries) (\<lambda>_. Log ev ''finding.memory_checked'' (Some n) (Some (checked_data a i checks))) w1 = (Inr f, w2)"
    and em: "emitOwedCorpusGaps lc ev n f (VArr entries) w2 = (Inr u, w')"
    using assms(1) l unfolding RecordMemoryCheck_def Let_def
    by (auto simp: bindE_Inr readW_def check_key_of_eq recorded_keys_def old)
  obtain news where news: "entries = ?old @ news" "list_all (check_verifies rows) news"
      "news = [] \<longleftrightarrow> list_all (\<lambda>c. check_key c \<in> set (recorded_keys finding)) checks"
    using check_loop_Inr [OF lp] by blast
  have id1: "ObjStr (?f1 entries) ''finding_id'' = n" using n(2) l by simp
  obtain t where f: "f = touched (?f1 entries) t" "validates ev ''finding'' f"
    using SaveThenLog_Inr [OF sv] by blast
  have k: "vkind finding = KObj" "slash \<notin> set n" using f n(1) id1 by (auto simp: finding_schema_ok_def)
  have "accessible w (FindingPath n)" using l by (auto simp: accessible_def LoadFinding_def Let_def catchE_def stat_file_def
        ReadJson_def bindE_Inr ReadFile_def split: if_splits option.splits)
  moreover have "files w1 = files w" using check_loop_Inr [OF lp] by blast
  ultimately have "accessible w1 (FindingPath n)" by (simp add: accessible_def)
  then have c2: "kv_find (files w2) (FindingPath n) = Some (File True (finding_bytes f))"
    using SaveThenLog_file [OF sv] id1 k(2) by simp
  have "file_same (FindingPath n) w2 w'"
    using keeps_owed [OF FindingPath_apart(1,2) [OF k(2)]] em unfolding keeps_to_def by (metis snd_conv)
  then have "kv_find (files w') (FindingPath n) = Some (File True (finding_bytes f))" using c2 by (simp add: file_same_def)
  moreover have "recorded_checks f = entries" using k(1) by (simp add: recorded_checks_def f asDict_def)
  ultimately show thesis using that l r news k id1 f(1) by simp
qed

text \<open>C24: A consultation that is recorded, with at least one check whose key was not on the finding yet,
  opens the memory clause of the gate: in the world it leaves, and on a store that still shows the same
  rows, the gate's question has no objection.\<close>

theorem recall_opens_gate:
  assumes "RecordMemoryCheck st lc ev n checks w = (Inr f, w')" "finding_schema_ok ev"
    and "LoadFinding ev n w = (Inr finding, w)" "ObjStr finding ''finding_id'' = n"
    and "c \<in> set checks" "check_key c \<notin> set (recorded_keys finding)"
    and "VisibleMemoryRows st w' = VisibleMemoryRows st w" "wf_value f"
  shows "MemoryCheckFails st ev n w' = Inr None"
proof -
  obtain finding' rows news where r: "LoadFinding ev n w = (Inr finding', w)" "VisibleMemoryRows st w = Inr rows"
    "recorded_checks f = recorded_checks finding' @ news" "list_all (check_verifies rows) news"
    "news = [] \<longleftrightarrow> list_all (\<lambda>c. check_key c \<in> set (recorded_keys finding')) checks"
    "kv_find (files w') (FindingPath n) = Some (File True (DumpIndented f @ NL))"
    by (rule RecordMemoryCheck_Inr [OF assms(1,2)]) (use assms(3,4) in auto)
  have "finding' = finding" using r(1) assms(3) by simp
  then have "news \<noteq> []" using r(5) assms(5,6) by (auto simp: list_all_iff)
  then have "list_ex (check_verifies rows) (recorded_checks f)" using r(3,4) by (cases news) auto
  moreover have "fst (LoadFinding ev n w') = Inr f"
    using r(6) parse_Indented_NL [OF assms(8)]
    by (simp add: LoadFinding_def Let_def catchE_def stat_file_def ReadJson_def bindE_def ReadFile_def parseE_def)
  ultimately show ?thesis using assms(7) r(2) by (simp add: MemoryCheckFails_def)
qed

text \<open>A finding of the class of the one row the store shows, its consultations given.\<close>

definition lc0 :: casing where
  "lc0 = \<lparr>ToLower = (\<lambda>s. s), pyLower = (\<lambda>s. s)\<rparr>"

definition row_x :: "value" where
  "row_x = VObj [(''memory_id'', VStr ''MEM-1''), (''bug_class'', VStr ''x'')]"

definition sm_x :: seams where "sm_x = sm0\<lparr>sharedMemoryRows := (\<lambda>_. Inr [row_x])\<rparr>"

definition f_rec :: "value list \<Rightarrow> value" where
  "f_rec cs = VObj [(''finding_id'', VStr ''F-0a''), (''root_cause'', VObj [(''class'', VStr ''x'')]),
     (''provenance'', VObj [(''memory_checks'', VArr cs)]), (''history'', VArr [])]"

definition ask_x :: "value" where
  "ask_x = VObj [(''memory_ids'', VArr [VStr ''MEM-1'']), (''mode'', VStr ''negative'')]"

lemma f_rec_simps [simp]:
  "vkind (f_rec cs) = KObj" "ObjStr (f_rec cs) ''finding_id'' = ''F-0a''" "recorded_checks (f_rec cs) = cs"
  "ObjAt (f_rec cs) ''history'' = VArr []" "list_all wf_value cs \<Longrightarrow> wf_value (f_rec cs)"
  by (auto simp: f_rec_def recorded_checks_def asDict_def ObjStr_def ObjAt_def list_all_iff intro!: valid_utf8_ascii)

lemma f_rec_checks: "ObjAt (asDict (ObjAt (f_rec cs) ''provenance'')) ''memory_checks'' = VArr cs"
  by (simp add: f_rec_def asDict_def ObjAt_def)

lemma visible_x: "fst (AllMemory True w) = Inr [] \<Longrightarrow> VisibleMemoryRows sm_x w = Inr [(''MEM-1'', row_x)]"
  by (simp add: VisibleMemoryRows_def sm_x_def sm0_def add_shared_def shared_row_def Let_def row_x_def ObjStr_def ObjAt_def HasObjKey_def)

lemma tags_x: "FindingRelevanceTags lc0 (f_rec cs) = [(''bug_class'', [''x''])]" "MemoryRowRelevanceTags lc0 row_x = [(''bug_class'', [''x''])]"
proof -
  have "PyStrip ''x'' = ''x''"
    by (simp add: PyStrip_def TrimFunc_def rune_segments.simps decode_rune_def PyIsSpace_def isSpace_def)
  then show "FindingRelevanceTags lc0 (f_rec cs) = [(''bug_class'', [''x''])]" "MemoryRowRelevanceTags lc0 row_x = [(''bug_class'', [''x''])]"
    by (simp_all add: FindingRelevanceTags_def MemoryRowRelevanceTags_def row_x_def f_rec_def lc0_def normTag_def normCapValues_def
        asDict_def ObjAt_def PyStr_def pyStripLower_def Let_def)
qed

lemma relevance_x: "MemoryCheckRelevance lc0 (f_rec cs) [''MEM-1''] [(''MEM-1'', row_x)] =
    VObj [(''overlapping'', StrArr [''MEM-1'']), (''basis'', StrArr [''bug_class''])]"
  by (simp add: MemoryCheckRelevance_def tags_x row_verdict_def fired_bases_def coarse_match_def class_matches_def RelevanceBases_def
      map_set_def intersects_def sortedIntersect_def allInSet_def NondiscriminativeClasses_def CATCH_ALL_BUG_CLASS_def sortedSetKeys_def Let_def)
     (simp add: row_x_def)

definition entry_x :: "value list \<Rightarrow> string \<Rightarrow> value" where
  "entry_x cs t = check_entry lc0 ask_x [''MEM-1''] [(''MEM-1'', row_x)] (f_rec cs) t"

lemma ask_x_simps [simp]:
  "valueStrings (ObjAt ask_x ''memory_ids'') = [''MEM-1'']" "ObjAt ask_x ''mode'' = VStr ''negative''" "ObjAt ask_x ''note'' = VNull"
  "checkModes [ask_x] = [''negative'']"
  by (simp_all add: ask_x_def ObjAt_def valueStrings_def checkModes_def sortedSetKeys_def)

lemma entry_x_run:
  "memoryCheckEntry lc0 ev1 ask_x [(''MEM-1'', row_x)] (f_rec cs) w
     = (Inr (check_key ask_x, entry_x cs (now ev1 (ticks w)), False), w\<lparr>ticks := Suc (ticks w)\<rparr>)"
  by (simp add: memoryCheckEntry_def Let_def bindE_def nowIso_def known_mode_def check_key_def entry_x_def)
     (simp add: corpusGapOwed_def check_entry_def relevance_x Let_def ObjAt_def StrArr_def)

lemma entry_x_wf: "valid_utf8 t \<Longrightarrow> wf_value (entry_x cs t)" "\<not> corpusGapOwed (entry_x cs t)"
proof -
  have e: "entry_x cs t = VObj [(''memory_ids'', StrArr [''MEM-1'']), (''mode'', VStr ''negative''), (''consulted_at'', VStr t),
      (''row_digest'', VStr (ComputeRowDigest [''MEM-1''] [(''MEM-1'', row_x)])),
      (''relevance'', VObj [(''overlapping'', StrArr [''MEM-1'']), (''basis'', StrArr [''bug_class''])])]"
    by (simp add: entry_x_def check_entry_def relevance_x Let_def) (simp add: ObjAt_def StrArr_def)
  show "valid_utf8 t \<Longrightarrow> wf_value (entry_x cs t)" "\<not> corpusGapOwed (entry_x cs t)"
    unfolding e by (auto simp: ComputeRowDigest_def corpusGapOwed_def Let_def ObjAt_def StrArr_def intro!: valid_utf8_ascii)
qed

lemma memory_empty:
  assumes "\<And>p. in_dir MemoryDir p \<noteq> None \<Longrightarrow> kv_find (files w) p = None"
  shows "AllMemory True w = (Inr [], w)"
proof -
  have "in_dir MemoryDir p = None" if "p \<in> set (map fst (files w))" for p
    using assms [of p] that by (force simp: kv_find_None_iff)
  then have "filter (\<lambda>p. case in_dir MemoryDir p of None \<Rightarrow> False | Some name \<Rightarrow> has_prefix ''MEM-'' name \<and> has_suffix ''.json'' name)
      (map fst (files w)) = []"
    by (auto simp: filter_empty_conv)
  then show ?thesis by (simp add: AllMemory_def catchE_def ListPrefixedOptional_def)
qed

lemma record_x:
  assumes cs: "list_all wf_value entries" "list_all (\<lambda>e. \<not> corpusGapOwed e) entries" "list_all wf_value cs" "added \<le> 1"
    and lp: "check_loop lc0 ev1 [(''MEM-1'', row_x)] (f_rec cs) [ask_x] (map check_key (filter (\<lambda>r. vkind r = KObj) cs)) cs 0 0
      (find_world (f_rec cs)) = (Inr (entries, added, 0), (find_world (f_rec cs))\<lparr>ticks := 1\<rparr>)"
  shows "\<exists>f w'. RecordMemoryCheck sm_x lc0 ev1 ''F-0a'' [ask_x] (find_world (f_rec cs)) = (Inr f, w') \<and> wf_value f \<and>
    VisibleMemoryRows sm_x w' = Inr [(''MEM-1'', row_x)]"
proof -
  let ?w = "find_world (f_rec cs)" and ?d = "checked_data added 0 [ask_x]"
  let ?f1 = "set_field (f_rec cs) ''provenance'' (set_field (asDict (ObjAt (f_rec cs) ''provenance'')) ''memory_checks'' (VArr entries))"
  note h = settled_healthy [OF settled_find_world [of "f_rec cs"]]
  have u1: "undisturbed (?w\<lparr>ticks := 1\<rparr>)" using h by (simp add: healthy_def undisturbed_def)
  have h1: "healthy ev1 st_budget [] (?w\<lparr>ticks := 1\<rparr>)"
    by (rule of_filesD [OF of_files_healthy h _ u1]) simp
  have sz1: "size_ok (?w\<lparr>ticks := 1\<rparr>)" using find_world_simps(4) [of "f_rec cs"] by (simp add: size_ok_def content_of_def)
  have vis: "VisibleMemoryRows sm_x ?w = Inr [(''MEM-1'', row_x)]" by (rule visible_x) (simp add: no_memory_files)
  have ar: "args_ok ''finding.memory_checked'' (Some ''F-0a'') (Some ?d)"
    using cs(4) by (auto simp: args_ok_def checked_data_def StrArr_def int64_range_def intro!: valid_utf8_ascii)
  obtain w2 e w3 where run: "SaveFinding ev1 ?f1 (?w\<lparr>ticks := 1\<rparr>) = (Inr (touched ?f1 (now ev1 1)), w2)"
      "Log ev1 ''finding.memory_checked'' (Some ''F-0a'') (Some ?d) w2 = (Inr e, w3)"
  proof -
    have "ObjStr ?f1 ''finding_id'' = ''F-0a''" "\<And>t. validates ev1 ''finding'' (touched ?f1 t)"
      by (simp_all add: slash_def)
    then show thesis using save_and_log [OF ev1_ok(1) not_refuses_ev1 h1 sz1 ar, of ?f1] that by (auto simp: slash_def simp del: validates_ev1)
  qed
  have sv: "SaveThenLog ev1 ?f1 (\<lambda>_. Log ev1 ''finding.memory_checked'' (Some ''F-0a'') (Some ?d)) (?w\<lparr>ticks := 1\<rparr>)
      = (Inr (touched ?f1 (now ev1 1)), w3)"
    by (rule SaveThenLog_runs [where logf = "\<lambda>_. Log ev1 ''finding.memory_checked'' (Some ''F-0a'') (Some ?d)", OF run]) (simp add: accessible_def)
  have owed: "filter corpusGapOwed entries = []" using cs(2) by (simp add: filter_empty_conv list_all_iff)
  have l: "LoadFinding ev1 ''F-0a'' ?w = (Inr (f_rec cs), ?w)" using LoadFinding_find_world [of "f_rec cs"] cs(3) by simp
  have em: "emitOwedCorpusGaps lc0 ev1 ''F-0a'' g (VArr entries) w3 = (Inr (), w3)" for g
    by (simp add: emitOwedCorpusGaps_def owed)
  have lp': "check_loop lc0 ev1 [(''MEM-1'', row_x)] (f_rec cs) [ask_x] (recorded_keys (f_rec cs)) (recorded_checks (f_rec cs)) 0 0 ?w
      = (Inr (entries, added, 0), ?w\<lparr>ticks := 1\<rparr>)"
    using lp by (simp only: recorded_keys_def f_rec_simps(3))
  have all: "RecordMemoryCheck sm_x lc0 ev1 ''F-0a'' [ask_x] ?w = (Inr (touched ?f1 (now ev1 1)), w3)"
    by (rule RecordMemoryCheck_run [OF l vis lp' sv em])
  have "wf_value (touched ?f1 (now ev1 1))"
  proof -
    have "valid_utf8 (now ev1 1)" using ev1_ok(1) by (simp add: env_ok_def clock_ok_def)
    moreover have "wf_value (asDict (ObjAt (f_rec cs) ''provenance''))"
      using cs(3) by (auto simp: f_rec_def asDict_def ObjAt_def intro!: valid_utf8_ascii)
    ultimately show ?thesis unfolding touched_def using cs(1,3)
      by (intro wf_set_field) (auto simp: list_all_iff intro!: valid_utf8_ascii)
  qed
  moreover have "AllMemory True w3 = (Inr [], w3)"
  proof (rule memory_empty)
    fix p assume p: "in_dir MemoryDir p \<noteq> None"
    then have m: "hd p = CHR ''m''" by (cases p) (simp_all add: in_dir_def MemoryDir_def has_prefix_def split: if_splits)
    have ne: "p \<noteq> EventsPath" "p \<noteq> StatePath" "p \<noteq> ''findings/F-0a.json''" using m by (auto simp: EventsPath_def StatePath_def)
    then have "kv_find (files ?w) p = None" by (simp add: find_world_def world_with_def)
    note ne = ne this
    have "kv_find (files w2) p = kv_find (files (?w\<lparr>ticks := 1\<rparr>)) p"
      using SaveFinding_other [of p ?f1 ev1 "?w\<lparr>ticks := 1\<rparr>"] ne(3) run(1) by simp
    moreover have "kv_find (files w3) p = kv_find (files w2) p"
      using others.resp_Log run(2) ne(1,2) unfolding keeps_to_def others_same_def by (metis snd_conv)
    ultimately show "kv_find (files w3) p = None" using ne(4) by simp
  qed
  then have "VisibleMemoryRows sm_x w3 = Inr [(''MEM-1'', row_x)]" by (intro visible_x) simp
  ultimately show ?thesis using all by blast
qed

theorem recall_opens_gate_witness:
  "\<exists>f w'. RecordMemoryCheck sm_x lc0 ev1 ''F-0a'' [ask_x] (find_world (f_rec [])) = (Inr f, w') \<and>
     MemoryCheckFails sm_x ev1 ''F-0a'' w' = Inr None"
proof -
  let ?w = "find_world (f_rec [])"
  have t0: "ticks ?w = 0" by (simp add: find_world_def world_with_def)
  have u: "valid_utf8 (now ev1 0)" using ev1_ok(1) by (simp add: env_ok_def clock_ok_def)
  have lp: "check_loop lc0 ev1 [(''MEM-1'', row_x)] (f_rec []) [ask_x] (map check_key (filter (\<lambda>r. vkind r = KObj) [])) [] 0 0 ?w
      = (Inr ([entry_x [] (now ev1 0)], 1, 0), ?w\<lparr>ticks := 1\<rparr>)"
    using t0 by (simp add: bindE_def entry_x_run)
  obtain f w' where r: "RecordMemoryCheck sm_x lc0 ev1 ''F-0a'' [ask_x] ?w = (Inr f, w')" "wf_value f"
      "VisibleMemoryRows sm_x w' = Inr [(''MEM-1'', row_x)]"
    using record_x [OF _ _ _ _ lp] entry_x_wf u by auto
  have "VisibleMemoryRows sm_x ?w = Inr [(''MEM-1'', row_x)]" by (rule visible_x) (simp add: no_memory_files)
  then have "MemoryCheckFails sm_x ev1 ''F-0a'' w' = Inr None"
    using recall_opens_gate [OF r(1) ev1_ok(2) LoadFinding_find_world, of ask_x] r(2,3) by (simp add: recorded_keys_def)
  then show ?thesis using r(1) by blast
qed

text \<open>A check that is offered again under a key already on the finding is dropped, whatever became of
  the recorded one: the call succeeds, the recorded checks are exactly what they were, and a consultation
  that had gone stale stays stale. The remedy the gate prints does not heal it.\<close>

theorem stale_recall_not_renewed:
  assumes "RecordMemoryCheck st lc ev n checks w = (Inr f, w')" "finding_schema_ok ev"
    and "LoadFinding ev n w = (Inr finding, w)" "ObjStr finding ''finding_id'' = n"
    and "\<forall>c \<in> set checks. check_key c \<in> set (recorded_keys finding)"
  shows "recorded_checks f = recorded_checks finding \<and> content_of (FindingPath n) w' = DumpIndented f @ NL"
proof -
  obtain finding' rows news where r: "LoadFinding ev n w = (Inr finding', w)"
    "recorded_checks f = recorded_checks finding' @ news"
    "news = [] \<longleftrightarrow> list_all (\<lambda>c. check_key c \<in> set (recorded_keys finding')) checks"
    "kv_find (files w') (FindingPath n) = Some (File True (DumpIndented f @ NL))"
    by (rule RecordMemoryCheck_Inr [OF assms(1,2)]) (use assms(3,4) in auto)
  then show ?thesis using assms(3,5) by (simp add: list_all_iff content_of_def)
qed

text \<open>A consultation whose digest no row can have.\<close>

definition stale_x :: "value" where
  "stale_x = VObj [(''memory_ids'', VArr [VStr ''MEM-1'']), (''mode'', VStr ''negative''), (''row_digest'', VStr ''old'')]"

lemma stale_x_simps [simp]: "wf_value stale_x" "\<not> corpusGapOwed stale_x" "check_key stale_x = check_key ask_x" "vkind stale_x = KObj"
  by (auto simp: stale_x_def corpusGapOwed_def check_key_def ask_x_def ObjAt_def Let_def intro!: valid_utf8_ascii)

lemma stale_x_fails: "\<not> check_verifies rows stale_x"
proof
  assume "check_verifies rows stale_x"
  then have "length (Sha256Hex (digest_text [''MEM-1''] rows)) = length ''old''"
    by (simp add: check_verifies_def stale_x_def valueStrings_def ObjAt_def ObjStr_def Let_def flip: ComputeRowDigest_text)
  then show False by (simp del: length_Sha256Hex add: length_Sha256Hex)
qed

theorem stale_recall_not_renewed_witness:
  "\<exists>f w'. RecordMemoryCheck sm_x lc0 ev1 ''F-0a'' [ask_x] (find_world (f_rec [stale_x])) = (Inr f, w') \<and>
     recorded_checks f = [stale_x] \<and> (\<forall>rows. \<not> list_ex (check_verifies rows) (recorded_checks f))"
proof -
  let ?w = "find_world (f_rec [stale_x])"
  have t0: "ticks ?w = 0" by (simp add: find_world_def world_with_def)
  have lp: "check_loop lc0 ev1 [(''MEM-1'', row_x)] (f_rec [stale_x]) [ask_x] (map check_key (filter (\<lambda>r. vkind r = KObj) [stale_x])) [stale_x] 0 0 ?w
      = (Inr ([stale_x], 0, 0), ?w\<lparr>ticks := 1\<rparr>)"
    using t0 by (simp add: bindE_def entry_x_run)
  obtain f w' where r: "RecordMemoryCheck sm_x lc0 ev1 ''F-0a'' [ask_x] ?w = (Inr f, w')"
    using record_x [OF _ _ _ _ lp] by auto
  have "LoadFinding ev1 ''F-0a'' ?w = (Inr (f_rec [stale_x]), ?w)" by (rule LoadFinding_find_world) simp
  moreover have "recorded_keys (f_rec [stale_x]) = [check_key ask_x]" by (simp add: recorded_keys_def)
  ultimately have "recorded_checks f = [stale_x]"
    using stale_recall_not_renewed [OF r ev1_ok(2)] by simp
  then show ?thesis using r stale_x_fails by auto
qed

end
