(* ===== verification/PinProperties.thy ===== *)
theory PinProperties
  imports SnapTrust LogLive StoreFacts TransitionFacts
begin

text \<open>
  The attachments of a pin land whole: \<^verbatim>\<open>snapshot.json\<close> and its ledger event together, or the
  file stays as it was. The writer of a snapshot is a guarded write of the row discipline, whose
  contract its own log satisfies because no attachment can name the ledger or the campaign state.
\<close>

lemma pinThenLog_guarded: "pinThenLog p put logf = guarded_write p put logf"
  by (simp add: pinThenLog_def guarded_write_def)

section \<open>The file of a pin\<close>

definition pin_file :: "string \<Rightarrow> string" where
  "pin_file snapshotID = JoinPath [snap_dir snapshotID, ''snapshot.json'']"

lemma join_snoc: "\<exists>d. join s (cs @ [c]) = d @ c"
proof (induction cs)
  case Nil
  show ?case by (intro exI [of _ "[]"]) simp
next
  case (Cons a cs)
  then obtain d where "join s (cs @ [c]) = d @ c" by blast
  then show ?case by (intro exI [of _ "a @ s @ d"]) (cases cs; simp)
qed

lemma JoinPath_snoc:
  assumes "plain c"
  shows "\<exists>d. JoinPath (es @ [c]) = d @ c"
proof -
  let ?cs = "foldl clean_step [] (concat (map (split_on slash) es))"
  have "split_on slash c = [c]" using assms by (intro split_on_no_delim) (simp add: plain_def)
  then have "JoinPath (es @ [c]) = join [slash] (rev ?cs @ [c])"
    by (simp add: JoinPath_def clean_step_plain [OF assms] del: clean_step.simps)
  then show ?thesis using join_snoc by metis
qed

lemma pin_file_simps [simp]: "pin_file sid \<noteq> EventsPath" "pin_file sid \<noteq> StatePath"
proof -
  obtain d where d: "pin_file sid = d @ ''snapshot.json''"
    using JoinPath_snoc [of "''snapshot.json''" "[snap_dir sid]"] by (auto simp: pin_file_def plain_def slash_def)
  have t: "take 6 (rev (pin_file sid)) = ''nosj.t''" by (simp add: d)
  from t show "pin_file sid \<noteq> EventsPath" by (auto simp: EventsPath_def)
  from t show "pin_file sid \<noteq> StatePath" by (auto simp: StatePath_def)
qed

section \<open>The writer\<close>

lemma WriteJson_unchecked: "WriteJson ev p v schema w = (Inr u, w1) \<Longrightarrow> content_of p w1 = DumpIndented v @ NL"
  by (auto simp: WriteJson_Inr content_of_def world_simps)

lemma WriteJson_mode:
  assumes "WriteJson ev p v schema w = (r, w1)" "kv_find (files w) p = Some (File True b)"
  shows "\<exists>c. kv_find (files w1) p = Some (File True c)"
proof (cases r)
  case (Inl e)
  with assms WriteJson_Inl_files [of ev p v schema w e w1] show ?thesis by simp
next
  case (Inr u)
  have "accessible w p" using assms(2) by (simp add: accessible_def)
  with Inr assms(1) show ?thesis by (auto simp: WriteJson_Inr world_simps)
qed

interpretation pin_write: file_writer "pin_file sid" "WriteJson ev (pin_file sid) snap ''snapshot''"
  "Log ev ty ref data" "\<lambda>old new. new = DumpIndented snap @ NL" for sid ev snap ty ref data
  by unfold_locales (simp add: Log_file_same, erule WriteJson_unchecked, erule (1) WriteJson_mode)

lemma pin_landed:
  assumes "bindE (snapPath sid) (\<lambda>p. bindE (ReadJson p) (\<lambda>snap0.
      bindE (\<lambda>w. (refresh snap0 w, w)) (\<lambda>snap.
      bindE (pinThenLog p (WriteJson ev p snap ''snapshot'') (Log ev ty ref data)) (\<lambda>_. ret snap)))) w = (r, w')"
  shows "case r of
      Inr snap \<Rightarrow> content_of (pin_file sid) w' = DumpIndented snap @ NL \<and>
        (\<exists>snap0. fst (ReadJson (pin_file sid) w) = Inr snap0 \<and> refresh snap0 w = Inr snap) \<and>
        (\<exists>w1 w2 rec. Log ev ty ref data w1 = (Inr rec, w2) \<and> files w' = files w2)
    | Inl e \<Rightarrow> (\<exists>e1 e2. e = EUnwindFailed e1 e2) \<or> file_same (pin_file sid) w w'"
proof (cases "dir_exists (snap_dir sid) w")
  case False
  with assms show ?thesis by (auto simp: snapPath_def bindE_def file_same_def)
next
  case True
  then have path: "snapPath sid w = (Inr (pin_file sid), w)" by (simp add: snapPath_def pin_file_def Let_def)
  obtain rr wr where rd: "ReadJson (pin_file sid) w = (rr, wr)" by (cases "ReadJson (pin_file sid) w")
  have wr: "wr = w" using rd snd_ReadJson [of "pin_file sid" w] by simp
  show ?thesis
  proof (cases rr)
    case (Inl e)
    with assms path rd wr show ?thesis by (auto simp: bindE_def file_same_def)
  next
    case (Inr snap0)
    show ?thesis
    proof (cases "refresh snap0 w")
      case (Inl e)
      with assms path rd wr Inr have "r = Inl e" "w' = w" by (simp_all add: bindE_def)
      then show ?thesis by (simp add: file_same_def)
    next
      case (Inr snap)
      let ?g = "guarded_write (pin_file sid) (WriteJson ev (pin_file sid) snap ''snapshot'') (Log ev ty ref data)"
      obtain rg wg where g: "?g w = (rg, wg)" by (cases "?g w")
      from assms path rd wr \<open>rr = Inr snap0\<close> Inr g
      have r: "r = (case rg of Inl e \<Rightarrow> Inl e | Inr _ \<Rightarrow> Inr snap)" "w' = wg"
        by (auto simp: bindE_def pinThenLog_guarded ret_def split: sum.splits)
      from pin_write.atomic [OF g] show ?thesis
        using r rd \<open>rr = Inr snap0\<close> Inr by (cases rg) auto
    qed
  qed
qed

text \<open>An attachment of a chain either leaves a readable snapshot whose bytes are the refreshed
  manifest, with its event logged, or leaves the snapshot as it was; the only other outcome is the
  error that says the unwind failed.\<close>

theorem attach_chain_atomic:
  "case AttachChainPin refreshManifest ev sid chain w of
     (Inr snap, w') \<Rightarrow> content_of (pin_file sid) w' = DumpIndented snap @ NL \<and>
        (\<exists>snap0. fst (ReadJson (pin_file sid) w) = Inr snap0 \<and>
           refreshManifest (set_field snap0 ''chain'' chain) (snap_dir sid) w = Inr snap) \<and>
        (\<exists>w1 w2 rec. Log ev ''snapshot.chain_attached'' (Some sid) (Some (chain_data chain)) w1 = (Inr rec, w2) \<and>
           files w' = files w2)
   | (Inl e, w') \<Rightarrow> (\<exists>e1 e2. e = EUnwindFailed e1 e2) \<or> file_same (pin_file sid) w w'"
proof (cases "AttachChainPin refreshManifest ev sid chain w")
  case (Pair r w')
  from pin_landed [OF this [unfolded AttachChainPin_def]] Pair show ?thesis by (cases r) auto
qed

text \<open>The same for a deployment.\<close>

lemma attach_deployment_atomic:
  "case AttachDeploymentPin refreshManifest ev sid deployment w of
     (Inr snap, w') \<Rightarrow> content_of (pin_file sid) w' = DumpIndented snap @ NL \<and>
        (\<exists>snap0. fst (ReadJson (pin_file sid) w) = Inr snap0 \<and>
           refreshManifest (set_field snap0 ''deployment'' deployment) (snap_dir sid) w = Inr snap) \<and>
        (\<exists>w1 w2 rec. Log ev ''snapshot.deployment_attached'' (Some sid) (Some (deployment_data deployment)) w1 = (Inr rec, w2) \<and>
           files w' = files w2)
   | (Inl e, w') \<Rightarrow> (\<exists>e1 e2. e = EUnwindFailed e1 e2) \<or> file_same (pin_file sid) w w'"
proof (cases "AttachDeploymentPin refreshManifest ev sid deployment w")
  case (Pair r w')
  from pin_landed [OF this [unfolded AttachDeploymentPin_def]] Pair show ?thesis by (cases r) auto
qed

end
