(* ===== verification/Artifacts.thy ===== *)
theory Artifacts
  imports ExecRecord Notes GateRun
begin

text \<open>
  The artifact registry of \<^verbatim>\<open>internal/state/artifacts*.go\<close>: rows of the state that pin a file by its
  SHA-256, minted, refreshed, retired and reconciled under the save-then-log discipline; the predicate
  that tells whether live evidence still names a row; and the stage ledger of \<^verbatim>\<open>artifacts_stage.go\<close>.
  What the operating system knows about paths is a record: the campaign root, the resolution of
  symbolic links, the name a path has in the modelled store, and whether two directories can be listed.
\<close>

record site =
  Root :: string
  resolvePath :: "string \<Rightarrow> string"
  loc :: "string \<Rightarrow> string"
  toUpper :: "string \<Rightarrow> string"
  errText :: "error \<Rightarrow> string"
  execsReadable :: bool
  findingsReadable :: bool

section \<open>Paths and hashes\<close>

definition first3Upper :: "site \<Rightarrow> string \<Rightarrow> string" where
  "first3Upper pl s = toUpper pl (concat (map encode_rune (take 3 (runes s))))"

fun replace_first :: "string \<Rightarrow> string \<Rightarrow> string \<Rightarrow> string" where
  "replace_first old new [] = (if old = [] then new else [])"
| "replace_first old new (c # cs) =
     (if has_prefix old (c # cs) then new @ drop (length old) (c # cs) else c # replace_first old new cs)"

definition IsAbs :: "string \<Rightarrow> bool" where
  "IsAbs p \<longleftrightarrow> has_prefix [slash] p"

text \<open>\<open>filepath.Join\<close> under a root that is an absolute path keeps the leading separator, and \<open>..\<close> at the
  top goes nowhere.\<close>

fun rooted_step :: "string list \<Rightarrow> string \<Rightarrow> string list" where
  "rooted_step st c =
     (if c = [] \<or> c = ''.'' then st else if c = ''..'' then (case st of [] \<Rightarrow> [] | _ # ds \<Rightarrow> ds) else c # st)"

definition joinRoot :: "string \<Rightarrow> string \<Rightarrow> string" where
  "joinRoot base p =
     (if IsAbs base then slash # join [slash] (rev (foldl rooted_step [] (split_on slash base @ split_on slash p)))
      else JoinPath [base, p])"

definition resolveArtifactPath :: "site \<Rightarrow> value \<Rightarrow> string" where
  "resolveArtifactPath pl a = (let p = ObjStr a ''path'' in if IsAbs p then p else joinRoot (Root pl) p)"

definition ResolveArtifactPathFor :: "site \<Rightarrow> string \<Rightarrow> string" where
  "ResolveArtifactPathFor pl p = (if p = [] then [] else resolveArtifactPath pl (VObj [(''path'', VStr p)]))"

text \<open>\<open>filepath.Rel\<close> of two clean absolute paths, as far as the registry asks: the rest below the base, or
  nothing when the relative path would begin with a component \<open>..\<close>.\<close>

definition path_parts :: "string \<Rightarrow> string list" where
  "path_parts p = filter (\<lambda>c. c \<noteq> []) (split_on slash p)"

fun below :: "string list \<Rightarrow> string list \<Rightarrow> string list option" where
  "below [] targ = Some targ"
| "below (b # bs) [] = None"
| "below (b # bs) (t # ts) = (if b = t then below bs ts else None)"

definition stored_path :: "site \<Rightarrow> string \<Rightarrow> string" where
  "stored_path pl path =
     (let resolved = resolvePath pl path in
      case below (path_parts (resolvePath pl (Root pl))) (path_parts resolved) of
        Some [] \<Rightarrow> ''.''
      | Some cs \<Rightarrow> join [slash] cs
      | None \<Rightarrow> resolved)"

definition Sha256File :: "string \<Rightarrow> string op" where
  "Sha256File p = bindE (ReadFile p) (\<lambda>raw. ret (Sha256Hex raw))"

section \<open>Rows\<close>

definition artifact_rows :: "value \<Rightarrow> value list" where
  "artifact_rows st = vA (ObjAt st ''artifacts'')"

definition with_rows :: "value \<Rightarrow> value list \<Rightarrow> value" where
  "with_rows st rows = set_field st ''artifacts'' (setA (ObjAt st ''artifacts'') rows)"

definition has_artifact_id :: "string \<Rightarrow> value \<Rightarrow> bool" where
  "has_artifact_id i a \<longleftrightarrow> ObjStr a ''artifact_id'' = i"

definition UnknownArtifactError :: "string \<Rightarrow> error" where
  "UnknownArtifactError i = ERefused ''unknown artifact'' [PyReprStr i]"

definition Artifact :: "env \<Rightarrow> string \<Rightarrow> value op" where
  "Artifact ev artifactID = bindE (State ev) (\<lambda>st.
     case find (has_artifact_id artifactID) (artifact_rows st) of
       Some a \<Rightarrow> ret a
     | None \<Rightarrow> fail (UnknownArtifactError artifactID))"

text \<open>The first row that satisfies a condition is dropped, or replaced.\<close>

fun drop_first :: "('a \<Rightarrow> bool) \<Rightarrow> 'a list \<Rightarrow> 'a list" where
  "drop_first P [] = []"
| "drop_first P (a # as) = (if P a then as else a # drop_first P as)"

fun put_first :: "('a \<Rightarrow> bool) \<Rightarrow> 'a \<Rightarrow> 'a list \<Rightarrow> 'a list" where
  "put_first P x [] = []"
| "put_first P x (a # as) = (if P a then x # as else a # put_first P x as)"

definition artifact_row ::
    "site \<Rightarrow> env \<Rightarrow> string \<Rightarrow> string \<Rightarrow> string \<Rightarrow> string \<Rightarrow> string option \<Rightarrow> string \<Rightarrow> string \<Rightarrow> value" where
  "artifact_row pl ev i kind path note snapshotID t sha =
     VObj [(''artifact_id'', VStr i), (''kind'', VStr kind), (''path'', VStr (stored_path pl path)),
           (''registered_at'', VStr t), (''sha256'', VStr sha),
           (''snapshot_id'', (case snapshotID of None \<Rightarrow> VNull | Some s \<Rightarrow> VStr s)), (''note'', VStr note),
           (''framework_build'', VStr (build ev))]"

section \<open>Registering and retiring\<close>

text \<open>Sixteen random bytes make the identifier.\<close>

definition artifact_id :: "site \<Rightarrow> nat list \<Rightarrow> string \<Rightarrow> string" where
  "artifact_id pl bytes16 kind = replace_first ''ART-'' (first3Upper pl kind @ ''-'') (newId bytes16 ''ART'' 8)"

definition RegisterArtifact ::
    "site \<Rightarrow> env \<Rightarrow> nat list \<Rightarrow> string \<Rightarrow> string \<Rightarrow> string \<Rightarrow> string option \<Rightarrow> string op" where
  "RegisterArtifact pl ev bytes16 kind path note snapshotID = with_lock
     (bindE rawState (\<lambda>prevRaw. catchE (stat_file (loc pl path)) (\<lambda>r. case r of
         Inl _ \<Rightarrow> fail (EOther path)
       | Inr _ \<Rightarrow>
           let i = artifact_id pl bytes16 kind in
           bindE (Sha256File (loc pl path)) (\<lambda>sha.
           bindE (nowIso ev) (\<lambda>t.
           bindE (State ev) (\<lambda>st.
             let rec = artifact_row pl ev i kind path note snapshotID t sha in
             bindE (saveThenLog ev prevRaw (with_rows st (artifact_rows st @ [rec])) ''artifact.registered'' (Some i)
                      (VObj [(''kind'', VStr kind), (''path'', VStr path)])) (\<lambda>_. ret i)))))))"

definition pruned_data :: "value \<Rightarrow> string \<Rightarrow> value" where
  "pruned_data rec reason = VObj [(''kind'', ObjAt rec ''kind''), (''path'', ObjAt rec ''path''), (''reason'', VStr reason)]"

definition PruneArtifact :: "env \<Rightarrow> string \<Rightarrow> string \<Rightarrow> value op" where
  "PruneArtifact ev artifactID reason = with_lock
     (bindE rawState (\<lambda>prevRaw.
      bindE (State ev) (\<lambda>st.
        case find (has_artifact_id artifactID) (artifact_rows st) of
          None \<Rightarrow> fail (UnknownArtifactError artifactID)
        | Some rec \<Rightarrow>
            bindE (saveThenLog ev prevRaw (with_rows st (drop_first (has_artifact_id artifactID) (artifact_rows st)))
                     ''artifact.pruned'' (Some artifactID) (pruned_data rec reason)) (\<lambda>_. ret rec))))"

section \<open>Refreshing\<close>

text \<open>The count is an \<open>int64\<close>; an integer that does not fit one counts from zero.\<close>

definition refresh_count :: "value \<Rightarrow> string \<Rightarrow> int" where
  "refresh_count a key = (case ObjAt a key of
       VInt i \<Rightarrow> i
     | VBigInt s \<Rightarrow> (case ParseInt64 s of Some i \<Rightarrow> i | None \<Rightarrow> 0)
     | _ \<Rightarrow> 0)"

definition migrated_kind :: "string \<Rightarrow> value \<Rightarrow> bool" where
  "migrated_kind newKind a \<longleftrightarrow> newKind \<noteq> [] \<and> ObjStr a ''kind'' \<noteq> newKind"

definition refreshed_row :: "value \<Rightarrow> string \<Rightarrow> string \<Rightarrow> string \<Rightarrow> string \<Rightarrow> value" where
  "refreshed_row a newKind sha t reason =
     (let a1 = (if migrated_kind newKind a then set_field a ''kind'' (VStr newKind) else a);
          a2 = set_field a1 ''sha256'' (VStr sha);
          a3 = set_field a2 ''refreshed_at'' (VStr t);
          a4 = set_field a3 ''refresh_reason'' (VStr reason)
      in set_field a4 ''refresh_count'' (VInt (wrap64 (refresh_count a ''refresh_count'' + 1))))"

definition refreshed_data :: "value \<Rightarrow> value \<Rightarrow> string \<Rightarrow> string \<Rightarrow> string \<Rightarrow> string \<Rightarrow> value" where
  "refreshed_data a row newKind sha actor reason =
     VObj ([(''kind'', ObjAt row ''kind''), (''actor'', VStr actor), (''reason'', VStr reason),
            (''old_sha256'', ObjAt a ''sha256''), (''new_sha256'', VStr sha),
            (''refresh_count'', VInt (wrap64 (refresh_count a ''refresh_count'' + 1)))] @
           (if migrated_kind newKind a
            then [(''kind_migrated'', VStr (ObjStr a ''kind'' @ encode_rune 0x2192 @ newKind))] else []))"

definition refreshArtifact :: "site \<Rightarrow> env \<Rightarrow> string \<Rightarrow> string \<Rightarrow> string \<Rightarrow> string \<Rightarrow> value op" where
  "refreshArtifact pl ev artifactID reason actor0 newKind =
     (let actor = (if actor0 = [] then ''operator'' else actor0) in
      bindE (State ev) (\<lambda>st. case find (has_artifact_id artifactID) (artifact_rows st) of
          None \<Rightarrow> fail (UnknownArtifactError artifactID)
        | Some a \<Rightarrow>
            let p = resolveArtifactPath pl a in
            catchE (stat_file (loc pl p)) (\<lambda>r. case r of
                Inl _ \<Rightarrow> fail (ERefused ''artifact file missing, cannot refresh'' [p])
              | Inr _ \<Rightarrow>
                  bindE (guard (\<not> (reason = [] \<or> TrimSpace reason = [])) (ERefused ''refresh_artifact requires a written reason'' [])) (\<lambda>_.
                  bindE (Sha256File (loc pl p)) (\<lambda>sha.
                  bindE (nowIso ev) (\<lambda>t.
                    let row = refreshed_row a newKind sha t reason in
                    bindE rawState (\<lambda>prevRaw.
                    bindE (saveThenLog ev prevRaw (with_rows st (put_first (has_artifact_id artifactID) row (artifact_rows st)))
                             ''artifact.refreshed'' (Some artifactID) (refreshed_data a row newKind sha actor reason)) (\<lambda>_.
                      ret row))))))))"

definition RefreshArtifact :: "site \<Rightarrow> env \<Rightarrow> string \<Rightarrow> string \<Rightarrow> string \<Rightarrow> value op" where
  "RefreshArtifact pl ev artifactID reason actor = with_lock (refreshArtifact pl ev artifactID reason actor [])"

end
