(* ===== verification/Citations.thy ===== *)
theory Citations
  imports Artifacts
begin

text \<open>
  Does live evidence still name a registry row? (\<^verbatim>\<open>internal/state/artifacts_citation.go\<close>.) A row is
  cited by content, when a \<^verbatim>\<open>harness_run\<close> event or the run it names pins the row's SHA-256, or by identity,
  when an event, the invariants registry or a finding names the row's id. Each arm answers with the
  sentence it gives as its reason, and a source that cannot be read is an error. On it rest one row per
  path (\<^verbatim>\<open>artifacts_register.go\<close>), the batch re-hash and the pinned read (\<^verbatim>\<open>artifacts_reconcile.go\<close>), and
  the stage ledger (\<^verbatim>\<open>artifacts_stage.go\<close>).
\<close>

section \<open>By content\<close>

definition eventSeq :: "value \<Rightarrow> string" where
  "eventSeq e = (let s = ObjAt e ''seq'' in if vkind s = KInt then FormatInt (vI s) else ''?'')"

definition event_is :: "string \<Rightarrow> value \<Rightarrow> bool" where
  "event_is ty e \<longleftrightarrow> ObjStr e ''type'' = ty"

definition pins_of :: "value \<Rightarrow> string \<Rightarrow> value list" where
  "pins_of rec key = (let m = ObjAt rec key in if vkind m = KObj then map snd (vO m) else [])"

definition artifactExecPins :: "value \<Rightarrow> string \<Rightarrow> bool" where
  "artifactExecPins rec dig \<longleftrightarrow> dig \<noteq> [] \<and>
     list_ex (\<lambda>v. vkind v = KStr \<and> vS v = dig) (pins_of rec ''input_hashes'' @ pins_of rec ''artifact_hashes'')"

definition named_execs :: "value list \<Rightarrow> string list" where
  "named_execs events = filter (\<lambda>i. i \<noteq> []) (map (\<lambda>e. ObjStr (ObjAt e ''data'') ''exec'') (filter (event_is ''harness_run'') events))"

definition ArtifactCitedExecIDs :: "site \<Rightarrow> value list \<Rightarrow> string \<Rightarrow> string list op" where
  "ArtifactCitedExecIDs pl events dig =
     (let named = named_execs events in
      if dig = [] \<or> named = [] then ret []
      else bindE (AllExecs (execsReadable pl)) (\<lambda>execs.
             ret (map (\<lambda>rec. ObjStr rec ''exec_id'')
                    (filter (\<lambda>rec. ObjStr rec ''exec_id'' \<in> set named \<and> artifactExecPins rec dig) execs))))"

definition ArtifactEventCitesDig :: "value \<Rightarrow> string \<Rightarrow> string list \<Rightarrow> bool" where
  "ArtifactEventCitesDig d dig citedExecs =
     (if dig = [] then False
      else if ObjStr d ''report_sha256'' = dig then True
      else let i = ObjStr d ''exec'' in i \<noteq> [] \<and> i \<in> set citedExecs)"

definition sha_reason :: "value \<Rightarrow> string \<Rightarrow> string" where
  "sha_reason e dig =
     (let d = ObjAt e ''data'';
          iid = (if ObjStr d ''invariant'' = [] then ''an invariant the event does not name'' else ObjStr d ''invariant'')
      in if ObjStr d ''report_sha256'' = dig
         then ''harness_run event '' @ eventSeq e @ '' for '' @ iid @ '' pins this row's sha256 as its report bytes''
         else ''harness_run event '' @ eventSeq e @ '' for '' @ iid @ '' names exec '' @ ObjStr d ''exec''
           @ '', whose record pins this row's sha256 as the bytes the run took in'')"

definition artifactShaCitedRow :: "site \<Rightarrow> value list \<Rightarrow> string \<Rightarrow> string option op" where
  "artifactShaCitedRow pl events dig =
     (if dig = [] then ret None
      else bindE (ArtifactCitedExecIDs pl events dig) (\<lambda>pins.
        ret (map_option (\<lambda>e. sha_reason e dig)
               (find (\<lambda>e. event_is ''harness_run'' e \<and> ArtifactEventCitesDig (ObjAt e ''data'') dig pins) events))))"

section \<open>By identity, in the ledger\<close>

text \<open>A scaffold is live when a \<^verbatim>\<open>harness_run\<close> of its invariant, and of its kind where both say one,
  re-reads it.\<close>

definition scaffoldRefIsLive :: "value list \<Rightarrow> value \<Rightarrow> bool" where
  "scaffoldRefIsLive events scaffold \<longleftrightarrow>
     (let iid = ObjStr scaffold ''invariant''; kind = ObjStr scaffold ''kind'' in
      iid \<noteq> [] \<and> list_ex (\<lambda>e. event_is ''harness_run'' e \<and>
        (let d = ObjAt e ''data''; evKind = ObjStr d ''kind'' in
         ObjStr d ''invariant'' = iid \<and> (evKind = [] \<or> kind = [] \<or> evKind = kind))) events)"

definition scaffold_reason :: "value \<Rightarrow> string" where
  "scaffold_reason e =
     (let d = ObjAt e ''data'';
          label = (if ObjStr d ''artifact_id'' = [] then ''an unnamed scaffold'' else ObjStr d ''artifact_id'');
          kind = (if ObjStr d ''kind'' = [] then ''unstated-kind'' else ObjStr d ''kind'')
      in ''harness_scaffold event '' @ eventSeq e @ '' refs this row as '' @ label @ sq @ ''s '' @ kind
         @ '' scaffold, which the live harness_run bind for '' @ ObjStr d ''invariant'' @ '' re-reads'')"

definition event_reason :: "value list \<Rightarrow> string \<Rightarrow> value \<Rightarrow> string option" where
  "event_reason events i e =
     (let d = ObjAt e ''data''; ref = ObjStr e ''ref'' in
      if event_is ''harness_scaffold'' e then
        (if ref \<noteq> i \<or> \<not> scaffoldRefIsLive events d then None else Some (scaffold_reason e))
      else if event_is ''invariant.verified'' e then
        (if ObjStr d ''artifact'' = i then Some (''invariant.verified event '' @ eventSeq e @ '' binds this row to ''
           @ ref @ '' as its CHECKED_AGAINST_CODE artifact'') else None)
      else if event_is ''invariant.linked_test'' e then
        (if ObjStr d ''artifact'' = i then Some (''invariant.linked_test event '' @ eventSeq e
           @ '' registers this row as a test artifact of '' @ ref) else None)
      else if event_is ''invariant.contradicted'' e then
        (if ObjStr d ''evidence'' = i then Some (''invariant.contradicted event '' @ eventSeq e @ '' names this row as ''
           @ ref @ sq @ ''s contradiction anchor'') else None)
      else if event_is ''finding.impact_quantified'' e then
        (if ObjStr d ''artifact_id'' = i then Some (''finding.impact_quantified event '' @ eventSeq e
           @ '' names this row as the artifact quantifying '' @ ref) else None)
      else None)"

text \<open>The first reason of a list, in order.\<close>

fun first_some :: "('a \<Rightarrow> 'b option) \<Rightarrow> 'a list \<Rightarrow> 'b option" where
  "first_some f [] = None"
| "first_some f (x # xs) = (case f x of Some y \<Rightarrow> Some y | None \<Rightarrow> first_some f xs)"

definition artifactIDCitedByEvents :: "value list \<Rightarrow> string \<Rightarrow> string option" where
  "artifactIDCitedByEvents events i = first_some (event_reason events i) events"

section \<open>By identity, in the stores\<close>

definition LinksPath :: string where "LinksPath = ''artifacts/invariant_links.json''"

definition citationLinks :: "value op" where
  "citationLinks = catchE (ReadFile LinksPath) (\<lambda>r. case r of
       Inl e \<Rightarrow> if is_not_exist e then ret VNull else fail (ERefused ''the invariants registry cannot be read'' [LinksPath])
     | Inr raw \<Rightarrow> parseE raw (ERefused ''the invariants registry does not parse'' [LinksPath]))"

fun read_findings :: "string list \<Rightarrow> value list op" where
  "read_findings [] = ret []"
| "read_findings (p # ps) =
     catchE (ReadFile p) (\<lambda>r. case r of
         Inl e \<Rightarrow> fail (ERefused ''the finding cannot be read'' [p])
       | Inr raw \<Rightarrow> bindE (parseE raw (ERefused ''the finding does not parse'' [p])) (\<lambda>f.
           bindE (read_findings ps) (\<lambda>fs. ret (f # fs))))"

definition citationFindings :: "site \<Rightarrow> value list op" where
  "citationFindings pl = catchE (ListPrefixedOptional (findingsReadable pl) FindingsDir ''F-'' ''.json'') (\<lambda>r. case r of
       Inl e \<Rightarrow> fail (ERefused ''the findings store cannot be listed'' [FindingsDir])
     | Inr paths \<Rightarrow> read_findings paths)"

definition arrHasStr :: "value \<Rightarrow> string \<Rightarrow> bool" where
  "arrHasStr v want \<longleftrightarrow> list_ex (\<lambda>e. vkind e = KStr \<and> vS e = want) (vA v)"

definition link_reason :: "string \<Rightarrow> string \<times> value \<Rightarrow> string option" where
  "link_reason i entry =
     (let iid = fst entry; e = snd entry in
      if vkind e \<noteq> KObj then None
      else if ObjStr e ''verified_by'' = i then Some (iid @ '' links this row as its verified_by artifact (CHECKED_AGAINST_CODE)'')
      else if ObjStr e ''contradiction'' = i then Some (iid @ '' names this row as its contradiction anchor'')
      else if arrHasStr (ObjAt e ''tests'') i then Some (iid @ '' lists this row among its test artifacts'')
      else None)"

definition named_item :: "string \<Rightarrow> string \<Rightarrow> string \<Rightarrow> string \<Rightarrow> string \<Rightarrow> value \<Rightarrow> string option" where
  "named_item i fid what key unnamed item =
     (if ObjStr item ''artifact_id'' \<noteq> i then None
      else Some (''finding '' @ fid @ what @ (if ObjStr item key = [] then unnamed else ObjStr item key)
        @ '' names this row as its artifact_id''))"

definition finding_reason :: "string \<Rightarrow> value \<Rightarrow> string option" where
  "finding_reason i f =
     (let fid = ObjStr f ''finding_id'' in
      case first_some (named_item i fid '' evidence '' ''evidence_id'' ''an unnamed item'') (vA (ObjAt f ''evidence'')) of
        Some why \<Rightarrow> Some why
      | None \<Rightarrow> first_some (named_item i fid '' reproduction attempt '' ''attempt_id'' ''an unnamed attempt'')
                  (vA (ObjAt (ObjAt (ObjAt f ''verification'') ''reproduction'') ''attempts'')))"

definition artifactIDCitedByRegistry :: "site \<Rightarrow> string \<Rightarrow> string option op" where
  "artifactIDCitedByRegistry pl i =
     bindE citationLinks (\<lambda>links. case first_some (link_reason i) (vO (ObjAt links ''invariants'')) of
         Some why \<Rightarrow> ret (Some why)
       | None \<Rightarrow> bindE (citationFindings pl) (\<lambda>fs. ret (first_some (finding_reason i) fs)))"

section \<open>The predicate\<close>

text \<open>Every arm is consulted; the reasons are joined. No reason means not cited.\<close>

definition option_list :: "'a option \<Rightarrow> 'a list" where
  "option_list x = (case x of None \<Rightarrow> [] | Some y \<Rightarrow> [y])"

definition ArtifactCitedByLiveBinds :: "site \<Rightarrow> env \<Rightarrow> string \<Rightarrow> string option op" where
  "ArtifactCitedByLiveBinds pl ev i =
     (if i = [] then ret None
      else bindE (State ev) (\<lambda>st. case find (has_artifact_id i) (artifact_rows st) of
          None \<Rightarrow> ret None
        | Some row \<Rightarrow> bindE Events (\<lambda>events.
            bindE (artifactShaCitedRow pl events (ObjStr row ''sha256'')) (\<lambda>why1.
            bindE (artifactIDCitedByRegistry pl i) (\<lambda>why3.
              let whys = option_list why1 @ option_list (artifactIDCitedByEvents events i) @ option_list why3 in
              ret (if whys = [] then None else Some (join ''; '' whys)))))))"

section \<open>Register or refresh\<close>

record KeptGhost =
  ArtifactID :: string
  Kind :: string
  Citation :: string

definition same_path :: "site \<Rightarrow> string \<Rightarrow> value \<Rightarrow> bool" where
  "same_path pl resolved a \<longleftrightarrow> resolvePath pl (resolveArtifactPath pl a) = resolved"

text \<open>The latest registration; the first one wins ties.\<close>

definition latest_row :: "value \<Rightarrow> value list \<Rightarrow> value" where
  "latest_row a rows = foldl (\<lambda>latest a. if ObjStr a ''registered_at'' > ObjStr latest ''registered_at'' then a else latest) a rows"

text \<open>The selection of \<open>artifactRowCurrent\<close> starts from no row and prefers any object to what is none.\<close>

definition current_row :: "value list \<Rightarrow> value" where
  "current_row rows = foldl (\<lambda>latest a. if vkind latest \<noteq> KObj \<or> ObjStr a ''registered_at'' > ObjStr latest ''registered_at''
     then a else latest) VNull rows"

definition superseded :: "string \<Rightarrow> string" where
  "superseded kind = ''superseded: same path re-registered as kind '' @ (if kind = [] then ''the requested kind'' else kind)"

definition unread_citation :: "site \<Rightarrow> error \<Rightarrow> string" where
  "unread_citation pl e = ''the citation check could not read the campaign'' @ sq @ ''s evidence ('' @ errText pl e @ '')''"

fun prune_ghosts :: "site \<Rightarrow> env \<Rightarrow> string \<Rightarrow> string \<Rightarrow> value list \<Rightarrow> KeptGhost list op" where
  "prune_ghosts pl ev kind latestID [] = ret []"
| "prune_ghosts pl ev kind latestID (a # as) =
     (let i = ObjStr a ''artifact_id'' in
      if i = latestID then prune_ghosts pl ev kind latestID as
      else catchE (ArtifactCitedByLiveBinds pl ev i) (\<lambda>r. case r of
          Inl cerr \<Rightarrow> bindE (prune_ghosts pl ev kind latestID as) (\<lambda>kept.
            ret (\<lparr>ArtifactID = i, Kind = ObjStr a ''kind'', Citation = unread_citation pl cerr\<rparr> # kept))
        | Inr (Some why) \<Rightarrow> bindE (prune_ghosts pl ev kind latestID as) (\<lambda>kept.
            ret (\<lparr>ArtifactID = i, Kind = ObjStr a ''kind'', Citation = why\<rparr> # kept))
        | Inr None \<Rightarrow> bindE (PruneArtifact ev i (superseded kind)) (\<lambda>_. prune_ghosts pl ev kind latestID as)))"

definition RegisterOrRefreshKeptGhosts ::
    "site \<Rightarrow> env \<Rightarrow> nat list \<Rightarrow> string \<Rightarrow> string \<Rightarrow> string \<Rightarrow> string option \<Rightarrow> string \<Rightarrow> (string \<times> KeptGhost list) op" where
  "RegisterOrRefreshKeptGhosts pl ev bytes16 kind path note snapshotID reason = with_lock
     (catchE (stat_file (loc pl path)) (\<lambda>r. case r of
         Inl _ \<Rightarrow> fail (EOther path)
       | Inr _ \<Rightarrow> bindE (State ev) (\<lambda>st.
           case filter (same_path pl (resolvePath pl path)) (artifact_rows st) of
             [] \<Rightarrow> bindE (RegisterArtifact pl ev bytes16 kind path note snapshotID) (\<lambda>i. ret (i, []))
           | a # as \<Rightarrow>
               let latest = latest_row a as;
                   latestID = ObjStr latest ''artifact_id'';
                   migrate = (if kind = [] \<or> ObjStr latest ''kind'' = kind then [] else kind)
               in bindE (prune_ghosts pl ev kind latestID (a # as)) (\<lambda>kept.
                  bindE (refreshArtifact pl ev latestID reason ''operator'' migrate) (\<lambda>_. ret (latestID, kept))))))"

definition RegisterOrRefresh ::
    "site \<Rightarrow> env \<Rightarrow> nat list \<Rightarrow> string \<Rightarrow> string \<Rightarrow> string \<Rightarrow> string option \<Rightarrow> string \<Rightarrow> string op" where
  "RegisterOrRefresh pl ev bytes16 kind path note snapshotID reason =
     bindE (RegisterOrRefreshKeptGhosts pl ev bytes16 kind path note snapshotID reason) (\<lambda>(i, _). ret i)"

definition artifactRowCurrent :: "site \<Rightarrow> env \<Rightarrow> string \<Rightarrow> string \<Rightarrow> (string \<times> bool) op" where
  "artifactRowCurrent pl ev kind path = bindE (State ev) (\<lambda>st.
     let latest = current_row (filter (same_path pl (resolvePath pl path)) (artifact_rows st));
         i = ObjStr latest ''artifact_id'' in
     if vkind latest \<noteq> KObj then ret ([], False)
     else if kind \<noteq> [] \<and> ObjStr latest ''kind'' \<noteq> kind then ret (i, False)
     else catchE (Sha256File (loc pl path)) (\<lambda>r. case r of
         Inl _ \<Rightarrow> ret (i, False)
       | Inr sha \<Rightarrow> ret (i, sha \<noteq> [] \<and> ObjStr latest ''sha256'' = sha)))"

definition RegisterOrRefreshIfChanged ::
    "site \<Rightarrow> env \<Rightarrow> nat list \<Rightarrow> string \<Rightarrow> string \<Rightarrow> string \<Rightarrow> string option \<Rightarrow> string \<Rightarrow> (string \<times> bool) op" where
  "RegisterOrRefreshIfChanged pl ev bytes16 kind path note snapshotID reason = with_lock
     (bindE (artifactRowCurrent pl ev kind path) (\<lambda>(currentID, current).
        if current then ret (currentID, False)
        else bindE (RegisterOrRefreshKeptGhosts pl ev bytes16 kind path note snapshotID reason) (\<lambda>(i, _). ret (i, True))))"

section \<open>Reconcile\<close>

record reconciled =
  rc_refreshed :: "string list"
  rc_unchanged :: int
  rc_missing :: "(string \<times> string) list"

definition reconcileReason :: string where "reconcileReason = ''reconcile after external rewrite''"

fun reconcile_rows :: "site \<Rightarrow> env \<Rightarrow> bool \<Rightarrow> value list \<Rightarrow> reconciled \<Rightarrow> reconciled op" where
  "reconcile_rows pl ev dry [] acc = ret acc"
| "reconcile_rows pl ev dry (a # as) acc =
     (let i = ObjStr a ''artifact_id''; p = resolveArtifactPath pl a; stored = ObjAt a ''sha256'' in
      catchE (stat_file (loc pl p)) (\<lambda>r. case r of
          Inl _ \<Rightarrow> reconcile_rows pl ev dry as (acc\<lparr>rc_missing := rc_missing acc @ [(i, p)]\<rparr>)
        | Inr _ \<Rightarrow>
            if vkind stored \<noteq> KStr \<or> vS stored = []
            then reconcile_rows pl ev dry as (acc\<lparr>rc_unchanged := rc_unchanged acc + 1\<rparr>)
            else bindE (Sha256File (loc pl p)) (\<lambda>actual.
              if actual = vS stored then reconcile_rows pl ev dry as (acc\<lparr>rc_unchanged := rc_unchanged acc + 1\<rparr>)
              else bindE (if dry then ret () else bindE (RefreshArtifact pl ev i reconcileReason ''operator'') (\<lambda>_. ret ())) (\<lambda>_.
                reconcile_rows pl ev dry as (acc\<lparr>rc_refreshed := rc_refreshed acc @ [i]\<rparr>)))))"

definition reconcile_report :: "nat \<Rightarrow> bool \<Rightarrow> reconciled \<Rightarrow> value" where
  "reconcile_report n dry acc =
     VObj [(''checked'', VInt (int n)), (''refreshed'', VArr (map VStr (rc_refreshed acc))),
           (''unchanged'', VInt (rc_unchanged acc)),
           (''missing'', VArr (map (\<lambda>(i, p). VObj [(''artifact_id'', VStr i), (''path'', VStr p)]) (rc_missing acc))),
           (''dry'', VBool dry)]"

definition ReconcileArtifacts :: "site \<Rightarrow> env \<Rightarrow> bool \<Rightarrow> value op" where
  "ReconcileArtifacts pl ev dry = with_lock (bindE (State ev) (\<lambda>st.
     bindE (reconcile_rows pl ev dry (artifact_rows st) \<lparr>rc_refreshed = [], rc_unchanged = 0, rc_missing = []\<rparr>) (\<lambda>acc.
       ret (reconcile_report (length (artifact_rows st)) dry acc))))"

definition ArtifactBytes :: "site \<Rightarrow> value \<Rightarrow> string op" where
  "ArtifactBytes pl row =
     (let p = resolveArtifactPath pl row; stored = ObjStr row ''sha256'' in
      bindE (ReadFile (loc pl p)) (\<lambda>raw.
        if stored = [] then fail (ERefused ''registry row carries no sha to check the bytes against'' [])
        else if Sha256Hex raw \<noteq> stored then fail (ERefused ''registry row pins a sha the file does not have'' [stored, p, Sha256Hex raw])
        else ret raw))"

section \<open>The stage ledger\<close>

definition StageStatus :: "env \<Rightarrow> string \<Rightarrow> value op" where
  "StageStatus ev stage = bindE (State ev) (\<lambda>st.
     let e = ObjAt (ObjAt st ''stages'') stage in
     ret (if vkind e \<noteq> KNull then e else VObj [(''status'', VStr ''pending'')]))"

definition fresh_stage :: "value" where
  "fresh_stage = VObj [(''status'', VStr ''pending''), (''attempts'', VInt 0), (''last_run_at'', VNull),
     (''note'', VStr []), (''executor'', VNull)]"

definition counts_attempt :: "string \<Rightarrow> bool" where
  "counts_attempt status \<longleftrightarrow> status = ''needs-model'' \<or> status = ''done'' \<or> status = ''failed''"

definition stage_entry :: "value \<Rightarrow> string \<Rightarrow> string \<Rightarrow> value \<Rightarrow> string option \<Rightarrow> value" where
  "stage_entry entry status t note executor =
     (let e1 = set_field entry ''status'' (VStr status);
          n = refresh_count e1 ''attempts'';
          e2 = set_field e1 ''attempts'' (VInt (if counts_attempt status then wrap64 (n + 1) else n));
          e3 = set_field e2 ''last_run_at'' (VStr t);
          e4 = (if PyTruthy note then set_field e3 ''note'' (VStr (capNote note)) else e3)
      in case executor of
           Some x \<Rightarrow> if x \<noteq> [] then set_field e4 ''executor'' (VStr x) else e4
         | None \<Rightarrow> e4)"

definition SetStage :: "env \<Rightarrow> string \<Rightarrow> string \<Rightarrow> value \<Rightarrow> string option \<Rightarrow> unit op" where
  "SetStage ev stage status note executor = with_lock
     (bindE (State ev) (\<lambda>st.
      bindE (nowIso ev) (\<lambda>t.
        let stages = ObjAt st ''stages'';
            entry = (let e = ObjAt stages stage in if vkind e = KNull then fresh_stage else e)
        in SaveState ev (set_field st ''stages'' (set_field stages stage (stage_entry entry status t note executor))))))"

end
