(* ===== verification/ArtifactFacts.thy ===== *)
theory ArtifactFacts
  imports Citations EvidenceFacts
begin

text \<open>
  The triples of the registry: every write of a row ends in the save-then-log move, so it lands in the
  state and on the ledger or in neither. The citation predicate only reads, and what it finds is not
  lost when the ledger grows by events that are none of its arms.
\<close>

section \<open>Rows of the state\<close>

lemma artifact_rows_with [simp]:
  "vkind (ObjAt st ''artifacts'') = KArr \<Longrightarrow> vkind st = KObj \<Longrightarrow> artifact_rows (with_rows st rows) = rows"
  by (simp add: artifact_rows_def with_rows_def)

lemma with_rows_events [simp]: "ObjAt (with_rows st rows) ''events'' = ObjAt st ''events''"
  by (simp add: with_rows_def)

lemma wf_with_rows: "wf_value st \<Longrightarrow> list_all wf_value rows \<Longrightarrow> wf_value (with_rows st rows)"
  unfolding with_rows_def by (intro wf_edits wf_setA) simp_all

lemma wf_artifact_rows: "wf_value st \<Longrightarrow> list_all wf_value (artifact_rows st)"
  unfolding artifact_rows_def by (auto simp: list_all_iff dest: wf_vA [OF wf_ObjAt])

lemma rows_are_array: "artifact_rows st \<noteq> [] \<Longrightarrow> vkind (ObjAt st ''artifacts'') = KArr"
  by (cases "ObjAt st ''artifacts''") (auto simp: artifact_rows_def)

lemma same_fields_rows: "same_fields st st' \<Longrightarrow> artifact_rows st' = artifact_rows st"
  by (simp add: same_fields_def artifact_rows_def)

lemma find_wf: "find P rows = Some a \<Longrightarrow> list_all wf_value rows \<Longrightarrow> wf_value a"
  by (auto simp: find_Some_iff list_all_iff)

lemma find_has_id: "find (has_artifact_id i) rows = Some a \<Longrightarrow> ObjStr a ''artifact_id'' = i \<and> a \<in> set rows"
  by (auto simp: find_Some_iff has_artifact_id_def)

lemma drop_first_subset: "set (drop_first P rows) \<subseteq> set rows"
  by (induction rows) auto

lemma put_first_subset: "set (put_first P x rows) \<subseteq> insert x (set rows)"
  by (induction rows) auto

definition row_ids :: "value list \<Rightarrow> string list" where
  "row_ids rows = map (\<lambda>a. ObjStr a ''artifact_id'') rows"

text \<open>With distinct identifiers the first row is the only one.\<close>

lemma drop_first_distinct:
  "distinct (row_ids rows) \<Longrightarrow> drop_first (has_artifact_id i) rows = filter (\<lambda>a. ObjStr a ''artifact_id'' \<noteq> i) rows"
proof (induction rows)
  case (Cons a rows)
  show ?case
  proof (cases "ObjStr a ''artifact_id'' = i")
    case True
    with Cons.prems have "filter (\<lambda>a. ObjStr a ''artifact_id'' \<noteq> i) rows = rows"
      by (intro filter_True) (force simp: row_ids_def image_iff)
    with True show ?thesis by (simp add: has_artifact_id_def)
  next
    case False
    with Cons show ?thesis by (simp add: has_artifact_id_def row_ids_def)
  qed
qed simp

lemma put_first_map:
  "distinct (row_ids rows) \<Longrightarrow> put_first (has_artifact_id i) x rows = map (\<lambda>a. if ObjStr a ''artifact_id'' = i then x else a) rows"
proof (induction rows)
  case (Cons a rows)
  show ?case
  proof (cases "ObjStr a ''artifact_id'' = i")
    case True
    with Cons.prems have "map (\<lambda>a. if ObjStr a ''artifact_id'' = i then x else a) rows = rows"
      by (intro map_idI) (force simp: row_ids_def image_iff)
    with True show ?thesis by (simp add: has_artifact_id_def)
  next
    case False
    with Cons show ?thesis by (simp add: has_artifact_id_def row_ids_def)
  qed
qed simp

section \<open>Writing rows\<close>

text \<open>The state with new rows, and the event that says why, both on a settled campaign.\<close>

definition rows_post :: "env \<Rightarrow> value \<Rightarrow> value list \<Rightarrow> value list \<Rightarrow> string \<Rightarrow> string \<Rightarrow> value \<Rightarrow> world \<Rightarrow> bool" where
  "rows_post ev st es rows ty i data w \<longleftrightarrow> (\<exists>st'. same_fields (with_rows st rows) st' \<and>
     appended ev st' es (window_ok es (vA (ObjAt st ''events''))) ty (Some i) data w)"

lemma of_files_rows_post: "of_files (rows_post ev st es rows ty i data)"
  unfolding rows_post_def by (intro of_files_rules of_files_appended)

lemma v_write_rows:
  assumes ev: "env_ok ev" and st: "wf_value st" and r: "list_all wf_value rows" and i: "valid_utf8 i" and d: "wf_value data"
    and ty: "valid_utf8 ty" "ty \<noteq> ''completion.waived''"
  shows "valid (healthy ev st es) (bindE (saveThenLog ev (Some (DumpIndented st @ NL)) (with_rows st rows) ty (Some i) data) (\<lambda>_. ret x))
    (\<lambda>y w. y = x \<and> rows_post ev st es rows ty i data w) (may_lag ev st es)"
proof (rule v_bind [OF v_saveThenLog [OF ev _ ty(2) wf_with_rows [OF st r]] v_ret])
  show "args_ok ty (Some i) (Some data)" using i d ty(1) by (simp add: args_ok_def)
qed (auto simp: rows_post_def)

lemma v_step:
  assumes "\<And>w. P w \<Longrightarrow> m w = k w" "valid P k Q E" "keeps_to ledger_grows m"
  shows "valid P m Q E"
  by (rule validI [OF assms(3)]) (use assms(1) valid_run [OF assms(2)] in simp)

lemma grows_stat: "keeps_to ledger_grows (stat_file p)"
  by (rule grows.resp_pure) (simp add: stat_file_def)

lemma grows_Sha256File: "keeps_to ledger_grows (Sha256File p)"
  unfolding Sha256File_def by (intro grows_rules)

lemma grows_option: "keeps_to ledger_grows m \<Longrightarrow> (\<And>x. keeps_to ledger_grows (k x)) \<Longrightarrow> keeps_to ledger_grows (case y of None \<Rightarrow> m | Some x \<Rightarrow> k x)"
  by (cases y) auto

lemma grows_sum: "(\<And>e. keeps_to ledger_grows (m e)) \<Longrightarrow> (\<And>x. keeps_to ledger_grows (k x)) \<Longrightarrow> keeps_to ledger_grows (case y of Inl e \<Rightarrow> m e | Inr x \<Rightarrow> k x)"
  by (cases y) auto

lemmas grows_artifact = grows_rules grows_saveThenLog grows_stat grows_Sha256File grows_option grows_sum

lemma grows_PruneArtifact: "keeps_to ledger_grows (PruneArtifact ev i reason)"
  unfolding PruneArtifact_def by (intro grows_artifact)

lemma grows_RegisterArtifact: "keeps_to ledger_grows (RegisterArtifact pl ev b kind path note snap)"
  unfolding RegisterArtifact_def Let_def by (intro grows_artifact)

lemma grows_refreshArtifact: "keeps_to ledger_grows (refreshArtifact pl ev i reason actor newKind)"
  unfolding refreshArtifact_def Let_def by (intro grows_artifact)

lemma wf_pruned_data: "wf_value rec \<Longrightarrow> valid_utf8 reason \<Longrightarrow> wf_value (pruned_data rec reason)"
  by (simp add: pruned_data_def wf_ObjAt)

lemma v_PruneArtifact:
  assumes ev: "env_ok ev" and u: "valid_utf8 i" "valid_utf8 reason"
  shows "valid (healthy ev st es) (PruneArtifact ev i reason)
    (\<lambda>rec w. find (has_artifact_id i) (artifact_rows st) = Some rec \<and>
       rows_post ev st es (drop_first (has_artifact_id i) (artifact_rows st)) ''artifact.pruned'' i (pruned_data rec reason) w)
    (may_lag ev st es)"
  unfolding PruneArtifact_def
proof (rule v_lock [OF v_with_raw [OF _ v_with_state [OF _ v_healthy_facts [OF ev]]]])
  assume wf: "wf_value st"
  let ?rows = "artifact_rows st"
  show "valid (healthy ev st es) (case find (has_artifact_id i) ?rows of
        None \<Rightarrow> fail (UnknownArtifactError i)
      | Some rec \<Rightarrow> bindE (saveThenLog ev (Some (DumpIndented st @ NL)) (with_rows st (drop_first (has_artifact_id i) ?rows))
            ''artifact.pruned'' (Some i) (pruned_data rec reason)) (\<lambda>_. ret rec))
     (\<lambda>rec w. find (has_artifact_id i) ?rows = Some rec \<and>
       rows_post ev st es (drop_first (has_artifact_id i) ?rows) ''artifact.pruned'' i (pruned_data rec reason) w) (may_lag ev st es)"
  proof (cases "find (has_artifact_id i) ?rows")
    case None
    then show ?thesis by (auto simp: may_lag_def intro!: v_fail)
  next
    case (Some rec)
    have r: "list_all wf_value (drop_first (has_artifact_id i) ?rows)"
      using wf_artifact_rows [OF wf] drop_first_subset [of "has_artifact_id i" ?rows] by (auto simp: list_all_iff)
    have d: "wf_value (pruned_data rec reason)"
      by (rule wf_pruned_data [OF find_wf [OF Some wf_artifact_rows [OF wf]] u(2)])
    show ?thesis using Some by simp (rule v_weaken [OF v_write_rows [OF ev wf r u(1) d]], simp_all)
  qed
qed (intro grows_artifact of_files_rules of_files_may_lag of_files_rows_post | simp add: may_lag_def)+

section \<open>Registering\<close>

text \<open>A healthy campaign in which one file is known.\<close>

definition healthy_with :: "env \<Rightarrow> value \<Rightarrow> value list \<Rightarrow> string \<Rightarrow> fnode option \<Rightarrow> world \<Rightarrow> bool" where
  "healthy_with ev st es q fo w \<longleftrightarrow> healthy ev st es w \<and> kv_find (files w) q = fo"

lemma of_files_healthy_with: "of_files (healthy_with ev st es q fo)"
  unfolding healthy_with_def by (intro of_files_conj of_files_healthy) (simp add: of_files_def)

lemma healthy_withD: "healthy_with ev st es q fo w \<Longrightarrow> healthy ev st es w" "healthy_with ev st es q fo w \<Longrightarrow> kv_find (files w) q = fo"
  by (simp_all add: healthy_with_def)

lemma healthy_rawState: "healthy ev st es w \<Longrightarrow> rawState w = (Inr (Some (DumpIndented st @ NL)), w)"
  by (simp add: healthy_def rawState_def catchE_def ReadFile_def saved_def)

lemma healthy_State: "healthy ev st es w \<Longrightarrow> State ev w = (Inr st, w)"
  by (simp add: healthy_def)

text \<open>Reading the hash of the known file, under the state's raw bytes or under its value.\<close>

definition with_hash :: "fnode option \<Rightarrow> string \<Rightarrow> error \<Rightarrow> (string \<Rightarrow> 'a op) \<Rightarrow> 'a op" where
  "with_hash fo q missing k = (case fo of
       None \<Rightarrow> fail missing
     | Some f \<Rightarrow> if readable f then k (Sha256Hex (content f)) else fail (EAccess q))"

lemma stat_hash:
  assumes "kv_find (files w) q = fo"
  shows "catchE (stat_file q) (\<lambda>r. case r of Inl _ \<Rightarrow> fail missing | Inr _ \<Rightarrow> bindE (Sha256File q) k) w = with_hash fo q missing k w"
  using assms by (cases fo) (auto simp: with_hash_def catchE_def stat_file_def Sha256File_def bindE_def ReadFile_def)

lemma v_with_hash:
  assumes "\<And>f. fo = Some f \<and> readable f \<Longrightarrow> valid P (k (Sha256Hex (content f))) Q E" "\<And>w. P w \<Longrightarrow> E w"
  shows "valid P (with_hash fo q missing k) Q E"
  using assms by (cases fo) (auto simp: with_hash_def intro!: v_if v_fail)

definition registered_data :: "string \<Rightarrow> string \<Rightarrow> value" where
  "registered_data kind path = VObj [(''kind'', VStr kind), (''path'', VStr path)]"

lemma v_RegisterArtifact:
  assumes ev: "env_ok ev" and u: "valid_utf8 kind" "valid_utf8 path" "valid_utf8 note" "case snap of None \<Rightarrow> True | Some s \<Rightarrow> valid_utf8 s"
      "valid_utf8 (artifact_id pl b kind)" "valid_utf8 (stored_path pl path)" "valid_utf8 (build ev)"
  shows "valid (healthy_with ev st es (loc pl path) fo) (RegisterArtifact pl ev b kind path note snap)
    (\<lambda>i w. i = artifact_id pl b kind \<and> (\<exists>f t. fo = Some f \<and>
       rows_post ev st es (artifact_rows st @ [artifact_row pl ev i kind path note snap t (Sha256Hex (content f))])
         ''artifact.registered'' i (registered_data kind path) w))
    (may_lag ev st es)"
  unfolding RegisterArtifact_def
proof (rule v_lock [OF _ of_files_healthy_with])
  let ?i = "artifact_id pl b kind" and ?q = "loc pl path"
  let ?row = "\<lambda>t sha. artifact_row pl ev ?i kind path note snap t sha"
  let ?E = "may_lag ev st es"
  let ?Q = "\<lambda>i w. i = ?i \<and> (\<exists>f t. fo = Some f \<and> rows_post ev st es (artifact_rows st @ [artifact_row pl ev i kind path note snap t (Sha256Hex (content f))])
         ''artifact.registered'' i (registered_data kind path) w)"
  let ?k = "\<lambda>sha. bindE (nowIso ev) (\<lambda>t. bindE (State ev) (\<lambda>st'.
      bindE (saveThenLog ev (Some (DumpIndented st @ NL)) (with_rows st' (artifact_rows st' @ [?row t sha]))
         ''artifact.registered'' (Some ?i) (registered_data kind path)) (\<lambda>_. ret ?i)))"
  let ?m = "bindE rawState (\<lambda>prevRaw. catchE (stat_file ?q) (\<lambda>r. case r of
         Inl _ \<Rightarrow> fail (EOther path)
       | Inr _ \<Rightarrow>
           let i = ?i in
           bindE (Sha256File ?q) (\<lambda>sha.
           bindE (nowIso ev) (\<lambda>t.
           bindE (State ev) (\<lambda>st.
             let rec = artifact_row pl ev i kind path note snap t sha in
             bindE (saveThenLog ev prevRaw (with_rows st (artifact_rows st @ [rec])) ''artifact.registered'' (Some i)
                      (VObj [(''kind'', VStr kind), (''path'', VStr path)])) (\<lambda>_. ret i))))))"
  show "valid (healthy_with ev st es ?q fo) ?m ?Q ?E"
  proof (rule v_step)
    fix w assume h: "healthy_with ev st es ?q fo w"
    show "?m w = with_hash fo ?q (EOther path) ?k w"
      unfolding Let_def bindE_step [where m = rawState, OF healthy_rawState [OF healthy_withD(1) [OF h]]] registered_data_def
      by (rule stat_hash [OF healthy_withD(2) [OF h]])
  next
    show "valid (healthy_with ev st es ?q fo) (with_hash fo ?q (EOther path) ?k) ?Q ?E"
    proof (rule v_with_hash)
      fix f assume fo: "fo = Some f \<and> readable f"
      let ?sha = "Sha256Hex (content f)"
      show "valid (healthy_with ev st es ?q fo) (?k ?sha) ?Q ?E"
      proof (rule v_with_now [OF _ of_files_healthy_with])
        fix t assume "t \<in> range (now ev)"
        then have t: "valid_utf8 t" using ev by (auto simp: env_ok_def clock_ok_def)
        have "valid (healthy ev st es) (bindE (State ev) (\<lambda>st'.
            bindE (saveThenLog ev (Some (DumpIndented st @ NL)) (with_rows st' (artifact_rows st' @ [?row t ?sha]))
              ''artifact.registered'' (Some ?i) (registered_data kind path)) (\<lambda>_. ret ?i))) ?Q ?E"
        proof (rule v_with_state [OF _ v_healthy_facts [OF ev]])
          assume wf: "wf_value st"
          have row: "list_all wf_value (artifact_rows st @ [?row t ?sha])"
            using wf_artifact_rows [OF wf] u t by (simp add: artifact_row_def split: option.splits)
          have d: "wf_value (registered_data kind path)" using u by (simp add: registered_data_def)
          show "valid (healthy ev st es) (bindE (saveThenLog ev (Some (DumpIndented st @ NL)) (with_rows st (artifact_rows st @ [?row t ?sha]))
              ''artifact.registered'' (Some ?i) (registered_data kind path)) (\<lambda>_. ret ?i)) ?Q ?E"
            by (rule v_weaken [OF v_write_rows [OF ev wf row u(5) d]]) (use fo in auto)
        qed (intro grows_artifact)+
        then show "valid (healthy_with ev st es ?q fo) (bindE (State ev) (\<lambda>st'.
            bindE (saveThenLog ev (Some (DumpIndented st @ NL)) (with_rows st' (artifact_rows st' @ [?row t ?sha]))
              ''artifact.registered'' (Some ?i) (registered_data kind path)) (\<lambda>_. ret ?i))) ?Q ?E"
          by (rule v_weaken) (auto dest: healthy_withD)
      qed (intro grows_artifact)
    qed (auto dest: healthy_withD simp: may_lag_def)
  qed (unfold Let_def, intro grows_artifact)
qed (auto simp: may_lag_def dest: healthy_withD intro!: of_files_rules of_files_rows_post of_files_may_lag)

section \<open>Refreshing\<close>

lemma wf_refreshed_row:
  assumes "wf_value a" "valid_utf8 newKind" "valid_utf8 t" "valid_utf8 reason"
  shows "wf_value (refreshed_row a newKind (Sha256Hex s) t reason)"
  using assms unfolding refreshed_row_def Let_def by (intro wf_edits) (auto intro: wf_edits)

lemma wf_refreshed_data:
  assumes "wf_value a" "wf_value row" "valid_utf8 newKind" "valid_utf8 actor" "valid_utf8 reason"
  shows "wf_value (refreshed_data a row newKind (Sha256Hex s) actor reason)"
proof -
  have "valid_utf8 (encode_rune 8594)" using valid_utf8_encode [of "[8594]"] by (simp add: utf8_encode_def valid_rune_def)
  then show ?thesis using assms by (auto simp: refreshed_data_def intro!: valid_utf8_append wf_edits)
qed

definition refresh_post ::
    "env \<Rightarrow> value \<Rightarrow> value list \<Rightarrow> string \<Rightarrow> value \<Rightarrow> fnode option \<Rightarrow> string \<Rightarrow> string \<Rightarrow> string \<Rightarrow> value \<Rightarrow> world \<Rightarrow> bool" where
  "refresh_post ev st es i a fo reason actor newKind row w \<longleftrightarrow> TrimSpace reason \<noteq> [] \<and>
     (\<exists>f t. fo = Some f \<and> readable f \<and> row = refreshed_row a newKind (Sha256Hex (content f)) t reason \<and>
        rows_post ev st es (put_first (has_artifact_id i) row (artifact_rows st)) ''artifact.refreshed'' i
          (refreshed_data a row newKind (Sha256Hex (content f)) (if actor = [] then ''operator'' else actor) reason) w)"

lemma of_files_refresh_post: "of_files (refresh_post ev st es i a fo reason actor newKind row)"
  unfolding refresh_post_def by (intro of_files_rules of_files_rows_post)

lemma v_refreshArtifact:
  assumes ev: "env_ok ev" and a: "find (has_artifact_id i) (artifact_rows st) = Some a"
    and u: "valid_utf8 i" "valid_utf8 reason" "valid_utf8 actor" "valid_utf8 newKind"
  shows "valid (healthy_with ev st es (loc pl (resolveArtifactPath pl a)) fo) (refreshArtifact pl ev i reason actor newKind)
    (refresh_post ev st es i a fo reason actor newKind) (may_lag ev st es)"
proof (rule v_step [OF _ _ grows_refreshArtifact])
  let ?q = "loc pl (resolveArtifactPath pl a)" and ?actor = "if actor = [] then ''operator'' else actor"
  let ?missing = "ERefused ''artifact file missing, cannot refresh'' [resolveArtifactPath pl a]"
  let ?P = "healthy_with ev st es ?q fo"
  let ?put = "\<lambda>sha t. let row = refreshed_row a newKind sha t reason in
      bindE rawState (\<lambda>prevRaw. bindE (saveThenLog ev prevRaw (with_rows st (put_first (has_artifact_id i) row (artifact_rows st)))
          ''artifact.refreshed'' (Some i) (refreshed_data a row newKind sha ?actor reason)) (\<lambda>_. ret row))"
  let ?g = "guard (\<not> (reason = [] \<or> TrimSpace reason = [])) (ERefused ''refresh_artifact requires a written reason'' [])"
  let ?body = "\<lambda>k. catchE (stat_file ?q) (\<lambda>r. case r of Inl _ \<Rightarrow> fail ?missing | Inr _ \<Rightarrow> bindE ?g (\<lambda>_. k))"
  let ?k = "\<lambda>sha. bindE (nowIso ev) (?put sha)"
  show "refreshArtifact pl ev i reason actor newKind w = ?body (bindE (Sha256File ?q) ?k) w" if "?P w" for w
    unfolding refreshArtifact_def Let_def bindE_step [where m = "State ev", OF healthy_State [OF healthy_withD(1) [OF that]]] a option.case
    by (rule refl)
  show "valid ?P (?body (bindE (Sha256File ?q) ?k)) (refresh_post ev st es i a fo reason actor newKind) (may_lag ev st es)"
  proof (cases "TrimSpace reason = []")
    case True
    have "valid ?P (?body (fail (ERefused ''refresh_artifact requires a written reason'' []) :: value op))
        (refresh_post ev st es i a fo reason actor newKind) (may_lag ev st es)"
      by (rule validI) (intro grows_artifact, auto simp: catchE_def stat_file_def bindE_def may_lag_def dest: healthy_withD split: if_splits)
    moreover have "?body (bindE (Sha256File ?q) ?k) = ?body (fail (ERefused ''refresh_artifact requires a written reason'' []))"
      using True by (auto simp: catchE_def stat_file_def bindE_def fun_eq_iff)
    ultimately show ?thesis by metis
  next
    case False
    then have r: "reason \<noteq> []" by (auto simp: TrimSpace_def)
    have body: "?body m = catchE (stat_file ?q) (\<lambda>r. case r of Inl _ \<Rightarrow> fail ?missing | Inr _ \<Rightarrow> m)" for m :: "value op"
    proof -
      have "bindE ?g (\<lambda>_. m) = m" using False r by (simp add: bindE_def guard_def fun_eq_iff)
      then show ?thesis by (simp only:)
    qed
    show ?thesis unfolding body
    proof (rule v_step)
      show "catchE (stat_file ?q) (\<lambda>r. case r of Inl _ \<Rightarrow> fail ?missing | Inr _ \<Rightarrow> bindE (Sha256File ?q) ?k) w = with_hash fo ?q ?missing ?k w"
        if "?P w" for w by (rule stat_hash [OF healthy_withD(2) [OF that]])
      show "keeps_to ledger_grows (catchE (stat_file ?q) (\<lambda>r. case r of Inl _ \<Rightarrow> fail ?missing | Inr _ \<Rightarrow> bindE (Sha256File ?q) ?k))"
        unfolding Let_def by (intro grows_artifact)
      show "valid ?P (with_hash fo ?q ?missing ?k) (refresh_post ev st es i a fo reason actor newKind) (may_lag ev st es)"
      proof (rule v_with_hash)
        fix f assume fo: "fo = Some f \<and> readable f"
        let ?sha = "Sha256Hex (content f)"
        show "valid ?P (?k ?sha) (refresh_post ev st es i a fo reason actor newKind) (may_lag ev st es)"
        proof (rule v_with_now [OF _ of_files_healthy_with])
          fix t assume "t \<in> range (now ev)"
          then have t: "valid_utf8 t" using ev by (auto simp: env_ok_def clock_ok_def)
          let ?row = "refreshed_row a newKind ?sha t reason"
          have "valid (healthy ev st es) (?put ?sha t) (refresh_post ev st es i a fo reason actor newKind) (may_lag ev st es)"
            unfolding Let_def
          proof (rule v_with_raw [OF _ v_healthy_facts [OF ev]])
            assume wf: "wf_value st"
            have wa: "wf_value a" by (rule find_wf [OF a wf_artifact_rows [OF wf]])
            have row: "wf_value ?row" by (rule wf_refreshed_row [OF wa u(4) t u(2)])
            have rows: "list_all wf_value (put_first (has_artifact_id i) ?row (artifact_rows st))"
              using wf_artifact_rows [OF wf] row put_first_subset [of "has_artifact_id i" ?row "artifact_rows st"] by (auto simp: list_all_iff)
            have d: "wf_value (refreshed_data a ?row newKind ?sha ?actor reason)"
              by (rule wf_refreshed_data [OF wa row u(4) _ u(2)]) (use u(3) in simp)
            show "valid (healthy ev st es) (bindE (saveThenLog ev (Some (DumpIndented st @ NL))
                (with_rows st (put_first (has_artifact_id i) ?row (artifact_rows st))) ''artifact.refreshed'' (Some i)
                (refreshed_data a ?row newKind ?sha ?actor reason)) (\<lambda>_. ret ?row))
              (refresh_post ev st es i a fo reason actor newKind) (may_lag ev st es)"
              by (rule v_weaken [OF v_write_rows [OF ev wf rows u(1) d]]) (use fo False in \<open>auto simp: refresh_post_def\<close>)
          qed (intro grows_artifact)+
          then show "valid ?P (?put ?sha t) (refresh_post ev st es i a fo reason actor newKind) (may_lag ev st es)"
            by (rule v_weaken) (auto dest: healthy_withD)
        qed (unfold Let_def, intro grows_artifact)
      qed (auto dest: healthy_withD simp: may_lag_def)
    qed
  qed
qed

end
