(* ===== verification/CitationFacts.thy ===== *)
theory CitationFacts
  imports ArtifactFacts
begin

text \<open>
  A citation outlives the registry's own writes: it is read off the ledger's events, the row itself and
  files that a registry operation does not touch, and the events such an operation adds are none of its
  arms. The listings are compared as sets, which is all that the arms look at.
\<close>

section \<open>Listings\<close>

lemma first_some_None: "first_some f xs = None \<longleftrightarrow> (\<forall>x\<in>set xs. f x = None)"
  by (induction xs) (auto split: option.splits)

lemma find_None: "find P xs = None \<longleftrightarrow> (\<forall>x\<in>set xs. \<not> P x)"
  by (auto simp: find_None_iff)

lemma files_keys: "p \<in> set (map fst (files w)) \<longleftrightarrow> kv_find (files w) p \<noteq> None"
  by (simp add: kv_find_None_iff)

lemma aside_find: "aside fs w \<Longrightarrow> aside fs w' \<Longrightarrow> p \<noteq> EventsPath \<Longrightarrow> p \<noteq> StatePath \<Longrightarrow> kv_find (files w') p = kv_find (files w) p"
  by (simp add: aside_def)

lemma ReadFile_aside:
  assumes "aside fs w" "aside fs w'" "p \<noteq> EventsPath" "p \<noteq> StatePath"
  shows "fst (ReadFile p w') = fst (ReadFile p w)"
  using aside_find [OF assms] by (simp add: ReadFile_def split: option.splits)

text \<open>A reader applied to every element of a list.\<close>

fun read_each :: "(string \<Rightarrow> value op) \<Rightarrow> string list \<Rightarrow> value list op" where
  "read_each rd [] = ret []"
| "read_each rd (p # ps) = bindE (rd p) (\<lambda>v. bindE (read_each rd ps) (\<lambda>vs. ret (v # vs)))"

lemma rd_run: "reads_only m \<Longrightarrow> m w = (fst (m w), w)"
  by (metis prod.collapse reads_only_def)

lemma read_each_Inr:
  assumes "\<And>p. reads_only (rd p)"
  shows "read_each rd ps w = (Inr vs, w') \<longleftrightarrow> w' = w \<and> list_all2 (\<lambda>p v. fst (rd p w) = Inr v) ps vs"
proof (induction ps arbitrary: vs w')
  case (Cons p ps)
  note run = rd_run [OF assms, of p w]
  show ?case
  proof (cases "fst (rd p w)")
    case (Inl e)
    with run have "read_each rd (p # ps) w = (Inl e, w)" by (simp add: bindE_def)
    with Inl show ?thesis by (simp add: list_all2_Cons1)
  next
    case (Inr v)
    with run have "read_each rd (p # ps) w = bindE (read_each rd ps) (\<lambda>vs. ret (v # vs)) w" by (simp add: bindE_def)
    then have "read_each rd (p # ps) w = (Inr vs, w') \<longleftrightarrow> (\<exists>us. read_each rd ps w = (Inr us, w') \<and> vs = v # us)"
      by (simp add: bindE_Inr) blast
    with Inr show ?thesis unfolding Cons.IH by (auto simp: list_all2_Cons1)
  qed
qed (auto simp: ret_def)

lemma read_each_stable:
  assumes rd: "\<And>p. reads_only (rd p)" and run: "fst (read_each rd ps w) = Inr vs" and ps: "set ps' = set ps"
    and same: "\<And>p. p \<in> set ps \<Longrightarrow> fst (rd p w') = fst (rd p w)"
  shows "\<exists>vs'. read_each rd ps' w' = (Inr vs', w') \<and> set vs' = set vs"
proof -
  have "read_each rd ps w = (Inr vs, snd (read_each rd ps w))" using run by (metis prod.collapse)
  then have l: "list_all2 (\<lambda>p v. fst (rd p w) = Inr v) ps vs"
    unfolding read_each_Inr [OF rd] by (rule conjunct2)
  let ?g = "\<lambda>p. projr (fst (rd p w))"
  from l have vs: "vs = map ?g ps" by (induction rule: list_all2_induct) simp_all
  from l have ok: "\<exists>v. fst (rd p w) = Inr v" if "p \<in> set ps" for p
    using that by (induction rule: list_all2_induct) auto
  have "fst (rd p w') = Inr (?g p)" if "p \<in> set ps'" for p
  proof -
    have p: "p \<in> set ps" using that ps by simp
    from ok [OF p] obtain v where "fst (rd p w) = Inr v" ..
    with same [OF p] show ?thesis by simp
  qed
  then have "list_all2 (\<lambda>p v. fst (rd p w') = Inr v) ps' (map ?g ps')"
    unfolding list_all2_map2 by (intro list.rel_refl_strong)
  then have "read_each rd ps' w' = (Inr (map ?g ps'), w')" unfolding read_each_Inr [OF rd] by simp
  moreover have "set (map ?g ps') = set vs" using ps by (simp add: vs)
  ultimately show ?thesis by blast
qed

lemma read_all_each: "read_all ps = read_each ReadJson ps"
  by (induction ps) simp_all

definition ReadFinding :: "string \<Rightarrow> value op" where
  "ReadFinding p = catchE (ReadFile p) (\<lambda>r. case r of
       Inl e \<Rightarrow> fail (ERefused ''the finding cannot be read'' [p])
     | Inr raw \<Rightarrow> parseE raw (ERefused ''the finding does not parse'' [p]))"

lemma read_findings_each: "read_findings ps = read_each ReadFinding ps"
proof (induction ps)
  case (Cons p ps)
  show ?case unfolding read_findings.simps read_each.simps Cons.IH ReadFinding_def
    by (rule ext) (auto simp: catchE_def bindE_def split: prod.splits sum.splits)
qed simp

lemma ro_ReadFinding: "reads_only (ReadFinding p)"
  unfolding ReadFinding_def by (intro ro_catchE ro_basic ro_sum)

lemma fst_ReadJson_aside:
  assumes "aside fs w" "aside fs w'" "p \<noteq> EventsPath" "p \<noteq> StatePath"
  shows "fst (ReadJson p w') = fst (ReadJson p w)" "fst (ReadFinding p w') = fst (ReadFinding p w)"
  using aside_find [OF assms]
  by (auto simp: ReadJson_def ReadFinding_def bindE_def catchE_def ReadFile_def parseE_def split: option.splits)

section \<open>The directories are not the ledger's\<close>

lemma split_on_EventsPath: "split_on slash EventsPath = [EventsPath]" and split_on_StatePath: "split_on slash StatePath = [StatePath]"
  by (rule split_on_no_delim, simp add: EventsPath_def StatePath_def slash_def)+

lemma sub_entry_other: "sub_entry d pre leaf p \<Longrightarrow> p \<noteq> EventsPath \<and> p \<noteq> StatePath"
  by (auto simp: sub_entry_def split_on_EventsPath split_on_StatePath)

lemma AllExecs_stable:
  assumes "fst (AllExecs b w) = Inr vs" "aside fs w" "aside fs w'"
  shows "\<exists>vs'. AllExecs b w' = (Inr vs', w') \<and> set vs' = set vs"
proof -
  let ?ps = "\<lambda>w. sort (sort (filter (sub_entry ExecsDir ''EXEC-'' ''exec_record.json'') (map fst (files w))))"
  have b: b
  proof (rule ccontr)
    assume "\<not> b"
    with assms(1) show False by (simp add: AllExecs_def catchE_def ListSubPrefixedOptional_def)
  qed
  have run: "AllExecs b w = read_each ReadJson (?ps w) w" for w
    using b by (simp add: AllExecs_def catchE_def ListSubPrefixedOptional_def read_all_each)
  have ps: "set (?ps w') = set (?ps w)"
    using sub_entry_other aside_find [OF assms(2,3)] by (auto simp: files_keys simp flip: set_map)
  show ?thesis unfolding run
  proof (rule read_each_stable [OF ro_ReadJson assms(1) [unfolded run] ps])
    fix p assume "p \<in> set (?ps w)"
    then show "fst (ReadJson p w') = fst (ReadJson p w)"
      using sub_entry_other fst_ReadJson_aside(1) [OF assms(2,3)] by auto
  qed
qed

lemma in_dir_other: "in_dir FindingsDir p = Some n \<Longrightarrow> p \<noteq> EventsPath \<and> p \<noteq> StatePath"
  by (auto simp: in_dir_def FindingsDir_def EventsPath_def StatePath_def has_prefix_def slash_def split: if_splits)

lemma citationFindings_stable:
  assumes "fst (citationFindings pl w) = Inr fs1" "aside fs w" "aside fs w'"
  shows "\<exists>fs2. citationFindings pl w' = (Inr fs2, w') \<and> set fs2 = set fs1"
proof -
  let ?sel = "\<lambda>p. case in_dir FindingsDir p of None \<Rightarrow> False
                  | Some name \<Rightarrow> has_prefix ''F-'' name \<and> has_suffix ''.json'' name"
  let ?ps = "\<lambda>w. sort (filter ?sel (map fst (files w)))"
  have b: "findingsReadable pl"
  proof (rule ccontr)
    assume "\<not> findingsReadable pl"
    with assms(1) show False by (simp add: citationFindings_def catchE_def ListPrefixedOptional_def)
  qed
  have run: "citationFindings pl w = read_each ReadFinding (?ps w) w" for w
    using b by (simp add: citationFindings_def catchE_def ListPrefixedOptional_def read_findings_each)
  have other: "p \<noteq> EventsPath \<and> p \<noteq> StatePath" if "?sel p" for p
    using that in_dir_other by (auto split: option.splits)
  have ps: "set (?ps w') = set (?ps w)"
    using other aside_find [OF assms(2,3)] by (auto simp: files_keys simp flip: set_map)
  show ?thesis unfolding run
  proof (rule read_each_stable [OF ro_ReadFinding assms(1) [unfolded run] ps])
    fix p assume "p \<in> set (?ps w)"
    then show "fst (ReadFinding p w') = fst (ReadFinding p w)"
      using other fst_ReadJson_aside(2) [OF assms(2,3)] by auto
  qed
qed

lemma citationLinks_stable:
  assumes "aside fs w" "aside fs w'"
  shows "fst (citationLinks w') = fst (citationLinks w)"
proof -
  have "kv_find (files w') LinksPath = kv_find (files w) LinksPath"
    by (rule aside_find [OF assms]) (simp_all add: LinksPath_def EventsPath_def StatePath_def)
  then show ?thesis by (auto simp: citationLinks_def catchE_def ReadFile_def parseE_def split: option.splits)
qed

section \<open>The arms\<close>

lemma ro_option: "reads_only m \<Longrightarrow> (\<And>x. reads_only (k x)) \<Longrightarrow> reads_only (case y of None \<Rightarrow> m | Some x \<Rightarrow> k x)"
  by (cases y) auto

lemma ro_ListPrefixedOptional: "reads_only (ListPrefixedOptional b d pre suf)"
  by (simp add: reads_only_def ListPrefixedOptional_def)

lemma ro_AllExecs: "reads_only (AllExecs b)"
  unfolding AllExecs_def by (intro ro_catchE ro_basic ro_sum ro_read_all)

lemma ro_read_each: "(\<And>p. reads_only (rd p)) \<Longrightarrow> reads_only (read_each rd ps)"
  by (induction ps) (auto intro!: ro_bindE ro_basic)

lemma ro_citation:
  "reads_only citationLinks" "reads_only (citationFindings pl)" "reads_only (artifactIDCitedByRegistry pl i)"
  "reads_only (artifactShaCitedRow pl es dig)"
proof -
  show l: "reads_only citationLinks" unfolding citationLinks_def by (intro ro_catchE ro_basic ro_sum ro_if)
  show f: "reads_only (citationFindings pl)"
    unfolding citationFindings_def read_findings_each
    by (intro ro_catchE ro_ListPrefixedOptional ro_sum ro_basic ro_read_each ro_ReadFinding)
  show "reads_only (artifactIDCitedByRegistry pl i)"
    unfolding artifactIDCitedByRegistry_def by (intro ro_bindE l f ro_option ro_basic)
  show "reads_only (artifactShaCitedRow pl es dig)"
    unfolding artifactShaCitedRow_def ArtifactCitedExecIDs_def Let_def by (intro ro_bindE ro_if ro_basic ro_AllExecs)
qed

lemma registry_arm_stable:
  assumes "fst (artifactIDCitedByRegistry pl i w) = Inr why" "aside fs w" "aside fs w'"
  shows "\<exists>why'. artifactIDCitedByRegistry pl i w' = (Inr why', w') \<and> (why' = None \<longleftrightarrow> why = None)"
proof -
  let ?m = "\<lambda>links. case first_some (link_reason i) (vO (ObjAt links ''invariants'')) of
         Some why \<Rightarrow> ret (Some why)
       | None \<Rightarrow> bindE (citationFindings pl) (\<lambda>fs. ret (first_some (finding_reason i) fs))"
  have run: "artifactIDCitedByRegistry pl i v = bindE citationLinks ?m v" for v by (simp add: artifactIDCitedByRegistry_def)
  obtain links where l: "fst (citationLinks w) = Inr links" "fst (?m links w) = Inr why"
    using assms(1) rd_run [OF ro_citation(1), of w] unfolding run by (auto simp: bindE_def split: sum.splits prod.splits)
  have "citationLinks w' = (Inr links, w')"
    using rd_run [OF ro_citation(1), of w'] l(1) citationLinks_stable [OF assms(2,3)] by simp
  then have r: "artifactIDCitedByRegistry pl i w' = ?m links w'" unfolding run by (rule bindE_step)
  show ?thesis
  proof (cases "first_some (link_reason i) (vO (ObjAt links ''invariants''))")
    case (Some x)
    from l(2) have "why = Some x" unfolding Some by simp
    moreover have "artifactIDCitedByRegistry pl i w' = (Inr (Some x), w')" using r unfolding Some by simp
    ultimately show ?thesis by blast
  next
    case None
    with l(2) rd_run [OF ro_citation(2) [of pl], of w] obtain fs1
      where f: "fst (citationFindings pl w) = Inr fs1" "why = first_some (finding_reason i) fs1"
      by (auto simp: bindE_def split: sum.splits prod.splits)
    obtain fs2 where g: "citationFindings pl w' = (Inr fs2, w')" "set fs2 = set fs1"
      using citationFindings_stable [OF f(1) assms(2,3)] by blast
    have "?m links w' = (Inr (first_some (finding_reason i) fs2), w')" using None g(1) by (simp add: bindE_def)
    then show ?thesis using r f(2) g(2) by (simp add: first_some_None)
  qed
qed

definition no_runs :: "value list \<Rightarrow> bool" where
  "no_runs es \<longleftrightarrow> (\<forall>e\<in>set es. \<not> event_is ''harness_run'' e)"

lemma named_execs_append: "no_runs xs \<Longrightarrow> named_execs (es @ xs) = named_execs es"
  by (simp add: named_execs_def no_runs_def)

lemma sha_arm_stable:
  assumes run: "fst (artifactShaCitedRow pl es dig w) = Inr why" and as: "aside fs w" "aside fs w'"
    and e: "no_runs xs"
  shows "\<exists>why'. artifactShaCitedRow pl (es @ xs) dig w' = (Inr why', w') \<and> (why \<noteq> None \<longrightarrow> why' \<noteq> None)"
proof (cases "dig = []")
  case True
  then show ?thesis using run by (simp add: artifactShaCitedRow_def)
next
  case False
  let ?cites = "\<lambda>pins e. event_is ''harness_run'' e \<and> ArtifactEventCitesDig (ObjAt e ''data'') dig pins"
  have "\<exists>pins pins'. fst (ArtifactCitedExecIDs pl es dig w) = Inr pins \<and>
      ArtifactCitedExecIDs pl (es @ xs) dig w' = (Inr pins', w') \<and> set pins' = set pins"
  proof (cases "named_execs es = []")
    case True
    then show ?thesis by (simp add: ArtifactCitedExecIDs_def named_execs_append [OF e])
  next
    case ne: False
    with False run rd_run [OF ro_AllExecs [of "execsReadable pl"], of w] obtain execs where x: "fst (AllExecs (execsReadable pl) w) = Inr execs"
      by (auto simp: artifactShaCitedRow_def ArtifactCitedExecIDs_def bindE_def split: sum.splits prod.splits)
    with rd_run [OF ro_AllExecs [of "execsReadable pl"], of w] have xw: "AllExecs (execsReadable pl) w = (Inr execs, w)" by simp
    obtain execs' where "AllExecs (execsReadable pl) w' = (Inr execs', w')" "set execs' = set execs"
      using AllExecs_stable [OF x as] by blast
    then show ?thesis using False ne xw by (simp add: ArtifactCitedExecIDs_def named_execs_append [OF e] bindE_def Let_def)
  qed
  then obtain pins pins' where p: "fst (ArtifactCitedExecIDs pl es dig w) = Inr pins"
    "ArtifactCitedExecIDs pl (es @ xs) dig w' = (Inr pins', w')" "set pins' = set pins" by blast
  have "why = map_option (\<lambda>e. sha_reason e dig) (find (?cites pins) es)"
    using run p(1) False by (auto simp: artifactShaCitedRow_def bindE_def split: prod.splits)
  moreover have "artifactShaCitedRow pl (es @ xs) dig w' = (Inr (map_option (\<lambda>e. sha_reason e dig) (find (?cites pins') (es @ xs))), w')"
    using p(2) False by (simp add: artifactShaCitedRow_def bindE_def)
  moreover have "?cites pins' = ?cites pins" using p(3) by (auto simp: ArtifactEventCitesDig_def fun_eq_iff)
  moreover have "find (?cites pins) es \<noteq> None \<longrightarrow> find (?cites pins) (es @ xs) \<noteq> None" unfolding find_None by auto
  ultimately show ?thesis by simp
qed

lemma events_arm_stable: "artifactIDCitedByEvents es i \<noteq> None \<Longrightarrow> artifactIDCitedByEvents (es @ xs) i \<noteq> None"
proof -
  have live: "scaffoldRefIsLive es d \<Longrightarrow> scaffoldRefIsLive (es @ xs) d" for d
    by (auto simp: scaffoldRefIsLive_def Let_def)
  have "event_reason es i x \<noteq> None \<Longrightarrow> event_reason (es @ xs) i x \<noteq> None" for x
    using live by (auto simp: event_reason_def Let_def split: if_splits)
  then show "artifactIDCitedByEvents es i \<noteq> None \<Longrightarrow> artifactIDCitedByEvents (es @ xs) i \<noteq> None"
    unfolding artifactIDCitedByEvents_def first_some_None set_append by blast
qed

section \<open>The predicate\<close>

definition cited :: "site \<Rightarrow> env \<Rightarrow> string \<Rightarrow> world \<Rightarrow> bool" where
  "cited pl ev i w \<longleftrightarrow> (\<exists>why. fst (ArtifactCitedByLiveBinds pl ev i w) = Inr (Some why))"

lemma ro_cited: "reads_only (State ev) \<Longrightarrow> reads_only (ArtifactCitedByLiveBinds pl ev i)"
  unfolding ArtifactCitedByLiveBinds_def Let_def by (intro ro_if ro_basic ro_bindE ro_option ro_Events ro_citation)

lemma ro_State: "reads_only (State ev)"
  unfolding State_def by (intro ro_bindE ro_ReadJson ro_basic) (simp add: Validate_def reads_only_def)

lemma settled_Events: "settled ev st es w \<Longrightarrow> Events w = (Inr es, w)"
  by (rule Events_clean) (simp_all add: settled_def healthy_def)

lemma cited_iff:
  assumes "settled ev st es w"
  shows "cited pl ev i w \<longleftrightarrow> i \<noteq> [] \<and> (\<exists>row why1 why3. find (has_artifact_id i) (artifact_rows st) = Some row \<and>
    fst (artifactShaCitedRow pl es (ObjStr row ''sha256'') w) = Inr why1 \<and> fst (artifactIDCitedByRegistry pl i w) = Inr why3 \<and>
    (why1 \<noteq> None \<or> artifactIDCitedByEvents es i \<noteq> None \<or> why3 \<noteq> None))"
proof -
  have st: "State ev w = (Inr st, w)" using assms by (simp add: settled_def healthy_def)
  show ?thesis
  proof (cases "i = [] \<or> find (has_artifact_id i) (artifact_rows st) = None")
    case True
    then show ?thesis using st by (auto simp: cited_def ArtifactCitedByLiveBinds_def bindE_def)
  next
    case False
    then obtain row where f: "i \<noteq> []" "find (has_artifact_id i) (artifact_rows st) = Some row" by auto
    have s: "artifactShaCitedRow pl es d w = (fst (artifactShaCitedRow pl es d w), w)" for d by (rule rd_run [OF ro_citation(4)])
    have r: "artifactIDCitedByRegistry pl i w = (fst (artifactIDCitedByRegistry pl i w), w)" by (rule rd_run [OF ro_citation(3)])
    show ?thesis
      using f st settled_Events [OF assms] s [of "ObjStr row ''sha256''"] r
      by (auto simp: cited_def ArtifactCitedByLiveBinds_def bindE_def Let_def option_list_def split: sum.splits option.splits prod.splits if_splits)
  qed
qed

text \<open>What was cited stays cited while its row stays and the ledger grows by other events.\<close>

lemma cited_stable:
  assumes c: "cited pl ev i w" and s: "settled ev st es w" "settled ev st' (es @ xs) w'" and as: "aside fs w" "aside fs w'"
    and f: "find (has_artifact_id i) (artifact_rows st') = find (has_artifact_id i) (artifact_rows st)" and x: "no_runs xs"
  shows "cited pl ev i w'"
proof -
  obtain row why1 why3 where h: "i \<noteq> []" "find (has_artifact_id i) (artifact_rows st) = Some row"
    "fst (artifactShaCitedRow pl es (ObjStr row ''sha256'') w) = Inr why1" "fst (artifactIDCitedByRegistry pl i w) = Inr why3"
    "why1 \<noteq> None \<or> artifactIDCitedByEvents es i \<noteq> None \<or> why3 \<noteq> None"
    using c unfolding cited_iff [OF s(1)] by blast
  obtain why1' where a: "artifactShaCitedRow pl (es @ xs) (ObjStr row ''sha256'') w' = (Inr why1', w')" "why1 \<noteq> None \<longrightarrow> why1' \<noteq> None"
    using sha_arm_stable [OF h(3) as x] by blast
  obtain why3' where b: "artifactIDCitedByRegistry pl i w' = (Inr why3', w')" "why3' = None \<longleftrightarrow> why3 = None"
    using registry_arm_stable [OF h(4) as] by blast
  show ?thesis unfolding cited_iff [OF s(2)]
    using h(1,2,5) f a b events_arm_stable [of es i xs] by auto
qed

lemma cited_row: "cited pl ev i w \<Longrightarrow> settled ev st es w \<Longrightarrow> i \<in> set (row_ids (artifact_rows st))"
  using cited_iff [of ev st es w pl i] by (auto simp: row_ids_def dest: find_has_id)

end
