(* ===== verification/RegistryFacts.thy ===== *)
theory RegistryFacts
  imports CitationFacts
begin

text \<open>
  Re-registering a path. The loop over the rows of a path retires those that nothing cites; its
  invariant says that the rows left are the old ones without a set of retired identifiers, that no
  other file changed and that every citation still stands.
\<close>

section \<open>The loop\<close>

definition pruned_to ::
    "site \<Rightarrow> env \<Rightarrow> file_map \<Rightarrow> string set \<Rightarrow> value list \<Rightarrow> string set \<Rightarrow> world \<Rightarrow> bool" where
  "pruned_to pl ev fs C rows D w \<longleftrightarrow> aside fs w \<and> (\<exists>st es. settled ev st es w \<and>
     artifact_rows st = filter (\<lambda>a. ObjStr a ''artifact_id'' \<notin> D) rows \<and> (\<forall>i\<in>C. cited pl ev i w))"

lemma grows_prune_ghosts: "keeps_to ledger_grows (prune_ghosts pl ev kind j as)"
proof (induction as)
  case (Cons a as)
  have c: "keeps_to ledger_grows (ArtifactCitedByLiveBinds pl ev i)" for i
    by (rule grows.resp_pure) (use ro_cited [OF ro_State] in \<open>simp add: reads_only_def\<close>)
  show ?case unfolding prune_ghosts.simps Let_def
    by (intro grows_artifact grows_PruneArtifact Cons c)
qed (unfold prune_ghosts.simps, rule grows.resp_ret)

lemma others_saveThenLog: "keeps_to others_same (saveThenLog ev prev st ty ref data)"
  unfolding saveThenLog_def by (intro others.resp_bind others.resp_SaveState others.resp_or_unwind others.resp_Log)

lemma others_PruneArtifact: "keeps_to others_same (PruneArtifact ev i reason)"
  unfolding PruneArtifact_def
  by (intro others.resp_basic others_saveThenLog) (auto intro!: others.resp_basic others_saveThenLog split: option.split)

lemma ids_filter: "distinct (row_ids rows) \<Longrightarrow> distinct (row_ids (filter P rows))"
  by (simp add: row_ids_def distinct_map_filter)

lemma find_filter_other:
  "i' \<noteq> i \<Longrightarrow> find (has_artifact_id i') (filter (\<lambda>a. ObjStr a ''artifact_id'' \<noteq> i \<and> P a) rows) = find (has_artifact_id i') (filter P rows)"
  by (induction rows) (auto simp: has_artifact_id_def)

lemma artifact_event_no_run: "ObjAt e ''type'' = VStr ty \<Longrightarrow> ty \<noteq> ''harness_run'' \<Longrightarrow> no_runs [e]"
  by (simp add: no_runs_def event_is_def ObjStr_def)

text \<open>However an operation ends, the cited rows are there.\<close>

definition evidence_left :: "env \<Rightarrow> string set \<Rightarrow> world \<Rightarrow> bool" where
  "evidence_left ev C w \<longleftrightarrow> (\<exists>st es. may_lag ev st es w \<and> C \<subseteq> set (row_ids (artifact_rows st)))"

lemma of_files_evidence_left: "of_files (evidence_left ev C)"
  unfolding evidence_left_def by (intro of_files_rules of_files_may_lag)

lemma evidence_leftI: "may_lag ev st es w \<Longrightarrow> C \<subseteq> set (row_ids (artifact_rows st)) \<Longrightarrow> evidence_left ev C w"
  by (auto simp: evidence_left_def)

lemma v_prune_ghost:
  assumes ev: "env_ok ev" and d: "distinct (row_ids rows)" and u: "valid_utf8 i" "valid_utf8 reason" and i: "i \<notin> C"
  shows "valid (pruned_to pl ev fs C rows D) (PruneArtifact ev i reason) (\<lambda>_. pruned_to pl ev fs C rows (insert i D)) (evidence_left ev C)"
proof (rule validI [OF grows_PruneArtifact])
  fix w r w' assume P: "pruned_to pl ev fs C rows D w" and run: "PruneArtifact ev i reason w = (r, w')" and sz: "size_ok w'"
  from P obtain st es where s: "aside fs w" "settled ev st es w"
    "artifact_rows st = filter (\<lambda>a. ObjStr a ''artifact_id'' \<notin> D) rows" "\<forall>i\<in>C. cited pl ev i w"
    by (auto simp: pruned_to_def)
  let ?P = "\<lambda>w. healthy ev st es w \<and> aside fs w"
  note t = valid_run [OF v_aside [OF others_PruneArtifact v_PruneArtifact [OF ev u, of st es], of fs] _ run sz]
  show "case r of Inr x \<Rightarrow> pruned_to pl ev fs C rows (insert i D) w' | Inl e \<Rightarrow> evidence_left ev C w'"
  proof (cases r)
    case (Inr rec)
    with t s(1,2) have p: "find (has_artifact_id i) (artifact_rows st) = Some rec" "aside fs w'"
      "rows_post ev st es (drop_first (has_artifact_id i) (artifact_rows st)) ''artifact.pruned'' i (pruned_data rec reason) w'"
      by (auto simp: settled_def)
    have ne: "artifact_rows st \<noteq> []" using p(1) by auto
    have o: "vkind st = KObj" using healthy_facts [OF settled_healthy [OF s(2)] ev] by blast
    obtain st' e where st': "same_fields (with_rows st (drop_first (has_artifact_id i) (artifact_rows st))) st'"
      "settled ev st' (es @ [e]) w'" "ObjAt e ''type'' = VStr ''artifact.pruned''"
      using p(3) by (auto simp: rows_post_def appended_def)
    have rows: "artifact_rows st' = filter (\<lambda>a. ObjStr a ''artifact_id'' \<noteq> i \<and> ObjStr a ''artifact_id'' \<notin> D) rows"
      using same_fields_rows [OF st'(1)] rows_are_array [OF ne] o drop_first_distinct [OF ids_filter [OF d], of i]
      by (simp add: s(3) conj_commute)
    have "cited pl ev i' w'" if "i' \<in> C" for i'
    proof (rule cited_stable [OF _ s(2) st'(2) s(1) p(2)])
      show "cited pl ev i' w" using s(4) that by blast
      have "i' \<noteq> i" using i that by blast
      then show "find (has_artifact_id i') (artifact_rows st') = find (has_artifact_id i') (artifact_rows st)"
        unfolding rows s(3) by (rule find_filter_other)
      show "no_runs [e]" by (rule artifact_event_no_run [OF st'(3)]) simp
    qed
    then have "pruned_to pl ev fs C rows (insert i D) w'"
      unfolding pruned_to_def using p(2) st'(2) rows by (intro conjI exI [of _ st'] exI [of _ "es @ [e]"]) auto
    with Inr show ?thesis by simp
  next
    case (Inl e)
    have "C \<subseteq> set (row_ids (artifact_rows st))" using s(2,4) cited_row by blast
    moreover have "may_lag ev st es w'" using t s(1,2) Inl by (simp add: settled_def)
    ultimately show ?thesis using Inl by (auto intro: evidence_leftI)
  qed
qed

lemma utf8_superseded: "valid_utf8 kind \<Longrightarrow> valid_utf8 (superseded kind)"
  by (auto simp: superseded_def intro!: valid_utf8_append)

definition ghosts_done :: "string set \<Rightarrow> string set \<Rightarrow> string \<Rightarrow> string set \<Rightarrow> KeptGhost list \<Rightarrow> bool" where
  "ghosts_done D D' j ids kept \<longleftrightarrow> D \<subseteq> D' \<and> D' \<subseteq> D \<union> (ids - {j}) \<and> ids \<subseteq> D' \<union> {j} \<union> set (map ArtifactID kept)"

lemma ghosts_done_Cons:
  assumes "ghosts_done D D' j (set (row_ids as)) kept"
  shows "ArtifactID g = ObjStr a ''artifact_id'' \<Longrightarrow> ghosts_done D D' j (set (row_ids (a # as))) (g # kept)"
    and "ObjStr a ''artifact_id'' = j \<Longrightarrow> ghosts_done D D' j (set (row_ids (a # as))) kept"
  using assms by (auto simp: ghosts_done_def row_ids_def)

lemma ghosts_done_pruned:
  assumes "ghosts_done (insert (ObjStr a ''artifact_id'') D) D' j (set (row_ids as)) kept" "ObjStr a ''artifact_id'' \<noteq> j"
  shows "ghosts_done D D' j (set (row_ids (a # as))) kept"
  using assms by (auto simp: ghosts_done_def row_ids_def)

lemma v_prune_ghosts:
  assumes ev: "env_ok ev" and d: "distinct (row_ids rows)" and u: "valid_utf8 kind" "list_all valid_utf8 (row_ids as)"
  shows "valid (pruned_to pl ev fs C rows D) (prune_ghosts pl ev kind j as)
    (\<lambda>kept w. \<exists>D'. pruned_to pl ev fs C rows D' w \<and> ghosts_done D D' j (set (row_ids as)) kept) (evidence_left ev C)"
  using u(2)
proof (induction as arbitrary: D)
  case Nil
  show ?case unfolding prune_ghosts.simps by (rule v_ret) (auto simp: ghosts_done_def row_ids_def)
next
  case (Cons a as)
  let ?i = "ObjStr a ''artifact_id''" and ?I = "pruned_to pl ev fs C rows"
  let ?Q = "\<lambda>kept w. \<exists>D'. ?I D' w \<and> ghosts_done D D' j (set (row_ids (a # as))) kept"
  have ui: "valid_utf8 ?i" "list_all valid_utf8 (row_ids as)" using Cons.prems by (simp_all add: row_ids_def)
  note IH = Cons.IH [OF ui(2)]
  show ?case
  proof (rule validI [OF grows_prune_ghosts])
    fix w r w' assume P: "?I D w" and run: "prune_ghosts pl ev kind j (a # as) w = (r, w')" and sz: "size_ok w'"
    have by_branch: "case r of Inr x \<Rightarrow> ?Q x w' | Inl e \<Rightarrow> evidence_left ev C w'" if "valid (?I D) m ?Q (evidence_left ev C)" "m w = (r, w')" for m
      using valid_run [OF that(1) P that(2) sz] .
    have ask: "ArtifactCitedByLiveBinds pl ev ?i w = (fst (ArtifactCitedByLiveBinds pl ev ?i w), w)"
      by (rule rd_run [OF ro_cited [OF ro_State]])
    have keep: "valid (?I D) (bindE (prune_ghosts pl ev kind j as) (\<lambda>kept. ret (g # kept))) ?Q (evidence_left ev C)" if "ArtifactID g = ?i" for g
    proof (rule v_bind [OF IH v_ret])
      show "\<exists>D'. ?I D' w \<and> ghosts_done D D' j (set (row_ids as)) kept \<Longrightarrow> ?Q (g # kept) w" for kept w
        using ghosts_done_Cons(1) [OF _ that] by blast
    qed
    show "case r of Inr x \<Rightarrow> ?Q x w' | Inl e \<Rightarrow> evidence_left ev C w'"
    proof (cases "?i = j")
      case True
      show ?thesis
        by (rule by_branch [OF v_weaken [OF IH]]) (use run True ghosts_done_Cons(2) in \<open>auto simp: Let_def\<close>)
    next
      case ne: False
      consider (err) e where "fst (ArtifactCitedByLiveBinds pl ev ?i w) = Inl e"
        | (why) y where "fst (ArtifactCitedByLiveBinds pl ev ?i w) = Inr (Some y)"
        | (free) "fst (ArtifactCitedByLiveBinds pl ev ?i w) = Inr None"
        by (cases "fst (ArtifactCitedByLiveBinds pl ev ?i w)"; cases "projr (fst (ArtifactCitedByLiveBinds pl ev ?i w))") auto
      then show ?thesis
      proof cases
        case err
        show ?thesis by (rule by_branch [OF keep]) (use run ne ask err in \<open>auto simp: Let_def catchE_def\<close>)
      next
        case why
        show ?thesis by (rule by_branch [OF keep]) (use run ne ask why in \<open>auto simp: Let_def catchE_def\<close>)
      next
        case free
        have i: "?i \<notin> C" using P free by (auto simp: pruned_to_def cited_def)
        have "valid (?I D) (bindE (PruneArtifact ev ?i (superseded kind)) (\<lambda>_. prune_ghosts pl ev kind j as)) ?Q (evidence_left ev C)"
        proof (rule v_bind [OF v_prune_ghost [OF ev d ui(1) utf8_superseded [OF u(1)] i]])
          show "valid (?I (insert ?i D)) (prune_ghosts pl ev kind j as) ?Q (evidence_left ev C)"
            by (rule v_weaken [OF IH]) (use ghosts_done_pruned [OF _ ne] in blast)+
        qed
        then show ?thesis by (rule by_branch) (use run ne ask free in \<open>auto simp: Let_def catchE_def\<close>)
      qed
    qed
  qed
qed

section \<open>The refresh at the end\<close>

lemma foldl_pick:
  assumes "\<And>x y. f x y \<in> {x, y}" shows "foldl f a as \<in> set (a # as)"
proof (induction as arbitrary: a)
  case (Cons b as)
  from Cons.IH [of "f a b"] assms [of a b] show ?case by auto
qed simp

lemma latest_row_in: "latest_row a as \<in> set (a # as)"
  unfolding latest_row_def by (rule foldl_pick) simp

lemma refreshed_row_fields [simp]:
  "k \<notin> {''kind'', ''sha256'', ''refreshed_at'', ''refresh_reason'', ''refresh_count''} \<Longrightarrow>
     ObjStr (refreshed_row a newKind sha t reason) k = ObjStr a k"
  by (simp add: refreshed_row_def Let_def)

lemma refreshed_same_path: "same_path pl q (refreshed_row a newKind sha t reason) = same_path pl q a"
  by (simp add: same_path_def resolveArtifactPath_def Let_def)

text \<open>What a re-registration leaves: one row per path but for those it reports, every cited row, every
  row of another path.\<close>

definition reregistered ::
    "site \<Rightarrow> env \<Rightarrow> value list \<Rightarrow> string \<Rightarrow> string set \<Rightarrow> string \<Rightarrow> KeptGhost list \<Rightarrow> world \<Rightarrow> bool" where
  "reregistered pl ev rows resolved C j kept w \<longleftrightarrow> (\<exists>st es. settled ev st es w \<and>
     (let rows' = artifact_rows st in j \<in> set (row_ids rows') \<and> C \<subseteq> set (row_ids rows') \<and>
        (\<forall>a\<in>set rows'. same_path pl resolved a \<longrightarrow> ObjStr a ''artifact_id'' \<in> insert j (set (map ArtifactID kept))) \<and>
        (\<forall>a\<in>set rows. \<not> same_path pl resolved a \<longrightarrow> a \<in> set rows')))"

lemma of_files_reregistered: "of_files (reregistered pl ev rows resolved C j kept)"
  unfolding reregistered_def by (intro of_files_rules)

lemma rows_post_settled:
  assumes "rows_post ev st es rows ty i data w" "vkind (ObjAt st ''artifacts'') = KArr" "vkind st = KObj"
  shows "\<exists>st' e. settled ev st' (es @ [e]) w \<and> artifact_rows st' = rows \<and> ObjAt e ''type'' = VStr ty"
  using assms same_fields_rows by (fastforce simp: rows_post_def appended_def)

lemma distinct_same_id:
  "distinct (row_ids rows) \<Longrightarrow> a \<in> set rows \<Longrightarrow> b \<in> set rows \<Longrightarrow> ObjStr a ''artifact_id'' = ObjStr b ''artifact_id'' \<Longrightarrow> a = b"
  by (auto simp: row_ids_def distinct_map dest: inj_onD)

lemma find_distinct:
  assumes "distinct (row_ids rows)" "a \<in> set rows" "ObjStr a ''artifact_id'' = j"
  shows "find (has_artifact_id j) rows = Some a"
proof (cases "find (has_artifact_id j) rows")
  case None
  with assms show ?thesis by (auto simp: find_None_iff has_artifact_id_def)
next
  case (Some b)
  with find_has_id [OF Some] distinct_same_id [OF assms(1)] assms show ?thesis by auto
qed

lemma v_refresh_ghosts:
  assumes ev: "env_ok ev" and d: "distinct (row_ids rows)" and u: "valid_utf8 reason" "valid_utf8 newKind" "list_all valid_utf8 (row_ids rows)"
    and a: "a \<in> set rows" "ObjStr a ''artifact_id'' = j" "same_path pl resolved a"
    and D: "ghosts_done {} D j (row_ids_at) kept" and ids: "row_ids_at = set (row_ids (filter (same_path pl resolved) rows))"
    and C: "C \<subseteq> set (row_ids rows)"
  shows "valid (pruned_to pl ev fs C rows D) (refreshArtifact pl ev j reason ''operator'' newKind)
    (\<lambda>_. reregistered pl ev rows resolved C j kept) (evidence_left ev C)"
proof (rule validI [OF grows_refreshArtifact])
  fix w r w' assume P: "pruned_to pl ev fs C rows D w" and run: "refreshArtifact pl ev j reason ''operator'' newKind w = (r, w')" and sz: "size_ok w'"
  from P obtain st es where s: "settled ev st es w" "artifact_rows st = filter (\<lambda>a. ObjStr a ''artifact_id'' \<notin> D) rows" "\<forall>i\<in>C. cited pl ev i w"
    by (auto simp: pruned_to_def)
  let ?rows = "artifact_rows st"
  have jD: "j \<notin> D" using D by (auto simp: ghosts_done_def)
  have dr: "distinct (row_ids ?rows)" unfolding s(2) by (rule ids_filter [OF d])
  have ar: "a \<in> set ?rows" using a jD by (simp add: s(2))
  have f: "find (has_artifact_id j) ?rows = Some a" by (rule find_distinct [OF dr ar a(2)])
  have uj: "valid_utf8 j" using u(3) a by (auto simp: row_ids_def list_all_iff)
  let ?q = "loc pl (resolveArtifactPath pl a)"
  have h: "healthy_with ev st es ?q (kv_find (files w) ?q) w" using s(1) by (simp add: healthy_with_def settled_def)
  note t = valid_run [OF v_refreshArtifact [OF ev f uj u(1) _ u(2), of "''operator''"] h run sz]
  show "case r of Inr x \<Rightarrow> reregistered pl ev rows resolved C j kept w' | Inl e \<Rightarrow> evidence_left ev C w'"
  proof (cases r)
    case (Inr row)
    have o: "vkind st = KObj" using healthy_facts [OF settled_healthy [OF s(1)] ev] by blast
    from t Inr obtain fl tm data where row: "row = refreshed_row a newKind (Sha256Hex (content fl)) tm reason"
      and post: "rows_post ev st es (put_first (has_artifact_id j) row ?rows) ''artifact.refreshed'' j data w'"
      by (auto simp: refresh_post_def)
    have ne: "?rows \<noteq> []" using ar by auto
    obtain st' e where s': "settled ev st' (es @ [e]) w'" "artifact_rows st' = put_first (has_artifact_id j) row ?rows"
      using rows_post_settled [OF post rows_are_array [OF ne] o] by blast
    have rows': "artifact_rows st' = map (\<lambda>b. if ObjStr b ''artifact_id'' = j then row else b) ?rows"
      unfolding s'(2) by (rule put_first_map [OF dr])
    have id: "ObjStr row ''artifact_id'' = j" using a(2) by (simp add: row)
    have ids': "row_ids (artifact_rows st') = row_ids ?rows" using id by (simp add: rows' row_ids_def)
    have kept: "ObjStr b ''artifact_id'' \<in> insert j (set (map ArtifactID kept))" if "b \<in> set (artifact_rows st')" "same_path pl resolved b" for b
    proof (cases "b = row")
      case False
      with that(1) have b: "b \<in> set rows" "ObjStr b ''artifact_id'' \<notin> D" by (auto simp: rows' s(2) split: if_splits)
      with that(2) have "ObjStr b ''artifact_id'' \<in> row_ids_at" by (auto simp: ids row_ids_def)
      with D b(2) show ?thesis by (auto simp: ghosts_done_def)
    qed (simp add: id)
    have other: "b \<in> set (artifact_rows st')" if b: "b \<in> set rows" "\<not> same_path pl resolved b" for b
    proof -
      have "ObjStr b ''artifact_id'' \<notin> row_ids_at"
        using distinct_same_id [OF d b(1)] b(2) by (auto simp: ids row_ids_def)
      then have "ObjStr b ''artifact_id'' \<notin> D" using D by (auto simp: ghosts_done_def)
      moreover have "ObjStr b ''artifact_id'' \<noteq> j" using distinct_same_id [OF d b(1) a(1)] a b(2) by auto
      ultimately show ?thesis using b(1) by (auto simp: rows' s(2) intro: image_eqI [of _ _ b])
    qed
    have "C \<subseteq> set (row_ids ?rows)" using s(1,3) cited_row by blast
    moreover have "j \<in> set (row_ids ?rows)" using ar a(2) by (auto simp: row_ids_def)
    ultimately have "reregistered pl ev rows resolved C j kept w'"
      unfolding reregistered_def Let_def ids' [symmetric] using s'(1) kept other by blast
    with Inr show ?thesis by simp
  next
    case (Inl e)
    have "C \<subseteq> set (row_ids ?rows)" using s(1,3) cited_row by blast
    with t Inl show ?thesis by (auto intro: evidence_leftI)
  qed
qed

section \<open>The whole\<close>

text \<open>The texts that the row, its events and its reasons are made of.\<close>

definition register_texts :: "site \<Rightarrow> env \<Rightarrow> nat list \<Rightarrow> string \<Rightarrow> string \<Rightarrow> string \<Rightarrow> string option \<Rightarrow> bool" where
  "register_texts pl ev b kind path note snap \<longleftrightarrow> valid_utf8 kind \<and> valid_utf8 path \<and> valid_utf8 note \<and>
     (case snap of None \<Rightarrow> True | Some s \<Rightarrow> valid_utf8 s) \<and> valid_utf8 (artifact_id pl b kind) \<and>
     valid_utf8 (stored_path pl path) \<and> valid_utf8 (build ev)"

lemma utf8_row_ids: "wf_value st \<Longrightarrow> list_all valid_utf8 (row_ids (artifact_rows st))"
  using wf_artifact_rows by (auto simp: row_ids_def list_all_iff intro: wf_ObjStr)

lemma grows_RegisterOrRefresh: "keeps_to ledger_grows (RegisterOrRefreshKeptGhosts pl ev b kind path note snap reason)"
proof -
  have "keeps_to ledger_grows (case l of [] \<Rightarrow> bindE (RegisterArtifact pl ev b kind path note snap) (\<lambda>i. ret (i, []))
     | a # as \<Rightarrow> bindE (prune_ghosts pl ev kind (k a as) (a # as)) (\<lambda>kept.
         bindE (refreshArtifact pl ev (k a as) reason ''operator'' (m a as)) (\<lambda>_. ret (k a as, kept))))" for l k m
    by (cases l) (auto intro!: grows_rules grows_RegisterArtifact grows_refreshArtifact grows_prune_ghosts simp del: prune_ghosts.simps)
  then show ?thesis unfolding RegisterOrRefreshKeptGhosts_def Let_def by (intro grows_rules grows_sum grows_stat)
qed

lemma v_register_new:
  assumes ev: "env_ok ev" and u: "register_texts pl ev b kind path note snap" and s: "settled ev st es w0"
    and arr: "vkind (ObjAt st ''artifacts'') = KArr"
    and none: "filter (same_path pl resolved) (artifact_rows st) = []"
    and C: "C \<subseteq> set (row_ids (artifact_rows st))"
  shows "valid (settled ev st es) (bindE (RegisterArtifact pl ev b kind path note snap) (\<lambda>i. ret (i, [])))
    (\<lambda>(j, kept). reregistered pl ev (artifact_rows st) resolved C j kept) (evidence_left ev C)"
proof (rule v_pre [of _ "\<lambda>fo. healthy_with ev st es (loc pl path) fo"])
  show "\<exists>fo. healthy_with ev st es (loc pl path) fo w" if "settled ev st es w" for w
    using that by (simp add: healthy_with_def settled_def)
  fix fo
  let ?rows = "artifact_rows st" and ?i = "artifact_id pl b kind"
  have o: "vkind st = KObj" using healthy_facts [OF settled_healthy [OF s] ev] by blast
  have reg: "valid (healthy_with ev st es (loc pl path) fo) (RegisterArtifact pl ev b kind path note snap)
      (\<lambda>i. reregistered pl ev ?rows resolved C i []) (evidence_left ev C)"
  proof (rule v_weaken [OF v_RegisterArtifact [OF ev]])
    fix i w assume "i = ?i \<and> (\<exists>f t. fo = Some f \<and> rows_post ev st es
        (?rows @ [artifact_row pl ev i kind path note snap t (Sha256Hex (content f))]) ''artifact.registered'' i (registered_data kind path) w)"
    then obtain f t where p: "rows_post ev st es
        (?rows @ [artifact_row pl ev i kind path note snap t (Sha256Hex (content f))]) ''artifact.registered'' i (registered_data kind path) w" by blast
    obtain st' e where s': "settled ev st' (es @ [e]) w"
        "artifact_rows st' = ?rows @ [artifact_row pl ev i kind path note snap t (Sha256Hex (content f))]"
      using rows_post_settled [OF p arr o] by blast
    have id: "ObjStr (artifact_row pl ev i kind path note snap t (Sha256Hex (content f))) ''artifact_id'' = i"
      by (simp add: artifact_row_def ObjStr_def ObjAt_def)
    have no: "\<not> same_path pl resolved a" if "a \<in> set ?rows" for a using none that by (auto simp: filter_empty_conv)
    show "reregistered pl ev ?rows resolved C i [] w"
      unfolding reregistered_def Let_def using s' id no C by (intro exI [of _ st'] exI [of _ "es @ [e]"]) (auto simp: row_ids_def)
  qed (use u C in \<open>auto simp: register_texts_def intro: evidence_leftI\<close>)
  show "valid (healthy_with ev st es (loc pl path) fo) (bindE (RegisterArtifact pl ev b kind path note snap) (\<lambda>i. ret (i, [])))
    (\<lambda>(j, kept). reregistered pl ev ?rows resolved C j kept) (evidence_left ev C)"
    by (rule v_bind [OF reg v_ret]) simp
qed

lemma v_register_again:
  assumes ev: "env_ok ev" and u: "valid_utf8 kind" "valid_utf8 reason" and s: "settled ev st es w0"
    and d: "distinct (row_ids (artifact_rows st))"
    and same: "filter (same_path pl resolved) (artifact_rows st) = a # as"
    and C: "\<And>w. settled ev st es w \<and> aside fs w \<Longrightarrow> \<forall>i\<in>C. cited pl ev i w"
  shows "valid (\<lambda>w. settled ev st es w \<and> aside fs w)
    (let latest = latest_row a as; latestID = ObjStr latest ''artifact_id''; migrate = (if kind = [] \<or> ObjStr latest ''kind'' = kind then [] else kind)
     in bindE (prune_ghosts pl ev kind latestID (a # as)) (\<lambda>kept.
        bindE (refreshArtifact pl ev latestID reason ''operator'' migrate) (\<lambda>_. ret (latestID, kept))))
    (\<lambda>(j, kept). reregistered pl ev (artifact_rows st) resolved C j kept) (evidence_left ev C)"
proof -
  let ?rows = "artifact_rows st" and ?l = "latest_row a as"
  let ?j = "ObjStr ?l ''artifact_id''"
  let ?m = "if kind = [] \<or> ObjStr ?l ''kind'' = kind then [] else kind"
  have wf: "wf_value st" using healthy_facts [OF settled_healthy [OF s] ev] by blast
  note ids = utf8_row_ids [OF wf]
  have sub: "set (a # as) \<subseteq> set ?rows" using same [symmetric] by auto
  have l: "?l \<in> set ?rows" "same_path pl resolved ?l"
    using latest_row_in [of a as] same [symmetric] by auto
  have ua: "list_all valid_utf8 (row_ids (a # as))" using ids sub by (auto simp: row_ids_def list_all_iff)
  let ?done = "\<lambda>kept w. \<exists>D. pruned_to pl ev fs C ?rows D w \<and> ghosts_done {} D ?j (set (row_ids (a # as))) kept"
  have loop: "valid (\<lambda>w. settled ev st es w \<and> aside fs w) (prune_ghosts pl ev kind ?j (a # as)) ?done (evidence_left ev C)"
    by (rule v_weaken [OF v_prune_ghosts [OF ev d u(1) ua]]) (use C in \<open>auto simp: pruned_to_def\<close>)
  have rest: "valid (?done kept) (bindE (refreshArtifact pl ev ?j reason ''operator'' ?m) (\<lambda>_. ret (?j, kept)))
      (\<lambda>(j, kept). reregistered pl ev ?rows resolved C j kept) (evidence_left ev C)" for kept
  proof (rule v_exE, rule v_pure [of _ "ghosts_done {} D ?j (set (row_ids (a # as))) kept \<and> C \<subseteq> set (row_ids ?rows)" for D])
    fix D w assume w: "pruned_to pl ev fs C ?rows D w \<and> ghosts_done {} D ?j (set (row_ids (a # as))) kept"
    then obtain st1 es1 where "settled ev st1 es1 w" "artifact_rows st1 = filter (\<lambda>a. ObjStr a ''artifact_id'' \<notin> D) ?rows" "\<forall>i\<in>C. cited pl ev i w"
      by (auto simp: pruned_to_def)
    then have "C \<subseteq> set (row_ids ?rows)" using cited_row by (fastforce simp: row_ids_def)
    with w show "ghosts_done {} D ?j (set (row_ids (a # as))) kept \<and> C \<subseteq> set (row_ids ?rows)" by blast
  next
    fix D assume g: "ghosts_done {} D ?j (set (row_ids (a # as))) kept \<and> C \<subseteq> set (row_ids ?rows)"
    have r: "valid (pruned_to pl ev fs C ?rows D) (refreshArtifact pl ev ?j reason ''operator'' ?m)
        (\<lambda>_. reregistered pl ev ?rows resolved C ?j kept) (evidence_left ev C)"
      by (rule v_refresh_ghosts [OF ev d u(2) _ ids l(1) refl l(2)]) (use g u same in auto)
    have "valid (pruned_to pl ev fs C ?rows D) (bindE (refreshArtifact pl ev ?j reason ''operator'' ?m) (\<lambda>_. ret (?j, kept)))
      (\<lambda>(j, kept). reregistered pl ev ?rows resolved C j kept) (evidence_left ev C)"
      by (rule v_bind [OF r v_ret]) simp
    then show "valid (\<lambda>w. pruned_to pl ev fs C ?rows D w \<and> ghosts_done {} D ?j (set (row_ids (a # as))) kept)
      (bindE (refreshArtifact pl ev ?j reason ''operator'' ?m) (\<lambda>_. ret (?j, kept)))
      (\<lambda>(j, kept). reregistered pl ev ?rows resolved C j kept) (evidence_left ev C)"
      by (rule v_weaken) auto
  qed (intro grows_rules grows_refreshArtifact)
  show ?thesis unfolding Let_def by (rule v_bind [OF loop rest])
qed

lemma v_RegisterOrRefresh:
  assumes ev: "env_ok ev" and u: "register_texts pl ev b kind path note snap" "valid_utf8 reason" and s: "settled ev st es w0"
    and d: "distinct (row_ids (artifact_rows st))" and arr: "vkind (ObjAt st ''artifacts'') = KArr"
  shows "valid (\<lambda>w. settled ev st es w \<and> aside (kv_find (files w0)) w) (RegisterOrRefreshKeptGhosts pl ev b kind path note snap reason)
    (\<lambda>(j, kept). reregistered pl ev (artifact_rows st) (resolvePath pl path) {i. cited pl ev i w0} j kept) (evidence_left ev {i. cited pl ev i w0})"
  unfolding RegisterOrRefreshKeptGhosts_def
proof (rule v_lock)
  let ?fs = "kv_find (files w0)" and ?C = "{i. cited pl ev i w0}" and ?r = "resolvePath pl path" and ?rows = "artifact_rows st"
  let ?P = "\<lambda>w. settled ev st es w \<and> aside ?fs w"
  let ?Q = "\<lambda>(j, kept). reregistered pl ev ?rows ?r ?C j kept"
  let ?body = "catchE (stat_file (loc pl path)) (\<lambda>r. case r of
         Inl _ \<Rightarrow> fail (EOther path)
       | Inr _ \<Rightarrow> bindE (State ev) (\<lambda>st.
           case filter (same_path pl (resolvePath pl path)) (artifact_rows st) of
             [] \<Rightarrow> bindE (RegisterArtifact pl ev b kind path note snap) (\<lambda>i. ret (i, []))
           | a # as \<Rightarrow>
               let latest = latest_row a as;
                   latestID = ObjStr latest ''artifact_id'';
                   migrate = (if kind = [] \<or> ObjStr latest ''kind'' = kind then [] else kind)
               in bindE (prune_ghosts pl ev kind latestID (a # as)) (\<lambda>kept.
                  bindE (refreshArtifact pl ev latestID reason ''operator'' migrate) (\<lambda>_. ret (latestID, kept)))))"
  let ?k = "\<lambda>st. case filter (same_path pl ?r) (artifact_rows st) of
             [] \<Rightarrow> bindE (RegisterArtifact pl ev b kind path note snap) (\<lambda>i. ret (i, []))
           | a # as \<Rightarrow>
               let latest = latest_row a as;
                   latestID = ObjStr latest ''artifact_id'';
                   migrate = (if kind = [] \<or> ObjStr latest ''kind'' = kind then [] else kind)
               in bindE (prune_ghosts pl ev kind latestID (a # as)) (\<lambda>kept.
                  bindE (refreshArtifact pl ev latestID reason ''operator'' migrate) (\<lambda>_. ret (latestID, kept)))"
  have g: "keeps_to ledger_grows (?k st)" for st
    by (cases "filter (same_path pl ?r) (artifact_rows st)")
       (auto simp: Let_def simp del: prune_ghosts.simps intro!: grows_rules grows_RegisterArtifact grows_refreshArtifact grows_prune_ghosts)
  have still: "\<forall>i\<in>?C. cited pl ev i w" if "settled ev st es w \<and> aside ?fs w" for w
    using cited_stable [OF _ s _ aside_refl, of pl _ st "[]" w] that by (auto simp: no_runs_def)
  have left: "evidence_left ev ?C w" if "?P w" for w
    by (rule evidence_leftI [of _ st es]) (use that cited_row [OF _ s] in \<open>auto simp: may_lag_def settled_def\<close>)
  have k: "valid ?P (?k st) ?Q (evidence_left ev ?C)"
  proof (cases "filter (same_path pl ?r) ?rows")
    case Nil
    have C: "?C \<subseteq> set (row_ids ?rows)" using cited_row [OF _ s] by blast
    show ?thesis unfolding Nil list.case
      by (rule v_weaken [OF v_register_new [OF ev u(1) s arr Nil C]]) auto
  next
    case (Cons a as)
    have uk: "valid_utf8 kind" using u(1) by (simp add: register_texts_def)
    show ?thesis unfolding Cons list.case by (rule v_register_again [OF ev uk u(2) s d Cons still])
  qed
  show "valid ?P ?body ?Q (evidence_left ev ?C)"
  proof (rule validI)
    show "keeps_to ledger_grows ?body" by (intro grows_rules grows_sum grows_stat g)
    fix w r w' assume P: "?P w" and run: "?body w = (r, w')" and sz: "size_ok w'"
    have st: "State ev w = (Inr st, w)" using P by (simp add: settled_def healthy_def)
    show "case r of Inr x \<Rightarrow> ?Q x w' | Inl e \<Rightarrow> evidence_left ev ?C w'"
    proof (cases "kv_find (files w) (loc pl path)")
      case None
      with run have "r = Inl (EOther path)" "w' = w" by (auto simp: catchE_def stat_file_def)
      then show ?thesis using left [OF P] by simp
    next
      case (Some f)
      then have "stat_file (loc pl path) w = (Inr (), w)" by (simp add: stat_file_def)
      then have "?body w = bindE (State ev) ?k w" by (simp only: catchE_def prod.case sum.case)
      also have "\<dots> = ?k st w" by (rule bindE_step [where m = "State ev", OF st])
      finally have "?k st w = (r, w')" using run by simp
      from valid_run [OF k P this sz] show ?thesis .
    qed
  qed
next
  show "evidence_left ev {i. cited pl ev i w0} w" if "settled ev st es w \<and> aside (kv_find (files w0)) w" for w
    by (rule evidence_leftI [of _ st es]) (use that cited_row [OF _ s] in \<open>auto simp: may_lag_def settled_def\<close>)
qed (auto simp: split_beta intro!: of_files_rules of_files_reregistered of_files_aside of_files_evidence_left)

end
