(* ===== verification/ReconcileFacts.thy ===== *)
theory ReconcileFacts
  imports RegistryFacts
begin

text \<open>
  The operator's refresh of one row, and the loop that refreshes every row that drifted: its invariant
  says that the rows seen so far are in step with the files.
\<close>

section \<open>Refreshing one row\<close>

lemma others_stat: "keeps_to others_same (stat_file p)"
  by (rule others.resp_pure) (simp add: stat_file_def)

lemma others_refreshArtifact: "keeps_to others_same (refreshArtifact pl ev i reason who newKind)"
  unfolding refreshArtifact_def Let_def
  by (auto intro!: others.resp_basic others_saveThenLog others_stat simp: Sha256File_def split: option.split sum.split)

lemma named_is_object: "ObjStr a k \<noteq> [] \<Longrightarrow> vkind a = KObj"
  by (cases a) (simp_all add: ObjStr_def ObjAt_def)

lemma refreshed_sha [simp]: "vkind a = KObj \<Longrightarrow> ObjStr (refreshed_row a newKind sha t reason) ''sha256'' = sha"
  by (simp add: refreshed_row_def Let_def)

lemma v_RefreshArtifact:
  assumes ev: "env_ok ev" and a: "find (has_artifact_id i) (artifact_rows st) = Some a"
    and u: "valid_utf8 reason" "valid_utf8 who" and w: "settled ev st es w1"
  shows "valid (\<lambda>w. healthy_with ev st es (loc pl (resolveArtifactPath pl a)) fo w \<and> aside fs w) (RefreshArtifact pl ev i reason who)
    (\<lambda>row w. refresh_post ev st es i a fo reason who [] row w \<and> aside fs w) (\<lambda>w. may_lag ev st es w \<and> aside fs w)"
proof -
  have wf: "wf_value st" using healthy_facts [OF settled_healthy [OF w] ev] by blast
  have ui: "valid_utf8 i" using find_wf [OF a wf_artifact_rows [OF wf]] find_has_id [OF a] wf_ObjStr by blast
  show ?thesis unfolding RefreshArtifact_def
    by (rule v_lock [OF v_aside [OF others_refreshArtifact v_refreshArtifact [OF ev a ui u]]])
       (auto simp: may_lag_def dest: healthy_withD intro!: of_files_rules of_files_healthy_with of_files_refresh_post of_files_may_lag of_files_aside)
qed

lemma pinned_bytes:
  assumes "kv_find (files w) (loc pl (resolveArtifactPath pl a)) = Some f" "readable f" "ObjStr row ''sha256'' = Sha256Hex (content f)"
    "ObjStr row ''path'' = ObjStr a ''path''"
  shows "ArtifactBytes pl row w = (Inr (content f), w)"
proof -
  have "resolveArtifactPath pl row = resolveArtifactPath pl a" using assms(4) by (simp add: resolveArtifactPath_def)
  then show ?thesis using assms(1-3) by (simp add: ArtifactBytes_def Let_def bindE_def ReadFile_def)
qed

section \<open>Reconciling every row\<close>

text \<open>A row is in step with the files when its file is missing, when it pins nothing, or when it pins the
  bytes of its file.\<close>

definition in_step :: "site \<Rightarrow> file_map \<Rightarrow> value \<Rightarrow> bool" where
  "in_step pl fs a \<longleftrightarrow> (case fs (loc pl (resolveArtifactPath pl a)) of
       None \<Rightarrow> True
     | Some f \<Rightarrow> ObjStr a ''sha256'' \<in> {[], Sha256Hex (content f)})"

text \<open>The files of the rows lie outside the two files of the campaign.\<close>

definition rows_outside :: "site \<Rightarrow> value list \<Rightarrow> bool" where
  "rows_outside pl rows \<longleftrightarrow> (\<forall>a\<in>set rows. loc pl (resolveArtifactPath pl a) \<notin> {EventsPath, StatePath})"

definition reconciling :: "site \<Rightarrow> env \<Rightarrow> file_map \<Rightarrow> string list \<Rightarrow> value list \<Rightarrow> world \<Rightarrow> bool" where
  "reconciling pl ev fs ids todo w \<longleftrightarrow> aside fs w \<and> (\<exists>st es. settled ev st es w \<and>
     row_ids (artifact_rows st) = ids \<and> rows_outside pl (artifact_rows st) \<and>
     (\<forall>a\<in>set (artifact_rows st). a \<in> set todo \<or> in_step pl fs a))"

definition ids_left :: "env \<Rightarrow> string list \<Rightarrow> world \<Rightarrow> bool" where
  "ids_left ev ids w \<longleftrightarrow> (\<exists>st es. may_lag ev st es w \<and> row_ids (artifact_rows st) = ids)"

lemma of_files_reconciling: "of_files (reconciling pl ev fs ids todo)"
  unfolding reconciling_def by (intro of_files_rules of_files_aside)

lemma of_files_ids_left: "of_files (ids_left ev ids)"
  unfolding ids_left_def by (intro of_files_rules of_files_may_lag)

lemma reconciling_left: "reconciling pl ev fs ids todo w \<Longrightarrow> ids_left ev ids w"
  by (auto simp: reconciling_def ids_left_def may_lag_def settled_def)

lemma reconciling_skip: "reconciling pl ev fs ids (a # as) w \<Longrightarrow> in_step pl fs a \<Longrightarrow> reconciling pl ev fs ids as w"
  by (auto simp: reconciling_def)

lemma resolve_same: "ObjStr a ''path'' = ObjStr b ''path'' \<Longrightarrow> resolveArtifactPath pl a = resolveArtifactPath pl b"
  by (simp add: resolveArtifactPath_def)

lemma v_reconcile_refresh:
  assumes ev: "env_ok ev" and d: "distinct ids" "[] \<notin> set ids" "ObjStr a ''artifact_id'' \<in> set ids"
  shows "valid (reconciling pl ev fs ids (a # as)) (RefreshArtifact pl ev (ObjStr a ''artifact_id'') reconcileReason ''operator'')
    (\<lambda>_. reconciling pl ev fs ids as) (ids_left ev ids)"
proof (rule validI)
  let ?i = "ObjStr a ''artifact_id''"
  show "keeps_to ledger_grows (RefreshArtifact pl ev ?i reconcileReason ''operator'')"
    unfolding RefreshArtifact_def by (intro grows_rules grows_refreshArtifact)
  fix w r w' assume P: "reconciling pl ev fs ids (a # as) w" and run: "RefreshArtifact pl ev ?i reconcileReason ''operator'' w = (r, w')"
    and sz: "size_ok w'"
  from P obtain st es where s: "aside fs w" "settled ev st es w" "row_ids (artifact_rows st) = ids" "rows_outside pl (artifact_rows st)"
    "\<forall>b\<in>set (artifact_rows st). b \<in> set (a # as) \<or> in_step pl fs b" by (auto simp: reconciling_def)
  let ?rows = "artifact_rows st"
  have dr: "distinct (row_ids ?rows)" using d(1) s(3) by simp
  obtain b where b: "b \<in> set ?rows" "ObjStr b ''artifact_id'' = ?i" using d(3) s(3) by (auto simp: row_ids_def)
  have f: "find (has_artifact_id ?i) ?rows = Some b" by (rule find_distinct [OF dr b])
  have obj: "vkind b = KObj" by (rule named_is_object [of _ "''artifact_id''"]) (use b(2) d in auto)
  let ?q = "loc pl (resolveArtifactPath pl b)"
  have q: "?q \<notin> {EventsPath, StatePath}" using s(4) b(1) by (simp add: rows_outside_def)
  have u: "valid_utf8 reconcileReason" "valid_utf8 ''operator''" by (auto simp: reconcileReason_def intro!: valid_utf8_ascii)
  have h: "healthy_with ev st es ?q (kv_find (files w) ?q) w \<and> aside fs w"
    using s(1,2) by (simp add: healthy_with_def settled_def)
  note t = valid_run [OF v_RefreshArtifact [OF ev f u s(2)] h run sz]
  show "case r of Inr x \<Rightarrow> reconciling pl ev fs ids as w' | Inl e \<Rightarrow> ids_left ev ids w'"
  proof (cases r)
    case (Inl e)
    with t s(3) show ?thesis by (auto simp: ids_left_def)
  next
    case (Inr row)
    with t obtain fl tm data where p: "kv_find (files w) ?q = Some fl" "row = refreshed_row b [] (Sha256Hex (content fl)) tm reconcileReason"
      "rows_post ev st es (put_first (has_artifact_id ?i) row ?rows) ''artifact.refreshed'' ?i data w'" "aside fs w'"
      by (auto simp: refresh_post_def)
    have o: "vkind st = KObj" using healthy_facts [OF settled_healthy [OF s(2)] ev] by blast
    have ne: "?rows \<noteq> []" using b(1) by auto
    obtain st' e where s': "settled ev st' (es @ [e]) w'" "artifact_rows st' = put_first (has_artifact_id ?i) row ?rows"
      using rows_post_settled [OF p(3) rows_are_array [OF ne] o] by blast
    have rows': "artifact_rows st' = map (\<lambda>c. if ObjStr c ''artifact_id'' = ?i then row else c) ?rows"
      unfolding s'(2) by (rule put_first_map [OF dr])
    have id: "ObjStr row ''artifact_id'' = ?i" using b(2) by (simp add: p(2))
    have path: "resolveArtifactPath pl row = resolveArtifactPath pl b" by (rule resolve_same) (simp add: p(2))
    have ids': "row_ids (artifact_rows st') = ids" using id s(3) by (auto simp: rows' row_ids_def)
    have out: "rows_outside pl (artifact_rows st')" using s(4) b(1) by (auto simp: rows' rows_outside_def path)
    have "fs ?q = Some fl" using p(1) q s(1) by (simp add: aside_def)
    moreover have "ObjStr row ''sha256'' = Sha256Hex (content fl)" by (simp add: p(2) obj)
    ultimately have row: "in_step pl fs row" by (simp add: in_step_def path)
    have "c \<in> set as \<or> in_step pl fs c" if "c \<in> set (artifact_rows st')" for c
      using that s(5) row by (auto simp: rows' split: if_splits)
    with ids' out s'(1) p(4) have "reconciling pl ev fs ids as w'" unfolding reconciling_def by blast
    with Inr show ?thesis by simp
  qed
qed

lemma grows_reconcile_rows: "keeps_to ledger_grows (reconcile_rows pl ev dry rows acc)"
proof (induction rows arbitrary: acc)
  case (Cons a rows)
  have r: "keeps_to ledger_grows (RefreshArtifact pl ev i reconcileReason ''operator'')" for i
    unfolding RefreshArtifact_def by (intro grows_rules grows_refreshArtifact)
  show ?case unfolding reconcile_rows.simps Let_def by (intro grows_artifact Cons r)
qed (unfold reconcile_rows.simps, rule grows.resp_ret)

lemma reconcile_rows_Cons:
  "reconcile_rows pl ev False (a # as) acc w =
     (let i = ObjStr a ''artifact_id''; p = resolveArtifactPath pl a in
      case kv_find (files w) (loc pl p) of
        None \<Rightarrow> reconcile_rows pl ev False as (acc\<lparr>rc_missing := rc_missing acc @ [(i, p)]\<rparr>) w
      | Some f \<Rightarrow>
          if ObjStr a ''sha256'' = [] then reconcile_rows pl ev False as (acc\<lparr>rc_unchanged := rc_unchanged acc + 1\<rparr>) w
          else if \<not> readable f then (Inl (EAccess (loc pl p)), w)
          else if Sha256Hex (content f) = ObjStr a ''sha256'' then reconcile_rows pl ev False as (acc\<lparr>rc_unchanged := rc_unchanged acc + 1\<rparr>) w
          else bindE (RefreshArtifact pl ev i reconcileReason ''operator'') (\<lambda>_.
                 reconcile_rows pl ev False as (acc\<lparr>rc_refreshed := rc_refreshed acc @ [i]\<rparr>)) w)"
  by (auto simp: Let_def catchE_def stat_file_def bindE_def Sha256File_def ReadFile_def ret_def ObjStr_def split: option.splits prod.splits sum.splits)

lemma v_reconcile_rows:
  assumes ev: "env_ok ev" and d: "distinct ids" "[] \<notin> set ids"
  shows "set (row_ids rows) \<subseteq> set ids \<Longrightarrow> rows_outside pl rows \<Longrightarrow> valid (reconciling pl ev fs ids rows) (reconcile_rows pl ev False rows acc)
    (\<lambda>_. reconciling pl ev fs ids []) (ids_left ev ids)"
proof (induction rows arbitrary: acc)
  case Nil
  show ?case unfolding reconcile_rows.simps by (rule v_ret)
next
  case (Cons a as)
  let ?q = "loc pl (resolveArtifactPath pl a)"
  have i: "ObjStr a ''artifact_id'' \<in> set ids" and sub: "set (row_ids as) \<subseteq> set ids" "rows_outside pl as" and q: "?q \<notin> {EventsPath, StatePath}"
    using Cons.prems by (simp_all add: row_ids_def rows_outside_def)
  note IH = Cons.IH [OF sub]
  show ?case
  proof (rule validI [OF grows_reconcile_rows])
    fix w r w' assume P: "reconciling pl ev fs ids (a # as) w" and run: "reconcile_rows pl ev False (a # as) acc w = (r, w')" and sz: "size_ok w'"
    let ?goal = "case r of Inr x \<Rightarrow> reconciling pl ev fs ids [] w' | Inl e \<Rightarrow> ids_left ev ids w'"
    have fs: "kv_find (files w) ?q = fs ?q" using P q by (auto simp: reconciling_def aside_def)
    have skip: ?goal if "in_step pl fs a" "reconcile_rows pl ev False as acc' w = (r, w')" for acc'
      using valid_run [OF IH reconciling_skip [OF P that(1)] that(2) sz] by simp
    have again: ?goal if "bindE (RefreshArtifact pl ev (ObjStr a ''artifact_id'') reconcileReason ''operator'') (\<lambda>_. reconcile_rows pl ev False as acc') w = (r, w')" for acc'
      using valid_run [OF v_bind [OF v_reconcile_refresh [OF ev d i] IH] P that sz] by simp
    show ?goal
    proof (cases "fs ?q")
      case None
      then have "in_step pl fs a" by (simp add: in_step_def)
      then show ?thesis by (rule skip) (use run [unfolded reconcile_rows_Cons Let_def] None fs in simp)
    next
      case (Some f)
      consider "ObjStr a ''sha256'' = []" | "ObjStr a ''sha256'' \<noteq> []" "\<not> readable f"
        | "ObjStr a ''sha256'' \<noteq> []" "readable f" "Sha256Hex (content f) = ObjStr a ''sha256''"
        | "ObjStr a ''sha256'' \<noteq> []" "readable f" "Sha256Hex (content f) \<noteq> ObjStr a ''sha256''" by blast
      then show ?thesis
      proof cases
        case 1
        then have "in_step pl fs a" using Some by (simp add: in_step_def)
        then show ?thesis by (rule skip) (use run [unfolded reconcile_rows_Cons Let_def] Some fs 1 in simp)
      next
        case 2
        with run Some fs have "r = Inl (EAccess ?q)" "w' = w" by (simp_all del: reconcile_rows.simps add: reconcile_rows_Cons Let_def)
        then show ?thesis using reconciling_left [OF P] by simp
      next
        case 3
        then have "in_step pl fs a" using Some by (simp add: in_step_def)
        then show ?thesis by (rule skip) (use run [unfolded reconcile_rows_Cons Let_def] Some fs 3 in simp)
      next
        case 4
        show ?thesis by (rule again) (use run [unfolded reconcile_rows_Cons Let_def] Some fs 4 in simp)
      qed
    qed
  qed
qed

lemma v_ReconcileArtifacts:
  assumes ev: "env_ok ev" and s: "settled ev st es w0"
    and rows: "distinct (row_ids (artifact_rows st))" "[] \<notin> set (row_ids (artifact_rows st))" "rows_outside pl (artifact_rows st)"
  shows "valid (\<lambda>w. settled ev st es w \<and> aside fs w) (ReconcileArtifacts pl ev False)
    (\<lambda>_. reconciling pl ev fs (row_ids (artifact_rows st)) []) (ids_left ev (row_ids (artifact_rows st)))"
  unfolding ReconcileArtifacts_def
proof (rule v_lock)
  let ?rows = "artifact_rows st" and ?P = "\<lambda>w. settled ev st es w \<and> aside fs w"
  let ?acc = "\<lparr>rc_refreshed = [], rc_unchanged = 0, rc_missing = []\<rparr>"
  let ?k = "\<lambda>st. bindE (reconcile_rows pl ev False (artifact_rows st) ?acc) (\<lambda>acc. ret (reconcile_report (length (artifact_rows st)) False acc))"
  have start: "reconciling pl ev fs (row_ids ?rows) ?rows w" if "?P w" for w
    using that rows(3) by (auto simp: reconciling_def)
  show "valid ?P (bindE (State ev) ?k) (\<lambda>_. reconciling pl ev fs (row_ids ?rows) []) (ids_left ev (row_ids ?rows))"
  proof (rule v_step)
    show "bindE (State ev) ?k w = ?k st w" if "?P w" for w
      by (rule bindE_step [where m = "State ev"]) (use that in \<open>simp add: settled_def healthy_def\<close>)
    have "valid ?P (reconcile_rows pl ev False ?rows ?acc) (\<lambda>_. reconciling pl ev fs (row_ids ?rows) []) (ids_left ev (row_ids ?rows))"
      by (rule v_weaken [OF v_reconcile_rows [OF ev rows(1,2) subset_refl rows(3)]]) (use start in auto)
    then show "valid ?P (?k st) (\<lambda>_. reconciling pl ev fs (row_ids ?rows) []) (ids_left ev (row_ids ?rows))"
      by (rule v_bind [OF _ v_ret]) simp
    show "keeps_to ledger_grows (bindE (State ev) ?k)" by (intro grows_rules grows_reconcile_rows)
  qed
  show "ids_left ev (row_ids ?rows) w" if "?P w" for w by (rule reconciling_left [OF start [OF that]])
qed (intro of_files_rules of_files_aside of_files_reconciling of_files_ids_left)+

end
