(* ===== verification/ArtifactProperties.thy ===== *)
theory ArtifactProperties
  imports ReconcileFacts FindingExamples
begin

text \<open>
  What a reader of the registry may rely on: a refresh pins the bytes the file has and is on the ledger,
  the bytes behind a row that are handed out are the pinned ones, and re-registering a path never loses
  a row that live evidence names. The campaigns of the witnesses come first: one file that two rows pin,
  of which the invariants registry names the older, and a row whose file is gone.
\<close>

section \<open>Campaigns with rows\<close>

definition site0 :: site where
  "site0 = \<lparr>Root = ''/c'', resolvePath = (\<lambda>p. p), loc = drop 3, toUpper = (\<lambda>s. s), errText = (\<lambda>_. ''e''),
     execsReadable = True, findingsReadable = True\<rparr>"

definition row_of :: "string \<Rightarrow> string \<Rightarrow> value" where
  "row_of i t = VObj [(''artifact_id'', VStr i), (''kind'', VStr ''report''), (''path'', VStr ''report.md''),
     (''registered_at'', VStr t), (''sha256'', VStr ''0'')]"

definition st_art :: "value" where
  "st_art = VObj [(''campaign_id'', VStr ''c1''), (''events'', VArr []),
     (''artifacts'', VArr [row_of ''A'' ''2026-01-01'', row_of ''B'' ''2026-01-02''])]"

definition links0 :: "value" where
  "links0 = VObj [(''invariants'', VObj [(''INV-1'', VObj [(''verified_by'', VStr ''A'')])])]"

definition art_world :: world where
  "art_world = (world_with [] st_art)\<lparr>files := files (world_with [] st_art) @
     [(''report.md'', File True ''hello''), (LinksPath, File True (DumpIndented links0 @ NL))]\<rparr>"

lemma row_of_simps [simp]:
  "wf_value (row_of i t) = (valid_utf8 i \<and> valid_utf8 t)" "ObjStr (row_of i t) ''artifact_id'' = i"
  "ObjStr (row_of i t) ''registered_at'' = t" "ObjStr (row_of i t) ''kind'' = ''report''" "ObjStr (row_of i t) ''path'' = ''report.md''"
  "ObjStr (row_of i t) ''sha256'' = ''0''"
  by (auto simp: row_of_def ObjStr_def ObjAt_def)

lemma st_art_simps [simp]:
  "wf_value st_art" "vkind st_art = KObj" "ObjAt st_art ''events'' = VArr []" "vkind (ObjAt st_art ''artifacts'') = KArr"
  "artifact_rows st_art = [row_of ''A'' ''2026-01-01'', row_of ''B'' ''2026-01-02'']"
  by (auto simp: st_art_def ObjAt_def artifact_rows_def intro!: valid_utf8_ascii)

lemma art_world_files [simp]:
  "kv_find (files art_world) StatePath = Some (File True (DumpIndented st_art @ NL))"
  "kv_find (files art_world) EventsPath = Some (File True [])" "kv_find (files art_world) WaiversPath = None"
  "kv_find (files art_world) ''report.md'' = Some (File True ''hello'')"
  "kv_find (files art_world) LinksPath = Some (File True (DumpIndented links0 @ NL))"
  by (simp_all add: art_world_def world_with_def StatePath_def EventsPath_def WaiversPath_def LinksPath_def)

lemma settled_art_world: "settled ev0 st_art [] art_world"
proof -
  have "content_of EventsPath art_world = []" "accessible art_world EventsPath" by (simp_all add: content_of_def accessible_def)
  moreover have "undisturbed art_world" by (simp add: art_world_def world_with_def undisturbed_def)
  moreover have "waivers_ok art_world []" by (rule no_waivers) (simp_all add: waived_event_keys_def)
  ultimately show ?thesis using parse_Indented_NL [of st_art]
    by (simp add: settled_def healthy_def State_Inr saved_def)
qed

lemma resolve_row_of [simp]: "resolveArtifactPath site0 (row_of i t) = ''/c/report.md''"
proof -
  have "joinRoot ''/c'' ''report.md'' = ''/c/report.md''" by (simp add: joinRoot_def IsAbs_def has_prefix_def slash_def)
  moreover have "\<not> IsAbs ''report.md''" by (simp add: IsAbs_def has_prefix_def slash_def)
  ultimately show ?thesis by (simp add: resolveArtifactPath_def site0_def)
qed

lemma loc_report [simp]: "loc site0 ''/c/report.md'' = ''report.md''" by (simp add: site0_def)

lemma row_A_cited: "cited site0 ev0 ''A'' art_world"
proof -
  have f: "find (has_artifact_id ''A'') (artifact_rows st_art) = Some (row_of ''A'' ''2026-01-01'')" by (simp add: has_artifact_id_def)
  have s: "artifactShaCitedRow site0 [] ''0'' art_world = (Inr None, art_world)"
    by (simp add: artifactShaCitedRow_def ArtifactCitedExecIDs_def named_execs_def bindE_def)
  have "wf_value links0" by (auto simp: links0_def intro!: valid_utf8_ascii)
  then have l: "citationLinks art_world = (Inr links0, art_world)"
    using parse_Indented_NL [of links0] by (simp add: citationLinks_def catchE_def ReadFile_def parseE_def)
  have "first_some (link_reason ''A'') (vO (ObjAt links0 ''invariants'')) \<noteq> None"
    by (simp add: links0_def ObjAt_def link_reason_def ObjStr_def)
  then have "\<exists>why. fst (artifactIDCitedByRegistry site0 ''A'' art_world) = Inr (Some why)"
    using l by (auto simp: artifactIDCitedByRegistry_def bindE_def)
  then show ?thesis unfolding cited_iff [OF settled_art_world] using f s by auto
qed

definition zeros :: "nat list" where
  "zeros = [0, 0, 0, 0, 0, 0, 0, 0, 0, 0, 0, 0, 0, 0, 0, 0]"

lemma newId_zeros: "newId zeros ''ART'' 8 = ''ART-00000000''"
  by (simp add: zeros_def newId_def HexEncode_def uuid4_bits_def hex_byte_def hexd_def)

lemma encode_ascii: "\<forall>c\<in>set s. (of_char c :: nat) < 128 \<Longrightarrow> concat (map encode_rune (map of_char s)) = s"
  by (induction s) (simp_all add: encode_rune_ascii)

lemma artifact_id_zeros: "artifact_id site0 zeros ''report'' = ''rep-00000000''"
proof -
  have "take 3 (runes ''report'') = map of_char ''rep''" by (simp add: numeral_3_eq_3)
  moreover have "concat (map encode_rune (map of_char ''rep'')) = ''rep''" by (rule encode_ascii) simp
  ultimately have "first3Upper site0 ''report'' = ''rep''" by (simp add: first3Upper_def site0_def)
  then show ?thesis by (simp add: artifact_id_def newId_zeros has_prefix_def)
qed

lemma texts_report: "register_texts site0 ev0 zeros ''report'' ''/c/report.md'' '''' None"
proof -
  have p: "stored_path site0 ''/c/report.md'' = ''report.md''"
    by (simp add: stored_path_def site0_def path_parts_def slash_def Let_def)
  have b: "valid_utf8 (build ev0)" by (auto simp: ev0_def intro!: valid_utf8_ascii)
  show ?thesis unfolding register_texts_def artifact_id_zeros p using b by (auto intro!: valid_utf8_ascii)
qed

text \<open>A campaign with a row that pins the bytes of its file and a row whose file is gone.\<close>

definition step_row :: "string \<Rightarrow> string \<Rightarrow> string \<Rightarrow> value" where
  "step_row i p sha = VObj [(''artifact_id'', VStr i), (''path'', VStr p), (''sha256'', VStr sha)]"

definition st_step :: "value" where
  "st_step = VObj [(''campaign_id'', VStr ''c1''), (''events'', VArr []),
     (''artifacts'', VArr [step_row ''A'' ''report.md'' (Sha256Hex ''hello''), step_row ''B'' ''gone.md'' ''0''])]"

definition step_world :: world where
  "step_world = (world_with [] st_step)\<lparr>files := files (world_with [] st_step) @ [(''report.md'', File True ''hello'')]\<rparr>"

lemma step_row_simps [simp]:
  "wf_value (step_row i p sha) = (valid_utf8 i \<and> valid_utf8 p \<and> valid_utf8 sha)" "ObjStr (step_row i p sha) ''artifact_id'' = i"
  "ObjStr (step_row i p sha) ''path'' = p" "ObjStr (step_row i p sha) ''sha256'' = sha"
  by (auto simp: step_row_def ObjStr_def ObjAt_def)

lemma st_step_simps [simp]:
  "wf_value st_step" "vkind st_step = KObj" "ObjAt st_step ''events'' = VArr []"
  "artifact_rows st_step = [step_row ''A'' ''report.md'' (Sha256Hex ''hello''), step_row ''B'' ''gone.md'' ''0'']"
  by (auto simp: st_step_def ObjAt_def artifact_rows_def intro!: valid_utf8_ascii)

lemma step_world_files [simp]:
  "kv_find (files step_world) StatePath = Some (File True (DumpIndented st_step @ NL))"
  "kv_find (files step_world) EventsPath = Some (File True [])" "kv_find (files step_world) WaiversPath = None"
  "kv_find (files step_world) ''report.md'' = Some (File True ''hello'')" "kv_find (files step_world) ''gone.md'' = None"
  "flocks step_world = []"
  by (simp_all add: step_world_def world_with_def StatePath_def EventsPath_def WaiversPath_def)

lemma settled_step_world: "settled ev0 st_step [] step_world"
proof -
  have "content_of EventsPath step_world = []" "accessible step_world EventsPath" by (simp_all add: content_of_def accessible_def)
  moreover have "undisturbed step_world" by (simp add: step_world_def world_with_def undisturbed_def)
  moreover have "waivers_ok step_world []" by (rule no_waivers) (simp_all add: waived_event_keys_def)
  ultimately show ?thesis using parse_Indented_NL [of st_step]
    by (simp add: settled_def healthy_def State_Inr saved_def)
qed

lemma loc_step_row [simp]: "loc site0 (resolveArtifactPath site0 (step_row i ''report.md'' sha)) = ''report.md''"
  "loc site0 (resolveArtifactPath site0 (step_row i ''gone.md'' sha)) = ''gone.md''"
  by (simp_all add: resolveArtifactPath_def site0_def joinRoot_def IsAbs_def has_prefix_def slash_def)

lemma step_world_reconciled:
  "\<exists>w'. ReconcileArtifacts site0 ev0 False step_world =
     (Inr (reconcile_report 2 False \<lparr>rc_refreshed = [], rc_unchanged = 1, rc_missing = [(''B'', ''/c/gone.md'')]\<rparr>), w')"
proof -
  obtain w1 where lk: "LockProcess step_world = (Inr (), w1)" "files w1 = files step_world" "flocks w1 = []"
    using LockProcess_free [OF step_world_files(6)] by blast
  have "State ev0 step_world = (Inr st_step, step_world)" using settled_step_world by (simp add: settled_def healthy_def)
  then have st: "State ev0 w1 = (Inr st_step, w1)" using lk(2) parse_Indented_NL [of st_step] by (simp add: State_Inr saved_def)
  have p: "resolveArtifactPath site0 (step_row ''B'' ''gone.md'' ''0'') = ''/c/gone.md''"
    by (simp add: resolveArtifactPath_def site0_def joinRoot_def IsAbs_def has_prefix_def slash_def)
  have gone: "loc site0 ''/c/gone.md'' = ''gone.md''" by (simp add: site0_def)
  have "reconcile_rows site0 ev0 False (artifact_rows st_step) acc w1 = (Inr (acc\<lparr>rc_unchanged := rc_unchanged acc + 1,
      rc_missing := rc_missing acc @ [(''B'', ''/c/gone.md'')]\<rparr>), w1)" for acc
    by (simp del: reconcile_rows.simps add: reconcile_rows_Cons reconcile_rows.simps(1) Let_def lk(2) p gone ret_def)
  moreover have "length (artifact_rows st_step) = 2" by simp
  ultimately show ?thesis by (simp add: ReconcileArtifacts_def with_lock_run [OF lk(1)] bindE_def st ret_def del: reconcile_rows.simps st_step_simps(4))
qed

section \<open>Refreshing a row\<close>

text \<open>C30: \<open>RefreshArtifact\<close> on a settled campaign, for a row of a file that is neither the state nor the
  ledger. When it returns, the reason is not blank, the row carries the hash of the bytes the file has,
  it stands in place of the old row, the verified ledger's newest event records both hashes, and the
  pinned read of the new row hands out those bytes. When it fails, the state is the one it found.\<close>

theorem artifact_refreshed:
  assumes "env_ok ev" "valid_utf8 reason" "valid_utf8 who" "settled ev st es w"
    and "i \<noteq> []" "find (has_artifact_id i) (artifact_rows st) = Some a" "loc pl (resolveArtifactPath pl a) \<notin> {EventsPath, StatePath}"
    and "RefreshArtifact pl ev i reason who w = (r, w')"
  shows "oversize w' \<or> (case r of
      Inl _ \<Rightarrow> unchanged ev st es w'
    | Inr row \<Rightarrow> TrimSpace reason \<noteq> [] \<and> (\<exists>f t st'. kv_find (files w) (loc pl (resolveArtifactPath pl a)) = Some f \<and>
        row = refreshed_row a [] (Sha256Hex (content f)) t reason \<and>
        same_fields (with_rows st (put_first (has_artifact_id i) row (artifact_rows st))) st' \<and>
        recorded ev st' es ''artifact.refreshed'' (Some i)
          (refreshed_data a row [] (Sha256Hex (content f)) (if who = [] then ''operator'' else who) reason) w' \<and>
        ArtifactBytes pl row w' = (Inr (content f), w')))"
proof -
  let ?q = "loc pl (resolveArtifactPath pl a)" and ?fs = "kv_find (files w)"
  let ?post = "refresh_post ev st es i a (?fs ?q) reason who []"
  note v = v_RefreshArtifact [OF assms(1,6,2,3,4), of pl "?fs ?q" ?fs]
  have h: "healthy_with ev st es ?q (?fs ?q) w \<and> aside ?fs w"
    using settled_healthy [OF assms(4)] aside_refl by (simp add: healthy_with_def)
  have obj: "vkind a = KObj" by (rule named_is_object [of _ "''artifact_id''"]) (use find_has_id [OF assms(6)] assms(5) in simp)
  have win: "window_ok es (vA (ObjAt st ''events''))" using assms(4) by (simp add: settled_def)
  from valid_outcome [OF v h assms(8)] show ?thesis
  proof (elim disjE)
    assume out: "case r of Inr row \<Rightarrow> ?post row w' \<and> aside ?fs w' | Inl _ \<Rightarrow> may_lag ev st es w' \<and> aside ?fs w'"
    show ?thesis
    proof (cases r)
      case (Inl e)
      with out may_lag_unchanged show ?thesis by simp
    next
      case (Inr row)
      with out obtain f t st' where p: "TrimSpace reason \<noteq> []" "?fs ?q = Some f" "readable f" "aside ?fs w'"
        "row = refreshed_row a [] (Sha256Hex (content f)) t reason"
        "same_fields (with_rows st (put_first (has_artifact_id i) row (artifact_rows st))) st'"
        "appended ev st' es True ''artifact.refreshed'' (Some i)
          (refreshed_data a row [] (Sha256Hex (content f)) (if who = [] then ''operator'' else who) reason) w'"
        using win by (auto simp: refresh_post_def rows_post_def)
      have "kv_find (files w') ?q = Some f" using p(2,4) assms(7) by (simp add: aside_def)
      then have "ArtifactBytes pl row w' = (Inr (content f), w')"
        by (rule pinned_bytes) (simp_all add: p(3,5) obj)
      with Inr p appended_recorded [OF p(7)] show ?thesis by auto
    qed
  qed simp
qed

theorem artifact_refreshed_witness:
  "\<exists>r w'. RefreshArtifact site0 ev0 ''A'' ''rewritten'' '''' art_world = (r, w') \<and> (oversize w' \<or> (case r of
      Inl _ \<Rightarrow> unchanged ev0 st_art [] w'
    | Inr row \<Rightarrow> ArtifactBytes site0 row w' = (Inr ''hello'', w')))"
proof -
  obtain r w' where run: "RefreshArtifact site0 ev0 ''A'' ''rewritten'' '''' art_world = (r, w')"
    by (cases "RefreshArtifact site0 ev0 ''A'' ''rewritten'' '''' art_world")
  have f: "find (has_artifact_id ''A'') (artifact_rows st_art) = Some (row_of ''A'' ''2026-01-01'')" by (simp add: has_artifact_id_def)
  have "''report.md'' \<notin> {EventsPath, StatePath}" by (simp add: EventsPath_def StatePath_def)
  then have "oversize w' \<or> (case r of Inl _ \<Rightarrow> unchanged ev0 st_art [] w'
      | Inr row \<Rightarrow> ArtifactBytes site0 row w' = (Inr ''hello'', w'))"
    using artifact_refreshed [OF env_ok_ev0 _ _ settled_art_world _ f _ run] by (auto split: sum.splits)
  with run show ?thesis by blast
qed

section \<open>Re-registering a path\<close>

text \<open>C29: re-registering a path of a settled campaign whose rows have distinct identifiers. However it
  ends, every row that live evidence named when it began is in the registry still. When it returns, the
  ledger verifies, the rows of the path are the one it returns and those it reports as kept, and the
  rows of every other path are untouched.\<close>

theorem cited_rows_survive:
  assumes "env_ok ev" "register_texts pl ev b kind path note snap" "valid_utf8 reason" "settled ev st es w"
    and "distinct (row_ids (artifact_rows st))" "vkind (ObjAt st ''artifacts'') = KArr"
    and "RegisterOrRefreshKeptGhosts pl ev b kind path note snap reason w = (r, w')"
  shows "oversize w' \<or> (\<exists>st'. State ev w' = (Inr st', w') \<and>
     (\<forall>i. cited pl ev i w \<longrightarrow> i \<in> set (row_ids (artifact_rows st'))) \<and>
     (case r of
        Inl _ \<Rightarrow> True
      | Inr (j, kept) \<Rightarrow> verify_green ev w' \<and> j \<in> set (row_ids (artifact_rows st')) \<and>
          (\<forall>a\<in>set (artifact_rows st'). same_path pl (resolvePath pl path) a \<longrightarrow>
             ObjStr a ''artifact_id'' = j \<or> ObjStr a ''artifact_id'' \<in> set (map ArtifactID kept)) \<and>
          (\<forall>a\<in>set (artifact_rows st). \<not> same_path pl (resolvePath pl path) a \<longrightarrow> a \<in> set (artifact_rows st'))))"
proof -
  let ?p = "resolvePath pl path" and ?C = "{i. cited pl ev i w}"
  have "settled ev st es w \<and> aside (kv_find (files w)) w" using assms(4) aside_refl by blast
  from valid_outcome [OF v_RegisterOrRefresh [OF assms(1-6)] this assms(7)] show ?thesis
  proof (elim disjE)
    assume out: "case r of Inr x \<Rightarrow> (case x of (j, kept) \<Rightarrow> reregistered pl ev (artifact_rows st) ?p ?C j kept) w' | Inl _ \<Rightarrow> evidence_left ev ?C w'"
    show ?thesis
    proof (cases r)
      case (Inl e)
      with out obtain st1 es1 where "may_lag ev st1 es1 w'" "?C \<subseteq> set (row_ids (artifact_rows st1))" by (auto simp: evidence_left_def)
      moreover from this have "State ev w' = (Inr st1, w')" by (auto simp: may_lag_def healthy_def)
      ultimately show ?thesis using Inl by auto
    next
      case (Inr x)
      obtain j kept where x: "x = (j, kept)" by (cases x)
      with out Inr obtain st1 es1 where s: "settled ev st1 es1 w'" "j \<in> set (row_ids (artifact_rows st1))" "?C \<subseteq> set (row_ids (artifact_rows st1))"
        "\<forall>a\<in>set (artifact_rows st1). same_path pl ?p a \<longrightarrow> ObjStr a ''artifact_id'' \<in> insert j (set (map ArtifactID kept))"
        "\<forall>a\<in>set (artifact_rows st). \<not> same_path pl ?p a \<longrightarrow> a \<in> set (artifact_rows st1)"
        by (auto simp: reregistered_def Let_def)
      have "State ev w' = (Inr st1, w')" using s(1) by (simp add: settled_def healthy_def)
      with s settled_green [OF s(1)] show ?thesis unfolding Inr x sum.case prod.case
        by (intro disjI2 exI [of _ st1]) auto
    qed
  qed simp
qed

theorem cited_rows_survive_witness:
  "\<exists>r w'. RegisterOrRefreshKeptGhosts site0 ev0 zeros ''report'' ''/c/report.md'' '''' None ''rewritten'' art_world = (r, w') \<and>
     cited site0 ev0 ''A'' art_world \<and> (oversize w' \<or> (\<exists>st'. State ev0 w' = (Inr st', w') \<and> ''A'' \<in> set (row_ids (artifact_rows st'))))"
proof -
  obtain r w' where run: "RegisterOrRefreshKeptGhosts site0 ev0 zeros ''report'' ''/c/report.md'' '''' None ''rewritten'' art_world = (r, w')"
    by (cases "RegisterOrRefreshKeptGhosts site0 ev0 zeros ''report'' ''/c/report.md'' '''' None ''rewritten'' art_world")
  have d: "distinct (row_ids (artifact_rows st_art))" by (simp add: row_ids_def)
  have k: "vkind (ObjAt st_art ''artifacts'') = KArr" by simp
  show ?thesis
    using cited_rows_survive [OF env_ok_ev0 texts_report _ settled_art_world d k run] run row_A_cited by auto
qed

section \<open>Reconciling\<close>

text \<open>C31: reconciling a settled campaign whose rows have distinct identifiers and lie outside the two files of the
  campaign. When it returns, the ledger verifies, the registry has the same rows under the same
  identifiers, no file but the two has changed, and every row is in step: its file is missing, it pins
  nothing, or it pins the bytes its file has now.\<close>

theorem reconcile_settles:
  assumes "env_ok ev" "settled ev st es w" "distinct (row_ids (artifact_rows st))" "[] \<notin> set (row_ids (artifact_rows st))"
    and "rows_outside pl (artifact_rows st)" "ReconcileArtifacts pl ev False w = (Inr report, w')"
  shows "oversize w' \<or> (\<exists>st'. State ev w' = (Inr st', w') \<and> verify_green ev w' \<and>
     row_ids (artifact_rows st') = row_ids (artifact_rows st) \<and> aside (kv_find (files w)) w' \<and>
     (\<forall>a\<in>set (artifact_rows st'). case kv_find (files w') (loc pl (resolveArtifactPath pl a)) of
        None \<Rightarrow> True
      | Some f \<Rightarrow> ObjStr a ''sha256'' \<in> {[], Sha256Hex (content f)}))"
proof -
  let ?fs = "kv_find (files w)"
  have "settled ev st es w \<and> aside ?fs w" using assms(2) aside_refl by blast
  from valid_outcome [OF v_ReconcileArtifacts [OF assms(1-5)] this assms(6)] show ?thesis
  proof (elim disjE)
    assume "case Inr report of Inr x \<Rightarrow> reconciling pl ev ?fs (row_ids (artifact_rows st)) [] w' | Inl _ \<Rightarrow> ids_left ev (row_ids (artifact_rows st)) w'"
    then obtain st' es' where s: "aside ?fs w'" "settled ev st' es' w'" "row_ids (artifact_rows st') = row_ids (artifact_rows st)"
      "rows_outside pl (artifact_rows st')" "\<forall>a\<in>set (artifact_rows st'). in_step pl ?fs a" by (auto simp: reconciling_def)
    have "kv_find (files w') (loc pl (resolveArtifactPath pl a)) = ?fs (loc pl (resolveArtifactPath pl a))" if "a \<in> set (artifact_rows st')" for a
      using that s(1,4) by (auto simp: aside_def rows_outside_def)
    moreover have "State ev w' = (Inr st', w')" using s(2) by (simp add: settled_def healthy_def)
    ultimately show ?thesis using s settled_green [OF s(2)]
      by (intro disjI2 exI [of _ st']) (auto simp: in_step_def split: option.splits)
  qed simp
qed

theorem reconcile_settles_witness:
  "\<exists>report w'. ReconcileArtifacts site0 ev0 False step_world = (Inr report, w') \<and> (oversize w' \<or> (\<exists>st'. State ev0 w' = (Inr st', w') \<and>
     verify_green ev0 w' \<and> row_ids (artifact_rows st') = [''A'', ''B'']))"
proof -
  obtain report w' where run: "ReconcileArtifacts site0 ev0 False step_world = (Inr report, w')" using step_world_reconciled by blast
  have ids: "row_ids (artifact_rows st_step) = [''A'', ''B'']" by (simp add: row_ids_def)
  have out: "rows_outside site0 (artifact_rows st_step)" by (simp add: rows_outside_def EventsPath_def StatePath_def)
  show ?thesis using reconcile_settles [OF env_ok_ev0 settled_step_world _ _ out run] run unfolding ids by auto
qed

end
