(* ===== verification/SandboxPolicy.thy ===== *)
theory SandboxPolicy
  imports GateRun Notes
begin

text \<open>
  What a sandboxed command may do and how it is started (\<^verbatim>\<open>internal/sandbox/profiles.go\<close>,
  \<^verbatim>\<open>preview.go\<close>, \<^verbatim>\<open>toolversions.go\<close>, \<^verbatim>\<open>exec_failure_class.go\<close>): the profiles and
  their labels, the deny rules as patterns over runes, the argument vector of the container, the dry
  preview and the probe of the host's tools. What the host answers is a record.
\<close>

record CaptureTotal =
  Total :: int
  KeptBytes :: int

record ProcResult =
  ReturnCode :: int
  Stdout :: string
  Stderr :: string
  TimeoutNote :: string
  KillUnconfirmed :: bool
  OutputWithheld :: bool
  StdoutCap :: CaptureTotal
  StderrCap :: CaptureTotal

text \<open>A finished process, one that was stopped at its deadline, or one that never ran.\<close>

datatype proc_end = Finished | TimedOut | NeverRan string

type_synonym env_var = "string \<times> string"

record host =
  getenv :: "string \<Rightarrow> string"
  environ :: "string list"
  realPath :: "string \<Rightarrow> string"
  isDir :: "string \<Rightarrow> bool"
  walk :: "string \<Rightarrow> (string \<times> (string + string)) list"
  lookPath :: "string \<Rightarrow> bool"
  forkURL :: "string \<Rightarrow> string"
  runProc :: "string list \<Rightarrow> string \<Rightarrow> string list option \<Rightarrow> int \<Rightarrow> ProcResult \<times> proc_end"
  campaignRoot :: string

section \<open>Profiles\<close>

definition Profiles :: "string list" where
  "Profiles = [''host-readonly'', ''halmos'', ''forge-fuzz'', ''minicertora'',
     ''docker-networkless'', ''docker-gvisor'', ''vm-snapshot'', ''fork-runner'']"

definition inProfiles :: "string \<Rightarrow> bool" where
  "inProfiles profile = list_ex (\<lambda>p. p = profile) Profiles"

definition HostProfile :: "string \<Rightarrow> bool" where
  "HostProfile profile = list_ex (\<lambda>p. p = profile) [''host-readonly'', ''halmos'', ''forge-fuzz'', ''minicertora'']"

definition profileNetwork :: "string \<Rightarrow> string" where
  "profileNetwork profile = (if \<not> inProfiles profile then []
     else if profile = ''fork-runner'' then ''bridge-host-gateway'' else ''none'')"

definition profileFilesystem :: "string \<Rightarrow> string" where
  "profileFilesystem profile = (if \<not> inProfiles profile then []
     else if HostProfile profile then ''readonly'' else ''sandbox-tmp'')"

definition networkLabel :: "string \<Rightarrow> string" where
  "networkLabel profile =
     (if HostProfile profile then ''host (unconfined '' @ dash @ '' nothing enforces network-off)'' else profileNetwork profile)"

definition profileFilesystemLabel :: "string \<Rightarrow> string" where
  "profileFilesystemLabel profile =
     (if HostProfile profile
      then ''host (unconfined '' @ dash @ '' nothing enforces readonly; deny-rule tripwires only)''
      else profileFilesystem profile)"

definition probeDockerDaemon :: "host \<Rightarrow> bool" where
  "probeDockerDaemon hs \<longleftrightarrow> lookPath hs ''docker'' \<and>
     (case runProc hs [''docker'', ''info''] [] None 20 of (res, Finished) \<Rightarrow> ReturnCode res = 0 | _ \<Rightarrow> False)"

definition ProfileAvailable :: "host \<Rightarrow> string \<Rightarrow> bool" where
  "ProfileAvailable hs profile =
     (if HostProfile profile then True
      else if list_ex (\<lambda>p. p = profile) [''docker-networkless'', ''docker-gvisor'', ''fork-runner''] then probeDockerDaemon hs
      else False)"

definition unknown_profile :: "string \<Rightarrow> error" where
  "unknown_profile profile = ERefused ''unknown profile'' [PyReprStr profile]"

definition NewSandbox :: "host \<Rightarrow> string \<Rightarrow> error + unit" where
  "NewSandbox hs profile =
     (if \<not> inProfiles profile then Inl (unknown_profile profile)
      else if \<not> ProfileAvailable hs profile
        then Inl (ERefused ''profile requires runtime infrastructure not present on this host'' [PyReprStr profile])
      else Inr ())"

section \<open>The deny rules\<close>

text \<open>The expressions of the code use literals, white space and explicit word boundaries only. A boundary in
  front is a flag of the alternative; a boundary behind is the last item. Every literal that follows
  white space starts with another rune, so the longest run is the one that matches.\<close>

datatype pat = Lit string | Spaces nat | Boundary

definition pySpace :: "nat \<Rightarrow> bool" where
  "pySpace r \<longleftrightarrow> r \<in> {0x09, 0x0A, 0x0B, 0x0C, 0x0D, 0x20, 0xA0, 0x1680, 0x2028, 0x2029, 0x202F, 0x205F, 0x3000} \<or>
     (0x2000 \<le> r \<and> r \<le> 0x200A)"

fun match_here :: "harness \<Rightarrow> pat list \<Rightarrow> nat list \<Rightarrow> nat list option" where
  "match_here h [] rs = Some rs"
| "match_here h (Lit s # ps) rs =
     (if rune_prefix (runes s) rs then match_here h ps (drop (length (runes s)) rs) else None)"
| "match_here h (Spaces n # ps) rs =
     (let k = length (takeWhile pySpace rs) in if k < n then None else match_here h ps (drop k rs))"
| "match_here h (Boundary # ps) rs = (if isPyWord h rs then None else match_here h ps rs)"

text \<open>What follows each match; \<open>before\<close> holds the runes already passed, the last one first.\<close>

fun match_rests :: "harness \<Rightarrow> bool \<times> pat list \<Rightarrow> nat list \<Rightarrow> nat list \<Rightarrow> nat list list" where
  "match_rests h alt before [] = []"
| "match_rests h alt before (r # rs) =
     (if fst alt \<and> isPyWord h before then []
      else (case match_here h (snd alt) (r # rs) of None \<Rightarrow> [] | Some rest \<Rightarrow> [rest]))
     @ match_rests h alt (r # before) rs"

type_synonym deny_rule = "string \<times> (bool \<times> pat list) list"

definition bounded :: "string list \<Rightarrow> (bool \<times> pat list) list" where
  "bounded words = map (\<lambda>w. (True, [Lit w, Boundary])) words"

definition denyRules :: "deny_rule list" where
  "denyRules =
     [(''network-egress-tool'', bounded [''curl'', ''wget'', ''nc'', ''ssh'', ''scp'']),
      (''privilege-escalation'', bounded [''eval'', ''sudo'', ''su''] @ [(True, [Lit ''chmod'', Spaces 1, Lit ''777'', Boundary])]),
      (''destructive-path'', [(False, [Lit ''rm'', Spaces 1, Lit ''-rf'', Spaces 1, Lit ''/''])]),
      (''secret-access'', [(False, [Lit ''.ssh'']), (False, [Lit ''.aws'']), (False, [Lit ''.env'', Boundary]),
         (False, [Lit ''id_rsa'']), (False, [Lit ''credentials''])]),
      (''external-publish'', [(False, [Lit ''git'', Spaces 1, Lit ''push'']), (False, [Lit ''docker'', Spaces 1, Lit ''push''])]),
      (''system-write'', [(False, [Lit ''>'', Spaces 0, Lit ''/etc/'']), (False, [Lit ''>>'', Spaces 0, Lit ''/etc/''])])]"

text \<open>The destructive path tolerates \<open>tmp\<close> behind the slash.\<close>

definition ruleViolated :: "harness \<Rightarrow> deny_rule \<Rightarrow> string \<Rightarrow> bool" where
  "ruleViolated h rule command =
     list_ex (\<lambda>alt. list_ex (\<lambda>rest. fst rule \<noteq> ''destructive-path'' \<or> \<not> rune_prefix (runes ''tmp'') rest)
       (match_rests h alt [] (runes command))) (snd rule)"

definition PolicyCheck :: "harness \<Rightarrow> string \<Rightarrow> string \<Rightarrow> error + value" where
  "PolicyCheck h command profile =
     (if \<not> inProfiles profile then Inl (unknown_profile profile)
      else let violations = map fst (filter (\<lambda>rule. ruleViolated h rule command) denyRules) in
        Inr (VObj [(''allowed'', VBool (violations = [])), (''violations'', VArr (map VStr violations)),
                   (''checked_rules'', VArr (map VStr (map fst denyRules)))]))"

section \<open>The container\<close>

definition DockerImage :: "host \<Rightarrow> string" where
  "DockerImage hs = (let v = getenv hs ''WEBV2_DOCKER_IMAGE'' in
     if v \<noteq> [] then v else ''ghcr.io/foundry-rs/foundry:latest'')"

definition SolcDir :: "host \<Rightarrow> string option" where
  "SolcDir hs = (let raw = getenv hs ''WEBV2_SOLC_DIR'' in
     if raw = [] \<or> \<not> isDir hs (realPath hs raw) then None else Some (realPath hs raw))"

definition hasEnvKey :: "env_var list \<Rightarrow> string \<Rightarrow> bool" where
  "hasEnvKey vars key = list_ex (\<lambda>e. fst e = key) vars"

record ContainerMeta =
  cm_image :: string
  cm_runtime :: "string option"
  cm_network :: string
  cm_workdir :: string
  cm_env_keys :: "string list"
  cm_svm_mount :: "string option"

definition optStrValue :: "string option \<Rightarrow> value" where
  "optStrValue p = (case p of None \<Rightarrow> VNull | Some s \<Rightarrow> VStr s)"

definition containerValue :: "ContainerMeta \<Rightarrow> value" where
  "containerValue m =
     VObj [(''image'', VStr (cm_image m)), (''runtime'', optStrValue (cm_runtime m)), (''network'', VStr (cm_network m)),
       (''workdir'', VStr (cm_workdir m)), (''env_keys'', VArr (map VStr (cm_env_keys m))),
       (''svm_mount'', optStrValue (cm_svm_mount m))]"

definition container_env :: "host \<Rightarrow> string \<Rightarrow> env_var list \<Rightarrow> env_var list" where
  "container_env hs profile vars =
     (let url = getenv hs ''FORK_RPC_URL'';
          e1 = (if profile = ''fork-runner'' \<and> \<not> hasEnvKey vars ''FORK_RPC_URL''
                then vars @ [(''FORK_RPC_URL'', if url = [] then ''http://host.docker.internal:8545'' else url)] else vars);
          e2 = (if hasEnvKey e1 ''FOUNDRY_LINT_ON_BUILD'' then e1 else e1 @ [(''FOUNDRY_LINT_ON_BUILD'', ''false'')])
      in if profile = ''fork-runner''
         then map (\<lambda>(k, v). (k, if k = ''FORK_RPC_URL'' then forkURL hs v else v)) e2 else e2)"

definition BuildContainerArgv ::
    "host \<Rightarrow> string \<Rightarrow> string \<Rightarrow> string option \<Rightarrow> env_var list \<Rightarrow> error + string list \<times> ContainerMeta" where
  "BuildContainerArgv hs profile command workdir vars =
     (if \<not> inProfiles profile then Inl (unknown_profile profile)
      else
        let gvisor = (profile = ''docker-gvisor'');
            offline = (profile = ''docker-networkless'' \<or> gvisor);
            cenv = container_env hs profile vars;
            argv = [''docker'', ''run'', ''--rm'', ''--init''] @ (if gvisor then [''--runtime=runsc''] else [])
              @ (if offline then [''--network'', ''none''] else [''--add-host'', ''host.docker.internal:host-gateway''])
              @ (case workdir of Some d \<Rightarrow> [''-v'', realPath hs d @ '':/wd'', ''-w'', ''/wd'']
                   | None \<Rightarrow> [''--tmpfs'', ''/wd:rw,size=1g'', ''-w'', ''/wd''])
              @ (case SolcDir hs of Some d \<Rightarrow> [''-v'', d @ '':/home/foundry/.svm''] | None \<Rightarrow> [])
              @ concat (map (\<lambda>(k, v). [''-e'', k @ ''='' @ v]) cenv)
              @ [''--entrypoint'', ''/bin/sh'', DockerImage hs, ''-c'', command]
        in Inr (argv, \<lparr>cm_image = DockerImage hs, cm_runtime = (if gvisor then Some ''runsc'' else None),
             cm_network = (if offline then ''none'' else ''bridge-host-gateway''),
             cm_workdir = (if workdir = None then ''tmpfs'' else ''bind''),
             cm_env_keys = sort (map fst cenv), cm_svm_mount = SolcDir hs\<rparr>))"

fun containerNameFromArgv :: "string list \<Rightarrow> string" where
  "containerNameFromArgv [] = []"
| "containerNameFromArgv (a # as) =
     (if a = ''--name'' \<and> as \<noteq> [] then hd as
      else if has_prefix ''--name='' a then drop 7 a
      else containerNameFromArgv as)"

definition withContainerName :: "string list \<Rightarrow> string \<Rightarrow> string list" where
  "withContainerName argv name =
     (if take 2 argv \<noteq> [''docker'', ''run''] then argv
      else if containerNameFromArgv argv \<noteq> [] then argv
      else take 2 argv @ [''--name'', name] @ drop 2 argv)"

section \<open>The preview\<close>

definition envKeyValues :: "env_var list \<Rightarrow> value list" where
  "envKeyValues vars = map VStr (sort (map fst vars))"

definition preview_base :: "host \<Rightarrow> string \<Rightarrow> string \<Rightarrow> string option \<Rightarrow> value list \<Rightarrow> kv list" where
  "preview_base hs profile command workdir keys =
     [(''profile'', VStr profile), (''available'', VBool (ProfileAvailable hs profile)), (''command'', VStr command),
      (''env_keys'', VArr keys), (''workdir'', optStrValue workdir), (''network'', VStr (networkLabel profile))]"

definition Preview :: "host \<Rightarrow> string \<Rightarrow> string \<Rightarrow> string option \<Rightarrow> env_var list \<Rightarrow> error + value" where
  "Preview hs profile command workdir vars =
     (if \<not> inProfiles profile then Inl (unknown_profile profile)
      else if HostProfile profile then Inr (VObj (preview_base hs profile command workdir (envKeyValues vars) @
        [(''note'', VStr (''runs on the HOST (no container): this exec can never back E4+ evidence '' @ dash
           @ '' use a container profile (docker-networkless, fork-runner, ...) for reproduction evidence''))]))
      else bindR (BuildContainerArgv hs profile command workdir vars) (\<lambda>(argv, m).
        Inr (VObj (preview_base hs profile command workdir (map VStr (cm_env_keys m)) @
          [(''argv'', VArr (map VStr argv)), (''image'', VStr (cm_image m)), (''workdir_mode'', VStr (cm_workdir m)),
           (''svm_mount'', optStrValue (cm_svm_mount m)),
           (''note'', VStr (''entrypoint is pinned to /bin/sh -c (the image'' @ sq @ ''s entrypoint is never used) '' @ dash
             @ '' the command runs verbatim as a shell string''))]))))"

section \<open>The tools of the host\<close>

definition pyFirstLine80 :: "string \<Rightarrow> string" where
  "pyFirstLine80 s = (let line = takeWhile (\<lambda>c. c \<noteq> CHR 0x0A) (TrimSpace s) in
     if 80 < length (runes line) then concat (map encode_rune (take 80 (runes line))) else line)"

fun version_of_lines :: "string list \<Rightarrow> string" where
  "version_of_lines [] = []"
| "version_of_lines (l # ls) = (let ln = TrimSpace l in
     if has_prefix ''Version:'' ln then takeWhile (\<lambda>c. c \<noteq> CHR ''+'' \<and> c \<noteq> CHR '' '') (TrimSpace (drop 8 ln))
     else version_of_lines ls)"

definition solcVersionLine :: "string \<Rightarrow> string" where
  "solcVersionLine s = version_of_lines (split_on (CHR 0x0A) s)"

definition probed_tools :: "string list" where
  "probed_tools = [''forge'', ''cast'', ''slither'', ''aderyn'', ''halmos'', ''minicertora'', ''miniprover'', ''solc'',
     ''python3'', ''docker'']"

definition tool_version :: "host \<Rightarrow> string \<Rightarrow> string" where
  "tool_version hs tool = (case runProc hs [tool, ''--version''] [] None 15 of
       (res, NeverRan _) \<Rightarrow> ''present (version probe failed)''
     | (res, _) \<Rightarrow>
         if tool = ''solc'' then solcVersionLine (Stdout res @ Stderr res)
         else pyFirstLine80 (if Stdout res = [] then Stderr res else Stdout res))"

definition toolVersions :: "host \<Rightarrow> value" where
  "toolVersions hs = VObj (map (\<lambda>t. (t, VStr (tool_version hs t))) (filter (lookPath hs) probed_tools))"

section \<open>The archived failure class\<close>

definition FailureClassKV :: "harness \<Rightarrow> value \<Rightarrow> kv" where
  "FailureClassKV h rec = (''failure_class'', VStr (ObjStr (ClassifyFailure h rec) ''class''))"

end
