(* ===== verification/ExecWriter.thy ===== *)
theory ExecWriter
  imports SandboxPolicy Artifacts
begin

text \<open>
  The two writers of an execution record (\<^verbatim>\<open>internal/sandbox/exec.go\<close>, \<^verbatim>\<open>register_exec.go\<close>, with
  \<^verbatim>\<open>execdir_txn.go\<close>, \<^verbatim>\<open>exec_record.go\<close>, \<^verbatim>\<open>execute.go\<close>, \<^verbatim>\<open>capture.go\<close>, \<^verbatim>\<open>hashing.go\<close>): each opens a
  directory, writes the captured output and the record into it, and logs one event that carries the
  record's digest; a refusal removes the directory again. Running a process is an answer of the host.
\<close>

section \<open>The directory transaction\<close>

record execDirTxn =
  txn_dir :: string
  txn_existed :: bool
  txn_created :: "string list"

definition below_dir :: "string \<Rightarrow> string \<Rightarrow> bool" where
  "below_dir d p \<longleftrightarrow> has_prefix (d @ [slash]) p"

definition beginExecDir :: "string \<Rightarrow> execDirTxn op" where
  "beginExecDir d w =
     bindE (\<lambda>w. case next_fault w of IOok \<Rightarrow> (Inr (), spend w) | IOfail n \<Rightarrow> (Inl (EIO d), spend w))
       (\<lambda>_. ret \<lparr>txn_dir = d, txn_existed = list_ex (below_dir d) (map fst (files w)), txn_created = []\<rparr>) w"

definition note_paths :: "execDirTxn \<Rightarrow> string list \<Rightarrow> execDirTxn" where
  "note_paths t paths = t\<lparr>txn_created := txn_created t @ paths\<rparr>"

text \<open>\<open>os.RemoveAll\<close> of one directory; a failing removal may have removed some of its files.\<close>

definition remove_tree :: "string \<Rightarrow> unit op" where
  "remove_tree d w = (case next_fault w of
       IOok \<Rightarrow> (Inr (), spend (w\<lparr>files := filter (\<lambda>e. \<not> below_dir d (fst e)) (files w)\<rparr>))
     | IOfail n \<Rightarrow> (Inl (EIO d), spend (w\<lparr>files := filter (\<lambda>e. fst e \<notin> set (take n (filter (below_dir d) (map fst (files w))))) (files w)\<rparr>)))"

text \<open>The first error that is not an absence is kept; every file is tried.\<close>

fun remove_created :: "string list \<Rightarrow> error option \<Rightarrow> error option op" where
  "remove_created [] first = ret first"
| "remove_created (p # ps) first = catchE (remove_file p) (\<lambda>r. remove_created ps (case r of
       Inl e \<Rightarrow> if \<not> is_not_exist e \<and> first = None then Some e else first
     | Inr _ \<Rightarrow> first))"

definition unwind_dir :: "execDirTxn \<Rightarrow> unit op" where
  "unwind_dir t =
     (if \<not> txn_existed t then remove_tree (txn_dir t)
      else bindE (remove_created (txn_created t) None) (\<lambda>first. case first of None \<Rightarrow> ret () | Some e \<Rightarrow> fail e))"

definition txn_fail :: "execDirTxn \<Rightarrow> error \<Rightarrow> 'a op" where
  "txn_fail t e = catchE (unwind_dir t) (\<lambda>r. case r of
       Inl rerr \<Rightarrow> fail (EUnwindFailed e rerr)
     | Inr _ \<Rightarrow> fail e)"

definition or_txn :: "execDirTxn \<Rightarrow> 'a op \<Rightarrow> 'a op" where
  "or_txn t m = catchE m (\<lambda>r. case r of Inl e \<Rightarrow> txn_fail t e | Inr x \<Rightarrow> ret x)"

section \<open>Hashes and captured output\<close>

definition shaFile :: "string \<Rightarrow> string op" where
  "shaFile p = catchE (Sha256File p) (\<lambda>r. ret (case r of Inl _ \<Rightarrow> [] | Inr digest \<Rightarrow> digest))"

definition hashDir :: "host \<Rightarrow> string option \<Rightarrow> value" where
  "hashDir hs d = (case d of
       None \<Rightarrow> VObj []
     | Some d \<Rightarrow> let base = realPath hs d in
         if \<not> isDir hs base then VObj []
         else VObj (map (\<lambda>(rel, r). (rel, VStr (case r of
                  Inr raw \<Rightarrow> Sha256Hex raw
                | Inl e \<Rightarrow> ''sha256-unavailable ('' @ e @ '')''))) (sort_key fst (walk hs base))))"

definition outputCaptureLimitBytes :: int where "outputCaptureLimitBytes = 10 * 2 ^ 20"

record captureStats =
  StdoutTotal :: int
  StderrTotal :: int
  StdoutKept :: int
  StderrKept :: int
  Withheld :: bool

definition stdoutTruncated :: "captureStats \<Rightarrow> bool" where
  "stdoutTruncated c \<longleftrightarrow> \<not> Withheld c \<and> StdoutTotal c > StdoutKept c"

definition stderrTruncated :: "captureStats \<Rightarrow> bool" where
  "stderrTruncated c \<longleftrightarrow> \<not> Withheld c \<and> StderrTotal c > StderrKept c"

text \<open>A result without accounting counts the text it holds.\<close>

definition stream_caps :: "CaptureTotal \<Rightarrow> string \<Rightarrow> int \<times> int" where
  "stream_caps c out =
     (if Total c = 0 \<and> KeptBytes c = 0 \<and> out \<noteq> [] then (int (length out), int (length out)) else (Total c, KeptBytes c))"

definition capsOf :: "ProcResult \<Rightarrow> captureStats" where
  "capsOf res =
     (let (ot, ok) = stream_caps (StdoutCap res) (Stdout res); (et, ek) = stream_caps (StderrCap res) (Stderr res)
      in \<lparr>StdoutTotal = ot, StderrTotal = et, StdoutKept = ok, StderrKept = ek, Withheld = OutputWithheld res\<rparr>)"

definition capture_marker :: "string \<Rightarrow> int \<Rightarrow> int \<Rightarrow> string" where
  "capture_marker stream kept true_count =
     NL @ ''[sandbox: '' @ stream @ '' TRUNCATED '' @ dash @ '' kept the first '' @ FormatInt kept @ '' of '' @ FormatInt true_count
       @ '' bytes (cap '' @ FormatInt outputCaptureLimitBytes @ ''); the record'' @ sq
       @ ''s output_capture carries the true counts]'' @ NL"

definition outputCaptureValue :: "captureStats \<Rightarrow> value" where
  "outputCaptureValue c =
     VObj [(''cap_bytes'', VInt outputCaptureLimitBytes),
       (''stdout_total_bytes'', if Withheld c then VNull else VInt (StdoutTotal c)),
       (''stdout_truncated'', VBool (stdoutTruncated c)),
       (''stderr_total_bytes'', if Withheld c then VNull else VInt (StderrTotal c)),
       (''stderr_truncated'', VBool (stderrTruncated c)),
       (''output_withheld'', VBool (Withheld c)),
       (''note'', VStr (''artifact_hashes cover exactly the stdout.log/stderr.log bytes kept on disk ''
          @ ''(the capped payload plus, when truncated, the marker line)''))]"

section \<open>Running the payload\<close>

record RunOpts =
  ro_workdir :: "string option"
  ro_finding_id :: "string option"
  ro_artifact_id :: "string option"
  ro_timeout :: int
  ro_env :: "env_var list"
  ro_expect :: string
  ro_expect_failure :: string

text \<open>\<open>%g\<close> of a whole number of seconds: six digits or fewer are plain, more are scientific. A
  deadline of centuries, which overflows the duration of the code, is outside the model.\<close>

definition strip_zeros :: "string \<Rightarrow> string" where
  "strip_zeros s = rev (dropWhile (\<lambda>c. c = CHR ''0'') (rev s))"

definition seconds_text :: "int \<Rightarrow> string" where
  "seconds_text n =
     (if n < 1000000 then FormatInt n
      else let ds = FormatInt n; m = strip_zeros ds; e = FormatInt (int (length ds) - 1)
           in take 1 m @ (if length m = 1 then [] else ''.'' @ drop 1 m) @ ''e+'' @ (if length e = 1 then ''0'' else []) @ e)"

definition end_line :: "string \<Rightarrow> string" where
  "end_line s = (if s \<noteq> [] \<and> \<not> has_suffix NL s then s @ NL else s)"

definition envStrings :: "env_var list \<Rightarrow> string list" where
  "envStrings vars = map (\<lambda>(k, v). k @ ''='' @ v) vars"

definition defaultRunTimeout :: int where "defaultRunTimeout = 300"

definition execute :: "host \<Rightarrow> string list option \<Rightarrow> string \<Rightarrow> RunOpts \<Rightarrow> int \<times> string \<times> string \<times> captureStats" where
  "execute hs containerArgv command opts =
     (let secs = (if ro_timeout opts \<le> 0 then defaultRunTimeout else ro_timeout opts);
          (res, how) = (case containerArgv of
              Some argv \<Rightarrow> runProc hs argv [] None secs
            | None \<Rightarrow> runProc hs [''/bin/sh'', ''-c'', command] (case ro_workdir opts of Some d \<Rightarrow> d | None \<Rightarrow> [])
                (Some (environ hs @ envStrings (ro_env opts))) secs)
      in case how of
           TimedOut \<Rightarrow> (-1, Stdout res, end_line (Stderr res)
             @ (if KillUnconfirmed res
                then ''sandbox: timed out after '' @ seconds_text secs @ ''s '' @ dash @ '' the kill could not be fully confirmed''
                else ''sandbox: timed out after '' @ seconds_text secs @ ''s and was killed'')
             @ TimeoutNote res @ NL, capsOf res)
         | NeverRan e \<Rightarrow> (-1, Stdout res, end_line (Stderr res) @ ''sandbox: '' @ e @ TimeoutNote res @ NL, capsOf res)
         | Finished \<Rightarrow>
             let res' = (if TimeoutNote res = [] then res
                  else res\<lparr>Stderr := end_line (Stderr res) @ ''sandbox: ''
                     @ (if has_prefix ''; '' (TimeoutNote res) then drop 2 (TimeoutNote res) else TimeoutNote res) @ NL\<rparr>)
             in (ReturnCode res', Stdout res', Stderr res', capsOf res'))"

section \<open>The record\<close>

definition environmentValue :: "value \<Rightarrow> value list \<Rightarrow> string \<Rightarrow> value" where
  "environmentValue tools envKeys profile =
     VObj [(''tool_versions'', tools), (''env_keys'', VArr envKeys), (''network_access'', VStr (networkLabel profile)),
       (''filesystem'', VStr (profileFilesystemLabel profile))]"

text \<open>The two writers share the shape; they differ in where it came from and in what is known at once.\<close>

definition exec_value ::
    "env \<Rightarrow> string \<Rightarrow> string \<Rightarrow> string option \<Rightarrow> string option \<Rightarrow> string \<Rightarrow> value \<Rightarrow> value \<Rightarrow> value \<Rightarrow> value \<Rightarrow> value \<Rightarrow>
     string \<Rightarrow> value \<Rightarrow> value \<Rightarrow> string \<Rightarrow> value \<Rightarrow> value \<Rightarrow> string \<Rightarrow> string \<Rightarrow> value \<Rightarrow> value" where
  "exec_value ev execID profile finding artifact command workdir resolved verdict environment container
     origin reporter inputs started finished exit_status out err hashes =
     VObj [(''exec_id'', VStr execID), (''campaign_id'', VStr (CampaignID ev)), (''profile'', VStr profile),
       (''finding_id'', optStrValue finding), (''artifact_id'', optStrValue artifact), (''command'', VStr command),
       (''workdir'', workdir), (''workdir_resolved'', resolved), (''policy_verdict'', verdict), (''environment'', environment),
       (''container'', container), (''origin'', VStr origin), (''reported_by'', reporter), (''input_hashes'', inputs),
       (''started_at'', VStr started), (''finished_at'', finished), (''exit_status'', exit_status),
       (''stdout_path'', VStr out), (''stderr_path'', VStr err), (''artifact_hashes'', hashes)]"

definition stream_hashes :: "string \<Rightarrow> string \<Rightarrow> value" where
  "stream_hashes so se = VObj [(''stdout.log'', VStr so), (''stderr.log'', VStr se)]"

definition shortID :: "nat list \<Rightarrow> nat \<Rightarrow> string" where
  "shortID bytes16 n = tl (dropWhile (\<lambda>c. c \<noteq> CHR ''-'') (newId bytes16 ''x'' n))"

definition exec_id :: "nat list \<Rightarrow> string" where
  "exec_id bytes16 = ''EXEC-'' @ shortID bytes16 10"

text \<open>A file of the directory, in the store and as the campaign's handle spells it.\<close>

definition exec_file :: "string \<Rightarrow> string \<Rightarrow> string" where
  "exec_file execID leaf = JoinPath [ExecsDir, execID, leaf]"

definition spelled :: "host \<Rightarrow> string \<Rightarrow> string" where
  "spelled hs p = joinRoot (campaignRoot hs) p"

section \<open>Registering an execution from outside\<close>

record RegisterOpts =
  rg_profile :: string
  rg_command :: string
  rg_reported_by :: string
  rg_exit_status :: int
  rg_finding_id :: "string option"
  rg_artifact_id :: "string option"
  rg_workdir :: "string option"
  rg_stdout :: string
  rg_stderr :: string
  rg_started :: "string option"
  rg_finished :: "string option"

definition regExecValidate :: "harness \<Rightarrow> RegisterOpts \<Rightarrow> error + value" where
  "regExecValidate h opts =
     (if \<not> inProfiles (rg_profile opts) then Inl (unknown_profile (rg_profile opts))
      else if rg_reported_by opts = [] then Inl (ERefused ''externally-reported executions need a reported_by identity'' [])
      else PolicyCheck h (rg_command opts) (rg_profile opts))"

text \<open>The three files are noted before any of them is written.\<close>

definition open_exec_dir :: "string \<Rightarrow> execDirTxn op" where
  "open_exec_dir i = bindE (beginExecDir (JoinPath [ExecsDir, i])) (\<lambda>t.
     ret (note_paths t [exec_file i ''stdout.log'', exec_file i ''stderr.log'', exec_file i ''exec_record.json'']))"

definition write_streams :: "execDirTxn \<Rightarrow> string \<Rightarrow> string \<Rightarrow> string \<Rightarrow> unit op" where
  "write_streams t i out err =
     bindE (or_txn t (write_file (exec_file i ''stdout.log'') out)) (\<lambda>_.
       or_txn t (write_file (exec_file i ''stderr.log'') err))"

definition hash_streams :: "string \<Rightarrow> value op" where
  "hash_streams i =
     bindE (shaFile (exec_file i ''stdout.log'')) (\<lambda>so.
     bindE (shaFile (exec_file i ''stderr.log'')) (\<lambda>se. ret (stream_hashes so se)))"

definition RecordSchema :: string where "RecordSchema = ''sandbox_execution''"

definition write_record :: "env \<Rightarrow> execDirTxn \<Rightarrow> string \<Rightarrow> value \<Rightarrow> unit op" where
  "write_record ev t i rec = or_txn t (WriteJson ev (exec_file i ''exec_record.json'') rec RecordSchema)"

definition log_or_unwind :: "env \<Rightarrow> execDirTxn \<Rightarrow> string \<Rightarrow> string \<Rightarrow> value \<Rightarrow> string \<Rightarrow> unit op" where
  "log_or_unwind ev t ty i data refused =
     catchE (Log ev ty (Some i) (Some data)) (\<lambda>r. case r of
         Inl e \<Rightarrow> txn_fail t (ENotKept refused e)
       | Inr _ \<Rightarrow> ret ())"

definition registered_record ::
    "harness \<Rightarrow> host \<Rightarrow> env \<Rightarrow> string \<Rightarrow> RegisterOpts \<Rightarrow> value \<Rightarrow> string \<Rightarrow> string \<Rightarrow> value \<Rightarrow> value" where
  "registered_record h hs ev i opts verdict started finished hashes =
     exec_value ev i (rg_profile opts) (rg_finding_id opts) (rg_artifact_id opts) (rg_command opts)
       (optStrValue (rg_workdir opts)) (optStrValue (map_option (realPath hs) (rg_workdir opts)))
       verdict (environmentValue (VObj []) [] (rg_profile opts)) VNull ''externally-reported'' (VStr (rg_reported_by opts))
       (hashDir hs (rg_workdir opts)) started (VStr finished) (VInt (rg_exit_status opts))
       (spelled hs (exec_file i ''stdout.log'')) (spelled hs (exec_file i ''stderr.log'')) hashes"

definition registered_event :: "harness \<Rightarrow> RegisterOpts \<Rightarrow> value \<Rightarrow> value" where
  "registered_event h opts rec =
     VObj ([(''profile'', VStr (rg_profile opts)), (''exit'', VInt (rg_exit_status opts)),
        (''reported_by'', VStr (rg_reported_by opts)), (''finding'', optStrValue (rg_finding_id opts)), FailureClassKV h rec]
        @ ExecRecordAnchorKVs rec)"

definition RegisterExec :: "harness \<Rightarrow> host \<Rightarrow> env \<Rightarrow> nat list \<Rightarrow> RegisterOpts \<Rightarrow> value op" where
  "RegisterExec h hs ev bytes16 opts =
     (case regExecValidate h opts of Inl e \<Rightarrow> fail e | Inr verdict \<Rightarrow>
      let i = exec_id bytes16 in
      bindE (open_exec_dir i) (\<lambda>t.
      bindE (write_streams t i (rg_stdout opts) (rg_stderr opts)) (\<lambda>_.
      bindE (nowIso ev) (\<lambda>t1.
      bindE (nowIso ev) (\<lambda>t2.
      let started = (case rg_started opts of None \<Rightarrow> t1 | Some s \<Rightarrow> s);
          finished = (case rg_finished opts of None \<Rightarrow> t2 | Some s \<Rightarrow> s) in
      bindE (hash_streams i) (\<lambda>hashes.
      let rec = registered_record h hs ev i opts verdict started finished hashes in
      bindE (write_record ev t i rec) (\<lambda>_.
      bindE (log_or_unwind ev t ''sandbox.exec.registered'' i (registered_event h opts rec)
               ''the externally-reported execution was NOT REGISTERED'') (\<lambda>_.
        ret rec))))))))"

section \<open>Running a command\<close>

definition RefusedError :: "value list \<Rightarrow> error" where
  "RefusedError violations = ERefused ''command refused by sandbox policy'' [PyRepr (VArr violations)]"

definition pending_record ::
    "host \<Rightarrow> env \<Rightarrow> string \<Rightarrow> string \<Rightarrow> string \<Rightarrow> RunOpts \<Rightarrow> value \<Rightarrow> value \<Rightarrow> string \<Rightarrow> value" where
  "pending_record hs ev profile i command opts verdict container started =
     exec_value ev i profile (ro_finding_id opts) (ro_artifact_id opts) command
       (optStrValue (ro_workdir opts)) (optStrValue (map_option (realPath hs) (ro_workdir opts)))
       verdict (environmentValue (toolVersions hs) (envKeyValues (ro_env opts)) profile) container ''locally-executed'' VNull
       (hashDir hs (ro_workdir opts)) started VNull VNull
       (spelled hs (exec_file i ''stdout.log'')) (spelled hs (exec_file i ''stderr.log'')) (VObj [])"

definition applyExecExpectation :: "value \<Rightarrow> RunOpts \<Rightarrow> value" where
  "applyExecExpectation rec opts =
     (let r1 = (if ro_expect opts \<noteq> [] then set_field rec ''expected_outcome'' (VStr (ro_expect opts)) else rec)
      in if ro_expect_failure opts \<noteq> [] then set_field r1 ''expected_failure'' (VStr (ro_expect_failure opts)) else r1)"

definition refused_record :: "value \<Rightarrow> value \<Rightarrow> string \<Rightarrow> value" where
  "refused_record rec verdict t =
     set_field (set_field rec ''policy_verdict'' (VObj [(''allowed'', ObjAt verdict ''allowed''),
         (''violations'', VArr (vA (ObjAt verdict ''violations'') @ [VStr ''execution-refused''])),
         (''checked_rules'', ObjAt verdict ''checked_rules'')]))
       ''finished_at'' (VStr t)"

definition finished_record :: "value \<Rightarrow> string \<Rightarrow> int \<Rightarrow> value \<Rightarrow> captureStats \<Rightarrow> value" where
  "finished_record rec t status hashes caps =
     set_field (set_field (set_field (set_field rec ''finished_at'' (VStr t)) ''exit_status'' (VInt status))
       ''artifact_hashes'' hashes) ''output_capture'' (outputCaptureValue caps)"

definition run_event :: "harness \<Rightarrow> string \<Rightarrow> int \<Rightarrow> RunOpts \<Rightarrow> value \<Rightarrow> value" where
  "run_event h profile status opts rec =
     VObj ([(''profile'', VStr profile), (''exit'', VInt status), (''finding'', optStrValue (ro_finding_id opts)),
        FailureClassKV h rec] @ ExecRecordAnchorKVs rec)"

definition container_args ::
    "harness \<Rightarrow> host \<Rightarrow> string \<Rightarrow> string \<Rightarrow> string \<Rightarrow> RunOpts \<Rightarrow> error + string list option \<times> value" where
  "container_args h hs profile i command opts =
     (if HostProfile profile then Inr (None, VNull)
      else bindR (BuildContainerArgv hs profile command (ro_workdir opts) (ro_env opts)) (\<lambda>(argv, m).
        Inr (Some (withContainerName argv (''webv2-exec-'' @ lowerText h i)), containerValue m)))"

definition runRefusalPath :: "env \<Rightarrow> execDirTxn \<Rightarrow> string \<Rightarrow> value \<Rightarrow> value \<Rightarrow> unit op" where
  "runRefusalPath ev t i rec verdict =
     (if ObjAt verdict ''allowed'' = VBool True then ret ()
      else bindE (nowIso ev) (\<lambda>t1.
        bindE (write_record ev t i (refused_record rec verdict t1)) (\<lambda>_.
        bindE (log_or_unwind ev t ''sandbox.refused'' i (VObj [(''violations'', ObjAt verdict ''violations'')])
                 ''the command was REFUSED by sandbox policy and did NOT run'') (\<lambda>_.
          fail (RefusedError (vA (ObjAt verdict ''violations'')))))))"

definition runExecuteAndLog ::
    "harness \<Rightarrow> host \<Rightarrow> env \<Rightarrow> string \<Rightarrow> execDirTxn \<Rightarrow> string \<Rightarrow> string list option \<Rightarrow> string \<Rightarrow> RunOpts \<Rightarrow> value \<Rightarrow> value op" where
  "runExecuteAndLog h hs ev profile t i argv command opts rec =
     (let (status, out, err, caps) = execute hs argv command opts;
          kept_out = (if stdoutTruncated caps then out @ capture_marker ''stdout'' (StdoutKept caps) (StdoutTotal caps) else out);
          kept_err = (if stderrTruncated caps then err @ capture_marker ''stderr'' (StderrKept caps) (StderrTotal caps) else err)
      in bindE (write_streams t i kept_out kept_err) (\<lambda>_.
         bindE (hash_streams i) (\<lambda>hashes.
         bindE (nowIso ev) (\<lambda>t2.
         let rec' = finished_record rec t2 status hashes caps in
         bindE (write_record ev t i rec') (\<lambda>_.
         bindE (log_or_unwind ev t ''sandbox.exec'' i (run_event h profile status opts rec')
                  ''the command EXECUTED but its record was NOT KEPT'') (\<lambda>_.
           ret rec'))))))"

definition Run :: "harness \<Rightarrow> host \<Rightarrow> env \<Rightarrow> string \<Rightarrow> nat list \<Rightarrow> string \<Rightarrow> RunOpts \<Rightarrow> value op" where
  "Run h hs ev profile bytes16 command opts =
     (case PolicyCheck h command profile of Inl e \<Rightarrow> fail e | Inr verdict \<Rightarrow>
      let i = exec_id bytes16 in
      bindE (nowIso ev) (\<lambda>started.
      case container_args h hs profile i command opts of Inl e \<Rightarrow> fail e | Inr (argv, container) \<Rightarrow>
      bindE (open_exec_dir i) (\<lambda>t.
      let rec = applyExecExpectation (pending_record hs ev profile i command opts verdict container started) opts in
      bindE (write_record ev t i rec) (\<lambda>_.
      bindE (runRefusalPath ev t i rec verdict) (\<lambda>_.
        runExecuteAndLog h hs ev profile t i argv command opts rec)))))"

end
