(* ===== verification/ExecWriteFacts.thy ===== *)
theory ExecWriteFacts
  imports ExecWriter EvidenceFacts CitationFacts
begin

text \<open>
  Two contracts of the writers of execution records. Under any write faults, a call that fails leaves no
  file of its directory, unless its error names the failed removal, and no file outside the directory
  but the ledger and the state changes. On an undisturbed campaign a call that returns has stored its
  record, and the ledger's newest event anchors it.
\<close>

section \<open>Under any faults\<close>

definition outside :: "string \<Rightarrow> world \<Rightarrow> world \<Rightarrow> bool" where
  "outside d w w' \<longleftrightarrow> (\<forall>p. \<not> below_dir d p \<longrightarrow> p \<noteq> EventsPath \<longrightarrow> p \<noteq> StatePath \<longrightarrow> kv_find (files w') p = kv_find (files w) p)"

definition dir_clear :: "string \<Rightarrow> world \<Rightarrow> bool" where
  "dir_clear d w \<longleftrightarrow> (\<forall>p. below_dir d p \<longrightarrow> kv_find (files w) p = None)"

lemma outside_refl [simp]: "outside d w w"
  by (simp add: outside_def)

lemma outside_trans: "outside d w w1 \<Longrightarrow> outside d w1 w2 \<Longrightarrow> outside d w w2"
  by (simp add: outside_def)

lemma outside_files: "files w' = files w \<Longrightarrow> outside d w w'"
  by (simp add: outside_def)

lemma outside_one: "below_dir d p \<Longrightarrow> (\<And>q. q \<noteq> p \<Longrightarrow> kv_find (files w') q = kv_find (files w) q) \<Longrightarrow> outside d w w'"
  unfolding outside_def by metis

lemma kv_find_filter_keys: "kv_find (filter (\<lambda>e. P (fst e)) kvs) q = (if P q then kv_find kvs q else None)"
proof (induction kvs)
  case (Cons e kvs)
  then show ?case by (cases e) auto
qed simp

lemma remove_tree_run:
  "remove_tree d w = (r, w') \<Longrightarrow> outside d w w' \<and> (r = Inr () \<longrightarrow> dir_clear d w')"
  using kv_find_filter_keys [of "\<lambda>k. \<not> below_dir d k" "files w"]
    kv_find_filter_keys [of "\<lambda>k. k \<notin> set (take n (filter (below_dir d) (map fst (files w))))" "files w" for n]
  by (auto simp: remove_tree_def outside_def dir_clear_def spend_def split: fault.splits if_splits dest!: in_set_takeD)

text \<open>What a step of a transaction owes its caller: the errors of \<open>A\<close> are returned without an unwind.\<close>

definition unwound :: "(error \<Rightarrow> bool) \<Rightarrow> execDirTxn \<Rightarrow> error \<Rightarrow> world \<Rightarrow> bool" where
  "unwound A t e w \<longleftrightarrow> A e \<or> (\<exists>a b. e = EUnwindFailed a b) \<or> (\<not> txn_existed t \<longrightarrow> dir_clear (txn_dir t) w)"

definition txn_step :: "(error \<Rightarrow> bool) \<Rightarrow> execDirTxn \<Rightarrow> 'a op \<Rightarrow> bool" where
  "txn_step A t m \<longleftrightarrow> (\<forall>w r w'. m w = (r, w') \<longrightarrow> outside (txn_dir t) w w' \<and> (case r of Inl e \<Rightarrow> unwound A t e w' | Inr _ \<Rightarrow> True))"

lemma txn_stepD: "txn_step A t m \<Longrightarrow> m w = (Inl e, w') \<Longrightarrow> outside (txn_dir t) w w' \<and> unwound A t e w'"
  "txn_step A t m \<Longrightarrow> m w = (Inr x, w') \<Longrightarrow> outside (txn_dir t) w w'"
  unfolding txn_step_def by force+

lemma step_ret: "txn_step A t (ret x)"
  by (simp add: txn_step_def)

lemma step_allowed: "A e \<Longrightarrow> txn_step A t (fail e)"
  by (simp add: txn_step_def unwound_def)

lemma step_bind:
  assumes "txn_step A t m" "\<And>x. txn_step A t (k x)"
  shows "txn_step A t (bindE m k)"
  unfolding txn_step_def
proof (intro allI impI)
  fix w r w' assume run: "bindE m k w = (r, w')"
  show "outside (txn_dir t) w w' \<and> (case r of Inl e \<Rightarrow> unwound A t e w' | Inr _ \<Rightarrow> True)"
  proof (cases "m w")
    case (Pair r1 w1)
    show ?thesis
    proof (cases r1)
      case (Inl e)
      with run Pair txn_stepD(1) [OF assms(1), of w e w1] show ?thesis by (auto simp: bindE_def)
    next
      case (Inr x)
      with run Pair have k: "k x w1 = (r, w')" by (simp add: bindE_def)
      with Pair Inr txn_stepD(2) [OF assms(1), of w x w1] assms(2) [of x] outside_trans show ?thesis
        unfolding txn_step_def by blast
    qed
  qed
qed

lemma step_total: "(\<And>w. \<exists>x w'. m w = (Inr x, w') \<and> files w' = files w) \<Longrightarrow> txn_step A t m"
  unfolding txn_step_def by (metis Inr_not_Inl outside_files prod.inject sum.case_eq_if sum.disc(2))

lemma step_nowIso: "txn_step A t (nowIso ev)"
  by (rule step_total) (simp add: nowIso_def)

lemma shaFile_run: "shaFile p w = (Inr (case fst (Sha256File p w) of Inl _ \<Rightarrow> [] | Inr digest \<Rightarrow> digest), w)"
  by (auto simp: shaFile_def catchE_def Sha256File_def bindE_def ReadFile_def split: option.split)

lemma hash_streams_run: "\<exists>so se. hash_streams i w = (Inr (stream_hashes so se), w) \<and> valid_utf8 so \<and> valid_utf8 se"
proof -
  have u: "valid_utf8 (case fst (Sha256File p w) of Inl _ \<Rightarrow> [] | Inr digest \<Rightarrow> digest)" for p
    by (auto simp: Sha256File_def bindE_def ReadFile_def split: option.split)
  show ?thesis unfolding hash_streams_def bindE_step [where m = "shaFile p" for p, OF shaFile_run] using u by (simp only: ret_apply) blast
qed

lemma step_hash: "txn_step A t (hash_streams i)"
  by (rule step_total) (use hash_streams_run in metis)

lemma remove_created_run:
  "remove_created ps first w = (r, w') \<Longrightarrow> list_all (below_dir d) ps \<Longrightarrow> outside d w w'"
proof (induction ps arbitrary: first w)
  case Nil
  then show ?case by simp
next
  case (Cons p ps)
  obtain r1 w1 where r1: "remove_file p w = (r1, w1)" by (cases "remove_file p w")
  have "outside d w w1" using outside_one [of d p w1 w] Cons.prems(2) remove_file_other [of _ p w] r1 by simp
  moreover have "outside d w1 w'" using Cons.prems r1 by (auto simp: catchE_def intro: Cons.IH)
  ultimately show ?case by (rule outside_trans)
qed

definition txn_ok :: "execDirTxn \<Rightarrow> bool" where
  "txn_ok t \<longleftrightarrow> list_all (below_dir (txn_dir t)) (txn_created t)"

lemma unwind_dir_run:
  "unwind_dir t w = (r, w') \<Longrightarrow> txn_ok t \<Longrightarrow> outside (txn_dir t) w w' \<and> (r = Inr () \<longrightarrow> \<not> txn_existed t \<longrightarrow> dir_clear (txn_dir t) w')"
  by (auto simp: unwind_dir_def txn_ok_def bindE_def dest: remove_tree_run remove_created_run split: if_splits prod.splits sum.splits option.splits)

lemma step_txn_fail:
  assumes "txn_ok t" shows "txn_step A t (txn_fail t e)"
  unfolding txn_step_def
proof (intro allI impI)
  fix w r w' assume run: "txn_fail t e w = (r, w')"
  obtain r1 w1 where u: "unwind_dir t w = (r1, w1)" by (cases "unwind_dir t w")
  with run unwind_dir_run [OF u assms] show "outside (txn_dir t) w w' \<and> (case r of Inl e \<Rightarrow> unwound A t e w' | Inr _ \<Rightarrow> True)"
    by (cases r1) (auto simp: txn_fail_def catchE_def unwound_def)
qed

lemma step_or:
  assumes "txn_ok t" "\<And>w. outside (txn_dir t) w (snd (m w))"
  shows "txn_step A t (or_txn t m)"
  unfolding txn_step_def
proof (intro allI impI)
  fix w r w' assume run: "or_txn t m w = (r, w')"
  obtain r1 w1 where m: "m w = (r1, w1)" by (cases "m w")
  have o: "outside (txn_dir t) w w1" using assms(2) [of w] m by simp
  show "outside (txn_dir t) w w' \<and> (case r of Inl e \<Rightarrow> unwound A t e w' | Inr _ \<Rightarrow> True)"
  proof (cases r1)
    case (Inl e)
    with run m have "txn_fail t e w1 = (r, w')" by (simp add: or_txn_def catchE_def)
    with step_txn_fail [OF assms(1), of A e] o outside_trans show ?thesis unfolding txn_step_def by blast
  next
    case (Inr x)
    with run m o show ?thesis by (auto simp: or_txn_def catchE_def)
  qed
qed

lemma Log_outside: "outside d w (snd (Log ev ty ref data w))"
  using others.resp_Log unfolding keeps_to_def others_same_def outside_def by blast

lemma step_log: "txn_ok t \<Longrightarrow> txn_step A t (log_or_unwind ev t ty i data msg)"
proof -
  assume t: "txn_ok t"
  show ?thesis unfolding txn_step_def
  proof (intro allI impI)
    fix w r w' assume run: "log_or_unwind ev t ty i data msg w = (r, w')"
    obtain r1 w1 where m: "Log ev ty (Some i) (Some data) w = (r1, w1)" by (cases "Log ev ty (Some i) (Some data) w")
    have o: "outside (txn_dir t) w w1" using Log_outside [of _ w ev ty "Some i" "Some data"] m by simp
    show "outside (txn_dir t) w w' \<and> (case r of Inl e \<Rightarrow> unwound A t e w' | Inr _ \<Rightarrow> True)"
    proof (cases r1)
      case (Inl e)
      with run m have "txn_fail t (ENotKept msg e) w1 = (r, w')" by (simp add: log_or_unwind_def catchE_def)
      with step_txn_fail [OF t, of A "ENotKept msg e"] o outside_trans show ?thesis unfolding txn_step_def by blast
    next
      case (Inr x)
      with run m o show ?thesis by (auto simp: log_or_unwind_def catchE_def)
    qed
  qed
qed

section \<open>The directory of an execution\<close>

lemma exec_id_shape: "\<exists>s. exec_id b = ''EXEC-'' @ s \<and> slash \<notin> set s"
proof -
  let ?h = "HexEncode (uuid4_bits b)"
  have "list_all id_char (take k ?h)" for k by (rule list_all_take [OF HexEncode_id_char])
  then have "slash \<notin> set (take k ?h)" for k by (rule id_char_plain)
  moreover have "shortID b 10 = take (if 10 > length ?h then length ?h else 10) ?h"
    by (simp add: shortID_def newId_def Let_def)
  ultimately show ?thesis unfolding exec_id_def by metis
qed

lemma plain_exec_id: "plain (exec_id b)"
  using exec_id_shape [of b] by (auto simp: plain_def slash_def)

abbreviation exec_dir :: "string \<Rightarrow> string" where "exec_dir i \<equiv> JoinPath [ExecsDir, i]"

lemma exec_dir_eq: "plain i \<Longrightarrow> exec_dir i = ''execs/'' @ i"
  by (subst JoinPath_plain) (simp_all add: ExecsDir_def plain_def slash_def)

lemma exec_file_eq: "plain i \<Longrightarrow> plain leaf \<Longrightarrow> exec_file i leaf = ''execs/'' @ i @ ''/'' @ leaf"
  unfolding exec_file_def by (subst JoinPath_plain) (simp_all add: ExecsDir_def plain_def slash_def)

lemma below_exec_dir: "plain i \<Longrightarrow> plain leaf \<Longrightarrow> below_dir (exec_dir i) (exec_file i leaf)"
  by (simp add: exec_dir_eq exec_file_eq below_dir_def has_prefix_def slash_def)

lemma not_below_exec_dir:
  assumes "plain i" shows "\<not> below_dir (exec_dir i) EventsPath" "\<not> below_dir (exec_dir i) StatePath" "\<not> below_dir (exec_dir i) WaiversPath"
  by (simp_all add: exec_dir_eq [OF assms] below_dir_def has_prefix_def EventsPath_def StatePath_def WaiversPath_def slash_def take_Cons')

lemma plain_leaves [simp]: "plain ''stdout.log''" "plain ''stderr.log''" "plain ''exec_record.json''"
  by (simp_all add: plain_def slash_def)

definition exec_txn :: "string \<Rightarrow> bool \<Rightarrow> execDirTxn" where
  "exec_txn i existed = \<lparr>txn_dir = exec_dir i, txn_existed = existed,
     txn_created = [exec_file i ''stdout.log'', exec_file i ''stderr.log'', exec_file i ''exec_record.json'']\<rparr>"

lemma exec_txn_simps [simp]: "txn_dir (exec_txn i b) = exec_dir i" "txn_existed (exec_txn i b) = b"
  by (simp_all add: exec_txn_def)

lemma exec_txn_ok: "plain i \<Longrightarrow> txn_ok (exec_txn i b)"
  by (simp add: txn_ok_def exec_txn_def below_exec_dir)

lemma open_exec_dir_run:
  "open_exec_dir i w = (case next_fault w of
      IOok \<Rightarrow> (Inr (exec_txn i (list_ex (below_dir (exec_dir i)) (map fst (files w)))), spend w)
    | IOfail n \<Rightarrow> (Inl (EIO (exec_dir i)), spend w))"
  by (simp add: open_exec_dir_def beginExecDir_def bindE_def note_paths_def exec_txn_def spend_def split: fault.split)

lemma step_write:
  assumes "plain i" "plain leaf" shows "txn_step A (exec_txn i b) (or_txn (exec_txn i b) (write_file (exec_file i leaf) c))"
  by (rule step_or [OF exec_txn_ok [OF assms(1)]])
     (auto intro!: outside_one [OF below_exec_dir [OF assms]] simp: write_file_def world_simps split: fault.split)

lemma step_streams: "plain i \<Longrightarrow> txn_step A (exec_txn i b) (write_streams (exec_txn i b) i out err)"
  unfolding write_streams_def by (intro step_bind step_write) simp_all

lemma step_record: "plain i \<Longrightarrow> txn_step A (exec_txn i b) (write_record ev (exec_txn i b) i rec)"
  unfolding write_record_def
  by (rule step_or [OF exec_txn_ok], assumption)
     (auto intro!: outside_one [OF below_exec_dir [of i "''exec_record.json''"]] simp: WriteJson_def bindE_def Validate_def replace_file_def world_simps split: fault.split)

lemmas exec_steps = step_bind step_ret step_nowIso step_hash step_streams step_record step_log [OF exec_txn_ok]

section \<open>Failing calls\<close>

text \<open>A fresh directory: a failing step leaves the other files and nothing of its own.\<close>

lemma fresh_unwound:
  assumes "dir_clear d w" "outside d w w'" "unwound A t e w'" "txn_dir t = d" "\<not> txn_existed t"
  shows "A e \<or> (\<exists>a b. e = EUnwindFailed a b) \<or> aside (kv_find (files w)) w'"
  using assms unfolding unwound_def outside_def dir_clear_def aside_def by metis

lemma opened_step_fails:
  assumes "bindE (open_exec_dir i) k w = (Inl e, w')" "dir_clear (exec_dir i) w" "\<And>t. t = exec_txn i False \<Longrightarrow> txn_step A t (k t)"
  shows "A e \<or> (\<exists>a b. e = EUnwindFailed a b) \<or> aside (kv_find (files w)) w'"
proof (cases "next_fault w")
  case (IOfail n)
  with assms(1) have "files w' = files w" by (auto simp: bindE_def open_exec_dir_run spend_def)
  then show ?thesis by (simp add: aside_def)
next
  case IOok
  have "\<not> below_dir (exec_dir i) p" if "p \<in> fst ` set (files w)" for p
    using assms(2) that kv_find_None_iff [of "files w" p] unfolding dir_clear_def by (metis list.set_map)
  then have none: "list_ex (below_dir (exec_dir i)) (map fst (files w)) = False" by (auto simp: list_ex_iff)
  let ?t = "exec_txn i False" and ?w = "spend w"
  have run: "k ?t ?w = (Inl e, w')" using assms(1) IOok none by (simp add: bindE_def open_exec_dir_run)
  have c: "dir_clear (exec_dir i) ?w" using assms(2) by (simp add: dir_clear_def spend_def)
  from txn_stepD(1) [OF assms(3) [OF refl] run] have "outside (exec_dir i) ?w w'" "unwound A ?t e w'" by simp_all
  from fresh_unwound [OF c this] show ?thesis by (simp add: spend_def)
qed

lemma RegisterExec_fails:
  assumes "RegisterExec h hs ev b opts w = (Inl e, w')" "dir_clear (exec_dir (exec_id b)) w"
  shows "(\<exists>a b. e = EUnwindFailed a b) \<or> aside (kv_find (files w)) w'"
proof (cases "regExecValidate h opts")
  case (Inl e1)
  with assms(1) show ?thesis by (simp add: RegisterExec_def aside_refl)
next
  case (Inr verdict)
  have "False \<or> (\<exists>a b. e = EUnwindFailed a b) \<or> aside (kv_find (files w)) w'"
  proof (rule opened_step_fails [OF _ assms(2), where A = "\<lambda>_. False"])
    show "bindE (open_exec_dir (exec_id b)) (\<lambda>t.
        bindE (write_streams t (exec_id b) (rg_stdout opts) (rg_stderr opts)) (\<lambda>_.
        bindE (nowIso ev) (\<lambda>t1. bindE (nowIso ev) (\<lambda>t2.
        bindE (hash_streams (exec_id b)) (\<lambda>hashes.
        let rec = registered_record h hs ev (exec_id b) opts verdict (case rg_started opts of None \<Rightarrow> t1 | Some s \<Rightarrow> s)
              (case rg_finished opts of None \<Rightarrow> t2 | Some s \<Rightarrow> s) hashes in
        bindE (write_record ev t (exec_id b) rec) (\<lambda>_.
        bindE (log_or_unwind ev t ''sandbox.exec.registered'' (exec_id b) (registered_event h opts rec)
               ''the externally-reported execution was NOT REGISTERED'') (\<lambda>_. ret rec))))))) w = (Inl e, w')"
      using assms(1) Inr by (simp add: RegisterExec_def Let_def)
  qed (unfold Let_def, intro exec_steps plain_exec_id, simp_all add: plain_exec_id exec_steps)
  then show ?thesis by simp
qed

section \<open>On an undisturbed campaign\<close>

lemma healthy_apart:
  assumes h: "healthy ev st es w" and u: "undisturbed w'"
    and same: "\<And>p. p \<in> {EventsPath, StatePath, WaiversPath} \<Longrightarrow> kv_find (files w') p = kv_find (files w) p"
  shows "healthy ev st es w'"
proof -
  have "readWaiverRowsR12 w' = readWaiverRowsR12 w" using same by (intro readWaiver_cong) auto
  moreover have "State ev w' = (Inr st, w')"
    by (rule State_transfer [of ev w _ w]) (use h same in \<open>auto simp: healthy_def\<close>)
  ultimately show ?thesis
    using h u same by (auto simp: healthy_def content_of_def accessible_def saved_def waivers_ok_def)
qed

text \<open>What a relation must absorb so that the writes into the directory of one execution keep it.\<close>

locale dir_frame = frame +
  fixes i :: string
  assumes plain_i: "plain i"
    and fr_spend: "R w (spend w)"
    and fr_put: "below_dir (exec_dir i) p \<Longrightarrow> R w (spend (put_file p c w))"
    and fr_del: "below_dir (exec_dir i) p \<Longrightarrow> R w (spend (del_file p w))"
    and fr_tree: "R w (snd (remove_tree (exec_dir i) w))"
begin

lemma resp_open: "keeps_to R (open_exec_dir i)"
  by (simp add: keeps_to_def open_exec_dir_run fr_spend split: fault.split)

lemma resp_write: "below_dir (exec_dir i) p \<Longrightarrow> keeps_to R (write_file p c)"
  by (simp add: keeps_to_def write_file_def fr_put split: fault.split)

lemma resp_WriteJson: "below_dir (exec_dir i) p \<Longrightarrow> keeps_to R (WriteJson ev p v schema)"
  unfolding WriteJson_def
  by (intro resp_bind resp_basic) (simp_all add: keeps_to_def replace_file_def fr_put fr_spend split: fault.split)

lemma resp_remove: "below_dir (exec_dir i) p \<Longrightarrow> keeps_to R (remove_file p)"
  by (simp add: keeps_to_def remove_file_def fr_del fr_spend fr_refl split: fault.split)

lemma resp_remove_created: "list_all (below_dir (exec_dir i)) ps \<Longrightarrow> keeps_to R (remove_created ps first)"
  by (induction ps arbitrary: first) (auto intro!: resp_catch resp_remove resp_ret)

lemma resp_txn_fail: "keeps_to R (txn_fail (exec_txn i b) e)"
proof -
  have c: "list_all (below_dir (exec_dir i)) (txn_created (exec_txn i b))" for b
    by (simp add: exec_txn_def below_exec_dir plain_i)
  have t: "keeps_to R (remove_tree (exec_dir i))" by (simp add: keeps_to_def fr_tree)
  have "keeps_to R (unwind_dir (exec_txn i b))"
    unfolding unwind_dir_def by (auto intro!: resp_bind resp_remove_created c t resp_basic split: option.split)
  then show ?thesis unfolding txn_fail_def by (intro resp_catch) (auto intro!: resp_basic split: sum.split)
qed

lemma resp_or_txn: "keeps_to R m \<Longrightarrow> keeps_to R (or_txn (exec_txn i b) m)"
  unfolding or_txn_def by (intro resp_catch) (auto intro!: resp_txn_fail resp_basic split: sum.split)

lemma resp_streams: "keeps_to R (write_streams (exec_txn i b) i out err)"
  unfolding write_streams_def by (intro resp_bind resp_or_txn resp_write below_exec_dir plain_i) simp_all

lemma resp_record: "keeps_to R (write_record ev (exec_txn i b) i rec)"
  unfolding write_record_def by (intro resp_or_txn resp_WriteJson below_exec_dir plain_i) simp

lemma resp_hash: "keeps_to R (hash_streams i)"
  by (rule resp_pure) (use hash_streams_run in \<open>metis snd_conv\<close>)

end

text \<open>No file but those of the directory changes, and no fault appears; the ledger stays.\<close>

definition dir_only :: "string \<Rightarrow> world \<Rightarrow> world \<Rightarrow> bool" where
  "dir_only d w w' \<longleftrightarrow> (undisturbed w \<longrightarrow> undisturbed w') \<and>
     (\<forall>p. \<not> below_dir d p \<longrightarrow> kv_find (files w') p = kv_find (files w) p)"

interpretation dir: dir_frame "dir_only (exec_dir (exec_id b))" "exec_id b" for b
proof unfold_locales
  let ?d = "exec_dir (exec_id b)"
  fix w w1 w2 :: world and t e u p c
  show "dir_only ?d w w" by (simp add: dir_only_def)
  show "dir_only ?d w w1 \<Longrightarrow> dir_only ?d w1 w2 \<Longrightarrow> dir_only ?d w w2" by (auto simp: dir_only_def)
  show "dir_only ?d w (w\<lparr>ticks := t\<rparr>)" by (simp add: dir_only_def undisturbed_def)
  show "LockProcess w = (Inl e, w1) \<Longrightarrow> dir_only ?d w w1"
    using calm.fr_refused [of w e w1] by (auto dest!: LockProcess_frame simp: dir_only_def calm_def)
  show "LockProcess w = (Inr u, w1) \<Longrightarrow> dir_only ?d w1 w2 \<Longrightarrow> dir_only ?d w (UnlockProcess w2)"
    using undisturbed_lock [of w "Inr u" w1]
    by (auto dest!: LockProcess_frame simp: dir_only_def undisturbed_def world_simps UnlockProcess_def)
  show "plain (exec_id b)" by (rule plain_exec_id)
  show "dir_only ?d w (spend w)" by (simp add: dir_only_def undisturbed_def spend_def)
  show "below_dir ?d p \<Longrightarrow> dir_only ?d w (spend (put_file p c w))"
    by (auto simp: dir_only_def undisturbed_def spend_def put_file_def) (metis kv_find_set_other)
  show "below_dir ?d p \<Longrightarrow> dir_only ?d w (spend (del_file p w))"
    by (auto simp: dir_only_def undisturbed_def spend_def del_file_def) (metis kv_find_filter_other)
  show "dir_only ?d w (snd (remove_tree ?d w))"
    using kv_find_filter_keys [of "\<lambda>k. \<not> below_dir ?d k" "files w"]
      kv_find_filter_keys [of "\<lambda>k. k \<notin> set (take n (filter (below_dir ?d) (map fst (files w))))" "files w" for n]
    by (auto simp: remove_tree_def dir_only_def undisturbed_def spend_def split: fault.splits if_splits dest!: in_set_takeD)
qed

lemma grows_dir_only:
  assumes "dir_only (exec_dir (exec_id b)) w w'" shows "ledger_grows w w'"
  using assms not_below_exec_dir(1) [OF plain_exec_id [of b]] by (simp add: dir_only_def ledger_grows_def content_of_def)

lemma grows_dir: "keeps_to (dir_only (exec_dir (exec_id b))) m \<Longrightarrow> keeps_to ledger_grows m"
  using grows_dir_only unfolding keeps_to_def by blast

lemma v_dir:
  assumes m: "keeps_to (dir_only (exec_dir (exec_id b))) m"
    and G: "\<And>w r w'. undisturbed w \<Longrightarrow> F w \<Longrightarrow> m w = (r, w') \<Longrightarrow> (case r of Inr x \<Rightarrow> G x w' | Inl e \<Rightarrow> True)"
  shows "valid (\<lambda>w. healthy ev st es w \<and> F w) m (\<lambda>x w. healthy ev st es w \<and> G x w) (healthy ev st es)"
proof (rule validI [OF grows_dir [OF m]])
  fix w r w' assume P: "healthy ev st es w \<and> F w" and run: "m w = (r, w')" and "size_ok w'"
  have u: "undisturbed w" using P by (simp add: healthy_def)
  have k: "undisturbed w'" "\<And>p. \<not> below_dir (exec_dir (exec_id b)) p \<Longrightarrow> kv_find (files w') p = kv_find (files w) p"
    using m u run unfolding keeps_to_def dir_only_def by (metis snd_conv)+
  have "healthy ev st es w'"
    by (rule healthy_apart [OF conjunct1 [OF P] k(1)]) (use k(2) not_below_exec_dir [OF plain_exec_id [of b]] in auto)
  then show "case r of Inr x \<Rightarrow> healthy ev st es w' \<and> G x w' | Inl e \<Rightarrow> healthy ev st es w'"
    using G [OF u _ run] P by (cases r) auto
qed

section \<open>The triples of the writers\<close>

abbreviation record_file :: "string \<Rightarrow> string" where "record_file i \<equiv> exec_file i ''exec_record.json''"

definition stored :: "string \<Rightarrow> value \<Rightarrow> world \<Rightarrow> bool" where
  "stored i rec w \<longleftrightarrow> kv_find (files w) (record_file i) = Some (File True (DumpIndented rec @ NL))"

lemma stored_accessible: "stored i rec w \<Longrightarrow> accessible w (record_file i)"
  by (simp add: stored_def accessible_def)

lemma write_file_free: "undisturbed w \<Longrightarrow> write_file p c w = (Inr (), spend (put_file p c w))"
  by (simp add: write_file_def next_fault_def undisturbed_def)

lemma exec_files_differ: "plain i \<Longrightarrow> exec_file i ''stdout.log'' \<noteq> record_file i" "plain i \<Longrightarrow> exec_file i ''stderr.log'' \<noteq> record_file i"
  by (simp_all add: exec_file_eq)

text \<open>\<open>exec_ready\<close>: a healthy campaign whose record file, if there is one, can be read.\<close>

definition exec_ready :: "env \<Rightarrow> value \<Rightarrow> value list \<Rightarrow> string \<Rightarrow> world \<Rightarrow> bool" where
  "exec_ready ev st es i w \<longleftrightarrow> healthy ev st es w \<and> accessible w (record_file i)"

lemma of_files_exec_ready: "of_files (exec_ready ev st es i)"
  unfolding exec_ready_def by (intro of_files_conj of_files_healthy) (simp add: of_files_def accessible_def)

lemma v_open:
  "valid (exec_ready ev st es (exec_id b)) (open_exec_dir (exec_id b))
    (\<lambda>t w. (\<exists>x. t = exec_txn (exec_id b) x) \<and> exec_ready ev st es (exec_id b) w) (healthy ev st es)"
  unfolding exec_ready_def
  by (rule v_weaken [OF v_dir [OF dir.resp_open, where F = "\<lambda>w. accessible w (record_file (exec_id b))"
        and G = "\<lambda>t w. (\<exists>x. t = exec_txn (exec_id b) x) \<and> accessible w (record_file (exec_id b))"]])
     (auto simp: open_exec_dir_run spend_def accessible_def split: fault.splits)

lemma or_txn_free: "m w = (Inr x, w') \<Longrightarrow> or_txn t m w = (Inr x, w')"
  by (simp add: or_txn_def catchE_def)

lemma write_streams_free:
  assumes "plain i" "undisturbed w" "accessible w (record_file i)"
  shows "\<exists>w'. write_streams t i out err w = (Inr (), w') \<and> accessible w' (record_file i)"
proof -
  let ?p = "exec_file i ''stdout.log''" and ?q = "exec_file i ''stderr.log''"
  let ?w1 = "spend (put_file ?p out w)" let ?w2 = "spend (put_file ?q err ?w1)"
  have u1: "undisturbed ?w1" using assms(2) by (simp add: undisturbed_def spend_def put_file_def)
  have "write_streams t i out err w = (Inr (), ?w2)"
    by (simp add: write_streams_def bindE_def or_txn_free [where m = "write_file ?p out", OF write_file_free [OF assms(2)]]
      or_txn_free [where m = "write_file ?q err", OF write_file_free [OF u1]])
  moreover have "accessible ?w2 (record_file i)" using assms(3) by (simp add: accessible_put accessible_spend)
  ultimately show ?thesis by blast
qed

lemma v_streams:
  "valid (exec_ready ev st es (exec_id b)) (write_streams (exec_txn (exec_id b) x) (exec_id b) out err)
    (\<lambda>_. exec_ready ev st es (exec_id b)) (healthy ev st es)"
  unfolding exec_ready_def
proof (rule v_dir [OF dir.resp_streams])
  fix w r w' assume "undisturbed w" "accessible w (record_file (exec_id b))"
    and run: "write_streams (exec_txn (exec_id b) x) (exec_id b) out err w = (r, w')"
  from write_streams_free [OF plain_exec_id this(1,2), of "exec_txn (exec_id b) x" out err] run
  show "case r of Inr _ \<Rightarrow> accessible w' (record_file (exec_id b)) | Inl e \<Rightarrow> True" by auto
qed

lemma v_hash:
  "valid (exec_ready ev st es (exec_id b)) (hash_streams (exec_id b))
    (\<lambda>hashes w. wf_value hashes \<and> exec_ready ev st es (exec_id b) w) (healthy ev st es)"
proof (rule validI [OF grows_dir [OF dir.resp_hash]])
  fix w r w' assume "exec_ready ev st es (exec_id b) w" "hash_streams (exec_id b) w = (r, w')"
  moreover have "\<exists>hashes. hash_streams (exec_id b) w = (Inr hashes, w) \<and> wf_value hashes"
    using hash_streams_run [of "exec_id b" w] by (auto simp: stream_hashes_def)
  ultimately show "case r of Inr hashes \<Rightarrow> wf_value hashes \<and> exec_ready ev st es (exec_id b) w' | Inl e \<Rightarrow> healthy ev st es w'"
    by auto
qed

lemma v_record:
  "valid (exec_ready ev st es (exec_id b)) (write_record ev (exec_txn (exec_id b) x) (exec_id b) rec)
    (\<lambda>_ w. healthy ev st es w \<and> stored (exec_id b) rec w) (healthy ev st es)"
  unfolding exec_ready_def
proof (rule v_dir [OF dir.resp_record])
  let ?p = "record_file (exec_id b)"
  fix w r w' assume u: "undisturbed w" and a: "accessible w ?p"
    and run: "write_record ev (exec_txn (exec_id b) x) (exec_id b) rec w = (r, w')"
  show "case r of Inr _ \<Rightarrow> stored (exec_id b) rec w' | Inl e \<Rightarrow> True"
  proof (cases "validates ev RecordSchema rec")
    case True
    then have "WriteJson ev ?p rec RecordSchema w = (Inr (), spend (put_file ?p (DumpIndented rec @ NL) w))"
      using u by (simp add: WriteJson_def bindE_def Validate_def replace_file_def next_fault_def undisturbed_def)
    then have "w' = spend (put_file ?p (DumpIndented rec @ NL) w)"
      using run or_txn_free by (fastforce simp: write_record_def)
    then show ?thesis using a by (auto simp: stored_def accessible_def put_file_def spend_def split: sum.split option.splits)
  next
    case False
    then have "WriteJson ev ?p rec RecordSchema w = (Inl (ESchema RecordSchema), w)"
      by (simp add: WriteJson_def bindE_def Validate_def RecordSchema_def)
    then have "\<exists>e. r = Inl e" using run
      by (auto simp: write_record_def or_txn_def catchE_def txn_fail_def split: sum.splits prod.splits)
    then show ?thesis by auto
  qed
qed

lemma txn_fail_Inl: "txn_fail t e w = (r, w') \<Longrightarrow> \<exists>e'. r = Inl e'"
  by (auto simp: txn_fail_def catchE_def split: sum.splits prod.splits)

lemma v_txn_fail: "valid (may_lag ev st es) (txn_fail (exec_txn (exec_id b) x) e :: 'a op) Q (may_lag ev st es)"
proof (rule validI [OF grows_dir [OF dir.resp_txn_fail]])
  fix w w' and r :: "error + 'a" assume P: "may_lag ev st es w" and run: "txn_fail (exec_txn (exec_id b) x) e w = (r, w')" and sz: "size_ok w'"
  have step: "healthy ev st es' w'" if "healthy ev st es' w" for es'
    using valid_run [OF v_dir [OF dir.resp_txn_fail [of b x e], of "\<lambda>_. True" "\<lambda>_ _. True"], of ev st es' w r w'] that run sz
    by (cases r) auto
  then have "may_lag ev st es w'" using P unfolding may_lag_def by blast
  then show "case r of Inr x \<Rightarrow> Q x w' | Inl e \<Rightarrow> may_lag ev st es w'" using txn_fail_Inl [OF run] by auto
qed

definition logged_post ::
    "env \<Rightarrow> value \<Rightarrow> value list \<Rightarrow> string \<Rightarrow> string \<Rightarrow> value \<Rightarrow> value \<Rightarrow> world \<Rightarrow> bool" where
  "logged_post ev st es ty i data rec w \<longleftrightarrow> stored i rec w \<and>
     (\<exists>st'. same_fields st st' \<and> appended ev st' es (window_ok es (vA (ObjAt st ''events''))) ty (Some i) data w)"

lemma record_not_ledger: "plain i \<Longrightarrow> record_file i \<notin> {EventsPath, StatePath, WaiversPath}"
  using below_exec_dir [of i "''exec_record.json''"] not_below_exec_dir [of i] by auto

lemma v_log:
  assumes ev: "env_ok ev" and a: "args_ok ty (Some (exec_id b)) (Some data)" and ty: "ty \<noteq> ''completion.waived''"
  shows "valid (\<lambda>w. healthy ev st es w \<and> stored (exec_id b) rec w) (log_or_unwind ev (exec_txn (exec_id b) x) ty (exec_id b) data msg)
    (\<lambda>_. logged_post ev st es ty (exec_id b) data rec) (may_lag ev st es)"
  unfolding log_or_unwind_def
proof (rule v_pre [of _ "\<lambda>fs w. (healthy ev st es w \<and> aside fs w) \<and> fs (record_file (exec_id b)) = Some (File True (DumpIndented rec @ NL))"])
  show "\<exists>fs. (healthy ev st es w \<and> aside fs w) \<and> fs (record_file (exec_id b)) = Some (File True (DumpIndented rec @ NL))"
    if "healthy ev st es w \<and> stored (exec_id b) rec w" for w
    using that aside_refl by (auto simp: stored_def)
  fix fs
  let ?log = "Log ev ty (Some (exec_id b)) (Some data)"
  let ?k = "\<lambda>r. case r of Inl e \<Rightarrow> txn_fail (exec_txn (exec_id b) x) (ENotKept msg e) | Inr _ \<Rightarrow> ret ()"
  show "valid (\<lambda>w. (healthy ev st es w \<and> aside fs w) \<and> fs (record_file (exec_id b)) = Some (File True (DumpIndented rec @ NL)))
      (catchE ?log ?k) (\<lambda>_. logged_post ev st es ty (exec_id b) data rec) (may_lag ev st es)"
  proof (rule v_pure [of _ "fs (record_file (exec_id b)) = Some (File True (DumpIndented rec @ NL))"])
    show "keeps_to ledger_grows (catchE ?log ?k)"
      by (intro grows.resp_catch grows.resp_Log) (auto intro!: grows_dir dir.resp_txn_fail grows.resp_ret split: sum.split)
    assume fs: "fs (record_file (exec_id b)) = Some (File True (DumpIndented rec @ NL))"
    have l: "valid (\<lambda>w. healthy ev st es w \<and> aside fs w) ?log (\<lambda>_. logged_post ev st es ty (exec_id b) data rec) (may_lag ev st es)"
      by (rule v_weaken [OF v_aside [OF others.resp_Log v_Log [OF ev a ty, of st es], of fs]])
         (use fs record_not_ledger [OF plain_exec_id [of b]] in \<open>auto simp: logged_post_def stored_def aside_def may_lag_def data_value_def\<close>)
    have "valid (\<lambda>w. healthy ev st es w \<and> aside fs w) (catchE ?log ?k) (\<lambda>_. logged_post ev st es ty (exec_id b) data rec) (may_lag ev st es)"
      by (rule v_catch [OF l]) (auto intro!: v_ret v_txn_fail)
    then show "valid (\<lambda>w. (healthy ev st es w \<and> aside fs w) \<and> fs (record_file (exec_id b)) = Some (File True (DumpIndented rec @ NL)))
      (catchE ?log ?k) (\<lambda>_. logged_post ev st es ty (exec_id b) data rec) (may_lag ev st es)" by (rule v_weaken) auto
  qed simp
qed

end
