(* ===== verification/ExecRunFacts.thy ===== *)
theory ExecRunFacts
  imports ExecWriteFacts PhaseProperties
begin

text \<open>
  The two writers as a whole: what a returned record is, that the ledger's newest event anchors it, and that
  a run ends in the record of an allowed command or in a refusal that the ledger names.
\<close>

section \<open>Well-formed records\<close>

lemma exec_id_utf8 [simp]: "valid_utf8 (exec_id b)"
proof -
  have hex: "\<forall>c\<in>set hexd. (of_char c :: nat) < 128" by code_simp
  have byte: "\<forall>c\<in>set (hex_byte n). (of_char c :: nat) < 128" for n
    using hex by (auto simp: hex_byte_def)
  have all: "\<forall>c\<in>set (HexEncode bs). (of_char c :: nat) < 128" for bs using byte by (auto simp: HexEncode_def)
  have "set (shortID b 10) \<subseteq> set (HexEncode (uuid4_bits b))"
    by (auto simp: shortID_def newId_def Let_def dest: in_set_takeD)
  then have "\<forall>c\<in>set (exec_id b). (of_char c :: nat) < 128" using all by (auto simp: exec_id_def)
  then show ?thesis by (rule valid_utf8_ascii)
qed

lemma utf8_dash [simp]: "valid_utf8 dash"
  using valid_utf8_encode [of "[8212]"] by (simp add: dash_def utf8_encode_def valid_rune_def)

lemma utf8_labels [simp]: "valid_utf8 (networkLabel p)" "valid_utf8 (profileFilesystemLabel p)"
  by (auto simp: networkLabel_def profileFilesystemLabel_def profileNetwork_def profileFilesystem_def
      intro!: valid_utf8_append utf8_dash intro: valid_utf8_ascii simp del: append.simps)

lemma wf_optStrValue [simp]: "wf_value (optStrValue x) = (case x of None \<Rightarrow> True | Some s \<Rightarrow> valid_utf8 s)"
  by (simp add: optStrValue_def split: option.split)

lemma utf8_rules: "r \<in> set denyRules \<Longrightarrow> valid_utf8 (fst r)"
  by (auto simp: denyRules_def intro!: valid_utf8_ascii)

lemma wf_PolicyCheck: "PolicyCheck h command profile = Inr verdict \<Longrightarrow> wf_value verdict"
  by (auto simp: PolicyCheck_def Let_def list_all_iff utf8_rules split: if_splits)

lemma utf8_profile: "inProfiles p \<Longrightarrow> valid_utf8 p"
  by (auto simp: inProfiles_def Profiles_def intro!: valid_utf8_ascii)

definition opt_utf8 :: "string option \<Rightarrow> bool" where
  "opt_utf8 x \<longleftrightarrow> (case x of None \<Rightarrow> True | Some s \<Rightarrow> valid_utf8 s)"

text \<open>The texts and numbers a caller hands over are values that JSON can hold.\<close>

definition report_ok :: "harness \<Rightarrow> host \<Rightarrow> env \<Rightarrow> nat list \<Rightarrow> RegisterOpts \<Rightarrow> bool" where
  "report_ok h hs ev b opts \<longleftrightarrow> valid_utf8 (rg_command opts) \<and> valid_utf8 (rg_reported_by opts) \<and> int64_range (rg_exit_status opts) \<and>
     opt_utf8 (rg_finding_id opts) \<and> opt_utf8 (rg_artifact_id opts) \<and> opt_utf8 (rg_workdir opts) \<and>
     opt_utf8 (map_option (realPath hs) (rg_workdir opts)) \<and> opt_utf8 (rg_started opts) \<and> opt_utf8 (rg_finished opts) \<and>
     wf_value (hashDir hs (rg_workdir opts)) \<and> valid_utf8 (spelled hs (exec_file (exec_id b) ''stdout.log'')) \<and>
     valid_utf8 (spelled hs (exec_file (exec_id b) ''stderr.log'')) \<and> (\<forall>rec. valid_utf8 (ObjStr (ClassifyFailure h rec) ''class''))"

lemma wf_registered:
  assumes "env_ok ev" "report_ok h hs ev b opts" "regExecValidate h opts = Inr verdict" "valid_utf8 t1" "valid_utf8 t2" "wf_value hashes"
  shows "wf_value (registered_record h hs ev (exec_id b) opts verdict t1 t2 hashes)"
proof -
  have "wf_value verdict" "valid_utf8 (rg_profile opts)"
    using assms(3) wf_PolicyCheck utf8_profile by (auto simp: regExecValidate_def split: if_splits)
  then show ?thesis using assms(1,2,4-)
    by (auto simp: registered_record_def exec_value_def environmentValue_def report_ok_def opt_utf8_def env_ok_def
        intro!: valid_utf8_ascii split: option.splits)
qed

lemma wf_anchor_kvs: "list_all (\<lambda>kv. wf_value (snd kv)) (ExecRecordAnchorKVs rec)"
  by (auto simp: ExecRecordAnchorKVs_def ExecRecordDigest_def ExecRecordAnchorAlg_def intro!: valid_utf8_ascii)

lemma wf_registered_event:
  assumes "report_ok h hs ev b opts" "regExecValidate h opts = Inr verdict"
  shows "wf_value (registered_event h opts rec)"
proof -
  have "valid_utf8 (rg_profile opts)" using assms(2) utf8_profile by (auto simp: regExecValidate_def split: if_splits)
  then show ?thesis using assms(1)
    by (auto simp: registered_event_def report_ok_def opt_utf8_def FailureClassKV_def ExecRecordAnchorKVs_def ExecRecordDigest_def
        ExecRecordAnchorAlg_def KeyExecRecordSHA256_def KeyExecRecordSHA256Alg_def intro!: valid_utf8_ascii split: option.splits)
qed

section \<open>Registering\<close>

lemma grows_exec:
  "keeps_to ledger_grows (write_streams (exec_txn (exec_id b) x) (exec_id b) out err)"
  "keeps_to ledger_grows (hash_streams (exec_id b))" "keeps_to ledger_grows (write_record ev (exec_txn (exec_id b) x) (exec_id b) rec)"
  "keeps_to ledger_grows (open_exec_dir (exec_id b))"
  by (rule grows_dir, rule dir.resp_streams dir.resp_hash dir.resp_record dir.resp_open)+

lemma grows_log_or_unwind: "keeps_to ledger_grows (log_or_unwind ev (exec_txn (exec_id b) x) ty (exec_id b) data msg)"
  unfolding log_or_unwind_def
  by (intro grows.resp_catch grows.resp_Log) (auto intro!: grows_dir dir.resp_txn_fail grows.resp_ret split: sum.split)

lemma healthy_lag: "healthy ev st es w \<Longrightarrow> may_lag ev st es w"
  by (simp add: may_lag_def)

lemma v_lag: "valid P m Q (healthy ev st es) \<Longrightarrow> valid P m Q (may_lag ev st es)"
  by (erule v_weaken) (auto intro: healthy_lag)

lemma v_bind_range:
  assumes m: "valid P m (\<lambda>_. R) E" "\<And>w t w'. m w = (Inr t, w') \<Longrightarrow> \<exists>x. t = f x"
    and k: "\<And>x. valid R (k (f x)) Q E"
  shows "valid P (bindE m k) Q E"
proof -
  let ?k = "\<lambda>t. k (if \<exists>x. t = f x then t else f undefined)"
  have "bindE m k w = bindE m ?k w" for w
    using m(2) [of w] by (auto simp: bindE_def split: prod.splits sum.splits)
  then have "bindE m k = bindE m ?k" ..
  moreover have "valid R (?k t) Q E" for t
    by (cases "\<exists>x. t = f x") (auto intro: k)
  then have "valid P (bindE m ?k) Q E" by (rule v_bind [OF m(1)])
  ultimately show ?thesis by simp
qed

lemma v_clock:
  assumes "of_files P" "\<And>t. t \<in> range (now ev) \<Longrightarrow> valid P (m t) Q E"
  shows "valid P (bindE (nowIso ev) m) Q E"
proof (rule v_bind_range [where f = "now ev" and R = P])
  show "valid P (nowIso ev) (\<lambda>_. P) E" by (rule v_nowIso [OF assms(1)]) simp
  show "\<exists>x. t = now ev x" if "nowIso ev w = (Inr t, w')" for w t w' using that by (auto simp: nowIso_def)
qed (use assms(2) in blast)

lemma v_opened:
  assumes E: "\<And>w. may_lag ev st es w \<Longrightarrow> E w"
    and k: "\<And>x. valid (exec_ready ev st es (exec_id b)) (k (exec_txn (exec_id b) x)) Q E"
  shows "valid (exec_ready ev st es (exec_id b)) (bindE (open_exec_dir (exec_id b)) k) Q E"
proof (rule v_bind_range [where f = "exec_txn (exec_id b)" and R = "exec_ready ev st es (exec_id b)"])
  show "valid (exec_ready ev st es (exec_id b)) (open_exec_dir (exec_id b)) (\<lambda>_. exec_ready ev st es (exec_id b)) E"
    by (rule v_weaken [OF v_lag [OF v_open]]) (auto intro: E)
  show "\<exists>x. t = exec_txn (exec_id b) x" if "open_exec_dir (exec_id b) w = (Inr t, w')" for w t w'
    using that by (auto simp: open_exec_dir_run split: fault.splits)
qed (rule k)

text \<open>Writing the final record and logging its event is the end of both writers.\<close>

lemma v_commit:
  assumes ev: "env_ok ev" and ty: "ty \<noteq> ''completion.waived''" "valid_utf8 ty" and d: "wf_value data"
  shows "valid (exec_ready ev st es (exec_id b))
    (bindE (write_record ev (exec_txn (exec_id b) x) (exec_id b) rec) (\<lambda>_.
     bindE (log_or_unwind ev (exec_txn (exec_id b) x) ty (exec_id b) data msg) (\<lambda>_. ret rec)))
    (\<lambda>y w. y = rec \<and> logged_post ev st es ty (exec_id b) data rec w) (may_lag ev st es)"
proof (rule v_bind [OF v_lag [OF v_record]], rule v_bind [OF v_log [OF ev _ ty(1)] v_ret])
  show "args_ok ty (Some (exec_id b)) (Some data)" using ty d by (simp add: args_ok_def)
qed simp

definition registered_post ::
    "harness \<Rightarrow> host \<Rightarrow> env \<Rightarrow> value \<Rightarrow> value list \<Rightarrow> nat list \<Rightarrow> RegisterOpts \<Rightarrow> value \<Rightarrow> world \<Rightarrow> bool" where
  "registered_post h hs ev st es b opts rec w \<longleftrightarrow> wf_value rec \<and>
     (\<exists>verdict t1 t2 hashes. regExecValidate h opts = Inr verdict \<and>
        rec = registered_record h hs ev (exec_id b) opts verdict t1 t2 hashes) \<and>
     logged_post ev st es ''sandbox.exec.registered'' (exec_id b) (registered_event h opts rec) rec w"

lemma v_RegisterExec:
  assumes ev: "env_ok ev" and ok: "report_ok h hs ev b opts"
  shows "valid (exec_ready ev st es (exec_id b)) (RegisterExec h hs ev b opts) (registered_post h hs ev st es b opts) (may_lag ev st es)"
proof (cases "regExecValidate h opts")
  case (Inl e)
  then show ?thesis by (auto simp: RegisterExec_def exec_ready_def intro!: v_fail healthy_lag)
next
  case (Inr verdict)
  let ?i = "exec_id b" and ?P = "exec_ready ev st es (exec_id b)" and ?E = "may_lag ev st es"
  let ?Q = "registered_post h hs ev st es b opts"
  let ?closing = "\<lambda>t rec. bindE (write_record ev t ?i rec) (\<lambda>_.
      bindE (log_or_unwind ev t ''sandbox.exec.registered'' ?i (registered_event h opts rec)
               ''the externally-reported execution was NOT REGISTERED'') (\<lambda>_. ret rec))"
  let ?rec = "\<lambda>t1 t2 hashes. registered_record h hs ev ?i opts verdict (case rg_started opts of None \<Rightarrow> t1 | Some s \<Rightarrow> s)
      (case rg_finished opts of None \<Rightarrow> t2 | Some s \<Rightarrow> s) hashes"
  have fin: "valid (\<lambda>w. wf_value hashes \<and> ?P w) (?closing (exec_txn ?i x) (?rec t1 t2 hashes)) ?Q ?E" if "valid_utf8 t1" "valid_utf8 t2" for t1 t2 x hashes
  proof (rule v_pure [of _ "wf_value hashes"])
    assume w: "wf_value hashes"
    have u: "valid_utf8 (case rg_started opts of None \<Rightarrow> t1 | Some s \<Rightarrow> s)" "valid_utf8 (case rg_finished opts of None \<Rightarrow> t2 | Some s \<Rightarrow> s)"
      using ok that by (auto simp: report_ok_def opt_utf8_def split: option.splits)
    note wf = wf_registered [OF ev ok Inr u w]
    show "valid (\<lambda>w. wf_value hashes \<and> ?P w) (?closing (exec_txn ?i x) (?rec t1 t2 hashes)) ?Q ?E"
      by (rule v_weaken [OF v_commit [OF ev _ _ wf_registered_event [OF ok Inr]]])
         (use wf Inr in \<open>auto simp: registered_post_def intro: valid_utf8_ascii\<close>)
  qed (auto intro!: grows.resp_bind grows_exec grows_log_or_unwind grows.resp_ret)
  have tail: "valid ?P (bindE (write_streams (exec_txn ?i x) ?i (rg_stdout opts) (rg_stderr opts)) (\<lambda>_.
      bindE (nowIso ev) (\<lambda>t1. bindE (nowIso ev) (\<lambda>t2. bindE (hash_streams ?i) (\<lambda>hashes. ?closing (exec_txn ?i x) (?rec t1 t2 hashes)))))) ?Q ?E" for x
  proof -
    let ?h = "bindE (hash_streams ?i)"
    let ?k = "\<lambda>t1 t2 hashes. ?closing (exec_txn ?i x) (?rec t1 t2 hashes)"
    have g: "keeps_to ledger_grows (?h (?k t1 t2))" for t1 t2
      by (intro grows.resp_bind grows_exec grows_log_or_unwind grows.resp_ret)
    have u: "valid_utf8 t" if "t \<in> range (now ev)" for t using that ev by (auto simp: env_ok_def clock_ok_def)
    have v: "valid ?P (?h (?k t1 t2)) ?Q ?E" if "valid_utf8 t1" "valid_utf8 t2" for t1 t2
      by (rule v_bind [OF v_lag [OF v_hash]]) (rule fin [OF that])
    have "valid ?P (bindE (nowIso ev) (\<lambda>t2. ?h (?k t1 t2))) ?Q ?E" if "valid_utf8 t1" for t1
      by (rule v_with_now [OF g of_files_exec_ready v]) (simp_all add: that u)
    then have "valid ?P (bindE (nowIso ev) (\<lambda>t1. bindE (nowIso ev) (\<lambda>t2. ?h (?k t1 t2)))) ?Q ?E"
      by (rule v_with_now [OF _ of_files_exec_ready, rotated]) (simp_all add: u g grows.resp_bind grows.resp_nowIso)
    then show ?thesis by (rule v_bind [OF v_lag [OF v_streams]])
  qed
  show ?thesis
    unfolding RegisterExec_def Inr sum.case Let_def
    by (rule v_opened) (simp, rule tail)
qed

section \<open>What the next reader sees\<close>

lemma exec_path_file: "exec_path i = record_file i"
  by (simp add: exec_path_def exec_file_def)

lemma stored_loads: "stored i rec w \<Longrightarrow> wf_value rec \<Longrightarrow> LoadExec i w = (Inr rec, w)"
  using parse_Indented_NL [of rec]
  by (simp add: LoadExec_def exec_path_file stored_def catchE_def stat_file_def ReadJson_def bindE_def ReadFile_def parseE_def)

text \<open>An event that carries the anchor of a record, as the ledger keeps it.\<close>

lemma EventAnchor_kept:
  assumes "ObjAt e ''data'' = keysorted data" "wf_value data"
    and "ObjAt data KeyExecRecordSHA256 = VStr (ExecRecordDigest rec)" "ObjAt data KeyExecRecordSHA256Alg = VStr ExecRecordAnchorAlg"
  shows "EventAnchor e = (ExecRecordDigest rec, ExecRecordAnchorAlg, True)"
proof -
  have k: "anchorKey (keysorted data) k = (s, True)" if "ObjAt data k = VStr s" for k s
    using that by (auto simp: anchorKey_def kv_find_norm [OF assms(2)] ObjAt_def split: if_splits option.splits)
  show ?thesis using k [OF assms(3)] k [OF assms(4)] by (simp add: EventAnchor_def assms(1))
qed

lemma anchor_verifies:
  assumes "Events w = (Inr (es @ [e]), w)" "\<forall>x\<in>set es. \<not> carrierFor x i"
    and "EventAnchor e = (ExecRecordDigest rec, ExecRecordAnchorAlg, True)"
  shows "VerifyExecRecordAnchor i rec w = (Inr (), w)"
proof -
  have "carrier_problem i rec x = []" if "x \<in> set es" for x
    using assms(2) that by (auto simp: carrier_problem_def split: prod.splits)
  moreover have "carrier_problem i rec e = []" by (simp add: carrier_problem_def assms(3) AnchorProblem_Nil)
  ultimately have "filter (\<lambda>p. p \<noteq> []) (map (carrier_problem i rec) (es @ [e])) = []" by (auto simp: filter_empty_conv)
  then show ?thesis by (simp add: VerifyExecRecordAnchor_def bindE_def assms(1))
qed

lemma logged_anchor:
  assumes "logged_post ev st es ty i data rec w" "window_ok es (vA (ObjAt st ''events''))" "\<forall>x\<in>set es. \<not> carrierFor x i"
    and "wf_value rec" "wf_value data"
    and "ObjAt data KeyExecRecordSHA256 = VStr (ExecRecordDigest rec)" "ObjAt data KeyExecRecordSHA256Alg = VStr ExecRecordAnchorAlg"
  shows "\<exists>st'. same_fields st st' \<and> recorded ev st' es ty (Some i) data w \<and> LoadExec i w = (Inr rec, w) \<and>
    VerifyExecRecordAnchor i rec w = (Inr (), w)"
proof -
  obtain st' where s: "stored i rec w" "same_fields st st'" "appended ev st' es True ty (Some i) data w"
    using assms(1,2) by (auto simp: logged_post_def)
  then obtain e where e: "settled ev st' (es @ [e]) w" "ObjAt e ''data'' = keysorted data" by (auto simp: appended_def)
  show ?thesis
    using s(2) appended_recorded [OF s(3)] stored_loads [OF s(1) assms(4)]
      anchor_verifies [OF settled_Events [OF e(1)] assms(3) EventAnchor_kept [OF e(2) assms(5,6,7)]] by blast
qed

lemma event_anchor_keys:
  "ObjAt (registered_event h opts rec) KeyExecRecordSHA256 = VStr (ExecRecordDigest rec)"
  "ObjAt (registered_event h opts rec) KeyExecRecordSHA256Alg = VStr ExecRecordAnchorAlg"
  "ObjAt (run_event h profile status ropts rec) KeyExecRecordSHA256 = VStr (ExecRecordDigest rec)"
  "ObjAt (run_event h profile status ropts rec) KeyExecRecordSHA256Alg = VStr ExecRecordAnchorAlg"
  by (simp_all add: registered_event_def run_event_def ObjAt_def FailureClassKV_def ExecRecordAnchorKVs_def
      KeyExecRecordSHA256_def KeyExecRecordSHA256Alg_def)

section \<open>Well-formed records of runs\<close>

definition run_ok :: "harness \<Rightarrow> host \<Rightarrow> string \<Rightarrow> nat list \<Rightarrow> string \<Rightarrow> RunOpts \<Rightarrow> bool" where
  "run_ok h hs profile b command opts \<longleftrightarrow> valid_utf8 command \<and> opt_utf8 (ro_finding_id opts) \<and> opt_utf8 (ro_artifact_id opts) \<and>
     opt_utf8 (ro_workdir opts) \<and> opt_utf8 (map_option (realPath hs) (ro_workdir opts)) \<and> wf_value (hashDir hs (ro_workdir opts)) \<and>
     valid_utf8 (spelled hs (exec_file (exec_id b) ''stdout.log'')) \<and> valid_utf8 (spelled hs (exec_file (exec_id b) ''stderr.log'')) \<and>
     wf_value (toolVersions hs) \<and> wf_value (VArr (envKeyValues (ro_env opts))) \<and> valid_utf8 (ro_expect opts) \<and>
     valid_utf8 (ro_expect_failure opts) \<and> (\<forall>rec. valid_utf8 (ObjStr (ClassifyFailure h rec) ''class'')) \<and>
     (\<forall>argv c. container_args h hs profile (exec_id b) command opts = Inr (argv, c) \<longrightarrow> wf_value c \<and>
        (case execute hs argv command opts of (status, _, _, caps) \<Rightarrow> int64_range status \<and> wf_value (outputCaptureValue caps)))"

definition started_record ::
    "host \<Rightarrow> env \<Rightarrow> string \<Rightarrow> nat list \<Rightarrow> string \<Rightarrow> RunOpts \<Rightarrow> value \<Rightarrow> value \<Rightarrow> string \<Rightarrow> value" where
  "started_record hs ev profile b command opts verdict container started =
     applyExecExpectation (pending_record hs ev profile (exec_id b) command opts verdict container started) opts"

lemma wf_started:
  assumes "env_ok ev" "run_ok h hs profile b command opts" "valid_utf8 profile" "wf_value verdict" "wf_value container" "valid_utf8 t"
  shows "wf_value (started_record hs ev profile b command opts verdict container t)"
proof -
  have "wf_value (pending_record hs ev profile (exec_id b) command opts verdict container t)"
    using assms by (auto simp: pending_record_def exec_value_def environmentValue_def run_ok_def opt_utf8_def env_ok_def
        intro!: valid_utf8_ascii split: option.splits)
  then show ?thesis using assms(2)
    by (auto simp: started_record_def applyExecExpectation_def run_ok_def Let_def intro!: wf_set_field valid_utf8_ascii)
qed

lemma wf_finished:
  "wf_value rec \<Longrightarrow> valid_utf8 t \<Longrightarrow> int64_range status \<Longrightarrow> wf_value hashes \<Longrightarrow> wf_value (outputCaptureValue caps) \<Longrightarrow>
     wf_value (finished_record rec t status hashes caps)"
  unfolding finished_record_def by (intro wf_set_field) (auto intro!: valid_utf8_ascii)

lemma wf_violations: "wf_value v \<Longrightarrow> wf_value (VArr (vA v))"
  by (cases v) simp_all

lemma wf_refused:
  assumes "wf_value rec" "wf_value verdict" "valid_utf8 t" shows "wf_value (refused_record rec verdict t)"
proof -
  have "wf_value (VArr (vA (ObjAt verdict ''violations'')))" by (rule wf_violations [OF wf_ObjAt [OF assms(2)]])
  then show ?thesis using assms wf_ObjAt [OF assms(2)]
    unfolding refused_record_def by (intro wf_set_field) (auto intro!: valid_utf8_ascii)
qed

lemma wf_run_event:
  assumes "run_ok h hs profile b command opts" "valid_utf8 profile" "int64_range status"
  shows "wf_value (run_event h profile status opts rec)"
  using assms by (auto simp: run_event_def run_ok_def opt_utf8_def FailureClassKV_def ExecRecordAnchorKVs_def ExecRecordDigest_def
      ExecRecordAnchorAlg_def KeyExecRecordSHA256_def KeyExecRecordSHA256Alg_def intro!: valid_utf8_ascii split: option.splits)

section \<open>An allowed command\<close>

definition ran_post ::
    "harness \<Rightarrow> host \<Rightarrow> env \<Rightarrow> value \<Rightarrow> value list \<Rightarrow> string \<Rightarrow> nat list \<Rightarrow> string \<Rightarrow> RunOpts \<Rightarrow> string list option \<Rightarrow> value \<Rightarrow> value \<Rightarrow> world \<Rightarrow> bool" where
  "ran_post h hs ev st es profile b command opts argv pending rec w \<longleftrightarrow> wf_value rec \<and>
     (\<exists>status out err caps t hashes. execute hs argv command opts = (status, out, err, caps) \<and> int64_range status \<and>
        rec = finished_record pending t status hashes caps \<and>
        logged_post ev st es ''sandbox.exec'' (exec_id b) (run_event h profile status opts rec) rec w)"

lemma v_finish:
  assumes ev: "env_ok ev" and ok: "run_ok h hs profile b command opts" "valid_utf8 profile"
    and c: "container_args h hs profile (exec_id b) command opts = Inr (argv, container)" and rec: "wf_value rec"
  shows "valid (exec_ready ev st es (exec_id b)) (runExecuteAndLog h hs ev profile (exec_txn (exec_id b) x) (exec_id b) argv command opts rec)
    (ran_post h hs ev st es profile b command opts argv rec) (may_lag ev st es)"
proof -
  obtain status out err caps where e: "execute hs argv command opts = (status, out, err, caps)" by (cases "execute hs argv command opts")
  have s: "int64_range status" "wf_value (outputCaptureValue caps)" using ok(1) c e by (auto simp: run_ok_def)
  let ?i = "exec_id b" and ?P = "exec_ready ev st es (exec_id b)" and ?E = "may_lag ev st es"
  let ?Q = "ran_post h hs ev st es profile b command opts argv rec"
  let ?closing = "\<lambda>rec'. bindE (write_record ev (exec_txn ?i x) ?i rec') (\<lambda>_.
      bindE (log_or_unwind ev (exec_txn ?i x) ''sandbox.exec'' ?i (run_event h profile status opts rec')
               ''the command EXECUTED but its record was NOT KEPT'') (\<lambda>_. ret rec'))"
  have g: "keeps_to ledger_grows (?closing rec')" for rec'
    by (intro grows.resp_bind grows_exec grows_log_or_unwind grows.resp_ret)
  have fin: "valid (\<lambda>w. wf_value hashes \<and> ?P w) (bindE (nowIso ev) (\<lambda>t. ?closing (finished_record rec t status hashes caps))) ?Q ?E" for hashes
  proof (rule v_pure [of _ "wf_value hashes"])
    assume w: "wf_value hashes"
    have "valid ?P (?closing (finished_record rec t status hashes caps)) ?Q ?E" if "t \<in> range (now ev)" for t
    proof -
      have t: "valid_utf8 t" using that ev by (auto simp: env_ok_def clock_ok_def)
      show ?thesis
        by (rule v_weaken [OF v_commit [OF ev _ _ wf_run_event [OF ok s(1)]]])
           (use wf_finished [OF rec t s(1) w s(2)] e s(1) in \<open>auto simp: ran_post_def intro: valid_utf8_ascii\<close>)
    qed
    then have "valid ?P (bindE (nowIso ev) (\<lambda>t. ?closing (finished_record rec t status hashes caps))) ?Q ?E"
      by (rule v_with_now [OF g of_files_exec_ready])
    then show "valid (\<lambda>w. wf_value hashes \<and> ?P w) (bindE (nowIso ev) (\<lambda>t. ?closing (finished_record rec t status hashes caps))) ?Q ?E"
      by (rule v_weaken) auto
  qed (auto intro!: grows.resp_bind grows.resp_nowIso g)
  show ?thesis
    unfolding runExecuteAndLog_def e prod.case Let_def
    by (rule v_bind [OF v_lag [OF v_streams]], rule v_bind [OF v_lag [OF v_hash]], rule fin)
qed

lemma grows_execute: "keeps_to ledger_grows (runExecuteAndLog h hs ev profile (exec_txn (exec_id b) x) (exec_id b) argv command opts rec)"
  unfolding runExecuteAndLog_def Let_def
  by (auto intro!: grows.resp_bind grows_exec grows_log_or_unwind grows.resp_ret grows.resp_nowIso split: prod.split)

lemma v_stored_ready: "valid (exec_ready ev st es (exec_id b)) (write_record ev (exec_txn (exec_id b) x) (exec_id b) rec)
    (\<lambda>_. exec_ready ev st es (exec_id b)) (may_lag ev st es)"
  by (rule v_weaken [OF v_lag [OF v_record]]) (auto simp: exec_ready_def stored_accessible)

section \<open>A refused command\<close>

definition refused_post :: "env \<Rightarrow> value \<Rightarrow> value list \<Rightarrow> nat list \<Rightarrow> value \<Rightarrow> value \<Rightarrow> world \<Rightarrow> bool" where
  "refused_post ev st es b pending verdict w \<longleftrightarrow>
     (\<exists>t. wf_value (refused_record pending verdict t) \<and>
        logged_post ev st es ''sandbox.refused'' (exec_id b) (VObj [(''violations'', ObjAt verdict ''violations'')])
          (refused_record pending verdict t) w)"

lemma v_refuse:
  assumes ev: "env_ok ev" and rec: "wf_value pending" "wf_value verdict" and no: "ObjAt verdict ''allowed'' \<noteq> VBool True"
  shows "valid (exec_ready ev st es (exec_id b)) (runRefusalPath ev (exec_txn (exec_id b) x) (exec_id b) pending verdict)
    (\<lambda>_ _. False) (\<lambda>w. may_lag ev st es w \<or> refused_post ev st es b pending verdict w)"
proof -
  let ?i = "exec_id b" and ?P = "exec_ready ev st es (exec_id b)" and ?E = "\<lambda>w. may_lag ev st es w \<or> refused_post ev st es b pending verdict w"
  let ?d = "VObj [(''violations'', ObjAt verdict ''violations'')]"
  let ?closing = "\<lambda>rec. bindE (write_record ev (exec_txn ?i x) ?i rec) (\<lambda>_.
      bindE (log_or_unwind ev (exec_txn ?i x) ''sandbox.refused'' ?i ?d
               ''the command was REFUSED by sandbox policy and did NOT run'') (\<lambda>_. fail (RefusedError (vA (ObjAt verdict ''violations'')))))"
  have g: "keeps_to ledger_grows (?closing rec :: unit op)" for rec
    by (intro grows.resp_bind grows_exec grows_log_or_unwind grows.resp_fail)
  have a: "args_ok ''sandbox.refused'' (Some ?i) (Some ?d)" using wf_ObjAt [OF rec(2)] by (auto simp: args_ok_def intro!: valid_utf8_ascii)
  have "valid ?P (?closing (refused_record pending verdict t) :: unit op) (\<lambda>_ _. False) ?E" if "t \<in> range (now ev)" for t
  proof -
    have t: "valid_utf8 t" using that ev by (auto simp: env_ok_def clock_ok_def)
    let ?r = "refused_record pending verdict t"
    let ?log = "log_or_unwind ev (exec_txn ?i x) ''sandbox.refused'' ?i ?d ''the command was REFUSED by sandbox policy and did NOT run''"
    have l: "valid (\<lambda>w. healthy ev st es w \<and> stored ?i ?r w) ?log (\<lambda>_. logged_post ev st es ''sandbox.refused'' ?i ?d ?r) ?E"
      by (rule v_weaken [OF v_log [OF ev a]]) auto
    have "valid (logged_post ev st es ''sandbox.refused'' ?i ?d ?r) (fail e :: unit op) (\<lambda>_ _. False) ?E" for e
      by (rule v_fail) (use wf_refused [OF rec t] in \<open>auto simp: refused_post_def\<close>)
    then have "valid (\<lambda>w. healthy ev st es w \<and> stored ?i ?r w) (bindE ?log (\<lambda>_. fail e :: unit op)) (\<lambda>_ _. False) ?E" for e
      by (rule v_bind [OF l])
    then have k: "valid (\<lambda>w. healthy ev st es w \<and> stored ?i ?r w) (bindE ?log (\<lambda>_. fail (RefusedError (vA (ObjAt verdict ''violations''))) :: unit op))
        (\<lambda>_ _. False) ?E" .
    have "valid ?P (write_record ev (exec_txn ?i x) ?i ?r) (\<lambda>_ w. healthy ev st es w \<and> stored ?i ?r w) ?E"
      by (rule v_weaken [OF v_record]) (auto simp: healthy_lag)
    then show ?thesis by (rule v_bind) (rule k)
  qed
  then have "valid ?P (bindE (nowIso ev) (\<lambda>t. ?closing (refused_record pending verdict t)) :: unit op) (\<lambda>_ _. False) ?E"
    by (rule v_with_now [OF g of_files_exec_ready])
  then show ?thesis by (simp add: runRefusalPath_def no)
qed

section \<open>Both\<close>

lemma PolicyCheck_profile: "PolicyCheck h command profile = Inr verdict \<Longrightarrow> valid_utf8 profile"
  by (auto simp: PolicyCheck_def utf8_profile split: if_splits)

definition executed ::
    "harness \<Rightarrow> host \<Rightarrow> env \<Rightarrow> value \<Rightarrow> value list \<Rightarrow> string \<Rightarrow> nat list \<Rightarrow> string \<Rightarrow> RunOpts \<Rightarrow> value \<Rightarrow> value \<Rightarrow> world \<Rightarrow> bool" where
  "executed h hs ev st es profile b command opts verdict rec w \<longleftrightarrow> ObjAt verdict ''allowed'' = VBool True \<and>
     (\<exists>argv container t. container_args h hs profile (exec_id b) command opts = Inr (argv, container) \<and>
        ran_post h hs ev st es profile b command opts argv (started_record hs ev profile b command opts verdict container t) rec w)"

definition refused ::
    "harness \<Rightarrow> host \<Rightarrow> env \<Rightarrow> value \<Rightarrow> value list \<Rightarrow> string \<Rightarrow> nat list \<Rightarrow> string \<Rightarrow> RunOpts \<Rightarrow> value \<Rightarrow> world \<Rightarrow> bool" where
  "refused h hs ev st es profile b command opts verdict w \<longleftrightarrow> ObjAt verdict ''allowed'' \<noteq> VBool True \<and>
     (\<exists>container t. refused_post ev st es b (started_record hs ev profile b command opts verdict container t) verdict w)"

lemma v_Run:
  assumes ev: "env_ok ev" and ok: "run_ok h hs profile b command opts" and verdict: "PolicyCheck h command profile = Inr verdict"
  shows "valid (exec_ready ev st es (exec_id b)) (Run h hs ev profile b command opts)
    (executed h hs ev st es profile b command opts verdict)
    (\<lambda>w. may_lag ev st es w \<or> refused h hs ev st es profile b command opts verdict w)"
proof -
  let ?i = "exec_id b" and ?P = "exec_ready ev st es (exec_id b)" and ?Q = "executed h hs ev st es profile b command opts verdict"
  let ?E = "\<lambda>w. may_lag ev st es w \<or> refused h hs ev st es profile b command opts verdict w"
  have pr: "valid_utf8 profile" "wf_value verdict" using PolicyCheck_profile [OF verdict] wf_PolicyCheck [OF verdict] .
  have weak: "valid P m R ?E" if "valid P m R (may_lag ev st es)" for P R and m :: "'z op"
    by (rule v_weaken [OF that]) auto
  let ?go = "\<lambda>argv t rec. bindE (write_record ev t ?i rec) (\<lambda>_. bindE (runRefusalPath ev t ?i rec verdict) (\<lambda>_.
      runExecuteAndLog h hs ev profile t ?i argv command opts rec))"
  have body: "valid ?P (?go argv (exec_txn ?i x) (started_record hs ev profile b command opts verdict c s)) ?Q ?E"
    if c: "container_args h hs profile ?i command opts = Inr (argv, c)" and s: "valid_utf8 s" for argv c s x
  proof -
    let ?r = "started_record hs ev profile b command opts verdict c s"
    have wf: "wf_value ?r" using wf_started [OF ev ok pr(1,2) _ s] ok c by (auto simp: run_ok_def)
    have "valid ?P (bindE (runRefusalPath ev (exec_txn ?i x) ?i ?r verdict) (\<lambda>_.
        runExecuteAndLog h hs ev profile (exec_txn ?i x) ?i argv command opts ?r)) ?Q ?E"
    proof (cases "ObjAt verdict ''allowed'' = VBool True")
      case True
      have "valid ?P (runRefusalPath ev (exec_txn ?i x) ?i ?r verdict) (\<lambda>_. ?P) ?E" by (auto simp: runRefusalPath_def True intro: v_ret)
      moreover have run: "valid ?P (runExecuteAndLog h hs ev profile (exec_txn ?i x) ?i argv command opts ?r) ?Q ?E"
        by (rule v_weaken [OF weak [OF v_finish [OF ev ok pr(1) c wf]]]) (use True c in \<open>auto simp: executed_def\<close>)
      ultimately show ?thesis by (rule v_bind)
    next
      case False
      have "valid ?P (runRefusalPath ev (exec_txn ?i x) ?i ?r verdict) (\<lambda>_ _. False) ?E"
        by (rule v_weaken [OF v_refuse [OF ev wf pr(2) False]]) (use False in \<open>auto simp: refused_def\<close>)
      then show ?thesis by (rule v_bind) (rule validI [OF grows_execute], simp)
    qed
    then show ?thesis by (rule v_bind [OF weak [OF v_stored_ready]])
  qed
  have after: "valid ?P (case container_args h hs profile ?i command opts of Inl e \<Rightarrow> fail e | Inr (argv, container) \<Rightarrow>
      bindE (open_exec_dir ?i) (\<lambda>t. ?go argv t (started_record hs ev profile b command opts verdict container s))) ?Q ?E"
    if "valid_utf8 s" for s
  proof (cases "container_args h hs profile ?i command opts")
    case (Inl e)
    then show ?thesis by (auto intro!: v_fail healthy_lag simp: exec_ready_def)
  next
    case (Inr ac)
    obtain argv c where ac: "ac = (argv, c)" by (cases ac)
    have "valid ?P (bindE (open_exec_dir ?i) (\<lambda>t. ?go argv t (started_record hs ev profile b command opts verdict c s))) ?Q ?E"
      by (rule v_opened) (simp, rule body [OF Inr [unfolded ac] that])
    then show ?thesis by (simp add: Inr ac)
  qed
  have u: "valid_utf8 s" if "s \<in> range (now ev)" for s using that ev by (auto simp: env_ok_def clock_ok_def)
  show ?thesis
    unfolding Run_def verdict sum.case Let_def started_record_def [symmetric]
    by (rule v_clock [OF of_files_exec_ready after]) (rule u)
qed

section \<open>What the next reader sees of a run\<close>

lemma ObjAt_finished: "vkind rec = KObj \<Longrightarrow> ObjAt (finished_record rec t status hashes caps) ''exit_status'' = VInt status"
  by (simp add: finished_record_def)

lemma started_shape:
  "vkind (started_record hs ev profile b command opts verdict container t) = KObj"
  "ObjAt (started_record hs ev profile b command opts verdict container t) ''exit_status'' = VNull"
proof -
  let ?p = "pending_record hs ev profile (exec_id b) command opts verdict container t"
  have "vkind ?p = KObj" "ObjAt ?p ''exit_status'' = VNull" by (simp_all add: pending_record_def exec_value_def ObjAt_def)
  then show "vkind (started_record hs ev profile b command opts verdict container t) = KObj"
    "ObjAt (started_record hs ev profile b command opts verdict container t) ''exit_status'' = VNull"
    by (simp_all add: started_record_def applyExecExpectation_def Let_def)
qed

lemma executed_kept:
  assumes "run_ok h hs profile b command opts" "valid_utf8 profile" "executed h hs ev st es profile b command opts verdict rec w"
    and "window_ok es (vA (ObjAt st ''events''))" "\<forall>e\<in>set es. \<not> carrierFor e (exec_id b)"
  shows "ObjAt verdict ''allowed'' = VBool True \<and> (\<exists>argv container status out err caps st'.
      container_args h hs profile (exec_id b) command opts = Inr (argv, container) \<and>
      execute hs argv command opts = (status, out, err, caps) \<and> ObjAt rec ''exit_status'' = VInt status \<and> same_fields st st' \<and>
      recorded ev st' es ''sandbox.exec'' (Some (exec_id b)) (run_event h profile status opts rec) w) \<and>
    LoadExec (exec_id b) w = (Inr rec, w) \<and> VerifyExecRecordAnchor (exec_id b) rec w = (Inr (), w)"
proof -
  obtain argv c s status out err caps t hashes where x: "ObjAt verdict ''allowed'' = VBool True"
    "container_args h hs profile (exec_id b) command opts = Inr (argv, c)" "wf_value rec"
    "execute hs argv command opts = (status, out, err, caps)" "int64_range status"
    "rec = finished_record (started_record hs ev profile b command opts verdict c s) t status hashes caps"
    "logged_post ev st es ''sandbox.exec'' (exec_id b) (run_event h profile status opts rec) rec w"
    using assms(3) by (auto simp: executed_def ran_post_def)
  have "ObjAt rec ''exit_status'' = VInt status" unfolding x(6) by (rule ObjAt_finished [OF started_shape(1)])
  then show ?thesis
    using logged_anchor [OF x(7) assms(4,5) x(3) wf_run_event [OF assms(1,2) x(5)] event_anchor_keys(3,4)] x(1,2,4) by blast
qed

lemma refused_kept:
  assumes "refused h hs ev st es profile b command opts verdict w" "window_ok es (vA (ObjAt st ''events''))"
  shows "ObjAt verdict ''allowed'' \<noteq> VBool True \<and> (\<exists>rec st'. LoadExec (exec_id b) w = (Inr rec, w) \<and>
    ObjAt rec ''exit_status'' = VNull \<and> same_fields st st' \<and>
    recorded ev st' es ''sandbox.refused'' (Some (exec_id b)) (VObj [(''violations'', ObjAt verdict ''violations'')]) w)"
proof -
  let ?d = "VObj [(''violations'', ObjAt verdict ''violations'')]"
  obtain c s t where x: "ObjAt verdict ''allowed'' \<noteq> VBool True"
    "wf_value (refused_record (started_record hs ev profile b command opts verdict c s) verdict t)"
    "logged_post ev st es ''sandbox.refused'' (exec_id b) ?d (refused_record (started_record hs ev profile b command opts verdict c s) verdict t) w"
    using assms(1) by (auto simp: refused_def refused_post_def)
  obtain st' where s: "stored (exec_id b) (refused_record (started_record hs ev profile b command opts verdict c s) verdict t) w"
    "same_fields st st'" "appended ev st' es True ''sandbox.refused'' (Some (exec_id b)) ?d w"
    using x(3) assms(2) by (auto simp: logged_post_def)
  have "ObjAt (refused_record (started_record hs ev profile b command opts verdict c s) verdict t) ''exit_status'' = VNull"
    by (simp add: refused_record_def started_shape)
  then show ?thesis using x(1) s(2) appended_recorded [OF s(3)] stored_loads [OF s(1) x(2)] by blast
qed

section \<open>A failing run\<close>

definition refusal :: "error \<Rightarrow> bool" where
  "refusal e \<longleftrightarrow> (\<exists>vs. e = RefusedError vs)"

lemma step_refusal: "plain i \<Longrightarrow> txn_step refusal (exec_txn i x) (runRefusalPath ev (exec_txn i x) i rec verdict)"
  unfolding runRefusalPath_def by (auto intro!: exec_steps step_allowed simp: refusal_def)

lemma step_execute: "plain i \<Longrightarrow> txn_step A (exec_txn i x) (runExecuteAndLog h hs ev profile (exec_txn i x) i argv command opts rec)"
  unfolding runExecuteAndLog_def Let_def by (auto intro!: exec_steps split: prod.split)

lemma Run_fails:
  assumes "Run h hs ev profile b command opts w = (Inl e, w')" "dir_clear (exec_dir (exec_id b)) w"
  shows "refusal e \<or> (\<exists>a b. e = EUnwindFailed a b) \<or> aside (kv_find (files w)) w'"
proof (cases "PolicyCheck h command profile")
  case (Inl e1)
  with assms(1) show ?thesis by (simp add: Run_def aside_refl)
next
  case (Inr verdict)
  let ?i = "exec_id b" and ?t = "now ev (ticks w)" and ?w = "w\<lparr>ticks := Suc (ticks w)\<rparr>"
  have n: "nowIso ev w = (Inr ?t, ?w)" by (simp add: nowIso_def)
  have run: "(case container_args h hs profile ?i command opts of Inl e \<Rightarrow> fail e | Inr (argv, container) \<Rightarrow>
      bindE (open_exec_dir ?i) (\<lambda>t. let rec = started_record hs ev profile b command opts verdict container ?t in
      bindE (write_record ev t ?i rec) (\<lambda>_. bindE (runRefusalPath ev t ?i rec verdict) (\<lambda>_.
        runExecuteAndLog h hs ev profile t ?i argv command opts rec)))) ?w = (Inl e, w')"
    using assms(1) unfolding Run_def Inr sum.case Let_def started_record_def bindE_step [where m = "nowIso ev", OF n] .
  show ?thesis
  proof (cases "container_args h hs profile ?i command opts")
    case (Inl e1)
    with run have "files w' = files w" by auto
    then show ?thesis by (simp add: aside_def)
  next
    case (Inr ac)
    obtain argv c where ac: "ac = (argv, c)" by (cases ac)
    have clear: "dir_clear (exec_dir ?i) ?w" using assms(2) by (simp add: dir_clear_def)
    have "refusal e \<or> (\<exists>a b. e = EUnwindFailed a b) \<or> aside (kv_find (files ?w)) w'"
      by (rule opened_step_fails [OF run [unfolded Inr ac sum.case prod.case] clear, where A = refusal])
         (simp add: Let_def exec_steps step_refusal step_execute plain_exec_id)
    then show ?thesis by simp
  qed
qed

end
