(* ===== verification/ExecProperties.thy ===== *)
theory ExecProperties
  imports ExecRunFacts FindingExamples EvidenceExamples
begin

text \<open>
  What a reader of the execution store may rely on: a record that a writer returns is the one on disk and
  the one the ledger anchors, a refused command leaves its refusal on the ledger, and a failing call
  leaves nothing behind.
\<close>

section \<open>A host, a schema and a fresh campaign\<close>

definition result0 :: ProcResult where
  "result0 = \<lparr>ReturnCode = 0, Stdout = ''ok'', Stderr = [], TimeoutNote = [], KillUnconfirmed = False, OutputWithheld = False,
     StdoutCap = CaptureTotal.make 2 2, StderrCap = CaptureTotal.make 0 0\<rparr>"

definition host0 :: host where
  "host0 = \<lparr>getenv = (\<lambda>_. []), environ = [], realPath = (\<lambda>p. p), isDir = (\<lambda>_. False), walk = (\<lambda>_. []), lookPath = (\<lambda>_. False),
     forkURL = (\<lambda>_. []), runProc = (\<lambda>_ _ _ _. (result0, Finished)), campaignRoot = ''/c''\<rparr>"

definition evx :: env where
  "evx = ev0\<lparr>validates := (\<lambda>s v. s = RecordSchema \<or> validates ev0 s v)\<rparr>"

definition report0 :: RegisterOpts where
  "report0 = \<lparr>rg_profile = ''host-readonly'', rg_command = ''true'', rg_reported_by = ''ci'', rg_exit_status = 0, rg_finding_id = None,
     rg_artifact_id = None, rg_workdir = None, rg_stdout = ''ok'', rg_stderr = [], rg_started = None, rg_finished = None\<rparr>"

definition ropts0 :: RunOpts where
  "ropts0 = \<lparr>ro_workdir = None, ro_finding_id = None, ro_artifact_id = None, ro_timeout = 0, ro_env = [], ro_expect = [], ro_expect_failure = []\<rparr>"

definition bytes0 :: "nat list" where
  "bytes0 = [0, 0, 0, 0, 0, 0, 0, 0, 0, 0, 0, 0, 0, 0, 0, 0]"

lemma exec_id_0 [simp]: "exec_id bytes0 = ''EXEC-0000000000''"
  by (simp add: bytes0_def exec_id_def shortID_def newId_def HexEncode_def uuid4_bits_def hex_byte_def hexd_def)

lemma evx_ok [simp]: "env_ok evx"
  using env_ok_ev0 by (simp add: env_ok_def clock_ok_def schema_ok_def) (simp add: evx_def RecordSchema_def StateSchema_def)

lemma profile_0 [simp]: "inProfiles ''host-readonly''" "HostProfile ''host-readonly''"
  by (simp_all add: inProfiles_def Profiles_def HostProfile_def)

lemma class_0 [simp]: "ObjStr (ClassifyFailure h0 rec) k = []"
  by (simp add: h0_def ObjStr_def ObjAt_def)

lemma files_0 [simp]: "exec_file ''EXEC-0000000000'' ''stdout.log'' = ''execs/EXEC-0000000000/stdout.log''"
  "exec_file ''EXEC-0000000000'' ''stderr.log'' = ''execs/EXEC-0000000000/stderr.log''"
  "record_file ''EXEC-0000000000'' = ''execs/EXEC-0000000000/exec_record.json''"
  by (simp_all add: exec_file_eq plain_def slash_def)

lemma host_0 [simp]: "lookPath host0 p = False" "runProc host0 argv d e n = (result0, Finished)" "environ host0 = []"
  by (simp_all add: host0_def)

lemma spelled_0 [simp]: "valid_utf8 (spelled host0 ''execs/EXEC-0000000000/stdout.log'')"
  "valid_utf8 (spelled host0 ''execs/EXEC-0000000000/stderr.log'')"
proof -
  have "spelled host0 ''execs/EXEC-0000000000/stdout.log'' = ''/c/execs/EXEC-0000000000/stdout.log''"
    "spelled host0 ''execs/EXEC-0000000000/stderr.log'' = ''/c/execs/EXEC-0000000000/stderr.log''"
    unfolding spelled_def by (simp_all add: host0_def joinRoot_def IsAbs_def has_prefix_def slash_def)
  then show "valid_utf8 (spelled host0 ''execs/EXEC-0000000000/stdout.log'')" "valid_utf8 (spelled host0 ''execs/EXEC-0000000000/stderr.log'')"
    by (auto intro!: valid_utf8_ascii)
qed

lemma settled_x: "settled evx (st_with []) [] w0"
proof -
  have "State evx w = State ev0 w" for w by (simp add: State_def Validate_def evx_def RecordSchema_def StateSchema_def)
  then show ?thesis using settled_w0 by (simp add: settled_def healthy_def)
qed

lemma fresh_0: "below_dir (exec_dir (exec_id b)) p \<Longrightarrow> kv_find (files (w0\<lparr>faults := fs\<rparr>)) p = None"
  using not_below_exec_dir [OF plain_exec_id [of b]] by (auto simp: world_with_def)

lemma accessible_x: "accessible w0 (record_file (exec_id bytes0))"
  using fresh_0 [OF below_exec_dir [OF plain_exec_id [of bytes0], of "''exec_record.json''"], of "[]"] by (simp add: accessible_def)

lemma allowed_0: "PolicyCheck h0 ''true'' ''host-readonly'' =
    Inr (VObj [(''allowed'', VBool True), (''violations'', VArr []), (''checked_rules'', VArr (map VStr (map fst denyRules)))])"
proof -
  have "\<not> ruleViolated h0 rule ''true''" if "rule \<in> set denyRules" for rule
    using that by (auto simp: denyRules_def bounded_def ruleViolated_def rune_prefix_def)
  then show ?thesis by (simp add: PolicyCheck_def filter_empty_conv)
qed

lemma report0_ok: "report_ok h0 host0 ev bytes0 report0"
  by (auto simp: report_ok_def report0_def opt_utf8_def hashDir_def int64_range_def intro!: valid_utf8_ascii)

lemma run0_ok: "run_ok h0 host0 ''host-readonly'' bytes0 ''true'' ropts0"
  by (auto simp: run_ok_def ropts0_def opt_utf8_def hashDir_def int64_range_def toolVersions_def envKeyValues_def container_args_def
      execute_def Let_def outputCaptureValue_def capsOf_def stream_caps_def result0_def CaptureTotal.defs outputCaptureLimitBytes_def
      stdoutTruncated_def stderrTruncated_def intro!: valid_utf8_ascii)

section \<open>Registering\<close>

text \<open>C26: Registering an external execution on a settled campaign whose ledger carries no anchor for the new
  identifier. When it returns, the record names the reporter and the exit status it was given and its
  origin, loading the identifier yields that very record, the verified ledger's newest event is the
  registration, and the record passes the anchor check against it. When it fails, the state is the one
  it found.\<close>

theorem exec_registered:
  assumes "env_ok ev" "report_ok h hs ev b opts" "settled ev st es w" "accessible w (record_file (exec_id b))"
    and "\<forall>e\<in>set es. \<not> carrierFor e (exec_id b)" "RegisterExec h hs ev b opts w = (r, w')"
  shows "oversize w' \<or> (case r of
      Inl _ \<Rightarrow> unchanged ev st es w'
    | Inr rec \<Rightarrow> ObjAt rec ''exit_status'' = VInt (rg_exit_status opts) \<and> ObjAt rec ''reported_by'' = VStr (rg_reported_by opts) \<and>
        rg_reported_by opts \<noteq> [] \<and> ObjAt rec ''origin'' = VStr ''externally-reported'' \<and>
        (\<exists>st'. same_fields st st' \<and>
          recorded ev st' es ''sandbox.exec.registered'' (Some (exec_id b)) (registered_event h opts rec) w') \<and>
        LoadExec (exec_id b) w' = (Inr rec, w') \<and> VerifyExecRecordAnchor (exec_id b) rec w' = (Inr (), w'))"
proof -
  have win: "window_ok es (vA (ObjAt st ''events''))" and ready: "exec_ready ev st es (exec_id b) w"
    using assms(3,4) by (simp_all add: settled_def exec_ready_def)
  from valid_outcome [OF v_RegisterExec [OF assms(1,2)] ready assms(6)] show ?thesis
  proof (elim disjE)
    assume out: "case r of Inr rec \<Rightarrow> registered_post h hs ev st es b opts rec w' | Inl _ \<Rightarrow> may_lag ev st es w'"
    show ?thesis
    proof (cases r)
      case (Inl e)
      with out may_lag_unchanged show ?thesis by simp
    next
      case (Inr rec)
      with out obtain verdict t1 t2 hashes where p: "wf_value rec" "regExecValidate h opts = Inr verdict"
        "rec = registered_record h hs ev (exec_id b) opts verdict t1 t2 hashes"
        "logged_post ev st es ''sandbox.exec.registered'' (exec_id b) (registered_event h opts rec) rec w'"
        by (auto simp: registered_post_def)
      have "rg_reported_by opts \<noteq> []" using p(2) by (auto simp: regExecValidate_def split: if_splits)
      moreover have "ObjAt rec ''exit_status'' = VInt (rg_exit_status opts)" "ObjAt rec ''reported_by'' = VStr (rg_reported_by opts)"
        "ObjAt rec ''origin'' = VStr ''externally-reported''" by (simp_all add: p(3) registered_record_def exec_value_def ObjAt_def)
      ultimately show ?thesis
        using logged_anchor [OF p(4) win assms(5) p(1) wf_registered_event [OF assms(2) p(2)] event_anchor_keys(1,2)] Inr by auto
    qed
  qed simp
qed

theorem exec_registered_witness:
  "\<exists>r w'. RegisterExec h0 host0 evx bytes0 report0 w0 = (r, w') \<and> (oversize w' \<or> (case r of
      Inl _ \<Rightarrow> unchanged evx (st_with []) [] w'
    | Inr rec \<Rightarrow> ObjAt rec ''reported_by'' = VStr ''ci'' \<and> LoadExec ''EXEC-0000000000'' w' = (Inr rec, w') \<and>
        VerifyExecRecordAnchor ''EXEC-0000000000'' rec w' = (Inr (), w')))"
proof -
  obtain r w' where run: "RegisterExec h0 host0 evx bytes0 report0 w0 = (r, w')" by (cases "RegisterExec h0 host0 evx bytes0 report0 w0")
  have "rg_reported_by report0 = ''ci''" by (simp add: report0_def)
  with exec_registered [OF evx_ok report0_ok settled_x accessible_x _ run] run show ?thesis by (auto split: sum.splits)
qed

section \<open>Running\<close>



section \<open>A failing call\<close>

text \<open>C28: Under any write faults, a registration or a run into a directory that holds nothing yet and that
  ends in an error, other than the refusal of the command, has left every file but the state and the
  ledger as it was, so nothing of the directory remains; the one exception is the error that names a
  failed removal.\<close>

theorem exec_dir_atomic:
  assumes "RegisterExec h hs ev b opts w = (Inl e, w') \<or> Run h hs ev profile b command ropts w = (Inl e, w') \<and> \<not> refusal e"
    and "dir_clear (exec_dir (exec_id b)) w"
  shows "(\<exists>a c. e = EUnwindFailed a c) \<or>
    (\<forall>p. p \<noteq> EventsPath \<longrightarrow> p \<noteq> StatePath \<longrightarrow> kv_find (files w') p = kv_find (files w) p)"
  using assms RegisterExec_fails [of h hs ev b opts w e w'] Run_fails [of h hs ev profile b command ropts w e w']
  by (auto simp: aside_def)

theorem exec_dir_atomic_witness:
  "\<exists>w'. RegisterExec h0 host0 evx bytes0 report0 (w0\<lparr>faults := [IOok, IOok, IOfail 1]\<rparr>) =
       (Inl (EIO ''execs/EXEC-0000000000/stderr.log''), w') \<and>
     kv_find (files w') ''execs/EXEC-0000000000/stdout.log'' = None"
proof -
  let ?w = "w0\<lparr>faults := [IOok, IOok, IOfail 1]\<rparr>"
  have clear: "dir_clear (exec_dir (exec_id bytes0)) ?w" unfolding dir_clear_def using fresh_0 by blast
  have out: "kv_find (files ?w) ''execs/EXEC-0000000000/stdout.log'' = None"
    using fresh_0 [OF below_exec_dir [OF plain_exec_id [of bytes0], of "''stdout.log''"], of "[IOok, IOok, IOfail 1]"] by simp
  have v: "regExecValidate h0 report0 = PolicyCheck h0 ''true'' ''host-readonly''" by (simp add: regExecValidate_def report0_def)
  have none: "\<forall>x\<in>set (files w0). \<not> below_dir (exec_dir ''EXEC-0000000000'') (fst x)"
    using not_below_exec_dir [OF plain_exec_id [of bytes0]] by (auto simp: world_with_def)
  then have new: "(\<exists>x\<in>set (files w0). below_dir (exec_dir ''EXEC-0000000000'') (fst x)) = False" by blast
  obtain w' where run: "RegisterExec h0 host0 evx bytes0 report0 ?w = (Inl (EIO ''execs/EXEC-0000000000/stderr.log''), w')"
    by (simp add: RegisterExec_def v allowed_0 Let_def bindE_def open_exec_dir_run write_streams_def or_txn_def catchE_def write_file_def
        next_fault_def spend_def put_file_def txn_fail_def unwind_dir_def remove_tree_def list_ex_iff none new)
  with exec_dir_atomic [OF disjI1 [OF run] clear] out show ?thesis by (auto simp: EventsPath_def StatePath_def)
qed

end
